(* ===== verification/Kruspix_Prelude.thy ===== *)
theory Kruspix_Prelude
  imports Main "HOL-Library.Word" "HOL-Library.Monad_Syntax"
begin

text \<open>
  Shared vocabulary of the kruspix development: the machine integers of the target
  (AArch64, so \<open>usize\<close> is 64 bits wide), the value that stands for a Rust panic, and the
  list and option lemmas that several components use.

  A Rust computation that can panic returns an \<open>option\<close>: \<open>None\<close> is the panic (the kernel is
  built with \<open>panic = "abort"\<close>, so nothing runs after it) and \<open>Some r\<close> is the returned value.
  A Rust \<open>Result\<close> is a sum, \<open>Inl\<close> the error and \<open>Inr\<close> the value. Arithmetic that the release
  build lets wrap is done on words; a natural number stands for a \<open>usize\<close> only where the
  component's own bounds keep it below \<open>2 ^ 64\<close>.
\<close>

unbundle bit_operations_syntax

type_synonym u8 = "8 word"
type_synonym u16 = "16 word"
type_synonym u32 = "32 word"
type_synonym u64 = "64 word"
type_synonym usize = "64 word"

named_theorems rust_simps \<open>evaluation of panics, results and checked accesses\<close>
named_theorems wf_intros \<open>well-formedness rules of the component states\<close>


section \<open>Panics\<close>

text \<open>The \<open>assert!\<close> macro: it panics unless the condition holds.\<close>

definition assert_that :: "bool \<Rightarrow> unit option" where
  "assert_that b = (if b then Some () else None)"

lemma assert_that_True [simp, rust_simps]: "assert_that True = Some ()"
  by (simp add: assert_that_def)

lemma assert_that_False [simp, rust_simps]: "assert_that False = None"
  by (simp add: assert_that_def)

lemma assert_that_eq_Some [simp, rust_simps]: "assert_that b = Some u \<longleftrightarrow> b"
  by (simp add: assert_that_def)

lemma bind_assert_that [rust_simps]:
  "Option.bind (assert_that b) f = (if b then f () else None)"
  by (simp add: assert_that_def)

text \<open>A checked slice or array read \<open>xs[i]\<close>: out of range is a panic.\<close>

definition index_at :: "'a list \<Rightarrow> nat \<Rightarrow> 'a option" where
  "index_at xs i = (if i < length xs then Some (xs ! i) else None)"

lemma index_at_in [simp, rust_simps]: "i < length xs \<Longrightarrow> index_at xs i = Some (xs ! i)"
  by (simp add: index_at_def)

lemma index_at_out [simp, rust_simps]: "length xs \<le> i \<Longrightarrow> index_at xs i = None"
  by (simp add: index_at_def)

lemma index_at_eq_Some: "index_at xs i = Some x \<longleftrightarrow> i < length xs \<and> xs ! i = x"
  by (simp add: index_at_def)

text \<open>A checked write \<open>xs[i] = x\<close>.\<close>

definition update_at :: "'a list \<Rightarrow> nat \<Rightarrow> 'a \<Rightarrow> 'a list option" where
  "update_at xs i x = (if i < length xs then Some (xs[i := x]) else None)"

lemma update_at_in [simp, rust_simps]: "i < length xs \<Longrightarrow> update_at xs i x = Some (xs[i := x])"
  by (simp add: update_at_def)

lemma update_at_out [simp, rust_simps]: "length xs \<le> i \<Longrightarrow> update_at xs i x = None"
  by (simp add: update_at_def)

lemma update_at_eq_Some: "update_at xs i x = Some ys \<longleftrightarrow> i < length xs \<and> ys = xs[i := x]"
  by (auto simp: update_at_def)

text \<open>\<open>Option::ok_or\<close>, and the predicates \<open>Result::is_ok\<close> and \<open>Result::ok\<close>.\<close>

definition ok_or :: "'e \<Rightarrow> 'a option \<Rightarrow> 'e + 'a" where
  "ok_or e v = (case v of None \<Rightarrow> Inl e | Some x \<Rightarrow> Inr x)"

lemma ok_or_simps [simp, rust_simps]: "ok_or e None = Inl e" "ok_or e (Some x) = Inr x"
  by (simp_all add: ok_or_def)

lemma ok_or_eq_Inr [simp]: "ok_or e v = Inr x \<longleftrightarrow> v = Some x"
  by (cases v) simp_all

text \<open>The \<open>?\<close> operator on results.\<close>

definition res_bind :: "'e + 'a \<Rightarrow> ('a \<Rightarrow> 'e + 'b) \<Rightarrow> 'e + 'b" where
  "res_bind r f = (case r of Inl e \<Rightarrow> Inl e | Inr x \<Rightarrow> f x)"

lemma res_bind_simps [simp, rust_simps]: "res_bind (Inl e) f = Inl e" "res_bind (Inr x) f = f x"
  by (simp_all add: res_bind_def)

lemma res_bind_eq_Inr: "res_bind r f = Inr y \<longleftrightarrow> (\<exists>x. r = Inr x \<and> f x = Inr y)"
  by (cases r) simp_all


section \<open>Lists\<close>

text \<open>The last \<open>n\<close> elements of a list (all of them when there are fewer).\<close>

definition last_n :: "nat \<Rightarrow> 'a list \<Rightarrow> 'a list" where
  "last_n n xs = drop (length xs - n) xs"

lemma length_last_n [simp]: "length (last_n n xs) = min n (length xs)"
  by (simp add: last_n_def)

lemma last_n_all [simp]: "length xs \<le> n \<Longrightarrow> last_n n xs = xs"
  by (simp add: last_n_def)

lemma last_n_append_last_n: "last_n n (last_n n xs @ ys) = last_n n (xs @ ys)"
  by (cases "length xs \<le> n") (simp_all add: last_n_def add.commute)

lemma last_n_snoc_full:
  assumes "length xs = n" and "0 < n"
  shows "last_n n (xs @ [x]) = drop 1 xs @ [x]"
  using assms by (simp add: last_n_def)

lemma find_Some_iff_nth:
  "List.find P xs = Some x \<longleftrightarrow> (\<exists>i < length xs. P (xs ! i) \<and> x = xs ! i \<and> (\<forall>j < i. \<not> P (xs ! j)))"
  by (rule find_Some_iff)

lemma find_eq_None_iff: "List.find P xs = None \<longleftrightarrow> (\<forall>x \<in> set xs. \<not> P x)"
  by (auto simp: find_None_iff)

lemma find_SomeD: "List.find P xs = Some x \<Longrightarrow> P x \<and> x \<in> set xs"
  by (auto simp: find_Some_iff)

text \<open>\<open>slice::chunks_exact\<close>: consecutive blocks of \<open>n\<close> elements, a shorter rest dropped.\<close>

function chunks_exact :: "nat \<Rightarrow> 'a list \<Rightarrow> 'a list list" where
  "chunks_exact n xs =
     (if n = 0 \<or> length xs < n then [] else take n xs # chunks_exact n (drop n xs))"
  by pat_completeness auto
termination
  by (relation "measure (\<lambda>(n, xs). length xs)") auto

declare chunks_exact.simps [simp del]

lemma chunks_exact_short: "length xs < n \<Longrightarrow> chunks_exact n xs = []"
  by (subst chunks_exact.simps) simp

lemma chunks_exact_append:
  "length xs = n \<Longrightarrow> 0 < n \<Longrightarrow> chunks_exact n (xs @ ys) = xs # chunks_exact n ys"
  by (subst chunks_exact.simps) simp

lemma chunks_exact_lengths: "c \<in> set (chunks_exact n xs) \<Longrightarrow> length c = n"
proof (induction n xs rule: chunks_exact.induct)
  case (1 n xs)
  show ?case
  proof (cases "n = 0 \<or> length xs < n")
    case True
    with "1.prems" show ?thesis by (subst (asm) chunks_exact.simps) simp
  next
    case False
    with "1.prems" have "c = take n xs \<or> c \<in> set (chunks_exact n (drop n xs))"
      by (subst (asm) chunks_exact.simps) auto
    with False "1.IH" show ?thesis by auto
  qed
qed

lemma concat_chunks_exact: "0 < n \<Longrightarrow> n dvd length xs \<Longrightarrow> concat (chunks_exact n xs) = xs"
proof (induction n xs rule: chunks_exact.induct)
  case (1 n xs)
  show ?case
  proof (cases "length xs < n")
    case True
    with "1.prems" have "xs = []" by (auto dest: dvd_imp_le)
    then show ?thesis using True by (simp add: chunks_exact_short)
  next
    case False
    with "1.prems" have "n dvd length (drop n xs)" by (simp add: dvd_minus_self)
    with False "1.IH" "1.prems" show ?thesis by (subst chunks_exact.simps) simp
  qed
qed

lemma length_chunks_exact: "0 < n \<Longrightarrow> length (chunks_exact n xs) = length xs div n"
proof (induction n xs rule: chunks_exact.induct)
  case (1 n xs)
  then show ?case by (subst chunks_exact.simps) (auto simp: le_div_geq)
qed


section \<open>Byte order\<close>

text \<open>\<open>from_be_bytes\<close> and \<open>from_le_bytes\<close>: the value of a byte string, most (least) significant first.\<close>

definition be_nat :: "u8 list \<Rightarrow> nat" where
  "be_nat bs = foldl (\<lambda>acc b. acc * 256 + unat b) 0 bs"

definition u32_from_be_bytes :: "u8 list \<Rightarrow> u32" where
  "u32_from_be_bytes bs = of_nat (be_nat bs)"

definition u64_from_be_bytes :: "u8 list \<Rightarrow> u64" where
  "u64_from_be_bytes bs = of_nat (be_nat bs)"

definition u16_from_le_bytes :: "u8 list \<Rightarrow> u16" where
  "u16_from_le_bytes bs = of_nat (be_nat (rev bs))"

definition u32_to_be_bytes :: "u32 \<Rightarrow> u8 list" where
  "u32_to_be_bytes w =
     [ucast (drop_bit 24 w), ucast (drop_bit 16 w), ucast (drop_bit 8 w), ucast w]"

definition u16_to_le_bytes :: "u16 \<Rightarrow> u8 list" where
  "u16_to_le_bytes w = [ucast w, ucast (drop_bit 8 w)]"

lemma length_u32_to_be_bytes [simp]: "length (u32_to_be_bytes w) = 4"
  by (simp add: u32_to_be_bytes_def)

lemma length_u16_to_le_bytes [simp]: "length (u16_to_le_bytes w) = 2"
  by (simp add: u16_to_le_bytes_def)

section \<open>Words\<close>

text \<open>Rounding an address down to a multiple of \<open>2 ^ k\<close>, as \<open>addr & !(size - 1)\<close> does.\<close>

lemma and_not_mask_eq: "w AND NOT (mask k) = push_bit k (drop_bit k w)" for w :: "'a::len word"
  by (rule bit_word_eqI) (auto simp: bit_simps)

lemma unat_and_not_mask: "unat (w AND NOT (mask k)) = unat w div 2 ^ k * 2 ^ k"
  for w :: "'a::len word"
proof -
  have "unat w div 2 ^ k * 2 ^ k \<le> unat w" by simp
  also have "\<dots> < 2 ^ LENGTH('a)" by simp
  finally have "take_bit LENGTH('a) (unat w div 2 ^ k * 2 ^ k) = unat w div 2 ^ k * 2 ^ k"
    by (simp add: take_bit_nat_eq_self_iff)
  then have "take_bit LENGTH('a) (push_bit k (drop_bit k (unat w))) = unat w div 2 ^ k * 2 ^ k"
    by (simp add: push_bit_eq_mult drop_bit_eq_div)
  moreover have "unat (w AND NOT (mask k)) = take_bit LENGTH('a) (push_bit k (drop_bit k (unat w)))"
    unfolding and_not_mask_eq unsigned_push_bit_eq unsigned_drop_bit_eq
    by (simp add: take_bit_nat_eq_self)
  ultimately show ?thesis by simp
qed

lemma unat_and_mask: "unat (w AND mask k) = unat w mod 2 ^ k" for w :: "'a::len word"
proof -
  have "unat (w AND mask k) = take_bit k (unat w)"
    unfolding take_bit_eq_mask [symmetric] unsigned_take_bit_eq ..
  then show ?thesis by (simp add: take_bit_eq_mod)
qed

lemma unat_power_of_2: "k < LENGTH('a) \<Longrightarrow> unat (2 ^ k :: 'a::len word) = 2 ^ k"
proof -
  assume k: "k < LENGTH('a)"
  have "(2 ^ k :: 'a word) = of_nat (2 ^ k)" by simp
  then have "unat (2 ^ k :: 'a word) = 2 ^ k mod 2 ^ LENGTH('a)" by (simp only: unat_of_nat)
  with k show ?thesis by simp
qed

lemma unat_less_64 [simp]: "unat (w :: 64 word) < 18446744073709551616"
  using unsigned_less [of w] by simp

lemma unat_less_32 [simp]: "unat (w :: 32 word) < 4294967296"
  using unsigned_less [of w] by simp

lemma unat_less_16 [simp]: "unat (w :: 16 word) < 65536"
  using unsigned_less [of w] by simp

lemma unat_less_8 [simp]: "unat (w :: 8 word) < 256"
  using unsigned_less [of w] by simp

lemma unat_ucast_32_64 [simp]: "unat (ucast (w :: 32 word) :: 64 word) = unat w"
  unfolding unsigned_ucast_eq
  by (rule take_bit_nat_eq_self, rule less_le_trans [OF unat_less_32]) simp

text \<open>\<open>usize::next_multiple_of\<close>, for values whose result is in range.\<close>

definition next_multiple_of :: "nat \<Rightarrow> nat \<Rightarrow> nat" where
  "next_multiple_of n k = (if n mod k = 0 then n else n + (k - n mod k))"

lemma next_multiple_of_dvd:
  assumes "0 < k" shows "k dvd next_multiple_of n k"
proof (cases "n mod k = 0")
  case False
  have "n + (k - n mod k) = (n div k + 1) * k"
    using mod_le_divisor [OF assms, of n] div_mult_mod_eq [of n k] unfolding distrib_right by linarith
  with False show ?thesis by (simp add: next_multiple_of_def)
qed (simp add: next_multiple_of_def dvd_eq_mod_eq_0)

lemma next_multiple_of_le: "n \<le> next_multiple_of n k"
  by (simp add: next_multiple_of_def)

lemma next_multiple_of_less: "0 < k \<Longrightarrow> next_multiple_of n k < n + k"
  by (auto simp: next_multiple_of_def)


section \<open>Strings\<close>

text \<open>A Rust string is its UTF-8 bytes; an Isabelle character is one byte.\<close>

definition str_of_bytes :: "u8 list \<Rightarrow> string" where
  "str_of_bytes bs = map (\<lambda>b. char_of (unat b)) bs"

definition bytes_of_str :: "string \<Rightarrow> u8 list" where
  "bytes_of_str s = map (\<lambda>c. of_nat (of_char c)) s"

lemma str_of_bytes_of_str [simp]: "str_of_bytes (bytes_of_str s) = s"
  by (simp add: str_of_bytes_def bytes_of_str_def comp_def unat_of_nat take_bit_eq_mod map_idI)

lemma bytes_of_str_of_bytes [simp]: "bytes_of_str (str_of_bytes bs) = bs"
  by (induction bs) (simp_all add: bytes_of_str_def str_of_bytes_def word_unat_eq_iff unat_of_nat)

lemma bytes_of_str_append [simp]: "bytes_of_str (s @ t) = bytes_of_str s @ bytes_of_str t"
  by (simp add: bytes_of_str_def)

lemma str_of_bytes_append [simp]: "str_of_bytes (s @ t) = str_of_bytes s @ str_of_bytes t"
  by (simp add: str_of_bytes_def)

lemma length_bytes_of_str [simp]: "length (bytes_of_str s) = length s"
  by (simp add: bytes_of_str_def)

text \<open>\<open>str::split(c)\<close>: the segments between the separators, empty ones included.\<close>

fun split_char :: "char \<Rightarrow> string \<Rightarrow> string list" where
  "split_char c [] = [[]]"
| "split_char c (x # xs) =
     (if x = c then [] # split_char c xs
      else case split_char c xs of [] \<Rightarrow> [[x]] | s # ss \<Rightarrow> (x # s) # ss)"

lemma split_char_not_Nil [simp]: "split_char c xs \<noteq> []"
  by (induction xs) (auto split: list.split)

lemma split_char_no_sep: "c \<notin> set xs \<Longrightarrow> split_char c xs = [xs]"
  by (induction xs) auto

lemma split_char_append_sep: "c \<notin> set xs \<Longrightarrow> split_char c (xs @ c # ys) = xs # split_char c ys"
  by (induction xs) auto

end
