(* ===== verification/Ring_Array.thy ===== *)
theory Ring_Array
  imports Kruspix_Prelude
begin

text \<open>
  \<open>src/common/ring_array.rs\<close>: the fixed-size ring that keeps the newest \<open>N\<close> items, used
  as the boot console. The record mirrors the struct (\<open>N\<close> is the length of the buffer);
  \<open>ring_contents\<close> is what it promises, a log of the last \<open>N\<close> pushed items, oldest first.
  The interface locale \<open>bounded_log\<close> states that promise and is interpreted on the ring.
\<close>

record 'a ring =
  ra_buffer :: "'a list"
  ra_index :: nat
  ra_full :: bool

definition ring_new :: "nat \<Rightarrow> 'a \<Rightarrow> 'a ring" where
  "ring_new n fill = \<lparr>ra_buffer = replicate n fill, ra_index = 0, ra_full = False\<rparr>"

text \<open>\<open>push\<close>: the store is bounds-checked and \<open>% N\<close> panics for \<open>N = 0\<close>.\<close>

definition ring_push :: "'a ring \<Rightarrow> 'a \<Rightarrow> 'a ring option" where
  "ring_push r item = do {
     buffer \<leftarrow> update_at (ra_buffer r) (ra_index r) item;
     let n = length (ra_buffer r);
     assert_that (n \<noteq> 0);
     let r' = r\<lparr>ra_buffer := buffer, ra_index := (ra_index r + 1) mod n\<rparr>;
     (if ra_full r' then Some r' else Some (r'\<lparr>ra_full := (ra_index r' = 0)\<rparr>))
   }"

definition ring_clear :: "'a ring \<Rightarrow> 'a ring" where
  "ring_clear r = r\<lparr>ra_index := 0, ra_full := False\<rparr>"

definition ring_len :: "'a ring \<Rightarrow> nat" where
  "ring_len r = (if ra_full r then length (ra_buffer r) else ra_index r)"

definition ring_is_empty :: "'a ring \<Rightarrow> bool" where
  "ring_is_empty r \<longleftrightarrow> \<not> ra_full r \<and> ra_index r = 0"

definition ring_is_full :: "'a ring \<Rightarrow> bool" where
  "ring_is_full r \<longleftrightarrow> ra_full r"

text \<open>The iterator borrows the buffer and holds a position and the number of items left.\<close>

record 'a ring_iter =
  it_buffer :: "'a list"
  it_pos :: nat
  it_count :: nat

definition ring_iter :: "'a ring \<Rightarrow> 'a ring_iter" where
  "ring_iter r =
     \<lparr>it_buffer = ra_buffer r, it_pos = (if ra_full r then ra_index r else 0), it_count = ring_len r\<rparr>"

text \<open>\<open>Iterator::next\<close>: the outer option is the panic, the inner one Rust's \<open>Option\<close>.\<close>

definition ring_iter_next :: "'a ring_iter \<Rightarrow> ('a option \<times> 'a ring_iter) option" where
  "ring_iter_next it =
     (if it_count it = 0 then Some (None, it)
      else do {
        item \<leftarrow> index_at (it_buffer it) (it_pos it);
        Some (Some item,
              it\<lparr>it_pos := (it_pos it + 1) mod length (it_buffer it), it_count := it_count it - 1\<rparr>)
      })"

text \<open>A \<open>for\<close> loop over the iterator: all items \<open>next\<close> yields until it returns \<open>None\<close>.\<close>

function ring_iter_collect :: "'a ring_iter \<Rightarrow> 'a list option" where
  "ring_iter_collect it =
     (case ring_iter_next it of
        None \<Rightarrow> None
      | Some (None, _) \<Rightarrow> Some []
      | Some (Some x, it') \<Rightarrow> map_option (\<lambda>xs. x # xs) (ring_iter_collect it'))"
  by pat_completeness auto
termination
  by (relation "measure it_count")
     (auto simp: ring_iter_next_def index_at_def split: if_splits)

declare ring_iter_collect.simps [simp del]

text \<open>\<open>drain\<close>: copies the items to the front of \<open>dst\<close> in one or two slices and clears the ring.\<close>

definition ring_drain :: "'a ring \<Rightarrow> 'a list \<Rightarrow> (nat \<times> 'a list \<times> 'a ring) option" where
  "ring_drain r dst = do {
     assert_that (length dst \<ge> ring_len r);
     (if dst = [] \<or> ring_is_empty r then Some (0, dst, r)
      else
        let len = min (ring_len r) (length dst);
            start = (if ra_full r then ra_index r else 0);
            part = min (length (ra_buffer r) - start) len;
            dst1 = take part (drop start (ra_buffer r)) @ drop part dst;
            dst2 = (if len > part
                    then take part dst1 @ take (len - part) (ra_buffer r) @ drop len dst1
                    else dst1)
        in Some (len, dst2, ring_clear r))
   }"


section \<open>Well-formedness and contents\<close>

definition ring_wf :: "'a ring \<Rightarrow> bool" where
  "ring_wf r \<longleftrightarrow> 0 < length (ra_buffer r) \<and> ra_index r < length (ra_buffer r)"

definition ring_capacity :: "'a ring \<Rightarrow> nat" where
  "ring_capacity r = length (ra_buffer r)"

definition ring_contents :: "'a ring \<Rightarrow> 'a list" where
  "ring_contents r =
     (if ra_full r then drop (ra_index r) (ra_buffer r) @ take (ra_index r) (ra_buffer r)
      else take (ra_index r) (ra_buffer r))"

lemma ring_wf_new [wf_intros]: "0 < n \<Longrightarrow> ring_wf (ring_new n x)"
  by (simp add: ring_wf_def ring_new_def)

lemma ring_contents_new [simp]: "ring_contents (ring_new n x) = []"
  by (simp add: ring_contents_def ring_new_def)

lemma ring_capacity_new [simp]: "ring_capacity (ring_new n x) = n"
  by (simp add: ring_capacity_def ring_new_def)

lemma ring_len_contents: "ring_wf r \<Longrightarrow> ring_len r = length (ring_contents r)"
  by (auto simp: ring_len_def ring_contents_def ring_wf_def)

lemma ring_wf_clear [wf_intros]: "ring_wf r \<Longrightarrow> ring_wf (ring_clear r)"
  by (auto simp: ring_wf_def ring_clear_def)

lemma ring_contents_clear [simp]: "ring_contents (ring_clear r) = []"
  by (simp add: ring_contents_def ring_clear_def)

lemma ring_is_empty_iff: "ring_wf r \<Longrightarrow> ring_is_empty r \<longleftrightarrow> ring_contents r = []"
  by (auto simp: ring_is_empty_def ring_contents_def ring_wf_def)

lemma ring_push_defined:
  assumes "ring_wf r"
  shows "\<exists>r'. ring_push r x = Some r' \<and> ring_wf r' \<and> ring_capacity r' = ring_capacity r"
  using assms by (auto simp: ring_wf_def ring_push_def ring_capacity_def rust_simps Let_def)

lemma take_Suc_list_update: "i < length xs \<Longrightarrow> take (Suc i) (xs[i := x]) = take i xs @ [x]"
  by (simp add: take_Suc_conv_app_nth)

lemma ring_push_contents_last_n:
  assumes wf: "ring_wf r" and push: "ring_push r x = Some r'"
  shows "ring_contents r' = last_n (ring_capacity r) (ring_contents r @ [x])"
proof -
  let ?n = "length (ra_buffer r)" and ?i = "ra_index r" and ?b = "ra_buffer r"
  from wf have i: "?i < ?n" by (simp add: ring_wf_def)
  then have r': "r' = (let r1 = r\<lparr>ra_buffer := ?b[?i := x], ra_index := (?i + 1) mod ?n\<rparr>
     in if ra_full r1 then r1 else r1\<lparr>ra_full := ra_index r1 = 0\<rparr>)"
    using push by (auto simp: ring_push_def rust_simps Let_def split: if_splits)
  show ?thesis
  proof (cases "Suc ?i = ?n")
    case True
    with i show ?thesis
      by (auto simp: r' Let_def ring_contents_def last_n_def ring_capacity_def
          take_Suc_list_update [of ?i ?b x, unfolded True, simplified])
  next
    case False
    with i have "Suc ?i < ?n" by simp
    with i show ?thesis
      by (auto simp: r' Let_def ring_contents_def last_n_def ring_capacity_def
          take_Suc_list_update drop_update_cancel)
  qed
qed

lemma ring_iter_collect_from:
  assumes "p < length b" "c \<le> length b"
  shows "ring_iter_collect \<lparr>it_buffer = b, it_pos = p, it_count = c\<rparr> = Some (take c (drop p b @ take p b))"
  using assms
proof (induction c arbitrary: p)
  case 0
  show ?case by (subst ring_iter_collect.simps) (simp add: ring_iter_next_def)
next
  case (Suc c)
  let ?p' = "Suc p mod length b"
  have p': "?p' < length b" using Suc.prems(1) by (intro mod_less_divisor) linarith
  have rot: "drop p b @ take p b = b ! p # (drop (Suc p) b @ take p b)"
    using Suc.prems(1) by (simp add: Cons_nth_drop_Suc)
  have "take c (drop ?p' b @ take ?p' b) = take c (drop (Suc p) b @ take p b)"
  proof (cases "Suc p = length b")
    case True
    then show ?thesis using Suc.prems(2) by simp
  next
    case False
    then have "Suc p < length b" using Suc.prems(1) by simp
    then show ?thesis using Suc.prems by (simp add: take_Suc_conv_app_nth)
  qed
  then show ?case
    using Suc.prems Suc.IH [OF p'] rot
    by (subst ring_iter_collect.simps) (simp add: ring_iter_next_def)
qed

lemma ring_iter_yields_contents:
  assumes "ring_wf r"
  shows "ring_iter_collect (ring_iter r) = Some (ring_contents r)"
  using assms ring_iter_collect_from [of "if ra_full r then ra_index r else 0" "ra_buffer r" "ring_len r"]
  by (auto simp: ring_iter_def ring_wf_def ring_len_def ring_contents_def)


section \<open>The log interface\<close>

text \<open>
  What a user of the ring relies on: pushing never panics and keeps the newest items.
  The client lemma, proved once, says what any sequence of pushes leaves behind.
\<close>

fun push_all :: "('r \<Rightarrow> 'a \<Rightarrow> 'r option) \<Rightarrow> 'r \<Rightarrow> 'a list \<Rightarrow> 'r option" where
  "push_all push r [] = Some r"
| "push_all push r (x # xs) = do { r' \<leftarrow> push r x; push_all push r' xs }"

locale bounded_log =
  fixes push :: "'r \<Rightarrow> 'a \<Rightarrow> 'r option"
    and contents :: "'r \<Rightarrow> 'a list"
    and capacity :: "'r \<Rightarrow> nat"
    and inv :: "'r \<Rightarrow> bool"
  assumes push_total: "inv r \<Longrightarrow> \<exists>r'. push r x = Some r' \<and> inv r' \<and> capacity r' = capacity r"
    and push_contents:
      "inv r \<Longrightarrow> push r x = Some r' \<Longrightarrow> contents r' = last_n (capacity r) (contents r @ [x])"
    and contents_bounded: "inv r \<Longrightarrow> length (contents r) \<le> capacity r"
begin

lemma push_all_contents:
  "inv r \<Longrightarrow> \<exists>r'. push_all push r xs = Some r' \<and> inv r' \<and> capacity r' = capacity r
     \<and> contents r' = last_n (capacity r) (contents r @ xs)"
proof (induction xs arbitrary: r)
  case Nil
  then show ?case using contents_bounded by simp
next
  case (Cons x xs)
  from push_total [OF Cons.prems] obtain r1 where
    r1: "push r x = Some r1" "inv r1" "capacity r1 = capacity r" by blast
  have c1: "contents r1 = last_n (capacity r) (contents r @ [x])"
    using push_contents [OF Cons.prems r1(1)] .
  from Cons.IH [OF r1(2)] obtain r2 where
    "push_all push r1 xs = Some r2" "inv r2" "capacity r2 = capacity r1"
    "contents r2 = last_n (capacity r1) (contents r1 @ xs)" by blast
  with r1 c1 show ?case by (simp add: last_n_append_last_n)
qed

end

interpretation ring: bounded_log ring_push ring_contents ring_capacity ring_wf
proof
  show "\<exists>r'. ring_push r x = Some r' \<and> ring_wf r' \<and> ring_capacity r' = ring_capacity r"
    if "ring_wf r" for r :: "'a ring" and x
    using ring_push_defined [OF that] .
  show "ring_contents r' = last_n (ring_capacity r) (ring_contents r @ [x])"
    if "ring_wf r" "ring_push r x = Some r'" for r r' :: "'a ring" and x
    using ring_push_contents_last_n [OF that] .
  show "length (ring_contents r) \<le> ring_capacity r" if "ring_wf r" for r :: "'a ring"
    using that by (auto simp: ring_contents_def ring_capacity_def ring_wf_def)
qed


section \<open>Properties\<close>

text \<open>Pushing any sequence of items onto a fresh ring of capacity \<open>n > 0\<close> never panics,
  and a loop over the ring's iterator then yields exactly the newest \<open>n\<close> of them, oldest first.\<close>

theorem ring_keeps_newest:
  assumes "0 < n"
  shows "\<exists>r. push_all ring_push (ring_new n fill) xs = Some r
           \<and> ring_iter_collect (ring_iter r) = Some (last_n n xs)
           \<and> ring_len r = min n (length xs)"
proof -
  from ring.push_all_contents [OF ring_wf_new [OF assms], of fill xs]
  obtain r where r: "push_all ring_push (ring_new n fill) xs = Some r" "ring_wf r"
    "ring_contents r = last_n n xs" by auto
  with ring_iter_yields_contents [OF r(2)] ring_len_contents [OF r(2)] show ?thesis by auto
qed

theorem ring_keeps_newest_witness:
  "\<exists>r. push_all ring_push (ring_new 2 (0 :: nat)) [5, 6, 7] = Some r
     \<and> ring_iter_collect (ring_iter r) = Some (last_n 2 [5, 6, 7])
     \<and> ring_len r = min 2 (length [5, 6, 7 :: nat])"
  by (rule ring_keeps_newest) simp

text \<open>Draining a well-formed ring into a destination that is long enough writes exactly
  its contents to the front of the destination, leaves the rest untouched, returns their
  number and leaves the ring empty; a destination that is too short is a panic.\<close>

theorem ring_drain_spec:
  assumes wf: "ring_wf r"
  shows "ring_drain r dst =
    (if length dst < length (ring_contents r) then None
     else Some (length (ring_contents r),
                ring_contents r @ drop (length (ring_contents r)) dst,
                if ring_contents r = [] then r else ring_clear r))"
proof (cases "ra_full r")
  case True
  then show ?thesis using wf
    by (cases "ra_index r = 0")
      (auto simp: ring_drain_def ring_len_def ring_contents_def ring_wf_def
        ring_is_empty_def rust_simps Let_def min_def not_less)
next
  case False
  with wf show ?thesis
    by (auto simp: ring_drain_def ring_len_def ring_contents_def ring_wf_def
        ring_is_empty_def rust_simps Let_def min_def not_less)
qed

theorem ring_drain_spec_witness:
  "ring_drain \<lparr>ra_buffer = [3, 1, 2], ra_index = 1, ra_full = True\<rparr> [0, 0, 0, 9 :: nat]
     = Some (3, [1, 2, 3, 9], \<lparr>ra_buffer = [3, 1, 2], ra_index = 0, ra_full = False\<rparr>)"
  using ring_drain_spec [of "\<lparr>ra_buffer = [3, 1, 2], ra_index = 1, ra_full = True\<rparr>" "[0, 0, 0, 9 :: nat]"]
  by (simp add: ring_wf_def ring_contents_def ring_clear_def)

end
