(* ===== verification/Cpu.thy ===== *)
theory Cpu
  imports Kruspix_Prelude
begin

text \<open>
  \<open>src/arch/arm64/cpu.rs\<close>: the interrupt mask register \<open>DAIF\<close>, the register context of a
  task and the two context switch routines, and the loops that clean or invalidate the data
  cache over a range. The bodies are AArch64 assembly; each definition states the effect of the
  instructions on the registers they name. \<open>CTR_EL0\<close> is an argument.
\<close>

section \<open>Interrupt masking\<close>

text \<open>Bits 9 to 6 of \<open>DAIF\<close> mask debug, SError, IRQ and FIQ exceptions.\<close>

definition daif_irq_fiq :: u64 where
  "daif_irq_fiq = push_bit 6 0b11"

definition daif_all :: u64 where
  "daif_all = push_bit 6 0b1111"

text \<open>Each disabling routine returns the old \<open>DAIF\<close> (the handle) and the new one.\<close>

definition local_disable_interrupts :: "u64 \<Rightarrow> u64 \<times> u64" where
  "local_disable_interrupts daif = (daif, daif OR daif_all)"

definition local_disable_irq_fiq :: "u64 \<Rightarrow> u64 \<times> u64" where
  "local_disable_irq_fiq daif = (daif, daif OR daif_irq_fiq)"

definition local_restore_interrupts :: "u64 \<Rightarrow> u64 \<Rightarrow> u64" where
  "local_restore_interrupts handle daif = handle"

definition local_enable_irq_fiq :: "u64 \<Rightarrow> u64" where
  "local_enable_irq_fiq daif = daif AND NOT daif_irq_fiq"

definition irqs_masked :: "u64 \<Rightarrow> bool" where
  "irqs_masked daif \<longleftrightarrow> daif AND daif_irq_fiq = daif_irq_fiq"

lemma irqs_masked_disable [simp]: "irqs_masked (snd (local_disable_irq_fiq daif))"
  by (simp add: irqs_masked_def local_disable_irq_fiq_def and.commute)

lemma irqs_masked_or: "irqs_masked (daif OR daif_irq_fiq)"
  using irqs_masked_disable [of daif] by (simp add: local_disable_irq_fiq_def)

lemma irqs_masked_disable_all [simp]: "irqs_masked (snd (local_disable_interrupts daif))"
proof -
  have "daif_all AND daif_irq_fiq = daif_irq_fiq"
    by (simp add: daif_all_def daif_irq_fiq_def)
  then show ?thesis
    by (simp add: irqs_masked_def local_disable_interrupts_def bit.conj_disj_distrib2)
qed

text \<open>\<open>without_irq_fiq\<close> and \<open>without_interrupts\<close> of \<open>kernel/sync/mod.rs\<close>: \<open>f\<close> runs on the
  masked register; whatever it leaves there, the handle is written back.\<close>

definition without_irq_fiq :: "(u64 \<Rightarrow> 'r \<times> u64) \<Rightarrow> u64 \<Rightarrow> 'r \<times> u64" where
  "without_irq_fiq f daif =
     (let (handle, daif1) = local_disable_irq_fiq daif;
          (result, daif2) = f daif1
      in (result, local_restore_interrupts handle daif2))"

definition without_interrupts :: "(u64 \<Rightarrow> 'r \<times> u64) \<Rightarrow> u64 \<Rightarrow> 'r \<times> u64" where
  "without_interrupts f daif =
     (let (handle, daif1) = local_disable_interrupts daif;
          (result, daif2) = f daif1
      in (result, local_restore_interrupts handle daif2))"


section \<open>Task contexts\<close>

record arch_context =
  ctx_x19_x30 :: "u64 list"
  ctx_sp :: u64
  ctx_daif :: u64

text \<open>The registers the switch touches; \<open>x19\<close> to \<open>x30\<close> are the callee-saved ones and the link register.\<close>

record cpu_regs =
  cpu_x19_x30 :: "u64 list"
  cpu_sp :: u64
  cpu_daif :: u64

text \<open>\<open>ArchContext::new\<close>, with the end address of the stack slice and the three code addresses.\<close>

definition arch_context_new :: "usize \<Rightarrow> u64 \<Rightarrow> u64 \<Rightarrow> u64 \<Rightarrow> arch_context" where
  "arch_context_new stack_end entry cleanup trampoline =
     \<lparr>ctx_x19_x30 = ((replicate 12 0)[0 := entry])[1 := cleanup, 11 := trampoline],
      ctx_sp = (stack_end - 16) AND NOT 0xF,
      ctx_daif = 0\<rparr>"

definition save_context :: "cpu_regs \<Rightarrow> arch_context" where
  "save_context c = \<lparr>ctx_x19_x30 = cpu_x19_x30 c, ctx_sp = cpu_sp c, ctx_daif = cpu_daif c\<rparr>"

text \<open>\<open>load_context\<close>: the registers after the loads, and the address \<open>ret\<close> jumps to (\<open>x30\<close>).\<close>

definition load_context :: "arch_context \<Rightarrow> cpu_regs \<times> u64" where
  "load_context new =
     (\<lparr>cpu_x19_x30 = ctx_x19_x30 new, cpu_sp = ctx_sp new, cpu_daif = ctx_daif new\<rparr>,
      ctx_x19_x30 new ! 11)"

text \<open>\<open>switch_context\<close> over the contexts of all tasks, so that \<open>old\<close> and \<open>new\<close> may be the same:
  the stores come first.\<close>

definition switch_context ::
  "'t \<Rightarrow> 't \<Rightarrow> cpu_regs \<Rightarrow> ('t \<Rightarrow> arch_context) \<Rightarrow> cpu_regs \<times> u64 \<times> ('t \<Rightarrow> arch_context)" where
  "switch_context old new c ctxs =
     (let ctxs1 = ctxs(old := save_context c);
          (c1, target) = load_context (ctxs1 new)
      in (c1, target, ctxs1))"


section \<open>Cache maintenance over a range\<close>

definition data_cache_line_size :: "u64 \<Rightarrow> usize" where
  "data_cache_line_size ctr_el0 =
     (let dminline = drop_bit 16 ctr_el0 AND 0xF in push_bit (unat (dminline + 2)) 1)"

text \<open>The loop of \<open>clean_data_cache_range\<close> and \<open>invalidate_data_cache_range\<close>: the addresses handed
  to \<open>dc cvac\<close> or \<open>dc ivac\<close>. The additions wrap, so the loop need not end near the top of the
  address space: \<open>None\<close> is a loop that never returns.\<close>

partial_function (option) cache_lines_from :: "usize \<Rightarrow> usize \<Rightarrow> usize \<Rightarrow> usize list option" where
  "cache_lines_from line_size end_addr addr =
     (if addr < end_addr
      then Option.bind (cache_lines_from line_size end_addr (addr + line_size)) (\<lambda>as. Some (addr # as))
      else Some [])"

definition data_cache_range :: "u64 \<Rightarrow> usize \<Rightarrow> usize \<Rightarrow> usize list option" where
  "data_cache_range ctr_el0 start_virt_addr sz =
     (if sz = 0 then Some []
      else
        let line_size = data_cache_line_size ctr_el0;
            end_addr = start_virt_addr + sz;
            addr = start_virt_addr AND NOT (line_size - 1)
        in cache_lines_from line_size end_addr addr)"

lemma dminline_bound: "unat ((drop_bit 16 ctr AND 0xF) + 2 :: u64) \<le> 17"
proof -
  have "unat (drop_bit 16 ctr AND 0xF) = unat (drop_bit 16 ctr) mod 16"
    using unat_and_mask [of "drop_bit 16 ctr" 4] by (simp add: mask_eq_exp_minus_1)
  then have "unat (drop_bit 16 ctr AND 0xF) < 16" by simp
  then show ?thesis by (simp add: unat_word_ariths)
qed

lemma data_cache_line_size_pow2:
  "\<exists>k \<le> 17. data_cache_line_size ctr = 2 ^ k \<and> unat (data_cache_line_size ctr) = 2 ^ k"
proof -
  define k where "k = unat ((drop_bit 16 ctr AND 0xF) + 2 :: u64)"
  have k: "k \<le> 17" unfolding k_def by (rule dminline_bound)
  then have "unat (2 ^ k :: usize) = 2 ^ k" by (intro unat_power_of_2) simp
  moreover have "data_cache_line_size ctr = 2 ^ k"
    by (simp only: data_cache_line_size_def Let_def push_bit_eq_mult k_def mult_1_left)
  ultimately show ?thesis using k by metis
qed

lemma cache_lines_from_nats:
  assumes "unat line = l" "0 < l" "unat e + l \<le> 2 ^ 64" "unat a \<le> unat e + l - 1"
  shows "\<exists>as. cache_lines_from line e a = Some as
     \<and> map unat as = map (\<lambda>i. unat a + i * l) [0 ..< (unat e + l - 1 - unat a) div l]"
  using assms
proof (induction "unat e + l - 1 - unat a" arbitrary: a rule: less_induct)
  case less
  show ?case
  proof (cases "a < e")
    case False
    then have "(unat e + l - 1 - unat a) div l = 0"
      using less.prems(2) by (simp add: word_less_nat_alt)
    then show ?thesis using False by (subst cache_lines_from.simps) simp
  next
    case True
    then have ae: "unat a < unat e" by (simp add: word_less_nat_alt)
    have next_a: "unat (a + line) = unat a + l"
      using less.prems(1,3) ae by (simp add: unat_word_ariths)
    let ?d = "unat e + l - 1 - unat a"
    have "unat e + l - 1 - unat (a + line) < ?d" using next_a ae less.prems(2) by simp
    moreover have "unat (a + line) \<le> unat e + l - 1" using next_a ae by simp
    ultimately obtain as where as: "cache_lines_from line e (a + line) = Some as"
      "map unat as = map (\<lambda>i. unat (a + line) + i * l) [0 ..< (unat e + l - 1 - unat (a + line)) div l]"
      using less.hyps [of "a + line"] less.prems(1-3) by blast
    have "?d div l = Suc ((?d - l) div l)"
      using ae less.prems(2) by (subst le_div_geq) auto
    moreover have "?d - l = unat e + l - 1 - unat (a + line)" using next_a by simp
    ultimately have "[0 ..< ?d div l] = 0 # map Suc [0 ..< (unat e + l - 1 - unat (a + line)) div l]"
      by (simp add: upt_conv_Cons map_Suc_upt del: upt_Suc)
    then show ?thesis using True as next_a
      by (subst cache_lines_from.simps) (simp add: add.assoc)
  qed
qed


section \<open>Properties\<close>

text \<open>Masking is nested correctly: whatever a closure run by \<open>without_irq_fiq\<close> or
  \<open>without_interrupts\<close> does to \<open>DAIF\<close>, it starts with IRQ and FIQ masked, and afterwards the
  register has the value it had before.\<close>

theorem without_interrupts_restores:
  "snd (without_irq_fiq f daif) = daif \<and> snd (without_interrupts f daif) = daif
   \<and> fst (without_irq_fiq (\<lambda>d. (irqs_masked d, d)) daif)
   \<and> fst (without_interrupts (\<lambda>d. (irqs_masked d, d)) daif)"
  using irqs_masked_disable [of daif] irqs_masked_disable_all [of daif]
  by (simp add: without_irq_fiq_def without_interrupts_def local_disable_irq_fiq_def
      local_disable_interrupts_def local_restore_interrupts_def Let_def split_beta)

text \<open>A task switched away from and later switched back to resumes with the callee-saved
  registers, link register, stack pointer and interrupt mask it had, provided the contexts of
  the tasks that ran in between did not overwrite its own.\<close>

theorem switch_context_resumes:
  assumes "switch_context a b c ctxs = (c1, t1, ctxs1)"
    and "a \<noteq> b'" and "ctxs2 a = ctxs1 a"
    and "switch_context b' a c2 ctxs2 = (c3, t3, ctxs3)"
  shows "c3 = c \<and> t3 = cpu_x19_x30 c ! 11"
  using assms
  by (auto simp: switch_context_def load_context_def save_context_def Let_def)

theorem switch_context_resumes_witness:
  "\<exists>c1 t1 ctxs1 c3 t3 ctxs3.
     switch_context (0::nat) 1 \<lparr>cpu_x19_x30 = [1,2,3,4,5,6,7,8,9,10,11,12], cpu_sp = 64, cpu_daif = 192\<rparr>
       (\<lambda>_. arch_context_new 4096 7 8 9) = (c1, t1, ctxs1)
   \<and> switch_context 1 0 c1 ctxs1 = (c3, t3, ctxs3)
   \<and> c3 = \<lparr>cpu_x19_x30 = [1,2,3,4,5,6,7,8,9,10,11,12], cpu_sp = 64, cpu_daif = 192\<rparr> \<and> t3 = 12"
proof -
  let ?c = "\<lparr>cpu_x19_x30 = [1,2,3,4,5,6,7,8,9,10,11,12], cpu_sp = 64, cpu_daif = 192\<rparr>"
  obtain c1 t1 ctxs1 where one:
    "switch_context (0::nat) 1 ?c (\<lambda>_. arch_context_new 4096 7 8 9) = (c1, t1, ctxs1)"
    by (metis prod_cases3)
  obtain c3 t3 ctxs3 where two: "switch_context 1 0 c1 ctxs1 = (c3, t3, ctxs3)"
    by (metis prod_cases3)
  have "c3 = ?c \<and> t3 = cpu_x19_x30 ?c ! 11"
    using switch_context_resumes [OF one _ refl two] by simp
  with one two show ?thesis by auto
qed

lemma context_words:
  "((replicate 12 (0::u64))[0 := x])[1 := y, 11 := z] = [x, y, 0, 0, 0, 0, 0, 0, 0, 0, 0, z]"
  by (simp add: numeral_eq_Suc)

text \<open>The context of a new task makes the first switch enter the trampoline with the entry
  point and the cleanup routine in the registers the trampoline calls, with all interrupts
  unmasked and a 16-byte aligned stack pointer inside the last 32 bytes of the stack.\<close>

theorem new_context_starts_task:
  assumes "32 \<le> unat stack_end"
  shows "fst (load_context (arch_context_new stack_end entry cleanup trampoline)) =
           \<lparr>cpu_x19_x30 = [entry, cleanup, 0, 0, 0, 0, 0, 0, 0, 0, 0, trampoline],
            cpu_sp = ctx_sp (arch_context_new stack_end entry cleanup trampoline), cpu_daif = 0\<rparr>
    \<and> snd (load_context (arch_context_new stack_end entry cleanup trampoline)) = trampoline
    \<and> unat (ctx_sp (arch_context_new stack_end entry cleanup trampoline)) mod 16 = 0
    \<and> unat (ctx_sp (arch_context_new stack_end entry cleanup trampoline)) \<le> unat stack_end - 16
    \<and> unat stack_end - 32 < unat (ctx_sp (arch_context_new stack_end entry cleanup trampoline))"
proof -
  have "unat (stack_end - 16) = unat stack_end - 16"
    using assms by (simp add: unat_sub word_le_nat_alt)
  moreover have "unat ((stack_end - 16) AND NOT 0xF) = unat (stack_end - 16) div 16 * 16"
    using unat_and_not_mask [of "stack_end - 16" 4] by (simp add: mask_eq_exp_minus_1)
  ultimately have sp: "unat (ctx_sp (arch_context_new stack_end entry cleanup trampoline))
      = (unat stack_end - 16) div 16 * 16"
    by (simp add: arch_context_new_def)
  have "unat stack_end - 32 < (unat stack_end - 16) div 16 * 16"
    using assms by linarith
  moreover have "ctx_x19_x30 (arch_context_new stack_end entry cleanup trampoline)
      = [entry, cleanup, 0, 0, 0, 0, 0, 0, 0, 0, 0, trampoline]"
    by (simp only: arch_context_new_def context_words arch_context.simps)
  moreover have "ctx_daif (arch_context_new stack_end entry cleanup trampoline) = 0"
    by (simp add: arch_context_new_def)
  ultimately show ?thesis by (simp add: load_context_def sp)
qed

theorem new_context_starts_task_witness:
  "unat (ctx_sp (arch_context_new 0x4000 1 2 3)) mod 16 = 0
   \<and> unat (ctx_sp (arch_context_new 0x4000 1 2 3)) \<le> 0x4000 - 16"
  using new_context_starts_task [of "0x4000" 1 2 3] by simp

text \<open>Cleaning or invalidating a range that ends at least one cache line below the top of
  the address space terminates; the lines it touches are aligned, cover every byte of the range,
  and each of them overlaps the range.\<close>

theorem data_cache_range_covers:
  fixes start sz :: usize
  assumes "unat start + unat sz + 2 ^ 17 \<le> 2 ^ 64"
  shows "\<exists>as. data_cache_range ctr start sz = Some as
    \<and> (\<forall>a \<in> set as. unat a mod unat (data_cache_line_size ctr) = 0
          \<and> unat a < unat start + unat sz \<and> unat start < unat a + unat (data_cache_line_size ctr))
    \<and> (\<forall>x. unat start \<le> x \<and> x < unat start + unat sz
          \<longrightarrow> (\<exists>a \<in> set as. unat a \<le> x \<and> x < unat a + unat (data_cache_line_size ctr)))"
proof (cases "sz = 0")
  case True
  then show ?thesis by (simp add: data_cache_range_def)
next
  case False
  obtain k where k: "k \<le> 17" "data_cache_line_size ctr = 2 ^ k" "unat (data_cache_line_size ctr) = 2 ^ k"
    using data_cache_line_size_pow2 by blast
  let ?l = "(2::nat) ^ k" and ?e = "start + sz" and ?a = "start AND NOT (data_cache_line_size ctr - 1)"
  let ?A = "unat start div ?l * ?l"
  have l: "0 < ?l" "?l \<le> 2 ^ 17"
    using k(1) power_increasing [of k 17 "2::nat"] by simp_all
  have sz: "0 < unat sz" using False by (simp add: unat_gt_0)
  have e: "unat ?e = unat start + unat sz" using assms by (simp add: unat_word_ariths)
  have a: "unat ?a = ?A"
    using unat_and_not_mask [of start k] k(2) by (simp add: mask_eq_exp_minus_1)
  have A: "?A \<le> unat start" "unat start < ?A + ?l"
    using dividend_less_div_times [OF l(1), of "unat start"] by (simp_all add: add.commute)
  let ?n = "(unat ?e + ?l - 1 - unat ?a) div ?l"
  obtain as where as: "cache_lines_from (data_cache_line_size ctr) ?e ?a = Some as"
    "map unat as = map (\<lambda>i. unat ?a + i * ?l) [0 ..< ?n]"
  proof -
    have "unat ?e + ?l \<le> 2 ^ 64" using e l(2) assms by linarith
    moreover have "unat ?a \<le> unat ?e + ?l - 1" using e a A(1) l(1) by linarith
    ultimately show thesis using cache_lines_from_nats [OF k(3) l(1)] that by blast
  qed
  have mem: "unat ` set as = (\<lambda>i. ?A + i * ?l) ` {..< ?n}"
    using arg_cong [OF as(2), of set] a by (simp add: lessThan_atLeast0)
  have n: "i < ?n \<longleftrightarrow> ?A + i * ?l < unat start + unat sz" for i
  proof -
    have "i < ?n \<longleftrightarrow> Suc i * ?l \<le> unat ?e + ?l - 1 - unat ?a"
      using l(1) by (simp add: less_eq_div_iff_mult_less_eq Suc_le_eq [symmetric])
    also have "\<dots> \<longleftrightarrow> ?A + i * ?l < unat start + unat sz"
      using A sz l(1) unfolding e a mult_Suc by linarith
    finally show ?thesis .
  qed
  have props: "unat b mod ?l = 0 \<and> unat b < unat start + unat sz \<and> unat start < unat b + ?l"
    if "b \<in> set as" for b
  proof -
    from that mem obtain i where i: "i < ?n" "unat b = ?A + i * ?l" by blast
    then show ?thesis using n [of i] A by (auto simp: mod_add_eq [symmetric] trans_less_add1)
  qed
  have cover: "\<exists>b \<in> set as. unat b \<le> x \<and> x < unat b + ?l"
    if x: "unat start \<le> x" "x < unat start + unat sz" for x
  proof -
    let ?i = "(x - ?A) div ?l"
    have "?i * ?l \<le> x - ?A" by simp
    then have lo: "?A + ?i * ?l \<le> x" using A(1) x(1) by linarith
    have "x - ?A < ?i * ?l + ?l" using dividend_less_div_times [OF l(1), of "x - ?A"] by linarith
    then have hi: "x < ?A + ?i * ?l + ?l" using A(1) x(1) by linarith
    have "?i < ?n" using n lo x by simp
    then have "?A + ?i * ?l \<in> unat ` set as" unfolding mem by blast
    then obtain b where b: "b \<in> set as" "?A + ?i * ?l = unat b" by blast
    show ?thesis using b(1) lo hi unfolding b(2) by blast
  qed
  have "data_cache_range ctr start sz = Some as"
    using False as(1) by (simp add: data_cache_range_def Let_def)
  then show ?thesis using props cover k(3) by auto
qed

theorem data_cache_range_covers_witness:
  "\<exists>as. data_cache_range 0 6 7 = Some as
    \<and> (\<forall>x. 6 \<le> x \<and> x < 13 \<longrightarrow> (\<exists>a \<in> set as. unat a \<le> x \<and> x < unat a + 4))"
proof -
  have "unat (data_cache_line_size 0) = 4"
    by (simp add: data_cache_line_size_def)
  then show ?thesis using data_cache_range_covers [of 6 7 0] by auto
qed

end
