(* ===== verification/Locks.thy ===== *)
theory Locks
  imports Cpu
begin

text \<open>
  \<open>src/kernel/sync\<close> and \<open>src/common/hash.rs\<close>: the spin lock, the write-once cell and the lock
  striping by address. The two concurrent objects are step relations in which any core (or
  thread) may move next and every atomic access of the source is one step; the loops of the
  source are the steps that stay in the loop. \<open>once_set\<close> and \<open>once_get\<close> are the sequential
  reading of the cell that the other components use, behind the interface \<open>once_cell\<close>.
\<close>

section \<open>Address-striped locks\<close>

definition golden_ratio_mul :: usize where
  "golden_ratio_mul = 0x9e3779b97f4a7c15"

definition fibonacci_hash :: "usize \<Rightarrow> usize" where
  "fibonacci_hash a = drop_bit 2 a * golden_ratio_mul"

definition addr_lock_bits :: nat where "addr_lock_bits = 8"
definition addr_lock_count :: nat where "addr_lock_count = 2 ^ addr_lock_bits"
definition addr_lock_count_shift :: nat where "addr_lock_count_shift = 64 - addr_lock_bits"

definition addr_lock_index :: "usize \<Rightarrow> nat" where
  "addr_lock_index addr = unat (drop_bit addr_lock_count_shift (fibonacci_hash addr))"

text \<open>\<open>with_addr_lock\<close>: the indexing panics out of range; the guard is held while \<open>f\<close> runs. A
  lock that is already held when nothing else runs is a spin that never ends, also \<open>None\<close>.\<close>

definition with_addr_lock ::
  "usize \<Rightarrow> bool list \<Rightarrow> (bool list \<Rightarrow> 'r \<times> bool list) \<Rightarrow> ('r \<times> bool list) option" where
  "with_addr_lock addr locks f = do {
     let i = addr_lock_index addr;
     held \<leftarrow> index_at locks i;
     (if held then None
      else let (r, locks') = f (locks[i := True]) in Some (r, locks'[i := False]))
   }"

lemma addr_lock_index_bound: "addr_lock_index addr < addr_lock_count"
proof -
  have "unat (drop_bit 56 w) < 256" for w :: u64
    unfolding unsigned_drop_bit_eq using unsigned_less [of w, where 'a = nat]
    by (simp add: take_bit_nat_eq_self drop_bit_eq_div less_mult_imp_div_less)
  then show ?thesis
    by (simp add: addr_lock_index_def addr_lock_count_def addr_lock_count_shift_def addr_lock_bits_def)
qed

text \<open>Words that share a 4-byte register share a lock: the hash drops the two low bits.\<close>

lemma addr_lock_index_word:
  "drop_bit 2 a = drop_bit 2 b \<Longrightarrow> addr_lock_index a = addr_lock_index b"
  by (simp add: addr_lock_index_def fibonacci_hash_def)


section \<open>The spin lock\<close>

text \<open>
  Where a core stands: outside, in the \<open>swap\<close> loop, holding the guard, or inside the guard's
  \<open>drop\<close> after the store. The option is the saved interrupt state (\<open>irq_handle\<close>).
\<close>

datatype sl_pc =
    SlOutside
  | SlSpinning "u64 option"
  | SlHolding "u64 option"
  | SlReleased "u64 option"

record sl_state =
  sl_locked :: bool
  sl_pcs :: "nat \<Rightarrow> sl_pc"
  sl_daif :: "nat \<Rightarrow> u64"

inductive sl_step :: "sl_state \<Rightarrow> sl_state \<Rightarrow> bool" where
  lock: "sl_pcs s i = SlOutside \<Longrightarrow>
     sl_step s (s\<lparr>sl_pcs := (sl_pcs s)(i := SlSpinning None)\<rparr>)"
| lock_irq: "sl_pcs s i = SlOutside \<Longrightarrow> local_disable_irq_fiq (sl_daif s i) = (h, d) \<Longrightarrow>
     sl_step s (s\<lparr>sl_daif := (sl_daif s)(i := d), sl_pcs := (sl_pcs s)(i := SlSpinning (Some h))\<rparr>)"
| swap_busy: "sl_pcs s i = SlSpinning h \<Longrightarrow> sl_locked s \<Longrightarrow>
     sl_step s (s\<lparr>sl_locked := True\<rparr>)"
| swap_free: "sl_pcs s i = SlSpinning h \<Longrightarrow> \<not> sl_locked s \<Longrightarrow>
     sl_step s (s\<lparr>sl_locked := True, sl_pcs := (sl_pcs s)(i := SlHolding h)\<rparr>)"
| try_lock_busy: "sl_pcs s i = SlOutside \<Longrightarrow> sl_locked s \<Longrightarrow>
     sl_step s (s\<lparr>sl_locked := True\<rparr>)"
| try_lock_free: "sl_pcs s i = SlOutside \<Longrightarrow> \<not> sl_locked s \<Longrightarrow>
     sl_step s (s\<lparr>sl_locked := True, sl_pcs := (sl_pcs s)(i := SlHolding None)\<rparr>)"
| try_lock_irq_busy: "sl_pcs s i = SlOutside \<Longrightarrow> sl_locked s \<Longrightarrow>
     local_disable_irq_fiq (sl_daif s i) = (h, d) \<Longrightarrow>
     sl_step s (s\<lparr>sl_locked := True, sl_daif := (sl_daif s)(i := local_restore_interrupts h d)\<rparr>)"
| try_lock_irq_free: "sl_pcs s i = SlOutside \<Longrightarrow> \<not> sl_locked s \<Longrightarrow>
     local_disable_irq_fiq (sl_daif s i) = (h, d) \<Longrightarrow>
     sl_step s (s\<lparr>sl_locked := True, sl_daif := (sl_daif s)(i := d),
                  sl_pcs := (sl_pcs s)(i := SlHolding (Some h))\<rparr>)"
| drop_store: "sl_pcs s i = SlHolding h \<Longrightarrow>
     sl_step s (s\<lparr>sl_locked := False, sl_pcs := (sl_pcs s)(i := SlReleased h)\<rparr>)"
| drop_restore: "sl_pcs s i = SlReleased (Some h) \<Longrightarrow>
     sl_step s (s\<lparr>sl_daif := (sl_daif s)(i := local_restore_interrupts h (sl_daif s i)),
                  sl_pcs := (sl_pcs s)(i := SlOutside)\<rparr>)"
| drop_plain: "sl_pcs s i = SlReleased None \<Longrightarrow>
     sl_step s (s\<lparr>sl_pcs := (sl_pcs s)(i := SlOutside)\<rparr>)"

definition sl_init :: "(nat \<Rightarrow> u64) \<Rightarrow> sl_state" where
  "sl_init daif = \<lparr>sl_locked = False, sl_pcs = (\<lambda>_. SlOutside), sl_daif = daif\<rparr>"

inductive sl_reachable :: "(nat \<Rightarrow> u64) \<Rightarrow> sl_state \<Rightarrow> bool" for daif where
  start: "sl_reachable daif (sl_init daif)"
| step: "sl_reachable daif s \<Longrightarrow> sl_step s t \<Longrightarrow> sl_reachable daif t"

fun sl_is_holding :: "sl_pc \<Rightarrow> bool" where
  "sl_is_holding (SlHolding h) = True"
| "sl_is_holding _ = False"

definition sl_holds :: "sl_state \<Rightarrow> nat \<Rightarrow> bool" where
  "sl_holds s i \<longleftrightarrow> sl_is_holding (sl_pcs s i)"

text \<open>The flag is set exactly while one core holds the guard.\<close>

definition sl_mutex_inv :: "sl_state \<Rightarrow> bool" where
  "sl_mutex_inv s \<longleftrightarrow>
     (\<forall>i j. sl_holds s i \<longrightarrow> sl_holds s j \<longrightarrow> i = j) \<and> (sl_locked s \<longleftrightarrow> (\<exists>i. sl_holds s i))"

text \<open>The handle a core has to restore; while it has one its interrupts are masked, and with none
  its mask is the one it started with.\<close>

fun sl_handle :: "sl_pc \<Rightarrow> u64 option" where
  "sl_handle SlOutside = None"
| "sl_handle (SlSpinning h) = h"
| "sl_handle (SlHolding h) = h"
| "sl_handle (SlReleased h) = h"

definition sl_irq_inv :: "(nat \<Rightarrow> u64) \<Rightarrow> sl_state \<Rightarrow> bool" where
  "sl_irq_inv daif s \<longleftrightarrow>
     (\<forall>i. sl_handle (sl_pcs s i) = None \<longrightarrow> sl_daif s i = daif i)
   \<and> (\<forall>i h. sl_handle (sl_pcs s i) = Some h \<longrightarrow> h = daif i \<and> irqs_masked (sl_daif s i))"

lemma sl_mutex_inv_same:
  "sl_mutex_inv s \<Longrightarrow> sl_holds t = sl_holds s \<Longrightarrow> sl_locked t = sl_locked s \<Longrightarrow> sl_mutex_inv t"
  by (simp add: sl_mutex_inv_def)

lemma sl_mutex_inv_acquire:
  "sl_mutex_inv s \<Longrightarrow> \<not> sl_locked s \<Longrightarrow> sl_locked t \<Longrightarrow> sl_holds t = (sl_holds s)(i := True)
     \<Longrightarrow> sl_mutex_inv t"
  by (auto simp: sl_mutex_inv_def)

lemma sl_mutex_inv_release:
  "sl_mutex_inv s \<Longrightarrow> sl_holds s i \<Longrightarrow> \<not> sl_locked t \<Longrightarrow> sl_holds t = (sl_holds s)(i := False)
     \<Longrightarrow> sl_mutex_inv t"
  by (auto simp: sl_mutex_inv_def)

lemma sl_step_mutex: "sl_step s t \<Longrightarrow> sl_mutex_inv s \<Longrightarrow> sl_mutex_inv t"
proof (induction rule: sl_step.induct)
  case (swap_free s i h)
  then show ?case by (auto intro: sl_mutex_inv_acquire [of s _ i] simp: sl_holds_def fun_eq_iff)
next
  case (try_lock_free s i)
  then show ?case by (auto intro: sl_mutex_inv_acquire [of s _ i] simp: sl_holds_def fun_eq_iff)
next
  case (try_lock_irq_free s i h d)
  then show ?case by (auto intro: sl_mutex_inv_acquire [of s _ i] simp: sl_holds_def fun_eq_iff)
next
  case (drop_store s i h)
  then show ?case by (auto intro: sl_mutex_inv_release [of s i] simp: sl_holds_def fun_eq_iff)
qed (auto elim!: sl_mutex_inv_same simp: sl_holds_def fun_eq_iff)

lemma sl_step_irq: "sl_step s t \<Longrightarrow> sl_irq_inv daif s \<Longrightarrow> sl_irq_inv daif t"
  by (induction rule: sl_step.induct)
     (auto simp: sl_irq_inv_def local_disable_irq_fiq_def local_restore_interrupts_def irqs_masked_or)

lemma sl_reachable_inv: "sl_reachable daif s \<Longrightarrow> sl_mutex_inv s \<and> sl_irq_inv daif s"
proof (induction rule: sl_reachable.induct)
  case start
  show ?case by (simp add: sl_init_def sl_mutex_inv_def sl_irq_inv_def sl_holds_def)
next
  case (step s t)
  then show ?case using sl_step_mutex sl_step_irq by blast
qed


section \<open>The write-once cell\<close>

definition UNINITIALIZED :: u8 where "UNINITIALIZED = 0"
definition INITIALIZING :: u8 where "INITIALIZING = 1"
definition INITIALIZED :: u8 where "INITIALIZED = 2"

lemmas once_status_defs = UNINITIALIZED_def INITIALIZING_def INITIALIZED_def

record 'v once =
  once_status :: u8
  once_data :: "'v option"

definition once_new :: "'v once" where
  "once_new = \<lparr>once_status = UNINITIALIZED, once_data = None\<rparr>"

definition once_is_initialized :: "'v once \<Rightarrow> bool" where
  "once_is_initialized c \<longleftrightarrow> once_status c = INITIALIZED"

definition once_get :: "'v once \<Rightarrow> 'v option" where
  "once_get c = (if once_status c = INITIALIZED then once_data c else None)"

text \<open>
  A thread inside \<open>set\<close>: about to match the status it loaded, past the successful
  \<open>compare_exchange\<close>, past the write of the value, or returned. \<open>OlPanic\<close> is \<open>unreachable!()\<close>.
\<close>

datatype 'v ol_pc =
    OlIdle
  | OlMatch u8 'v
  | OlClaimed 'v
  | OlWritten 'v
  | OlOk 'v
  | OlErr 'v
  | OlPanic

record 'v ol_state =
  ol_cell :: "'v once"
  ol_pcs :: "nat \<Rightarrow> 'v ol_pc"

definition ol_goto :: "'v ol_state \<Rightarrow> nat \<Rightarrow> 'v ol_pc \<Rightarrow> 'v ol_state" where
  "ol_goto s i pc = s\<lparr>ol_pcs := (ol_pcs s)(i := pc)\<rparr>"

inductive ol_step :: "'v ol_state \<Rightarrow> 'v ol_state \<Rightarrow> bool" where
  call: "ol_pcs s i = OlIdle \<Longrightarrow> ol_step s (ol_goto s i (OlMatch (once_status (ol_cell s)) v))"
| already: "ol_pcs s i = OlMatch INITIALIZED v \<Longrightarrow> ol_step s (ol_goto s i (OlErr v))"
| reload: "ol_pcs s i = OlMatch INITIALIZING v \<Longrightarrow>
     ol_step s (ol_goto s i (OlMatch (once_status (ol_cell s)) v))"
| claim: "ol_pcs s i = OlMatch UNINITIALIZED v \<Longrightarrow> once_status (ol_cell s) = UNINITIALIZED \<Longrightarrow>
     ol_step s ((ol_goto s i (OlClaimed v))\<lparr>ol_cell := (ol_cell s)\<lparr>once_status := INITIALIZING\<rparr>\<rparr>)"
| lost: "ol_pcs s i = OlMatch UNINITIALIZED v \<Longrightarrow> once_status (ol_cell s) \<noteq> UNINITIALIZED \<Longrightarrow>
     ol_step s (ol_goto s i (OlMatch (once_status (ol_cell s)) v))"
| unreachable: "ol_pcs s i = OlMatch st v \<Longrightarrow> st \<notin> {INITIALIZED, INITIALIZING, UNINITIALIZED} \<Longrightarrow>
     ol_step s (ol_goto s i OlPanic)"
| fill: "ol_pcs s i = OlClaimed v \<Longrightarrow>
     ol_step s ((ol_goto s i (OlWritten v))\<lparr>ol_cell := (ol_cell s)\<lparr>once_data := Some v\<rparr>\<rparr>)"
| publish: "ol_pcs s i = OlWritten v \<Longrightarrow>
     ol_step s ((ol_goto s i (OlOk v))\<lparr>ol_cell := (ol_cell s)\<lparr>once_status := INITIALIZED\<rparr>\<rparr>)"

inductive ol_reachable :: "'v ol_state \<Rightarrow> bool" where
  start: "ol_reachable \<lparr>ol_cell = once_new, ol_pcs = (\<lambda>_. OlIdle)\<rparr>"
| step: "ol_reachable s \<Longrightarrow> ol_step s t \<Longrightarrow> ol_reachable t"

text \<open>One thread owns the cell from its successful exchange on, and the cell follows it.\<close>

fun ol_owned :: "'v once \<Rightarrow> 'v ol_pc \<Rightarrow> bool" where
  "ol_owned c (OlClaimed v) = (once_status c = INITIALIZING)"
| "ol_owned c (OlWritten v) = (once_status c = INITIALIZING \<and> once_data c = Some v)"
| "ol_owned c (OlOk v) = (once_status c = INITIALIZED \<and> once_data c = Some v)"
| "ol_owned c _ = False"

text \<open>Every other thread is idle, still matching a status the cell has had, or refused.\<close>

fun ol_passive :: "u8 \<Rightarrow> 'v ol_pc \<Rightarrow> bool" where
  "ol_passive st OlIdle = True"
| "ol_passive st (OlMatch seen v) =
     (seen = UNINITIALIZED \<or> seen = INITIALIZING \<or> seen = INITIALIZED \<and> st = INITIALIZED)"
| "ol_passive st (OlErr v) = (st = INITIALIZED)"
| "ol_passive st _ = False"

fun ol_fresh :: "'v ol_pc \<Rightarrow> bool" where
  "ol_fresh OlIdle = True"
| "ol_fresh (OlMatch seen v) = (seen = UNINITIALIZED)"
| "ol_fresh _ = False"

fun ol_inv :: "nat option \<Rightarrow> 'v ol_state \<Rightarrow> bool" where
  "ol_inv None s = (ol_cell s = once_new \<and> (\<forall>i. ol_fresh (ol_pcs s i)))"
| "ol_inv (Some k) s =
     (ol_owned (ol_cell s) (ol_pcs s k)
      \<and> (\<forall>i. i \<noteq> k \<longrightarrow> ol_passive (once_status (ol_cell s)) (ol_pcs s i)))"

lemma ol_fresh_passive: "ol_fresh pc \<Longrightarrow> ol_passive st pc"
  by (cases pc) auto

lemma ol_passive_initialized: "ol_passive st pc \<Longrightarrow> ol_passive INITIALIZED pc"
  by (cases pc) auto

lemma ol_owned_status: "ol_owned c pc \<Longrightarrow> once_status c \<in> {INITIALIZING, INITIALIZED}"
  by (cases pc) auto

lemma ol_inv_freshD: "ol_pcs s i = pc \<Longrightarrow> ol_inv None s \<Longrightarrow> ol_fresh pc \<and> once_status (ol_cell s) = UNINITIALIZED"
  by (auto simp: once_new_def)

lemma ol_inv_ownedD:
  "ol_pcs s i = pc \<Longrightarrow> ol_inv (Some k) s \<Longrightarrow>
     (if i = k then ol_owned (ol_cell s) pc else ol_passive (once_status (ol_cell s)) pc)"
  by auto

lemma ol_step_inv_fresh:
  "ol_step s t \<Longrightarrow> ol_inv None s \<Longrightarrow> ol_inv None t \<or> (\<exists>k. ol_inv (Some k) t)"
proof (induction rule: ol_step.induct)
  case (claim s i v)
  then have "ol_inv (Some i) ((ol_goto s i (OlClaimed v))\<lparr>ol_cell := (ol_cell s)\<lparr>once_status := INITIALIZING\<rparr>\<rparr>)"
    by (auto simp: ol_goto_def ol_fresh_passive)
  then show ?case by blast
qed (force dest: ol_inv_freshD simp: ol_goto_def once_status_defs)+

lemma ol_step_inv_owned:
  "ol_step s t \<Longrightarrow> ol_inv (Some k) s \<Longrightarrow> ol_inv (Some k) t"
proof (induction rule: ol_step.induct)
  case (fill s i v)
  then show ?case
    by (auto dest: ol_inv_ownedD simp: ol_goto_def split: if_splits)
next
  case (publish s i v)
  then show ?case
    by (auto dest: ol_inv_ownedD simp: ol_goto_def ol_passive_initialized split: if_splits)
qed (frule (1) ol_inv_ownedD; force dest: ol_owned_status simp: ol_goto_def once_status_defs split: if_splits)+

text \<open>Once published, the cell never changes again.\<close>

lemma ol_step_stable:
  "ol_step s t \<Longrightarrow> ol_inv (Some k) s \<Longrightarrow> once_status (ol_cell s) = INITIALIZED \<Longrightarrow> ol_cell t = ol_cell s"
proof (induction rule: ol_step.induct)
qed (frule (1) ol_inv_ownedD; force simp: ol_goto_def once_status_defs split: if_splits)+

lemma ol_reachable_inv: "ol_reachable s \<Longrightarrow> ol_inv None s \<or> (\<exists>k. ol_inv (Some k) s)"
proof (induction rule: ol_reachable.induct)
  case start
  show ?case by (simp add: once_new_def)
next
  case (step s t)
  then show ?case using ol_step_inv_fresh ol_step_inv_owned by blast
qed


section \<open>Sequential use of the cell\<close>

text \<open>\<open>set\<close> with no other thread inside it; \<open>None\<close> is a spin that never ends.\<close>

definition once_set :: "'v once \<Rightarrow> 'v \<Rightarrow> (('v + unit) \<times> 'v once) option" where
  "once_set c v =
     (if once_status c = INITIALIZED then Some (Inl v, c)
      else if once_status c = UNINITIALIZED
        then Some (Inr (), c\<lparr>once_data := Some v, once_status := INITIALIZED\<rparr>)
      else None)"

definition once_wf :: "'v once \<Rightarrow> bool" where
  "once_wf c \<longleftrightarrow> c = once_new \<or> (\<exists>v. c = \<lparr>once_status = INITIALIZED, once_data = Some v\<rparr>)"

fun set_all :: "('c \<Rightarrow> 'v \<Rightarrow> (('v + unit) \<times> 'c) option) \<Rightarrow> 'c \<Rightarrow> 'v list \<Rightarrow> (('v + unit) list \<times> 'c) option" where
  "set_all put c [] = Some ([], c)"
| "set_all put c (v # vs) = do {
     (r, c1) \<leftarrow> put c v;
     (rs, c2) \<leftarrow> set_all put c1 vs;
     Some (r # rs, c2)
   }"

locale once_cell =
  fixes new :: "'c"
    and get :: "'c \<Rightarrow> 'v option"
    and put :: "'c \<Rightarrow> 'v \<Rightarrow> (('v + unit) \<times> 'c) option"
    and inv :: "'c \<Rightarrow> bool"
  assumes inv_new: "inv new"
    and get_new: "get new = None"
    and put_first: "inv c \<Longrightarrow> get c = None \<Longrightarrow> \<exists>c'. put c v = Some (Inr (), c') \<and> inv c' \<and> get c' = Some v"
    and put_again: "inv c \<Longrightarrow> get c = Some w \<Longrightarrow> put c v = Some (Inl v, c)"
begin

lemma put_all_again:
  "inv c \<Longrightarrow> get c = Some w \<Longrightarrow> set_all put c vs = Some (map Inl vs, c)"
  by (induction vs) (simp_all add: put_again)

lemma first_set_wins:
  "\<exists>c. set_all put new (v # vs) = Some (Inr () # map Inl vs, c) \<and> inv c \<and> get c = Some v"
proof -
  obtain c where c: "put new v = Some (Inr (), c)" "inv c" "get c = Some v"
    using put_first [OF inv_new get_new] by blast
  then show ?thesis using put_all_again [OF c(2,3)] by simp
qed

lemma put_inv: "inv c \<Longrightarrow> \<exists>r c'. put c v = Some (r, c') \<and> inv c'"
  using put_first [of c v] put_again [of c _ v] by (cases "get c") blast+

end

interpretation once: once_cell once_new once_get once_set once_wf
  by unfold_locales
     (auto simp: once_wf_def once_new_def once_get_def once_set_def once_status_defs)

lemma once_get_wf: "once_wf c \<Longrightarrow> once_get c = once_data c"
  by (auto simp: once_wf_def once_get_def once_new_def once_status_defs)


section \<open>Properties\<close>

text \<open>C20: In every reachable state of any number of cores contending for a spin lock through
  \<open>lock\<close>, \<open>lock_irq\<close>, \<open>try_lock\<close> and \<open>try_lock_irq\<close>, at most one core holds the guard, the flag
  is set exactly while one does, a core between \<open>lock_irq\<close> and the drop of its guard has
  interrupts masked, and a core outside has exactly the interrupt mask it started with.\<close>

theorem spin_lock_safe:
  assumes "sl_reachable daif s"
  shows "(\<forall>i j. sl_holds s i \<longrightarrow> sl_holds s j \<longrightarrow> i = j)
    \<and> (sl_locked s \<longleftrightarrow> (\<exists>i. sl_holds s i))
    \<and> (\<forall>i h. sl_pcs s i = SlHolding (Some h) \<longrightarrow> irqs_masked (sl_daif s i) \<and> h = daif i)
    \<and> (\<forall>i. sl_pcs s i = SlOutside \<longrightarrow> sl_daif s i = daif i)"
  using sl_reachable_inv [OF assms] by (auto simp: sl_mutex_inv_def sl_irq_inv_def)

theorem spin_lock_safe_witness:
  "\<exists>s. sl_reachable (\<lambda>_. 0) s \<and> sl_pcs s 1 = SlHolding (Some 0)
     \<and> irqs_masked (sl_daif s 1) \<and> (\<forall>j. sl_holds s j \<longrightarrow> 1 = j)"
proof -
  let ?s0 = "sl_init (\<lambda>_. 0)"
  let ?s1 = "?s0\<lparr>sl_daif := (sl_daif ?s0)(1 := daif_irq_fiq), sl_pcs := (sl_pcs ?s0)(1 := SlSpinning (Some 0))\<rparr>"
  let ?s2 = "?s1\<lparr>sl_locked := True, sl_pcs := (sl_pcs ?s1)(1 := SlHolding (Some 0))\<rparr>"
  have "sl_step ?s0 ?s1" by (rule sl_step.lock_irq) (simp_all add: sl_init_def local_disable_irq_fiq_def)
  moreover have "sl_step ?s1 ?s2" by (rule sl_step.swap_free) (simp_all add: sl_init_def)
  ultimately have "sl_reachable (\<lambda>_. 0) ?s2" by (blast intro: sl_reachable.intros)
  moreover have "sl_pcs ?s2 1 = SlHolding (Some 0)" "sl_holds ?s2 1" by (simp_all add: sl_holds_def)
  ultimately show ?thesis using spin_lock_safe [of "\<lambda>_. 0" ?s2] by metis
qed

text \<open>The striped lock chosen for an address always exists, so \<open>with_addr_lock\<close> never indexes
  out of range: with its lock free it runs the closure with that lock held and releases it.\<close>

theorem with_addr_lock_runs:
  assumes "length locks = addr_lock_count" and "\<not> locks ! addr_lock_index addr"
  shows "with_addr_lock addr locks f =
    (let (r, locks') = f (locks[addr_lock_index addr := True])
     in Some (r, locks'[addr_lock_index addr := False]))"
  using assms addr_lock_index_bound [of addr] by (simp add: with_addr_lock_def Let_def split: prod.split)

theorem with_addr_lock_runs_witness:
  "with_addr_lock 0x1000 (replicate 256 False) (\<lambda>ls. (length ls, ls))
     = Some (256, (replicate 256 False)[addr_lock_index 0x1000 := False])"
  using with_addr_lock_runs [of "replicate 256 False" "0x1000" "\<lambda>ls. (length ls, ls)"]
    addr_lock_index_bound [of "0x1000"]
  by (simp add: addr_lock_count_def addr_lock_bits_def)

text \<open>However threads interleave inside \<open>OnceLock::set\<close>, at most one of them succeeds, the
  \<open>unreachable!()\<close> arm is never taken, \<open>get\<close> returns the winner's value and nothing else from the
  moment the winner returns, and a refused thread implies that a value is there.\<close>

theorem once_lock_single_winner:
  assumes "ol_reachable s"
  shows "(ol_pcs s i = OlOk v \<longrightarrow> ol_pcs s j = OlOk w \<longrightarrow> i = j \<and> v = w)
    \<and> ol_pcs s i \<noteq> OlPanic
    \<and> (ol_pcs s i = OlOk v \<longrightarrow> once_get (ol_cell s) = Some v)
    \<and> (ol_pcs s i = OlErr v \<longrightarrow> once_get (ol_cell s) \<noteq> None)
    \<and> (ol_step s t \<longrightarrow> once_get (ol_cell s) \<noteq> None \<longrightarrow> once_get (ol_cell t) = once_get (ol_cell s))"
  using ol_reachable_inv [OF assms]
proof
  assume inv: "ol_inv None s"
  have "ol_pcs s k \<noteq> OlOk u \<and> ol_pcs s k \<noteq> OlErr u \<and> ol_pcs s k \<noteq> OlPanic" for k u
    using ol_inv_freshD [OF refl inv, of k] by auto
  with inv show ?thesis by (auto simp: once_get_def once_new_def once_status_defs)
next
  assume "\<exists>k. ol_inv (Some k) s"
  then obtain k where inv: "ol_inv (Some k) s" by blast
  have data: "once_status (ol_cell s) = INITIALIZED \<Longrightarrow> once_data (ol_cell s) \<noteq> None"
    using inv by (cases "ol_pcs s k") (auto simp: once_status_defs)
  show ?thesis
    using ol_inv_ownedD [OF refl inv, of i] ol_inv_ownedD [OF refl inv, of j] data
      ol_step_stable [OF _ inv, of t]
    by (auto simp: once_get_def split: if_splits)
qed

theorem once_lock_single_winner_witness:
  "\<exists>s. ol_reachable s \<and> ol_pcs s 0 = OlOk (7::nat) \<and> once_get (ol_cell s) = Some 7"
proof -
  let ?s0 = "\<lparr>ol_cell = once_new :: nat once, ol_pcs = (\<lambda>_. OlIdle)\<rparr>"
  let ?s1 = "ol_goto ?s0 0 (OlMatch (once_status (ol_cell ?s0)) 7)"
  let ?s2 = "(ol_goto ?s1 0 (OlClaimed 7))\<lparr>ol_cell := (ol_cell ?s1)\<lparr>once_status := INITIALIZING\<rparr>\<rparr>"
  let ?s3 = "(ol_goto ?s2 0 (OlWritten 7))\<lparr>ol_cell := (ol_cell ?s2)\<lparr>once_data := Some 7\<rparr>\<rparr>"
  let ?s4 = "(ol_goto ?s3 0 (OlOk 7))\<lparr>ol_cell := (ol_cell ?s3)\<lparr>once_status := INITIALIZED\<rparr>\<rparr>"
  have 1: "ol_step ?s0 ?s1" by (rule ol_step.call) simp
  have 2: "ol_step ?s1 ?s2" by (rule ol_step.claim) (simp_all add: ol_goto_def once_new_def)
  have 3: "ol_step ?s2 ?s3" by (rule ol_step.fill) (simp add: ol_goto_def)
  have 4: "ol_step ?s3 ?s4" by (rule ol_step.publish) (simp add: ol_goto_def)
  have "ol_reachable ?s4"
    by (intro ol_reachable.step [OF _ 4] ol_reachable.step [OF _ 3] ol_reachable.step [OF _ 2]
        ol_reachable.step [OF _ 1] ol_reachable.start)
  moreover have "ol_pcs ?s4 0 = OlOk 7" by (simp add: ol_goto_def)
  ultimately obtain s where s: "ol_reachable s" "ol_pcs s 0 = OlOk (7::nat)" by blast
  then show ?thesis using once_lock_single_winner [OF s(1), of 0 7] by blast
qed

text \<open>Used by one thread at a time, the first \<open>set\<close> of a fresh cell succeeds, every later one is
  refused with its own value handed back, and \<open>get\<close> returns the first value throughout.\<close>

theorem once_lock_first_set_wins:
  "\<exists>c. set_all once_set once_new (v # vs) = Some (Inr () # map Inl vs, c) \<and> once_get c = Some v"
  using once.first_set_wins [of v vs] by blast

end
