(* ===== verification/Phys_Memory.thy ===== *)
theory Phys_Memory
  imports Kruspix_Prelude
begin

text \<open>
  \<open>src/mm/layout.rs\<close>, \<open>src/mm/memory.rs\<close> and the address translation of \<open>src/mm/mod.rs\<close>: the
  virtual memory map, the subtraction of reserved regions from the memory banks, and the linear
  map. A region is a pair of base address and length; \<open>region_bytes\<close> is the set of addresses it
  stands for, the specification every region operation is measured against.
\<close>

section \<open>The virtual memory map\<close>

definition USER_MAP_OFFSET :: usize where "USER_MAP_OFFSET = 0x0000000000000000"
definition USER_MAP_SIZE :: usize where "USER_MAP_SIZE = 0x0001000000000000"
definition UNUSED_MAP_OFFSET :: usize where "UNUSED_MAP_OFFSET = 0xffff000000000000"
definition UNUSED_MAP_SIZE :: usize where "UNUSED_MAP_SIZE = 0x0000800000000000"
definition LINEAR_MAP_OFFSET :: usize where "LINEAR_MAP_OFFSET = 0xffff800000000000"
definition LINEAR_MAP_SIZE :: usize where "LINEAR_MAP_SIZE = 0x0000100000000000"
definition HEAP_MAP_OFFSET :: usize where "HEAP_MAP_OFFSET = 0xffffa00000000000"
definition HEAP_MAP_SIZE :: usize where "HEAP_MAP_SIZE = 0x0000100000000000"
definition IO_PERIPHERALS_MAP_OFFSET :: usize where "IO_PERIPHERALS_MAP_OFFSET = 0xffffd00000000000"
definition IO_PERIPHERALS_MAP_SIZE :: usize where "IO_PERIPHERALS_MAP_SIZE = 0x0000100000000000"

lemmas map_layout_defs =
  USER_MAP_OFFSET_def USER_MAP_SIZE_def UNUSED_MAP_OFFSET_def UNUSED_MAP_SIZE_def
  LINEAR_MAP_OFFSET_def LINEAR_MAP_SIZE_def HEAP_MAP_OFFSET_def HEAP_MAP_SIZE_def
  IO_PERIPHERALS_MAP_OFFSET_def IO_PERIPHERALS_MAP_SIZE_def

definition virt_to_phys :: "usize \<Rightarrow> usize" where
  "virt_to_phys va = (if va \<ge> LINEAR_MAP_OFFSET then va - LINEAR_MAP_OFFSET else va)"

definition phys_to_virt :: "usize \<Rightarrow> usize" where
  "phys_to_virt pa = pa + LINEAR_MAP_OFFSET"

lemma unat_phys_to_virt:
  "unat pa < unat LINEAR_MAP_SIZE \<Longrightarrow> unat (phys_to_virt pa) = unat pa + unat LINEAR_MAP_OFFSET"
  by (simp add: phys_to_virt_def map_layout_defs unat_word_ariths)

lemma virt_to_phys_to_virt:
  assumes "unat pa < unat LINEAR_MAP_SIZE"
  shows "virt_to_phys (phys_to_virt pa) = pa"
proof -
  have "LINEAR_MAP_OFFSET \<le> phys_to_virt pa"
    using unat_phys_to_virt [OF assms] by (simp add: word_le_nat_alt)
  then show ?thesis by (simp add: virt_to_phys_def phys_to_virt_def)
qed


section \<open>Regions\<close>

type_synonym region = "usize \<times> usize"

definition region_ok :: "region \<Rightarrow> bool" where
  "region_ok r \<longleftrightarrow> unat (fst r) + unat (snd r) < 2 ^ 64"

definition region_bytes :: "region \<Rightarrow> nat set" where
  "region_bytes r = {unat (fst r) ..< unat (fst r) + unat (snd r)}"

text \<open>\<open>region_diff\<close>, arm by arm; the sums wrap as in a release build.\<close>

definition region_diff :: "region \<Rightarrow> region \<Rightarrow> region \<times> region" where
  "region_diff mem rsv =
     (let (mem_addr, mem_size) = mem; (rsv_addr, rsv_size) = rsv in
      if rsv_addr + rsv_size \<le> mem_addr \<or> mem_addr + mem_size \<le> rsv_addr
        then ((mem_addr, mem_size), (0, 0))
      else if rsv_addr \<le> mem_addr \<and> rsv_addr + rsv_size < mem_addr + mem_size
        then ((rsv_addr + rsv_size, mem_size - (rsv_addr + rsv_size - mem_addr)), (0, 0))
      else if rsv_addr \<le> mem_addr then ((0, 0), (0, 0))
      else if mem_addr + mem_size \<le> rsv_addr + rsv_size
        then ((mem_addr, rsv_addr - mem_addr), (0, 0))
      else ((mem_addr, rsv_addr - mem_addr),
            (rsv_addr + rsv_size, (mem_addr + mem_size) - (rsv_addr + rsv_size))))"

text \<open>The inner loop of \<open>calc_available_mem\<close>: one bank against all reserved regions, the upper
  parts of splits pushed on \<open>new_mem\<close> (an array of 32, so the 33rd push panics).\<close>

fun subtract_reserved :: "region \<Rightarrow> region list \<Rightarrow> region list \<Rightarrow> (region \<times> region list) option" where
  "subtract_reserved m [] new_mem = Some (m, new_mem)"
| "subtract_reserved m (rsv # rsvs) new_mem =
     (let (d0, d1) = region_diff m rsv in
      if snd d1 \<noteq> 0
      then (if length new_mem < 32 then subtract_reserved d0 rsvs (new_mem @ [d1]) else None)
      else subtract_reserved d0 rsvs new_mem)"

text \<open>The outer \<open>for\<close>: banks of length zero are filtered out, the first \<open>skip\<close> of the others skipped.\<close>

fun mem_round :: "region list \<Rightarrow> nat \<Rightarrow> region list \<Rightarrow> region list \<Rightarrow> (region list \<times> region list) option" where
  "mem_round [] skip rsvs new_mem = Some ([], new_mem)"
| "mem_round (m # ms) skip rsvs new_mem =
     (if snd m = 0 then map_option (apfst (\<lambda>ms'. m # ms')) (mem_round ms skip rsvs new_mem)
      else if 0 < skip then map_option (apfst (\<lambda>ms'. m # ms')) (mem_round ms (skip - 1) rsvs new_mem)
      else do {
        (m', new_mem1) \<leftarrow> subtract_reserved m rsvs new_mem;
        (ms', new_mem2) \<leftarrow> mem_round ms 0 rsvs new_mem1;
        Some (m' # ms', new_mem2)
      })"

text \<open>The \<open>loop\<close>; each repetition appends the new regions at \<open>mem_index\<close>, which grows.\<close>

function avail_loop :: "region list \<Rightarrow> nat \<Rightarrow> nat \<Rightarrow> region list \<Rightarrow> region list option" where
  "avail_loop mem mem_skip mem_index rsvs =
     (case mem_round mem mem_skip rsvs [] of
        None \<Rightarrow> None
      | Some (mem', new_mem) \<Rightarrow>
          if new_mem = [] \<or> mem_index \<ge> 32 then Some mem'
          else avail_loop
                 (take mem_index mem' @ take (32 - mem_index) (new_mem @ replicate (32 - length new_mem) (0, 0)))
                 mem_index (mem_index + length new_mem) rsvs)"
  by pat_completeness auto
termination
  by (relation "measure (\<lambda>(mem, mem_skip, mem_index, rsvs). 32 - mem_index)") (auto simp: neq_Nil_conv)

declare avail_loop.simps [simp del]

definition first_empty :: "region list \<Rightarrow> nat" where
  "first_empty mem = length (takeWhile (\<lambda>r. snd r \<noteq> 0) mem)"

text \<open>The regions subtracted: the non-empty reserved ones, then the kernel image.\<close>

definition all_reserved :: "region list \<Rightarrow> region \<Rightarrow> region list" where
  "all_reserved reserved_mem kernel_region = filter (\<lambda>r. snd r \<noteq> 0) reserved_mem @ [kernel_region]"

text \<open>\<open>sort_unstable_by\<close> on decreasing length; the order among equal lengths is one of those the
  library allows.\<close>

definition sort_by_size_desc :: "region list \<Rightarrow> region list" where
  "sort_by_size_desc = sort_key (\<lambda>r. - int (unat (snd r)))"

definition calc_available_mem :: "region list \<Rightarrow> region list \<Rightarrow> region \<Rightarrow> region list option" where
  "calc_available_mem mem reserved_mem kernel_region =
     map_option sort_by_size_desc
       (avail_loop mem 0 (first_empty mem) (all_reserved reserved_mem kernel_region))"


section \<open>Subtracting one region\<close>

text \<open>All sums in range, the tests and the results read as natural numbers.\<close>

lemma region_diff_nat:
  assumes "region_ok mem" "region_ok rsv"
  shows "region_bytes (fst (region_diff mem rsv)) \<union> region_bytes (snd (region_diff mem rsv))
           = region_bytes mem - region_bytes rsv"
    and "region_bytes (fst (region_diff mem rsv)) \<inter> region_bytes (snd (region_diff mem rsv)) = {}"
    and "region_ok (fst (region_diff mem rsv))" "region_ok (snd (region_diff mem rsv))"
proof -
  obtain ma ms ra rs where [simp]: "mem = (ma, ms)" "rsv = (ra, rs)" by (cases mem, cases rsv)
  have sums: "unat (ma + ms) = unat ma + unat ms" "unat (ra + rs) = unat ra + unat rs"
    using assms by (simp_all add: region_ok_def unat_word_ariths)
  note cmp = word_le_nat_alt word_less_nat_alt sums
  have sub: "unat (x - y) = unat x - unat y" if "unat y \<le> unat x" for x y :: usize
    using that by (simp add: unat_sub word_le_nat_alt)
  consider
      (out) "unat ra + unat rs \<le> unat ma \<or> unat ma + unat ms \<le> unat ra"
    | (low) "\<not> (unat ra + unat rs \<le> unat ma \<or> unat ma + unat ms \<le> unat ra)"
        "unat ra \<le> unat ma" "unat ra + unat rs < unat ma + unat ms"
    | (all) "\<not> (unat ra + unat rs \<le> unat ma \<or> unat ma + unat ms \<le> unat ra)"
        "unat ra \<le> unat ma" "\<not> unat ra + unat rs < unat ma + unat ms"
    | (high) "\<not> (unat ra + unat rs \<le> unat ma \<or> unat ma + unat ms \<le> unat ra)"
        "\<not> unat ra \<le> unat ma" "unat ma + unat ms \<le> unat ra + unat rs"
    | (mid) "\<not> (unat ra + unat rs \<le> unat ma \<or> unat ma + unat ms \<le> unat ra)"
        "\<not> unat ra \<le> unat ma" "\<not> unat ma + unat ms \<le> unat ra + unat rs"
    by blast
  then have "region_bytes (fst (region_diff mem rsv)) \<union> region_bytes (snd (region_diff mem rsv))
           = region_bytes mem - region_bytes rsv
    \<and> region_bytes (fst (region_diff mem rsv)) \<inter> region_bytes (snd (region_diff mem rsv)) = {}
    \<and> region_ok (fst (region_diff mem rsv)) \<and> region_ok (snd (region_diff mem rsv))"
  proof cases
    case out
    then show ?thesis using assms
      by (auto simp: region_diff_def cmp region_bytes_def region_ok_def)
  next
    case low
    then have "unat (ms - (ra + rs - ma)) = unat ms - (unat ra + unat rs - unat ma)"
      using assms by (simp add: sub sums)
    with low show ?thesis using assms
      by (auto simp: region_diff_def cmp region_bytes_def region_ok_def)
  next
    case all
    then show ?thesis using assms
      by (auto simp: region_diff_def cmp region_bytes_def region_ok_def)
  next
    case high
    then show ?thesis using assms
      by (auto simp: region_diff_def cmp region_bytes_def region_ok_def sub)
  next
    case mid
    then show ?thesis using assms
      by (auto simp: region_diff_def cmp region_bytes_def region_ok_def sub)
  qed
  then show "region_bytes (fst (region_diff mem rsv)) \<union> region_bytes (snd (region_diff mem rsv))
           = region_bytes mem - region_bytes rsv"
    and "region_bytes (fst (region_diff mem rsv)) \<inter> region_bytes (snd (region_diff mem rsv)) = {}"
    and "region_ok (fst (region_diff mem rsv))" "region_ok (snd (region_diff mem rsv))"
    by blast+
qed

definition reserved_bytes :: "region list \<Rightarrow> nat set" where
  "reserved_bytes rsvs = (\<Union>r \<in> set rsvs. region_bytes r)"

lemma reserved_bytes_Cons [simp]: "reserved_bytes (r # rs) = region_bytes r \<union> reserved_bytes rs"
  and reserved_bytes_Nil [simp]: "reserved_bytes [] = {}"
  by (simp_all add: reserved_bytes_def)

lemma region_bytes_empty [simp]: "region_bytes r = {} \<longleftrightarrow> snd r = 0"
  by (simp add: region_bytes_def unat_eq_0)

lemma subtract_reserved_spec:
  assumes "subtract_reserved m rsvs nm = Some (m', nm')"
    and "region_ok m" "\<forall>r \<in> set rsvs. region_ok r"
  shows "region_ok m' \<and> region_bytes m' \<subseteq> region_bytes m - reserved_bytes rsvs
    \<and> (\<exists>frags. nm' = nm @ frags \<and> (\<forall>f \<in> set frags. region_ok f \<and> snd f \<noteq> 0 \<and> region_bytes f \<subseteq> region_bytes m))"
  using assms
proof (induction m rsvs nm rule: subtract_reserved.induct)
  case (1 m nm)
  then show ?case by simp
next
  case (2 m rsv rsvs nm)
  obtain d0 d1 where d: "region_diff m rsv = (d0, d1)" by (cases "region_diff m rsv")
  have ok: "region_ok m" "region_ok rsv" using "2.prems" by simp_all
  note diff = region_diff_nat [OF ok, unfolded d, simplified]
  have d0: "region_bytes d0 \<subseteq> region_bytes m" "region_bytes d0 \<inter> region_bytes rsv = {}"
    and d1: "region_bytes d1 \<subseteq> region_bytes m" using diff(1) by auto
  show ?case
  proof (cases "snd d1 = 0")
    case True
    then have "subtract_reserved d0 rsvs nm = Some (m', nm')" using "2.prems"(1) d by simp
    then obtain frags where "region_ok m'" "region_bytes m' \<subseteq> region_bytes d0 - reserved_bytes rsvs"
      "nm' = nm @ frags" "\<forall>f \<in> set frags. region_ok f \<and> snd f \<noteq> 0 \<and> region_bytes f \<subseteq> region_bytes d0"
      using "2.IH"(2) [of "(d0, d1)" d0 d1] "2.prems"(3) d True diff(3) by auto
    then show ?thesis using d0 by auto
  next
    case False
    then have "subtract_reserved d0 rsvs (nm @ [d1]) = Some (m', nm')" "length nm < 32"
      using "2.prems"(1) d by (auto split: if_splits)
    then obtain frags where "region_ok m'" "region_bytes m' \<subseteq> region_bytes d0 - reserved_bytes rsvs"
      "nm' = (nm @ [d1]) @ frags" "\<forall>f \<in> set frags. region_ok f \<and> snd f \<noteq> 0 \<and> region_bytes f \<subseteq> region_bytes d0"
      using "2.IH"(1) [of "(d0, d1)" d0 d1] "2.prems"(3) d False diff(3) by auto
    then show ?thesis using d0 d1 diff(4) False by (intro conjI exI [of _ "d1 # frags"]) auto
  qed
qed

lemma mem_round_empty: "\<forall>r \<in> set zs. snd r = 0 \<Longrightarrow> mem_round zs k rsvs nm = Some (zs, nm)"
  by (induction zs) simp_all

lemma mem_round_skip:
  assumes "\<forall>r \<in> set xs. snd r \<noteq> 0" "k \<le> length xs"
  shows "mem_round (xs @ zs) k rsvs nm =
    map_option (apfst (\<lambda>ys. take k xs @ ys)) (mem_round (drop k xs @ zs) 0 rsvs nm)"
  using assms
proof (induction xs arbitrary: k)
  case (Cons x xs)
  then show ?case
    by (cases k) (auto simp: option.map_comp comp_def apfst_compose option.map_id apfst_id id_def[symmetric] split: option.splits)
qed (cases "mem_round zs 0 rsvs nm"; auto)

lemma mem_round_spec:
  assumes "mem_round ms 0 rsvs nm = Some (ms', nm')"
    and "\<forall>r \<in> set ms. region_ok r" "\<forall>r \<in> set rsvs. region_ok r"
  shows "length ms' = length ms
    \<and> (\<forall>r \<in> set ms'. region_ok r \<and> region_bytes r \<subseteq> reserved_bytes ms - reserved_bytes rsvs)
    \<and> (\<exists>frags. nm' = nm @ frags \<and> (\<forall>f \<in> set frags. region_ok f \<and> snd f \<noteq> 0 \<and> region_bytes f \<subseteq> reserved_bytes ms))"
  using assms
proof (induction ms arbitrary: nm ms' nm')
  case Nil
  then show ?case by simp
next
  case (Cons m ms)
  show ?case
  proof (cases "snd m = 0")
    case True
    then obtain ms1 where "mem_round ms 0 rsvs nm = Some (ms1, nm')" "ms' = m # ms1"
      using Cons.prems(1) by auto
    with Cons.IH [of nm ms1 nm'] Cons.prems True show ?thesis
      by (auto simp flip: region_bytes_empty)
  next
    case False
    then obtain m1 nm1 ms1 where 1: "subtract_reserved m rsvs nm = Some (m1, nm1)"
      "mem_round ms 0 rsvs nm1 = Some (ms1, nm')" "ms' = m1 # ms1"
      using Cons.prems(1) by (auto split: option.splits simp: bind_eq_Some_conv)
    note sub = subtract_reserved_spec [OF 1(1)]
    note rest = Cons.IH [OF 1(2)]
    show ?thesis using sub rest Cons.prems 1(3) by fastforce
  qed
qed

text \<open>Whether every round that is followed by another leaves its banks non-empty; then skipping
  \<open>mem_index\<close> banks skips exactly the ones already processed.\<close>

function no_bank_vanishes :: "region list \<Rightarrow> nat \<Rightarrow> nat \<Rightarrow> region list \<Rightarrow> bool" where
  "no_bank_vanishes mem mem_skip mem_index rsvs =
     (case mem_round mem mem_skip rsvs [] of
        None \<Rightarrow> True
      | Some (mem', new_mem) \<Rightarrow>
          if new_mem = [] \<or> mem_index \<ge> 32 then True
          else (\<forall>r \<in> set (take mem_index mem'). snd r \<noteq> 0)
             \<and> no_bank_vanishes
                 (take mem_index mem' @ take (32 - mem_index) (new_mem @ replicate (32 - length new_mem) (0, 0)))
                 mem_index (mem_index + length new_mem) rsvs)"
  by pat_completeness auto
termination
  by (relation "measure (\<lambda>(mem, mem_skip, mem_index, rsvs). 32 - mem_index)") (auto simp: neq_Nil_conv)

declare no_bank_vanishes.simps [simp del]

lemma avail_loop_sound:
  assumes "avail_loop mem k n rsvs = Some out" "no_bank_vanishes mem k n rsvs"
    and "\<forall>r \<in> set rsvs. region_ok r" "\<forall>r \<in> set mem. region_ok r"
    and "mem = xs @ zs" "\<forall>r \<in> set xs. snd r \<noteq> 0" "\<forall>r \<in> set zs. snd r = 0"
    and "length mem = 32" "length xs = min n 32" "k \<le> length xs"
    and "\<forall>r \<in> set (take k xs). region_bytes r \<inter> reserved_bytes rsvs = {}"
    and "reserved_bytes mem \<subseteq> B"
  shows "\<forall>r \<in> set out. region_ok r \<and> region_bytes r \<subseteq> B - reserved_bytes rsvs"
  using assms
proof (induction mem k n rsvs arbitrary: xs zs rule: avail_loop.induct)
  case (1 mem k n rsvs)
  obtain mem' nm where round: "mem_round mem k rsvs [] = Some (mem', nm)"
    using "1.prems"(1) by (subst (asm) avail_loop.simps) (auto split: option.splits)
  then obtain ys where ys: "mem_round (drop k xs @ zs) 0 rsvs [] = Some (ys, nm)" "mem' = take k xs @ ys"
    using mem_round_skip [OF "1.prems"(6,10), of zs rsvs "[]"] "1.prems"(5) by auto
  have sub: "set (drop k xs @ zs) \<subseteq> set mem" using "1.prems"(5) by (auto dest: in_set_dropD)
  then have sub_bytes: "reserved_bytes (drop k xs @ zs) \<subseteq> B"
    using "1.prems"(12) by (auto simp: reserved_bytes_def)
  have spec: "length ys = length (drop k xs @ zs)"
    "\<forall>r \<in> set ys. region_ok r \<and> region_bytes r \<subseteq> B - reserved_bytes rsvs"
    "\<forall>f \<in> set nm. region_ok f \<and> snd f \<noteq> 0 \<and> region_bytes f \<subseteq> B"
    using mem_round_spec [OF ys(1)] sub sub_bytes "1.prems"(3,4) by (fastforce)+
  have kept: "\<forall>r \<in> set (take k xs). region_ok r \<and> region_bytes r \<subseteq> B - reserved_bytes rsvs"
    using "1.prems"(4,5,11,12) by (fastforce simp: reserved_bytes_def dest: in_set_takeD)
  have clean: "\<forall>r \<in> set mem'. region_ok r \<and> region_bytes r \<subseteq> B - reserved_bytes rsvs"
    using spec(2) kept ys(2) by auto
  show ?case
  proof (cases "nm = [] \<or> n \<ge> 32")
    case True
    then have "out = mem'" using "1.prems"(1) round by (subst (asm) avail_loop.simps) auto
    then show ?thesis using clean by simp
  next
    case False
    let ?new = "nm @ replicate (32 - length nm) (0, 0)"
    let ?mem2 = "take n mem' @ take (32 - n) ?new"
    let ?xs2 = "take n mem' @ take (32 - n) nm"
    let ?zs2 = "take (32 - n - length nm) (replicate (32 - length nm) (0 :: usize, 0 :: usize))"
    have len': "length mem' = 32" using ys(2) spec(1) "1.prems"(5,8,10) by auto
    have loop: "avail_loop ?mem2 n (n + length nm) rsvs = Some out"
      using "1.prems"(1) round False by (subst (asm) avail_loop.simps) auto
    have nv: "no_bank_vanishes ?mem2 n (n + length nm) rsvs" "\<forall>r \<in> set (take n mem'). snd r \<noteq> 0"
      using "1.prems"(2) round False by (subst (asm) no_bank_vanishes.simps, auto)+
    show ?thesis
    proof (rule "1.IH" [OF round refl False loop nv(1) "1.prems"(3), of ?xs2 ?zs2])
      show "\<forall>r \<in> set ?mem2. region_ok r"
        using clean spec(3) by (auto simp: region_ok_def dest!: in_set_takeD)
      show "?mem2 = ?xs2 @ ?zs2" by simp
      show "\<forall>r \<in> set ?xs2. snd r \<noteq> 0" using nv(2) spec(3) by (auto dest: in_set_takeD)
      show "\<forall>r \<in> set ?zs2. snd r = 0" by (auto dest: in_set_takeD)
      show "length ?mem2 = 32" using len' False by auto
      show "length ?xs2 = min (n + length nm) 32" using len' False by auto
      show "n \<le> length ?xs2" using len' False by auto
      show "\<forall>r \<in> set (take n ?xs2). region_bytes r \<inter> reserved_bytes rsvs = {}"
        using clean len' False by (auto dest!: in_set_takeD)
      show "reserved_bytes ?mem2 \<subseteq> B"
        using clean spec(3) by (fastforce simp: reserved_bytes_def region_bytes_def dest!: in_set_takeD)
    qed
  qed
qed

lemma set_sort_by_size_desc [simp]: "set (sort_by_size_desc rs) = set rs"
  by (simp add: sort_by_size_desc_def)

lemma sorted_sort_by_size_desc: "sorted_wrt (\<lambda>a b. snd b \<le> snd a) (sort_by_size_desc rs)"
proof -
  have "sorted (map (\<lambda>r. - int (unat (snd r))) (sort_by_size_desc rs))"
    by (simp add: sort_by_size_desc_def)
  then have "sorted_wrt (\<lambda>a b. - int (unat (snd a)) \<le> - int (unat (snd b))) (sort_by_size_desc rs)"
    unfolding sorted_map .
  then show ?thesis by (rule sorted_wrt_mono_rel [rotated]) (simp only: word_le_nat_alt neg_le_iff_le of_nat_le_iff)
qed

lemma bank_list_split:
  assumes "\<forall>r \<in> set (dropWhile (\<lambda>r. snd r \<noteq> 0) mem). snd r = 0"
  shows "mem = takeWhile (\<lambda>r. snd r \<noteq> 0) mem @ dropWhile (\<lambda>r. snd r \<noteq> 0) mem"
    "\<forall>r \<in> set (takeWhile (\<lambda>r. snd r \<noteq> 0) mem). snd r \<noteq> 0"
  by (auto dest: set_takeWhileD)


lemma calc_available_mem_regions:
  assumes "calc_available_mem mem reserved_mem kernel_region = Some out"
    and "length mem = 32" and "\<forall>r \<in> set (dropWhile (\<lambda>r. snd r \<noteq> 0) mem). snd r = 0"
    and "\<forall>r \<in> set (kernel_region # mem @ reserved_mem). region_ok r"
    and "no_bank_vanishes mem 0 (first_empty mem) (all_reserved reserved_mem kernel_region)"
  shows "(\<forall>r \<in> set out. region_bytes r \<subseteq> (\<Union>m \<in> set mem. region_bytes m)
           \<and> (\<forall>q \<in> set (all_reserved reserved_mem kernel_region). region_bytes r \<inter> region_bytes q = {}))
    \<and> sorted_wrt (\<lambda>a b. snd b \<le> snd a) out"
proof -
  obtain out' where out': "avail_loop mem 0 (first_empty mem) (all_reserved reserved_mem kernel_region) = Some out'"
    "out = sort_by_size_desc out'"
    using assms(1) by (auto simp: calc_available_mem_def)
  have "length (takeWhile (\<lambda>r. snd r \<noteq> 0) mem) = min (first_empty mem) 32"
    using assms(2) length_takeWhile_le [of "\<lambda>r. snd r \<noteq> 0" mem] by (simp add: first_empty_def)
  then have "\<forall>r \<in> set out'. region_ok r \<and> region_bytes r
      \<subseteq> reserved_bytes mem - reserved_bytes (all_reserved reserved_mem kernel_region)"
    using assms(4) bank_list_split [OF assms(3)]
    by (intro avail_loop_sound [OF out'(1) assms(5) _ _ _ _ assms(3,2)]) (auto simp: all_reserved_def)
  then show ?thesis
    using out'(2) sorted_sort_by_size_desc by (fastforce simp: reserved_bytes_def)
qed


section \<open>Properties\<close>

text \<open>For regions that do not run past the end of the address space, \<open>region_diff\<close> is set
  difference: its two parts are disjoint, together they are the bank without the reserved region,
  and neither runs past the end of the address space.\<close>

theorem region_diff_exact:
  assumes "region_ok mem" and "region_ok rsv"
  shows "region_bytes (fst (region_diff mem rsv)) \<union> region_bytes (snd (region_diff mem rsv))
           = region_bytes mem - region_bytes rsv
    \<and> region_bytes (fst (region_diff mem rsv)) \<inter> region_bytes (snd (region_diff mem rsv)) = {}
    \<and> region_ok (fst (region_diff mem rsv)) \<and> region_ok (snd (region_diff mem rsv))"
  using region_diff_nat [OF assms] by blast

theorem region_diff_exact_witness:
  "region_diff (0x1000, 0x4000) (0x2000, 0x1000) = ((0x1000, 0x1000), (0x3000, 0x2000))
   \<and> region_bytes (fst (region_diff (0x1000, 0x4000) (0x2000, 0x1000)))
       \<union> region_bytes (snd (region_diff (0x1000, 0x4000) (0x2000, 0x1000)))
     = region_bytes (0x1000, 0x4000) - region_bytes (0x2000, 0x1000)"
  using region_diff_exact [of "(0x1000, 0x4000)" "(0x2000, 0x1000)"]
  by (simp add: region_ok_def region_diff_def)

text \<open>For a bank array whose non-empty banks come first, if no bank is used up in a round that
  another round follows, every region \<open>calc_available_mem\<close> returns is part of the banks and shares
  no byte with a reserved region or the kernel image, and the regions come largest first.\<close>

theorem calc_available_mem_sound:
  assumes "calc_available_mem mem reserved_mem kernel_region = Some out"
    and "length mem = 32" and "\<forall>r \<in> set (dropWhile (\<lambda>r. snd r \<noteq> 0) mem). snd r = 0"
    and "\<forall>r \<in> set (kernel_region # mem @ reserved_mem). region_ok r"
    and "no_bank_vanishes mem 0 (first_empty mem) (all_reserved reserved_mem kernel_region)"
  shows "(\<forall>r \<in> set out. region_bytes r \<subseteq> (\<Union>m \<in> set mem. region_bytes m)
           \<and> (\<forall>q \<in> set (all_reserved reserved_mem kernel_region). region_bytes r \<inter> region_bytes q = {}))
    \<and> sorted_wrt (\<lambda>a b. snd b \<le> snd a) out"
  using calc_available_mem_regions [OF assms] .

theorem calc_available_mem_sound_witness:
  "\<exists>out. calc_available_mem ((0, 0x10000) # replicate 31 (0, 0))
            ((0x8000, 0x100) # replicate 31 (0, 0)) (0x1000, 0x200) = Some out
     \<and> (0x8100, 0x7f00) \<in> set out \<and> (0x1200, 0x6e00) \<in> set out
     \<and> region_bytes (0x1200, 0x6e00) \<inter> region_bytes (0x1000, 0x200) = {}"
proof -
  let ?mem = "(0, 0x10000) # replicate 31 (0 :: usize, 0 :: usize)"
  let ?rsv = "(0x8000, 0x100) # replicate 31 (0 :: usize, 0 :: usize)"
  let ?rsvs = "[(0x8000, 0x100), (0x1000, 0x200)] :: region list"
  have r: "all_reserved ?rsv (0x1000, 0x200) = ?rsvs" "first_empty ?mem = 1"
    by (simp_all add: all_reserved_def first_empty_def filter_replicate takeWhile_replicate)
  have l: "avail_loop ?mem 0 1 ?rsvs =
      Some ([(0, 0x1000), (0x8100, 0x7f00), (0x1200, 0x6e00)] @ replicate 29 (0, 0))"
    by (simp add: avail_loop.simps region_diff_def mem_round_empty)
  have n: "no_bank_vanishes ?mem 0 (first_empty ?mem) (all_reserved ?rsv (0x1000, 0x200))"
    unfolding r by (simp add: no_bank_vanishes.simps region_diff_def mem_round_empty)
  have c: "calc_available_mem ?mem ?rsv (0x1000, 0x200)
     = Some (sort_by_size_desc ([(0, 0x1000), (0x8100, 0x7f00), (0x1200, 0x6e00)] @ replicate 29 (0, 0)))"
    by (simp only: calc_available_mem_def r l option.map)
  show ?thesis
    using c calc_available_mem_sound [OF c _ _ _ n]
    by (auto simp: region_ok_def all_reserved_def dropWhile_replicate)
qed

text \<open>The guarantee needs that side condition: \<open>calc_available_mem\<close> counts the banks to skip
  among the non-empty ones only, so when a bank is used up in the first round the second round
  skips a new region unprocessed, and memory inside a reserved region is handed out.\<close>

theorem calc_available_mem_can_return_reserved:
  "\<exists>mem reserved_mem kernel_region out r q.
     length mem = 32 \<and> length reserved_mem = 32
   \<and> list_all region_ok (kernel_region # mem @ reserved_mem)
   \<and> calc_available_mem mem reserved_mem kernel_region = Some out
   \<and> r \<in> set out \<and> q \<in> set reserved_mem \<and> region_bytes r \<inter> region_bytes q \<noteq> {}"
proof -
  let ?mem = "(0x0, 0x10000) # replicate 31 (0 :: usize, 0 :: usize)"
  let ?rsv = "[(0x4000, 0x1000), (0x0, 0x4000), (0x6000, 0x1000)] @ replicate 29 (0 :: usize, 0 :: usize)"
  let ?rsvs = "[(0x4000, 0x1000), (0x0, 0x4000), (0x6000, 0x1000), (0x20000, 0x1000)] :: region list"
  have r: "all_reserved ?rsv (0x20000, 0x1000) = ?rsvs" "first_empty ?mem = 1"
    by (simp_all add: all_reserved_def first_empty_def filter_replicate takeWhile_replicate)
  have l: "avail_loop ?mem 0 1 ?rsvs = Some ((0, 0) # (0x5000, 0xb000) # replicate 30 (0, 0))"
    by (simp add: avail_loop.simps region_diff_def mem_round_empty)
  have "calc_available_mem ?mem ?rsv (0x20000, 0x1000)
      = Some (sort_by_size_desc ((0, 0) # (0x5000, 0xb000) # replicate 30 (0, 0)))"
    by (simp only: calc_available_mem_def r l option.map)
  moreover have "0x6000 \<in> region_bytes (0x5000, 0xb000) \<inter> region_bytes (0x6000, 0x1000)"
    by (simp add: region_bytes_def)
  moreover have "list_all region_ok ((0x20000, 0x1000) # ?mem @ ?rsv)"
    by (simp add: region_ok_def list_all_iff)
  ultimately show ?thesis
    by (intro exI [of _ ?mem] exI [of _ ?rsv] exI [of _ "(0x20000, 0x1000)"]
        exI [of _ "sort_by_size_desc ((0, 0) # (0x5000, 0xb000) # replicate 30 (0, 0))"] exI [of _ "(0x5000, 0xb000)"]
        exI [of _ "(0x6000, 0x1000)"]) auto
qed

text \<open>A physical address below 16 TiB has a linear-map address inside the linear region, which
  translates back to it.\<close>

theorem linear_map_roundtrip:
  assumes "unat pa < unat LINEAR_MAP_SIZE"
  shows "virt_to_phys (phys_to_virt pa) = pa
    \<and> unat LINEAR_MAP_OFFSET \<le> unat (phys_to_virt pa) \<and> unat (phys_to_virt pa) < unat HEAP_MAP_OFFSET"
  using virt_to_phys_to_virt [OF assms] unat_phys_to_virt [OF assms] assms
  by (simp add: map_layout_defs)

theorem linear_map_roundtrip_witness:
  "virt_to_phys (phys_to_virt 0x3f000000) = 0x3f000000"
  using linear_map_roundtrip [of "0x3f000000"] by (simp add: map_layout_defs)

end
