(* ===== verification/Frame_Allocator.thy ===== *)
theory Frame_Allocator
  imports Phys_Memory
begin

text \<open>
  \<open>src/mm/frame_allocator.rs\<close> and the frame and page functions of \<open>src/mm/mod.rs\<close>. The allocator
  keeps one bit per frame in the first frames of the region it manages; \<open>ba_words\<close> is that part of
  memory, one \<open>usize\<close> per 64 frames. Addresses and sizes are natural numbers: \<open>new\<close> is used on
  regions that end at least a frame below \<open>2 ^ 64\<close>, where the machine's sums do not wrap.
  The trait \<open>PageFrameAllocator\<close> is the locale \<open>page_frame_allocator\<close>.
\<close>

record bitmap_allocator =
  ba_frame_size :: nat
  ba_total_frames :: nat
  ba_bitmap_frames :: nat
  ba_start :: nat
  ba_words :: "usize list"

definition usize_max :: usize where
  "usize_max = - 1"

definition is_power_of_two :: "nat \<Rightarrow> bool" where
  "is_power_of_two n \<longleftrightarrow> n \<in> set (map (\<lambda>k. 2 ^ k) [0..<64])"

text \<open>\<open>new\<close>: the bitmap words are zeroed, then the bits of the bitmap's own frames set, whole words
  first and the remaining bits as \<open>(1 << remainder) - 1\<close>.\<close>

definition bitmap_init_words :: "nat \<Rightarrow> nat \<Rightarrow> usize list" where
  "bitmap_init_words bitmap_frames frame_size =
     (let words = replicate (bitmap_frames * frame_size div 8) 0;
          usize_to_mask = bitmap_frames div 64;
          remainder_bits = bitmap_frames mod 64;
          words1 = replicate usize_to_mask usize_max @ drop usize_to_mask words
      in if remainder_bits > 0 then words1[usize_to_mask := push_bit remainder_bits 1 - 1] else words1)"

definition bitmap_new :: "nat \<Rightarrow> nat \<Rightarrow> nat \<Rightarrow> bitmap_allocator option" where
  "bitmap_new start sz frame_size =
     (if is_power_of_two frame_size \<and> frame_size mod 8 = 0 \<and> sz > 10 * frame_size then
        let start_aligned = next_multiple_of start frame_size;
            end_aligned = next_multiple_of (start + sz) frame_size;
            size_aligned =
              (if end_aligned > start + sz then end_aligned - frame_size else end_aligned) - start_aligned;
            total_frames = size_aligned div frame_size;
            bitmap_size = (total_frames + 7) div 8;
            bitmap_frames = (bitmap_size + frame_size - 1) div frame_size
        in Some \<lparr>ba_frame_size = frame_size, ba_total_frames = total_frames,
                 ba_bitmap_frames = bitmap_frames, ba_start = start_aligned,
                 ba_words = bitmap_init_words bitmap_frames frame_size\<rparr>
      else None)"

text \<open>\<open>trailing_ones\<close>, and the scan for the first word with a zero bit.\<close>

definition trailing_ones :: "usize \<Rightarrow> nat" where
  "trailing_ones w = length (takeWhile (\<lambda>i. bit w i) [0..<64])"

fun alloc_scan :: "nat \<Rightarrow> usize list \<Rightarrow> (nat \<times> nat) option" where
  "alloc_scan index [] = None"
| "alloc_scan index (chunk # ws) =
     (if chunk = usize_max then alloc_scan (index + 1) ws else Some (index, trailing_ones chunk))"

text \<open>\<open>alloc_frame\<close>: \<open>None\<close> is the null pointer.\<close>

definition bitmap_alloc_frame :: "bitmap_allocator \<Rightarrow> nat option \<times> bitmap_allocator" where
  "bitmap_alloc_frame a =
     (case alloc_scan 0 (take (ba_bitmap_frames a * ba_frame_size a div 8) (ba_words a)) of
        None \<Rightarrow> (None, a)
      | Some (index, chunk_index) \<Rightarrow>
          let frame_index = index * 64 + chunk_index in
          if frame_index \<ge> ba_total_frames a then (None, a)
          else (Some (ba_start a + frame_index * ba_frame_size a),
                a\<lparr>ba_words := (ba_words a)[index := (ba_words a ! index) OR push_bit chunk_index 1]\<rparr>))"

text \<open>\<open>dealloc_frame\<close>: a pointer below the region or past the bitmap makes the unsafe code touch
  memory it does not own, \<open>None\<close>.\<close>

definition bitmap_dealloc_frame :: "bitmap_allocator \<Rightarrow> nat \<Rightarrow> bitmap_allocator option" where
  "bitmap_dealloc_frame a ptr =
     (if ptr < ba_start a then None
      else
        let frame_index = (ptr - ba_start a) div ba_frame_size a;
            index = frame_index div 64;
            chunk_index = frame_index mod 64
        in if index < length (ba_words a)
           then Some (a\<lparr>ba_words := (ba_words a)[index := (ba_words a ! index) AND NOT (push_bit chunk_index 1)]\<rparr>)
           else None)"


section \<open>The frames of the bitmap\<close>

definition frame_used :: "bitmap_allocator \<Rightarrow> nat \<Rightarrow> bool" where
  "frame_used a i \<longleftrightarrow> bit (ba_words a ! (i div 64)) (i mod 64)"

definition frame_addr :: "bitmap_allocator \<Rightarrow> nat \<Rightarrow> nat" where
  "frame_addr a i = ba_start a + i * ba_frame_size a"

text \<open>The bitmap has a bit for every frame, and the bits of its own frames are set.\<close>

definition bitmap_wf :: "bitmap_allocator \<Rightarrow> bool" where
  "bitmap_wf a \<longleftrightarrow>
     0 < ba_frame_size a \<and> ba_start a mod ba_frame_size a = 0
   \<and> length (ba_words a) = ba_bitmap_frames a * ba_frame_size a div 8
   \<and> ba_total_frames a \<le> 64 * length (ba_words a)
   \<and> ba_bitmap_frames a \<le> ba_total_frames a
   \<and> (\<forall>i < ba_bitmap_frames a. frame_used a i)"

text \<open>The frames handed out to clients, and those that can be.\<close>

definition bitmap_frames_of :: "bitmap_allocator \<Rightarrow> nat set" where
  "bitmap_frames_of a = frame_addr a ` {ba_bitmap_frames a ..< ba_total_frames a}"

definition bitmap_owned :: "bitmap_allocator \<Rightarrow> nat set" where
  "bitmap_owned a = frame_addr a ` {i \<in> {ba_bitmap_frames a ..< ba_total_frames a}. frame_used a i}"

lemma bit_usize_max [simp]: "bit usize_max i \<longleftrightarrow> i < 64"
  by (simp add: usize_max_def)

lemma trailing_ones_spec:
  assumes "w \<noteq> usize_max"
  shows "trailing_ones w < 64" "\<not> bit w (trailing_ones w)" "j < trailing_ones w \<Longrightarrow> bit w j"
proof -
  let ?p = "\<lambda>i. bit w i"
  have "\<exists>i < 64. \<not> bit w i"
  proof (rule ccontr)
    assume "\<not> (\<exists>i < 64. \<not> bit w i)"
    then have "w = usize_max" by (intro bit_word_eqI) simp
    with assms show False ..
  qed
  then have "takeWhile ?p [0..<64] \<noteq> [0..<64]"
    by (metis atLeastLessThan_iff atLeastLessThan_upt set_takeWhileD zero_le)
  then have *: "length (takeWhile ?p [0..<64]) < length [0..<64::nat]"
    by (metis length_takeWhile_le nat_less_le take_all_iff takeWhile_eq_take)
  then show "trailing_ones w < 64" by (simp add: trailing_ones_def)
  show "\<not> bit w (trailing_ones w)"
    using nth_length_takeWhile [OF *] * by (simp add: trailing_ones_def)
  show "bit w j" if "j < trailing_ones w"
    using that takeWhile_nth [of j ?p "[0..<64]"] nth_mem [of j "takeWhile ?p [0..<64]"] *
    by (auto simp: trailing_ones_def dest!: set_takeWhileD)
qed

lemma alloc_scan_Some:
  "alloc_scan i ws = Some (k, c) \<Longrightarrow>
     i \<le> k \<and> k - i < length ws \<and> ws ! (k - i) \<noteq> usize_max \<and> c = trailing_ones (ws ! (k - i))
     \<and> (\<forall>j < k - i. ws ! j = usize_max)"
proof (induction i ws rule: alloc_scan.induct)
  case (2 i w ws)
  show ?case
  proof (cases "w = usize_max")
    case True
    with "2.prems" "2.IH" have *: "i + 1 \<le> k" "k - (i + 1) < length ws" "ws ! (k - (i + 1)) \<noteq> usize_max"
      "c = trailing_ones (ws ! (k - (i + 1)))" "\<forall>j < k - (i + 1). ws ! j = usize_max" by auto
    moreover have "k - i = Suc (k - (i + 1))" using *(1) by simp
    ultimately show ?thesis using True by (auto simp: less_Suc_eq_0_disj)
  qed (use "2.prems" in auto)
qed simp

lemma alloc_scan_None: "alloc_scan i ws = None \<Longrightarrow> \<forall>w \<in> set ws. w = usize_max"
  by (induction i ws rule: alloc_scan.induct) (auto split: if_splits)

lemma frame_used_after_set:
  assumes "length (ba_words a) > i div 64"
  shows "frame_used (a\<lparr>ba_words := (ba_words a)[i div 64 := (ba_words a ! (i div 64)) OR push_bit (i mod 64) 1]\<rparr>) j
     \<longleftrightarrow> frame_used a j \<or> j = i"
proof (cases "j div 64 = i div 64")
  case True
  then have "j = i \<longleftrightarrow> j mod 64 = i mod 64" by (metis div_mult_mod_eq)
  with True assms show ?thesis
    by (auto simp: frame_used_def bit_simps)
next
  case False
  with assms show ?thesis by (auto simp: frame_used_def)
qed

lemma frame_used_after_clear:
  assumes "length (ba_words a) > i div 64"
  shows "frame_used (a\<lparr>ba_words := (ba_words a)[i div 64 := (ba_words a ! (i div 64)) AND NOT (push_bit (i mod 64) 1)]\<rparr>) j
     \<longleftrightarrow> frame_used a j \<and> j \<noteq> i"
proof (cases "j div 64 = i div 64")
  case True
  then have "j = i \<longleftrightarrow> j mod 64 = i mod 64" by (metis div_mult_mod_eq)
  with True assms show ?thesis
    by (auto simp: frame_used_def bit_simps)
next
  case False
  with assms show ?thesis by (auto simp: frame_used_def)
qed

lemma bitmap_alloc_frame_cases:
  assumes "bitmap_wf a"
  obtains (full) "bitmap_alloc_frame a = (None, a)" "\<forall>i < ba_total_frames a. frame_used a i"
  | (fresh) i where "i < ba_total_frames a" "\<not> frame_used a i" "\<forall>j < i. frame_used a j"
      "bitmap_alloc_frame a = (Some (frame_addr a i),
         a\<lparr>ba_words := (ba_words a)[i div 64 := (ba_words a ! (i div 64)) OR push_bit (i mod 64) 1]\<rparr>)"
proof -
  have scanned: "take (ba_bitmap_frames a * ba_frame_size a div 8) (ba_words a) = ba_words a"
    and bits: "ba_total_frames a \<le> 64 * length (ba_words a)"
    using assms by (simp_all add: bitmap_wf_def)
  show thesis
  proof (cases "alloc_scan 0 (ba_words a)")
    case None
    then have "frame_used a i" if "i < ba_total_frames a" for i
    proof -
      have "i div 64 < length (ba_words a)" using that bits by linarith
      then have "ba_words a ! (i div 64) = usize_max" using alloc_scan_None [OF None] nth_mem by blast
      then show ?thesis by (simp add: frame_used_def)
    qed
    with None scanned full show thesis by (simp add: bitmap_alloc_frame_def)
  next
    case (Some kc)
    then obtain k c where kc: "alloc_scan 0 (ba_words a) = Some (k, c)" by (cases kc) auto
    from alloc_scan_Some [OF kc] have k: "k < length (ba_words a)" "ba_words a ! k \<noteq> usize_max"
      "c = trailing_ones (ba_words a ! k)" "\<forall>j < k. ba_words a ! j = usize_max" by auto
    note c = trailing_ones_spec [OF k(2), folded k(3)]
    let ?i = "k * 64 + c"
    have i: "?i div 64 = k" "?i mod 64 = c" using c(1) by auto
    have below: "frame_used a j" if "j < ?i" for j
    proof (cases "j div 64 = k")
      case True
      then have "j mod 64 < c" using that by (metis add_less_cancel_left div_mult_mod_eq)
      then show ?thesis using c(3) True by (simp add: frame_used_def)
    next
      case False
      moreover have "j div 64 \<le> k" using that c(1) by linarith
      ultimately show ?thesis using k(4) by (simp add: frame_used_def)
    qed
    have unused: "\<not> frame_used a ?i" using c(2) i by (simp add: frame_used_def)
    show thesis
    proof (cases "?i \<ge> ba_total_frames a")
      case True
      with kc scanned full below show thesis by (auto simp: bitmap_alloc_frame_def Let_def)
    next
      case False
      with kc scanned fresh [of ?i] below unused i show thesis
        by (auto simp: bitmap_alloc_frame_def Let_def frame_addr_def)
    qed
  qed
qed

lemma bitmap_wf_words_update:
  assumes "bitmap_wf a" and "length ws = length (ba_words a)"
    and "\<And>i. i < ba_bitmap_frames a \<Longrightarrow> frame_used (a\<lparr>ba_words := ws\<rparr>) i"
  shows "bitmap_wf (a\<lparr>ba_words := ws\<rparr>)"
  using assms by (simp add: bitmap_wf_def)

lemma frame_addr_inj: "bitmap_wf a \<Longrightarrow> frame_addr a i = frame_addr a j \<longleftrightarrow> i = j"
  by (auto simp: frame_addr_def bitmap_wf_def)

lemma frame_addr_words [simp]: "frame_addr (a\<lparr>ba_words := ws\<rparr>) = frame_addr a"
  by (simp add: frame_addr_def fun_eq_iff)

lemma bitmap_word_in_range: "bitmap_wf a \<Longrightarrow> i < ba_total_frames a \<Longrightarrow> i div 64 < length (ba_words a)"
  by (simp add: bitmap_wf_def) linarith

lemma bitmap_alloc_frame_Some:
  assumes wf: "bitmap_wf a" and alloc: "bitmap_alloc_frame a = (Some p, a')"
  shows "p \<in> bitmap_frames_of a \<and> p \<notin> bitmap_owned a \<and> bitmap_owned a' = insert p (bitmap_owned a)
     \<and> bitmap_frames_of a' = bitmap_frames_of a \<and> bitmap_wf a'"
  using wf
proof (cases rule: bitmap_alloc_frame_cases)
  case full
  with alloc show ?thesis by simp
next
  case (fresh i)
  let ?ws = "(ba_words a)[i div 64 := (ba_words a ! (i div 64)) OR push_bit (i mod 64) 1]"
  have a': "a' = a\<lparr>ba_words := ?ws\<rparr>" and p: "p = frame_addr a i"
    using alloc fresh(4) by simp_all
  have used: "frame_used a' j \<longleftrightarrow> frame_used a j \<or> j = i" for j
    unfolding a' using frame_used_after_set bitmap_word_in_range [OF wf fresh(1)] by blast
  have "bitmap_wf a'"
    unfolding a' using wf used [unfolded a']
    by (intro bitmap_wf_words_update) (auto simp: bitmap_wf_def)
  moreover have i: "ba_bitmap_frames a \<le> i"
    using fresh(2) wf by (auto simp: bitmap_wf_def intro: leI)
  moreover have "p \<notin> bitmap_owned a"
    using fresh(2) frame_addr_inj [OF wf] by (auto simp: p bitmap_owned_def)
  moreover have "bitmap_owned a' = insert p (bitmap_owned a)"
    using i fresh(1) used by (auto simp: bitmap_owned_def p a')
  ultimately show ?thesis
    using fresh(1) by (auto simp: bitmap_frames_of_def p a')
qed

lemma bitmap_alloc_frame_None:
  assumes wf: "bitmap_wf a" and alloc: "bitmap_alloc_frame a = (None, a')"
  shows "a' = a \<and> bitmap_owned a = bitmap_frames_of a"
  using wf
proof (cases rule: bitmap_alloc_frame_cases)
  case full
  then show ?thesis using alloc by (auto simp: bitmap_owned_def bitmap_frames_of_def)
next
  case (fresh i)
  with alloc show ?thesis by simp
qed

lemma bitmap_dealloc_frame_index:
  assumes wf: "bitmap_wf a" and i: "i < ba_total_frames a"
  shows "bitmap_dealloc_frame a (frame_addr a i) =
    Some (a\<lparr>ba_words := (ba_words a)[i div 64 := (ba_words a ! (i div 64)) AND NOT (push_bit (i mod 64) 1)]\<rparr>)"
proof -
  have "(frame_addr a i - ba_start a) div ba_frame_size a = i"
    using wf by (simp add: frame_addr_def bitmap_wf_def)
  then show ?thesis
    using bitmap_word_in_range [OF wf i]
    by (simp add: bitmap_dealloc_frame_def Let_def) (simp add: frame_addr_def)
qed

lemma bitmap_dealloc_frame_owned:
  assumes wf: "bitmap_wf a" and p: "p \<in> bitmap_owned a"
  shows "\<exists>a'. bitmap_dealloc_frame a p = Some a' \<and> bitmap_owned a' = bitmap_owned a - {p}
     \<and> bitmap_frames_of a' = bitmap_frames_of a \<and> bitmap_wf a'"
proof -
  obtain i where i: "p = frame_addr a i" "ba_bitmap_frames a \<le> i" "i < ba_total_frames a"
    using p by (auto simp: bitmap_owned_def)
  let ?ws = "(ba_words a)[i div 64 := (ba_words a ! (i div 64)) AND NOT (push_bit (i mod 64) 1)]"
  let ?a' = "a\<lparr>ba_words := ?ws\<rparr>"
  have used: "frame_used ?a' j \<longleftrightarrow> frame_used a j \<and> j \<noteq> i" for j
    using frame_used_after_clear bitmap_word_in_range [OF wf i(3)] by blast
  have "bitmap_wf ?a'"
    using wf used i(2) by (intro bitmap_wf_words_update) (auto simp: bitmap_wf_def)
  moreover have "bitmap_owned ?a' = bitmap_owned a - {p}"
    using i used frame_addr_inj [OF wf] by (auto simp: bitmap_owned_def)
  moreover have "bitmap_frames_of ?a' = bitmap_frames_of a"
    by (simp add: bitmap_frames_of_def)
  ultimately show ?thesis
    using bitmap_dealloc_frame_index [OF wf i(3)] i(1) by blast
qed


section \<open>The allocator interface\<close>

text \<open>A client that owns the frames it was given and frees only those, by position.\<close>

datatype frame_op = Alloc_Frame | Free_Nth nat

fun frame_client ::
  "('s \<Rightarrow> nat option \<times> 's) \<Rightarrow> ('s \<Rightarrow> nat \<Rightarrow> 's option) \<Rightarrow> 's \<Rightarrow> nat list \<Rightarrow> frame_op list
     \<Rightarrow> ('s \<times> nat list) option" where
  "frame_client al de s live [] = Some (s, live)"
| "frame_client al de s live (Alloc_Frame # ops) =
     (case al s of
        (None, s') \<Rightarrow> frame_client al de s' live ops
      | (Some p, s') \<Rightarrow> frame_client al de s' (p # live) ops)"
| "frame_client al de s live (Free_Nth i # ops) =
     (if i < length live then
        (case de s (live ! i) of
           None \<Rightarrow> None
         | Some s' \<Rightarrow> frame_client al de s' (remove1 (live ! i) live) ops)
      else frame_client al de s live ops)"

locale page_frame_allocator =
  fixes alloc :: "'s \<Rightarrow> nat option \<times> 's"
    and dealloc :: "'s \<Rightarrow> nat \<Rightarrow> 's option"
    and frames :: "'s \<Rightarrow> nat set"
    and owned :: "'s \<Rightarrow> nat set"
    and wf :: "'s \<Rightarrow> bool"
  assumes alloc_Some: "wf s \<Longrightarrow> alloc s = (Some p, s') \<Longrightarrow>
      p \<in> frames s \<and> p \<notin> owned s \<and> owned s' = insert p (owned s) \<and> frames s' = frames s \<and> wf s'"
    and alloc_None: "wf s \<Longrightarrow> alloc s = (None, s') \<Longrightarrow> s' = s \<and> owned s = frames s"
    and dealloc_owned: "wf s \<Longrightarrow> p \<in> owned s \<Longrightarrow>
      \<exists>s'. dealloc s p = Some s' \<and> owned s' = owned s - {p} \<and> frames s' = frames s \<and> wf s'"
    and owned_frames: "wf s \<Longrightarrow> owned s \<subseteq> frames s"
    and finite_frames: "wf s \<Longrightarrow> finite (frames s)"
begin

lemma client_owns_live:
  assumes "wf s" and "owned s = set live" and "distinct live"
  shows "\<exists>s' live'. frame_client alloc dealloc s live ops = Some (s', live')
     \<and> wf s' \<and> frames s' = frames s \<and> owned s' = set live' \<and> distinct live'"
  using assms
proof (induction ops arbitrary: s live)
  case (Cons x ops)
  show ?case
  proof (cases x)
  case Alloc_Frame
  show ?thesis
  proof (cases "alloc s")
    case (Pair r s')
    show ?thesis
    proof (cases r)
      case None
      with Pair alloc_None Cons.prems have "s' = s" by blast
      with Pair None Alloc_Frame Cons.IH [OF Cons.prems] show ?thesis by simp
    next
      case (Some p)
      with Pair alloc_Some [of s p s'] Cons.prems
      have "wf s'" "owned s' = set (p # live)" "distinct (p # live)" "frames s' = frames s" by auto
      with Pair Some Alloc_Frame Cons.IH [of s' "p # live"] show ?thesis by simp
    qed
  qed
next
  case (Free_Nth i)
  show ?thesis
  proof (cases "i < length live")
    case True
    with Cons.prems obtain s' where s': "dealloc s (live ! i) = Some s'"
      "owned s' = owned s - {live ! i}" "frames s' = frames s" "wf s'"
      using dealloc_owned [of s "live ! i"] by auto
    then have "owned s' = set (remove1 (live ! i) live)" "distinct (remove1 (live ! i) live)"
      using Cons.prems by simp_all
    with True s' Free_Nth Cons.IH [of s' "remove1 (live ! i) live"] show ?thesis by simp
  next
    case False
    with Free_Nth Cons.IH [OF Cons.prems] show ?thesis by simp
  qed
  qed
qed simp

lemma alloc_fails_iff:
  assumes "wf s"
  shows "fst (alloc s) = None \<longleftrightarrow> owned s = frames s"
proof (cases "alloc s")
  case (Pair r s')
  then show ?thesis
    using alloc_None [OF assms] alloc_Some [OF assms] by (cases r) auto
qed

lemma alloc_dealloc_owned:
  assumes "wf s" and "alloc s = (Some p, s')"
  shows "\<exists>s''. dealloc s' p = Some s'' \<and> owned s'' = owned s"
  using alloc_Some [OF assms] dealloc_owned [of s' p] by auto

end

interpretation bitmap: page_frame_allocator
  bitmap_alloc_frame bitmap_dealloc_frame bitmap_frames_of bitmap_owned bitmap_wf
proof unfold_locales
  show "\<And>s p s'. bitmap_wf s \<Longrightarrow> bitmap_alloc_frame s = (Some p, s') \<Longrightarrow>
      p \<in> bitmap_frames_of s \<and> p \<notin> bitmap_owned s \<and> bitmap_owned s' = insert p (bitmap_owned s)
      \<and> bitmap_frames_of s' = bitmap_frames_of s \<and> bitmap_wf s'"
    by (rule bitmap_alloc_frame_Some)
  show "\<And>s s'. bitmap_wf s \<Longrightarrow> bitmap_alloc_frame s = (None, s') \<Longrightarrow>
      s' = s \<and> bitmap_owned s = bitmap_frames_of s"
    by (rule bitmap_alloc_frame_None)
  show "\<And>s p. bitmap_wf s \<Longrightarrow> p \<in> bitmap_owned s \<Longrightarrow>
      \<exists>s'. bitmap_dealloc_frame s p = Some s' \<and> bitmap_owned s' = bitmap_owned s - {p}
        \<and> bitmap_frames_of s' = bitmap_frames_of s \<and> bitmap_wf s'"
    by (rule bitmap_dealloc_frame_owned)
qed (auto simp: bitmap_owned_def bitmap_frames_of_def)


section \<open>A fresh allocator\<close>

lemma bit_low_ones: "bit (2 ^ k - 1 :: usize) i \<longleftrightarrow> i < k \<and> i < 64"
  by (auto simp: bit_mask_iff min_def simp flip: mask_eq_exp_minus_1)

lemma is_power_of_two_4096 [simp]: "is_power_of_two 4096"
  by (auto simp: is_power_of_two_def intro: image_eqI [of _ _ 12])

lemma insort_key_replicate [simp]: "f x \<le> f y \<Longrightarrow> insort_key f x (replicate n y) = x # replicate n y"
  by (cases n) simp_all

lemma sort_key_replicate [simp]: "sort_key f (replicate n x) = replicate n x"
proof (induction n)
  case (Suc n)
  then show ?case by (cases n) simp_all
qed simp

lemma bitmap_size_bounds:
  fixes fs total :: nat
  defines "bf \<equiv> ((total + 7) div 8 + fs - 1) div fs"
  assumes "8 dvd fs" and "0 < fs" and "8 \<le> total"
  shows "total \<le> 64 * (bf * fs div 8)" "bf \<le> total" "bf div 64 < bf * fs div 8" "0 < bf"
proof -
  obtain w where w: "fs = 8 * w" "0 < w" using assms by (auto elim!: dvdE)
  let ?bs = "(total + 7) div 8"
  have words: "bf * fs div 8 = bf * w" using w by simp
  have "?bs + fs - 1 < bf * fs + fs"
    unfolding bf_def using dividend_less_div_times [of fs "?bs + fs - 1"] assms by simp
  then have up: "?bs \<le> bf * fs" by linarith
  then show "total \<le> 64 * (bf * fs div 8)" using w words by simp
  have "bf * fs \<le> ?bs + fs - 1" unfolding bf_def by simp
  moreover have "?bs \<le> ?bs * fs" using assms by simp
  ultimately have "bf * fs < (?bs + 1) * fs" using assms(3) unfolding distrib_right by linarith
  then have "bf < ?bs + 1" unfolding mult_less_cancel2 by blast
  then have "bf \<le> ?bs" by linarith
  then show "bf \<le> total" using assms by linarith
  show pos: "0 < bf" using up assms by (cases "bf = 0") auto
  have "bf div 64 < bf" using pos by simp
  also have "bf \<le> bf * w" using w by simp
  finally show "bf div 64 < bf * fs div 8" using words by simp
qed

lemma less_iff_div_mod: "i < b \<longleftrightarrow> i div k < b div k \<or> i div k = b div k \<and> i mod k < b mod k"
  for i b k :: nat
proof (cases "i div k" "b div k" rule: linorder_cases)
  case less
  then show ?thesis using div_le_mono [of b i k] by (auto simp: not_le [symmetric])
next
  case equal
  have "i = b div k * k + i mod k" using equal div_mult_mod_eq [of i k] by metis
  moreover have "b = b div k * k + b mod k" by simp
  ultimately have "i < b \<longleftrightarrow> i mod k < b mod k" by linarith
  with equal show ?thesis by simp
next
  case greater
  then show ?thesis using div_le_mono [of i b k] by (cases "i < b") simp_all
qed

lemma bitmap_new_Some:
  assumes new: "bitmap_new start sz fs = Some a"
  shows "bitmap_wf a" "bitmap_owned a = {}" "ba_frame_size a = fs"
    "start \<le> ba_start a" "ba_start a + ba_total_frames a * fs \<le> start + sz" "8 \<le> ba_total_frames a"
proof -
  have pow: "is_power_of_two fs" and d8: "8 dvd fs" and sz: "10 * fs < sz"
    using new by (auto simp: bitmap_new_def Let_def split: if_splits)
  have fs: "0 < fs" using pow by (auto simp: is_power_of_two_def)
  define sa where "sa = next_multiple_of start fs"
  define ea where "ea = (if next_multiple_of (start + sz) fs > start + sz
      then next_multiple_of (start + sz) fs - fs else next_multiple_of (start + sz) fs)"
  define total where "total = (ea - sa) div fs"
  define bf where "bf = ((total + 7) div 8 + fs - 1) div fs"
  define w1 where "w1 = replicate (bf div 64) usize_max @ drop (bf div 64) (replicate (bf * fs div 8) (0 :: usize))"
  define ws where "ws = (if bf mod 64 > 0 then w1[bf div 64 := push_bit (bf mod 64) 1 - 1] else w1)"
  have ws: "bitmap_init_words bf fs = ws"
    by (simp only: bitmap_init_words_def Let_def w1_def ws_def)
  have "bitmap_new start sz fs = Some \<lparr>ba_frame_size = fs, ba_total_frames = total,
      ba_bitmap_frames = bf, ba_start = sa, ba_words = bitmap_init_words bf fs\<rparr>"
    unfolding bitmap_new_def Let_def bf_def total_def ea_def sa_def
    by (rule if_P) (use pow d8 sz in \<open>simp add: dvd_eq_mod_eq_0\<close>)
  then have a: "\<lparr>ba_frame_size = fs, ba_total_frames = total, ba_bitmap_frames = bf, ba_start = sa, ba_words = ws\<rparr> = a"
    using new ws by simp
  have sa: "start \<le> sa" "sa < start + fs" "fs dvd sa"
    unfolding sa_def using next_multiple_of_le next_multiple_of_less [OF fs] next_multiple_of_dvd [OF fs] by auto
  have ea: "ea \<le> start + sz" "start + sz < ea + fs"
    unfolding ea_def using next_multiple_of_le [of "start + sz" fs] next_multiple_of_less [OF fs, of "start + sz"]
    by (auto split: if_splits)
  have "total * fs \<le> ea - sa" by (simp add: total_def)
  then show "start \<le> ba_start a" "ba_start a + ba_total_frames a * fs \<le> start + sz"
    using sa ea sz by (auto simp flip: a)
  have "8 * fs \<le> ea - sa" using sa ea sz by linarith
  then have "8 * fs div fs \<le> total" unfolding total_def by (rule div_le_mono)
  then have total: "8 \<le> total" using fs by simp
  then show "8 \<le> ba_total_frames a" by (simp flip: a)
  note bounds = bitmap_size_bounds [OF d8 fs total, folded bf_def]
  have len: "length ws = bf * fs div 8" using bounds(3) by (simp add: ws_def w1_def)
  have used: "frame_used a i \<longleftrightarrow> i < bf" if i: "i < 64 * (bf * fs div 8)" for i
  proof -
    have "i div 64 < bf * fs div 8" using i by linarith
    then have "bit (w1 ! (i div 64)) (i mod 64) \<longleftrightarrow> i div 64 < bf div 64"
      by (auto simp: w1_def nth_append diff_less_mono)
    moreover have "ws ! (bf div 64) = push_bit (bf mod 64) 1 - 1" if "bf mod 64 > 0"
      using bounds(3) that len by (simp add: ws_def)
    moreover have "i < bf \<longleftrightarrow> i div 64 < bf div 64 \<or> i div 64 = bf div 64 \<and> i mod 64 < bf mod 64"
      by (rule less_iff_div_mod)
    ultimately show ?thesis
      by (cases "i div 64 = bf div 64") (auto simp: frame_used_def ws_def bit_low_ones nth_list_update simp flip: a)
  qed
  show "bitmap_wf a"
    using fs sa(3) len bounds used by (auto simp: bitmap_wf_def dvd_eq_mod_eq_0 simp flip: a)
  show "bitmap_owned a = {}"
    using used bounds(1) by (auto simp: bitmap_owned_def simp flip: a)
  show "ba_frame_size a = fs" by (simp flip: a)
qed


section \<open>The boot memory manager\<close>

text \<open>\<open>src/mm/mod.rs\<close>. The static is \<open>None\<close> until \<open>init_phys_mem\<close> runs; the functions below unwrap
  it, so they panic before. The \<open>kprintln!\<close> lines are left out.\<close>

record boot_phys_mem_manager =
  bm_available_mem :: "region list"
  bm_reserved_mem :: "region list"
  bm_kernel_region :: region
  bm_allocator :: bitmap_allocator

definition PAGE_SIZE :: nat where "PAGE_SIZE = 4096"

definition init_phys_mem :: "region list \<Rightarrow> region list \<Rightarrow> region \<Rightarrow> boot_phys_mem_manager option option" where
  "init_phys_mem mem reserved_mem kernel_region = do {
     available_mem \<leftarrow> calc_available_mem mem reserved_mem kernel_region;
     r \<leftarrow> index_at available_mem 0;
     a \<leftarrow> bitmap_new (unat (fst r)) (unat (snd r)) PAGE_SIZE;
     Some (Some \<lparr>bm_available_mem = available_mem, bm_reserved_mem = reserved_mem,
                  bm_kernel_region = kernel_region, bm_allocator = a\<rparr>)
   }"

definition alloc_frame ::
    "boot_phys_mem_manager option \<Rightarrow> (nat option \<times> boot_phys_mem_manager option) option" where
  "alloc_frame mgr = do {
     m \<leftarrow> mgr;
     let (p, a) = bitmap_alloc_frame (bm_allocator m);
     Some (p, Some (m\<lparr>bm_allocator := a\<rparr>))
   }"

definition dealloc_frame ::
    "boot_phys_mem_manager option \<Rightarrow> nat \<Rightarrow> boot_phys_mem_manager option option" where
  "dealloc_frame mgr ptr = do {
     m \<leftarrow> mgr;
     a \<leftarrow> bitmap_dealloc_frame (bm_allocator m) ptr;
     Some (Some (m\<lparr>bm_allocator := a\<rparr>))
   }"

definition alloc_page ::
    "boot_phys_mem_manager option \<Rightarrow> (usize option \<times> boot_phys_mem_manager option) option" where
  "alloc_page mgr = do {
     (frame_ptr, mgr) \<leftarrow> alloc_frame mgr;
     Some (case frame_ptr of None \<Rightarrow> (None, mgr) | Some p \<Rightarrow> (Some (phys_to_virt (of_nat p)), mgr))
   }"

definition dealloc_page ::
    "boot_phys_mem_manager option \<Rightarrow> usize \<Rightarrow> boot_phys_mem_manager option option" where
  "dealloc_page mgr ptr = dealloc_frame mgr (unat (virt_to_phys ptr))"

lemma init_phys_mem_Some:
  assumes "init_phys_mem mem rsv krn = Some mgr"
  obtains m base sz regions where "mgr = Some m" "calc_available_mem mem rsv krn = Some ((base, sz) # regions)"
    "bitmap_new (unat base) (unat sz) 4096 = Some (bm_allocator m)"
proof -
  obtain out r a where *: "calc_available_mem mem rsv krn = Some out" "index_at out 0 = Some r"
    "bitmap_new (unat (fst r)) (unat (snd r)) 4096 = Some a"
    "mgr = Some \<lparr>bm_available_mem = out, bm_reserved_mem = rsv, bm_kernel_region = krn, bm_allocator = a\<rparr>"
    using assms unfolding init_phys_mem_def PAGE_SIZE_def bind_eq_Some_conv by blast
  obtain rs where "out = r # rs" using *(2) by (cases out) (auto simp: index_at_eq_Some)
  with * that show thesis by (cases r) simp
qed

text \<open>The bytes of a frame.\<close>

definition frame_bytes :: "nat \<Rightarrow> nat set" where
  "frame_bytes p = {p ..< p + 4096}"

lemma frames_disjoint:
  assumes "bitmap_wf a" "p \<in> bitmap_frames_of a" "q \<in> bitmap_frames_of a" "p \<noteq> q" "ba_frame_size a = 4096"
  shows "frame_bytes p \<inter> frame_bytes q = {}"
  using assms by (auto simp: bitmap_frames_of_def frame_addr_def frame_bytes_def)

lemma frames_in_region:
  assumes "bitmap_new base sz 4096 = Some a" "p \<in> bitmap_frames_of a"
  shows "frame_bytes p \<subseteq> {base ..< base + sz}"
proof -
  note new = bitmap_new_Some [OF assms(1)]
  obtain i where i: "i < ba_total_frames a" "p = ba_start a + i * 4096"
    using assms(2) new(3) by (auto simp: bitmap_frames_of_def frame_addr_def)
  then have "(i + 1) * 4096 \<le> ba_total_frames a * 4096" by (simp only: mult_le_mono1)
  then show ?thesis using i new(4,5) by (auto simp: frame_bytes_def)
qed

text \<open>Freeing the frame just allocated restores the bitmap word for word.\<close>

lemma bitmap_alloc_dealloc:
  assumes wf: "bitmap_wf a" and alloc: "bitmap_alloc_frame a = (Some p, a')"
  shows "bitmap_dealloc_frame a' p = Some a"
  using wf
proof (cases rule: bitmap_alloc_frame_cases)
  case full
  with alloc show ?thesis by simp
next
  case (fresh i)
  let ?w = "ba_words a ! (i div 64)" and ?b = "push_bit (i mod 64) 1 :: usize"
  have a': "a' = a\<lparr>ba_words := (ba_words a)[i div 64 := ?w OR ?b]\<rparr>" and p: "p = frame_addr a i"
    using alloc fresh(4) by simp_all
  then have p': "p = frame_addr a' i" by simp
  have wf': "bitmap_wf a'" using bitmap_alloc_frame_Some [OF wf alloc] by blast
  have "i div 64 < length (ba_words a)" by (rule bitmap_word_in_range [OF wf fresh(1)])
  moreover have "(?w OR ?b) AND NOT ?b = ?w"
    using fresh(2) by (intro bit_word_eqI) (auto simp: bit_simps frame_used_def)
  ultimately show ?thesis
    using bitmap_dealloc_frame_index [OF wf', of i] fresh(1) by (simp add: p' a')
qed

section \<open>Properties\<close>

text \<open>C5: Whatever sequence of allocations and frees of its own frames a client runs against a new
  allocator, no call faults, the frames it holds are page-aligned, lie inside the managed region,
  never overlap one another or the frames of the bitmap, and allocation fails exactly when the
  client holds every other frame of the region.\<close>

theorem frame_clients_exclusive:
  assumes new: "bitmap_new start sz 4096 = Some a"
  shows "\<exists>a' live. frame_client bitmap_alloc_frame bitmap_dealloc_frame a [] ops = Some (a', live)
    \<and> distinct live
    \<and> (\<forall>p \<in> set live. p mod 4096 = 0 \<and> frame_bytes p \<subseteq> {start ..< start + sz}
          \<and> ba_start a + ba_bitmap_frames a * 4096 \<le> p)
    \<and> (\<forall>p \<in> set live. \<forall>q \<in> set live. p \<noteq> q \<longrightarrow> frame_bytes p \<inter> frame_bytes q = {})
    \<and> (fst (bitmap_alloc_frame a') = None \<longleftrightarrow> length live = ba_total_frames a - ba_bitmap_frames a)"
proof -
  note a = bitmap_new_Some [OF new]
  obtain a' live where run: "frame_client bitmap_alloc_frame bitmap_dealloc_frame a [] ops = Some (a', live)"
    and wf: "bitmap_wf a'" and frames: "bitmap_frames_of a' = bitmap_frames_of a"
    and live: "bitmap_owned a' = set live" "distinct live"
    using bitmap.client_owns_live [of a "[]" ops] a(1,2) by auto
  have sub: "set live \<subseteq> bitmap_frames_of a"
    using bitmap.owned_frames [OF wf] live frames by simp
  have card: "card (bitmap_frames_of a) = ba_total_frames a - ba_bitmap_frames a"
    unfolding bitmap_frames_of_def by (subst card_image) (auto simp: inj_on_def frame_addr_inj [OF a(1)])
  have "fst (bitmap_alloc_frame a') = None \<longleftrightarrow> set live = bitmap_frames_of a"
    using bitmap.alloc_fails_iff [OF wf] live frames by simp
  also have "\<dots> \<longleftrightarrow> card (set live) = card (bitmap_frames_of a)"
    using sub bitmap.finite_frames [OF a(1)] by (auto dest: card_subset_eq)
  also have "card (set live) = length live" by (rule distinct_card [OF live(2)])
  finally have "fst (bitmap_alloc_frame a') = None \<longleftrightarrow> length live = ba_total_frames a - ba_bitmap_frames a"
    using card by simp
  moreover have "p mod 4096 = 0 \<and> ba_start a + ba_bitmap_frames a * 4096 \<le> p" if "p \<in> bitmap_frames_of a" for p
    using that a(1,3) by (auto simp: bitmap_frames_of_def frame_addr_def bitmap_wf_def)
  moreover have "frame_bytes p \<subseteq> {start ..< start + sz}" if "p \<in> set live" for p
    using that sub frames_in_region [OF new] by blast
  moreover have "frame_bytes p \<inter> frame_bytes q = {}" if "p \<in> set live" "q \<in> set live" "p \<noteq> q" for p q
    using that sub frames_disjoint [OF a(1) _ _ _ a(3)] by blast
  ultimately show ?thesis
    using run live(2) sub by (intro exI [of _ a'] exI [of _ live]) blast
qed

theorem frame_clients_exclusive_witness:
  "\<exists>a a' live. bitmap_new 0x1234 0x20000 4096 = Some a
     \<and> frame_client bitmap_alloc_frame bitmap_dealloc_frame a [] [Alloc_Frame, Alloc_Frame, Free_Nth 0] = Some (a', live)
     \<and> distinct live"
proof -
  let ?a = "\<lparr>ba_frame_size = 4096, ba_total_frames = 31, ba_bitmap_frames = 1, ba_start = 0x2000,
    ba_words = bitmap_init_words 1 4096\<rparr>"
  have new: "bitmap_new 0x1234 0x20000 4096 = Some ?a"
    by (simp add: bitmap_new_def Let_def next_multiple_of_def)
  show ?thesis
    using new frame_clients_exclusive [OF new, of "[Alloc_Frame, Alloc_Frame, Free_Nth 0]"] by blast
qed

text \<open>A successful allocation takes the lowest free frame and marks nothing else, a failed one
  leaves the bitmap alone, and freeing the frame just allocated restores the bitmap exactly.\<close>

theorem frame_alloc_first_fit:
  assumes "bitmap_wf a"
  shows "case bitmap_alloc_frame a of
      (None, a') \<Rightarrow> a' = a \<and> (\<forall>i < ba_total_frames a. frame_used a i)
    | (Some p, a') \<Rightarrow> bitmap_dealloc_frame a' p = Some a
        \<and> (\<exists>i < ba_total_frames a. p = frame_addr a i \<and> (\<forall>j < i. frame_used a j) \<and> \<not> frame_used a i
             \<and> (\<forall>j. frame_used a' j \<longleftrightarrow> frame_used a j \<or> j = i))"
  using assms
proof (cases rule: bitmap_alloc_frame_cases)
  case (fresh i)
  then show ?thesis
    using bitmap_alloc_dealloc [OF assms fresh(4)]
      frame_used_after_set [OF bitmap_word_in_range [OF assms fresh(1)]] by auto
qed simp

lemma bitmap_new_example:
  "bitmap_new 0x100000 0x20000 4096 = Some \<lparr>ba_frame_size = 4096, ba_total_frames = 32,
     ba_bitmap_frames = 1, ba_start = 0x100000, ba_words = bitmap_init_words 1 4096\<rparr>"
  by (simp add: bitmap_new_def Let_def next_multiple_of_def)

theorem frame_alloc_first_fit_witness:
  "\<exists>a a'. bitmap_new 0x100000 0x20000 4096 = Some a
     \<and> bitmap_alloc_frame a = (Some 0x101000, a') \<and> bitmap_dealloc_frame a' 0x101000 = Some a"
proof -
  let ?a = "\<lparr>ba_frame_size = 4096, ba_total_frames = 32, ba_bitmap_frames = 1, ba_start = 0x100000,
    ba_words = bitmap_init_words 1 4096\<rparr>"
  have "replicate 512 (0 :: usize) = 0 # replicate 511 0"
    using replicate_Suc [of 511 "0 :: usize"] by simp
  then have w: "bitmap_init_words 1 4096 = 1 # replicate 511 0"
    by (simp add: bitmap_init_words_def Let_def)
  have t: "trailing_ones 1 = 1"
    by (simp add: trailing_ones_def upt_conv_Cons [of 0 64] upt_conv_Cons [of "Suc 0" 64] bit_1_iff)
  obtain a' where al: "bitmap_alloc_frame ?a = (Some 0x101000, a')"
    by (simp add: bitmap_alloc_frame_def w w [simplified] t usize_max_def)
  show ?thesis
    using bitmap_new_example al frame_alloc_first_fit [OF bitmap_new_Some(1) [OF bitmap_new_example]]
    by (intro exI [of _ ?a] exI [of _ a']) simp
qed



text \<open>C15: With the managed memory below 16 TiB, \<open>alloc_page\<close> returns the linear-map address of the
  frame taken, and \<open>dealloc_page\<close> of that address restores the manager.\<close>

theorem page_alloc_roundtrip:
  assumes "bitmap_wf (bm_allocator m)"
    and "\<forall>p \<in> bitmap_frames_of (bm_allocator m). p < unat LINEAR_MAP_SIZE"
    and "alloc_page (Some m) = Some (Some va, mgr')"
  shows "dealloc_page mgr' va = Some (Some m)
    \<and> unat va - unat LINEAR_MAP_OFFSET \<in> bitmap_frames_of (bm_allocator m)
    \<and> unat va - unat LINEAR_MAP_OFFSET \<notin> bitmap_owned (bm_allocator m)"
proof -
  obtain p a' where p: "bitmap_alloc_frame (bm_allocator m) = (Some p, a')"
    "va = phys_to_virt (of_nat p)" "mgr' = Some (m\<lparr>bm_allocator := a'\<rparr>)"
    using assms(3) by (auto simp: alloc_page_def alloc_frame_def split: option.splits prod.splits)
  note f = bitmap_alloc_frame_Some [OF assms(1) p(1)]
  then have lt: "p < unat LINEAR_MAP_SIZE" using assms(2) by blast
  then have u: "unat (of_nat p :: usize) = p"
    by (simp add: unat_of_nat map_layout_defs take_bit_nat_eq_self)
  have "unat (virt_to_phys va) = p" "unat va - unat LINEAR_MAP_OFFSET = p"
    using virt_to_phys_to_virt [of "of_nat p"] unat_phys_to_virt [of "of_nat p"] lt u
    by (simp_all add: p(2))
  then show ?thesis
    using bitmap_alloc_dealloc [OF assms(1) p(1)] f by (simp add: dealloc_page_def dealloc_frame_def p(3))
qed

theorem page_alloc_roundtrip_witness:
  "\<exists>a m va mgr'. bitmap_new 0x100000 0x20000 4096 = Some a \<and> bm_allocator m = a
     \<and> alloc_page (Some m) = Some (Some va, mgr') \<and> dealloc_page mgr' va = Some (Some m)"
proof -
  let ?a = "\<lparr>ba_frame_size = 4096, ba_total_frames = 32, ba_bitmap_frames = 1, ba_start = 0x100000,
    ba_words = bitmap_init_words 1 4096\<rparr>"
  let ?m = "\<lparr>bm_available_mem = [], bm_reserved_mem = [], bm_kernel_region = (0, 0), bm_allocator = ?a\<rparr>"
  note a = bitmap_new_Some [OF bitmap_new_example]
  have "ba_bitmap_frames ?a < ba_total_frames ?a" by simp
  then have "bitmap_frames_of ?a \<noteq> {}" by (simp add: bitmap_frames_of_def)
  then have "fst (bitmap_alloc_frame ?a) \<noteq> None"
    using bitmap.alloc_fails_iff [OF a(1)] a(2) by simp
  then obtain p a' where p: "bitmap_alloc_frame ?a = (Some p, a')" by (cases "bitmap_alloc_frame ?a") auto
  then have al: "alloc_page (Some ?m) = Some (Some (phys_to_virt (of_nat p)), Some (?m\<lparr>bm_allocator := a'\<rparr>))"
    by (simp add: alloc_page_def alloc_frame_def)
  have wf: "bitmap_wf (bm_allocator ?m)" using a(1) by simp
  have "\<forall>p \<in> bitmap_frames_of (bm_allocator ?m). p < unat LINEAR_MAP_SIZE"
    by (auto simp: bitmap_frames_of_def frame_addr_def map_layout_defs)
  from page_alloc_roundtrip [OF wf this al] show ?thesis
    using bitmap_new_example al by (intro exI [of _ ?a] exI [of _ ?m]) auto
qed

end
