(* ===== verification/Scheduler.thy ===== *)
theory Scheduler
  imports Cpu
begin

text \<open>
  \<open>src/kernel/sched.rs\<close>. A task is shared by reference (\<open>Arc<Task>\<close>) and found here under its
  \<open>tid\<close>, which is unique because \<open>NEXT_TID\<close> only grows; the queues and \<open>current_task\<close> hold such
  references. The address of a task's kernel stack is chosen by the heap and is an argument.
  \<open>tk_frame\<close> is the part of that stack the scheduler depends on: the handle that the
  \<open>without_irq_fiq\<close> call in which the task is suspended will restore. \<open>sc_cpu\<close> is the register
  state of the core that runs the scheduler.
\<close>

datatype task_state = Task_New | Task_Ready | Task_Running | Task_Waiting | Task_Terminated

record task =
  tk_tid :: nat
  tk_name :: string
  tk_state :: task_state
  tk_context :: arch_context
  tk_frame :: "u64 option"

record scheduler =
  sc_tasks :: "nat \<rightharpoonup> task"
  sc_next_tid :: nat
  sc_new_queue :: "nat list"
  sc_ready_queue :: "nat list"
  sc_terminated_queue :: "nat list"
  sc_current_task :: nat
  sc_idle_task :: nat
  sc_cpu :: cpu_regs

text \<open>The addresses of the code a task starts and ends in.\<close>

record code_addrs =
  ca_terminate_task :: u64
  ca_entry_trampoline :: u64
  ca_idle_task :: u64

definition task_new :: "code_addrs \<Rightarrow> nat \<Rightarrow> string \<Rightarrow> u64 \<Rightarrow> usize \<Rightarrow> task" where
  "task_new code tid name entry stack_end =
     \<lparr>tk_tid = tid, tk_name = name, tk_state = Task_New,
      tk_context = arch_context_new stack_end entry (ca_terminate_task code) (ca_entry_trampoline code),
      tk_frame = None\<rparr>"

text \<open>Reading and writing a task through its reference.\<close>

definition task_at :: "scheduler \<Rightarrow> nat \<Rightarrow> task" where
  "task_at s t = the (sc_tasks s t)"

definition update_task :: "nat \<Rightarrow> (task \<Rightarrow> task) \<Rightarrow> scheduler \<Rightarrow> scheduler" where
  "update_task t f s = s\<lparr>sc_tasks := (sc_tasks s)(t := map_option f (sc_tasks s t))\<rparr>"

definition set_state :: "nat \<Rightarrow> task_state \<Rightarrow> scheduler \<Rightarrow> scheduler" where
  "set_state t st = update_task t (\<lambda>k. k\<lparr>tk_state := st\<rparr>)"

definition has_state :: "scheduler \<Rightarrow> nat \<Rightarrow> task_state \<Rightarrow> bool" where
  "has_state s t st \<longleftrightarrow> tk_state (task_at s t) = st"

text \<open>\<open>Scheduler::new\<close>: the first task created is the idle task.\<close>

definition scheduler_new :: "code_addrs \<Rightarrow> nat \<Rightarrow> usize \<Rightarrow> cpu_regs \<Rightarrow> scheduler" where
  "scheduler_new code next_tid stack_end cpu =
     \<lparr>sc_tasks = [next_tid \<mapsto> task_new code next_tid ''idle_task'' (ca_idle_task code) stack_end],
      sc_next_tid = next_tid + 1, sc_new_queue = [], sc_ready_queue = [], sc_terminated_queue = [],
      sc_current_task = next_tid, sc_idle_task = next_tid, sc_cpu = cpu\<rparr>"

definition sched_start :: "scheduler \<Rightarrow> scheduler" where
  "sched_start s =
     (let first_task = sc_current_task s;
          s1 = set_state first_task Task_Running s
      in s1\<lparr>sc_cpu := fst (load_context (tk_context (task_at s1 first_task)))\<rparr>)"

definition sched_add_task :: "code_addrs \<Rightarrow> string \<Rightarrow> u64 \<Rightarrow> usize \<Rightarrow> scheduler \<Rightarrow> scheduler" where
  "sched_add_task code name entry stack_end s =
     (let tid = sc_next_tid s in
      s\<lparr>sc_next_tid := tid + 1,
        sc_tasks := (sc_tasks s)(tid \<mapsto> task_new code tid name entry stack_end),
        sc_new_queue := sc_new_queue s @ [tid]\<rparr>)"

text \<open>\<open>_prepare_new_tasks\<close>: the loop drains the new queue into the ready queue.\<close>

fun prepare_loop :: "nat list \<Rightarrow> scheduler \<Rightarrow> scheduler" where
  "prepare_loop [] s = s\<lparr>sc_new_queue := []\<rparr>"
| "prepare_loop (t # ts) s =
     prepare_loop ts ((set_state t Task_Ready s)\<lparr>sc_ready_queue := sc_ready_queue s @ [t]\<rparr>)"

definition prepare_new_tasks :: "scheduler \<Rightarrow> scheduler" where
  "prepare_new_tasks s = prepare_loop (sc_new_queue s) s"

text \<open>The call \<open>switch_context(&current.context, &next.context)\<close>.\<close>

definition switch_tasks :: "nat \<Rightarrow> nat \<Rightarrow> scheduler \<Rightarrow> scheduler" where
  "switch_tasks current next s =
     (let (cpu, target, ctxs) = switch_context current next (sc_cpu s) (\<lambda>t. tk_context (task_at s t))
      in (update_task current (\<lambda>k. k\<lparr>tk_context := ctxs current\<rparr>) s)\<lparr>sc_cpu := cpu\<rparr>)"

definition schedule :: "scheduler \<Rightarrow> scheduler" where
  "schedule s0 =
     (let s = prepare_new_tasks s0;
          current = sc_current_task s;
          may_continue = has_state s current Task_Running
      in if sc_ready_queue s = [] \<and> may_continue then s
         else
           let next = (case sc_ready_queue s of [] \<Rightarrow> sc_idle_task s | t # _ \<Rightarrow> t);
               ready = tl (sc_ready_queue s);
               ready' = (if may_continue \<and> current \<noteq> sc_idle_task s then ready @ [current] else ready);
               s1 = s\<lparr>sc_ready_queue := ready', sc_current_task := next\<rparr>;
               s2 = (if may_continue then set_state current Task_Ready s1 else s1);
               s3 = set_state next Task_Running s2
           in switch_tasks current next s3)"

definition exit_current :: "scheduler \<Rightarrow> scheduler" where
  "exit_current s =
     (let current = sc_current_task s;
          s1 = set_state current Task_Terminated s
      in schedule (s1\<lparr>sc_terminated_queue := sc_terminated_queue s1 @ [current]\<rparr>))"

text \<open>\<open>without_irq_fiq\<close> around a scheduler call: the handle stays on the stack of the calling task
  while it is suspended, and the task that runs after the call restores its own.\<close>

definition masked_call :: "(scheduler \<Rightarrow> scheduler) \<Rightarrow> scheduler \<Rightarrow> scheduler" where
  "masked_call f s =
     (let (handle, daif) = local_disable_irq_fiq (cpu_daif (sc_cpu s));
          s1 = (update_task (sc_current_task s) (\<lambda>k. k\<lparr>tk_frame := Some handle\<rparr>) s)
                 \<lparr>sc_cpu := (sc_cpu s)\<lparr>cpu_daif := daif\<rparr>\<rparr>;
          s2 = f s1
      in case tk_frame (task_at s2 (sc_current_task s2)) of
           None \<Rightarrow> s2
         | Some handle' \<Rightarrow>
             (update_task (sc_current_task s2) (\<lambda>k. k\<lparr>tk_frame := None\<rparr>) s2)
               \<lparr>sc_cpu := (sc_cpu s2)\<lparr>cpu_daif := local_restore_interrupts handle' (cpu_daif (sc_cpu s2))\<rparr>\<rparr>)"

text \<open>The public functions; \<open>None\<close> is the panic before \<open>init\<close>. \<open>add_task\<close> creates a task, drops it,
  and lets the scheduler create the one that runs, so it uses up two task ids.\<close>

definition add_task ::
    "code_addrs \<Rightarrow> string \<Rightarrow> u64 \<Rightarrow> usize \<Rightarrow> scheduler option \<Rightarrow> scheduler option option" where
  "add_task code name entry stack_end sched =
     (case sched of
        None \<Rightarrow> None
      | Some s \<Rightarrow>
          let s1 = s\<lparr>sc_next_tid := sc_next_tid s + 1\<rparr>
          in Some (Some (masked_call (sched_add_task code name entry stack_end) s1)))"

definition yield_task :: "scheduler option \<Rightarrow> scheduler option option" where
  "yield_task sched = (case sched of None \<Rightarrow> None | Some s \<Rightarrow> Some (Some (masked_call schedule s)))"

text \<open>\<open>terminate_task\<close>: returning to the same task would reach \<open>unreachable!()\<close>.\<close>

definition terminate_task :: "scheduler option \<Rightarrow> scheduler option option" where
  "terminate_task sched =
     (case sched of
        None \<Rightarrow> None
      | Some s \<Rightarrow>
          let s' = masked_call exit_current s
          in if sc_current_task s' = sc_current_task s then None else Some (Some s'))"

definition task_id :: "scheduler option \<Rightarrow> nat" where
  "task_id sched = (case sched of None \<Rightarrow> 0 | Some s \<Rightarrow> tk_tid (task_at s (sc_current_task s)))"


section \<open>Invariant\<close>

definition sched_queues :: "scheduler \<Rightarrow> nat list" where
  "sched_queues s = sc_new_queue s @ sc_ready_queue s @ sc_terminated_queue s"

text \<open>The tasks that run next, in order.\<close>

definition runnable :: "scheduler \<Rightarrow> nat list" where
  "runnable s = sc_ready_queue s @ sc_new_queue s"

definition sched_inv :: "scheduler \<Rightarrow> bool" where
  "sched_inv s \<longleftrightarrow>
     distinct (sched_queues s)
   \<and> sc_idle_task s \<notin> set (sched_queues s) \<and> sc_current_task s \<notin> set (sched_queues s)
   \<and> dom (sc_tasks s) = set (sched_queues s) \<union> {sc_current_task s, sc_idle_task s}
   \<and> (\<forall>t \<in> set (sc_new_queue s). has_state s t Task_New)
   \<and> (\<forall>t \<in> set (sc_ready_queue s). has_state s t Task_Ready)
   \<and> (\<forall>t \<in> set (sc_terminated_queue s). has_state s t Task_Terminated)
   \<and> has_state s (sc_current_task s) Task_Running
   \<and> (sc_idle_task s = sc_current_task s \<or> has_state s (sc_idle_task s) Task_Ready)
   \<and> (\<forall>t \<in> dom (sc_tasks s). tk_tid (task_at s t) = t \<and> t < sc_next_tid s)
   \<and> tk_frame (task_at s (sc_current_task s)) = None"

text \<open>The registers a task computes with: the core's while it runs, and otherwise those it resumes
  with, its interrupt mask as the suspended call restores it.\<close>

definition task_regs :: "scheduler \<Rightarrow> nat \<Rightarrow> cpu_regs" where
  "task_regs s t =
     (if t = sc_current_task s then sc_cpu s
      else
        let regs = fst (load_context (tk_context (task_at s t)))
        in case tk_frame (task_at s t) of None \<Rightarrow> regs | Some h \<Rightarrow> regs\<lparr>cpu_daif := h\<rparr>)"


section \<open>Effect of the operations\<close>

lemma task_at_update_task:
  "t \<in> dom (sc_tasks s) \<Longrightarrow> task_at (update_task t f s) u = (if u = t then f (task_at s t) else task_at s u)"
  by (auto simp: task_at_def update_task_def)

lemma dom_update_task [simp]: "dom (sc_tasks (update_task t f s)) = dom (sc_tasks s)"
  by (auto simp: update_task_def dom_def)

lemma update_task_fields [simp]:
  "sc_next_tid (update_task t f s) = sc_next_tid s" "sc_new_queue (update_task t f s) = sc_new_queue s"
  "sc_ready_queue (update_task t f s) = sc_ready_queue s"
  "sc_terminated_queue (update_task t f s) = sc_terminated_queue s"
  "sc_current_task (update_task t f s) = sc_current_task s" "sc_idle_task (update_task t f s) = sc_idle_task s"
  "sc_cpu (update_task t f s) = sc_cpu s"
  by (simp_all add: update_task_def)

lemma task_at_other_fields [simp]:
  "task_at (s\<lparr>sc_cpu := c\<rparr>) = task_at s" "task_at (s\<lparr>sc_ready_queue := r\<rparr>) = task_at s"
  "task_at (s\<lparr>sc_new_queue := n\<rparr>) = task_at s" "task_at (s\<lparr>sc_terminated_queue := n\<rparr>) = task_at s"
  "task_at (s\<lparr>sc_current_task := t\<rparr>) = task_at s" "task_at (s\<lparr>sc_next_tid := i\<rparr>) = task_at s"
  by (simp_all add: task_at_def fun_eq_iff)

lemma prepare_loop_effect:
  assumes "set ts \<subseteq> dom (sc_tasks s)"
  shows "sc_new_queue (prepare_loop ts s) = [] \<and> sc_ready_queue (prepare_loop ts s) = sc_ready_queue s @ ts
    \<and> sc_terminated_queue (prepare_loop ts s) = sc_terminated_queue s
    \<and> sc_current_task (prepare_loop ts s) = sc_current_task s \<and> sc_idle_task (prepare_loop ts s) = sc_idle_task s
    \<and> sc_next_tid (prepare_loop ts s) = sc_next_tid s \<and> sc_cpu (prepare_loop ts s) = sc_cpu s
    \<and> dom (sc_tasks (prepare_loop ts s)) = dom (sc_tasks s)
    \<and> task_at (prepare_loop ts s) =
        (\<lambda>u. if u \<in> set ts then (task_at s u)\<lparr>tk_state := Task_Ready\<rparr> else task_at s u)"
  using assms
proof (induction ts s rule: prepare_loop.induct)
  case (2 t ts s)
  then have "t \<in> dom (sc_tasks s)" by simp
  with 2 show ?case
    by (simp add: set_state_def task_at_update_task fun_eq_iff)
qed (simp add: fun_eq_iff)

lemmas prepare_new_tasks_effect =
  prepare_loop_effect [of "sc_new_queue s" s for s, folded prepare_new_tasks_def]

text \<open>The references the scheduler follows are live.\<close>

definition sched_refs :: "scheduler \<Rightarrow> bool" where
  "sched_refs s \<longleftrightarrow> set (sched_queues s) \<union> {sc_current_task s, sc_idle_task s} \<subseteq> dom (sc_tasks s)
     \<and> sc_current_task s \<notin> set (runnable s)"

definition next_task :: "scheduler \<Rightarrow> nat" where
  "next_task s = (case runnable s of [] \<Rightarrow> sc_idle_task s | t # _ \<Rightarrow> t)"

lemma schedule_stays:
  assumes "runnable s = []" and "has_state s (sc_current_task s) Task_Running"
  shows "schedule s = s"
  using assms by (simp add: schedule_def prepare_new_tasks_def runnable_def Let_def has_state_def)

lemma schedule_switches:
  fixes s
  defines "cur \<equiv> sc_current_task s" and "may \<equiv> has_state s (sc_current_task s) Task_Running"
    and "s' \<equiv> schedule s"
  assumes refs: "sched_refs s" and sw: "runnable s \<noteq> [] \<or> \<not> may"
  shows "sc_current_task s' = next_task s" "sc_new_queue s' = []"
    "sc_ready_queue s' = tl (runnable s) @ (if may \<and> cur \<noteq> sc_idle_task s then [cur] else [])"
    "sc_terminated_queue s' = sc_terminated_queue s" "sc_idle_task s' = sc_idle_task s"
    "sc_next_tid s' = sc_next_tid s" "dom (sc_tasks s') = dom (sc_tasks s)"
    "sc_cpu s' = fst (load_context (if next_task s = cur then save_context (sc_cpu s)
                                    else tk_context (task_at s (next_task s))))"
    "task_at s' = (\<lambda>u. (task_at s u)
       \<lparr>tk_state := if u = next_task s then Task_Running else if u = cur \<and> may then Task_Ready
                   else if u \<in> set (sc_new_queue s) then Task_Ready else tk_state (task_at s u),
        tk_context := if u = cur then save_context (sc_cpu s) else tk_context (task_at s u)\<rparr>)"
proof -
  let ?p = "prepare_new_tasks s"
  have new: "set (sc_new_queue s) \<subseteq> dom (sc_tasks s)"
    using refs by (auto simp: sched_refs_def sched_queues_def)
  note p = prepare_new_tasks_effect [OF new]
  have cur: "cur \<in> dom (sc_tasks s)" "cur \<notin> set (sc_new_queue s)"
    using refs by (auto simp: sched_refs_def cur_def runnable_def)
  have "next_task s \<in> insert (sc_idle_task s) (set (runnable s))"
    by (cases "runnable s") (simp_all add: next_task_def)
  then have next_: "next_task s \<in> dom (sc_tasks s)"
    using refs by (auto simp: sched_refs_def sched_queues_def runnable_def)
  have may: "has_state ?p (sc_current_task ?p) Task_Running = may"
    using p cur by (simp add: has_state_def may_def cur_def)
  have nxt: "(case sc_ready_queue ?p of [] \<Rightarrow> sc_idle_task ?p | t # _ \<Rightarrow> t) = next_task s"
    using p by (simp add: next_task_def runnable_def split: list.split)
  have sw': "\<not> (sc_ready_queue ?p = [] \<and> may)" using sw p by (auto simp: runnable_def)
  have sw2: "(sc_ready_queue s = [] \<and> sc_new_queue s = [] \<and> may) = False" using sw by (auto simp: runnable_def)
  note eff = s'_def schedule_def Let_def may nxt sw' if_False switch_tasks_def switch_context_def
    set_state_def split_beta
  have "next_task s \<in> dom (sc_tasks ?p)" "cur \<in> dom (sc_tasks ?p)" "sc_current_task ?p = cur"
    using next_ cur p by (simp_all add: cur_def)
  with p show "sc_current_task s' = next_task s" "sc_new_queue s' = []"
    "sc_ready_queue s' = tl (runnable s) @ (if may \<and> cur \<noteq> sc_idle_task s then [cur] else [])"
    "sc_terminated_queue s' = sc_terminated_queue s" "sc_idle_task s' = sc_idle_task s"
    "sc_next_tid s' = sc_next_tid s" "dom (sc_tasks s') = dom (sc_tasks s)"
    "sc_cpu s' = fst (load_context (if next_task s = cur then save_context (sc_cpu s)
                                    else tk_context (task_at s (next_task s))))"
    "task_at s' = (\<lambda>u. (task_at s u)
       \<lparr>tk_state := if u = next_task s then Task_Running else if u = cur \<and> may then Task_Ready
                   else if u \<in> set (sc_new_queue s) then Task_Ready else tk_state (task_at s u),
        tk_context := if u = cur then save_context (sc_cpu s) else tk_context (task_at s u)\<rparr>)"
    unfolding eff by (simp_all add: runnable_def task_at_update_task fun_eq_iff sw2)
qed

lemma sched_inv_refs: "sched_inv s \<Longrightarrow> sched_refs s"
  by (auto simp: sched_inv_def sched_refs_def sched_queues_def runnable_def)

text \<open>What a masked call adds: the caller's handle is put on its stack before, and the task that
  runs after takes its own back.\<close>

definition enter_masked :: "scheduler \<Rightarrow> scheduler" where
  "enter_masked s = (update_task (sc_current_task s) (\<lambda>k. k\<lparr>tk_frame := Some (cpu_daif (sc_cpu s))\<rparr>) s)
     \<lparr>sc_cpu := (sc_cpu s)\<lparr>cpu_daif := cpu_daif (sc_cpu s) OR daif_irq_fiq\<rparr>\<rparr>"

definition leave_masked :: "scheduler \<Rightarrow> scheduler" where
  "leave_masked s =
     (case tk_frame (task_at s (sc_current_task s)) of
        None \<Rightarrow> s
      | Some h \<Rightarrow> (update_task (sc_current_task s) (\<lambda>k. k\<lparr>tk_frame := None\<rparr>) s)
                   \<lparr>sc_cpu := (sc_cpu s)\<lparr>cpu_daif := h\<rparr>\<rparr>)"

lemma masked_call_split: "masked_call f s = leave_masked (f (enter_masked s))"
  by (simp add: masked_call_def leave_masked_def enter_masked_def local_disable_irq_fiq_def
      local_restore_interrupts_def Let_def split: option.split)

lemma enter_masked_fields [simp]:
  "sc_next_tid (enter_masked s) = sc_next_tid s" "sc_new_queue (enter_masked s) = sc_new_queue s"
  "sc_ready_queue (enter_masked s) = sc_ready_queue s" "sc_terminated_queue (enter_masked s) = sc_terminated_queue s"
  "sc_current_task (enter_masked s) = sc_current_task s" "sc_idle_task (enter_masked s) = sc_idle_task s"
  "dom (sc_tasks (enter_masked s)) = dom (sc_tasks s)"
  "runnable (enter_masked s) = runnable s" "sched_queues (enter_masked s) = sched_queues s"
  "next_task (enter_masked s) = next_task s" "sched_refs (enter_masked s) = sched_refs s"
  by (simp_all add: enter_masked_def runnable_def sched_queues_def next_task_def sched_refs_def split: list.split)

lemma task_at_enter_masked:
  "sched_refs s \<Longrightarrow> task_at (enter_masked s) u =
     (if u = sc_current_task s then (task_at s u)\<lparr>tk_frame := Some (cpu_daif (sc_cpu s))\<rparr> else task_at s u)"
  by (simp add: enter_masked_def sched_refs_def task_at_update_task)

lemma leave_masked_fields [simp]:
  "sc_next_tid (leave_masked s) = sc_next_tid s" "sc_new_queue (leave_masked s) = sc_new_queue s"
  "sc_ready_queue (leave_masked s) = sc_ready_queue s" "sc_terminated_queue (leave_masked s) = sc_terminated_queue s"
  "sc_current_task (leave_masked s) = sc_current_task s" "sc_idle_task (leave_masked s) = sc_idle_task s"
  "dom (sc_tasks (leave_masked s)) = dom (sc_tasks s)"
  by (simp_all add: leave_masked_def split: option.splits)

lemma task_at_leave_masked:
  "sc_current_task s \<in> dom (sc_tasks s) \<Longrightarrow> task_at (leave_masked s) u =
     (if u = sc_current_task s then (task_at s u)\<lparr>tk_frame := None\<rparr> else task_at s u)"
  by (auto simp: leave_masked_def task_at_update_task split: option.splits)

lemma sc_cpu_leave_masked:
  "sc_cpu (leave_masked s) =
     (case tk_frame (task_at s (sc_current_task s)) of
        None \<Rightarrow> sc_cpu s | Some h \<Rightarrow> (sc_cpu s)\<lparr>cpu_daif := h\<rparr>)"
  by (simp add: leave_masked_def split: option.splits)

lemma load_save [simp]: "fst (load_context (save_context c)) = c"
  by (simp add: load_context_def save_context_def)

text \<open>\<open>yield_task\<close> and \<open>terminate_task\<close> on the queues.\<close>

lemma yield_stays:
  assumes inv: "sched_inv s" and idle: "runnable s = []"
  shows "masked_call schedule s = s"
proof -
  note refs = sched_inv_refs [OF inv]
  have cur: "sc_current_task s \<in> dom (sc_tasks s)" using refs by (simp add: sched_refs_def)
  have "has_state (enter_masked s) (sc_current_task (enter_masked s)) Task_Running"
    using inv refs by (simp add: has_state_def task_at_enter_masked sched_inv_def)
  then have "schedule (enter_masked s) = enter_masked s"
    using idle by (intro schedule_stays) simp_all
  moreover have "leave_masked (enter_masked s) = s"
  proof -
    obtain k where k: "sc_tasks s (sc_current_task s) = Some k" using cur by auto
    then have "tk_frame k = None" using inv by (simp add: sched_inv_def task_at_def)
    with k show ?thesis
      by (simp add: leave_masked_def enter_masked_def update_task_def task_at_def fun_upd_idem)
  qed
  ultimately show ?thesis by (simp add: masked_call_split)
qed

lemma next_task_Cons: "runnable s = n # rest \<Longrightarrow> next_task s = n"
  by (simp add: next_task_def)

lemma sched_inv_disjoint:
  assumes "sched_inv s"
  shows "sc_current_task s \<notin> set (runnable s)" "sc_idle_task s \<notin> set (runnable s)" "distinct (runnable s)"
    "distinct (sc_terminated_queue s)" "set (runnable s) \<inter> set (sc_terminated_queue s) = {}"
    "sc_current_task s \<notin> set (sc_terminated_queue s)" "sc_idle_task s \<notin> set (sc_terminated_queue s)"
  using assms by (auto simp: sched_inv_def sched_queues_def runnable_def)

lemma yield_switches:
  fixes s
  defines "cur \<equiv> sc_current_task s" and "s' \<equiv> masked_call schedule s"
  assumes inv: "sched_inv s" and run: "runnable s = n # rest"
  shows "sc_current_task s' = n" "sc_new_queue s' = []"
    "sc_ready_queue s' = rest @ (if cur \<noteq> sc_idle_task s then [cur] else [])"
    "sc_terminated_queue s' = sc_terminated_queue s" "sc_idle_task s' = sc_idle_task s"
    "sc_next_tid s' = sc_next_tid s" "dom (sc_tasks s') = dom (sc_tasks s)"
    "sc_cpu s' = task_regs s n"
    "task_at s' = (\<lambda>u. (task_at s u)
       \<lparr>tk_state := if u = n then Task_Running else if u = cur then Task_Ready
                   else if u \<in> set (sc_new_queue s) then Task_Ready else tk_state (task_at s u),
        tk_context := if u = cur then save_context ((sc_cpu s)\<lparr>cpu_daif := cpu_daif (sc_cpu s) OR daif_irq_fiq\<rparr>)
                      else tk_context (task_at s u),
        tk_frame := if u = n then None else if u = cur then Some (cpu_daif (sc_cpu s))
                    else tk_frame (task_at s u)\<rparr>)"
proof -
  let ?e = "enter_masked s"
  note refs = sched_inv_refs [OF inv]
  have e_refs: "sched_refs ?e" using refs by simp
  have may: "has_state ?e (sc_current_task ?e) Task_Running"
    using inv refs by (simp add: has_state_def task_at_enter_masked sched_inv_def)
  have ncur: "n \<noteq> cur" using sched_inv_disjoint(1) [OF inv] run by (auto simp: cur_def)
  have n: "next_task ?e = n" using run by (simp add: next_task_Cons)
  have may': "has_state ?e (sc_current_task s) Task_Running" using may by simp
  note sw = schedule_switches [OF e_refs, unfolded n]
  have run_e: "runnable ?e = n # rest" using run by simp
  have cpu_e: "sc_cpu ?e = (sc_cpu s)\<lparr>cpu_daif := cpu_daif (sc_cpu s) OR daif_irq_fiq\<rparr>"
    by (simp add: enter_masked_def)
  have dom_n: "n \<in> dom (sc_tasks s)"
    using refs run by (auto simp: sched_refs_def sched_queues_def runnable_def append_eq_Cons_conv)
  note eff = s'_def masked_call_split
  show "sc_current_task s' = n" "sc_new_queue s' = []"
    "sc_ready_queue s' = rest @ (if cur \<noteq> sc_idle_task s then [cur] else [])"
    "sc_terminated_queue s' = sc_terminated_queue s" "sc_idle_task s' = sc_idle_task s"
    "sc_next_tid s' = sc_next_tid s" "dom (sc_tasks s') = dom (sc_tasks s)"
    unfolding eff using sw run_e may' by (simp_all add: cur_def)
  show "sc_cpu s' = task_regs s n"
    unfolding eff using sw run_e ncur refs may'
    by (simp add: sc_cpu_leave_masked task_regs_def task_at_enter_masked cur_def Let_def split: option.split)
  show "task_at s' = (\<lambda>u. (task_at s u)
       \<lparr>tk_state := if u = n then Task_Running else if u = cur then Task_Ready
                   else if u \<in> set (sc_new_queue s) then Task_Ready else tk_state (task_at s u),
        tk_context := if u = cur then save_context ((sc_cpu s)\<lparr>cpu_daif := cpu_daif (sc_cpu s) OR daif_irq_fiq\<rparr>)
                      else tk_context (task_at s u),
        tk_frame := if u = n then None else if u = cur then Some (cpu_daif (sc_cpu s))
                    else tk_frame (task_at s u)\<rparr>)"
    unfolding eff using sw run_e may' ncur refs dom_n cpu_e
    by (auto simp: fun_eq_iff task_at_leave_masked task_at_enter_masked cur_def)
qed

definition retire_current :: "scheduler \<Rightarrow> scheduler" where
  "retire_current s = (set_state (sc_current_task s) Task_Terminated s)
     \<lparr>sc_terminated_queue := sc_terminated_queue s @ [sc_current_task s]\<rparr>"

lemma exit_current_retire: "exit_current s = schedule (retire_current s)"
  by (simp add: exit_current_def retire_current_def Let_def set_state_def)

lemma terminate_switches:
  fixes s
  defines "cur \<equiv> sc_current_task s" and "n \<equiv> next_task s" and "s' \<equiv> masked_call exit_current s"
  assumes inv: "sched_inv s" and busy: "sc_current_task s \<noteq> sc_idle_task s"
  shows "sc_current_task s' = n" "sc_new_queue s' = []" "sc_ready_queue s' = tl (runnable s)"
    "sc_terminated_queue s' = sc_terminated_queue s @ [cur]" "sc_idle_task s' = sc_idle_task s"
    "sc_next_tid s' = sc_next_tid s" "dom (sc_tasks s') = dom (sc_tasks s)"
    "sc_cpu s' = task_regs s n"
    "n \<noteq> cur"
    "task_at s' = (\<lambda>u. (task_at s u)
       \<lparr>tk_state := if u = n then Task_Running else if u = cur then Task_Terminated
                   else if u \<in> set (sc_new_queue s) then Task_Ready else tk_state (task_at s u),
        tk_context := if u = cur then save_context ((sc_cpu s)\<lparr>cpu_daif := cpu_daif (sc_cpu s) OR daif_irq_fiq\<rparr>)
                      else tk_context (task_at s u),
        tk_frame := if u = n then None else if u = cur then Some (cpu_daif (sc_cpu s))
                    else tk_frame (task_at s u)\<rparr>)"
proof -
  let ?e = "retire_current (enter_masked s)"
  note refs = sched_inv_refs [OF inv]
  have cur: "cur \<in> dom (sc_tasks s)" using refs by (simp add: sched_refs_def cur_def)
  have fields: "sc_current_task ?e = cur" "sc_idle_task ?e = sc_idle_task s" "sc_new_queue ?e = sc_new_queue s"
    "sc_ready_queue ?e = sc_ready_queue s" "sc_terminated_queue ?e = sc_terminated_queue s @ [cur]"
    "runnable ?e = runnable s" "next_task ?e = n" "sc_next_tid ?e = sc_next_tid s"
    "dom (sc_tasks ?e) = dom (sc_tasks s)"
    "sc_cpu ?e = (sc_cpu s)\<lparr>cpu_daif := cpu_daif (sc_cpu s) OR daif_irq_fiq\<rparr>"
    by (simp_all add: retire_current_def set_state_def cur_def n_def runnable_def next_task_def
        split: list.split) (simp add: enter_masked_def)
  have at_e: "task_at ?e u = (if u = cur then (task_at s u)\<lparr>tk_frame := Some (cpu_daif (sc_cpu s)),
      tk_state := Task_Terminated\<rparr> else task_at s u)" for u
    using refs cur by (simp add: retire_current_def set_state_def task_at_update_task task_at_enter_masked cur_def)
  have e_refs: "sched_refs ?e"
    using refs cur fields by (auto simp: sched_refs_def sched_queues_def cur_def)
  have may: "has_state ?e cur Task_Running = False"
    by (simp add: has_state_def at_e)
  have dom_n: "n \<in> dom (sc_tasks s)" and ncur: "n \<noteq> cur"
    using refs busy unfolding n_def cur_def next_task_def
    by (auto simp: sched_refs_def sched_queues_def runnable_def append_eq_Cons_conv split: list.splits)
  then show "n \<noteq> cur" by simp
  note sw = schedule_switches [OF e_refs, unfolded fields may simp_thms if_False append_Nil2]
  note eff = s'_def masked_call_split exit_current_retire
  show "sc_current_task s' = n" "sc_new_queue s' = []" "sc_ready_queue s' = tl (runnable s)"
    "sc_terminated_queue s' = sc_terminated_queue s @ [cur]" "sc_idle_task s' = sc_idle_task s"
    "sc_next_tid s' = sc_next_tid s" "dom (sc_tasks s') = dom (sc_tasks s)"
    unfolding eff using sw by simp_all
  show "sc_cpu s' = task_regs s n"
    unfolding eff using sw ncur
    by (simp add: sc_cpu_leave_masked task_regs_def at_e cur_def Let_def split: option.split)
  show "task_at s' = (\<lambda>u. (task_at s u)
       \<lparr>tk_state := if u = n then Task_Running else if u = cur then Task_Terminated
                   else if u \<in> set (sc_new_queue s) then Task_Ready else tk_state (task_at s u),
        tk_context := if u = cur then save_context ((sc_cpu s)\<lparr>cpu_daif := cpu_daif (sc_cpu s) OR daif_irq_fiq\<rparr>)
                      else tk_context (task_at s u),
        tk_frame := if u = n then None else if u = cur then Some (cpu_daif (sc_cpu s))
                    else tk_frame (task_at s u)\<rparr>)"
    unfolding eff using sw ncur dom_n refs
    by (auto simp: fun_eq_iff task_at_leave_masked at_e sched_refs_def sched_queues_def runnable_def cur_def)
qed

lemma sched_inv_facts:
  assumes "sched_inv s"
  shows "\<And>t. t \<in> set (runnable s) \<Longrightarrow> t \<in> set (sc_new_queue s) \<or> tk_state (task_at s t) = Task_Ready"
    "\<And>t. t \<in> set (sc_new_queue s) \<Longrightarrow> t \<in> set (runnable s)"
    "\<And>t. t \<in> set (sc_terminated_queue s) \<Longrightarrow> tk_state (task_at s t) = Task_Terminated"
    "sc_idle_task s \<noteq> sc_current_task s \<Longrightarrow> tk_state (task_at s (sc_idle_task s)) = Task_Ready"
    "\<And>t. t \<in> dom (sc_tasks s) \<Longrightarrow> tk_tid (task_at s t) = t \<and> t < sc_next_tid s"
    "dom (sc_tasks s) = set (runnable s) \<union> set (sc_terminated_queue s) \<union> {sc_current_task s, sc_idle_task s}"
  using assms by (auto simp: sched_inv_def runnable_def has_state_def sched_queues_def)

lemma sched_invI:
  assumes "distinct (sc_new_queue s)" "distinct (sc_ready_queue s)" "distinct (sc_terminated_queue s)"
    and "\<And>t. t \<in> set (sc_new_queue s) \<Longrightarrow> t \<noteq> sc_idle_task s \<and> t \<noteq> sc_current_task s \<and> tk_state (task_at s t) = Task_New"
    and "\<And>t. t \<in> set (sc_ready_queue s) \<Longrightarrow> t \<noteq> sc_idle_task s \<and> t \<noteq> sc_current_task s \<and> tk_state (task_at s t) = Task_Ready"
    and "\<And>t. t \<in> set (sc_terminated_queue s) \<Longrightarrow>
          t \<noteq> sc_idle_task s \<and> t \<noteq> sc_current_task s \<and> tk_state (task_at s t) = Task_Terminated"
    and "tk_state (task_at s (sc_current_task s)) = Task_Running"
    and "sc_idle_task s \<noteq> sc_current_task s \<Longrightarrow> tk_state (task_at s (sc_idle_task s)) = Task_Ready"
    and "\<And>t. t \<in> dom (sc_tasks s) \<Longrightarrow> tk_tid (task_at s t) = t \<and> t < sc_next_tid s"
    and "dom (sc_tasks s) = set (runnable s) \<union> set (sc_terminated_queue s) \<union> {sc_current_task s, sc_idle_task s}"
    and "tk_frame (task_at s (sc_current_task s)) = None"
  shows "sched_inv s"
proof -
  have "distinct (sched_queues s)"
    using assms(1-6) by (fastforce simp: sched_queues_def)
  moreover have "sc_idle_task s \<notin> set (sched_queues s)"
    using assms(4-6) [of "sc_idle_task s"] by (auto simp: sched_queues_def)
  moreover have "sc_current_task s \<notin> set (sched_queues s)"
    using assms(4-6) [of "sc_current_task s"] by (auto simp: sched_queues_def)
  moreover have "dom (sc_tasks s) = set (sched_queues s) \<union> {sc_current_task s, sc_idle_task s}"
    using assms(10) by (auto simp: sched_queues_def runnable_def)
  ultimately show ?thesis
    unfolding sched_inv_def has_state_def using assms(4-9,11) by (simp add: disj_imp)
qed

lemma sched_inv_yield:
  assumes inv: "sched_inv s"
  shows "sched_inv (masked_call schedule s)"
proof (cases "runnable s")
  case Nil
  with yield_stays [OF inv] inv show ?thesis by simp
next
  case (Cons n rest)
  note y = yield_switches [OF inv Cons] and d = sched_inv_disjoint [OF inv, unfolded Cons]
    and f = sched_inv_facts [OF inv, unfolded Cons]
  have r: "runnable (masked_call schedule s) = rest @ (if sc_current_task s \<noteq> sc_idle_task s then [sc_current_task s] else [])"
    unfolding runnable_def y by simp
  have sub: "\<And>t. t \<in> set rest \<Longrightarrow> t \<noteq> n \<and> t \<noteq> sc_current_task s \<and> t \<noteq> sc_idle_task s" "n \<noteq> sc_current_task s"
    "n \<noteq> sc_idle_task s"
    using d by auto
  have term_: "t \<noteq> n \<and> t \<notin> set (sc_new_queue s) \<and> t \<noteq> sc_current_task s \<and> t \<noteq> sc_idle_task s"
    if "t \<in> set (sc_terminated_queue s)" for t using that d f(2) by auto
  have idle: "sc_idle_task s \<notin> set (sc_new_queue s)" using d f(2) by auto
  show ?thesis
  proof (rule sched_invI, unfold y r)
    show "dom (sc_tasks s) = set (rest @ (if sc_current_task s \<noteq> sc_idle_task s then [sc_current_task s] else []))
        \<union> set (sc_terminated_queue s) \<union> {n, sc_idle_task s}"
      unfolding f(6) by auto
  qed (use sub term_ idle d f(1,3,4,5) in \<open>auto split: if_splits\<close>)
qed

lemma sched_inv_terminate:
  assumes inv: "sched_inv s" and busy: "sc_current_task s \<noteq> sc_idle_task s"
  shows "sched_inv (masked_call exit_current s)"
proof -
  note y = terminate_switches [OF inv busy] and d = sched_inv_disjoint [OF inv]
    and f = sched_inv_facts [OF inv]
  have r: "runnable (masked_call exit_current s) = tl (runnable s)" unfolding runnable_def y by simp
  show ?thesis
  proof (cases "runnable s")
    case Nil
    then have n: "next_task s = sc_idle_task s" "sc_new_queue s = []" by (simp_all add: next_task_def runnable_def)
    show ?thesis
    proof (rule sched_invI, unfold y r Nil n)
      show "dom (sc_tasks s) = set (tl []) \<union> set (sc_terminated_queue s @ [sc_current_task s]) \<union> {sc_idle_task s, sc_idle_task s}"
        unfolding f(6) Nil by auto
    qed (use d f(3,4,5) busy in auto)
  next
    case (Cons n rest)
    then have n: "next_task s = n" by (simp add: next_task_def)
    have sub: "\<And>t. t \<in> set rest \<Longrightarrow> t \<noteq> n \<and> t \<noteq> sc_current_task s \<and> t \<noteq> sc_idle_task s" "n \<noteq> sc_current_task s"
      "n \<noteq> sc_idle_task s" "distinct rest"
      using d by (auto simp: Cons)
    have term_: "t \<noteq> n \<and> t \<notin> set (sc_new_queue s) \<and> t \<noteq> sc_current_task s \<and> t \<noteq> sc_idle_task s"
      if "t \<in> set (sc_terminated_queue s)" for t using that d f(2) by (auto simp: Cons)
    have idle: "sc_idle_task s \<notin> set (sc_new_queue s)" using d f(2) by auto
    show ?thesis
    proof (rule sched_invI, unfold y r n Cons list.sel)
      show "dom (sc_tasks s) = set rest \<union> set (sc_terminated_queue s @ [sc_current_task s]) \<union> {n, sc_idle_task s}"
        unfolding f(6) Cons by auto
    qed (use sub term_ idle d f(1) [unfolded Cons] f(3,4,5) busy in auto)
  qed
qed

lemma add_task_effect_raw:
  assumes cur: "sc_current_task s \<in> dom (sc_tasks s)" and lt: "sc_current_task s < sc_next_tid s"
    and frame: "tk_frame (task_at s (sc_current_task s)) = None"
  shows "masked_call (sched_add_task code name entry stack_end) (s\<lparr>sc_next_tid := sc_next_tid s + 1\<rparr>)
    = sched_add_task code name entry stack_end (s\<lparr>sc_next_tid := sc_next_tid s + 1\<rparr>)"
proof -
  obtain k where k: "sc_tasks s (sc_current_task s) = Some k" using cur by auto
  have "tk_frame k = None" using frame k by (simp add: task_at_def)
  then show ?thesis
    using k lt by (simp add: masked_call_split enter_masked_def leave_masked_def sched_add_task_def update_task_def
        task_at_def Let_def fun_upd_twist fun_upd_idem)
qed

lemma add_task_effect:
  assumes inv: "sched_inv s"
  shows "masked_call (sched_add_task code name entry stack_end) (s\<lparr>sc_next_tid := sc_next_tid s + 1\<rparr>)
    = sched_add_task code name entry stack_end (s\<lparr>sc_next_tid := sc_next_tid s + 1\<rparr>)"
  using inv sched_inv_facts(5) [OF inv] sched_inv_refs [OF inv]
  by (intro add_task_effect_raw) (auto simp: sched_inv_def sched_refs_def)

lemma task_at_add:
  "task_at (sched_add_task code name entry stack_end s) =
     (task_at s)(sc_next_tid s := task_new code (sc_next_tid s) name entry stack_end)"
  by (simp add: task_at_def sched_add_task_def Let_def fun_eq_iff)

lemma sched_inv_add:
  assumes inv: "sched_inv s"
  shows "sched_inv (masked_call (sched_add_task code name entry stack_end) (s\<lparr>sc_next_tid := sc_next_tid s + 1\<rparr>))"
proof -
  note f = sched_inv_facts [OF inv] and d = sched_inv_disjoint [OF inv]
  let ?t = "sc_next_tid s + 1"
  have fresh: "?t \<notin> dom (sc_tasks s)" using f(5) [of ?t] by auto
  then have nt: "?t \<notin> set (sc_new_queue s)" "?t \<notin> set (sc_ready_queue s)" "?t \<notin> set (sc_terminated_queue s)"
    "?t \<noteq> sc_current_task s" "?t \<noteq> sc_idle_task s"
    unfolding f(6) runnable_def by auto
  have tid: "tk_tid (task_at s t) = t \<and> t < ?t + 1" if "t \<in> dom (sc_tasks s)" for t
    using f(5) [OF that] by simp
  show ?thesis
    unfolding add_task_effect [OF inv]
  proof (rule sched_invI, unfold task_at_add)
    let ?s' = "sched_add_task code name entry stack_end (s\<lparr>sc_next_tid := sc_next_tid s + 1\<rparr>)"
    show "dom (sc_tasks ?s') = set (runnable ?s') \<union> set (sc_terminated_queue ?s') \<union> {sc_current_task ?s', sc_idle_task ?s'}"
      using f(6) by (auto simp: sched_add_task_def runnable_def Let_def)
  next
    fix t
    assume "t \<in> dom (sc_tasks (sched_add_task code name entry stack_end (s\<lparr>sc_next_tid := sc_next_tid s + 1\<rparr>)))"
    then have "t = ?t \<or> t \<in> dom (sc_tasks s)" by (auto simp: sched_add_task_def Let_def split: if_splits)
    then show "tk_tid (((task_at (s\<lparr>sc_next_tid := sc_next_tid s + 1\<rparr>))(sc_next_tid (s\<lparr>sc_next_tid := sc_next_tid s + 1\<rparr>) :=
        task_new code (sc_next_tid (s\<lparr>sc_next_tid := sc_next_tid s + 1\<rparr>)) name entry stack_end)) t) = t \<and>
      t < sc_next_tid (sched_add_task code name entry stack_end (s\<lparr>sc_next_tid := sc_next_tid s + 1\<rparr>))"
      using tid [of t] by (auto simp: sched_add_task_def task_new_def Let_def)
  qed (use inv d nt in \<open>auto simp: sched_add_task_def task_new_def sched_inv_def has_state_def sched_queues_def runnable_def Let_def\<close>)
qed


section \<open>Runs\<close>

datatype sched_op = Add_Task string u64 usize | Yield_Task | Exit_Task

text \<open>The idle task never returns from its loop, so it never exits.\<close>

inductive sched_run :: "code_addrs \<Rightarrow> scheduler \<Rightarrow> sched_op list \<Rightarrow> scheduler \<Rightarrow> bool" for code where
  run_done: "sched_run code s [] s"
| run_add: "add_task code name entry stack_end (Some s) = Some (Some s1) \<Longrightarrow> sched_run code s1 ops s' \<Longrightarrow>
    sched_run code s (Add_Task name entry stack_end # ops) s'"
| run_yield: "yield_task (Some s) = Some (Some s1) \<Longrightarrow> sched_run code s1 ops s' \<Longrightarrow>
    sched_run code s (Yield_Task # ops) s'"
| run_exit: "sc_current_task s \<noteq> sc_idle_task s \<Longrightarrow> terminate_task (Some s) = Some (Some s1) \<Longrightarrow>
    sched_run code s1 ops s' \<Longrightarrow> sched_run code s (Exit_Task # ops) s'"

inductive_cases sched_run_NilE [elim!]: "sched_run code s [] s'"
inductive_cases sched_run_ConsE: "sched_run code s (p # ops) s'"

lemmas sched_calls = add_task_def yield_task_def terminate_task_def

lemma sched_inv_run: "sched_run code s ops s' \<Longrightarrow> sched_inv s \<Longrightarrow> sched_inv s'"
proof (induction rule: sched_run.induct)
  case (run_add name entry stack_end s s1 ops s')
  then show ?case using sched_inv_add [of s code name entry stack_end] by (simp add: sched_calls Let_def)
next
  case (run_yield s s1 ops s')
  then show ?case using sched_inv_yield [of s] by (simp add: sched_calls)
next
  case (run_exit s s1 ops s')
  then show ?case using sched_inv_terminate [of s] by (simp add: sched_calls Let_def split: if_splits)
qed simp

text \<open>Before \<open>start_sched\<close> the kernel adds tasks; once the first task runs the invariant holds.\<close>

fun boot_tasks ::
    "code_addrs \<Rightarrow> (string \<times> u64 \<times> usize) list \<Rightarrow> scheduler option \<Rightarrow> scheduler option option" where
  "boot_tasks code [] sched = Some sched"
| "boot_tasks code ((name, entry, stack_end) # ts) sched =
     Option.bind (add_task code name entry stack_end sched) (boot_tasks code ts)"

definition sched_booting :: "scheduler \<Rightarrow> bool" where
  "sched_booting s \<longleftrightarrow> sched_inv (set_state (sc_current_task s) Task_Running s)
     \<and> sc_current_task s \<in> dom (sc_tasks s) \<and> sc_current_task s < sc_next_tid s
     \<and> tk_frame (task_at s (sc_current_task s)) = None"

lemma sched_inv_cpu [simp]: "sched_inv (s\<lparr>sc_cpu := c\<rparr>) = sched_inv s"
  by (simp add: sched_inv_def sched_queues_def has_state_def)

lemma sched_booting_new: "sched_booting (scheduler_new code next_tid stack_end cpu)"
  by (simp add: sched_booting_def sched_inv_def scheduler_new_def sched_queues_def set_state_def update_task_def
      has_state_def task_at_def task_new_def Let_def)

lemma sched_booting_add:
  assumes boot: "sched_booting s"
  shows "\<exists>s1. add_task code name entry stack_end (Some s) = Some (Some s1) \<and> sched_booting s1
    \<and> card (dom (sc_tasks s1)) = Suc (card (dom (sc_tasks s)))"
proof -
  let ?n = "s\<lparr>sc_next_tid := sc_next_tid s + 1\<rparr>" and ?r = "set_state (sc_current_task s) Task_Running s"
  let ?s1 = "sched_add_task code name entry stack_end ?n"
  have cur: "sc_current_task s \<in> dom (sc_tasks s)" "sc_current_task s < sc_next_tid s"
    "tk_frame (task_at s (sc_current_task s)) = None" and inv: "sched_inv ?r"
    using boot by (simp_all add: sched_booting_def)
  have call: "add_task code name entry stack_end (Some s) = Some (Some ?s1)"
    using add_task_effect_raw [OF cur] by (simp add: add_task_def Let_def)
  have "set_state (sc_current_task s) Task_Running ?s1
      = sched_add_task code name entry stack_end (?r\<lparr>sc_next_tid := sc_next_tid ?r + 1\<rparr>)"
    using cur(2) by (simp add: sched_add_task_def set_state_def update_task_def Let_def fun_upd_twist)
  then have "sched_inv (set_state (sc_current_task ?s1) Task_Running ?s1)"
    using sched_inv_add [OF inv] add_task_effect [OF inv] by (simp add: sched_add_task_def Let_def)
  moreover have "finite (dom (sc_tasks s))"
    using inv by (simp add: sched_inv_def set_state_def)
  moreover have "sc_next_tid s + 1 \<notin> dom (sc_tasks s)"
    using sched_inv_facts(5) [OF inv, of "sc_next_tid s + 1"] by (force simp: set_state_def)
  ultimately show ?thesis
    using call cur by (intro exI [of _ ?s1]) (simp add: sched_booting_def sched_add_task_def task_at_def Let_def)
qed

lemma boot_tasks_booting:
  "sched_booting s \<Longrightarrow> \<exists>s1. boot_tasks code ts (Some s) = Some (Some s1) \<and> sched_booting s1
     \<and> card (dom (sc_tasks s1)) = length ts + card (dom (sc_tasks s))"
proof (induction ts arbitrary: s)
  case (Cons x ts)
  obtain name entry stack_end where x: "x = (name, entry, stack_end)" by (cases x) auto
  obtain s1 where "add_task code name entry stack_end (Some s) = Some (Some s1)" "sched_booting s1"
    "card (dom (sc_tasks s1)) = Suc (card (dom (sc_tasks s)))"
    using sched_booting_add [OF Cons.prems] by blast
  with Cons.IH [of s1] x show ?case by simp
qed simp

lemma sched_start_inv: "sched_booting s \<Longrightarrow> sched_inv (sched_start s)"
  by (simp add: sched_start_def sched_booting_def Let_def)

definition is_add :: "sched_op \<Rightarrow> bool" where
  "is_add p = (case p of Add_Task _ _ _ \<Rightarrow> True | _ \<Rightarrow> False)"

lemma sched_run_card:
  "sched_run code s ops s' \<Longrightarrow> sched_inv s \<Longrightarrow>
     card (dom (sc_tasks s')) = card (dom (sc_tasks s)) + length (filter is_add ops)"
proof (induction rule: sched_run.induct)
  case (run_add name entry stack_end s s1 ops s')
  have s1: "s1 = sched_add_task code name entry stack_end (s\<lparr>sc_next_tid := sc_next_tid s + 1\<rparr>)"
    using run_add.hyps(1) add_task_effect [OF run_add.prems] by (simp add: sched_calls Let_def)
  moreover have "sched_inv s1"
    using sched_inv_add [OF run_add.prems] add_task_effect [OF run_add.prems] s1 by simp
  moreover have "finite (dom (sc_tasks s))" using run_add.prems by (simp add: sched_inv_def)
  moreover have "sc_next_tid s + 1 \<notin> dom (sc_tasks s)"
    using sched_inv_facts(5) [OF run_add.prems, of "sc_next_tid s + 1"] by force
  moreover have "dom (sc_tasks s1) = insert (sc_next_tid s + 1) (dom (sc_tasks s))"
    by (simp add: s1 sched_add_task_def Let_def)
  ultimately show ?case
    using run_add.IH by (simp add: is_add_def)
next
  case (run_yield s s1 ops s')
  have s1: "s1 = masked_call schedule s" using run_yield.hyps(1) by (simp add: sched_calls)
  have "dom (sc_tasks s1) = dom (sc_tasks s)"
    using yield_stays [OF run_yield.prems] yield_switches(7) [OF run_yield.prems] s1
    by (cases "runnable s") auto
  then show ?case using run_yield.IH sched_inv_yield [OF run_yield.prems] s1 by (simp add: is_add_def)
next
  case (run_exit s s1 ops s')
  have s1: "s1 = masked_call exit_current s"
    using run_exit.hyps(2) by (simp add: sched_calls Let_def split: if_splits)
  then show ?case
    using run_exit.IH terminate_switches(7) [OF run_exit.prems run_exit.hyps(1)]
      sched_inv_terminate [OF run_exit.prems run_exit.hyps(1)] by (simp add: is_add_def)
qed simp

text \<open>The run queue under the operations.\<close>

lemma runnable_add:
  assumes "sched_inv s" "add_task code name entry stack_end (Some s) = Some (Some s1)"
  shows "runnable s1 = runnable s @ [sc_next_tid s + 1]"
  using assms add_task_effect [of s code name entry stack_end]
  by (simp add: sched_calls sched_add_task_def runnable_def Let_def)

lemma runnable_yield:
  assumes "sched_inv s" "runnable s = n # rest" "yield_task (Some s) = Some (Some s1)"
  shows "sc_current_task s1 = n" "\<exists>zs. runnable s1 = rest @ zs"
  using yield_switches(1-3) [OF assms(1,2)] assms(3) by (simp_all add: sched_calls runnable_def)

lemma runnable_exit:
  assumes "sched_inv s" "runnable s = n # rest" "terminate_task (Some s) = Some (Some s1)"
    "sc_current_task s \<noteq> sc_idle_task s"
  shows "sc_current_task s1 = n" "runnable s1 = rest"
  using terminate_switches(1-3) [OF assms(1,4)] assms(2,3)
  by (simp_all add: sched_calls runnable_def next_task_def Let_def split: if_splits)

lemma run_prefix_Cons:
  assumes "\<exists>ops1 ops2 s1. ops = ops1 @ ops2 \<and> sched_run code u ops1 s1 \<and> sc_current_task s1 = t"
    and "\<And>ops1 s1. sched_run code u ops1 s1 \<Longrightarrow> sched_run code s (p # ops1) s1"
  shows "\<exists>ops1 ops2 s1. p # ops = ops1 @ ops2 \<and> sched_run code s ops1 s1 \<and> sc_current_task s1 = t"
  using assms by (metis append_Cons)

lemma round_robin_run:
  assumes "sched_run code s ops s'" "sched_inv s" "runnable s = xs @ t # ys"
    "length xs < length (filter (\<lambda>p. \<not> is_add p) ops)"
  shows "\<exists>ops1 ops2 s1. ops = ops1 @ ops2 \<and> sched_run code s ops1 s1 \<and> sc_current_task s1 = t"
  using assms
proof (induction arbitrary: xs ys rule: sched_run.induct)
  case (run_add name entry stack_end s s1 ops s')
  have "sched_inv s1"
    using run_add.hyps(1) sched_inv_add [OF run_add.prems(1), of code name entry stack_end]
    by (simp add: sched_calls Let_def)
  moreover have "runnable s1 = xs @ t # (ys @ [sc_next_tid s + 1])"
    using runnable_add [OF run_add.prems(1) run_add.hyps(1)] run_add.prems(2) by simp
  ultimately show ?case
    using run_add.prems(3) by (intro run_prefix_Cons [OF run_add.IH sched_run.run_add [OF run_add.hyps(1)]])
      (simp_all add: is_add_def)
next
  case (run_yield s s1 ops s')
  note step = sched_run.run_yield [OF run_yield.hyps(1)]
  have inv: "sched_inv s1"
    using run_yield.hyps(1) sched_inv_yield [OF run_yield.prems(1)] by (simp add: sched_calls)
  show ?case
  proof (cases xs)
    case Nil
    then have "sc_current_task s1 = t"
      using runnable_yield(1) [OF run_yield.prems(1) _ run_yield.hyps(1)] run_yield.prems(2) by simp
    then show ?thesis using step [OF sched_run.run_done] by (metis append_Cons append_Nil)
  next
    case (Cons x xs')
    then obtain zs where "runnable s1 = xs' @ t # (ys @ zs)"
      using runnable_yield(2) [OF run_yield.prems(1) _ run_yield.hyps(1)] run_yield.prems(2) by auto
    then show ?thesis
      using run_yield.prems(3) inv Cons by (intro run_prefix_Cons [OF run_yield.IH step]) (simp_all add: is_add_def)
  qed
next
  case (run_exit s s1 ops s')
  note step = sched_run.run_exit [OF run_exit.hyps(1,2)]
  have inv: "sched_inv s1"
    using run_exit.hyps(1,2) sched_inv_terminate [OF run_exit.prems(1)] by (simp add: sched_calls Let_def split: if_splits)
  show ?case
  proof (cases xs)
    case Nil
    then have "sc_current_task s1 = t"
      using runnable_exit(1) [OF run_exit.prems(1) _ run_exit.hyps(2,1)] run_exit.prems(2) by simp
    then show ?thesis using step [OF sched_run.run_done] by (metis append_Cons append_Nil)
  next
    case (Cons x xs')
    then have "runnable s1 = xs' @ t # ys"
      using runnable_exit(2) [OF run_exit.prems(1) _ run_exit.hyps(2,1)] run_exit.prems(2) by simp
    then show ?thesis
      using run_exit.prems(3) inv Cons by (intro run_prefix_Cons [OF run_exit.IH step]) (simp_all add: is_add_def)
  qed
qed simp


section \<open>Properties\<close>

text \<open>C1: Booting never panics, and in every state reached from the start of the scheduler by
  adding tasks, yielding and exiting, each task is in exactly one place: waiting as new, ready or
  terminated in the queue of its state, running, or the idle task, which is never queued. No task
  is lost: there are as many as were added, and the idle task.\<close>

theorem scheduler_keeps_every_task:
  shows "\<exists>s0. boot_tasks code ts (Some (scheduler_new code next_tid stack_end cpu)) = Some (Some s0)
    \<and> (\<forall>ops s. sched_run code (sched_start s0) ops s \<longrightarrow>
         sched_inv s \<and> card (dom (sc_tasks s)) = Suc (length ts) + length (filter is_add ops))"
proof -
  let ?new = "scheduler_new code next_tid stack_end cpu"
  obtain s0 where s0: "boot_tasks code ts (Some ?new) = Some (Some s0)" "sched_booting s0"
    "card (dom (sc_tasks s0)) = length ts + card (dom (sc_tasks ?new))"
    using boot_tasks_booting [OF sched_booting_new] by metis
  have "card (dom (sc_tasks (sched_start s0))) = Suc (length ts)"
    using s0(3) by (simp add: sched_start_def set_state_def scheduler_new_def Let_def)
  then show ?thesis
    using s0 sched_start_inv [OF s0(2)] sched_inv_run sched_run_card by metis
qed

theorem scheduler_keeps_every_task_witness:
  "\<exists>code cpu s0 s. boot_tasks code [(''shell'', 7, 0x8000)] (Some (scheduler_new code 0 0x4000 cpu)) = Some (Some s0)
     \<and> sched_run code (sched_start s0) [Yield_Task] s \<and> card (dom (sc_tasks s)) = 2"
proof -
  let ?code = "\<lparr>ca_terminate_task = 1, ca_entry_trampoline = 2, ca_idle_task = 3\<rparr>"
  let ?cpu = "\<lparr>cpu_x19_x30 = replicate 12 0, cpu_sp = 0x100, cpu_daif = 0x3c0\<rparr>"
  let ?ts = "[(''shell'', 7, 0x8000)] :: (string \<times> u64 \<times> usize) list"
  obtain s0 where s0: "boot_tasks ?code ?ts (Some (scheduler_new ?code 0 0x4000 ?cpu)) = Some (Some s0)"
    "\<forall>ops s. sched_run ?code (sched_start s0) ops s \<longrightarrow>
         sched_inv s \<and> card (dom (sc_tasks s)) = Suc (length ?ts) + length (filter is_add ops)"
    using scheduler_keeps_every_task [of ?code ?ts 0 "0x4000" ?cpu] by blast
  have "sched_run ?code (sched_start s0) [Yield_Task] (masked_call schedule (sched_start s0))"
    by (rule run_yield [OF _ run_done]) (simp add: sched_calls)
  with s0 show ?thesis by (force simp: is_add_def)
qed

lemma sched_example:
  obtains code s where "sched_inv s" "sc_current_task s = 0" "sc_idle_task s = 0" "runnable s = [2]"
    "sched_inv (masked_call schedule s)" "sc_current_task (masked_call schedule s) = 2"
    "sc_idle_task (masked_call schedule s) = 0"
proof -
  let ?code = "\<lparr>ca_terminate_task = 1, ca_entry_trampoline = 2, ca_idle_task = 3\<rparr>"
  let ?cpu = "\<lparr>cpu_x19_x30 = replicate 12 0, cpu_sp = 0x100, cpu_daif = 0x3c0\<rparr>"
  let ?s = "sched_start (scheduler_new ?code 0 0x4000 ?cpu)"
  let ?s1 = "masked_call (sched_add_task ?code ''shell'' 7 0x8000) (?s\<lparr>sc_next_tid := sc_next_tid ?s + 1\<rparr>)"
  have inv: "sched_inv ?s" by (rule sched_start_inv [OF sched_booting_new])
  note inv1 = sched_inv_add [OF inv, of ?code "''shell''" 7 "0x8000"]
  have f: "sc_current_task ?s1 = 0" "sc_idle_task ?s1 = 0" "runnable ?s1 = [2]"
    unfolding add_task_effect [OF inv]
    by (simp_all add: sched_add_task_def sched_start_def scheduler_new_def set_state_def update_task_def runnable_def Let_def)
  show thesis
    using that [OF inv1 f] sched_inv_yield [OF inv1] yield_switches(1,5) [OF inv1 f(3)] f(2) by simp
qed



text \<open>C10: Scheduling is fair: a task with \<open>k\<close> tasks before it in the ready queue (or behind it in
  the new queue) is run after at most \<open>k + 1\<close> yields and exits of other tasks, however many tasks
  are added meanwhile.\<close>

theorem round_robin_fair:
  assumes "sched_inv s" and "runnable s = xs @ t # ys" and "sched_run code s ops s'"
    and "length xs < length (filter (\<lambda>p. \<not> is_add p) ops)"
  shows "\<exists>ops1 ops2 s1. ops = ops1 @ ops2 \<and> sched_run code s ops1 s1 \<and> sc_current_task s1 = t"
  by (rule round_robin_run [OF assms(3,1,2,4)])

theorem round_robin_fair_witness:
  "\<exists>code s s1 ops1. sched_inv s \<and> runnable s = [2] \<and> sched_run code s ops1 s1 \<and> sc_current_task s1 = 2"
proof -
  obtain s where s: "sched_inv s" "runnable s = [] @ 2 # []"
    using sched_example by (metis append_Nil)
  have run: "sched_run code s [Yield_Task] (masked_call schedule s)" for code
    by (rule run_yield [OF _ run_done]) (simp add: sched_calls)
  show ?thesis
    using round_robin_fair [OF s run] s by (fastforce simp: is_add_def)
qed

end
