(* ===== verification/Fdt.thy ===== *)
theory Fdt
  imports Kruspix_Prelude
begin

text \<open>
  \<open>src/kernel/devicetree/fdt/\<close>: reading a flattened device tree where the boot loader left it. The
  blob is the byte list \<open>fdt_bytes\<close> at the 8-byte aligned address \<open>fdt_base\<close>; a pointer into it is
  an offset, the null pointer \<open>None\<close>. A read outside the blob, like a panic, is the result
  \<open>None\<close> of the function that does it.
\<close>

section \<open>Reading memory\<close>

definition read_slice :: "u8 list \<Rightarrow> nat \<Rightarrow> nat \<Rightarrow> u8 list option" where
  "read_slice bs p n = (if p + n \<le> length bs then Some (take n (drop p bs)) else None)"

definition read_be32 :: "u8 list \<Rightarrow> nat \<Rightarrow> u32 option" where
  "read_be32 bs p = map_option u32_from_be_bytes (read_slice bs p 4)"

text \<open>A load without byte swap: the target is little endian.\<close>

definition read_le32 :: "u8 list \<Rightarrow> nat \<Rightarrow> u32 option" where
  "read_le32 bs p = map_option (\<lambda>s. u32_from_be_bytes (rev s)) (read_slice bs p 4)"

definition read_be64 :: "u8 list \<Rightarrow> nat \<Rightarrow> u64 option" where
  "read_be64 bs p = map_option u64_from_be_bytes (read_slice bs p 8)"

text \<open>\<open>CStr::from_ptr\<close>: the bytes before the first NUL.\<close>

definition read_cstr :: "u8 list \<Rightarrow> nat \<Rightarrow> u8 list option" where
  "read_cstr bs p =
     (let rest = drop p bs in if 0 \<in> set rest then Some (takeWhile (\<lambda>b. b \<noteq> 0) rest) else None)"

text \<open>\<open>str::from_utf8\<close> accepts exactly the well-formed byte sequences of the Unicode standard.\<close>

definition utf8_cont :: "u8 \<Rightarrow> bool" where
  "utf8_cont b \<longleftrightarrow> 0x80 \<le> b \<and> b \<le> 0xBF"

fun utf8_valid :: "u8 list \<Rightarrow> bool" where
  "utf8_valid [] = True"
| "utf8_valid (b # bs) =
     (if b < 0x80 then utf8_valid bs
      else case bs of
        [] \<Rightarrow> False
      | c1 # bs1 \<Rightarrow>
          if 0xC2 \<le> b \<and> b \<le> 0xDF then utf8_cont c1 \<and> utf8_valid bs1
          else case bs1 of
            [] \<Rightarrow> False
          | c2 # bs2 \<Rightarrow>
              if 0xE0 \<le> b \<and> b \<le> 0xEF then
                utf8_cont c1 \<and> (b = 0xE0 \<longrightarrow> 0xA0 \<le> c1) \<and> (b = 0xED \<longrightarrow> c1 \<le> 0x9F)
                \<and> utf8_cont c2 \<and> utf8_valid bs2
              else case bs2 of
                [] \<Rightarrow> False
              | c3 # bs3 \<Rightarrow>
                  0xF0 \<le> b \<and> b \<le> 0xF4 \<and> utf8_cont c1 \<and> (b = 0xF0 \<longrightarrow> 0x90 \<le> c1) \<and> (b = 0xF4 \<longrightarrow> c1 \<le> 0x8F)
                  \<and> utf8_cont c2 \<and> utf8_cont c3 \<and> utf8_valid bs3)"

definition to_str :: "u8 list \<Rightarrow> string option" where
  "to_str bs = (if utf8_valid bs then Some (str_of_bytes bs) else None)"


section \<open>Header\<close>

definition FDT_MAGIC :: u32 where "FDT_MAGIC = 0xd00dfeed"

record fdt =
  fdt_base :: nat
  fdt_bytes :: "u8 list"

definition fdt_is_valid :: "fdt \<Rightarrow> bool option" where
  "fdt_is_valid f = map_option (\<lambda>m. m = FDT_MAGIC) (read_be32 (fdt_bytes f) 0)"

definition fdt_total_size :: "fdt \<Rightarrow> u32 option" where
  "fdt_total_size f = read_be32 (fdt_bytes f) 4"

definition fdt_structure_block_offset :: "fdt \<Rightarrow> u32 option" where
  "fdt_structure_block_offset f = read_be32 (fdt_bytes f) 8"

definition fdt_strings_block_offset :: "fdt \<Rightarrow> u32 option" where
  "fdt_strings_block_offset f = read_be32 (fdt_bytes f) 12"

definition fdt_mem_rsv_map_offset :: "fdt \<Rightarrow> u32 option" where
  "fdt_mem_rsv_map_offset f = read_be32 (fdt_bytes f) 16"

definition fdt_version :: "fdt \<Rightarrow> u32 option" where
  "fdt_version f = read_be32 (fdt_bytes f) 20"

definition fdt_last_comp_version :: "fdt \<Rightarrow> u32 option" where
  "fdt_last_comp_version f = read_be32 (fdt_bytes f) 24"

definition fdt_boot_cpuid_phys :: "fdt \<Rightarrow> u32 option" where
  "fdt_boot_cpuid_phys f = read_be32 (fdt_bytes f) 28"

definition fdt_strings_block_size :: "fdt \<Rightarrow> u32 option" where
  "fdt_strings_block_size f = read_be32 (fdt_bytes f) 32"

definition fdt_structure_block_size :: "fdt \<Rightarrow> u32 option" where
  "fdt_structure_block_size f = read_be32 (fdt_bytes f) 36"

definition fdt_new :: "nat \<Rightarrow> u8 list \<Rightarrow> (unit + fdt) option" where
  "fdt_new base bs =
     (let f = \<lparr>fdt_base = base, fdt_bytes = bs\<rparr> in
      map_option (\<lambda>ok. if ok then Inr f else Inl ()) (fdt_is_valid f))"


section \<open>Memory reservation block\<close>

definition reserve_next :: "u8 list \<Rightarrow> nat \<Rightarrow> ((u64 \<times> u64) option \<times> nat) option" where
  "reserve_next bs p = do {
     address \<leftarrow> read_be64 bs p;
     sz \<leftarrow> read_be64 bs (p + 8);
     Some (if address = 0 \<and> sz = 0 then (None, p) else (Some (address, sz), p + 16))
   }"

partial_function (option) reserve_collect :: "u8 list \<Rightarrow> nat \<Rightarrow> (u64 \<times> u64) list option" where
  "reserve_collect bs p = do {
     (e, p') \<leftarrow> reserve_next bs p;
     (case e of
        None \<Rightarrow> Some []
      | Some r \<Rightarrow> do { rs \<leftarrow> reserve_collect bs p'; Some (r # rs) })
   }"

definition fdt_memory_reservations :: "fdt \<Rightarrow> (u64 \<times> u64) list option" where
  "fdt_memory_reservations f = do {
     offset \<leftarrow> fdt_mem_rsv_map_offset f;
     reserve_collect (fdt_bytes f) (unat offset)
   }"


section \<open>Structure block\<close>

definition FDT_BEGIN_NODE :: u32 where "FDT_BEGIN_NODE = 1"
definition FDT_END_NODE :: u32 where "FDT_END_NODE = 2"
definition FDT_PROP :: u32 where "FDT_PROP = 3"
definition FDT_NOP :: u32 where "FDT_NOP = 4"
definition FDT_END :: u32 where "FDT_END = 9"

record raw_node =
  rn_name :: string
  rn_props_ptr :: "nat option"
  rn_children_ptr :: "nat option"

record raw_prop =
  rp_name :: string
  rp_value :: "u8 list"

datatype sb_entry = Begin_Node raw_node | End_Node | Prop_Entry raw_prop

record sb_iter =
  sb_strings_block :: nat
  sb_token_ptr :: "nat option"
  sb_prev_token :: u32
  sb_skip_props :: bool

definition sb_new :: "nat option \<Rightarrow> nat \<Rightarrow> sb_iter" where
  "sb_new token_ptr strings =
     \<lparr>sb_strings_block = strings, sb_token_ptr = token_ptr, sb_prev_token = 0, sb_skip_props = False\<rparr>"

definition sb_new_without_props :: "nat option \<Rightarrow> nat \<Rightarrow> sb_iter" where
  "sb_new_without_props token_ptr strings =
     \<lparr>sb_strings_block = strings, sb_token_ptr = token_ptr, sb_prev_token = 0, sb_skip_props = True\<rparr>"

lemma read_be32_bound: "read_be32 bs p = Some t \<Longrightarrow> p + 4 \<le> length bs"
  by (auto simp: read_be32_def read_slice_def split: if_splits)

text \<open>The token under the pointer and the pointer after the \<open>NOP\<close>s before it.\<close>

function next_non_nop_token :: "u8 list \<Rightarrow> nat \<Rightarrow> (u32 \<times> nat) option" where
  "next_non_nop_token bs p =
     (case read_be32 bs p of
        None \<Rightarrow> None
      | Some token \<Rightarrow> if token \<noteq> FDT_NOP then Some (token, p) else next_non_nop_token bs (p + 4))"
  by pat_completeness auto
termination
  by (relation "measure (\<lambda>(bs, p). length bs - p)") (auto dest: read_be32_bound)

declare next_non_nop_token.simps [simp del]

lemma next_non_nop_token_bound: "next_non_nop_token bs p = Some (t, q) \<Longrightarrow> p \<le> q \<and> q + 4 \<le> length bs"
proof (induction bs p rule: next_non_nop_token.induct)
  case (1 bs p)
  then show ?case
    by (subst (asm) next_non_nop_token.simps) (force split: option.splits if_splits dest: read_be32_bound)
qed

text \<open>The value length of the property whose token is at \<open>p\<close>, and the pointer after it.\<close>

definition prop_end :: "nat \<Rightarrow> u32 \<Rightarrow> nat" where
  "prop_end p value_len = p + 12 + next_multiple_of (unat value_len) 4"

function next_non_nop_token_without_props :: "u8 list \<Rightarrow> nat \<Rightarrow> (u32 \<times> nat) option" where
  "next_non_nop_token_without_props bs p =
     (case next_non_nop_token bs p of
        None \<Rightarrow> None
      | Some (token, q) \<Rightarrow>
          if token \<noteq> FDT_PROP then Some (token, q)
          else case read_be32 bs (q + 4) of
            None \<Rightarrow> None
          | Some value_len \<Rightarrow>
              if prop_end q value_len mod 4 = 0
              then next_non_nop_token_without_props bs (prop_end q value_len) else None)"
  by pat_completeness auto
termination
  by (relation "measure (\<lambda>(bs, p). length bs - p)") (auto dest!: next_non_nop_token_bound simp: prop_end_def)

declare next_non_nop_token_without_props.simps [simp del]

text \<open>The length of a node name in words; the words are compared as loaded, so the last one is the
  first whose byte at the highest address is zero.\<close>

function name_parts :: "u8 list \<Rightarrow> nat \<Rightarrow> nat \<Rightarrow> nat option option" where
  "name_parts bs p count =
     (case read_le32 bs (p + 4 * count) of
        None \<Rightarrow> None
      | Some part \<Rightarrow>
          if part \<le> 0x00FFFFFF then Some (Some count)
          else if count + 1 > 13 then Some None
          else name_parts bs p (count + 1))"
  by pat_completeness auto
termination
  by (relation "measure (\<lambda>(bs, p, count). 14 - count)") auto

declare name_parts.simps [simp del]

text \<open>The arms of \<open>next\<close> that read a node or a property; \<open>p\<close> is the pointer at the token.\<close>

definition sb_begin_node ::
    "u8 list \<Rightarrow> sb_iter \<Rightarrow> nat \<Rightarrow> ((unit + sb_entry) option \<times> sb_iter) option" where
  "sb_begin_node bs it p = do {
     raw \<leftarrow> read_cstr bs (p + 4);
     (case to_str raw of
        None \<Rightarrow> Some (None, it\<lparr>sb_token_ptr := Some p\<rparr>)
      | Some name \<Rightarrow> do {
          parts \<leftarrow> name_parts bs p 1;
          (case parts of
             None \<Rightarrow> Some (Some (Inl ()), it\<lparr>sb_token_ptr := None, sb_prev_token := FDT_BEGIN_NODE\<rparr>)
           | Some count \<Rightarrow> do {
               (next_token, q) \<leftarrow> next_non_nop_token bs (p + 4 * (1 + count));
               (next_without_props, r) \<leftarrow> next_non_nop_token_without_props bs q;
               Some (Some (Inr (Begin_Node
                       \<lparr>rn_name = name,
                        rn_props_ptr = (if next_token = FDT_PROP then Some q else None),
                        rn_children_ptr = (if next_without_props = FDT_BEGIN_NODE then Some r else None)\<rparr>)),
                     it\<lparr>sb_token_ptr := Some q, sb_prev_token := FDT_BEGIN_NODE\<rparr>)
             })
        })
   }"

text \<open>Reading a property, shared with \<open>PropIter::next\<close>: the pointer after it, name and value.\<close>

definition read_prop :: "u8 list \<Rightarrow> nat \<Rightarrow> nat \<Rightarrow> (raw_prop \<times> nat) option" where
  "read_prop bs strings p = do {
     value_len \<leftarrow> read_be32 bs (p + 4);
     assert_that (prop_end p value_len mod 4 = 0);
     name_offset \<leftarrow> read_be32 bs (p + 8);
     raw \<leftarrow> read_cstr bs (strings + unat name_offset);
     name \<leftarrow> to_str raw;
     value \<leftarrow> read_slice bs (p + 12) (unat value_len);
     Some (\<lparr>rp_name = name, rp_value = value\<rparr>, prop_end p value_len)
   }"

definition sb_prop ::
    "u8 list \<Rightarrow> sb_iter \<Rightarrow> nat \<Rightarrow> ((unit + sb_entry) option \<times> sb_iter) option" where
  "sb_prop bs it p =
     (if sb_prev_token it = FDT_END_NODE
      then Some (Some (Inl ()), it\<lparr>sb_token_ptr := None, sb_prev_token := FDT_PROP\<rparr>)
      else do {
        (prop, q) \<leftarrow> read_prop bs (sb_strings_block it) p;
        Some (Some (Inr (Prop_Entry prop)), it\<lparr>sb_token_ptr := Some q, sb_prev_token := FDT_PROP\<rparr>)
      })"

definition sb_next :: "u8 list \<Rightarrow> sb_iter \<Rightarrow> ((unit + sb_entry) option \<times> sb_iter) option" where
  "sb_next bs it =
     (case sb_token_ptr it of
        None \<Rightarrow> Some (None, it)
      | Some p0 \<Rightarrow>
          if sb_prev_token it = FDT_END then Some (None, it)
          else do {
            (token, p) \<leftarrow> (if sb_skip_props it then next_non_nop_token_without_props bs p0
                           else next_non_nop_token bs p0);
            (if token = FDT_BEGIN_NODE then sb_begin_node bs it p
             else if token = FDT_END_NODE then
               Some (Some (Inr End_Node), it\<lparr>sb_token_ptr := Some (p + 4), sb_prev_token := token\<rparr>)
             else if token = FDT_PROP then sb_prop bs it p
             else if token = FDT_END then
               Some (if sb_prev_token it = FDT_BEGIN_NODE \<or> sb_prev_token it = FDT_PROP then Some (Inl ()) else None,
                     it\<lparr>sb_token_ptr := None, sb_prev_token := token\<rparr>)
             else Some (Some (Inl ()), it\<lparr>sb_token_ptr := None, sb_prev_token := token\<rparr>))
          })"

text \<open>Collecting all entries, as a \<open>for\<close> loop over the iterator does.\<close>

partial_function (option) sb_collect :: "u8 list \<Rightarrow> sb_iter \<Rightarrow> (unit + sb_entry) list option" where
  "sb_collect bs it = do {
     (item, it') \<leftarrow> sb_next bs it;
     (case item of
        None \<Rightarrow> Some []
      | Some e \<Rightarrow> do { es \<leftarrow> sb_collect bs it'; Some (e # es) })
   }"


section \<open>Nodes\<close>

definition str_node_name :: "string \<Rightarrow> string" where
  "str_node_name name = hd (split_char CHR ''@'' name)"

definition str_unit_address :: "string \<Rightarrow> string option" where
  "str_unit_address name = (case split_char CHR ''@'' name of _ # u # _ \<Rightarrow> Some u | _ \<Rightarrow> None)"

definition rn_node_name :: "raw_node \<Rightarrow> string" where
  "rn_node_name n = str_node_name (rn_name n)"

definition rn_unit_address :: "raw_node \<Rightarrow> string option" where
  "rn_unit_address n = str_unit_address (rn_name n)"

definition rn_is_root :: "raw_node \<Rightarrow> bool" where
  "rn_is_root n \<longleftrightarrow> rn_node_name n = []"

definition rn_is_aliases :: "raw_node \<Rightarrow> bool" where
  "rn_is_aliases n \<longleftrightarrow> rn_node_name n = ''aliases''"

definition rn_is_memory :: "raw_node \<Rightarrow> bool" where
  "rn_is_memory n \<longleftrightarrow> rn_node_name n = ''memory''"

definition rn_is_reserved_memory :: "raw_node \<Rightarrow> bool" where
  "rn_is_reserved_memory n \<longleftrightarrow> rn_node_name n = ''reserved-memory''"

definition rn_is_chosen :: "raw_node \<Rightarrow> bool" where
  "rn_is_chosen n \<longleftrightarrow> rn_node_name n = ''chosen''"

definition rn_is_cpus :: "raw_node \<Rightarrow> bool" where
  "rn_is_cpus n \<longleftrightarrow> rn_node_name n = ''cpus''"

text \<open>\<open>NodeIter\<close>: depths are \<open>isize\<close> values that count nodes of the blob, so they do not wrap.\<close>

record node_iter =
  ni_structure :: sb_iter
  ni_current_depth :: int
  ni_max_depth :: int

definition isize_max :: int where "isize_max = 2 ^ 63 - 1"

definition node_iter_new :: "nat option \<Rightarrow> nat \<Rightarrow> int \<Rightarrow> node_iter option" where
  "node_iter_new token_ptr strings max_depth = do {
     assert_that (max_depth > 0);
     Some \<lparr>ni_structure = sb_new_without_props token_ptr strings, ni_current_depth = 0, ni_max_depth = max_depth\<rparr>
   }"

partial_function (option) node_iter_next :: "u8 list \<Rightarrow> node_iter \<Rightarrow> (raw_node option \<times> node_iter) option" where
  "node_iter_next bs it =
     (if ni_current_depth it < 0 then Some (None, it)
      else do {
        (item, sb) \<leftarrow> sb_next bs (ni_structure it);
        (case item of
           None \<Rightarrow> Some (None, it\<lparr>ni_structure := sb\<rparr>)
         | Some (Inl _) \<Rightarrow> Some (None, it\<lparr>ni_structure := sb\<rparr>)
         | Some (Inr (Begin_Node node)) \<Rightarrow>
             let it1 = it\<lparr>ni_structure := sb, ni_current_depth := ni_current_depth it + 1\<rparr> in
             if ni_current_depth it1 > ni_max_depth it1 then node_iter_next bs it1
             else Some (Some node, it1)
         | Some (Inr End_Node) \<Rightarrow>
             node_iter_next bs (it\<lparr>ni_structure := sb, ni_current_depth := ni_current_depth it - 1\<rparr>)
         | Some (Inr (Prop_Entry _)) \<Rightarrow> None)
      })"

text \<open>\<open>Iterator::find\<close> over the nodes.\<close>

partial_function (option) node_find :: "u8 list \<Rightarrow> (raw_node \<Rightarrow> bool) \<Rightarrow> node_iter \<Rightarrow> raw_node option option" where
  "node_find bs P it = do {
     (item, it') \<leftarrow> node_iter_next bs it;
     (case item of
        None \<Rightarrow> Some None
      | Some node \<Rightarrow> if P node then Some (Some node) else node_find bs P it')
   }"


section \<open>Property values\<close>

definition value_as_u32 :: "u8 list \<Rightarrow> unit + u32" where
  "value_as_u32 v = (if length v * 8 \<noteq> 32 then Inl () else Inr (u32_from_be_bytes v))"

definition value_as_u64 :: "u8 list \<Rightarrow> unit + u64" where
  "value_as_u64 v = (if length v * 8 \<noteq> 64 then Inl () else Inr (u64_from_be_bytes v))"

definition value_as_phandle :: "u8 list \<Rightarrow> unit + u32" where
  "value_as_phandle v = value_as_u32 v"

text \<open>\<open>CStr::from_bytes_with_nul\<close> wants exactly one NUL, at the end.\<close>

definition cstr_from_bytes_with_nul :: "u8 list \<Rightarrow> unit + u8 list" where
  "cstr_from_bytes_with_nul v =
     (if v \<noteq> [] \<and> last v = 0 \<and> 0 \<notin> set (butlast v) then Inr (butlast v) else Inl ())"

definition value_as_string :: "u8 list \<Rightarrow> unit + string" where
  "value_as_string v =
     (if v = [] then Inl ()
      else res_bind (cstr_from_bytes_with_nul v) (\<lambda>s. ok_or () (to_str s)))"

text \<open>\<open>StringListIter\<close>: the strings up to each NUL; a rest without NUL is one error.\<close>

function string_list :: "u8 list \<Rightarrow> (unit + string) list" where
  "string_list v =
     (if v = [] then []
      else if 0 \<in> set v
      then ok_or () (to_str (takeWhile (\<lambda>b. b \<noteq> 0) v)) # string_list (drop 1 (dropWhile (\<lambda>b. b \<noteq> 0) v))
      else [Inl ()])"
  by pat_completeness auto
termination
proof (relation "measure length")
  fix v :: "u8 list"
  assume "v \<noteq> []" "0 \<in> set v"
  then have "0 < length v" by simp
  then show "(drop 1 (dropWhile (\<lambda>b. b \<noteq> 0) v), v) \<in> measure length"
    using length_dropWhile_le [of "\<lambda>b. b \<noteq> 0" v] by (simp del: length_greater_0_conv)
qed auto

declare string_list.simps [simp del]

text \<open>The cells of an encoded array, and a number of several cells, which wraps beyond 64 bits.\<close>

definition be_cells :: "u8 list \<Rightarrow> u32 list" where
  "be_cells bs = map u32_from_be_bytes (chunks_exact 4 bs)"

definition cells_value :: "u32 list \<Rightarrow> usize" where
  "cells_value cs = foldl (\<lambda>acc c. push_bit 32 acc + ucast c) 0 cs"

definition cells_iter :: "u8 list \<Rightarrow> u32 \<Rightarrow> usize list option" where
  "cells_iter v size_1 = do {
     assert_that (size_1 > 0);
     let chunk_size = unat size_1 * 4;
     assert_that (length v mod chunk_size = 0);
     Some (map (\<lambda>item. cells_value (be_cells item)) (chunks_exact chunk_size v))
   }"

definition cells_pair_iter :: "u8 list \<Rightarrow> u32 \<Rightarrow> u32 \<Rightarrow> (usize \<times> usize) list option" where
  "cells_pair_iter v size_1 size_2 = do {
     assert_that (size_1 > 0);
     assert_that (size_1 \<le> 2);
     assert_that (size_2 > 0);
     assert_that (size_2 \<le> 2);
     let chunk_size = unat (size_1 + size_2) * 4;
     assert_that (length v mod chunk_size = 0);
     Some (map (\<lambda>chunk. (cells_value (be_cells (take (unat size_1 * 4) chunk)),
                         cells_value (be_cells (drop (unat size_1 * 4) chunk))))
             (chunks_exact chunk_size v))
   }"

text \<open>The triplet iterator checks no upper bound: the sums of the sizes wrap, and a wrapped sum is a
  division by zero or a slice out of range, that is a panic.\<close>

definition cells_triplet_iter ::
    "u8 list \<Rightarrow> u32 \<Rightarrow> u32 \<Rightarrow> u32 \<Rightarrow> (usize \<times> usize \<times> usize) list option" where
  "cells_triplet_iter v size_1 size_2 size_3 = do {
     assert_that (size_1 > 0);
     assert_that (size_2 > 0);
     assert_that (size_3 > 0);
     let chunk_size = unat (size_1 + size_2 + size_3) * 4;
     assert_that (chunk_size > 0);
     assert_that (length v mod chunk_size = 0);
     let first_end = unat size_1 * 4;
     let second_end = unat (size_1 + size_2) * 4;
     assert_that (v = [] \<or> first_end \<le> second_end \<and> second_end \<le> chunk_size);
     Some (map (\<lambda>chunk. (cells_value (be_cells (take first_end chunk)),
                         cells_value (be_cells (drop first_end (take second_end chunk))),
                         cells_value (be_cells (drop second_end chunk))))
             (chunks_exact chunk_size v))
   }"

datatype std_prop_name =
  SP_Compatible | SP_Model | SP_PHandle | SP_Status | SP_AddressCells | SP_SizeCells | SP_Reg
  | SP_VirtualReg | SP_Ranges | SP_DmaRanges | SP_DmaCoherent | SP_DmaNoncoherent

definition std_prop_try_from :: "string \<Rightarrow> unit + std_prop_name" where
  "std_prop_try_from value =
     (if value = ''compatible'' then Inr SP_Compatible
      else if value = ''model'' then Inr SP_Model
      else if value = ''phandle'' then Inr SP_PHandle
      else if value = ''status'' then Inr SP_Status
      else if value = ''#address-cells'' then Inr SP_AddressCells
      else if value = ''#size-cells'' then Inr SP_SizeCells
      else if value = ''reg'' then Inr SP_Reg
      else if value = ''virtual-reg'' then Inr SP_VirtualReg
      else if value = ''ranges'' then Inr SP_Ranges
      else if value = ''dma-ranges'' then Inr SP_DmaRanges
      else if value = ''dma-coherent'' then Inr SP_DmaCoherent
      else if value = ''dma-noncoherent'' then Inr SP_DmaNoncoherent
      else Inl ())"

fun std_prop_str :: "std_prop_name \<Rightarrow> string" where
  "std_prop_str SP_Compatible = ''compatible''"
| "std_prop_str SP_Model = ''model''"
| "std_prop_str SP_PHandle = ''phandle''"
| "std_prop_str SP_Status = ''status''"
| "std_prop_str SP_AddressCells = ''#address-cells''"
| "std_prop_str SP_SizeCells = ''#size-cells''"
| "std_prop_str SP_Reg = ''reg''"
| "std_prop_str SP_VirtualReg = ''virtual-reg''"
| "std_prop_str SP_Ranges = ''ranges''"
| "std_prop_str SP_DmaRanges = ''dma-ranges''"
| "std_prop_str SP_DmaCoherent = ''dma-coherent''"
| "std_prop_str SP_DmaNoncoherent = ''dma-noncoherent''"


section \<open>Properties of a node\<close>

record prop_iter =
  pi_token_ptr :: "nat option"
  pi_strings_block :: nat

text \<open>\<open>next_prop_token\<close> reads through the pointer before any null check.\<close>

function next_prop_token :: "u8 list \<Rightarrow> nat \<Rightarrow> nat option option" where
  "next_prop_token bs p =
     (case read_be32 bs p of
        None \<Rightarrow> None
      | Some token \<Rightarrow>
          if token = FDT_PROP then Some (Some p)
          else if token = FDT_NOP then next_prop_token bs (p + 4)
          else Some None)"
  by pat_completeness auto
termination
  by (relation "measure (\<lambda>(bs, p). length bs - p)") (auto dest: read_be32_bound)

declare next_prop_token.simps [simp del]

definition prop_iter_next :: "u8 list \<Rightarrow> prop_iter \<Rightarrow> (raw_prop option \<times> prop_iter) option" where
  "prop_iter_next bs it = do {
     p0 \<leftarrow> pi_token_ptr it;
     token_ptr \<leftarrow> next_prop_token bs p0;
     (case token_ptr of
        None \<Rightarrow> Some (None, it\<lparr>pi_token_ptr := None\<rparr>)
      | Some p \<Rightarrow> do {
          (prop, q) \<leftarrow> read_prop bs (pi_strings_block it) p;
          Some (Some prop, it\<lparr>pi_token_ptr := Some q\<rparr>)
        })
   }"

partial_function (option) prop_find :: "u8 list \<Rightarrow> (raw_prop \<Rightarrow> bool) \<Rightarrow> prop_iter \<Rightarrow> raw_prop option option" where
  "prop_find bs P it = do {
     (item, it') \<leftarrow> prop_iter_next bs it;
     (case item of
        None \<Rightarrow> Some None
      | Some prop \<Rightarrow> if P prop then Some (Some prop) else prop_find bs P it')
   }"

partial_function (option) prop_collect :: "u8 list \<Rightarrow> prop_iter \<Rightarrow> raw_prop list option" where
  "prop_collect bs it = do {
     (item, it') \<leftarrow> prop_iter_next bs it;
     (case item of
        None \<Rightarrow> Some []
      | Some prop \<Rightarrow> do { ps \<leftarrow> prop_collect bs it'; Some (prop # ps) })
   }"

section \<open>The tree as a whole\<close>

definition structure_iter_at :: "fdt \<Rightarrow> bool \<Rightarrow> sb_iter option" where
  "structure_iter_at f skip = do {
     structure \<leftarrow> fdt_structure_block_offset f;
     strings \<leftarrow> fdt_strings_block_offset f;
     Some ((if skip then sb_new_without_props else sb_new) (Some (unat structure)) (unat strings))
   }"

definition structure_block_iter :: "fdt \<Rightarrow> sb_iter option" where
  "structure_block_iter f = structure_iter_at f False"

definition fdt_node_iter :: "fdt \<Rightarrow> node_iter option" where
  "fdt_node_iter f = do {
     structure \<leftarrow> fdt_structure_block_offset f;
     strings \<leftarrow> fdt_strings_block_offset f;
     node_iter_new (Some (unat structure)) (unat strings) isize_max
   }"

definition find_node :: "fdt \<Rightarrow> (raw_node \<Rightarrow> bool) \<Rightarrow> raw_node option option" where
  "find_node f P = do { it \<leftarrow> fdt_node_iter f; node_find (fdt_bytes f) P it }"

definition root_node :: "fdt \<Rightarrow> (unit + raw_node) option" where
  "root_node f = map_option (ok_or ()) (find_node f rn_is_root)"

definition aliases_node :: "fdt \<Rightarrow> raw_node option option" where
  "aliases_node f = find_node f rn_is_aliases"

definition reserved_memory_node :: "fdt \<Rightarrow> raw_node option option" where
  "reserved_memory_node f = find_node f rn_is_reserved_memory"

definition chosen_node :: "fdt \<Rightarrow> raw_node option option" where
  "chosen_node f = find_node f rn_is_chosen"

definition cpus_node :: "fdt \<Rightarrow> (unit + raw_node) option" where
  "cpus_node f = map_option (ok_or ()) (find_node f rn_is_cpus)"

definition fdt_prop_iter :: "fdt \<Rightarrow> raw_node \<Rightarrow> prop_iter option" where
  "fdt_prop_iter f node = do {
     strings \<leftarrow> fdt_strings_block_offset f;
     Some \<lparr>pi_token_ptr = rn_props_ptr node, pi_strings_block = unat strings\<rparr>
   }"

definition fdt_child_iter :: "fdt \<Rightarrow> raw_node \<Rightarrow> node_iter option" where
  "fdt_child_iter f node = do {
     strings \<leftarrow> fdt_strings_block_offset f;
     node_iter_new (rn_children_ptr node) (unat strings) 1
   }"

definition find_prop :: "fdt \<Rightarrow> raw_node \<Rightarrow> (raw_prop \<Rightarrow> bool) \<Rightarrow> raw_prop option option" where
  "find_prop f node P = do { it \<leftarrow> fdt_prop_iter f node; prop_find (fdt_bytes f) P it }"

definition alias_path :: "fdt \<Rightarrow> string \<Rightarrow> string option option" where
  "alias_path f alias =
     (if alias = [] then Some None
      else if CHR ''/'' \<in> set alias then Some (Some alias)
      else do {
        node \<leftarrow> aliases_node f;
        (case node of
           None \<Rightarrow> Some None
         | Some n \<Rightarrow> do {
             prop \<leftarrow> find_prop f n (\<lambda>p. rp_name p = alias);
             Some (case prop of
                     None \<Rightarrow> None
                   | Some p \<Rightarrow> (case value_as_string (rp_value p) of Inl _ \<Rightarrow> None | Inr s \<Rightarrow> Some s))
           })
      })"

definition path_segments :: "string \<Rightarrow> string list" where
  "path_segments path = filter (\<lambda>s. s \<noteq> []) (split_char CHR ''/'' path)"

text \<open>\<open>get_node_by_path\<close> and \<open>get_nodes_path\<close>; the array of the latter is the list of its nodes,
  64 at most.\<close>

fun walk_path :: "fdt \<Rightarrow> string list \<Rightarrow> raw_node \<Rightarrow> raw_node option option" where
  "walk_path f [] node = Some (Some node)"
| "walk_path f (segment # segments) node = do {
     children \<leftarrow> fdt_child_iter f node;
     next_node \<leftarrow> node_find (fdt_bytes f) (\<lambda>n. rn_name n = segment) children;
     (case next_node of None \<Rightarrow> Some None | Some n \<Rightarrow> walk_path f segments n)
   }"

definition get_node_by_path :: "fdt \<Rightarrow> string \<Rightarrow> raw_node option option" where
  "get_node_by_path f path = do {
     resolved \<leftarrow> alias_path f path;
     (case resolved of
        None \<Rightarrow> Some None
      | Some path' \<Rightarrow> do {
          root \<leftarrow> root_node f;
          (case root of Inl _ \<Rightarrow> Some None | Inr node \<Rightarrow> walk_path f (path_segments path') node)
        })
   }"

definition MAX_PATH_DEPTH :: nat where "MAX_PATH_DEPTH = 64"

fun walk_nodes :: "fdt \<Rightarrow> string list \<Rightarrow> raw_node list \<Rightarrow> raw_node list option option" where
  "walk_nodes f [] nodes = Some (Some nodes)"
| "walk_nodes f (segment # segments) nodes = do {
     children \<leftarrow> fdt_child_iter f (last nodes);
     next_node \<leftarrow> node_find (fdt_bytes f) (\<lambda>n. rn_name n = segment) children;
     (case next_node of
        None \<Rightarrow> Some None
      | Some n \<Rightarrow> if length nodes < MAX_PATH_DEPTH then walk_nodes f segments (nodes @ [n]) else Some None)
   }"

definition get_nodes_path :: "fdt \<Rightarrow> string \<Rightarrow> raw_node list option option" where
  "get_nodes_path f path = do {
     resolved \<leftarrow> alias_path f path;
     (case resolved of
        None \<Rightarrow> Some None
      | Some path' \<Rightarrow> do {
          root \<leftarrow> root_node f;
          (case root of Inl _ \<Rightarrow> None | Inr node \<Rightarrow> walk_nodes f (path_segments path') [node])
        })
   }"

definition parse_standard_prop :: "fdt \<Rightarrow> raw_node \<Rightarrow> std_prop_name \<Rightarrow> raw_prop option option" where
  "parse_standard_prop f node sp = find_prop f node (\<lambda>p. std_prop_try_from (rp_name p) = Inr sp)"

text \<open>The values default to 2 and 1; a property of another length is an \<open>unwrap\<close> of an error.\<close>

definition cells_prop_or :: "u32 \<Rightarrow> raw_prop option \<Rightarrow> u32 option" where
  "cells_prop_or d prop =
     (case prop of
        None \<Rightarrow> Some d
      | Some p \<Rightarrow> (case value_as_u32 (rp_value p) of Inl _ \<Rightarrow> None | Inr v \<Rightarrow> Some v))"

definition parse_address_and_size_cells :: "fdt \<Rightarrow> raw_node \<Rightarrow> (u32 \<times> u32) option" where
  "parse_address_and_size_cells f node = do {
     ac \<leftarrow> parse_standard_prop f node SP_AddressCells;
     address_cells \<leftarrow> cells_prop_or 2 ac;
     sc \<leftarrow> parse_standard_prop f node SP_SizeCells;
     size_cells \<leftarrow> cells_prop_or 1 sc;
     Some (address_cells, size_cells)
   }"


section \<open>The chosen node\<close>

definition ends_with :: "string \<Rightarrow> string \<Rightarrow> bool" where
  "ends_with s t \<longleftrightarrow> length t \<le> length s \<and> drop (length s - length t) s = t"

definition extract_path :: "raw_prop \<Rightarrow> string option \<Rightarrow> string option" where
  "extract_path prop dest =
     (case value_as_string (rp_value prop) of
        Inl _ \<Rightarrow> dest
      | Inr path \<Rightarrow> Some (hd (split_char CHR '':'' path)))"

definition chosen_step ::
    "raw_prop \<Rightarrow> string option \<times> string option \<times> string option
       \<Rightarrow> string option \<times> string option \<times> string option" where
  "chosen_step prop r =
     (let (bootargs, stdout_path, stdin_path) = r in
      if rp_name prop = ''bootargs'' then
        (case value_as_string (rp_value prop) of Inl _ \<Rightarrow> r | Inr v \<Rightarrow> (Some v, stdout_path, stdin_path))
      else if ends_with (rp_name prop) ''stdout-path'' then (bootargs, extract_path prop stdout_path, stdin_path)
      else if rp_name prop = ''stdin-path'' then (bootargs, stdout_path, extract_path prop stdin_path)
      else r)"

definition parse_chosen :: "fdt \<Rightarrow> (string option \<times> string option \<times> string option) option" where
  "parse_chosen f = do {
     chosen \<leftarrow> chosen_node f;
     (case chosen of
        None \<Rightarrow> Some (None, None, None)
      | Some node \<Rightarrow> do {
          it \<leftarrow> fdt_prop_iter f node;
          props \<leftarrow> prop_collect (fdt_bytes f) it;
          Some (fold chosen_step props (None, None, None))
        })
   }"


section \<open>Address resolution\<close>

definition hex_digit :: "char \<Rightarrow> nat option" where
  "hex_digit c =
     (let n = of_char c in
      if 48 \<le> n \<and> n \<le> 57 then Some (n - 48)
      else if 97 \<le> n \<and> n \<le> 102 then Some (n - 87)
      else if 65 \<le> n \<and> n \<le> 70 then Some (n - 55)
      else None)"

fun hex_digits :: "nat \<Rightarrow> string \<Rightarrow> nat option" where
  "hex_digits acc [] = Some acc"
| "hex_digits acc (c # cs) =
     (case hex_digit c of
        None \<Rightarrow> None
      | Some d \<Rightarrow> if acc * 16 + d < 2 ^ 64 then hex_digits (acc * 16 + d) cs else None)"

text \<open>\<open>usize::from_str_radix(s, 16)\<close>: a leading plus sign is accepted.\<close>

definition usize_from_hex :: "string \<Rightarrow> usize option" where
  "usize_from_hex s =
     map_option of_nat
       (case s of
          [] \<Rightarrow> None
        | c # cs \<Rightarrow> if c = CHR ''+'' \<and> cs \<noteq> [] then hex_digits 0 cs else hex_digits 0 s)"

text \<open>One ancestor of the walk towards the root; \<open>nearer\<close> are the ancestors nearer to the root,
  nearest first.\<close>

definition translate_range :: "fdt \<Rightarrow> raw_node \<Rightarrow> raw_node list \<Rightarrow> usize \<Rightarrow> usize option" where
  "translate_range f ancestor nearer addr = do {
     ranges \<leftarrow> parse_standard_prop f ancestor SP_Ranges;
     (case ranges of
        None \<Rightarrow> Some addr
      | Some prop \<Rightarrow> do {
          (address_cells, size_cells) \<leftarrow> parse_address_and_size_cells f ancestor;
          parent \<leftarrow> (case nearer of [] \<Rightarrow> None | n # _ \<Rightarrow> Some n);
          (parent_address_cells, _) \<leftarrow> parse_address_and_size_cells f parent;
          triples \<leftarrow> cells_triplet_iter (rp_value prop) address_cells parent_address_cells size_cells;
          Some (case List.find (\<lambda>(child_addr, parent_addr, sz). addr \<ge> child_addr \<and> addr < child_addr + sz) triples of
                  None \<Rightarrow> addr
                | Some (child_addr, parent_addr, _) \<Rightarrow> addr - child_addr + parent_addr)
        })
   }"

fun translate_up :: "fdt \<Rightarrow> raw_node list \<Rightarrow> usize \<Rightarrow> usize option" where
  "translate_up f [] addr = Some addr"
| "translate_up f (ancestor # nearer) addr =
     Option.bind (translate_range f ancestor nearer addr) (translate_up f nearer)"

definition resolve_phys_addr :: "fdt \<Rightarrow> string \<Rightarrow> usize option option" where
  "resolve_phys_addr f path = do {
     resolved \<leftarrow> get_nodes_path f path;
     (case resolved of
        None \<Rightarrow> Some None
      | Some nodes \<Rightarrow> do {
          let node = last nodes;
          let ancestors = rev (butlast nodes);
          unit_address \<leftarrow>
            (case Option.bind (rn_unit_address node) usize_from_hex of
               Some a \<Rightarrow> Some a
             | None \<Rightarrow> do {
                 parent \<leftarrow> (case ancestors of [] \<Rightarrow> None | n # _ \<Rightarrow> Some n);
                 prop \<leftarrow> parse_standard_prop f node SP_Reg;
                 reg \<leftarrow> prop;
                 (address_cells, size_cells) \<leftarrow> parse_address_and_size_cells f parent;
                 pairs \<leftarrow> cells_pair_iter (rp_value reg) address_cells size_cells;
                 (case pairs of [] \<Rightarrow> None | (a, _) # _ \<Rightarrow> Some a)
               });
          map_option Some (translate_up f ancestors unit_address)
        })
   }"


section \<open>Memory regions\<close>

text \<open>\<open>nodes.flat_map(|node| self.prop_iter(&node))\<close>.\<close>

partial_function (option) flat_props_next ::
    "u8 list \<Rightarrow> nat \<Rightarrow> (raw_node \<Rightarrow> bool) \<Rightarrow> node_iter \<times> prop_iter option
       \<Rightarrow> (raw_prop option \<times> node_iter \<times> prop_iter option) option" where
  "flat_props_next bs strings keep st =
     (case snd st of
        Some pi \<Rightarrow> do {
          (item, pi') \<leftarrow> prop_iter_next bs pi;
          (case item of
             Some prop \<Rightarrow> Some (Some prop, fst st, Some pi')
           | None \<Rightarrow> flat_props_next bs strings keep (fst st, None))
        }
      | None \<Rightarrow> do {
          (item, ni) \<leftarrow> node_iter_next bs (fst st);
          (case item of
             None \<Rightarrow> Some (None, ni, None)
           | Some node \<Rightarrow>
               flat_props_next bs strings keep
                 (ni, if keep node then Some \<lparr>pi_token_ptr = rn_props_ptr node, pi_strings_block = strings\<rparr> else None))
        })"

definition pad_regions :: "(usize \<times> usize) list \<Rightarrow> (usize \<times> usize) list" where
  "pad_regions rs = take 32 rs @ replicate (32 - length rs) (0, 0)"

partial_function (option) parse_memory_loop ::
    "u8 list \<Rightarrow> nat \<Rightarrow> u32 \<Rightarrow> u32 \<Rightarrow> node_iter \<times> prop_iter option \<Rightarrow> (usize \<times> usize) list option" where
  "parse_memory_loop bs strings root_address_cells root_size_cells st = do {
     (item, st') \<leftarrow> flat_props_next bs strings rn_is_memory st;
     (case item of
        None \<Rightarrow> Some (pad_regions [])
      | Some prop \<Rightarrow>
          if std_prop_try_from (rp_name prop) = Inr SP_Reg
          then map_option pad_regions (cells_pair_iter (rp_value prop) root_address_cells root_size_cells)
          else parse_memory_loop bs strings root_address_cells root_size_cells st')
   }"

definition parse_memory :: "fdt \<Rightarrow> (usize \<times> usize) list option" where
  "parse_memory f = do {
     root \<leftarrow> root_node f;
     node \<leftarrow> (case root of Inl _ \<Rightarrow> None | Inr n \<Rightarrow> Some n);
     (root_address_cells, root_size_cells) \<leftarrow> parse_address_and_size_cells f node;
     it \<leftarrow> fdt_node_iter f;
     strings \<leftarrow> fdt_strings_block_offset f;
     parse_memory_loop (fdt_bytes f) (unat strings) root_address_cells root_size_cells (it, None)
   }"

text \<open>\<open>parse_reserved_memory\<close> fills an array of 32 entries; the regions found are a list here, and
  a further one is the error.\<close>

fun push_regions :: "(usize \<times> usize) list \<Rightarrow> (usize \<times> usize) list \<Rightarrow> unit + (usize \<times> usize) list" where
  "push_regions acc [] = Inr acc"
| "push_regions acc (r # rs) = (if length acc \<ge> 32 then Inl () else push_regions (acc @ [r]) rs)"

partial_function (option) reserved_children_loop ::
    "u8 list \<Rightarrow> nat \<Rightarrow> u32 \<Rightarrow> u32 \<Rightarrow> node_iter \<times> prop_iter option \<Rightarrow> (usize \<times> usize) list
       \<Rightarrow> (unit + (usize \<times> usize) list) option" where
  "reserved_children_loop bs strings address_cells size_cells st acc = do {
     (item, st') \<leftarrow> flat_props_next bs strings (\<lambda>_. True) st;
     (case item of
        None \<Rightarrow> Some (Inr acc)
      | Some prop \<Rightarrow>
          if rp_value prop = [] \<or> rp_name prop \<noteq> std_prop_str SP_Reg
          then reserved_children_loop bs strings address_cells size_cells st' acc
          else do {
            pairs \<leftarrow> cells_pair_iter (rp_value prop) address_cells size_cells;
            (case push_regions acc pairs of
               Inl e \<Rightarrow> Some (Inl e)
             | Inr acc' \<Rightarrow> reserved_children_loop bs strings address_cells size_cells st' acc')
          })
   }"

partial_function (option) reserved_entries_loop ::
    "u8 list \<Rightarrow> nat \<Rightarrow> (usize \<times> usize) list \<Rightarrow> (unit + (usize \<times> usize) list) option" where
  "reserved_entries_loop bs p acc = do {
     (e, p') \<leftarrow> reserve_next bs p;
     (case e of
        None \<Rightarrow> Some (Inr acc)
      | Some r \<Rightarrow> if length acc \<ge> 32 then Some (Inl ()) else reserved_entries_loop bs p' (acc @ [r]))
   }"

definition reserved_memory_children :: "fdt \<Rightarrow> raw_node \<Rightarrow> (usize \<times> usize) list \<Rightarrow> (unit + (usize \<times> usize) list) option" where
  "reserved_memory_children f rmem acc = do {
     root \<leftarrow> root_node f;
     (case root of
        Inl e \<Rightarrow> Some (Inl e)
      | Inr root_n \<Rightarrow> do {
          (root_address_cells, root_size_cells) \<leftarrow> parse_address_and_size_cells f root_n;
          (address_cells, size_cells) \<leftarrow> parse_address_and_size_cells f rmem;
          (if address_cells \<noteq> root_address_cells \<or> size_cells \<noteq> root_size_cells then Some (Inl ())
           else do {
             it \<leftarrow> fdt_prop_iter f rmem;
             props \<leftarrow> prop_collect (fdt_bytes f) it;
             assert_that (\<forall>p \<in> set props. rp_value p \<noteq> [] \<longrightarrow> std_prop_try_from (rp_name p) \<noteq> Inr SP_Ranges);
             children \<leftarrow> fdt_child_iter f rmem;
             reserved_children_loop (fdt_bytes f) (pi_strings_block it) address_cells size_cells (children, None) acc
           })
        })
   }"

definition parse_reserved_memory :: "fdt \<Rightarrow> (unit + (usize \<times> usize) list) option" where
  "parse_reserved_memory f = do {
     total \<leftarrow> fdt_total_size f;
     let acc = [(of_nat (fdt_base f), ucast total)];
     rmem \<leftarrow> reserved_memory_node f;
     children \<leftarrow> (case rmem of None \<Rightarrow> Some (Inr acc) | Some n \<Rightarrow> reserved_memory_children f n acc);
     (case children of
        Inl e \<Rightarrow> Some (Inl e)
      | Inr acc' \<Rightarrow> do {
          offset \<leftarrow> fdt_mem_rsv_map_offset f;
          entries \<leftarrow> reserved_entries_loop (fdt_bytes f) (unat offset) acc';
          Some (case entries of Inl e \<Rightarrow> Inl e | Inr rs \<Rightarrow> Inr (pad_regions rs))
        })
   }"

end
