(* ===== verification/Fdt_Encoding.thy ===== *)
theory Fdt_Encoding
  imports Fdt
begin

text \<open>
  The structure block as the Devicetree Specification defines it (section 5.4), and the proof that
  the iterator of \<open>fdt_structure_block.rs\<close> reads it back. The encoding is not code of the
  repository: it is the format the reader is specified against.
\<close>

section \<open>Byte strings in a blob\<close>

lemma be_nat_4: "be_nat [a, b, c, d] = ((unat a * 256 + unat b) * 256 + unat c) * 256 + unat d"
  by (simp add: be_nat_def)

lemma unat_ucast_drop_bit: "unat (ucast (drop_bit k w) :: u8) = unat w div 2 ^ k mod 256" for w :: u32
proof -
  have "unat (ucast (drop_bit k w) :: u8) = take_bit 8 (unat (drop_bit k w))"
    by (simp add: unsigned_ucast_eq)
  moreover have "unat (drop_bit k w) = unat w div 2 ^ k"
    unfolding unsigned_drop_bit_eq by (simp add: drop_bit_eq_div take_bit_nat_eq_self)
  ultimately show ?thesis by (simp add: take_bit_eq_mod del: drop_bit_eq_div)
qed

lemma digits_256: "((n div 16777216 mod 256 * 256 + n div 65536 mod 256) * 256 + n div 256 mod 256) * 256 + n mod 256 = n"
  if "n < 4294967296" for n :: nat
proof -
  have a: "n div 65536 = n div 256 div 256" "n div 16777216 = n div 256 div 256 div 256"
    by (simp_all add: div_mult2_eq [symmetric])
  have "n div 256 div 256 div 256 < 256" using that by (simp add: a(2) [symmetric] less_mult_imp_div_less)
  then show ?thesis
    unfolding a by (metis div_mult_mod_eq mod_less)
qed

lemma u32_be_roundtrip [simp]: "u32_from_be_bytes (u32_to_be_bytes w) = w"
proof -
  have "be_nat (u32_to_be_bytes w) = unat w"
    using digits_256 [of "unat w"] unat_ucast_drop_bit [of 24 w] unat_ucast_drop_bit [of 16 w]
      unat_ucast_drop_bit [of 8 w] unat_ucast_drop_bit [of 0 w]
    by (simp add: u32_to_be_bytes_def be_nat_4)
  then show ?thesis by (simp add: u32_from_be_bytes_def)
qed

lemma read_slice_drop: "drop p bs = xs @ rest \<Longrightarrow> xs \<noteq> [] \<Longrightarrow> read_slice bs p (length xs) = Some xs"
proof -
  assume d: "drop p bs = xs @ rest" "xs \<noteq> []"
  from d(1) have "length bs - p = length xs + length rest" by (metis length_append length_drop)
  moreover have "length xs > 0" using d(2) by simp
  ultimately have "p + length xs \<le> length bs" by linarith
  with d show ?thesis by (simp add: read_slice_def)
qed

lemma read_slice_drop': "drop p bs = xs @ rest \<Longrightarrow> p \<le> length bs \<Longrightarrow> read_slice bs p (length xs) = Some xs"
proof -
  assume d: "drop p bs = xs @ rest" "p \<le> length bs"
  from d(1) have "length bs - p = length xs + length rest" by (metis length_append length_drop)
  with d show ?thesis by (simp add: read_slice_def)
qed

lemma drop_after: "drop p bs = xs @ rest \<Longrightarrow> drop (p + length xs) bs = rest"
  by (metis add.commute append_eq_conv_conj drop_drop)

lemma u32_to_be_bytes_not_Nil [simp]: "u32_to_be_bytes w \<noteq> []"
  by (simp add: u32_to_be_bytes_def)

lemma read_be32_at: "drop p bs = u32_to_be_bytes w @ rest \<Longrightarrow> read_be32 bs p = Some w"
  using read_slice_drop [of p bs "u32_to_be_bytes w" rest]
  by (simp add: read_be32_def)

lemma drop_after_be32: "drop p bs = u32_to_be_bytes w @ rest \<Longrightarrow> drop (p + 4) bs = rest"
  using drop_after [of p bs "u32_to_be_bytes w" rest] by simp


section \<open>The format\<close>

datatype fdt_item = It_Nop | It_Begin string | It_End | It_Prop string "u8 list"

definition pad4 :: "u8 list \<Rightarrow> u8 list" where
  "pad4 xs = xs @ replicate (next_multiple_of (length xs) 4 - length xs) 0"

text \<open>\<open>off\<close> gives the place of a property name in the strings block.\<close>

fun item_bytes :: "(string \<Rightarrow> nat) \<Rightarrow> fdt_item \<Rightarrow> u8 list" where
  "item_bytes off It_Nop = u32_to_be_bytes FDT_NOP"
| "item_bytes off (It_Begin name) = u32_to_be_bytes FDT_BEGIN_NODE @ pad4 (bytes_of_str name @ [0])"
| "item_bytes off It_End = u32_to_be_bytes FDT_END_NODE"
| "item_bytes off (It_Prop name v) =
     u32_to_be_bytes FDT_PROP @ u32_to_be_bytes (of_nat (length v)) @ u32_to_be_bytes (of_nat (off name)) @ pad4 v"

definition items_bytes :: "(string \<Rightarrow> nat) \<Rightarrow> fdt_item list \<Rightarrow> u8 list" where
  "items_bytes off is = concat (map (item_bytes off) is)"

lemma items_bytes_simps [simp]:
  "items_bytes off [] = []" "items_bytes off (i # is) = item_bytes off i @ items_bytes off is"
  by (simp_all add: items_bytes_def)

text \<open>The blob holds the items from \<open>p\<close> on, closed by \<open>FDT_END\<close>.\<close>

definition structure_at :: "u8 list \<Rightarrow> nat \<Rightarrow> (string \<Rightarrow> nat) \<Rightarrow> fdt_item list \<Rightarrow> bool" where
  "structure_at bs p off is \<longleftrightarrow> p mod 4 = 0 \<and> (\<exists>rest. drop p bs = items_bytes off is @ u32_to_be_bytes FDT_END @ rest)"

text \<open>A name the reader accepts: no NUL, valid UTF-8.\<close>

definition name_ok :: "string \<Rightarrow> bool" where
  "name_ok name \<longleftrightarrow> 0 \<notin> set (bytes_of_str name) \<and> utf8_valid (bytes_of_str name)"

fun item_ok :: "u8 list \<Rightarrow> nat \<Rightarrow> (string \<Rightarrow> nat) \<Rightarrow> fdt_item \<Rightarrow> bool" where
  "item_ok bs strings off It_Nop = True"
| "item_ok bs strings off (It_Begin name) = (name_ok name \<and> length name \<le> 51)"
| "item_ok bs strings off It_End = True"
| "item_ok bs strings off (It_Prop name v) =
     (name_ok name \<and> read_cstr bs (strings + off name) = Some (bytes_of_str name)
      \<and> off name < 2 ^ 32 \<and> length v < 2 ^ 32)"

text \<open>The order of tokens the reader insists on: properties before child nodes, and \<open>FDT_END\<close> after
  the end of a node.\<close>

fun seq_ok :: "u32 \<Rightarrow> fdt_item list \<Rightarrow> bool" where
  "seq_ok prev [] = (prev \<noteq> FDT_BEGIN_NODE \<and> prev \<noteq> FDT_PROP)"
| "seq_ok prev (It_Nop # is) = seq_ok prev is"
| "seq_ok prev (It_Begin name # is) = seq_ok FDT_BEGIN_NODE is"
| "seq_ok prev (It_End # is) = seq_ok FDT_END_NODE is"
| "seq_ok prev (It_Prop name v # is) = (prev \<noteq> FDT_END_NODE \<and> seq_ok FDT_PROP is)"

lemmas fdt_tokens = FDT_BEGIN_NODE_def FDT_END_NODE_def FDT_PROP_def FDT_NOP_def FDT_END_def


section \<open>Reading items\<close>

lemma next_multiple_of_4: "next_multiple_of n 4 mod 4 = 0" "n \<le> next_multiple_of n 4"
  using next_multiple_of_dvd [of 4 n] next_multiple_of_le [of n 4] by (simp_all add: dvd_eq_mod_eq_0)

lemma length_pad4 [simp]: "length (pad4 xs) = next_multiple_of (length xs) 4"
  using next_multiple_of_4(2) [of "length xs"] by (simp add: pad4_def)

lemma length_item_bytes_mod: "length (item_bytes off i) mod 4 = 0"
proof -
  have "4 dvd next_multiple_of n 4" for n by (rule next_multiple_of_dvd) simp
  then have "4 dvd length (item_bytes off i)" by (cases i) simp_all
  then show ?thesis by (simp add: dvd_eq_mod_eq_0)
qed

lemma structure_at_Cons:
  assumes "structure_at bs p off (i # is)"
  shows "structure_at bs (p + length (item_bytes off i)) off is"
proof -
  obtain rest where "drop p bs = item_bytes off i @ items_bytes off is @ u32_to_be_bytes FDT_END @ rest"
    using assms by (auto simp: structure_at_def)
  then have "drop (p + length (item_bytes off i)) bs = items_bytes off is @ u32_to_be_bytes FDT_END @ rest"
    by (rule drop_after)
  then show ?thesis
    using assms length_item_bytes_mod [of off i] by (auto simp: structure_at_def)
qed

fun head_token :: "fdt_item list \<Rightarrow> u32" where
  "head_token [] = FDT_END"
| "head_token (It_Nop # is) = FDT_NOP"
| "head_token (It_Begin name # is) = FDT_BEGIN_NODE"
| "head_token (It_End # is) = FDT_END_NODE"
| "head_token (It_Prop name v # is) = FDT_PROP"

lemma item_bytes_token: "\<exists>rest. item_bytes off i = u32_to_be_bytes (head_token (i # is)) @ rest"
  by (cases i) auto

lemma structure_at_token:
  assumes "structure_at bs p off is"
  shows "read_be32 bs p = Some (head_token is)"
proof -
  have "\<exists>rest. drop p bs = u32_to_be_bytes (head_token is) @ rest"
  proof (cases "is")
    case Nil
    then show ?thesis using assms by (auto simp: structure_at_def)
  next
    case (Cons i js)
    then obtain r where "item_bytes off i = u32_to_be_bytes (head_token is) @ r" using item_bytes_token by blast
    then show ?thesis using assms Cons by (auto simp: structure_at_def)
  qed
  then show ?thesis using read_be32_at by blast
qed

abbreviation drop_nops :: "fdt_item list \<Rightarrow> fdt_item list" where
  "drop_nops \<equiv> dropWhile (\<lambda>i. i = It_Nop)"

fun is_prop_item :: "fdt_item \<Rightarrow> bool" where
  "is_prop_item (It_Prop name v) = True"
| "is_prop_item i = False"

abbreviation drop_props :: "fdt_item list \<Rightarrow> fdt_item list" where
  "drop_props \<equiv> dropWhile (\<lambda>i. i = It_Nop \<or> is_prop_item i)"

lemma drop_nops_cases: "drop_nops is = [] \<or> (\<exists>i js. drop_nops is = i # js \<and> i \<noteq> It_Nop)"
  by (induction "is") auto

lemma drop_props_nops: "drop_props (drop_nops is) = drop_props is"
  by (induction "is") auto

lemma head_token_PROP: "head_token is = FDT_PROP \<longleftrightarrow> (\<exists>name v js. is = It_Prop name v # js)"
  by (cases "is" rule: head_token.cases) (simp_all add: fdt_tokens)

lemma drop_props_other: "i \<noteq> It_Nop \<Longrightarrow> head_token (i # js) \<noteq> FDT_PROP \<Longrightarrow> drop_props (i # js) = i # js"
  by (cases i) auto

lemma head_token_NOP: "head_token is = FDT_NOP \<longleftrightarrow> (\<exists>js. is = It_Nop # js)"
  by (cases "is" rule: head_token.cases) (simp_all add: fdt_tokens)

lemma next_non_nop_at:
  "structure_at bs p off is \<Longrightarrow>
     \<exists>q. next_non_nop_token bs p = Some (head_token (drop_nops is), q) \<and> structure_at bs q off (drop_nops is)"
proof (induction "is" arbitrary: p)
  case Nil
  then show ?case
    using structure_at_token [OF Nil] by (subst next_non_nop_token.simps) (simp add: fdt_tokens)
next
  case (Cons i "is")
  show ?case
  proof (cases "i = It_Nop")
    case True
    then show ?thesis
      using structure_at_token [OF Cons.prems] Cons.IH [OF structure_at_Cons [OF Cons.prems]]
      by (subst next_non_nop_token.simps) simp
  next
    case False
    then have "head_token (i # is) \<noteq> FDT_NOP" by (simp add: head_token_NOP)
    with False show ?thesis
      using structure_at_token [OF Cons.prems] Cons.prems by (subst next_non_nop_token.simps) simp
  qed
qed

lemma structure_at_prop:
  assumes "structure_at bs p off (It_Prop name v # is)" and ok: "item_ok bs strings off (It_Prop name v)"
  shows "read_be32 bs (p + 4) = Some (of_nat (length v))" "read_be32 bs (p + 8) = Some (of_nat (off name))"
    "read_slice bs (p + 12) (length v) = Some v"
    "prop_end p (of_nat (length v)) = p + length (item_bytes off (It_Prop name v))"
    "prop_end p (of_nat (length v)) mod 4 = 0"
proof -
  obtain rest where d: "drop p bs = u32_to_be_bytes FDT_PROP @ u32_to_be_bytes (of_nat (length v))
      @ u32_to_be_bytes (of_nat (off name)) @ pad4 v @ items_bytes off is @ u32_to_be_bytes FDT_END @ rest"
    using assms(1) by (auto simp: structure_at_def)
  note d4 = drop_after_be32 [OF d]
  note d8 = drop_after_be32 [OF d4]
  note d12 = drop_after_be32 [OF d8]
  show "read_be32 bs (p + 4) = Some (of_nat (length v))" by (rule read_be32_at [OF d4])
  show "read_be32 bs (p + 8) = Some (of_nat (off name))" using read_be32_at [OF d8] by (simp add: add.assoc)
  have "drop (p + 12) bs \<noteq> []" using d12 by (simp add: add.assoc)
  then have "p + 12 < length bs" by simp
  moreover have "drop (p + 12) bs = v @ replicate (next_multiple_of (length v) 4 - length v) 0
      @ items_bytes off is @ u32_to_be_bytes FDT_END @ rest"
    using d12 by (simp add: pad4_def add.assoc)
  ultimately show "read_slice bs (p + 12) (length v) = Some v"
    by (intro read_slice_drop') (auto simp: less_imp_le)
  have len: "unat (of_nat (length v) :: u32) = length v"
    using ok by (simp add: unat_of_nat take_bit_nat_eq_self)
  then show end_: "prop_end p (of_nat (length v)) = p + length (item_bytes off (It_Prop name v))"
    by (simp add: prop_end_def)
  show "prop_end p (of_nat (length v)) mod 4 = 0"
    unfolding end_ using structure_at_Cons [OF assms(1)] by (simp add: structure_at_def)
qed

lemma read_prop_at:
  assumes "structure_at bs p off (It_Prop name v # is)" and ok: "item_ok bs strings off (It_Prop name v)"
  shows "read_prop bs strings p = Some (\<lparr>rp_name = name, rp_value = v\<rparr>, p + length (item_bytes off (It_Prop name v)))"
proof -
  have u: "unat (of_nat (off name) :: u32) = off name" "unat (of_nat (length v) :: u32) = length v"
    using ok by (simp_all add: unat_of_nat take_bit_nat_eq_self)
  then show ?thesis
    using ok structure_at_prop [OF assms]
    by (simp add: read_prop_def to_str_def name_ok_def del: item_bytes.simps)
qed

lemma next_without_props_at:
  "structure_at bs p off is \<Longrightarrow> \<forall>i \<in> set is. item_ok bs strings off i \<Longrightarrow>
     \<exists>q. next_non_nop_token_without_props bs p = Some (head_token (drop_props is), q) \<and> structure_at bs q off (drop_props is)"
proof (induction "length is" arbitrary: p "is" rule: less_induct)
  case less
  obtain q where q: "next_non_nop_token bs p = Some (head_token (drop_nops is), q)"
    "structure_at bs q off (drop_nops is)"
    using next_non_nop_at [OF less.prems(1)] by blast
  note same = drop_props_nops [of "is"]
  show ?case
  proof (cases "\<exists>name v js. drop_nops is = It_Prop name v # js")
    case False
    then have h: "head_token (drop_nops is) \<noteq> FDT_PROP" by (simp add: head_token_PROP)
    then have "drop_props (drop_nops is) = drop_nops is"
    proof (cases "drop_nops is")
      case (Cons i js)
      then have "i \<noteq> It_Nop" using drop_nops_cases [of "is"] by (elim disjE exE conjE) simp_all
      then show ?thesis using h drop_props_other [of i js] unfolding Cons by blast
    next
      case Nil
      show ?thesis unfolding Nil by simp
    qed
    with h show ?thesis
      using q same by (subst next_non_nop_token_without_props.simps) simp
  next
    case True
    then obtain name v js where js: "drop_nops is = It_Prop name v # js" by blast
    have "set (drop_nops is) \<subseteq> set is" "length (drop_nops is) \<le> length is"
      by (auto dest: set_dropWhileD simp: length_dropWhile_le)
    then have ok: "\<forall>i \<in> set (drop_nops is). item_ok bs strings off i" and len: "length js < length is"
      using less.prems(2) js by auto
    have "item_ok bs strings off (It_Prop name v)" using ok js by simp
    note p = structure_at_prop [OF q(2) [unfolded js] this]
    obtain r where "next_non_nop_token_without_props bs (q + length (item_bytes off (It_Prop name v)))
        = Some (head_token (drop_props js), r)" "structure_at bs r off (drop_props js)"
      using less.hyps [OF len structure_at_Cons [OF q(2) [unfolded js]]] ok js by auto
    then show ?thesis
      using q(1) js same p by (subst next_non_nop_token_without_props.simps) (simp del: item_bytes.simps)
  qed
qed

section \<open>Reading nodes\<close>

lemma bytes_take_cstr:
  assumes "drop p bs = xs @ 0 # rest" and "0 \<notin> set xs"
  shows "read_cstr bs p = Some xs"
proof -
  have "takeWhile (\<lambda>b. b \<noteq> 0) (xs @ 0 # rest) = xs"
    using assms(2) by (subst takeWhile_append2) auto
  with assms(1) show ?thesis by (simp add: read_cstr_def Let_def)
qed

lemma le_word_top:
  "length ws = 4 \<Longrightarrow> u32_from_be_bytes (rev ws) \<le> 0x00FFFFFF \<longleftrightarrow> ws ! 3 = 0"
proof -
  assume "length ws = 4"
  then obtain a b c d where ws: "ws = [a, b, c, d]" by (auto simp: length_Suc_conv numeral_eq_Suc)
  define n where "n = ((unat d * 256 + unat c) * 256 + unat b) * 256 + unat a"
  have le: "unat x \<le> 255" for x :: u8 using unat_less_8 [of x] by linarith
  have "n < 4294967296"
    using le [of a] le [of b] le [of c] le [of d] unfolding n_def distrib_right by linarith
  then have "unat (of_nat n :: u32) = n" by (simp add: unat_of_nat take_bit_nat_eq_self)
  then have n: "unat (u32_from_be_bytes (rev ws)) = n"
    by (simp add: ws u32_from_be_bytes_def be_nat_4 n_def)
  have "((unat d * 256 + unat c) * 256 + unat b) * 256 + unat a \<le> 16777215 \<longleftrightarrow> unat d = 0"
    using le [of a] le [of b] le [of c] unfolding distrib_right by linarith
  then show ?thesis
    using n by (simp add: word_le_nat_alt ws unat_eq_zero n_def)
qed

text \<open>The padded name is \<open>len div 4 + 1\<close> words; only the last ends in a zero byte.\<close>

lemma next_multiple_of_Suc: "next_multiple_of (Suc n) 4 = 4 * (n div 4 + 1)"
  unfolding next_multiple_of_def by presburger

lemma padded_name_nth:
  assumes "i < 4 * (length xs div 4 + 1)"
  shows "pad4 (xs @ [0]) ! i = (if i < length xs then xs ! i else 0)"
  using assms by (auto simp: pad4_def next_multiple_of_Suc nth_append nth_Cons')

lemma name_parts_at:
  assumes d: "drop (p + 4) bs = pad4 (bytes_of_str name @ [0]) @ rest"
    and ok: "name_ok name" "length name \<le> 51" and k: "1 \<le> k" "k \<le> length name div 4 + 1"
  shows "name_parts bs p k = Some (Some (length name div 4 + 1))"
  using k
proof (induction "length name div 4 + 1 - k" arbitrary: k rule: less_induct)
  case less
  let ?xs = "bytes_of_str name" and ?j = "k - 1"
  let ?P = "pad4 (?xs @ [0])"
  have len: "length ?P = 4 * (length name div 4 + 1)" by (simp add: next_multiple_of_Suc)
  have in_range: "4 * ?j + 4 \<le> length ?P" using less.prems len by simp
  have "drop (p + 4 * k) bs = drop (4 * ?j) (drop (p + 4) bs)"
    using less.prems(1) by (simp add: algebra_simps)
  also have "\<dots> = drop (4 * ?j) ?P @ rest" using d in_range by simp
  finally have w: "drop (p + 4 * k) bs = take 4 (drop (4 * ?j) ?P) @ (drop 4 (drop (4 * ?j) ?P) @ rest)"
    by (metis append.assoc append_take_drop_id)
  have l4: "length (take 4 (drop (4 * ?j) ?P)) = 4" using in_range by simp
  then have r: "read_le32 bs (p + 4 * k) = Some (u32_from_be_bytes (rev (take 4 (drop (4 * ?j) ?P))))"
    using read_slice_drop [OF w] by (fastforce simp: read_le32_def)
  have "take 4 (drop (4 * ?j) ?P) ! 3 = ?P ! (4 * ?j + 3)" using in_range by simp
  also have "\<dots> = (if 4 * ?j + 3 < length name then ?xs ! (4 * ?j + 3) else 0)"
    using in_range len by (subst padded_name_nth) simp_all
  finally have top: "take 4 (drop (4 * ?j) ?P) ! 3 = (if 4 * ?j + 3 < length name then ?xs ! (4 * ?j + 3) else 0)" .
  show ?case
  proof (cases "k = length name div 4 + 1")
    case True
    then have "\<not> 4 * ?j + 3 < length name" by simp
    then have "u32_from_be_bytes (rev (take 4 (drop (4 * ?j) ?P))) \<le> 0x00FFFFFF"
      using le_word_top [OF l4] top by simp
    then show ?thesis using r True by (subst name_parts.simps) simp
  next
    case False
    then have lt: "4 * ?j + 3 < length name" using less.prems by simp
    then have "?xs ! (4 * ?j + 3) \<in> set ?xs" by (intro nth_mem) simp
    then have "?xs ! (4 * ?j + 3) \<noteq> 0" using ok(1) by (metis name_ok_def)
    then have "\<not> u32_from_be_bytes (rev (take 4 (drop (4 * ?j) ?P))) \<le> 0x00FFFFFF"
      using le_word_top [OF l4] top lt by simp
    moreover have "k + 1 \<le> 13" using lt ok(2) by simp
    moreover have "name_parts bs p (k + 1) = Some (Some (length name div 4 + 1))"
      using less.prems False by (intro less.hyps) simp_all
    ultimately show ?thesis using r by (subst name_parts.simps) simp
  qed
qed

text \<open>One step of the iterator on each item. Of a node entry the name is fixed; the pointers lead to
  its first property and its first child.\<close>

lemma sb_begin_node_at:
  assumes st: "structure_at bs p off (It_Begin name # is)"
    and ok: "\<forall>i \<in> set (It_Begin name # is). item_ok bs strings off i"
  shows "\<exists>q props children. sb_begin_node bs it p =
      Some (Some (Inr (Begin_Node \<lparr>rn_name = name, rn_props_ptr = props, rn_children_ptr = children\<rparr>)),
            it\<lparr>sb_token_ptr := Some q, sb_prev_token := FDT_BEGIN_NODE\<rparr>)
    \<and> structure_at bs q off (drop_nops is)"
proof -
  have name: "name_ok name" "length name \<le> 51" using ok by simp_all
  obtain rest where "drop p bs = u32_to_be_bytes FDT_BEGIN_NODE @ pad4 (bytes_of_str name @ [0]) @ rest"
    using st by (auto simp: structure_at_def)
  then have d: "drop (p + 4) bs = pad4 (bytes_of_str name @ [0]) @ rest" by (rule drop_after_be32)
  have "read_cstr bs (p + 4) = Some (bytes_of_str name)"
    using name(1) by (intro bytes_take_cstr) (simp_all add: d pad4_def name_ok_def)
  moreover have "to_str (bytes_of_str name) = Some name" using name(1) by (simp add: to_str_def name_ok_def)
  moreover have "name_parts bs p 1 = Some (Some (length name div 4 + 1))"
    by (rule name_parts_at [OF d name]) simp_all
  moreover have "p + 4 * (1 + (length name div 4 + 1)) = p + length (item_bytes off (It_Begin name))"
    by (simp add: next_multiple_of_Suc)
  moreover obtain q where q: "next_non_nop_token bs (p + length (item_bytes off (It_Begin name)))
      = Some (head_token (drop_nops is), q)" "structure_at bs q off (drop_nops is)"
    using next_non_nop_at [OF structure_at_Cons [OF st]] by blast
  moreover obtain r where "next_non_nop_token_without_props bs q = Some (head_token (drop_props (drop_nops is)), r)"
    using next_without_props_at [OF q(2)] ok by (force dest: set_dropWhileD)
  ultimately show ?thesis by (auto simp: sb_begin_node_def)
qed

section \<open>Collecting the structure block\<close>

datatype fdt_event = Ev_Begin string | Ev_End | Ev_Prop string "u8 list"

fun entry_event :: "sb_entry \<Rightarrow> fdt_event" where
  "entry_event (Begin_Node n) = Ev_Begin (rn_name n)"
| "entry_event End_Node = Ev_End"
| "entry_event (Prop_Entry p) = Ev_Prop (rp_name p) (rp_value p)"

fun items_events :: "fdt_item list \<Rightarrow> fdt_event list" where
  "items_events [] = []"
| "items_events (It_Nop # is) = items_events is"
| "items_events (It_Begin name # is) = Ev_Begin name # items_events is"
| "items_events (It_End # is) = Ev_End # items_events is"
| "items_events (It_Prop name v # is) = Ev_Prop name v # items_events is"

lemma items_events_drop_nops: "items_events (drop_nops is) = items_events is"
  by (induction "is") auto

lemma seq_ok_drop_nops: "seq_ok prev (drop_nops is) = seq_ok prev is"
  by (induction "is") auto

lemma items_ok_drop_nops:
  "\<forall>i \<in> set is. item_ok bs strings off i \<Longrightarrow> \<forall>i \<in> set (drop_nops is). item_ok bs strings off i"
  by (auto dest: set_dropWhileD)

lemma sb_next_token:
  assumes "sb_token_ptr it = Some p" "\<not> sb_skip_props it" "sb_prev_token it \<noteq> FDT_END"
    and "next_non_nop_token bs p = Some (token, q)"
  shows "sb_next bs it =
    (if token = FDT_BEGIN_NODE then sb_begin_node bs it q
     else if token = FDT_END_NODE then
       Some (Some (Inr End_Node), it\<lparr>sb_token_ptr := Some (q + 4), sb_prev_token := token\<rparr>)
     else if token = FDT_PROP then sb_prop bs it q
     else if token = FDT_END then
       Some (if sb_prev_token it = FDT_BEGIN_NODE \<or> sb_prev_token it = FDT_PROP then Some (Inl ()) else None,
             it\<lparr>sb_token_ptr := None, sb_prev_token := token\<rparr>)
     else Some (Some (Inl ()), it\<lparr>sb_token_ptr := None, sb_prev_token := token\<rparr>))"
  using assms by (simp add: sb_next_def)

lemma sb_collect_at:
  assumes "structure_at bs p off is" and "\<forall>i \<in> set is. item_ok bs strings off i"
    and "seq_ok (sb_prev_token it) is" and "sb_prev_token it \<noteq> FDT_END"
    and "sb_token_ptr it = Some p" "sb_strings_block it = strings" "\<not> sb_skip_props it"
  shows "\<exists>es. sb_collect bs it = Some (map Inr es) \<and> map entry_event es = items_events is"
  using assms
proof (induction "length is" arbitrary: p "is" it rule: less_induct)
  case less
  obtain q where q: "next_non_nop_token bs p = Some (head_token (drop_nops is), q)"
    "structure_at bs q off (drop_nops is)"
    using next_non_nop_at [OF less.prems(1)] by blast
  note next_def = sb_next_token [OF less.prems(5,7,4) q(1)]
  have ok: "\<forall>i \<in> set (drop_nops is). item_ok bs strings off i"
    by (rule items_ok_drop_nops [OF less.prems(2)])
  have seq: "seq_ok (sb_prev_token it) (drop_nops is)" using less.prems(3) by (simp add: seq_ok_drop_nops)
  have len: "length (drop_nops is) \<le> length is" by (rule length_dropWhile_le)
  have step: "\<exists>es. sb_collect bs it = Some (map Inr es) \<and> map entry_event es = items_events is"
    if "sb_next bs it = Some (Some (Inr e), it1)" "drop_nops is = i # js" "entry_event e # items_events js' = items_events (i # js)"
      "length js' \<le> length js" "structure_at bs q' off js'" "\<forall>i \<in> set js'. item_ok bs strings off i"
      "seq_ok (sb_prev_token it1) js'" "sb_prev_token it1 \<noteq> FDT_END" "sb_token_ptr it1 = Some q'"
      "sb_strings_block it1 = strings" "\<not> sb_skip_props it1" for e it1 i js js' q'
  proof -
    have "length js' < length is" using that(2,4) len by simp
    from less.hyps [OF this that(5-11)] obtain es where
      "sb_collect bs it1 = Some (map Inr es)" "map entry_event es = items_events js'" by blast
    then have "sb_collect bs it = Some (map Inr (e # es))" "map entry_event (e # es) = items_events (i # js)"
      using that(1,3) by (simp_all add: sb_collect.simps [of bs it])
    then show ?thesis using that(2) items_events_drop_nops [of "is"] by metis
  qed
  show ?case
  proof (cases "drop_nops is")
    case Nil
    have "seq_ok (sb_prev_token it) []" using seq unfolding Nil .
    then have "sb_next bs it = Some (None, it\<lparr>sb_token_ptr := None, sb_prev_token := FDT_END\<rparr>)"
      unfolding next_def Nil by (simp add: fdt_tokens)
    then have "sb_collect bs it = Some []" by (simp add: sb_collect.simps [of bs it])
    moreover have "items_events is = []" using items_events_drop_nops [of "is"] unfolding Nil by simp
    ultimately show ?thesis by (intro exI [of _ "[]"]) simp
  next
    case (Cons i js)
    note q' = q(2) [unfolded Cons] and ok' = ok [unfolded Cons] and seq' = seq [unfolded Cons]
    have i: "i \<noteq> It_Nop" using drop_nops_cases [of "is"] Cons by auto
    show ?thesis
    proof (cases i)
      case It_Nop
      with i show ?thesis by simp
    next
      case (It_Begin name)
      obtain r props children where "sb_begin_node bs it q =
          Some (Some (Inr (Begin_Node \<lparr>rn_name = name, rn_props_ptr = props, rn_children_ptr = children\<rparr>)),
                it\<lparr>sb_token_ptr := Some r, sb_prev_token := FDT_BEGIN_NODE\<rparr>)" "structure_at bs r off (drop_nops js)"
        using sb_begin_node_at [of bs q off name js strings it] q' ok' It_Begin by blast
      then have n: "sb_next bs it =
          Some (Some (Inr (Begin_Node \<lparr>rn_name = name, rn_props_ptr = props, rn_children_ptr = children\<rparr>)),
                it\<lparr>sb_token_ptr := Some r, sb_prev_token := FDT_BEGIN_NODE\<rparr>)" and r: "structure_at bs r off (drop_nops js)"
        using It_Begin by (simp_all add: next_def Cons)
      show ?thesis
        using seq' less.prems(6,7) items_ok_drop_nops [of js bs strings off] ok' r length_dropWhile_le [of _ js] It_Begin
        by (intro step [OF n Cons, of "drop_nops js" r]) (simp_all add: fdt_tokens items_events_drop_nops seq_ok_drop_nops)
    next
      case It_End
      then have n: "sb_next bs it = Some (Some (Inr End_Node), it\<lparr>sb_token_ptr := Some (q + 4), sb_prev_token := FDT_END_NODE\<rparr>)"
        by (simp add: next_def Cons fdt_tokens)
      show ?thesis
        using seq' less.prems(6,7) ok' structure_at_Cons [OF q'] It_End
        by (intro step [OF n Cons, of js "q + 4"]) (simp_all add: fdt_tokens)
    next
      case (It_Prop name v)
      have "read_prop bs strings q = Some (\<lparr>rp_name = name, rp_value = v\<rparr>, q + length (item_bytes off (It_Prop name v)))"
        using read_prop_at [of bs q off name v js strings] q' ok' It_Prop by (simp del: item_bytes.simps)
      then have "sb_next bs it = Some (Some (Inr (Prop_Entry \<lparr>rp_name = name, rp_value = v\<rparr>)),
          it\<lparr>sb_token_ptr := Some (q + length (item_bytes off (It_Prop name v))), sb_prev_token := FDT_PROP\<rparr>)"
        using seq' less.prems(6) It_Prop by (simp add: next_def Cons sb_prop_def fdt_tokens del: item_bytes.simps)
      from step [OF this Cons, of js] show ?thesis
        using seq' less.prems(6,7) ok' structure_at_Cons [OF q'] It_Prop by (simp add: fdt_tokens del: item_bytes.simps)
    qed
  qed
qed


section \<open>Trees\<close>

datatype dtree = DNode string "(string \<times> u8 list) list" "dtree list"

fun tree_items :: "dtree \<Rightarrow> fdt_item list" where
  "tree_items (DNode name props children) =
     It_Begin name # map (\<lambda>(n, v). It_Prop n v) props @ concat (map tree_items children) @ [It_End]"

fun tree_events :: "dtree \<Rightarrow> fdt_event list" where
  "tree_events (DNode name props children) =
     Ev_Begin name # map (\<lambda>(n, v). Ev_Prop n v) props @ concat (map tree_events children) @ [Ev_End]"

lemma items_events_append: "items_events (is @ js) = items_events is @ items_events js"
  by (induction "is" rule: items_events.induct) auto

lemma items_events_props: "items_events (map (\<lambda>(n, v). It_Prop n v) ps) = map (\<lambda>(n, v). Ev_Prop n v) ps"
  by (induction ps) auto

lemma items_events_tree: "items_events (tree_items t) = tree_events t"
proof (induction t)
  case (DNode name props children)
  have "items_events (concat (map tree_items children)) = concat (map tree_events children)"
    using DNode by (induction children) (simp_all add: items_events_append)
  then show ?case by (simp add: items_events_append items_events_props)
qed

lemma seq_ok_props: "prev \<noteq> FDT_END_NODE \<Longrightarrow> seq_ok prev (map (\<lambda>(n, v). It_Prop n v) ps @ is) =
    seq_ok (if ps = [] then prev else FDT_PROP) is"
proof (induction ps arbitrary: prev)
  case (Cons q ps)
  have "FDT_PROP \<noteq> FDT_END_NODE" by (simp add: fdt_tokens)
  then show ?case using Cons by (cases q) simp
qed simp

lemma seq_ok_tree: "seq_ok prev (tree_items t @ is) = seq_ok FDT_END_NODE is"
proof (induction t arbitrary: prev "is")
  case (DNode name props children)
  have "seq_ok prev (concat (map tree_items children) @ It_End # is) = seq_ok FDT_END_NODE is" for prev
    using DNode by (induction children arbitrary: prev) simp_all
  then show ?case by (simp add: seq_ok_props fdt_tokens)
qed

text \<open>An encoding of a tree may have \<open>FDT_NOP\<close> tokens anywhere.\<close>

definition encodes :: "fdt_item list \<Rightarrow> dtree \<Rightarrow> bool" where
  "encodes is t \<longleftrightarrow> filter (\<lambda>i. i \<noteq> It_Nop) is = tree_items t"

lemma items_events_filter: "items_events (filter (\<lambda>i. i \<noteq> It_Nop) is) = items_events is"
  by (induction "is" rule: items_events.induct) auto

lemma seq_ok_filter: "seq_ok prev (filter (\<lambda>i. i \<noteq> It_Nop) is) = seq_ok prev is"
  by (induction prev "is" rule: seq_ok.induct) auto

lemma sb_collect_tree:
  assumes "structure_at bs p off is" and "\<forall>i \<in> set is. item_ok bs strings off i" and "encodes is t"
  shows "\<exists>es. sb_collect bs (sb_new (Some p) strings) = Some (map Inr es) \<and> map entry_event es = tree_events t"
proof -
  have "seq_ok 0 is"
    using assms(3) seq_ok_tree [of 0 t "[]"] seq_ok_filter [of 0 "is"] by (simp add: encodes_def fdt_tokens)
  moreover have "items_events is = tree_events t"
    using assms(3) items_events_filter [of "is"] by (simp add: encodes_def items_events_tree)
  ultimately show ?thesis
    using sb_collect_at [OF assms(1,2), of "sb_new (Some p) strings"] by (simp add: sb_new_def fdt_tokens)
qed

end
