(* ===== verification/Device_Tree.thy ===== *)
theory Device_Tree
  imports Fdt_Encoding
begin

text \<open>
  \<open>src/kernel/devicetree/\<close>: the tree of owned nodes the kernel works with, built once from the
  flattened one. A node is boxed and never moves, and children keep a raw pointer to their parent:
  a pointer is here the index of the node in the list of all nodes, in the order of their creation.
  \<open>Property::from_raw\<close> and the typed accessors of a node follow the source arm by arm; the panics
  (\<open>unwrap\<close>, \<open>unreachable!\<close>, a zero chunk size) are the result \<open>None\<close>.
\<close>

section \<open>Property values\<close>

datatype status_value = Status_Okay | Status_Disabled | Status_Reserved | Status_Fail string

record reg_item =
  ri_address :: "u32 list"
  ri_length :: "u32 list"

record ranges_item =
  rg_child_bus_addr :: "u32 list"
  rg_parent_bus_addr :: "u32 list"
  rg_length :: "u32 list"

datatype standard_property =
  Std_Compatible "string list" | Std_Model string | Std_PHandle u32 | Std_Status status_value
  | Std_AddressCells u32 | Std_SizeCells u32 | Std_Reg "reg_item list" | Std_VirtualReg u32
  | Std_Ranges "ranges_item list" | Std_DmaRanges "ranges_item list" | Std_DmaCoherent | Std_DmaNoncoherent
  | Std_Name string | Std_DeviceType string

datatype interrupts_property =
  Int_Interrupts "u32 list" | Int_ExtendedInterrupts "u32 list" | Int_InterruptParent u32
  | Int_InterruptCells u32 | Int_InterruptController | Int_InterruptMap "u32 list" | Int_InterruptMapMask "u32 list"

datatype clock_frequency = Freq_U32 u32 | Freq_U64 u64

datatype misc_property =
  Misc_ClockCells u32 | Misc_ClockFrequency clock_frequency | Misc_BootArgs string
  | Misc_StdoutPath string | Misc_StdinPath string

datatype property_value =
  PV_Standard standard_property | PV_Interrupts interrupts_property | PV_Misc misc_property
  | PV_Unknown "u8 list" | PV_Empty

record dt_property =
  dp_name :: string
  dp_value :: property_value

record dt_node =
  dn_name :: string
  dn_properties :: "dt_property list"
  dn_children :: "nat list"
  dn_parent :: "nat option"

datatype std_prop_error = InvalidStatusValue | RegConversionError

definition status_try_from :: "string \<Rightarrow> std_prop_error + status_value" where
  "status_try_from s =
     (if s = ''okay'' then Inr Status_Okay
      else if s = ''disabled'' then Inr Status_Disabled
      else if s = ''reserved'' then Inr Status_Reserved
      else if take 4 s = ''fail'' then Inr (Status_Fail s)
      else Inl InvalidStatusValue)"

definition clock_frequency_as_u64 :: "clock_frequency \<Rightarrow> u64" where
  "clock_frequency_as_u64 f = (case f of Freq_U32 v \<Rightarrow> ucast v | Freq_U64 v \<Rightarrow> v)"

text \<open>The conversions of cells to numbers; the parts are shifted in, most significant first.\<close>

definition shift_cells :: "u32 list \<Rightarrow> u64" where
  "shift_cells cs = foldl (\<lambda>acc part. push_bit 32 acc OR ucast part) 0 cs"

definition cells_as_u32 :: "u32 list \<Rightarrow> std_prop_error + u32" where
  "cells_as_u32 cs = (case cs of [c] \<Rightarrow> Inr c | _ \<Rightarrow> Inl RegConversionError)"

definition cells_as_u64 :: "u32 list \<Rightarrow> std_prop_error + u64" where
  "cells_as_u64 cs = (if length cs > 2 then Inl RegConversionError else Inr (shift_cells cs))"

definition cells_as_usize :: "u32 list \<Rightarrow> std_prop_error + usize" where
  "cells_as_usize cs = (if length cs * 4 > 8 then Inl RegConversionError else Inr (shift_cells cs))"

definition address_as_u32 :: "reg_item \<Rightarrow> std_prop_error + u32" where
  "address_as_u32 r = cells_as_u32 (ri_address r)"

definition address_as_u64 :: "reg_item \<Rightarrow> std_prop_error + u64" where
  "address_as_u64 r = cells_as_u64 (ri_address r)"

definition address_as_usize :: "reg_item \<Rightarrow> std_prop_error + usize" where
  "address_as_usize r = cells_as_usize (ri_address r)"

definition length_as_u32 :: "reg_item \<Rightarrow> std_prop_error + u32" where
  "length_as_u32 r = cells_as_u32 (ri_length r)"

definition length_as_u64 :: "reg_item \<Rightarrow> std_prop_error + u64" where
  "length_as_u64 r = cells_as_u64 (ri_length r)"

definition length_as_usize :: "reg_item \<Rightarrow> std_prop_error + usize" where
  "length_as_usize r = cells_as_usize (ri_length r)"

definition child_bus_addr_as_usize :: "ranges_item \<Rightarrow> std_prop_error + usize" where
  "child_bus_addr_as_usize r = cells_as_usize (rg_child_bus_addr r)"

definition parent_bus_addr_as_usize :: "ranges_item \<Rightarrow> std_prop_error + usize" where
  "parent_bus_addr_as_usize r = cells_as_usize (rg_parent_bus_addr r)"

definition range_length_as_usize :: "ranges_item \<Rightarrow> std_prop_error + usize" where
  "range_length_as_usize r = cells_as_usize (rg_length r)"


section \<open>Typed accessors\<close>

text \<open>The accessors find the first property of the name and take the value apart; a value of
  another kind is \<open>unreachable!()\<close>.\<close>

definition typed_prop :: "string \<Rightarrow> (property_value \<Rightarrow> 'a option) \<Rightarrow> dt_node \<Rightarrow> 'a option option" where
  "typed_prop name sel n =
     (case List.find (\<lambda>p. dp_name p = name) (dn_properties n) of
        None \<Rightarrow> Some None
      | Some p \<Rightarrow> map_option Some (sel (dp_value p)))"

definition has_prop :: "string \<Rightarrow> dt_node \<Rightarrow> bool" where
  "has_prop name n \<longleftrightarrow> list_ex (\<lambda>p. dp_name p = name) (dn_properties n)"

definition node_compatible :: "dt_node \<Rightarrow> string list option option" where
  "node_compatible = typed_prop ''compatible'' (\<lambda>v. case v of PV_Standard (Std_Compatible c) \<Rightarrow> Some c | _ \<Rightarrow> None)"

definition node_model :: "dt_node \<Rightarrow> string option option" where
  "node_model = typed_prop ''model'' (\<lambda>v. case v of PV_Standard (Std_Model m) \<Rightarrow> Some m | _ \<Rightarrow> None)"

definition node_phandle :: "dt_node \<Rightarrow> u32 option option" where
  "node_phandle = typed_prop ''phandle'' (\<lambda>v. case v of PV_Standard (Std_PHandle h) \<Rightarrow> Some h | _ \<Rightarrow> None)"

definition node_status :: "dt_node \<Rightarrow> status_value option option" where
  "node_status = typed_prop ''status'' (\<lambda>v. case v of PV_Standard (Std_Status s) \<Rightarrow> Some s | _ \<Rightarrow> None)"

definition node_address_cells :: "dt_node \<Rightarrow> u32 option" where
  "node_address_cells n = map_option (\<lambda>c. case c of None \<Rightarrow> 2 | Some v \<Rightarrow> v)
     (typed_prop ''#address-cells'' (\<lambda>v. case v of PV_Standard (Std_AddressCells c) \<Rightarrow> Some c | _ \<Rightarrow> None) n)"

definition node_size_cells :: "dt_node \<Rightarrow> u32 option" where
  "node_size_cells n = map_option (\<lambda>c. case c of None \<Rightarrow> 1 | Some v \<Rightarrow> v)
     (typed_prop ''#size-cells'' (\<lambda>v. case v of PV_Standard (Std_SizeCells c) \<Rightarrow> Some c | _ \<Rightarrow> None) n)"

definition node_reg :: "dt_node \<Rightarrow> reg_item list option option" where
  "node_reg = typed_prop ''reg'' (\<lambda>v. case v of PV_Standard (Std_Reg r) \<Rightarrow> Some r | _ \<Rightarrow> None)"

definition node_virtual_reg :: "dt_node \<Rightarrow> u32 option option" where
  "node_virtual_reg = typed_prop ''virtual-reg'' (\<lambda>v. case v of PV_Standard (Std_VirtualReg r) \<Rightarrow> Some r | _ \<Rightarrow> None)"

definition node_ranges :: "dt_node \<Rightarrow> ranges_item list option option" where
  "node_ranges = typed_prop ''ranges'' (\<lambda>v. case v of PV_Standard (Std_Ranges r) \<Rightarrow> Some r | _ \<Rightarrow> None)"

definition node_dma_ranges :: "dt_node \<Rightarrow> ranges_item list option option" where
  "node_dma_ranges = typed_prop ''dma-ranges'' (\<lambda>v. case v of PV_Standard (Std_DmaRanges r) \<Rightarrow> Some r | _ \<Rightarrow> None)"

definition node_dma_coherent :: "dt_node \<Rightarrow> bool" where
  "node_dma_coherent = has_prop ''dma-coherent''"

definition node_dma_noncoherent :: "dt_node \<Rightarrow> bool" where
  "node_dma_noncoherent = has_prop ''dma-noncoherent''"

definition node_interrupts :: "dt_node \<Rightarrow> u32 list option option" where
  "node_interrupts = typed_prop ''interrupts'' (\<lambda>v. case v of PV_Interrupts (Int_Interrupts i) \<Rightarrow> Some i | _ \<Rightarrow> None)"

definition node_interrupts_extended :: "dt_node \<Rightarrow> u32 list option option" where
  "node_interrupts_extended = typed_prop ''interrupts-extended''
     (\<lambda>v. case v of PV_Interrupts (Int_ExtendedInterrupts i) \<Rightarrow> Some i | _ \<Rightarrow> None)"

definition node_interrupt_parent :: "dt_node \<Rightarrow> u32 option option" where
  "node_interrupt_parent = typed_prop ''interrupt-parent''
     (\<lambda>v. case v of PV_Interrupts (Int_InterruptParent h) \<Rightarrow> Some h | _ \<Rightarrow> None)"

definition node_is_interrupt_controller :: "dt_node \<Rightarrow> bool" where
  "node_is_interrupt_controller = has_prop ''interrupt-controller''"

definition node_interrupt_map :: "dt_node \<Rightarrow> u32 list option option" where
  "node_interrupt_map = typed_prop ''interrupt-map''
     (\<lambda>v. case v of PV_Interrupts (Int_InterruptMap m) \<Rightarrow> Some m | _ \<Rightarrow> None)"

definition node_interrupt_map_mask :: "dt_node \<Rightarrow> u32 list option option" where
  "node_interrupt_map_mask = typed_prop ''interrupt-map-mask''
     (\<lambda>v. case v of PV_Interrupts (Int_InterruptMapMask m) \<Rightarrow> Some m | _ \<Rightarrow> None)"

definition node_interrupt_cells :: "dt_node \<Rightarrow> u32 option option" where
  "node_interrupt_cells = typed_prop ''#interrupt-cells''
     (\<lambda>v. case v of PV_Interrupts (Int_InterruptCells c) \<Rightarrow> Some c | _ \<Rightarrow> None)"

definition node_clock_cells :: "dt_node \<Rightarrow> u32 option option" where
  "node_clock_cells = typed_prop ''#clock-cells'' (\<lambda>v. case v of PV_Misc (Misc_ClockCells c) \<Rightarrow> Some c | _ \<Rightarrow> None)"

definition node_clock_frequency :: "dt_node \<Rightarrow> clock_frequency option option" where
  "node_clock_frequency = typed_prop ''clock-frequency''
     (\<lambda>v. case v of PV_Misc (Misc_ClockFrequency f) \<Rightarrow> Some f | _ \<Rightarrow> None)"

definition node_boot_args :: "dt_node \<Rightarrow> string option option" where
  "node_boot_args = typed_prop ''bootargs'' (\<lambda>v. case v of PV_Misc (Misc_BootArgs s) \<Rightarrow> Some s | _ \<Rightarrow> None)"

definition node_stdout_path :: "dt_node \<Rightarrow> string option option" where
  "node_stdout_path = typed_prop ''stdout-path'' (\<lambda>v. case v of PV_Misc (Misc_StdoutPath s) \<Rightarrow> Some s | _ \<Rightarrow> None)"

definition node_stdin_path :: "dt_node \<Rightarrow> string option option" where
  "node_stdin_path = typed_prop ''stdin-path'' (\<lambda>v. case v of PV_Misc (Misc_StdinPath s) \<Rightarrow> Some s | _ \<Rightarrow> None)"

definition node_node_name :: "dt_node \<Rightarrow> string" where
  "node_node_name n = str_node_name (dn_name n)"

definition node_unit_address :: "dt_node \<Rightarrow> string option" where
  "node_unit_address n = str_unit_address (dn_name n)"

definition node_is_root :: "dt_node \<Rightarrow> bool" where
  "node_is_root n \<longleftrightarrow> dn_parent n = None"


section \<open>Property::from_raw\<close>

definition of_result :: "'e + 'a \<Rightarrow> 'a option" where
  "of_result r = (case r of Inl _ \<Rightarrow> None | Inr x \<Rightarrow> Some x)"

lemma of_result_simps [simp]: "of_result (Inl e) = None" "of_result (Inr x) = Some x"
  by (simp_all add: of_result_def)

definition ok_strings :: "(unit + string) list \<Rightarrow> string list" where
  "ok_strings rs = List.map_filter of_result rs"

definition reg_from_bytes :: "nat \<Rightarrow> nat \<Rightarrow> u8 list \<Rightarrow> reg_item list option" where
  "reg_from_bytes addr_cells len_cells v =
     (if (addr_cells + len_cells) * 4 = 0 then None
      else Some (map (\<lambda>chunk. \<lparr>ri_address = be_cells (take (addr_cells * 4) chunk),
                               ri_length = be_cells (drop (addr_cells * 4) chunk)\<rparr>)
                   (chunks_exact ((addr_cells + len_cells) * 4) v)))"

definition ranges_from_bytes :: "nat \<Rightarrow> nat \<Rightarrow> nat \<Rightarrow> u8 list \<Rightarrow> ranges_item list option" where
  "ranges_from_bytes addr_cells parent_addr_cells len_cells v =
     (if (addr_cells + parent_addr_cells + len_cells) * 4 = 0 then None
      else Some (map (\<lambda>chunk.
                   let rest = drop (addr_cells * 4) chunk in
                   \<lparr>rg_child_bus_addr = be_cells (take (addr_cells * 4) chunk),
                    rg_parent_bus_addr = be_cells (take (parent_addr_cells * 4) rest),
                    rg_length = be_cells (drop (parent_addr_cells * 4) rest)\<rparr>)
                 (chunks_exact ((addr_cells + parent_addr_cells + len_cells) * 4) v)))"

text \<open>\<open>node\<close> is the node under construction, \<open>parent\<close> its parent or, at the root, itself.\<close>

definition property_value_from_raw :: "raw_prop \<Rightarrow> dt_node \<Rightarrow> dt_node \<Rightarrow> property_value option" where
  "property_value_from_raw prop node parent =
     (let name = rp_name prop; v = rp_value prop;
          u32_of = of_result (value_as_u32 v); str_of = of_result (value_as_string v) in
      if name = ''compatible'' then Some (PV_Standard (Std_Compatible (ok_strings (string_list v))))
      else if name = ''model'' then map_option (PV_Standard \<circ> Std_Model) str_of
      else if name = ''phandle'' then map_option (PV_Standard \<circ> Std_PHandle) u32_of
      else if name = ''status'' then
        map_option (PV_Standard \<circ> Std_Status) (Option.bind str_of (\<lambda>s. of_result (status_try_from s)))
      else if name = ''#address-cells'' then map_option (PV_Standard \<circ> Std_AddressCells) u32_of
      else if name = ''#size-cells'' then map_option (PV_Standard \<circ> Std_SizeCells) u32_of
      else if name = ''reg'' then do {
        ac \<leftarrow> node_address_cells parent;
        sc \<leftarrow> node_size_cells parent;
        map_option (PV_Standard \<circ> Std_Reg) (reg_from_bytes (unat ac) (unat sc) v)
      }
      else if name = ''virtual-reg'' then map_option (PV_Standard \<circ> Std_VirtualReg) u32_of
      else if name = ''ranges'' \<or> name = ''dma-ranges'' then do {
        ac \<leftarrow> node_address_cells node;
        pac \<leftarrow> node_address_cells parent;
        sc \<leftarrow> node_size_cells node;
        map_option (PV_Standard \<circ> (if name = ''ranges'' then Std_Ranges else Std_DmaRanges))
          (ranges_from_bytes (unat ac) (unat pac) (unat sc) v)
      }
      else if name = ''dma-coherent'' then Some (PV_Standard Std_DmaCoherent)
      else if name = ''dma-noncoherent'' then Some (PV_Standard Std_DmaNoncoherent)
      else if name = ''interrupts'' then Some (PV_Interrupts (Int_Interrupts (be_cells v)))
      else if name = ''interrupts-extended'' then Some (PV_Interrupts (Int_ExtendedInterrupts (be_cells v)))
      else if name = ''interrupt-parent'' then map_option (PV_Interrupts \<circ> Int_InterruptParent) (of_result (value_as_phandle v))
      else if name = ''#interrupt-cells'' then map_option (PV_Interrupts \<circ> Int_InterruptCells) u32_of
      else if name = ''interrupt-controller'' then Some (PV_Interrupts Int_InterruptController)
      else if name = ''interrupt-map'' then Some (PV_Interrupts (Int_InterruptMap (be_cells v)))
      else if name = ''interrupt-map-mask'' then Some (PV_Interrupts (Int_InterruptMapMask (be_cells v)))
      else if name = ''#clock-cells'' then map_option (PV_Misc \<circ> Misc_ClockCells) u32_of
      else if name = ''clock-frequency'' then
        map_option (PV_Misc \<circ> Misc_ClockFrequency)
          (if length v = 4 then map_option Freq_U32 u32_of
           else if length v = 8 then map_option Freq_U64 (of_result (value_as_u64 v)) else None)
      else if name = ''bootargs'' then map_option (PV_Misc \<circ> Misc_BootArgs) str_of
      else if name = ''stdout-path'' then map_option (PV_Misc \<circ> Misc_StdoutPath) str_of
      else if name = ''stdin-path'' then map_option (PV_Misc \<circ> Misc_StdinPath) str_of
      else if v = [] then Some PV_Empty
      else Some (PV_Unknown v))"

definition property_from_raw :: "raw_prop \<Rightarrow> dt_node \<Rightarrow> dt_node \<Rightarrow> dt_property option" where
  "property_from_raw prop node parent =
     map_option (\<lambda>v. \<lparr>dp_name = rp_name prop, dp_value = v\<rparr>) (property_value_from_raw prop node parent)"

section \<open>Building the tree\<close>

record dt_build =
  bd_nodes :: "dt_node list"
  bd_stack :: "nat list"
  bd_phandles :: "u32 \<rightharpoonup> nat"

definition dt_node_new :: "string \<Rightarrow> nat option \<Rightarrow> dt_node" where
  "dt_node_new name parent = \<lparr>dn_name = name, dn_properties = [], dn_children = [], dn_parent = parent\<rparr>"

definition push_child :: "nat \<Rightarrow> dt_node \<Rightarrow> dt_node" where
  "push_child c n = n\<lparr>dn_children := dn_children n @ [c]\<rparr>"

definition push_property :: "dt_property \<Rightarrow> dt_node \<Rightarrow> dt_node" where
  "push_property p n = n\<lparr>dn_properties := dn_properties n @ [p]\<rparr>"

definition update_node :: "nat \<Rightarrow> (dt_node \<Rightarrow> dt_node) \<Rightarrow> dt_node list \<Rightarrow> dt_node list" where
  "update_node i f ns = ns[i := f (ns ! i)]"

text \<open>\<open>node.parent().unwrap_or(node)\<close>.\<close>

definition parent_or_self :: "dt_node list \<Rightarrow> dt_node \<Rightarrow> dt_node" where
  "parent_or_self ns n = (case dn_parent n of None \<Rightarrow> n | Some p \<Rightarrow> ns ! p)"

datatype build_outcome = Build_Continue dt_build | Build_Done dt_build nat | Build_Error

text \<open>The body of the loop of \<open>from_fdt\<close>; \<open>bd_stack\<close> has the top of \<open>nodes_stack\<close> first.\<close>

definition build_event :: "fdt_event \<Rightarrow> dt_build \<Rightarrow> build_outcome option" where
  "build_event ev b =
     (case ev of
        Ev_Begin name \<Rightarrow>
          let parent = (case bd_stack b of [] \<Rightarrow> None | p # _ \<Rightarrow> Some p) in
          Some (Build_Continue (b\<lparr>bd_nodes := bd_nodes b @ [dt_node_new name parent],
                                  bd_stack := length (bd_nodes b) # bd_stack b\<rparr>))
      | Ev_End \<Rightarrow>
          (case bd_stack b of
             [] \<Rightarrow> Some Build_Error
           | child # rest \<Rightarrow>
               (case rest of
                  [] \<Rightarrow> Some (Build_Done (b\<lparr>bd_stack := rest\<rparr>) child)
                | p # _ \<Rightarrow> Some (Build_Continue
                    (b\<lparr>bd_nodes := update_node p (push_child child) (bd_nodes b), bd_stack := rest\<rparr>))))
      | Ev_Prop name v \<Rightarrow>
          (case bd_stack b of
             [] \<Rightarrow> Some (Build_Continue b)
           | c # _ \<Rightarrow> do {
               let node = bd_nodes b ! c;
               property \<leftarrow> property_from_raw \<lparr>rp_name = name, rp_value = v\<rparr> node (parent_or_self (bd_nodes b) node);
               let phandles =
                 (if dp_name property = ''phandle''
                  then (case value_as_phandle v of Inl _ \<Rightarrow> bd_phandles b | Inr h \<Rightarrow> (bd_phandles b)(h \<mapsto> c))
                  else bd_phandles b);
               Some (Build_Continue
                 (b\<lparr>bd_nodes := update_node c (push_property property) (bd_nodes b), bd_phandles := phandles\<rparr>))
             }))"

partial_function (option) build_loop ::
    "u8 list \<Rightarrow> sb_iter \<Rightarrow> dt_build \<Rightarrow> (unit + dt_build \<times> nat) option" where
  "build_loop bs it b = do {
     (item, it') \<leftarrow> sb_next bs it;
     (case item of
        None \<Rightarrow> Some (Inl ())
      | Some (Inl e) \<Rightarrow> Some (Inl e)
      | Some (Inr entry) \<Rightarrow> do {
          r \<leftarrow> build_event (entry_event entry) b;
          (case r of
             Build_Error \<Rightarrow> Some (Inl ())
           | Build_Done b' root \<Rightarrow> Some (Inr (b', root))
           | Build_Continue b' \<Rightarrow> build_loop bs it' b')
        })
   }"

record device_tree =
  dt_address :: nat
  dt_size :: u32
  dt_version :: u32
  dt_last_comp_version :: u32
  dt_boot_cpuid_phys :: u32
  dt_memory_reservations :: "(usize \<times> usize) list"
  dt_nodes :: "dt_node list"
  dt_root :: nat
  dt_phandle_map :: "u32 \<rightharpoonup> nat"

definition from_fdt :: "fdt \<Rightarrow> (unit + device_tree) option" where
  "from_fdt f = do {
     sz \<leftarrow> fdt_total_size f;
     version \<leftarrow> fdt_version f;
     last_comp_version \<leftarrow> fdt_last_comp_version f;
     boot_cpuid_phys \<leftarrow> fdt_boot_cpuid_phys f;
     reservations \<leftarrow> fdt_memory_reservations f;
     it \<leftarrow> structure_block_iter f;
     r \<leftarrow> build_loop (fdt_bytes f) it \<lparr>bd_nodes = [], bd_stack = [], bd_phandles = Map.empty\<rparr>;
     Some (case r of
       Inl e \<Rightarrow> Inl e
     | Inr (b, root) \<Rightarrow>
         Inr \<lparr>dt_address = fdt_base f, dt_size = sz, dt_version = version,
              dt_last_comp_version = last_comp_version, dt_boot_cpuid_phys = boot_cpuid_phys,
              dt_memory_reservations = reservations, dt_nodes = bd_nodes b, dt_root = root,
              dt_phandle_map = bd_phandles b\<rparr>)
   }"

text \<open>\<open>init_devicetree\<close>: the versions are asserted before the tree is published.\<close>

definition init_devicetree :: "nat \<Rightarrow> u8 list \<Rightarrow> device_tree option" where
  "init_devicetree addr bs = do {
     r \<leftarrow> fdt_new addr bs;
     f \<leftarrow> of_result r;
     t \<leftarrow> from_fdt f;
     dt \<leftarrow> of_result t;
     assert_that (dt_version dt \<ge> 17);
     assert_that (dt_last_comp_version dt = 16);
     Some dt
   }"


section \<open>Looking up nodes\<close>

definition dt_node_at :: "device_tree \<Rightarrow> nat \<Rightarrow> dt_node" where
  "dt_node_at dt i = dt_nodes dt ! i"

definition node_by_phandle :: "device_tree \<Rightarrow> u32 \<Rightarrow> nat option" where
  "node_by_phandle dt phandle = dt_phandle_map dt phandle"

definition find_child :: "device_tree \<Rightarrow> nat \<Rightarrow> string \<Rightarrow> nat option" where
  "find_child dt i name = List.find (\<lambda>c. dn_name (dt_node_at dt c) = name) (dn_children (dt_node_at dt i))"

definition dt_aliases :: "device_tree \<Rightarrow> nat option" where
  "dt_aliases dt = find_child dt (dt_root dt) ''aliases''"

definition dt_chosen :: "device_tree \<Rightarrow> nat option" where
  "dt_chosen dt = find_child dt (dt_root dt) ''chosen''"

definition dt_cpus :: "device_tree \<Rightarrow> nat option" where
  "dt_cpus dt = find_child dt (dt_root dt) ''cpus''"

definition unknown_as_str :: "u8 list \<Rightarrow> unit + string" where
  "unknown_as_str v = res_bind (cstr_from_bytes_with_nul v) (\<lambda>s. ok_or () (to_str s))"

definition to_path :: "device_tree \<Rightarrow> string \<Rightarrow> string option" where
  "to_path dt alias_or_path =
     (if alias_or_path = [] then None
      else if CHR ''/'' \<in> set alias_or_path then Some alias_or_path
      else
        let props = (case dt_aliases dt of None \<Rightarrow> [] | Some a \<Rightarrow> dn_properties (dt_node_at dt a)) in
        case List.find (\<lambda>p. dp_name p = alias_or_path) props of
          None \<Rightarrow> None
        | Some p \<Rightarrow> (case dp_value p of PV_Unknown v \<Rightarrow> of_result (unknown_as_str v) | _ \<Rightarrow> None))"

fun walk_children :: "device_tree \<Rightarrow> nat \<Rightarrow> string list \<Rightarrow> nat option" where
  "walk_children dt i [] = Some i"
| "walk_children dt i (segment # segments) =
     (case find_child dt i segment of None \<Rightarrow> None | Some c \<Rightarrow> walk_children dt c segments)"

definition node_by_path :: "device_tree \<Rightarrow> string \<Rightarrow> nat option" where
  "node_by_path dt path =
     (case to_path dt path of
        None \<Rightarrow> None
      | Some path' \<Rightarrow> walk_children dt (dt_root dt) (path_segments path'))"

text \<open>\<open>Node::path\<close>: the names on the way to the root; a cycle of parents would never end.\<close>

partial_function (option) path_names :: "device_tree \<Rightarrow> nat option \<Rightarrow> string list option" where
  "path_names dt current =
     (case current of
        None \<Rightarrow> Some []
      | Some i \<Rightarrow> do {
          names \<leftarrow> path_names dt (dn_parent (dt_node_at dt i));
          Some ((if dn_name (dt_node_at dt i) \<noteq> [] then [dn_name (dt_node_at dt i)] else []) @ names)
        })"

definition node_path :: "device_tree \<Rightarrow> nat \<Rightarrow> string option" where
  "node_path dt i = do {
     segments \<leftarrow> path_names dt (Some i);
     Some (if segments = [] then ''/'' else concat (map (\<lambda>s. CHR ''/'' # s) (rev segments)))
   }"

text \<open>\<open>Node::iter\<close>: depth first, children in order.\<close>

partial_function (option) node_iter_all :: "device_tree \<Rightarrow> nat list \<Rightarrow> nat list option" where
  "node_iter_all dt stack =
     (case stack of
        [] \<Rightarrow> Some []
      | i # rest \<Rightarrow> do {
          is \<leftarrow> node_iter_all dt (dn_children (dt_node_at dt i) @ rest);
          Some (i # is)
        })"


section \<open>Address translation\<close>

text \<open>\<open>resolve_phys_address_and_length\<close>. The range of an ancestor that holds the address must be
  longer than the length asked for; the sums wrap.\<close>

definition range_contains :: "usize \<Rightarrow> ranges_item \<Rightarrow> bool" where
  "range_contains address r =
     (case (child_bus_addr_as_usize r, parent_bus_addr_as_usize r, range_length_as_usize r) of
        (Inr child, Inr _, Inr len) \<Rightarrow> address \<ge> child \<and> address < child + len
      | _ \<Rightarrow> False)"

text \<open>One ancestor: the address on its parent bus, or \<open>None\<close> where the walk stops.\<close>

definition resolve_step :: "dt_node \<Rightarrow> usize \<Rightarrow> usize \<Rightarrow> usize option option" where
  "resolve_step node len address = do {
     ranges \<leftarrow> node_ranges node;
     (case ranges of
        None \<Rightarrow> Some None
      | Some rs \<Rightarrow>
          (case List.find (range_contains address) rs of
             None \<Rightarrow> Some None
           | Some r \<Rightarrow> do {
               child \<leftarrow> of_result (child_bus_addr_as_usize r);
               parent_addr \<leftarrow> of_result (parent_bus_addr_as_usize r);
               range_len \<leftarrow> of_result (range_length_as_usize r);
               assert_that (range_len > len);
               Some (Some (parent_addr + (address - child)))
             }))
   }"

text \<open>The loop state is the address and the ancestor to visit next.\<close>

partial_function (option) resolve_up :: "device_tree \<Rightarrow> usize \<Rightarrow> usize \<times> nat option \<Rightarrow> usize option" where
  "resolve_up dt len st =
     (case snd st of
        None \<Rightarrow> Some (fst st)
      | Some p \<Rightarrow> do {
          next_addr \<leftarrow> resolve_step (dt_node_at dt p) len (fst st);
          (case next_addr of
             None \<Rightarrow> Some (fst st)
           | Some a \<Rightarrow> resolve_up dt len (a, dn_parent (dt_node_at dt p)))
        })"

definition resolve_phys_address_and_length :: "device_tree \<Rightarrow> nat \<Rightarrow> nat \<Rightarrow> (usize \<times> usize) option option" where
  "resolve_phys_address_and_length dt i reg_index = do {
     reg \<leftarrow> node_reg (dt_node_at dt i);
     (case Option.bind reg (\<lambda>rs. if reg_index < length rs then Some (rs ! reg_index) else None) of
        None \<Rightarrow> Some None
      | Some r \<Rightarrow>
          (case (address_as_usize r, length_as_usize r) of
             (Inr address, Inr len) \<Rightarrow> do {
               a \<leftarrow> resolve_up dt len (address, dn_parent (dt_node_at dt i));
               Some (Some (a, len))
             }
           | _ \<Rightarrow> Some None))
   }"


section \<open>Interrupt specifiers\<close>

text \<open>\<open>Interrupts::iter\<close>.\<close>

definition interrupts_iter :: "u32 list \<Rightarrow> u32 \<Rightarrow> u32 list list option" where
  "interrupts_iter raw interrupt_cells = do {
     assert_that (interrupt_cells > 0);
     Some (chunks_exact (unat interrupt_cells) raw)
   }"

section \<open>The tree that is built\<close>

text \<open>The typed tree: every property converted in the context the kernel has at that point, the
  properties of the node read so far and those of its parent.\<close>

datatype ttree = TNode string "dt_property list" "ttree list"

definition props_node :: "dt_property list \<Rightarrow> dt_node" where
  "props_node ps = \<lparr>dn_name = [], dn_properties = ps, dn_children = [], dn_parent = None\<rparr>"

fun type_props :: "dt_property list option \<Rightarrow> (string \<times> u8 list) list \<Rightarrow> dt_property list \<Rightarrow> dt_property list option" where
  "type_props par [] acc = Some acc"
| "type_props par ((name, v) # ps) acc =
     Option.bind (property_from_raw \<lparr>rp_name = name, rp_value = v\<rparr> (props_node acc)
                    (props_node (case par of None \<Rightarrow> acc | Some q \<Rightarrow> q)))
       (\<lambda>p. type_props par ps (acc @ [p]))"

fun type_tree :: "dt_property list option \<Rightarrow> dtree \<Rightarrow> ttree option"
  and type_forest :: "dt_property list option \<Rightarrow> dtree list \<Rightarrow> ttree list option" where
  "type_tree par (DNode name props children) =
     Option.bind (type_props par props []) (\<lambda>ps.
       map_option (TNode name ps) (type_forest (Some ps) children))"
| "type_forest par [] = Some []"
| "type_forest par (t # ts) =
     Option.bind (type_tree par t) (\<lambda>u. map_option (\<lambda>us. u # us) (type_forest par ts))"

fun represents :: "dt_node list \<Rightarrow> nat \<Rightarrow> nat option \<Rightarrow> ttree \<Rightarrow> bool"
  and represents_list :: "dt_node list \<Rightarrow> nat list \<Rightarrow> nat \<Rightarrow> ttree list \<Rightarrow> bool" where
  "represents ns i par (TNode name ps ts) =
     (i < length ns \<and> dn_name (ns ! i) = name \<and> dn_properties (ns ! i) = ps \<and> dn_parent (ns ! i) = par
      \<and> represents_list ns (dn_children (ns ! i)) i ts)"
| "represents_list ns is par [] = (is = [])"
| "represents_list ns is par (t # ts) =
     (case is of [] \<Rightarrow> False | i # js \<Rightarrow> represents ns i (Some par) t \<and> represents_list ns js par ts)"

fun build_events :: "fdt_event list \<Rightarrow> dt_build \<Rightarrow> (unit + dt_build \<times> nat) option" where
  "build_events [] b = Some (Inl ())"
| "build_events (ev # evs) b =
     Option.bind (build_event ev b) (\<lambda>r.
       case r of
         Build_Error \<Rightarrow> Some (Inl ())
       | Build_Done b' root \<Rightarrow> Some (Inr (b', root))
       | Build_Continue b' \<Rightarrow> build_events evs b')"

lemma build_loop_events:
  "sb_collect bs it = Some (map Inr es) \<Longrightarrow> build_loop bs it b = build_events (map entry_event es) b"
proof (induction es arbitrary: it b)
  case Nil
  then show ?case
    by (subst (asm) sb_collect.simps, subst build_loop.simps)
      (auto simp: bind_eq_Some_conv split: option.splits prod.splits)
next
  case (Cons e es)
  obtain it' where "sb_next bs it = Some (Some (Inr e), it')" "sb_collect bs it' = Some (map Inr es)"
    using Cons.prems
    by (subst (asm) sb_collect.simps) (auto simp: bind_eq_Some_conv split: option.splits)
  moreover from this have "build_loop bs it' = build_events (map entry_event es)"
    using Cons.IH [of it'] by (intro ext) simp
  ultimately show ?case by (subst build_loop.simps) simp
qed

lemma property_from_raw_props:
  "property_from_raw prop node parent = property_from_raw prop (props_node (dn_properties node)) (props_node (dn_properties parent))"
proof -
  have "typed_prop name sel n = typed_prop name sel (props_node (dn_properties n))" for name and sel :: "property_value \<Rightarrow> 'a option" and n
    by (simp add: typed_prop_def props_node_def)
  then have "node_address_cells n = node_address_cells (props_node (dn_properties n))"
    "node_size_cells n = node_size_cells (props_node (dn_properties n))" for n
    by (simp_all add: node_address_cells_def node_size_cells_def typed_prop_def props_node_def)
  then show ?thesis
    by (simp only: property_from_raw_def property_value_from_raw_def)
qed

lemma build_props:
  assumes "c < length ns" and "par = dn_parent (ns ! c)" and "par \<noteq> Some c"
    and "type_props (map_option (\<lambda>p. dn_properties (ns ! p)) par) props (dn_properties (ns ! c)) = Some ps"
  shows "\<exists>ph'. build_events (map (\<lambda>(n, v). Ev_Prop n v) props @ rest) \<lparr>bd_nodes = ns, bd_stack = c # s, bd_phandles = ph\<rparr>
     = build_events rest \<lparr>bd_nodes = ns[c := (ns ! c)\<lparr>dn_properties := ps\<rparr>], bd_stack = c # s, bd_phandles = ph'\<rparr>"
  using assms
proof (induction props arbitrary: ns ph)
  case Nil
  then show ?case by auto
next
  case (Cons q props)
  obtain name v where q: "q = (name, v)" by (cases q)
  let ?raw = "\<lparr>rp_name = name, rp_value = v\<rparr>"
  have "dn_properties (parent_or_self ns (ns ! c)) = (case map_option (\<lambda>p. dn_properties (ns ! p)) par of
      None \<Rightarrow> dn_properties (ns ! c) | Some r \<Rightarrow> r)"
    using Cons.prems(2) by (auto simp: parent_or_self_def split: option.splits)
  then obtain p where p: "property_from_raw ?raw (ns ! c) (parent_or_self ns (ns ! c)) = Some p"
    "type_props (map_option (\<lambda>p. dn_properties (ns ! p)) par) props (dn_properties (ns ! c) @ [p]) = Some ps"
    using Cons.prems(4) property_from_raw_props [of ?raw "ns ! c" "parent_or_self ns (ns ! c)"]
    by (auto simp: q bind_eq_Some_conv)
  define ph1 where "ph1 = (if dp_name p = ''phandle''
    then (case value_as_phandle v of Inl _ \<Rightarrow> ph | Inr h \<Rightarrow> ph(h \<mapsto> c)) else ph)"
  let ?ns = "update_node c (push_property p) ns"
  have step: "build_event (Ev_Prop name v) \<lparr>bd_nodes = ns, bd_stack = c # s, bd_phandles = ph\<rparr>
      = Some (Build_Continue \<lparr>bd_nodes = ?ns, bd_stack = c # s, bd_phandles = ph1\<rparr>)"
    using p(1) by (simp add: build_event_def Let_def ph1_def split: sum.split)
  have nth: "?ns ! c = push_property p (ns ! c)" "length ?ns = length ns" "\<And>i. i \<noteq> c \<Longrightarrow> ?ns ! i = ns ! i"
    using Cons.prems(1) by (simp_all add: update_node_def)
  have par: "map_option (\<lambda>p. dn_properties (?ns ! p)) par = map_option (\<lambda>p. dn_properties (ns ! p)) par"
    using Cons.prems(3) nth(3) by (cases par) auto
  obtain ph' where "build_events (map (\<lambda>(n, v). Ev_Prop n v) props @ rest) \<lparr>bd_nodes = ?ns, bd_stack = c # s, bd_phandles = ph1\<rparr>
     = build_events rest \<lparr>bd_nodes = ?ns[c := (?ns ! c)\<lparr>dn_properties := ps\<rparr>], bd_stack = c # s, bd_phandles = ph'\<rparr>"
    using Cons.IH [of ?ns ph1] Cons.prems p(2) nth par by (auto simp: push_property_def)
  then show ?case
    using step nth by (auto simp: q update_node_def push_property_def)
qed

text \<open>\<open>new\<close> sits at \<open>base\<close> in \<open>ns\<close>; what is represented only looks there.\<close>

definition agrees :: "nat \<Rightarrow> dt_node list \<Rightarrow> dt_node list \<Rightarrow> bool" where
  "agrees base new ns \<longleftrightarrow> base + length new \<le> length ns \<and> (\<forall>i < length new. ns ! (base + i) = new ! i)"

lemma agrees_append_left: "agrees base (new @ new') ns \<Longrightarrow> agrees base new ns"
  by (auto simp: agrees_def nth_append)

lemma agrees_append_right: "agrees base (new @ new') ns \<Longrightarrow> agrees (base + length new) new' ns"
  unfolding agrees_def
proof (intro conjI allI impI)
  fix i assume a: "base + length (new @ new') \<le> length ns \<and> (\<forall>i<length (new @ new'). ns ! (base + i) = (new @ new') ! i)"
    and i: "i < length new'"
  then have "ns ! (base + (length new + i)) = (new @ new') ! (length new + i)" by simp
  then show "ns ! (base + length new + i) = new' ! i" by (simp add: add.assoc)
qed simp

definition rep_tree :: "nat \<Rightarrow> dt_node list \<Rightarrow> nat option \<Rightarrow> ttree \<Rightarrow> bool" where
  "rep_tree base new par t \<longleftrightarrow> (\<forall>ns. agrees base new ns \<longrightarrow> represents ns base par t)"

definition rep_forest :: "nat \<Rightarrow> dt_node list \<Rightarrow> nat list \<Rightarrow> nat \<Rightarrow> ttree list \<Rightarrow> bool" where
  "rep_forest base new ids par ts \<longleftrightarrow> (\<forall>ns. agrees base new ns \<longrightarrow> represents_list ns ids par ts)"

definition add_children :: "nat list \<Rightarrow> dt_node \<Rightarrow> dt_node" where
  "add_children ids n = n\<lparr>dn_children := dn_children n @ ids\<rparr>"

lemma add_children_Nil [simp]: "add_children [] n = n"
  by (simp add: add_children_def)

lemma add_children_push: "add_children ids (push_child c n) = add_children (c # ids) n"
  by (simp add: add_children_def push_child_def)

text \<open>A node with its properties: what the events of a subtree do up to its children.\<close>

lemma build_node_open:
  assumes "type_props (map_option (\<lambda>p. dn_properties (ns ! p)) par) props [] = Some ps"
    and par: "par = (case s of [] \<Rightarrow> None | p # _ \<Rightarrow> Some p)" and lt: "\<forall>p. par = Some p \<longrightarrow> p < length ns"
  shows "\<exists>ph'. build_events (Ev_Begin name # map (\<lambda>(n, v). Ev_Prop n v) props @ rest) \<lparr>bd_nodes = ns, bd_stack = s, bd_phandles = ph\<rparr>
     = build_events rest \<lparr>bd_nodes = ns @ [\<lparr>dn_name = name, dn_properties = ps, dn_children = [], dn_parent = par\<rparr>],
         bd_stack = length ns # s, bd_phandles = ph'\<rparr>"
proof -
  let ?c = "length ns" and ?ns = "ns @ [dt_node_new name par]"
  have "map_option (\<lambda>p. dn_properties (?ns ! p)) par = map_option (\<lambda>p. dn_properties (ns ! p)) par"
    using lt by (cases par) (simp_all add: nth_append)
  moreover have "?ns ! ?c = dt_node_new name par" by simp
  ultimately have "type_props (map_option (\<lambda>p. dn_properties (?ns ! p)) par) props (dn_properties (?ns ! ?c)) = Some ps"
    using assms(1) by (simp add: dt_node_new_def)
  then obtain ph' where "build_events (map (\<lambda>(n, v). Ev_Prop n v) props @ rest) \<lparr>bd_nodes = ?ns, bd_stack = ?c # s, bd_phandles = ph\<rparr>
     = build_events rest \<lparr>bd_nodes = ?ns[?c := (?ns ! ?c)\<lparr>dn_properties := ps\<rparr>], bd_stack = ?c # s, bd_phandles = ph'\<rparr>"
    using build_props [of ?c ?ns par props ps rest s ph] lt by (auto simp: dt_node_new_def)
  then show ?thesis
    by (auto simp: build_event_def Let_def par [symmetric] dt_node_new_def)
qed

lemma build_tree_forest:
  shows "par = Some (dn_properties (ns ! p)) \<Longrightarrow> type_tree par t = Some tt \<Longrightarrow> p < length ns \<Longrightarrow>
    \<exists>new ph'. build_events (tree_events t @ rest) \<lparr>bd_nodes = ns, bd_stack = p # s, bd_phandles = ph\<rparr>
        = build_events rest \<lparr>bd_nodes = update_node p (push_child (length ns)) ns @ new, bd_stack = p # s, bd_phandles = ph'\<rparr>
      \<and> rep_tree (length ns) new (Some p) tt"
    and "par = Some (dn_properties (ns ! p)) \<Longrightarrow> type_forest par ts = Some tts \<Longrightarrow> p < length ns \<Longrightarrow>
    \<exists>new ids ph'. build_events (concat (map tree_events ts) @ rest) \<lparr>bd_nodes = ns, bd_stack = p # s, bd_phandles = ph\<rparr>
        = build_events rest \<lparr>bd_nodes = update_node p (add_children ids) ns @ new, bd_stack = p # s, bd_phandles = ph'\<rparr>
      \<and> rep_forest (length ns) new ids p tts"
proof (induction par t and par ts arbitrary: ns p s ph rest tt and ns p s ph rest tts
    rule: type_tree_type_forest.induct)
  case (1 par name props children)
  obtain ps tts where ps: "type_props par props [] = Some ps" and tts: "type_forest (Some ps) children = Some tts"
    and tt: "tt = TNode name ps tts"
    using "1.prems"(2) by (auto simp: bind_eq_Some_conv)
  let ?c = "length ns" and ?n = "\<lparr>dn_name = name, dn_properties = ps, dn_children = [], dn_parent = Some p\<rparr>"
  have "\<exists>ph'. build_events (Ev_Begin name # map (\<lambda>(n, v). Ev_Prop n v) props @ concat (map tree_events children) @ Ev_End # rest)
        \<lparr>bd_nodes = ns, bd_stack = p # s, bd_phandles = ph\<rparr>
      = build_events (concat (map tree_events children) @ Ev_End # rest)
          \<lparr>bd_nodes = ns @ [?n], bd_stack = ?c # p # s, bd_phandles = ph'\<rparr>"
    using ps "1.prems"(1,3) by (intro build_node_open) auto
  then obtain ph1 where open_: "build_events (tree_events (DNode name props children) @ rest)
        \<lparr>bd_nodes = ns, bd_stack = p # s, bd_phandles = ph\<rparr>
      = build_events (concat (map tree_events children) @ Ev_End # rest)
          \<lparr>bd_nodes = ns @ [?n], bd_stack = ?c # p # s, bd_phandles = ph1\<rparr>"
    by auto
  have "Some ps = Some (dn_properties ((ns @ [?n]) ! ?c))" by simp
  from "1.IH" [OF ps this tts, where s = "p # s" and ph = ph1 and rest = "Ev_End # rest"] obtain new ids ph' where
    forest: "build_events (concat (map tree_events children) @ Ev_End # rest)
          \<lparr>bd_nodes = ns @ [?n], bd_stack = ?c # p # s, bd_phandles = ph1\<rparr>
      = build_events (Ev_End # rest) \<lparr>bd_nodes = update_node ?c (add_children ids) (ns @ [?n]) @ new,
          bd_stack = ?c # p # s, bd_phandles = ph'\<rparr>"
    and rep: "rep_forest (Suc ?c) new ids ?c tts" by auto
  let ?n' = "add_children ids ?n"
  have upd: "update_node ?c (add_children ids) (ns @ [?n]) = ns @ [?n']" by (simp add: update_node_def)
  have "build_events (Ev_End # rest) \<lparr>bd_nodes = (ns @ [?n']) @ new, bd_stack = ?c # p # s, bd_phandles = ph'\<rparr>
      = build_events rest \<lparr>bd_nodes = update_node p (push_child ?c) ns @ ?n' # new, bd_stack = p # s, bd_phandles = ph'\<rparr>"
    using "1.prems"(3) by (simp add: build_event_def update_node_def list_update_append1 nth_append)
  moreover have "rep_tree ?c (?n' # new) (Some p) tt"
    unfolding rep_tree_def
  proof (intro allI impI)
    fix ns' assume ag: "agrees ?c (?n' # new) ns'"
    then have "ns' ! ?c = ?n'" "?c < length ns'" by (force simp: agrees_def)+
    moreover have "agrees (Suc ?c) new ns'" using agrees_append_right [of ?c "[?n']" new ns'] ag by simp
    ultimately show "represents ns' ?c (Some p) tt"
      using rep by (simp add: tt rep_forest_def add_children_def)
  qed
  ultimately show ?case using open_ forest upd by (intro exI [of _ "?n' # new"] exI [of _ ph']) simp
next
  case (2 par)
  then show ?case
    by (intro exI [of _ "[]"] exI [of _ ph]) (simp add: update_node_def rep_forest_def)
next
  case (3 par t ts)
  obtain u us where u: "type_tree par t = Some u" and us: "type_forest par ts = Some us" and tts: "tts = u # us"
    using "3.prems"(2) by (auto simp: bind_eq_Some_conv)
  obtain new1 ph1 where tree: "build_events (tree_events t @ (concat (map tree_events ts) @ rest))
        \<lparr>bd_nodes = ns, bd_stack = p # s, bd_phandles = ph\<rparr>
      = build_events (concat (map tree_events ts) @ rest)
          \<lparr>bd_nodes = update_node p (push_child (length ns)) ns @ new1, bd_stack = p # s, bd_phandles = ph1\<rparr>"
    and rep1: "rep_tree (length ns) new1 (Some p) u"
    using "3.IH"(1) [OF "3.prems"(1) u "3.prems"(3)] by blast
  let ?ns1 = "update_node p (push_child (length ns)) ns @ new1"
  have nth: "?ns1 ! p = push_child (length ns) (ns ! p)" "p < length ?ns1" "length ?ns1 = length ns + length new1"
    using "3.prems"(3) by (simp_all add: update_node_def nth_append)
  have "par = Some (dn_properties (?ns1 ! p))" using "3.prems"(1) nth(1) by (simp add: push_child_def)
  from "3.IH"(2) [OF u this us nth(2)] obtain new2 ids ph2 where
    forest: "build_events (concat (map tree_events ts) @ rest) \<lparr>bd_nodes = ?ns1, bd_stack = p # s, bd_phandles = ph1\<rparr>
      = build_events rest \<lparr>bd_nodes = update_node p (add_children ids) ?ns1 @ new2, bd_stack = p # s, bd_phandles = ph2\<rparr>"
    and rep2: "rep_forest (length ?ns1) new2 ids p us" by blast
  have "update_node p (add_children ids) ?ns1 @ new2 = update_node p (add_children (length ns # ids)) ns @ (new1 @ new2)"
    using "3.prems"(3) by (simp add: update_node_def list_update_append1 nth_append add_children_push)
  moreover have "rep_forest (length ns) (new1 @ new2) (length ns # ids) p tts"
    using rep1 rep2 unfolding rep_forest_def rep_tree_def tts nth(3)
    by (auto dest: agrees_append_left agrees_append_right)
  ultimately show ?case using tree forest
    by (intro exI [of _ "new1 @ new2"] exI [of _ "length ns # ids"] exI [of _ ph2]) simp
qed

lemma build_root:
  assumes "type_tree None t = Some tt"
  shows "\<exists>b. build_events (tree_events t @ rest) \<lparr>bd_nodes = [], bd_stack = [], bd_phandles = Map.empty\<rparr> = Some (Inr (b, 0))
    \<and> represents (bd_nodes b) 0 None tt"
proof -
  obtain name props children where t: "t = DNode name props children" by (cases t)
  obtain ps tts where ps: "type_props None props [] = Some ps" and tts: "type_forest (Some ps) children = Some tts"
    and tt: "tt = TNode name ps tts"
    using assms by (auto simp: t bind_eq_Some_conv)
  let ?n = "\<lparr>dn_name = name, dn_properties = ps, dn_children = [], dn_parent = None\<rparr>"
  let ?b = "\<lparr>bd_nodes = [], bd_stack = [], bd_phandles = Map.empty\<rparr>"
  note build_node_open [of "[]" None props ps "[]" name "concat (map tree_events children) @ Ev_End # rest" Map.empty]
  then obtain ph1 where open_: "build_events (tree_events t @ rest) ?b
      = build_events (concat (map tree_events children) @ Ev_End # rest)
          \<lparr>bd_nodes = [?n], bd_stack = [0], bd_phandles = ph1\<rparr>"
    using ps by (auto simp: t)
  have "Some ps = Some (dn_properties ([?n] ! 0))" by simp
  from build_tree_forest(2) [OF this tts, where s = "[]" and ph = ph1 and rest = "Ev_End # rest"] obtain new ids ph' where
    "build_events (concat (map tree_events children) @ Ev_End # rest) \<lparr>bd_nodes = [?n], bd_stack = [0], bd_phandles = ph1\<rparr>
      = build_events (Ev_End # rest) \<lparr>bd_nodes = update_node 0 (add_children ids) [?n] @ new, bd_stack = [0], bd_phandles = ph'\<rparr>"
    and rep: "rep_forest 1 new ids 0 tts" by auto
  then have "build_events (tree_events t @ rest) ?b =
      Some (Inr (\<lparr>bd_nodes = add_children ids ?n # new, bd_stack = [], bd_phandles = ph'\<rparr>, 0))"
    using open_ by (simp add: build_event_def update_node_def)
  moreover have "agrees 1 new (add_children ids ?n # new)" by (simp add: agrees_def)
  then have "represents (add_children ids ?n # new) 0 None tt"
    using rep by (simp add: tt rep_forest_def add_children_def)
  ultimately show ?thesis by auto
qed

text \<open>What the map of phandles holds.\<close>

definition phandles_sound :: "dt_build \<Rightarrow> bool" where
  "phandles_sound b \<longleftrightarrow> (\<forall>c \<in> set (bd_stack b). c < length (bd_nodes b))
     \<and> (\<forall>h i. bd_phandles b h = Some i \<longrightarrow> i < length (bd_nodes b)
          \<and> (\<exists>p \<in> set (dn_properties (bd_nodes b ! i)). dp_name p = ''phandle'' \<and> dp_value p = PV_Standard (Std_PHandle h)))"

definition outcome_build :: "build_outcome \<Rightarrow> dt_build option" where
  "outcome_build r = (case r of Build_Continue b \<Rightarrow> Some b | Build_Done b _ \<Rightarrow> Some b | Build_Error \<Rightarrow> None)"

lemma phandle_value:
  "property_from_raw \<lparr>rp_name = name, rp_value = v\<rparr> node parent = Some p \<Longrightarrow> dp_name p = ''phandle'' \<Longrightarrow>
     value_as_phandle v = Inr h \<Longrightarrow> dp_value p = PV_Standard (Std_PHandle h)"
  by (auto simp: property_from_raw_def property_value_from_raw_def value_as_phandle_def)

lemma phandles_sound_step:
  assumes "phandles_sound b" and "build_event ev b = Some r" and "outcome_build r = Some b'"
  shows "phandles_sound b'"
proof (cases ev)
  case (Ev_Begin name)
  with assms show ?thesis
    by (auto simp: build_event_def Let_def outcome_build_def phandles_sound_def nth_append less_Suc_eq)
next
  case Ev_End
  with assms show ?thesis
    by (auto simp: build_event_def outcome_build_def phandles_sound_def update_node_def push_child_def
        nth_list_update split: list.splits)
next
  case (Ev_Prop name v)
  show ?thesis
  proof (cases "bd_stack b")
    case Nil
    with assms Ev_Prop show ?thesis by (auto simp: build_event_def outcome_build_def)
  next
    case (Cons c s)
    let ?n = "bd_nodes b ! c"
    obtain p where p: "property_from_raw \<lparr>rp_name = name, rp_value = v\<rparr> ?n (parent_or_self (bd_nodes b) ?n) = Some p"
      and b': "b' = b\<lparr>bd_nodes := update_node c (push_property p) (bd_nodes b),
        bd_phandles := (if dp_name p = ''phandle''
          then (case value_as_phandle v of Inl _ \<Rightarrow> bd_phandles b | Inr h \<Rightarrow> (bd_phandles b)(h \<mapsto> c)) else bd_phandles b)\<rparr>"
      using assms(2,3) Ev_Prop Cons by (auto simp: build_event_def Let_def bind_eq_Some_conv outcome_build_def)
    have c: "c < length (bd_nodes b)" using assms(1) Cons by (simp add: phandles_sound_def)
    have "\<exists>q \<in> set (dn_properties (update_node c (push_property p) (bd_nodes b) ! i)). dp_name q = ''phandle'' \<and> dp_value q = PV_Standard (Std_PHandle h)"
      if "bd_phandles b h = Some i" for h i
      using assms(1) that c by (auto simp: phandles_sound_def update_node_def push_property_def nth_list_update)
    moreover have "\<exists>q \<in> set (dn_properties (update_node c (push_property p) (bd_nodes b) ! c)). dp_name q = ''phandle'' \<and> dp_value q = PV_Standard (Std_PHandle h)"
      if "dp_name p = ''phandle''" "value_as_phandle v = Inr h" for h
      using phandle_value [OF p that] that(1) c by (simp add: update_node_def push_property_def)
    ultimately show ?thesis
      using assms(1) c by (auto simp: phandles_sound_def b' update_node_def split: sum.splits if_splits)
  qed
qed

lemma phandles_sound_events:
  "build_events evs b = Some (Inr (b', root)) \<Longrightarrow> phandles_sound b \<Longrightarrow> phandles_sound b'"
proof (induction evs arbitrary: b)
  case (Cons ev evs)
  then obtain r where r: "build_event ev b = Some r" by (auto simp: bind_eq_Some_conv)
  with Cons.prems Cons.IH phandles_sound_step [OF Cons.prems(2) r] show ?case
    by (cases r) (auto simp: outcome_build_def)
qed simp

lemma phandles_sound_loop:
  assumes "build_loop bs it b = Some r"
  shows "\<forall>b' root. r = Inr (b', root) \<longrightarrow> phandles_sound b \<longrightarrow> phandles_sound b'"
proof (rule build_loop.raw_induct [OF _ assms,
    where P = "\<lambda>bs it b r. \<forall>b' root. r = Inr (b', root) \<longrightarrow> phandles_sound b \<longrightarrow> phandles_sound b'"])
  fix rec :: "u8 list \<Rightarrow> sb_iter \<Rightarrow> dt_build \<Rightarrow> (unit + dt_build \<times> nat) option"
  fix bs it b r
  assume IH: "\<And>bs it b r. rec bs it b = Some r \<Longrightarrow> \<forall>b' root. r = Inr (b', root) \<longrightarrow> phandles_sound b \<longrightarrow> phandles_sound b'"
    and body: "Option.bind (sb_next bs it) (\<lambda>(item, it').
        case item of None \<Rightarrow> Some (Inl ()) | Some (Inl e) \<Rightarrow> Some (Inl e)
        | Some (Inr entry) \<Rightarrow> Option.bind (build_event (entry_event entry) b) (\<lambda>r.
            case r of Build_Continue b' \<Rightarrow> rec bs it' b' | Build_Done b' root \<Rightarrow> Some (Inr (b', root))
            | Build_Error \<Rightarrow> Some (Inl ()))) = Some r"
  show "\<forall>b' root. r = Inr (b', root) \<longrightarrow> phandles_sound b \<longrightarrow> phandles_sound b'"
  proof (intro allI impI)
    fix b' root assume r: "r = Inr (b', root)" and b: "phandles_sound b"
    obtain item it' where n: "sb_next bs it = Some (item, it')"
      using body by (auto simp: bind_eq_Some_conv)
    then obtain entry where i: "item = Some (Inr entry)"
      using body r by (simp split: option.splits sum.splits)
    obtain o' where step: "build_event (entry_event entry) b = Some o'"
      and rest: "(case o' of Build_Continue b' \<Rightarrow> rec bs it' b' | Build_Done b' root \<Rightarrow> Some (Inr (b', root))
            | Build_Error \<Rightarrow> Some (Inl ())) = Some r"
      using body n i by (auto simp: bind_eq_Some_conv)
    show "phandles_sound b'"
      using rest r b IH phandles_sound_step [OF b step] by (cases o') (auto simp: outcome_build_def)
  qed
qed


section \<open>Paths\<close>

lemma represents_child:
  assumes "represents_list ns is par ts" and "c \<in> set is"
  shows "\<exists>t. represents ns c (Some par) t"
  using assms by (induction ts arbitrary: "is") (auto split: list.splits)

lemma represents_facts:
  assumes "represents ns i par t"
  shows "i < length ns" "dn_parent (ns ! i) = par" "\<And>c. c \<in> set (dn_children (ns ! i)) \<Longrightarrow> \<exists>u. represents ns c (Some i) u"
  using assms represents_child by (cases t; auto)+

lemma walk_children_path:
  assumes "walk_children dt i segs = Some j" and "represents (dt_nodes dt) i par t" and "[] \<notin> set segs"
    and "path_names dt (Some i) = Some names"
  shows "path_names dt (Some j) = Some (rev segs @ names)"
  using assms
proof (induction segs arbitrary: i par t names)
  case (Cons s segs)
  obtain c where c: "find_child dt i s = Some c" "walk_children dt c segs = Some j"
    using Cons.prems(1) by (auto split: option.splits)
  then have c': "c \<in> set (dn_children (dt_nodes dt ! i))" "dn_name (dt_nodes dt ! c) = s"
    using find_SomeD unfolding find_child_def dt_node_at_def by fastforce+
  obtain u where u: "represents (dt_nodes dt) c (Some i) u"
    using represents_facts(3) [OF Cons.prems(2) c'(1)] by blast
  have "path_names dt (Some c) = Some (s # names)"
    using represents_facts(2) [OF u] c'(2) Cons.prems(3,4)
    by (subst path_names.simps) (auto simp: dt_node_at_def)
  with Cons.IH [OF c(2) u] Cons.prems(3) show ?case by simp
qed simp

lemma split_char_segments: "s \<in> set (split_char c xs) \<Longrightarrow> c \<notin> set s"
  by (induction xs arbitrary: s) (auto split: if_splits list.splits)

lemma path_segments_concat:
  assumes "\<forall>s \<in> set segs. s \<noteq> [] \<and> CHR ''/'' \<notin> set s"
  shows "path_segments (concat (map (\<lambda>s. CHR ''/'' # s) segs)) = segs"
proof -
  have "filter (\<lambda>s. s \<noteq> []) (split_char CHR ''/'' (xs @ concat (map (\<lambda>s. CHR ''/'' # s) segs)))
      = filter (\<lambda>s. s \<noteq> []) (xs # segs)" if "CHR ''/'' \<notin> set xs" for xs
    using assms that
  proof (induction segs arbitrary: xs)
    case Nil
    then show ?case by (simp add: split_char_no_sep)
  next
    case (Cons s segs)
    have "split_char CHR ''/'' (xs @ concat (map (\<lambda>s. CHR ''/'' # s) (s # segs)))
        = xs # split_char CHR ''/'' (s @ concat (map (\<lambda>s. CHR ''/'' # s) segs))"
      using split_char_append_sep [OF Cons.prems(2)] by simp
    then show ?case using Cons.IH [of s] Cons.prems by simp
  qed
  from this [of "[]"] assms show ?thesis by (auto simp: path_segments_def filter_id_conv)
qed


text \<open>What \<open>from_fdt\<close> returns for a well-formed encoding, in terms of the events of the tree.\<close>

lemma from_fdt_events:
  assumes "fdt_total_size f = Some sz" "fdt_version f = Some v" "fdt_last_comp_version f = Some lc"
    and "fdt_boot_cpuid_phys f = Some cpu" "fdt_memory_reservations f = Some rsv"
    and "structure_block_iter f = Some (sb_new (Some p) strings)"
    and "structure_at (fdt_bytes f) p off is" and "\<forall>i \<in> set is. item_ok (fdt_bytes f) strings off i"
    and "encodes is t"
    and "build_events (tree_events t) \<lparr>bd_nodes = [], bd_stack = [], bd_phandles = Map.empty\<rparr> = Some (Inr (b, root))"
  shows "from_fdt f = Some (Inr \<lparr>dt_address = fdt_base f, dt_size = sz, dt_version = v, dt_last_comp_version = lc,
    dt_boot_cpuid_phys = cpu, dt_memory_reservations = rsv, dt_nodes = bd_nodes b, dt_root = root,
    dt_phandle_map = bd_phandles b\<rparr>)"
proof -
  obtain es where es: "sb_collect (fdt_bytes f) (sb_new (Some p) strings) = Some (map Inr es)"
    "map entry_event es = tree_events t"
    using sb_collect_tree [OF assms(7-9)] by blast
  then show ?thesis
    using assms(1-6,10) build_loop_events [OF es(1)] es(2) by (simp add: from_fdt_def)
qed


section \<open>Properties\<close>

text \<open>C2: Reading a flattened tree and building the device tree from it gives back the tree that was
  encoded, whatever \<open>FDT_NOP\<close> tokens the encoding has: same names, same nesting and order of
  children, every parent pointer set, and every property with the value \<open>Property::from_raw\<close> gives it.\<close>

theorem from_fdt_builds_tree:
  assumes "fdt_total_size f = Some sz" "fdt_version f = Some v" "fdt_last_comp_version f = Some lc"
    and "fdt_boot_cpuid_phys f = Some cpu" "fdt_memory_reservations f = Some rsv"
    and "structure_block_iter f = Some (sb_new (Some p) strings)"
    and "structure_at (fdt_bytes f) p off is" and "\<forall>i \<in> set is. item_ok (fdt_bytes f) strings off i"
    and "encodes is t" and "type_tree None t = Some tt"
  shows "\<exists>dt. from_fdt f = Some (Inr dt) \<and> represents (dt_nodes dt) (dt_root dt) None tt
    \<and> dt_memory_reservations dt = rsv \<and> dt_version dt = v \<and> dt_last_comp_version dt = lc \<and> dt_size dt = sz"
proof -
  obtain b where "build_events (tree_events t) \<lparr>bd_nodes = [], bd_stack = [], bd_phandles = Map.empty\<rparr> = Some (Inr (b, 0))"
    "represents (bd_nodes b) 0 None tt"
    using build_root [OF assms(10), of "[]"] by auto
  then show ?thesis using from_fdt_events [OF assms(1-9)] by simp
qed

text \<open>A small blob: a root with one property and a \<open>NOP\<close>.\<close>

definition example_items :: "fdt_item list" where
  "example_items = [It_Begin [], It_Prop ''phandle'' [0, 0, 0, 7], It_Nop, It_End]"

definition example_header :: "u32 list" where
  "example_header = [FDT_MAGIC, 100, 56, 92, 40, 17, 16, 0, 8, 36]"

definition example_fdt :: fdt where
  "example_fdt = \<lparr>fdt_base = 0x8000, fdt_bytes =
     concat (map u32_to_be_bytes example_header) @ replicate 16 0
     @ items_bytes (\<lambda>_. 0) example_items @ u32_to_be_bytes FDT_END @ bytes_of_str ''phandle'' @ [0]\<rparr>"

lemma read_be32_words:
  "k < length ws \<Longrightarrow> read_be32 (concat (map u32_to_be_bytes ws) @ rest) (4 * k) = Some (ws ! k)"
proof (induction ws arbitrary: k)
  case (Cons w ws)
  show ?case
  proof (cases k)
    case 0
    then show ?thesis by (simp add: read_be32_at [of 0 _ w])
  next
    case (Suc j)
    have "read_be32 (u32_to_be_bytes w @ xs) (4 + m) = read_be32 xs m" for xs m
      by (auto simp: read_be32_def read_slice_def)
    then show ?thesis using Cons Suc by simp
  qed
qed simp

lemma example_header_reads:
  "fdt_total_size example_fdt = Some 100" "fdt_structure_block_offset example_fdt = Some 56"
  "fdt_strings_block_offset example_fdt = Some 92" "fdt_mem_rsv_map_offset example_fdt = Some 40"
  "fdt_version example_fdt = Some 17" "fdt_last_comp_version example_fdt = Some 16"
  "fdt_boot_cpuid_phys example_fdt = Some 0"
  using read_be32_words [of 1 example_header] read_be32_words [of 2 example_header] read_be32_words [of 3 example_header]
    read_be32_words [of 4 example_header] read_be32_words [of 5 example_header] read_be32_words [of 6 example_header]
    read_be32_words [of 7 example_header]
  by (simp_all add: example_fdt_def fdt_total_size_def fdt_structure_block_offset_def fdt_strings_block_offset_def
      fdt_mem_rsv_map_offset_def fdt_version_def fdt_last_comp_version_def fdt_boot_cpuid_phys_def)
     (simp_all add: example_header_def)

lemma example_drops:
  "drop 40 (fdt_bytes example_fdt) = replicate 16 0 @ items_bytes (\<lambda>_. 0) example_items
     @ u32_to_be_bytes FDT_END @ bytes_of_str ''phandle'' @ [0]"
  "drop 56 (fdt_bytes example_fdt) = items_bytes (\<lambda>_. 0) example_items
     @ u32_to_be_bytes FDT_END @ bytes_of_str ''phandle'' @ [0]"
  "drop 92 (fdt_bytes example_fdt) = bytes_of_str ''phandle'' @ [0]"
proof -
  have len: "length (concat (map u32_to_be_bytes example_header)) = 40"
    by (simp add: example_header_def)
  have items: "length (items_bytes (\<lambda>_. 0) example_items) = 32"
    by (simp add: example_items_def next_multiple_of_def)
  show "drop 40 (fdt_bytes example_fdt) = replicate 16 0 @ items_bytes (\<lambda>_. 0) example_items
     @ u32_to_be_bytes FDT_END @ bytes_of_str ''phandle'' @ [0]"
    "drop 56 (fdt_bytes example_fdt) = items_bytes (\<lambda>_. 0) example_items
     @ u32_to_be_bytes FDT_END @ bytes_of_str ''phandle'' @ [0]"
    "drop 92 (fdt_bytes example_fdt) = bytes_of_str ''phandle'' @ [0]"
    using len items by (simp_all add: example_fdt_def)
qed

lemma example_reservations: "fdt_memory_reservations example_fdt = Some []"
proof -
  have "drop 40 (fdt_bytes example_fdt) = replicate 8 0 @ replicate 8 0 @ items_bytes (\<lambda>_. 0) example_items
     @ u32_to_be_bytes FDT_END @ bytes_of_str ''phandle'' @ [0]"
    unfolding example_drops(1) by (simp flip: replicate_add append_assoc)
  note d = this
  have d48: "drop 48 (fdt_bytes example_fdt) = replicate 8 0 @ items_bytes (\<lambda>_. 0) example_items
     @ u32_to_be_bytes FDT_END @ bytes_of_str ''phandle'' @ [0]"
    using drop_after [OF d] by simp
  have z: "u64_from_be_bytes (replicate 8 0) = 0"
    by (simp add: u64_from_be_bytes_def be_nat_def numeral_eq_Suc)
  have "read_be64 (fdt_bytes example_fdt) 40 = Some 0" "read_be64 (fdt_bytes example_fdt) 48 = Some 0"
    using read_slice_drop [OF d] read_slice_drop [OF d48] z by (simp_all add: read_be64_def)
  then show ?thesis
    by (simp add: fdt_memory_reservations_def example_header_reads reserve_next_def reserve_collect.simps)
qed

lemma example_encoding:
  "structure_block_iter example_fdt = Some (sb_new (Some 56) 92)"
  "structure_at (fdt_bytes example_fdt) 56 (\<lambda>_. 0) example_items"
  "\<forall>i \<in> set example_items. item_ok (fdt_bytes example_fdt) 92 (\<lambda>_. 0) i"
  "encodes example_items (DNode [] [(''phandle'', [0, 0, 0, 7])] [])"
proof -
  have utf8: "utf8_valid (bytes_of_str ''phandle'')" "0 \<notin> set (bytes_of_str ''phandle'')"
    by (simp_all add: bytes_of_str_def)
  have "read_cstr (fdt_bytes example_fdt) 92 = Some (bytes_of_str ''phandle'')"
    using example_drops(3) utf8(2) by (intro bytes_take_cstr) auto
  then show "\<forall>i \<in> set example_items. item_ok (fdt_bytes example_fdt) 92 (\<lambda>_. 0) i"
    using utf8 by (simp add: example_items_def name_ok_def) (simp add: bytes_of_str_def)
  show "structure_at (fdt_bytes example_fdt) 56 (\<lambda>_. 0) example_items"
    unfolding structure_at_def example_drops(2) by auto
qed (simp_all add: structure_block_iter_def structure_iter_at_def example_header_reads encodes_def example_items_def)

lemma example_property:
  "property_from_raw \<lparr>rp_name = ''phandle'', rp_value = [0, 0, 0, 7]\<rparr> node par
     = Some \<lparr>dp_name = ''phandle'', dp_value = PV_Standard (Std_PHandle 7)\<rparr>"
  by (simp add: property_from_raw_def property_value_from_raw_def Let_def value_as_u32_def u32_from_be_bytes_def be_nat_def)

theorem from_fdt_builds_tree_witness:
  "\<exists>dt tt. type_tree None (DNode [] [(''phandle'', [0, 0, 0, 7])] []) = Some tt
     \<and> from_fdt example_fdt = Some (Inr dt) \<and> represents (dt_nodes dt) (dt_root dt) None tt"
proof -
  have tt: "type_tree None (DNode [] [(''phandle'', [0, 0, 0, 7])] [])
      = Some (TNode [] [\<lparr>dp_name = ''phandle'', dp_value = PV_Standard (Std_PHandle 7)\<rparr>] [])"
    by (simp add: example_property)
  show ?thesis
    using from_fdt_builds_tree [OF example_header_reads(1,5,6,7) example_reservations example_encoding tt] tt by blast
qed

text \<open>The tree the example blob stands for, read by evaluating the events.\<close>

lemma example_tree:
  "\<exists>dt. from_fdt example_fdt = Some (Inr dt) \<and> node_by_phandle dt 7 = Some 0"
proof -
  have "value_as_phandle [0, 0, 0, 7] = Inr 7"
    by (simp add: value_as_phandle_def value_as_u32_def u32_from_be_bytes_def be_nat_def)
  then have "build_events (tree_events (DNode [] [(''phandle'', [0, 0, 0, 7])] []))
      \<lparr>bd_nodes = [], bd_stack = [], bd_phandles = Map.empty\<rparr>
    = Some (Inr (\<lparr>bd_nodes = [push_property \<lparr>dp_name = ''phandle'', dp_value = PV_Standard (Std_PHandle 7)\<rparr> (dt_node_new [] None)],
        bd_stack = [], bd_phandles = [7 \<mapsto> 0]\<rparr>, 0))"
    by (simp add: build_event_def example_property update_node_def)
  from from_fdt_events [OF example_header_reads(1,5,6,7) example_reservations example_encoding this]
  show ?thesis by (simp add: node_by_phandle_def)
qed

text \<open>A phandle lookup never leads astray: the node found exists and carries a \<open>phandle\<close> property
  with exactly the value asked for, for any blob \<open>from_fdt\<close> accepts.\<close>

theorem node_by_phandle_sound:
  assumes "from_fdt f = Some (Inr dt)" and "node_by_phandle dt h = Some i"
  shows "i < length (dt_nodes dt) \<and> (\<exists>p \<in> set (dn_properties (dt_node_at dt i)).
    dp_name p = ''phandle'' \<and> dp_value p = PV_Standard (Std_PHandle h))"
proof -
  obtain sz v lc cpu rsv it r where r:
    "build_loop (fdt_bytes f) it \<lparr>bd_nodes = [], bd_stack = [], bd_phandles = Map.empty\<rparr> = Some r"
    "(case r of Inl e \<Rightarrow> Inl e | Inr (b, root) \<Rightarrow>
        Inr \<lparr>dt_address = fdt_base f, dt_size = sz, dt_version = v, dt_last_comp_version = lc,
             dt_boot_cpuid_phys = cpu, dt_memory_reservations = rsv, dt_nodes = bd_nodes b, dt_root = root,
             dt_phandle_map = bd_phandles b\<rparr>) = Inr dt"
    using assms(1) unfolding from_fdt_def bind_eq_Some_conv option.inject by blast
  then obtain b root where b: "build_loop (fdt_bytes f) it \<lparr>bd_nodes = [], bd_stack = [], bd_phandles = Map.empty\<rparr> = Some (Inr (b, root))"
    "dt_nodes dt = bd_nodes b" "dt_phandle_map dt = bd_phandles b"
    by (cases r) auto
  have "phandles_sound b"
    using phandles_sound_loop [OF b(1)] by (simp add: phandles_sound_def)
  then show ?thesis
    using assms(2) b(2,3) by (auto simp: phandles_sound_def node_by_phandle_def dt_node_at_def)
qed

theorem node_by_phandle_sound_witness:
  "\<exists>dt. from_fdt example_fdt = Some (Inr dt) \<and> node_by_phandle dt 7 = Some 0 \<and> 0 < length (dt_nodes dt)
     \<and> list_ex (\<lambda>p. dp_name p = ''phandle'' \<and> dp_value p = PV_Standard (Std_PHandle 7)) (dn_properties (dt_node_at dt 0))"
proof -
  obtain dt where dt: "from_fdt example_fdt = Some (Inr dt)" "node_by_phandle dt 7 = Some 0"
    using example_tree by blast
  from node_by_phandle_sound [OF this] dt show ?thesis by (auto simp: list_ex_iff)
qed

text \<open>C14: \<open>Node::path\<close> is the inverse of \<open>node_by_path\<close>: the path of a node found by any path or alias
  is the normalised form of the way taken, and looking it up finds the same node.\<close>

theorem node_path_roundtrip:
  assumes "represents (dt_nodes dt) (dt_root dt) None (TNode [] ps ts)" and "node_by_path dt path = Some i"
  shows "\<exists>q. node_path dt i = Some q \<and> node_by_path dt q = Some i
    \<and> (\<exists>path'. to_path dt path = Some path' \<and> path_segments q = path_segments path')"
proof -
  obtain path' where path': "to_path dt path = Some path'"
    "walk_children dt (dt_root dt) (path_segments path') = Some i"
    using assms(2) by (auto simp: node_by_path_def split: option.splits)
  let ?segs = "path_segments path'"
  have segs: "\<forall>s \<in> set ?segs. s \<noteq> [] \<and> CHR ''/'' \<notin> set s"
    using split_char_segments by (auto simp: path_segments_def)
  have "path_names dt (Some (dt_root dt)) = Some []"
    using assms(1) by (subst path_names.simps) (simp add: dt_node_at_def path_names.simps)
  then have names: "path_names dt (Some i) = Some (rev ?segs)"
    using walk_children_path [OF path'(2) assms(1)] segs by auto
  define q where "q = (if ?segs = [] then ''/'' else concat (map (\<lambda>s. CHR ''/'' # s) ?segs))"
  have "node_path dt i = Some q" using names by (auto simp: node_path_def q_def)
  moreover have "path_segments q = ?segs"
    using path_segments_concat [OF segs] by (auto simp: q_def path_segments_def)
  moreover have "to_path dt q = Some q"
    using segs by (cases ?segs) (auto simp: to_path_def q_def)
  ultimately show ?thesis using path' by (auto simp: node_by_path_def)
qed

definition example_bus_tree :: device_tree where
  "example_bus_tree = \<lparr>dt_address = 0, dt_size = 0, dt_version = 17, dt_last_comp_version = 16,
     dt_boot_cpuid_phys = 0, dt_memory_reservations = [],
     dt_nodes = [\<lparr>dn_name = '''', dn_properties = [], dn_children = [1], dn_parent = None\<rparr>,
       \<lparr>dn_name = ''soc'', dn_properties = [\<lparr>dp_name = ''ranges'', dp_value = PV_Standard (Std_Ranges
            [\<lparr>rg_child_bus_addr = [0x7e000000], rg_parent_bus_addr = [0x3f000000], rg_length = [0x1000]\<rparr>])\<rparr>],
          dn_children = [2], dn_parent = Some 0\<rparr>,
       \<lparr>dn_name = ''serial'', dn_properties = [\<lparr>dp_name = ''reg'', dp_value = PV_Standard (Std_Reg
            [\<lparr>ri_address = [0x7e000000], ri_length = [0x1000]\<rparr>])\<rparr>],
          dn_children = [], dn_parent = Some 1\<rparr>],
     dt_root = 0, dt_phandle_map = Map.empty\<rparr>"

theorem node_path_roundtrip_witness:
  "\<exists>q. node_path example_bus_tree 2 = Some q \<and> node_by_path example_bus_tree q = Some 2
     \<and> path_segments q = [''soc'', ''serial'']"
proof -
  have find: "node_by_path example_bus_tree ''/soc//serial'' = Some 2"
    by (simp add: node_by_path_def to_path_def path_segments_def example_bus_tree_def find_child_def dt_node_at_def)
  have path: "to_path example_bus_tree ''/soc//serial'' = Some ''/soc//serial''"
    by (simp add: to_path_def)
  have segs: "path_segments ''/soc//serial'' = [''soc'', ''serial'']" by (simp add: path_segments_def)
  have "represents (dt_nodes example_bus_tree) (dt_root example_bus_tree) None
      (TNode [] [] [TNode ''soc'' (dn_properties (dt_nodes example_bus_tree ! 1))
        [TNode ''serial'' (dn_properties (dt_nodes example_bus_tree ! 2)) []]])"
    by (simp add: example_bus_tree_def)
  from node_path_roundtrip [OF this find] path segs show ?thesis by (metis option.inject)
qed

text \<open>\<open>resolve_phys_address_and_length\<close> panics when a device fills its bus window exactly: a range
  of the parent that is as long as the \<open>reg\<close> entry it holds fails the assertion, though the
  comment on the function assumes the two lengths are always equal.\<close>

theorem resolve_panics_on_exact_fit:
  assumes "dn_parent (dt_node_at dt i) = Some p"
    and "node_reg (dt_node_at dt i) = Some (Some [\<lparr>ri_address = [a], ri_length = [n]\<rparr>])"
    and "node_ranges (dt_node_at dt p) = Some (Some [\<lparr>rg_child_bus_addr = [a], rg_parent_bus_addr = pa, rg_length = [n]\<rparr>])"
    and "length pa \<le> 2" and "0 < n"
  shows "resolve_phys_address_and_length dt i 0 = None"
proof -
  let ?r = "\<lparr>rg_child_bus_addr = [a], rg_parent_bus_addr = pa, rg_length = [n]\<rparr>"
  have n: "unat (ucast n :: usize) = unat n" "unat (ucast a :: usize) = unat a"
    by simp_all
  have "unat a + unat n < 18446744073709551616"
    using unat_less_32 [of a] unat_less_32 [of n] by linarith
  then have "unat (ucast a + ucast n :: usize) = unat a + unat n"
    by (simp only: unat_word_ariths n) simp
  then have "range_contains (ucast a) ?r"
    using assms(4,5) n by (simp add: range_contains_def child_bus_addr_as_usize_def parent_bus_addr_as_usize_def
        range_length_as_usize_def cells_as_usize_def shift_cells_def word_less_nat_alt)
  then have "resolve_step (dt_node_at dt p) (ucast n) (ucast a) = None"
    using assms(3,4) by (simp add: resolve_step_def child_bus_addr_as_usize_def parent_bus_addr_as_usize_def
        range_length_as_usize_def cells_as_usize_def shift_cells_def)
  then have "resolve_up dt (ucast n) (ucast a, Some p) = None" by (simp add: resolve_up.simps)
  then show ?thesis
    using assms(1,2) by (simp add: resolve_phys_address_and_length_def address_as_usize_def length_as_usize_def
        cells_as_usize_def shift_cells_def)
qed

theorem resolve_panics_on_exact_fit_witness:
  "resolve_phys_address_and_length example_bus_tree 2 0 = None"
  by (rule resolve_panics_on_exact_fit [where p = 1 and a = "0x7e000000" and n = "0x1000" and pa = "[0x3f000000]"])
    (simp_all add: example_bus_tree_def dt_node_at_def node_reg_def node_ranges_def typed_prop_def)

text \<open>\<open>from_raw\<close> reads \<open>ranges\<close> with the cell counts of the properties before it: a node that states
  \<open>#address-cells\<close> after \<open>ranges\<close> loses its translation, although the order of properties means
  nothing in a device tree.\<close>

theorem ranges_depend_on_property_order:
  "\<exists>par cells ranges ps qs.
     type_props (Some par) [cells, ranges] [] = Some ps \<and> type_props (Some par) [ranges, cells] [] = Some qs
   \<and> node_ranges (props_node ps) = Some (Some [\<lparr>rg_child_bus_addr = [0x7e000000], rg_parent_bus_addr = [0x3f000000], rg_length = [0x1000000]\<rparr>])
   \<and> node_ranges (props_node qs) = Some (Some [])"
proof -
  let ?par = "[\<lparr>dp_name = ''#address-cells'', dp_value = PV_Standard (Std_AddressCells 1)\<rparr>]"
  let ?cells = "(''#address-cells'', [0, 0, 0, 1] :: u8 list)"
  let ?v = "[0x7e, 0, 0, 0, 0x3f, 0, 0, 0, 1, 0, 0, 0] :: u8 list"
  let ?c = "\<lparr>dp_name = ''#address-cells'', dp_value = PV_Standard (Std_AddressCells 1)\<rparr>"
  let ?item = "\<lparr>rg_child_bus_addr = [0x7e000000], rg_parent_bus_addr = [0x3f000000], rg_length = [0x1000000]\<rparr>"
  note ev = property_from_raw_def property_value_from_raw_def node_address_cells_def node_size_cells_def
    typed_prop_def props_node_def value_as_u32_def u32_from_be_bytes_def be_nat_def Let_def
  have c: "property_from_raw \<lparr>rp_name = fst ?cells, rp_value = snd ?cells\<rparr> (props_node acc) par = Some ?c" for acc par
    by (simp add: ev)
  have ch: "chunks_exact 12 ?v = [?v]" "chunks_exact 16 ?v = []"
    by (subst chunks_exact.simps; simp add: chunks_exact_short)+
  have ch4: "chunks_exact 4 [a, b, x, d] = [[a, b, x, d]]" for a b x d :: u8
    by (subst chunks_exact.simps) (simp add: chunks_exact_short)
  have r1: "property_from_raw \<lparr>rp_name = ''ranges'', rp_value = ?v\<rparr> (props_node [?c]) (props_node ?par)
      = Some \<lparr>dp_name = ''ranges'', dp_value = PV_Standard (Std_Ranges [?item])\<rparr>"
    by (simp add: ev ranges_from_bytes_def be_cells_def ch ch4)
  have r2: "property_from_raw \<lparr>rp_name = ''ranges'', rp_value = ?v\<rparr> (props_node []) (props_node ?par)
      = Some \<lparr>dp_name = ''ranges'', dp_value = PV_Standard (Std_Ranges [])\<rparr>"
    by (simp add: ev ranges_from_bytes_def ch)
  show ?thesis
    by (intro exI [of _ ?par] exI [of _ ?cells] exI [of _ "(''ranges'', ?v)"]
        exI [of _ "[?c, \<lparr>dp_name = ''ranges'', dp_value = PV_Standard (Std_Ranges [?item])\<rparr>]"]
        exI [of _ "[\<lparr>dp_name = ''ranges'', dp_value = PV_Standard (Std_Ranges [])\<rparr>, ?c]"])
      (simp add: c [simplified] r1 r2 node_ranges_def typed_prop_def props_node_def [of "[a, b]" for a b])
qed

end
