(* ===== verification/Mmio.thy ===== *)
theory Mmio
  imports Kruspix_Prelude
begin

text \<open>Memory-mapped registers. The device behind a register block is a parameter: its state \<open>'d\<close> and
  what a volatile read or write of an address does to it. A read may change the state, as that of a
  FIFO does.\<close>

record 'd bus =
  bus_read :: "usize \<Rightarrow> 'd \<Rightarrow> u32 \<times> 'd"
  bus_write :: "usize \<Rightarrow> u32 \<Rightarrow> 'd \<Rightarrow> 'd"

text \<open>A block of plain registers, which keep what is written to them.\<close>

definition ram_bus :: "(usize \<Rightarrow> u32) bus" where
  "ram_bus = \<lparr>bus_read = (\<lambda>a d. (d a, d)), bus_write = (\<lambda>a v d. d(a := v))\<rparr>"

lemma ram_bus_simps [simp]:
  "bus_read ram_bus a d = (d a, d)" "bus_write ram_bus a v d = d(a := v)"
  by (simp_all add: ram_bus_def)

text \<open>\<open>u32::trailing_zeros\<close>.\<close>

definition trailing_zeros :: "u32 \<Rightarrow> nat" where
  "trailing_zeros w = length (takeWhile (\<lambda>i. \<not> bit w i) [0..<32])"

lemma trailing_zeros_spec:
  assumes "w \<noteq> 0"
  shows "trailing_zeros w < 32" "bit w (trailing_zeros w)" "j < trailing_zeros w \<Longrightarrow> \<not> bit w j"
proof -
  let ?p = "\<lambda>i. \<not> bit w i"
  have "\<exists>i < 32. bit w i"
  proof (rule ccontr)
    assume "\<not> (\<exists>i < 32. bit w i)"
    then have "w = 0" by (intro bit_word_eqI) simp
    with assms show False ..
  qed
  then have "takeWhile ?p [0..<32] \<noteq> [0..<32]"
    by (metis atLeastLessThan_iff atLeastLessThan_upt set_takeWhileD zero_le)
  then have *: "length (takeWhile ?p [0..<32]) < length [0..<32::nat]"
    by (metis length_takeWhile_le nat_less_le take_all_iff takeWhile_eq_take)
  then show "trailing_zeros w < 32" by (simp add: trailing_zeros_def)
  show "bit w (trailing_zeros w)"
    using nth_length_takeWhile [OF *] * by (simp add: trailing_zeros_def)
  show "\<not> bit w j" if "j < trailing_zeros w"
    using that takeWhile_nth [of j ?p "[0..<32]"] nth_mem [of j "takeWhile ?p [0..<32]"] *
    by (auto simp: trailing_zeros_def dest!: set_takeWhileD)
qed

lemma trailing_zeros_unique:
  assumes "bit w k" "\<forall>j < k. \<not> bit w j" shows "trailing_zeros w = k"
proof -
  have "w \<noteq> 0" using assms(1) by auto
  from trailing_zeros_spec [OF this] assms show ?thesis by (metis linorder_neqE_nat)
qed

end
