(* ===== verification/Drivers.thy ===== *)
theory Drivers
  imports Device_Tree
begin

text \<open>The driver framework (\<open>drivers/mod.rs\<close>): the registry of a driver's devices, the device manager's
  bindings, matching a node with a driver and the retry loop of \<open>init_platform_drivers\<close>. Messages to
  the console are left out; locks are taken and released around each operation.\<close>

datatype driver_init_error =
  DeviceReserved | DeviceDisabled | DeviceFailed | Retry | DeviceTreeError | ToDo


section \<open>The registry of a driver\<close>

text \<open>\<open>DriverRegistry<T>\<close>: a map from the path of the node to the device.\<close>

type_synonym 'a registry = "string \<rightharpoonup> 'a"

definition registry_new :: "'a registry" where
  "registry_new = Map.empty"

definition add_device :: "string \<Rightarrow> 'a \<Rightarrow> 'a registry \<Rightarrow> 'a registry" where
  "add_device i dev r = r(i \<mapsto> dev)"

definition remove_device :: "string \<Rightarrow> 'a registry \<Rightarrow> 'a option \<times> 'a registry" where
  "remove_device i r = (r i, r(i := None))"

definition registry_get :: "string \<Rightarrow> 'a registry \<Rightarrow> 'a option" where
  "registry_get i r = r i"


section \<open>Platform drivers\<close>

text \<open>A \<open>PlatformDriver\<close>: its compatible list and its methods over a state \<open>'w\<close>; the result \<open>None\<close> of a
  method is a panic. \<open>local_setup\<close> is the method of the device \<open>'v\<close>.\<close>

record ('w, 'v) platform_driver =
  pd_compatible :: "string list"
  pd_try_init :: "nat \<Rightarrow> 'w \<Rightarrow> ((driver_init_error + unit) \<times> 'w) option"
  pd_get_device :: "string \<Rightarrow> 'w \<Rightarrow> 'v option"
  pd_local_setup :: "'v \<Rightarrow> 'w \<Rightarrow> ((driver_init_error + unit) \<times> 'w) option"

text \<open>The default method \<open>local_init\<close>.\<close>

definition local_init :: "('w, 'v) platform_driver \<Rightarrow> string \<Rightarrow> 'w \<Rightarrow> ((driver_init_error + unit) \<times> 'w) option" where
  "local_init d i w =
     (case pd_get_device d i w of
        None \<Rightarrow> Some (Inr (), w)
      | Some dev \<Rightarrow> pd_local_setup d dev w)"

text \<open>The compatible lists of \<open>PLATFORM_DRIVERS\<close>, in its order.\<close>

definition platform_compatibles :: "string list list" where
  "platform_compatibles =
     [[''brcm,bcm2836-l1-intc''], [''brcm,bcm2836-armctrl-ic''], [''fixed-clock''], [''brcm,bcm2835-aux''],
      [''arm,armv7-timer''], [''brcm,bcm2835-system-timer''], [''brcm,bcm2835-pm-wdt''], [''brcm,bcm2835-rng''],
      [''brcm,bcm2835-aux-uart''], [''brcm,bcm2835-mbox''], [''raspberrypi,bcm2835-firmware''],
      [''brcm,bcm2835-dma''], [''brcm,bcm2708-fb''], [''brcm,bcm2708-usb'']]"


text \<open>\<open>match_driver\<close>: for the node's compatible strings in their order, the first driver that lists it. A
  driver is its index in the list.\<close>

definition driver_for :: "('w, 'v) platform_driver list \<Rightarrow> string \<Rightarrow> nat option" where
  "driver_for ds compatible =
     List.find (\<lambda>k. compatible \<in> set (pd_compatible (ds ! k))) [0..<length ds]"

fun first_driver :: "('w, 'v) platform_driver list \<Rightarrow> string list \<Rightarrow> nat option" where
  "first_driver ds [] = None"
| "first_driver ds (c # cs) = (case driver_for ds c of Some k \<Rightarrow> Some k | None \<Rightarrow> first_driver ds cs)"

definition match_driver :: "('w, 'v) platform_driver list \<Rightarrow> dt_node \<Rightarrow> nat option option" where
  "match_driver ds n = do {
     compatible \<leftarrow> node_compatible n;
     Some (case compatible of None \<Rightarrow> None | Some cs \<Rightarrow> first_driver ds cs)
   }"


section \<open>The device manager\<close>

text \<open>\<open>DEVICE_MANAGER\<close> holds the bindings, here with the world the drivers act on.\<close>

record 'w device_manager =
  dm_bindings :: "(nat \<times> string) list"
  dm_world :: 'w

definition register_device :: "nat \<Rightarrow> string \<Rightarrow> 'w device_manager \<Rightarrow> 'w device_manager" where
  "register_device k path m = m\<lparr>dm_bindings := dm_bindings m @ [(k, path)]\<rparr>"

fun init_bindings :: "('w, 'v) platform_driver list \<Rightarrow> (nat \<times> string) list \<Rightarrow> 'w
    \<Rightarrow> ((driver_init_error + unit) \<times> 'w) option" where
  "init_bindings ds [] w = Some (Inr (), w)"
| "init_bindings ds ((k, i) # bs) w = do {
     (r, w') \<leftarrow> local_init (ds ! k) i w;
     (case r of Inl e \<Rightarrow> Some (Inl e, w') | Inr _ \<Rightarrow> init_bindings ds bs w')
   }"

definition init_local_devices :: "('w, 'v) platform_driver list \<Rightarrow> 'w device_manager
    \<Rightarrow> ((driver_init_error + unit) \<times> 'w device_manager) option" where
  "init_local_devices ds m = do {
     (r, w) \<leftarrow> init_bindings ds (dm_bindings m) (dm_world m);
     Some (r, m\<lparr>dm_world := w\<rparr>)
   }"

fun find_bound :: "('w, 'v) platform_driver list \<Rightarrow> 'w \<Rightarrow> string \<Rightarrow> (nat \<times> string) list \<Rightarrow> 'v option" where
  "find_bound ds w path [] = None"
| "find_bound ds w path ((k, p) # bs) =
     (case (if p = path then pd_get_device (ds ! k) p w else None) of
        Some dev \<Rightarrow> Some dev
      | None \<Rightarrow> find_bound ds w path bs)"

definition manager_get_device :: "('w, 'v) platform_driver list \<Rightarrow> string \<Rightarrow> 'w device_manager \<Rightarrow> 'v option" where
  "manager_get_device ds path m = find_bound ds (dm_world m) path (dm_bindings m)"


section \<open>Initialising the platform drivers\<close>

text \<open>The nodes to initialise: those with a compatible list whose status is absent or \<open>okay\<close>.\<close>

definition wants_driver :: "dt_node \<Rightarrow> bool option" where
  "wants_driver n = do {
     compatible \<leftarrow> node_compatible n;
     (case compatible of
        None \<Rightarrow> Some False
      | Some _ \<Rightarrow> do {
          status \<leftarrow> node_status n;
          Some (case status of None \<Rightarrow> True | Some s \<Rightarrow> s = Status_Okay)
        })
   }"

fun filter_option :: "('a \<Rightarrow> bool option) \<Rightarrow> 'a list \<Rightarrow> 'a list option" where
  "filter_option P [] = Some []"
| "filter_option P (x # xs) = do {
     b \<leftarrow> P x;
     ys \<leftarrow> filter_option P xs;
     Some (if b then x # ys else ys)
   }"

definition uninitialized_nodes :: "device_tree \<Rightarrow> nat list option" where
  "uninitialized_nodes dt = do {
     nodes \<leftarrow> node_iter_all dt [dt_root dt];
     filter_option (\<lambda>i. wants_driver (dt_node_at dt i)) nodes
   }"

text \<open>The closure of \<open>retain\<close>: whether the node stays, whether there was progress, and the state.\<close>

definition try_node :: "device_tree \<Rightarrow> ('w, 'v) platform_driver list \<Rightarrow> nat \<Rightarrow> 'w device_manager
    \<Rightarrow> (bool \<times> bool \<times> 'w device_manager) option" where
  "try_node dt ds n m = do {
     driver \<leftarrow> match_driver ds (dt_node_at dt n);
     (case driver of
        None \<Rightarrow> Some (False, False, m)
      | Some k \<Rightarrow> do {
          (r, w) \<leftarrow> pd_try_init (ds ! k) n (dm_world m);
          let m' = m\<lparr>dm_world := w\<rparr>;
          (case r of
             Inr _ \<Rightarrow> do {
               path \<leftarrow> node_path dt n;
               Some (False, True, register_device k path m')
             }
           | Inl Retry \<Rightarrow> Some (True, False, m')
           | Inl _ \<Rightarrow> Some (False, False, m'))
        })
   }"

fun init_round :: "device_tree \<Rightarrow> ('w, 'v) platform_driver list \<Rightarrow> nat list \<Rightarrow> bool \<Rightarrow> 'w device_manager
    \<Rightarrow> (nat list \<times> bool \<times> 'w device_manager) option" where
  "init_round dt ds [] progress m = Some ([], progress, m)"
| "init_round dt ds (n # ns) progress m = do {
     (keep, success, m') \<leftarrow> try_node dt ds n m;
     (kept, progress', m'') \<leftarrow> init_round dt ds ns (progress \<or> success) m';
     Some (if keep then n # kept else kept, progress', m'')
   }"

text \<open>The three outcomes of an attempt.\<close>

lemma try_node_cases:
  assumes "try_node dt ds n m = Some (keep, success, m')"
  obtains (No_Driver) "match_driver ds (dt_node_at dt n) = Some None" "\<not> keep" "\<not> success" "m' = m"
  | (Bound) k w path where "match_driver ds (dt_node_at dt n) = Some (Some k)" "node_path dt n = Some path"
      "pd_try_init (ds ! k) n (dm_world m) = Some (Inr (), w)" "\<not> keep" "success"
      "m' = m\<lparr>dm_world := w, dm_bindings := dm_bindings m @ [(k, path)]\<rparr>"
  | (Again) k w where "match_driver ds (dt_node_at dt n) = Some (Some k)" "keep" "\<not> success"
      "pd_try_init (ds ! k) n (dm_world m) = Some (Inl Retry, w)" "m' = m\<lparr>dm_world := w\<rparr>"
  | (Refused) k e w where "match_driver ds (dt_node_at dt n) = Some (Some k)" "e \<noteq> Retry" "\<not> keep" "\<not> success"
      "pd_try_init (ds ! k) n (dm_world m) = Some (Inl e, w)" "m' = m\<lparr>dm_world := w\<rparr>"
proof -
  obtain driver where d: "match_driver ds (dt_node_at dt n) = Some driver"
    using assms by (cases "match_driver ds (dt_node_at dt n)") (simp_all add: try_node_def)
  show thesis
  proof (cases driver)
    case None
    with assms d No_Driver show thesis by (simp add: try_node_def)
  next
    case (Some k)
    then obtain r w where r: "pd_try_init (ds ! k) n (dm_world m) = Some (r, w)"
      using assms d by (cases "pd_try_init (ds ! k) n (dm_world m)") (auto simp: try_node_def)
    show thesis
    proof (cases r)
      case (Inr u)
      then obtain path where "node_path dt n = Some path"
        using assms d r Some by (cases "node_path dt n") (simp_all add: try_node_def)
      with assms d r Some Inr Bound [of k path w] show thesis
        by (simp add: try_node_def register_device_def)
    next
      case (Inl e)
      show thesis
      proof (cases "e = Retry")
        case True
        with assms d r Some Inl Again show thesis by (simp add: try_node_def)
      next
        case False
        then have "keep = False \<and> success = False \<and> m' = m\<lparr>dm_world := w\<rparr>"
          using assms d r Some Inl by (cases e) (simp_all add: try_node_def)
        with d r Some Inl False Refused [of k e w] show thesis by simp
      qed
    qed
  qed
qed

lemma try_node_progress: "try_node dt ds n m = Some (keep, success, m') \<Longrightarrow> success \<Longrightarrow> \<not> keep"
  by (elim try_node_cases) simp_all

lemma init_round_shrinks:
  "init_round dt ds ns progress m = Some (kept, progress', m') \<Longrightarrow>
     length kept \<le> length ns \<and> (progress' \<and> \<not> progress \<longrightarrow> length kept < length ns) \<and> (progress \<longrightarrow> progress')"
proof (induction ns arbitrary: progress m kept)
  case (Cons n ns)
  then obtain keep success m1 kept1 where 1: "try_node dt ds n m = Some (keep, success, m1)"
    "init_round dt ds ns (progress \<or> success) m1 = Some (kept1, progress', m')"
    "kept = (if keep then n # kept1 else kept1)"
    by (auto simp: bind_eq_Some_conv split: prod.splits)
  from Cons.IH [OF 1(2)] try_node_progress [OF 1(1)] 1(3) show ?case
    by (cases progress; cases success) auto
qed simp

text \<open>The loop ends: a round that makes progress leaves fewer nodes, one that makes none is the last.\<close>

function init_loop :: "device_tree \<Rightarrow> ('w, 'v) platform_driver list \<Rightarrow> nat list \<Rightarrow> bool \<Rightarrow> 'w device_manager
    \<Rightarrow> (nat list \<times> 'w device_manager) option" where
  "init_loop dt ds ns progress m =
     (if progress \<and> ns \<noteq> [] then
        (case init_round dt ds ns False m of
           None \<Rightarrow> None
         | Some (kept, progress', m') \<Rightarrow> init_loop dt ds kept progress' m')
      else Some (ns, m))"
  by pat_completeness auto
termination
proof (relation "measure (\<lambda>(dt, ds, ns, progress, m). 2 * length ns + of_bool progress)", goal_cases)
  case (2 dt ds ns progress m r kept r' progress' m')
  then have "init_round dt ds ns False m = Some (kept, progress', m')" by simp
  from init_round_shrinks [OF this] 2(1) show ?case
    by (cases progress') auto
qed simp

declare init_loop.simps [simp del]

definition init_platform_drivers :: "device_tree \<Rightarrow> ('w, 'v) platform_driver list \<Rightarrow> 'w device_manager
    \<Rightarrow> (nat list \<times> 'w device_manager) option" where
  "init_platform_drivers dt ds m = do {
     ns \<leftarrow> uninitialized_nodes dt;
     init_loop dt ds ns True m
   }"


section \<open>Dependencies between drivers\<close>

text \<open>A driver whose device needs others answers \<open>Retry\<close> until they are there. \<open>fin n w\<close> says that node
  \<open>n\<close> is initialised in \<open>w\<close>; the rank rules out cycles.\<close>

definition retries_until ::
    "device_tree \<Rightarrow> ('w, 'v) platform_driver list \<Rightarrow> (nat \<Rightarrow> nat set) \<Rightarrow> (nat \<Rightarrow> 'w \<Rightarrow> bool) \<Rightarrow> nat \<Rightarrow> bool" where
  "retries_until dt ds deps fin n \<longleftrightarrow>
     (\<exists>k path. match_driver ds (dt_node_at dt n) = Some (Some k) \<and> node_path dt n = Some path
      \<and> (\<forall>w. \<exists>w'. pd_try_init (ds ! k) n w = Some (if \<forall>d \<in> deps n. fin d w then Inr () else Inl Retry, w')
             \<and> (\<forall>i. fin i w \<longrightarrow> fin i w') \<and> ((\<forall>d \<in> deps n. fin d w) \<longrightarrow> fin n w')))"

lemma try_node_retries:
  assumes "retries_until dt ds deps fin n"
  shows "\<exists>m'. try_node dt ds n m = Some
      (\<not> (\<forall>d \<in> deps n. fin d (dm_world m)), \<forall>d \<in> deps n. fin d (dm_world m), m')
    \<and> (\<forall>i. fin i (dm_world m) \<longrightarrow> fin i (dm_world m'))
    \<and> ((\<forall>d \<in> deps n. fin d (dm_world m)) \<longrightarrow> fin n (dm_world m'))"
proof -
  let ?ready = "\<forall>d \<in> deps n. fin d (dm_world m)"
  obtain k path where k: "match_driver ds (dt_node_at dt n) = Some (Some k)" "node_path dt n = Some path"
    and t: "\<forall>w. \<exists>w'. pd_try_init (ds ! k) n w = Some (if \<forall>d \<in> deps n. fin d w then Inr () else Inl Retry, w')
             \<and> (\<forall>i. fin i w \<longrightarrow> fin i w') \<and> ((\<forall>d \<in> deps n. fin d w) \<longrightarrow> fin n w')"
    using assms unfolding retries_until_def by blast
  from t obtain w' where w': "pd_try_init (ds ! k) n (dm_world m) = Some (if ?ready then Inr () else Inl Retry, w')"
    "\<forall>i. fin i (dm_world m) \<longrightarrow> fin i w'" "?ready \<longrightarrow> fin n w'"
    by blast
  show ?thesis
  proof (cases ?ready)
    case True
    with w' k show ?thesis by (simp add: try_node_def register_device_def)
  next
    case False
    then have "pd_try_init (ds ! k) n (dm_world m) = Some (Inl Retry, w')" using w'(1) by (simp only: if_False)
    with False w'(2) k show ?thesis by (auto simp: try_node_def)
  qed
qed

lemma init_round_retries:
  assumes "\<forall>n \<in> set ns. retries_until dt ds deps fin n"
  shows "\<exists>kept progress' m'. init_round dt ds ns progress m = Some (kept, progress', m')
    \<and> set kept \<subseteq> set ns \<and> (\<forall>n \<in> set ns. n \<in> set kept \<or> fin n (dm_world m'))
    \<and> (\<forall>i. fin i (dm_world m) \<longrightarrow> fin i (dm_world m'))
    \<and> (\<forall>n \<in> set ns. (\<forall>d \<in> deps n. fin d (dm_world m)) \<longrightarrow> n \<notin> set kept)
    \<and> (\<not> progress' \<longrightarrow> kept = ns)"
  using assms
proof (induction ns arbitrary: progress m)
  case (Cons n ns)
  let ?ready = "\<forall>d \<in> deps n. fin d (dm_world m)"
  obtain m1 where m1: "try_node dt ds n m = Some (\<not> ?ready, ?ready, m1)"
    "\<forall>i. fin i (dm_world m) \<longrightarrow> fin i (dm_world m1)" "?ready \<longrightarrow> fin n (dm_world m1)"
    using try_node_retries [of dt ds deps fin n m] Cons.prems by auto
  obtain kept progress' m' where r: "init_round dt ds ns (progress \<or> ?ready) m1 = Some (kept, progress', m')"
    "set kept \<subseteq> set ns" "\<forall>n \<in> set ns. n \<in> set kept \<or> fin n (dm_world m')"
    "\<forall>i. fin i (dm_world m1) \<longrightarrow> fin i (dm_world m')"
    "\<forall>n \<in> set ns. (\<forall>d \<in> deps n. fin d (dm_world m1)) \<longrightarrow> n \<notin> set kept" "\<not> progress' \<longrightarrow> kept = ns"
    using Cons.IH [of "progress \<or> ?ready" m1] Cons.prems by auto
  have "progress \<or> ?ready \<longrightarrow> progress'" using init_round_shrinks [OF r(1)] by blast
  then show ?case
    using m1 r by (intro exI [of _ "if \<not> ?ready then n # kept else kept"] exI [of _ progress'] exI [of _ m']) auto
qed auto

lemma init_loop_retries:
  assumes "\<forall>n \<in> set nodes. retries_until dt ds deps fin n"
    and "\<forall>n \<in> set nodes. \<forall>d \<in> deps n. d \<in> set nodes \<and> rank d < (rank n :: nat)"
    and "set ns \<subseteq> set nodes" and "\<forall>n \<in> set nodes. n \<in> set ns \<or> fin n (dm_world m)"
  shows "\<exists>m'. init_loop dt ds ns True m = Some ([], m') \<and> (\<forall>n \<in> set nodes. fin n (dm_world m'))"
  using assms(3,4)
proof (induction "length ns" arbitrary: ns m rule: less_induct)
  case less
  show ?case
  proof (cases "ns = []")
    case True
    with less.prems show ?thesis by (simp add: init_loop.simps)
  next
    case False
    have rn: "\<forall>n \<in> set ns. retries_until dt ds deps fin n" using assms(1) less.prems(1) by blast
    obtain kept progress' m' where r: "init_round dt ds ns False m = Some (kept, progress', m')"
      "set kept \<subseteq> set ns" "\<forall>n \<in> set ns. n \<in> set kept \<or> fin n (dm_world m')"
      "\<forall>i. fin i (dm_world m) \<longrightarrow> fin i (dm_world m')"
      "\<forall>n \<in> set ns. (\<forall>d \<in> deps n. fin d (dm_world m)) \<longrightarrow> n \<notin> set kept" "\<not> progress' \<longrightarrow> kept = ns"
      using init_round_retries [OF rn, of False m] by (elim exE conjE) (rule that)
    define x where "x = arg_min_on rank (set ns)"
    have x: "x \<in> set ns" "\<forall>y \<in> set ns. rank x \<le> rank y"
      using False arg_min_if_finite [of "set ns" rank] by (auto simp: x_def not_less)
    then have "\<forall>d \<in> deps x. fin d (dm_world m)"
      using assms(2) less.prems by (meson linorder_not_less subsetD)
    with x(1) r(5) have "x \<notin> set kept" by blast
    with x(1) r(6) have p: "progress'" by auto
    then have "length kept < length ns" using init_round_shrinks [OF r(1)] by simp
    moreover have "set kept \<subseteq> set nodes" "\<forall>n \<in> set nodes. n \<in> set kept \<or> fin n (dm_world m')"
      using r(2,3,4) less.prems by blast+
    ultimately have "\<exists>m''. init_loop dt ds kept True m' = Some ([], m'') \<and> (\<forall>n \<in> set nodes. fin n (dm_world m''))"
      using less.hyps by blast
    then show ?thesis using False r(1) p by (subst init_loop.simps) simp
  qed
qed


section \<open>Properties\<close>

text \<open>C9: The retry loop of \<open>init_platform_drivers\<close> resolves dependencies: when every node has a driver
  that answers \<open>Retry\<close> exactly until the nodes it depends on are initialised, and the dependencies
  have no cycle, every node ends up initialised, whatever the order of the nodes in the tree.\<close>

theorem init_resolves_dependencies:
  assumes "uninitialized_nodes dt = Some nodes"
    and "\<forall>n \<in> set nodes. retries_until dt ds deps fin n"
    and "\<forall>n \<in> set nodes. \<forall>d \<in> deps n. d \<in> set nodes \<and> rank d < (rank n :: nat)"
  shows "\<exists>m'. init_platform_drivers dt ds m = Some ([], m') \<and> (\<forall>n \<in> set nodes. fin n (dm_world m'))"
  using init_loop_retries [OF assms(2,3), of nodes m] assms(1) by (simp add: init_platform_drivers_def)

text \<open>A timer listed before the interrupt controller it needs; the state is the set of nodes that are
  initialised.\<close>

definition example_device_node :: "string \<Rightarrow> string \<Rightarrow> dt_node" where
  "example_device_node name compatible = \<lparr>dn_name = name,
     dn_properties = [\<lparr>dp_name = ''compatible'', dp_value = PV_Standard (Std_Compatible [compatible])\<rparr>],
     dn_children = [], dn_parent = Some 0\<rparr>"

definition example_board :: device_tree where
  "example_board = \<lparr>dt_address = 0, dt_size = 0, dt_version = 17, dt_last_comp_version = 16,
     dt_boot_cpuid_phys = 0, dt_memory_reservations = [],
     dt_nodes = [\<lparr>dn_name = [], dn_properties = [], dn_children = [1, 2], dn_parent = None\<rparr>,
       example_device_node ''timer'' ''arm,armv7-timer'', example_device_node ''intc'' ''brcm,bcm2836-l1-intc''],
     dt_root = 0, dt_phandle_map = Map.empty\<rparr>"

definition example_drivers :: "(nat set, unit) platform_driver list" where
  "example_drivers =
     [\<lparr>pd_compatible = [''brcm,bcm2836-l1-intc''], pd_try_init = (\<lambda>n w. Some (Inr (), insert n w)),
        pd_get_device = (\<lambda>i w. None), pd_local_setup = (\<lambda>v w. Some (Inr (), w))\<rparr>,
      \<lparr>pd_compatible = [''arm,armv7-timer''],
        pd_try_init = (\<lambda>n w. Some (if 2 \<in> w then (Inr (), insert n w) else (Inl Retry, w))),
        pd_get_device = (\<lambda>i w. None), pd_local_setup = (\<lambda>v w. Some (Inr (), w))\<rparr>]"

lemma example_board_nodes:
  "uninitialized_nodes example_board = Some [1, 2]"
  "match_driver example_drivers (dt_node_at example_board 1) = Some (Some 1)"
  "match_driver example_drivers (dt_node_at example_board 2) = Some (Some 0)"
  "node_path example_board 1 = Some ''/timer''" "node_path example_board 2 = Some ''/intc''"
proof -
  note ev = example_board_def example_device_node_def dt_node_at_def node_compatible_def node_status_def typed_prop_def
  show "uninitialized_nodes example_board = Some [1, 2]"
    by (simp add: uninitialized_nodes_def node_iter_all.simps wants_driver_def ev)
  show "match_driver example_drivers (dt_node_at example_board 1) = Some (Some 1)"
    "match_driver example_drivers (dt_node_at example_board 2) = Some (Some 0)"
    by (simp_all add: match_driver_def driver_for_def example_drivers_def ev)
  show "node_path example_board 1 = Some ''/timer''" "node_path example_board 2 = Some ''/intc''"
    by (simp_all add: node_path_def path_names.simps ev)
qed

theorem init_resolves_dependencies_witness:
  "\<exists>m'. init_platform_drivers example_board example_drivers \<lparr>dm_bindings = [], dm_world = {}\<rparr> = Some ([], m')
     \<and> 1 \<in> dm_world m' \<and> 2 \<in> dm_world m'"
proof -
  let ?deps = "\<lambda>n. if n = Suc 0 then {2} else {} :: nat set"
  have r: "\<forall>n \<in> set [1, 2]. retries_until example_board example_drivers ?deps (\<lambda>i w. i \<in> w) n"
    using example_board_nodes by (simp add: retries_until_def example_drivers_def)
  have "\<forall>n \<in> set [1, 2]. \<forall>d \<in> ?deps n. d \<in> set [1, 2] \<and> (if d = 1 then 1 else 0) < (if n = 1 then 1 else 0 :: nat)"
    by simp
  from init_resolves_dependencies [OF example_board_nodes(1) r this, of "\<lparr>dm_bindings = [], dm_world = {}\<rparr>"]
  show ?thesis by simp
qed

end
