(* ===== verification/Irq.thy ===== *)
theory Irq
  imports Device_Tree
begin

text \<open>Interrupt dispatch (\<open>kernel/irq.rs\<close>): controllers with their ranges of virtual interrupt numbers,
  the table of handlers, resolving the interrupts of a node and dispatching. A controller \<open>'c\<close> and a
  handler \<open>'h\<close> act on a machine \<open>'m\<close>: the state of the devices together with the tables of this file,
  which handlers may use. The locks around the tables are taken and released within each operation.\<close>

datatype irq_error =
  Irq_InvalidConfig | Irq_InvalidControllerParent | Irq_TranslationFailed | Irq_InvalidVirq | Irq_Busy

text \<open>The domain of a controller; the address of its node is the index of the node.\<close>

record 'c irq_domain =
  dom_node :: nat
  dom_controller :: 'c
  dom_virq_base :: u32
  dom_irq_count :: u32

definition MAX_IRQS :: usize where "MAX_IRQS = 256"

record ('c, 'h) irq_tables =
  next_virq_base :: usize
  root_controller :: "'c irq_domain option"
  irq_controllers :: "'c irq_domain list"
  global_handlers :: "'h option list"

definition irq_tables_new :: "('c, 'h) irq_tables" where
  "irq_tables_new = \<lparr>next_virq_base = 0, root_controller = None, irq_controllers = [],
     global_handlers = replicate 256 None\<rparr>"

text \<open>The methods of the trait \<open>InterruptController\<close> over the machine; a result \<open>None\<close> is a panic.\<close>

record ('c, 'm) interrupt_controller =
  ic_set_virq_base :: "'c \<Rightarrow> u32 \<Rightarrow> 'm \<Rightarrow> (irq_error + unit) \<times> 'm"
  ic_enable :: "'c \<Rightarrow> u32 \<Rightarrow> 'm \<Rightarrow> 'm option"
  ic_disable :: "'c \<Rightarrow> u32 \<Rightarrow> 'm \<Rightarrow> 'm option"
  ic_pending_hwirq :: "'c \<Rightarrow> 'm \<Rightarrow> (u32 option \<times> 'm) option"
  ic_ack :: "'c \<Rightarrow> u32 \<Rightarrow> 'm \<Rightarrow> 'm"
  ic_xlate :: "'c \<Rightarrow> u32 list \<Rightarrow> irq_error + u32"


section \<open>Registration\<close>

text \<open>Whether the controller of a node is the root: its interrupt parent is itself, or it names none and
  its parent in the tree is no controller.\<close>

definition is_root_controller :: "device_tree \<Rightarrow> nat \<Rightarrow> bool option" where
  "is_root_controller dt i = do {
     let n = dt_node_at dt i;
     parent \<leftarrow> node_interrupt_parent n;
     (case parent of
        Some phandle \<Rightarrow> do {
          own \<leftarrow> node_phandle n;
          Some (case own of None \<Rightarrow> False | Some h \<Rightarrow> h = phandle)
        }
      | None \<Rightarrow> Some (case dn_parent n of
                        None \<Rightarrow> True
                      | Some p \<Rightarrow> \<not> node_is_interrupt_controller (dt_node_at dt p)))
   }"

text \<open>\<open>register_controller\<close>. The numbers are taken before the controller is asked, and given back only
  when the root is set twice; the subtraction from \<open>MAX_IRQS\<close> wraps.\<close>

definition register_controller ::
    "('c, 'm) interrupt_controller \<Rightarrow> device_tree \<Rightarrow> nat \<Rightarrow> 'c \<Rightarrow> u32 \<Rightarrow> ('c, 'h) irq_tables \<Rightarrow> 'm
       \<Rightarrow> ((irq_error + unit) \<times> ('c, 'h) irq_tables \<times> 'm) option" where
  "register_controller ops dt node c irq_count t m = do {
     is_root \<leftarrow> is_root_controller dt node;
     (if is_root = (root_controller t \<noteq> None) then Some (Inl Irq_InvalidControllerParent, t, m)
      else if next_virq_base t \<ge> MAX_IRQS - ucast irq_count then Some (Inl Irq_InvalidConfig, t, m)
      else
        let virq_base = ucast (next_virq_base t);
            t1 = t\<lparr>next_virq_base := next_virq_base t + ucast irq_count\<rparr>;
            (r, m1) = ic_set_virq_base ops c virq_base m;
            d = \<lparr>dom_node = node, dom_controller = c, dom_virq_base = virq_base, dom_irq_count = irq_count\<rparr>
        in case r of
             Inl e \<Rightarrow> Some (Inl e, t1, m1)
           | Inr _ \<Rightarrow>
               if is_root then
                 (case root_controller t1 of
                    None \<Rightarrow> Some (Inr (), t1\<lparr>root_controller := Some d\<rparr>, m1)
                  | Some _ \<Rightarrow> Some (Inl Irq_InvalidControllerParent,
                                    t1\<lparr>next_virq_base := next_virq_base t1 - ucast irq_count\<rparr>, m1))
               else Some (Inr (), t1\<lparr>irq_controllers := irq_controllers t1 @ [d]\<rparr>, m1))
   }"

definition register_handler :: "u32 \<Rightarrow> 'h \<Rightarrow> ('c, 'h) irq_tables \<Rightarrow> (irq_error + unit) \<times> ('c, 'h) irq_tables" where
  "register_handler virq h t =
     (if ucast virq \<ge> MAX_IRQS then (Inl Irq_InvalidVirq, t)
      else if global_handlers t ! unat virq \<noteq> None then (Inl Irq_Busy, t)
      else (Inr (), t\<lparr>global_handlers := (global_handlers t)[unat virq := Some h]\<rparr>))"


section \<open>Domains\<close>

text \<open>\<open>ROOT_CONTROLLER.get().into_iter().chain(domains.iter())\<close>.\<close>

definition all_domains :: "('c, 'h) irq_tables \<Rightarrow> 'c irq_domain list" where
  "all_domains t = (case root_controller t of None \<Rightarrow> [] | Some d \<Rightarrow> [d]) @ irq_controllers t"

definition in_domain :: "u32 \<Rightarrow> 'c irq_domain \<Rightarrow> bool" where
  "in_domain virq d \<longleftrightarrow> virq \<ge> dom_virq_base d \<and> virq < dom_virq_base d + dom_irq_count d"

definition domain_of_virq :: "('c, 'h) irq_tables \<Rightarrow> u32 \<Rightarrow> 'c irq_domain option" where
  "domain_of_virq t virq = List.find (in_domain virq) (all_domains t)"

definition enable_irq ::
    "('c, 'm) interrupt_controller \<Rightarrow> u32 \<Rightarrow> ('c, 'h) irq_tables \<Rightarrow> 'm \<Rightarrow> ((irq_error + unit) \<times> 'm) option" where
  "enable_irq ops virq t m =
     (case domain_of_virq t virq of
        None \<Rightarrow> Some (Inl Irq_InvalidVirq, m)
      | Some d \<Rightarrow> map_option (Pair (Inr ())) (ic_enable ops (dom_controller d) (virq - dom_virq_base d) m))"


section \<open>Resolving the interrupts of a node\<close>

text \<open>The walk to the first ancestor that names an interrupt parent; a cycle of parents would never end.
  The result is the parent's node, or none where its phandle is not known.\<close>

partial_function (option) find_interrupt_parent :: "device_tree \<Rightarrow> nat option \<Rightarrow> nat option option" where
  "find_interrupt_parent dt current =
     (case current of
        None \<Rightarrow> Some None
      | Some i \<Rightarrow> do {
          phandle \<leftarrow> node_interrupt_parent (dt_node_at dt i);
          (case phandle of
             Some h \<Rightarrow> Some (node_by_phandle dt h)
           | None \<Rightarrow> find_interrupt_parent dt (dn_parent (dt_node_at dt i)))
        })"

text \<open>The second half of \<open>resolve_virq\<close>, once the interrupt parent \<open>p\<close> is found; nexus nodes are
  \<open>todo!()\<close>.\<close>

definition resolve_at ::
    "('c, 'm) interrupt_controller \<Rightarrow> device_tree \<Rightarrow> u32 list \<Rightarrow> nat \<Rightarrow> ('c, 'h) irq_tables \<Rightarrow> nat
       \<Rightarrow> (irq_error + u32) option" where
  "resolve_at ops dt interrupts index t p =
     (if \<not> node_is_interrupt_controller (dt_node_at dt p) then Some (Inl Irq_InvalidControllerParent)
      else do {
        imap \<leftarrow> node_interrupt_map (dt_node_at dt p);
        assert_that (imap = None);
        cells \<leftarrow> node_interrupt_cells (dt_node_at dt p);
        (case cells of
           None \<Rightarrow> Some (Inl Irq_InvalidConfig)
         | Some k \<Rightarrow> do {
             specs \<leftarrow> interrupts_iter interrupts k;
             (if index \<ge> length specs then Some (Inl Irq_InvalidConfig)
              else case List.find (\<lambda>d. dom_node d = p) (all_domains t) of
                None \<Rightarrow> Some (Inl Irq_InvalidControllerParent)
              | Some d \<Rightarrow>
                  Some (res_bind (ic_xlate ops (dom_controller d) (specs ! index))
                                 (\<lambda>hwirq. Inr (dom_virq_base d + hwirq))))
           })
      })"

text \<open>\<open>resolve_virq\<close>; extended interrupts are \<open>todo!()\<close>.\<close>

definition resolve_virq ::
    "('c, 'm) interrupt_controller \<Rightarrow> device_tree \<Rightarrow> nat \<Rightarrow> nat \<Rightarrow> ('c, 'h) irq_tables \<Rightarrow> (irq_error + u32) option" where
  "resolve_virq ops dt i index t = do {
     extended \<leftarrow> node_interrupts_extended (dt_node_at dt i);
     assert_that (extended = None);
     interrupts \<leftarrow> node_interrupts (dt_node_at dt i);
     (case interrupts of
        None \<Rightarrow> Some (Inl Irq_InvalidConfig)
      | Some ints \<Rightarrow> do {
          parent \<leftarrow> find_interrupt_parent dt (Some i);
          (case parent of
             None \<Rightarrow> Some (Inl Irq_InvalidControllerParent)
           | Some p \<Rightarrow> resolve_at ops dt ints index t p)
        })
   }"


section \<open>Dispatch\<close>

text \<open>\<open>dispatch_irq\<close>: \<open>tables\<close> reads the tables out of the machine, \<open>handle\<close> is \<open>handle_irq\<close>.\<close>

definition dispatch_irq ::
    "('m \<Rightarrow> ('c, 'h) irq_tables) \<Rightarrow> ('h \<Rightarrow> u32 \<Rightarrow> 'm \<Rightarrow> 'm option) \<Rightarrow> u32 \<Rightarrow> 'm \<Rightarrow> 'm option" where
  "dispatch_irq tables handle virq m =
     (if ucast virq \<ge> MAX_IRQS then Some m
      else case global_handlers (tables m) ! unat virq of
        None \<Rightarrow> Some m
      | Some h \<Rightarrow> handle h virq m)"

text \<open>The loop of \<open>global_irq_dispatch\<close>, which runs while the root controller has a pending line.\<close>

partial_function (option) dispatch_pending ::
    "('c, 'm) interrupt_controller \<Rightarrow> (u32 \<Rightarrow> 'm \<Rightarrow> 'm option) \<Rightarrow> 'c irq_domain \<Rightarrow> 'm \<Rightarrow> 'm option" where
  "dispatch_pending ops dispatch root m = do {
     (pending, m1) \<leftarrow> ic_pending_hwirq ops (dom_controller root) m;
     (case pending of
        None \<Rightarrow> Some m1
      | Some hwirq \<Rightarrow> do {
          m2 \<leftarrow> dispatch (dom_virq_base root + hwirq) m1;
          dispatch_pending ops dispatch root (ic_ack ops (dom_controller root) hwirq m2)
        })
   }"

text \<open>\<open>global_irq_dispatch\<close>: \<open>take_flag\<close> is \<open>clear_schedule_flag\<close> of the core's data, \<open>yield\<close> is
  \<open>yield_task\<close>.\<close>

definition global_irq_dispatch ::
    "('c, 'm) interrupt_controller \<Rightarrow> ('m \<Rightarrow> ('c, 'h) irq_tables) \<Rightarrow> ('h \<Rightarrow> u32 \<Rightarrow> 'm \<Rightarrow> 'm option)
       \<Rightarrow> ('m \<Rightarrow> bool \<times> 'm) \<Rightarrow> ('m \<Rightarrow> 'm option) \<Rightarrow> 'm \<Rightarrow> 'm option" where
  "global_irq_dispatch ops tables handle take_flag yield m = do {
     m1 \<leftarrow> (case root_controller (tables m) of
               None \<Rightarrow> Some m
             | Some root \<Rightarrow> dispatch_pending ops (dispatch_irq tables handle) root m);
     let (flag, m2) = take_flag m1;
     (if flag then yield m2 else Some m2)
   }"


section \<open>Ranges of interrupt numbers\<close>

definition dom_range :: "'c irq_domain \<Rightarrow> nat set" where
  "dom_range d = {unat (dom_virq_base d) ..< unat (dom_virq_base d) + unat (dom_irq_count d)}"

text \<open>What every operation keeps: the ranges are within the numbers given out so far, and disjoint.\<close>

definition irq_wf :: "('c, 'h) irq_tables \<Rightarrow> bool" where
  "irq_wf t \<longleftrightarrow> unat (next_virq_base t) < 256 \<and> length (global_handlers t) = 256
     \<and> (\<forall>d \<in> set (all_domains t). unat (dom_virq_base d) + unat (dom_irq_count d) \<le> unat (next_virq_base t))
     \<and> sorted_wrt (\<lambda>d e. dom_range d \<inter> dom_range e = {}) (all_domains t)"

lemma irq_wf_new [wf_intros]: "irq_wf irq_tables_new"
  by (simp add: irq_wf_def irq_tables_new_def all_domains_def)

lemma virq_room:
  assumes "\<not> next_virq_base t \<ge> MAX_IRQS - ucast (n :: u32)" and "unat n \<le> 256"
  shows "unat (next_virq_base t) + unat n < 256"
proof -
  have "unat (MAX_IRQS - ucast n :: usize) = 256 - unat n"
    using assms(2) by (simp add: MAX_IRQS_def unat_sub_if')
  then show ?thesis using assms by (simp add: word_le_nat_alt not_le)
qed

lemma in_domain_range:
  assumes "unat (dom_virq_base d) + unat (dom_irq_count d) < 256"
  shows "in_domain v d \<longleftrightarrow> unat v \<in> dom_range d"
proof -
  have "unat (dom_virq_base d + dom_irq_count d) = unat (dom_virq_base d) + unat (dom_irq_count d)"
    using assms by (simp add: unat_word_ariths)
  then show ?thesis by (auto simp: in_domain_def dom_range_def word_le_nat_alt word_less_nat_alt)
qed

text \<open>A domain added at either end keeps the invariant, as its range starts where the others end.\<close>

lemma disjoint_from_old:
  assumes "irq_wf t" "e \<in> set (all_domains t)" "unat (dom_virq_base d) = unat (next_virq_base t)"
  shows "dom_range e \<inter> dom_range d = {}"
  using assms by (fastforce simp: irq_wf_def dom_range_def)

lemma register_controller_wf [wf_intros]:
  assumes "irq_wf t" and "register_controller ops dt node c n t m = Some (r, t', m')" and "unat n \<le> 256"
  shows "irq_wf t'"
proof -
  let ?d = "\<lparr>dom_node = node, dom_controller = c, dom_virq_base = ucast (next_virq_base t), dom_irq_count = n\<rparr>"
  let ?t1 = "t\<lparr>next_virq_base := next_virq_base t + ucast n\<rparr>"
  let ?room = "\<not> next_virq_base t \<ge> MAX_IRQS - ucast n"
  obtain is_root where root: "is_root_controller dt node = Some is_root"
    using assms(2) by (cases "is_root_controller dt node") (simp_all add: register_controller_def)
  obtain r1 m1 where set: "ic_set_virq_base ops c (ucast (next_virq_base t)) m = (r1, m1)" by fastforce
  have cases: "t' = t \<or> ?room \<and> (t' = ?t1 \<or> root_controller t = None \<and> t' = ?t1\<lparr>root_controller := Some ?d\<rparr>
      \<or> t' = ?t1\<lparr>irq_controllers := irq_controllers t @ [?d]\<rparr>)"
  proof (cases "is_root = (root_controller t \<noteq> None) \<or> \<not> ?room")
    case True
    with assms(2) root show ?thesis by (auto simp: register_controller_def split: if_splits)
  next
    case False
    then show ?thesis
      using assms(2) root set by (cases r1; cases is_root) (simp_all add: register_controller_def Let_def)
  qed
  show ?thesis
  proof (cases "t' = t")
    case True
    with assms(1) show ?thesis by simp
  next
    case False
    then have "?room" using cases by blast
    then have room: "unat (next_virq_base t) + unat n < 256" using virq_room assms(3) by blast
    then have next_: "unat (next_virq_base t + ucast n) = unat (next_virq_base t) + unat n"
      by (simp add: unat_word_ariths)
    have base: "unat (ucast (next_virq_base t) :: u32) = unat (next_virq_base t)"
      using room by (simp add: unsigned_ucast_eq take_bit_nat_eq_self_iff)
    have fresh: "dom_range e \<inter> dom_range ?d = {}" if "e \<in> set (all_domains t)" for e
      using disjoint_from_old [OF assms(1) that, of ?d] base by simp
    note wf = assms(1) [unfolded irq_wf_def]
    have old: "\<forall>d \<in> set (all_domains t). unat (dom_virq_base d) + unat (dom_irq_count d) \<le> unat (next_virq_base t) + unat n"
      using wf by (meson trans_le_add1)
    consider "t' = ?t1" | "root_controller t = None" "t' = ?t1\<lparr>root_controller := Some ?d\<rparr>"
      | "t' = ?t1\<lparr>irq_controllers := irq_controllers t @ [?d]\<rparr>"
      using cases False by argo
    then show ?thesis
    proof cases
      case 1
      then show ?thesis using wf next_ room old by (simp add: irq_wf_def all_domains_def)
    next
      case 2
      then have "all_domains t' = ?d # all_domains t" by (simp add: all_domains_def)
      with 2 fresh show ?thesis using wf next_ room old base by (auto simp: irq_wf_def Int_commute)
    next
      case 3
      then have "all_domains t' = all_domains t @ [?d]" by (simp add: all_domains_def)
      with 3 fresh show ?thesis using wf next_ room old base by (auto simp: irq_wf_def sorted_wrt_append)
    qed
  qed
qed

lemma register_handler_wf [wf_intros]: "irq_wf t \<Longrightarrow> irq_wf (snd (register_handler v h t))"
  by (simp add: register_handler_def irq_wf_def all_domains_def)

lemma domain_small: "irq_wf t \<Longrightarrow> d \<in> set (all_domains t) \<Longrightarrow> unat (dom_virq_base d) + unat (dom_irq_count d) < 256"
  by (auto simp: irq_wf_def)

lemma domains_overlap_eq:
  assumes "irq_wf t" "d \<in> set (all_domains t)" "e \<in> set (all_domains t)" "k \<in> dom_range d" "k \<in> dom_range e"
  shows "d = e"
proof -
  have sorted: "sorted_wrt (\<lambda>d e. dom_range d \<inter> dom_range e = {}) (all_domains t)"
    using assms(1) by (simp add: irq_wf_def)
  obtain i j where ij: "i < length (all_domains t)" "all_domains t ! i = d" "j < length (all_domains t)" "all_domains t ! j = e"
    using assms(2,3) by (auto simp: in_set_conv_nth)
  consider "i = j" | "i < j" | "j < i" by linarith
  then show ?thesis
  proof cases
    case 2
    from sorted_wrt_nth_less [OF sorted 2 ij(3)] ij assms(4,5) show ?thesis by auto
  next
    case 3
    from sorted_wrt_nth_less [OF sorted 3 ij(1)] ij assms(4,5) show ?thesis by auto
  qed (use ij in simp)
qed

lemma domain_unique:
  assumes "irq_wf t" "d \<in> set (all_domains t)" "in_domain v d"
  shows "domain_of_virq t v = Some d"
proof (cases "List.find (in_domain v) (all_domains t)")
  case None
  with assms(2,3) show ?thesis by (simp add: find_eq_None_iff)
next
  case (Some e)
  then have e: "in_domain v e" "e \<in> set (all_domains t)" using find_SomeD by fastforce+
  have "unat v \<in> dom_range d" "unat v \<in> dom_range e"
    using in_domain_range [OF domain_small [OF assms(1,2)]] in_domain_range [OF domain_small [OF assms(1) e(2)]] e(1) assms(3)
    by simp_all
  then have "d = e" by (rule domains_overlap_eq [OF assms(1,2) e(2)])
  with Some show ?thesis by (simp add: domain_of_virq_def)
qed

lemma resolve_at_Inr:
  assumes "resolve_at ops dt ints index t p = Some (Inr v)"
  shows "\<exists>d spec hwirq. List.find (\<lambda>d. dom_node d = p) (all_domains t) = Some d
    \<and> ic_xlate ops (dom_controller d) spec = Inr hwirq \<and> v = dom_virq_base d + hwirq"
  using assms unfolding resolve_at_def bind_eq_Some_conv
  by (auto split: if_split_asm option.split_asm simp: bind_eq_Some_conv res_bind_eq_Inr) blast

lemma resolve_virq_Inr:
  assumes "resolve_virq ops dt i index t = Some (Inr v)"
  shows "\<exists>p ints. find_interrupt_parent dt (Some i) = Some (Some p) \<and> resolve_at ops dt ints index t p = Some (Inr v)"
  using assms unfolding resolve_virq_def bind_eq_Some_conv
  by (auto split: option.split_asm simp: bind_eq_Some_conv)


section \<open>The contract of a controller's translation\<close>

text \<open>A controller translates to a line below its number of lines. Then the number \<open>resolve_virq\<close> gives
  out belongs to the domain that translated it and to no other, and enabling it reaches that line.\<close>

locale irq_translation =
  fixes xlate :: "'c \<Rightarrow> u32 list \<Rightarrow> irq_error + u32" and lines :: "'c \<Rightarrow> u32"
  assumes xlate_in_range: "xlate c spec = Inr hwirq \<Longrightarrow> hwirq < lines c"
begin

lemma translated_domain:
  assumes "irq_wf t" "d \<in> set (all_domains t)" "dom_irq_count d = lines (dom_controller d)"
    and "xlate (dom_controller d) spec = Inr hwirq"
  shows "domain_of_virq t (dom_virq_base d + hwirq) = Some d" "unat (dom_virq_base d + hwirq) < 256"
proof -
  have h: "unat hwirq < unat (dom_irq_count d)"
    using xlate_in_range [OF assms(4)] assms(3) by (simp add: word_less_nat_alt)
  moreover have d: "unat (dom_virq_base d) + unat (dom_irq_count d) < 256"
    using assms(1,2) by (auto simp: irq_wf_def)
  ultimately have v: "unat (dom_virq_base d + hwirq) = unat (dom_virq_base d) + unat hwirq"
    by (simp add: unat_word_ariths)
  then show "unat (dom_virq_base d + hwirq) < 256" using h d by linarith
  show "domain_of_virq t (dom_virq_base d + hwirq) = Some d"
    using domain_unique [OF assms(1,2)] in_domain_range [OF d] v h by (simp add: dom_range_def)
qed

lemma resolved_domain:
  assumes "ic_xlate ops = xlate" "irq_wf t"
    and "\<forall>d \<in> set (all_domains t). dom_irq_count d = lines (dom_controller d)"
    and "resolve_virq ops dt i index t = Some (Inr v)"
  shows "\<exists>p d spec hwirq. find_interrupt_parent dt (Some i) = Some (Some p) \<and> dom_node d = p
    \<and> d \<in> set (all_domains t) \<and> xlate (dom_controller d) spec = Inr hwirq \<and> unat v < 256
    \<and> enable_irq ops v t m = map_option (Pair (Inr ())) (ic_enable ops (dom_controller d) hwirq m)"
proof -
  obtain p ints where p: "find_interrupt_parent dt (Some i) = Some (Some p)" "resolve_at ops dt ints index t p = Some (Inr v)"
    using resolve_virq_Inr [OF assms(4)] by blast
  obtain d spec hwirq where r: "List.find (\<lambda>d. dom_node d = p) (all_domains t) = Some d"
    "xlate (dom_controller d) spec = Inr hwirq" "v = dom_virq_base d + hwirq"
    using resolve_at_Inr [OF p(2)] assms(1) by auto
  then have d: "d \<in> set (all_domains t)" "dom_node d = p" using find_SomeD by fastforce+
  from translated_domain [OF assms(2) d(1) _ r(2)] assms(3) d(1) r(3)
  have "domain_of_virq t v = Some d" "unat v < 256" by simp_all
  with p r d show ?thesis by (auto simp: enable_irq_def)
qed

end

end
