(* ===== verification/Mmu.thy ===== *)
theory Mmu
  imports Frame_Allocator
begin

unbundle bit_operations_syntax

text \<open>The page tables of the kernel (\<open>arch/arm64/mm/mmu/\<close>) and \<open>map_io_region\<close> (\<open>mm/mod.rs\<close>). The memory that
  holds tables is a map from the address of a table in the linear map to its 512 descriptors; the
  frame allocator is that of \<open>Frame_Allocator\<close>. The instructions that invalidate the TLB and set the
  translation registers leave this state as it is; the registers get the two roots.\<close>

definition LEVEL_3_SHIFT :: nat where "LEVEL_3_SHIFT = 12"
definition LEVEL_2_SHIFT :: nat where "LEVEL_2_SHIFT = LEVEL_3_SHIFT + 9"
definition LEVEL_1_SHIFT :: nat where "LEVEL_1_SHIFT = LEVEL_2_SHIFT + 9"
definition LEVEL_0_SHIFT :: nat where "LEVEL_0_SHIFT = LEVEL_1_SHIFT + 9"
definition ADDR_MASK :: u64 where "ADDR_MASK = 0x0000fffffffff000"

lemmas level_shifts = LEVEL_0_SHIFT_def LEVEL_1_SHIFT_def LEVEL_2_SHIFT_def LEVEL_3_SHIFT_def

definition level_0_index :: "usize \<Rightarrow> nat" where "level_0_index va = unat (drop_bit LEVEL_0_SHIFT va AND 0x1FF)"
definition level_1_index :: "usize \<Rightarrow> nat" where "level_1_index va = unat (drop_bit LEVEL_1_SHIFT va AND 0x1FF)"
definition level_2_index :: "usize \<Rightarrow> nat" where "level_2_index va = unat (drop_bit LEVEL_2_SHIFT va AND 0x1FF)"
definition level_3_index :: "usize \<Rightarrow> nat" where "level_3_index va = unat (drop_bit LEVEL_3_SHIFT va AND 0x1FF)"

definition LEVEL_0_LINEAR_INDEX :: nat where "LEVEL_0_LINEAR_INDEX = level_0_index LINEAR_MAP_OFFSET"
definition LEVEL_0_HEAP_INDEX :: nat where "LEVEL_0_HEAP_INDEX = level_0_index HEAP_MAP_OFFSET"
definition LEVEL_0_IO_INDEX :: nat where "LEVEL_0_IO_INDEX = level_0_index IO_PERIPHERALS_MAP_OFFSET"

lemma level_0_indexes [simp]:
  "LEVEL_0_LINEAR_INDEX = 256" "LEVEL_0_HEAP_INDEX = 320" "LEVEL_0_IO_INDEX = 416"
  by (simp_all add: LEVEL_0_LINEAR_INDEX_def LEVEL_0_HEAP_INDEX_def LEVEL_0_IO_INDEX_def level_0_index_def
      level_shifts map_layout_defs drop_bit_eq_div)


section \<open>Descriptors\<close>

datatype translation_level = Level0 | Level1 | Level2 | Level3

datatype descriptor = Desc_Table | Desc_Block | Desc_Page | Desc_Invalid

text \<open>\<open>Descriptor::from\<close>; a block at level 0 or 3 is a panic.\<close>

definition descriptor_from :: "u64 \<Rightarrow> translation_level \<Rightarrow> descriptor option" where
  "descriptor_from value level =
     (if value AND 3 = 3 then Some (if level = Level3 then Desc_Page else Desc_Table)
      else if value AND 3 = 1 then (if level = Level1 \<or> level = Level2 then Some Desc_Block else None)
      else Some Desc_Invalid)"

definition page_aligned :: "usize \<Rightarrow> bool" where
  "page_aligned a \<longleftrightarrow> unat a mod 4096 = 0"

definition table_descriptor_new :: "usize \<Rightarrow> u64 option" where
  "table_descriptor_new next_level_table_addr = do {
     assert_that (page_aligned next_level_table_addr);
     Some (next_level_table_addr OR 3)
   }"

definition next_level_table :: "u64 \<Rightarrow> usize" where
  "next_level_table d = phys_to_virt (d AND ADDR_MASK)"

definition page_descriptor_new :: "usize \<Rightarrow> u64 option" where
  "page_descriptor_new output_addr = do {
     assert_that (page_aligned output_addr);
     Some (output_addr OR 3)
   }"

definition block_descriptor_new_level_1 :: "usize \<Rightarrow> u64 option" where
  "block_descriptor_new_level_1 output_addr = do {
     assert_that (unat output_addr mod 2 ^ LEVEL_1_SHIFT = 0);
     Some (output_addr OR 1)
   }"

definition block_descriptor_new_level_2 :: "usize \<Rightarrow> u64 option" where
  "block_descriptor_new_level_2 output_addr = do {
     assert_that (unat output_addr mod 2 ^ LEVEL_2_SHIFT = 0);
     Some (output_addr OR 1)
   }"

text \<open>\<open>BlockAndPageDescriptorAttributes\<close>.\<close>

definition EXECUTE_NEVER :: u64 where "EXECUTE_NEVER = push_bit 54 1"
definition ACCESS_FLAG :: u64 where "ACCESS_FLAG = push_bit 10 1"
definition SHAREABILITY :: u64 where "SHAREABILITY = push_bit 8 3"
definition ATTR_INDEX :: u64 where "ATTR_INDEX = push_bit 2 7"

definition set_execute_never :: "bool \<Rightarrow> u64 \<Rightarrow> u64" where
  "set_execute_never xn d = (if xn then d OR EXECUTE_NEVER else d AND NOT EXECUTE_NEVER)"

definition set_accessed :: "bool \<Rightarrow> u64 \<Rightarrow> u64" where
  "set_accessed accessed d = (if accessed then d OR ACCESS_FLAG else d AND NOT ACCESS_FLAG)"

datatype shareability = NonShareable | OuterShareable | InnerShareable

fun shareability_bits :: "shareability \<Rightarrow> u64" where
  "shareability_bits NonShareable = 0"
| "shareability_bits OuterShareable = 2"
| "shareability_bits InnerShareable = 3"

datatype mem_attr_index = DeviceNgnRnE | NormalNonCacheable | NormalWriteBack

fun mem_attr_bits :: "mem_attr_index \<Rightarrow> u64" where
  "mem_attr_bits DeviceNgnRnE = 0"
| "mem_attr_bits NormalNonCacheable = 1"
| "mem_attr_bits NormalWriteBack = 2"

definition set_shareability :: "shareability \<Rightarrow> u64 \<Rightarrow> u64" where
  "set_shareability attr d = (d AND NOT SHAREABILITY) OR push_bit 8 (shareability_bits attr)"

definition set_mem_attr_index :: "mem_attr_index \<Rightarrow> u64 \<Rightarrow> u64" where
  "set_mem_attr_index attr d = (d AND NOT ATTR_INDEX) OR push_bit 2 (mem_attr_bits attr)"

text \<open>The chain of calls all users of the attributes make.\<close>

definition with_attributes :: "bool \<Rightarrow> mem_attr_index \<Rightarrow> u64 \<Rightarrow> u64" where
  "with_attributes xn attr d =
     set_mem_attr_index attr (set_execute_never xn (set_accessed True (set_shareability InnerShareable d)))"


section \<open>Page tables\<close>

record mmu =
  mmu_tables :: "usize \<rightharpoonup> u64 list"
  mmu_kernel_table :: usize
  mmu_user_table :: usize
  mmu_frames :: "boot_phys_mem_manager option"

text \<open>\<open>PageTable::new\<close>: the null pointer of a failed allocation is dereferenced.\<close>

definition page_table_new :: "mmu \<Rightarrow> (usize \<times> mmu) option" where
  "page_table_new m = do {
     (ptr, mgr) \<leftarrow> alloc_page (mmu_frames m);
     table \<leftarrow> ptr;
     Some (table, m\<lparr>mmu_tables := (mmu_tables m)(table \<mapsto> replicate 512 0), mmu_frames := mgr\<rparr>)
   }"

definition get_descriptor :: "mmu \<Rightarrow> usize \<Rightarrow> nat \<Rightarrow> u64 option" where
  "get_descriptor m table index = do { ds \<leftarrow> mmu_tables m table; index_at ds index }"

definition set_descriptor :: "usize \<Rightarrow> nat \<Rightarrow> u64 \<Rightarrow> mmu \<Rightarrow> mmu option" where
  "set_descriptor table index d m = do {
     ds \<leftarrow> mmu_tables m table;
     ds' \<leftarrow> update_at ds index d;
     Some (m\<lparr>mmu_tables := (mmu_tables m)(table \<mapsto> ds')\<rparr>)
   }"

definition get_or_create_next_level_table ::
    "usize \<Rightarrow> nat \<Rightarrow> translation_level \<Rightarrow> mmu \<Rightarrow> (usize \<times> mmu) option" where
  "get_or_create_next_level_table table index level m = do {
     d \<leftarrow> get_descriptor m table index;
     kind \<leftarrow> descriptor_from d level;
     (if kind = Desc_Invalid then do {
        (new_table, m1) \<leftarrow> page_table_new m;
        new_desc \<leftarrow> table_descriptor_new (virt_to_phys new_table);
        m2 \<leftarrow> set_descriptor table index new_desc m1;
        Some (next_level_table new_desc, m2)
      }
      else if kind = Desc_Table then Some (next_level_table d, m)
      else None)
   }"

text \<open>\<open>map_page\<close>: user addresses are \<open>todo!()\<close>, and the linear map has no pages.\<close>

definition is_user_address :: "usize \<Rightarrow> bool" where
  "is_user_address va \<longleftrightarrow> va < 0xffff000000000000"

definition page_attributes :: "nat \<Rightarrow> (u64 \<Rightarrow> u64) option" where
  "page_attributes index =
     (if index = LEVEL_0_LINEAR_INDEX then None
      else if index = LEVEL_0_HEAP_INDEX then Some (with_attributes True NormalWriteBack)
      else if index = LEVEL_0_IO_INDEX then Some (with_attributes True DeviceNgnRnE)
      else None)"

definition map_page :: "usize \<Rightarrow> usize \<Rightarrow> mmu \<Rightarrow> mmu option" where
  "map_page va pa m = do {
     assert_that (\<not> is_user_address va);
     attributes \<leftarrow> page_attributes (level_0_index va);
     page \<leftarrow> page_descriptor_new pa;
     (level_1_table, m1) \<leftarrow> get_or_create_next_level_table (mmu_kernel_table m) (level_0_index va) Level0 m;
     (level_2_table, m2) \<leftarrow> get_or_create_next_level_table level_1_table (level_1_index va) Level1 m1;
     (level_3_table, m3) \<leftarrow> get_or_create_next_level_table level_2_table (level_2_index va) Level2 m2;
     set_descriptor level_3_table (level_3_index va) (attributes page) m3
   }"

text \<open>The level 1 tables of blocks that \<open>setup_page_tables\<close> fills.\<close>

definition block_table :: "mem_attr_index \<Rightarrow> u64 list option" where
  "block_table attr =
     those (map (\<lambda>index. map_option (with_attributes False attr)
                   (block_descriptor_new_level_1 (of_nat (index * 2 ^ LEVEL_1_SHIFT)))) [0..<512])"

definition setup_page_tables :: "mmu \<Rightarrow> mmu option" where
  "setup_page_tables m0 = do {
     (user_0, m) \<leftarrow> page_table_new m0;
     (kernel_0, m) \<leftarrow> page_table_new m;
     (user_1, m) \<leftarrow> page_table_new m;
     user_blocks \<leftarrow> block_table DeviceNgnRnE;
     let m = m\<lparr>mmu_tables := (mmu_tables m)(user_1 \<mapsto> user_blocks)\<rparr>;
     desc_user_1 \<leftarrow> table_descriptor_new (virt_to_phys user_1);
     m \<leftarrow> set_descriptor user_0 (level_0_index USER_MAP_OFFSET) desc_user_1 m;
     (linear_1, m) \<leftarrow> page_table_new m;
     desc_linear \<leftarrow> table_descriptor_new (virt_to_phys linear_1);
     (heap_1, m) \<leftarrow> page_table_new m;
     desc_heap \<leftarrow> table_descriptor_new (virt_to_phys heap_1);
     (io_1, m) \<leftarrow> page_table_new m;
     desc_io \<leftarrow> table_descriptor_new (virt_to_phys io_1);
     m \<leftarrow> set_descriptor kernel_0 LEVEL_0_LINEAR_INDEX desc_linear m;
     m \<leftarrow> set_descriptor kernel_0 LEVEL_0_HEAP_INDEX desc_heap m;
     m \<leftarrow> set_descriptor kernel_0 LEVEL_0_IO_INDEX desc_io m;
     linear_blocks \<leftarrow> block_table NormalWriteBack;
     Some (m\<lparr>mmu_tables := (mmu_tables m)(linear_1 \<mapsto> linear_blocks),
             mmu_kernel_table := kernel_0, mmu_user_table := user_0\<rparr>)
   }"

text \<open>\<open>map_io_region\<close>: the pages of the region, one by one; the sums wrap.\<close>

fun map_pages :: "usize \<Rightarrow> usize \<Rightarrow> nat \<Rightarrow> mmu \<Rightarrow> mmu option" where
  "map_pages va pa 0 m = Some m"
| "map_pages va pa (Suc n) m = do {
     m1 \<leftarrow> map_page va pa m;
     map_pages (va + 4096) (pa + 4096) n m1
   }"

definition map_io_region :: "usize \<Rightarrow> usize \<Rightarrow> mmu \<Rightarrow> (usize \<times> mmu) option" where
  "map_io_region pa sz m = do {
     assert_that (IO_PERIPHERALS_MAP_OFFSET + pa + sz \<le> IO_PERIPHERALS_MAP_OFFSET + IO_PERIPHERALS_MAP_SIZE);
     let pa_aligned = pa AND NOT (of_nat PAGE_SIZE - 1);
     let size_adjusted = sz + (pa - pa_aligned);
     m1 \<leftarrow> map_pages (IO_PERIPHERALS_MAP_OFFSET + pa_aligned) pa_aligned ((unat size_adjusted + 4095) div 4096) m;
     Some (IO_PERIPHERALS_MAP_OFFSET + pa, m1)
   }"


section \<open>The translation of the hardware\<close>

text \<open>The walk of the architecture over four levels of 4 KiB tables: at level 3 a valid descriptor is a
  page, at levels 1 and 2 one with low bits \<open>01\<close> is a block. The result is the level and the leaf.\<close>

fun walk :: "(usize \<rightharpoonup> u64 list) \<Rightarrow> nat \<Rightarrow> usize \<Rightarrow> nat list \<Rightarrow> (nat \<times> u64) option" where
  "walk tb l t [] = None"
| "walk tb l t (i # is) =
     (case tb t of
        None \<Rightarrow> None
      | Some ds \<Rightarrow>
          if ds ! i AND 3 = 3 then (if l = 3 then Some (3, ds ! i) else walk tb (Suc l) (next_level_table (ds ! i)) is)
          else if ds ! i AND 3 = 1 \<and> (l = 1 \<or> l = 2) then Some (l, ds ! i)
          else None)"

definition va_path :: "usize \<Rightarrow> nat list" where
  "va_path va = [level_0_index va, level_1_index va, level_2_index va, level_3_index va]"

text \<open>The output address of a leaf at level \<open>l\<close>, which maps \<open>2 ^ (39 - 9 * l)\<close> bytes.\<close>

definition leaf_address :: "nat \<Rightarrow> u64 \<Rightarrow> usize \<Rightarrow> usize" where
  "leaf_address l d va = (d AND ADDR_MASK AND NOT (mask (39 - 9 * l))) OR (va AND mask (39 - 9 * l))"

definition translate :: "mmu \<Rightarrow> usize \<Rightarrow> (usize \<times> u64) option" where
  "translate m va =
     map_option (\<lambda>(l, d). (leaf_address l d va, d)) (walk (mmu_tables m) 0 (mmu_kernel_table m) (va_path va))"


section \<open>Lemmas on descriptors and indexes\<close>

lemma level_index_div:
  "level_0_index va = unat va div 2 ^ 39 mod 512" "level_1_index va = unat va div 2 ^ 30 mod 512"
  "level_2_index va = unat va div 2 ^ 21 mod 512" "level_3_index va = unat va div 2 ^ 12 mod 512"
proof -
  have m: "(0x1FF :: usize) = mask 9" by (simp add: mask_eq_decr_exp)
  have d: "unat (drop_bit k va) = unat va div 2 ^ k" for k
    by (simp only: unat_drop_bit_eq) (simp only: drop_bit_eq_div)
  have "unat (drop_bit k va AND 0x1FF) = unat va div 2 ^ k mod 512" for k
    unfolding m by (simp add: unat_and_mask d)
  then show "level_0_index va = unat va div 2 ^ 39 mod 512" "level_1_index va = unat va div 2 ^ 30 mod 512"
    "level_2_index va = unat va div 2 ^ 21 mod 512" "level_3_index va = unat va div 2 ^ 12 mod 512"
    by (simp_all add: level_0_index_def level_1_index_def level_2_index_def level_3_index_def level_shifts)
qed

lemma level_index_less [simp]:
  "level_0_index va < 512" "level_1_index va < 512" "level_2_index va < 512" "level_3_index va < 512"
  by (simp_all add: level_index_div)

lemma index_decompose:
  fixes n :: nat
  shows "n mod 2 ^ 36 = ((n div 2 ^ 27 mod 512 * 512 + n div 2 ^ 18 mod 512) * 512 + n div 2 ^ 9 mod 512) * 512 + n mod 512"
proof -
  have "n mod (512 * k) = 512 * (n div 512 mod k) + n mod 512" for n k :: nat
    by (rule mod_mult2_eq)
  from this [of n "512 * (512 * 512)"] this [of "n div 512" "512 * 512"] this [of "n div 512 div 512" 512]
  show ?thesis by (simp add: div_mult2_eq [symmetric] algebra_simps)
qed

text \<open>For kernel addresses the four indexes determine the page.\<close>

lemma va_path_eq_iff:
  assumes "\<not> is_user_address x" "\<not> is_user_address y"
  shows "va_path x = va_path y \<longleftrightarrow> unat x div 4096 = unat y div 4096"
proof -
  have top: "unat v div 4096 = 65535 * 2 ^ 36 + unat v div 4096 mod 2 ^ 36" if "\<not> is_user_address v" for v
  proof -
    have "0xffff000000000000 \<le> unat v" using that by (simp add: is_user_address_def not_less word_le_nat_alt)
    then have "unat v div 281474976710656 = 65535"
      using unat_less_64 [of v] by (intro div_nat_eqI) simp_all
    then have "unat v div 4096 div 2 ^ 36 = 65535" by (simp add: div_mult2_eq [symmetric])
    then show ?thesis by (metis div_mult_mod_eq)
  qed
  have idx: "va_path v = [unat v div 4096 div 2 ^ 27 mod 512, unat v div 4096 div 2 ^ 18 mod 512,
      unat v div 4096 div 2 ^ 9 mod 512, unat v div 4096 mod 512]" for v
    by (simp add: va_path_def level_index_div div_mult2_eq [symmetric])
  show ?thesis
  proof
    assume "va_path x = va_path y"
    then have "unat x div 4096 mod 2 ^ 36 = unat y div 4096 mod 2 ^ 36"
      unfolding idx index_decompose by simp
    with top [OF assms(1)] top [OF assms(2)] show "unat x div 4096 = unat y div 4096" by simp
  qed (simp add: idx)
qed

lemma aligned_low_bits:
  assumes "page_aligned a" "k < 12" shows "\<not> bit a k"
proof -
  have "unat (a AND mask 12) = 0" using assms(1) by (simp add: unat_and_mask page_aligned_def)
  then have "a AND mask 12 = 0" by (simp add: unsigned_eq_0_iff)
  moreover have "bit (a AND mask 12) k = bit a k" using assms(2) by (simp add: bit_simps)
  ultimately show ?thesis by simp
qed

lemma low_bits_3: "bit (3 :: u64) k \<longleftrightarrow> k < 2" "bit (3 :: nat) k \<longleftrightarrow> k < 2" "bit (3 :: int) k \<longleftrightarrow> k < 2"
proof -
  have m: "(3 :: u64) = mask 2" "(3 :: nat) = mask 2" "(3 :: int) = mask 2" by (simp_all add: mask_eq_exp_minus_1 mask_eq_decr_exp)
  show "bit (3 :: u64) k \<longleftrightarrow> k < 2" "bit (3 :: nat) k \<longleftrightarrow> k < 2" "bit (3 :: int) k \<longleftrightarrow> k < 2"
    unfolding m by (auto simp: bit_mask_iff)
qed

lemma word_and_3_eq: "d AND 3 = 3 \<longleftrightarrow> bit d 0 \<and> bit d 1" for d :: u64
proof -
  have m: "(3 :: u64) = mask 2" by (simp add: mask_eq_decr_exp)
  show ?thesis
  proof
    assume "d AND 3 = 3"
    then have "bit (d AND mask 2) k = bit (mask 2 :: u64) k" for k by (simp add: m)
    from this [of 0] this [of 1] show "bit d 0 \<and> bit d 1" by (simp add: bit_simps)
  next
    assume "bit d 0 \<and> bit d 1"
    then show "d AND 3 = 3" unfolding m by (intro bit_word_eqI) (auto simp: bit_simps less_2_cases_iff)
  qed
qed

lemma addr_mask_bit: "bit ADDR_MASK k \<longleftrightarrow> 12 \<le> k \<and> k < 48"
proof -
  have "ADDR_MASK = push_bit 12 (mask 36)" by (simp add: ADDR_MASK_def mask_eq_decr_exp push_bit_eq_mult)
  then have "bit ADDR_MASK k = bit (push_bit 12 (mask 36) :: u64) k" by simp
  then show ?thesis by (auto simp: bit_simps)
qed

lemma bit_high:
  fixes a :: usize
  assumes "unat a < 2 ^ n" "n \<le> k" shows "\<not> bit a k"
proof -
  have "unat a < 2 ^ k" using assms by (meson less_le_trans one_le_numeral power_increasing)
  then have "\<not> bit (unat a) k" by (simp add: bit_iff_odd)
  then show ?thesis by (simp add: bit_unsigned_iff)
qed

text \<open>A descriptor leads back to the table it was made for, and a page descriptor to its page.\<close>

lemma table_descriptor_roundtrip:
  assumes "page_aligned a" "unat a < unat LINEAR_MAP_SIZE"
  shows "next_level_table (a OR 3) = phys_to_virt a" "(a OR 3) AND 3 = 3"
proof -
  have "unat a < 2 ^ 44" using assms(2) by (simp add: map_layout_defs)
  then have "(a OR 3) AND ADDR_MASK = a"
    using aligned_low_bits [OF assms(1)] bit_high [of a 44]
    by (intro bit_word_eqI) (auto simp: bit_simps low_bits_3 addr_mask_bit not_le intro: ccontr)
  then show "next_level_table (a OR 3) = phys_to_virt a" by (simp add: next_level_table_def)
  show "(a OR 3) AND 3 = 3" by (simp add: word_and_3_eq bit_simps low_bits_3)
qed

lemma with_attributes_bits:
  "bit (with_attributes xn attr d) k \<longleftrightarrow> bit d k"
  if "k < 2 \<or> 12 \<le> k \<and> k < 48"
proof -
  have c: "bit (push_bit n (c :: u64)) k \<longleftrightarrow> n \<le> k \<and> k < 64 \<and> bit c (k - n)" for n c
    by (auto simp: bit_simps)
  have m: "(7 :: u64) = mask 3" "(3 :: u64) = mask 2" "(1 :: u64) = mask 1" "(2 :: u64) = push_bit 1 (mask 1)"
    by (simp_all add: mask_eq_decr_exp push_bit_eq_mult)
  have s: "bit (shareability_bits s) i \<Longrightarrow> i < 2" for s i
    by (cases s) (simp_all only: shareability_bits.simps m, auto simp: bit_simps)
  have t: "bit (mem_attr_bits s) i \<Longrightarrow> i < 2" for s i
    by (cases s) (simp_all only: mem_attr_bits.simps m, auto simp: bit_simps)
  have "\<not> bit EXECUTE_NEVER k" "\<not> bit ACCESS_FLAG k" "\<not> bit SHAREABILITY k" "\<not> bit ATTR_INDEX k"
    using that unfolding EXECUTE_NEVER_def ACCESS_FLAG_def SHAREABILITY_def ATTR_INDEX_def m c
    by (auto simp: bit_simps)
  moreover have "\<not> bit (push_bit 8 (shareability_bits InnerShareable)) k" "\<not> bit (push_bit 2 (mem_attr_bits attr)) k"
    using that s t unfolding c by fastforce+
  moreover have "k < 64" using that by auto
  ultimately show ?thesis
    by (simp add: with_attributes_def set_mem_attr_index_def set_execute_never_def set_accessed_def
        set_shareability_def bit_simps del: shareability_bits.simps) blast
qed

lemma page_leaf:
  assumes "page_aligned pa" "unat pa < 2 ^ 48"
  shows "with_attributes xn attr (pa OR 3) AND 3 = 3"
    and "leaf_address 3 (with_attributes xn attr (pa OR 3)) va = pa OR (va AND mask 12)"
proof -
  show "with_attributes xn attr (pa OR 3) AND 3 = 3"
    by (simp add: word_and_3_eq with_attributes_bits bit_simps low_bits_3)
  show "leaf_address 3 (with_attributes xn attr (pa OR 3)) va = pa OR (va AND mask 12)"
  proof (rule bit_word_eqI)
    fix k assume "k < LENGTH(64)"
    show "bit (leaf_address 3 (with_attributes xn attr (pa OR 3)) va) k \<longleftrightarrow> bit (pa OR (va AND mask 12)) k"
      using aligned_low_bits [OF assms(1), of k] bit_high [OF assms(2), of k] with_attributes_bits [of k xn attr "pa OR 3"]
      by (cases "k < 12"; cases "k < 48") (auto simp: leaf_address_def bit_simps addr_mask_bit low_bits_3)
  qed
qed


section \<open>The tree of tables\<close>

text \<open>The table a path of indexes leads to.\<close>

fun follow :: "(usize \<rightharpoonup> u64 list) \<Rightarrow> usize \<Rightarrow> nat list \<Rightarrow> usize option" where
  "follow tb t [] = Some t"
| "follow tb t (i # is) =
     (case tb t of
        None \<Rightarrow> None
      | Some ds \<Rightarrow> if ds ! i AND 3 = 3 then follow tb (next_level_table (ds ! i)) is else None)"

lemma follow_snoc:
  "follow tb t (p @ [i]) =
     (case follow tb t p of
        None \<Rightarrow> None
      | Some u \<Rightarrow> (case tb u of
          None \<Rightarrow> None
        | Some ds \<Rightarrow> if ds ! i AND 3 = 3 then Some (next_level_table (ds ! i)) else None))"
  by (induction p arbitrary: t) (auto split: option.split)

lemma follow_append:
  "follow tb t (p @ q) = (case follow tb t p of None \<Rightarrow> None | Some u \<Rightarrow> follow tb u q)"
  by (induction p arbitrary: t) (auto split: option.split)

definition table_path :: "nat list \<Rightarrow> bool" where
  "table_path p \<longleftrightarrow> length p \<le> 3 \<and> (\<forall>i \<in> set p. i < 512)"

lemma table_path_snoc: "table_path (p @ [i]) \<longleftrightarrow> table_path p \<and> length p < 3 \<and> i < 512"
  by (auto simp: table_path_def)

text \<open>A table in a frame taken from the allocator.\<close>

definition table_frame :: "bitmap_allocator \<Rightarrow> usize \<Rightarrow> bool" where
  "table_frame a t \<longleftrightarrow> (\<exists>p \<in> bitmap_owned a. t = phys_to_virt (of_nat p))"

text \<open>The invariant: every path leads to its own table, all tables are in frames taken from the
  allocator, and outside the linear map there are no blocks.\<close>

definition allocator_ok :: "bitmap_allocator \<Rightarrow> bool" where
  "allocator_ok a \<longleftrightarrow> bitmap_wf a \<and> ba_frame_size a = 4096 \<and> (\<forall>p \<in> bitmap_frames_of a. p < unat LINEAR_MAP_SIZE)"

definition tree_ok :: "(usize \<rightharpoonup> u64 list) \<Rightarrow> usize \<Rightarrow> bool" where
  "tree_ok tb root \<longleftrightarrow>
     (\<forall>p q t. table_path p \<longrightarrow> table_path q \<longrightarrow> follow tb root p = Some t \<longrightarrow> follow tb root q = Some t \<longrightarrow> p = q)
   \<and> (\<forall>p t. table_path p \<longrightarrow> follow tb root p = Some t \<longrightarrow> (\<exists>ds. tb t = Some ds \<and> length ds = 512))
   \<and> (\<forall>p t ds i. table_path p \<longrightarrow> length p < 3 \<longrightarrow> follow tb root p = Some t \<longrightarrow> tb t = Some ds \<longrightarrow> i < 512
        \<longrightarrow> hd (p @ [i]) \<noteq> LEVEL_0_LINEAR_INDEX \<longrightarrow> ds ! i AND 3 \<noteq> 1)"

definition mmu_wf :: "mmu \<Rightarrow> bool" where
  "mmu_wf m \<longleftrightarrow> tree_ok (mmu_tables m) (mmu_kernel_table m)
     \<and> (\<exists>mgr. mmu_frames m = Some mgr \<and> allocator_ok (bm_allocator mgr)
          \<and> (\<forall>p t. table_path p \<longrightarrow> follow (mmu_tables m) (mmu_kernel_table m) p = Some t
                \<longrightarrow> table_frame (bm_allocator mgr) t))"

text \<open>Writing a descriptor that makes a new table the child of an invalid entry.\<close>

definition link_table :: "usize \<Rightarrow> nat \<Rightarrow> u64 \<Rightarrow> usize \<Rightarrow> u64 list \<Rightarrow> (usize \<rightharpoonup> u64 list) \<Rightarrow> usize \<rightharpoonup> u64 list" where
  "link_table t i d n ds tb = tb(n \<mapsto> replicate 512 0, t \<mapsto> ds[i := d])"

lemma link_table_at:
  "link_table t i d n ds tb t = Some (ds[i := d])" "n \<noteq> t \<Longrightarrow> link_table t i d n ds tb n = Some (replicate 512 0)"
  "u \<noteq> t \<Longrightarrow> u \<noteq> n \<Longrightarrow> link_table t i d n ds tb u = tb u"
  by (simp_all add: link_table_def)

lemma tree_inj:
  "tree_ok tb root \<Longrightarrow> table_path p \<Longrightarrow> table_path q \<Longrightarrow> follow tb root p = Some t \<Longrightarrow> follow tb root q = Some t \<Longrightarrow> p = q"
  unfolding tree_ok_def by blast

lemma tree_length:
  "tree_ok tb root \<Longrightarrow> table_path p \<Longrightarrow> follow tb root p = Some t \<Longrightarrow> \<exists>ds. tb t = Some ds \<and> length ds = 512"
  unfolding tree_ok_def by blast

lemma tree_blocks:
  "tree_ok tb root \<Longrightarrow> table_path p \<Longrightarrow> length p < 3 \<Longrightarrow> follow tb root p = Some t \<Longrightarrow> tb t = Some ds \<Longrightarrow> i < 512
     \<Longrightarrow> hd (p @ [i]) \<noteq> LEVEL_0_LINEAR_INDEX \<Longrightarrow> ds ! i AND 3 \<noteq> 1"
  unfolding tree_ok_def by blast

lemma tree_okI:
  assumes "\<And>p q t. table_path p \<Longrightarrow> table_path q \<Longrightarrow> follow tb root p = Some t \<Longrightarrow> follow tb root q = Some t \<Longrightarrow> p = q"
    and "\<And>p t. table_path p \<Longrightarrow> follow tb root p = Some t \<Longrightarrow> \<exists>ds. tb t = Some ds \<and> length ds = 512"
    and "\<And>p t ds i. table_path p \<Longrightarrow> length p < 3 \<Longrightarrow> follow tb root p = Some t \<Longrightarrow> tb t = Some ds \<Longrightarrow> i < 512
        \<Longrightarrow> hd (p @ [i]) \<noteq> LEVEL_0_LINEAR_INDEX \<Longrightarrow> ds ! i AND 3 \<noteq> 1"
  shows "tree_ok tb root"
  unfolding tree_ok_def using assms by blast

text \<open>The situation in which a table is linked: \<open>t\<close>, at the path \<open>p\<close>, has no next table at \<open>i\<close>, and \<open>n\<close>
  is not in the tree.\<close>

definition can_link :: "(usize \<rightharpoonup> u64 list) \<Rightarrow> usize \<Rightarrow> nat list \<Rightarrow> usize \<Rightarrow> u64 list \<Rightarrow> nat \<Rightarrow> u64 \<Rightarrow> usize \<Rightarrow> bool" where
  "can_link tb root p t ds i d n \<longleftrightarrow> tree_ok tb root \<and> table_path p \<and> length p < 3 \<and> follow tb root p = Some t
     \<and> tb t = Some ds \<and> i < 512 \<and> ds ! i AND 3 \<noteq> 3 \<and> d AND 3 = 3 \<and> next_level_table d = n
     \<and> (\<forall>q. table_path q \<longrightarrow> follow tb root q \<noteq> Some n)"

lemma can_linkD:
  assumes "can_link tb root p t ds i d n"
  shows "tree_ok tb root" "table_path p" "length p < 3" "follow tb root p = Some t" "tb t = Some ds" "i < 512"
    "ds ! i AND 3 \<noteq> 3" "d AND 3 = 3" "next_level_table d = n" "n \<noteq> t" "length ds = 512"
    "table_path q \<Longrightarrow> follow tb root q \<noteq> Some n" "table_path q \<Longrightarrow> follow tb root q = Some t \<Longrightarrow> q = p"
proof -
  show g: "tree_ok tb root" "table_path p" "length p < 3" "follow tb root p = Some t" "tb t = Some ds" "i < 512"
    "ds ! i AND 3 \<noteq> 3" "d AND 3 = 3" "next_level_table d = n" "table_path q \<Longrightarrow> follow tb root q \<noteq> Some n" for q
    using assms unfolding can_link_def by blast+
  show "n \<noteq> t" using g(2,4) g(10) [of p] by auto
  show "length ds = 512" using tree_length [OF g(1,2,4)] g(5) by auto
  show "table_path q \<Longrightarrow> follow tb root q = Some t \<Longrightarrow> q = p" using tree_inj [OF g(1) _ g(2) _ g(4)] by blast
qed

lemma follow_link_table:
  assumes "can_link tb root p t ds i d n" and "table_path q"
  shows "follow (link_table t i d n ds tb) root q = (if q = p @ [i] then Some n else follow tb root q)"
  using assms(2)
proof (induction q rule: rev_induct)
  case (snoc j q)
  note L = can_linkD [OF assms(1)]
  have q: "table_path q" "j < 512" using snoc.prems by (simp_all add: table_path_snoc)
  note IH = snoc.IH [OF q(1)]
  show ?case
  proof (cases "q = p @ [i]")
    case True
    then have old: "follow tb root q = None" using L(4,5,7) by (simp add: follow_snoc)
    have new: "follow (link_table t i d n ds tb) root q = Some n" using IH True by simp
    have "q @ [j] \<noteq> p @ [i]" using True by auto
    with old new q(2) show ?thesis
      by (simp add: follow_snoc [of _ _ q j] link_table_at(2) [OF L(10)])
  next
    case False
    show ?thesis
    proof (cases "follow tb root q")
      case None
      with IH False L(4) show ?thesis by (auto simp: follow_snoc)
    next
      case (Some u)
      have un: "u \<noteq> n" using L(12) [OF q(1)] Some by blast
      have fu: "follow (link_table t i d n ds tb) root q = Some u" using IH False Some by simp
      show ?thesis
      proof (cases "u = t")
        case True
        then have "q = p" using L(13) [OF q(1)] Some by simp
        with True fu Some show ?thesis
          by (cases "j = i") (simp_all add: follow_snoc link_table_at L(5,6,8,9,11))
      next
        case False
        then have "q \<noteq> p" using Some L(4) by auto
        with fu Some show ?thesis by (simp add: follow_snoc link_table_at(3) [OF False un])
      qed
    qed
  qed
qed simp

lemma tree_ok_link_table:
  assumes "can_link tb root p t ds i d n"
  shows "tree_ok (link_table t i d n ds tb) root"
proof (rule tree_okI)
  let ?tb = "link_table t i d n ds tb"
  note L = can_linkD [OF assms] and f = follow_link_table [OF assms]
  show "q = r" if "table_path q" "table_path r" "follow ?tb root q = Some u" "follow ?tb root r = Some u" for q r u
  proof (cases "u = n")
    case True
    with that f [OF that(1)] f [OF that(2)] L(12) show ?thesis by (auto split: if_splits)
  next
    case False
    with that f [OF that(1)] f [OF that(2)] tree_inj [OF L(1) that(1,2)] show ?thesis by (auto split: if_splits)
  qed
  show "\<exists>es. ?tb u = Some es \<and> length es = 512" if "table_path q" "follow ?tb root q = Some u" for q u
  proof (cases "u = n")
    case True
    then show ?thesis by (simp add: link_table_at(2) [OF L(10)])
  next
    case False
    with that f [OF that(1)] have "follow tb root q = Some u" by (simp split: if_splits)
    from tree_length [OF L(1) that(1) this] False L(5,11) show ?thesis
      by (cases "u = t") (simp_all add: link_table_at)
  qed
  show "es ! j AND 3 \<noteq> 1" if q: "table_path q" "length q < 3" "follow ?tb root q = Some u" "?tb u = Some es"
    "j < 512" "hd (q @ [j]) \<noteq> LEVEL_0_LINEAR_INDEX" for q u es j
  proof (cases "u = n")
    case True
    with q(4,5) show ?thesis by (auto simp: link_table_at(2) [OF L(10)])
  next
    case False
    with q(3) f [OF q(1)] have fq: "follow tb root q = Some u" by (simp split: if_splits)
    show ?thesis
    proof (cases "u = t")
      case True
      then have "q = p" using L(13) [OF q(1)] fq by simp
      then have "j \<noteq> i \<Longrightarrow> ds ! j AND 3 \<noteq> 1" using tree_blocks [OF L(1-5) q(5)] q(6) by simp
      moreover have "es = ds[i := d]" using True q(4) by (simp add: link_table_at)
      ultimately show ?thesis using L(6,8,11) by (cases "j = i") auto
    next
      case False
      with \<open>u \<noteq> n\<close> q(4) have "tb u = Some es" by (simp add: link_table_at)
      from tree_blocks [OF L(1) q(1,2) fq this q(5,6)] show ?thesis .
    qed
  qed
qed

text \<open>A new empty table does not change any translation.\<close>

lemma walk_link_table:
  assumes "can_link tb root p t ds i d n" and "ds ! i AND 3 \<noteq> 1"
    and "follow tb root q = Some u" "length q + length js = 4" "\<forall>j \<in> set (q @ js). j < 512"
  shows "walk (link_table t i d n ds tb) (length q) u js = walk tb (length q) u js"
  using assms(3-5)
proof (induction js arbitrary: q u)
  case (Cons j js)
  let ?tb = "link_table t i d n ds tb"
  note L = can_linkD [OF assms(1)]
  have q: "table_path q" "j < 512" using Cons.prems by (auto simp: table_path_def)
  have un: "u \<noteq> n" using L(12) [OF q(1)] Cons.prems(1) by blast
  have next_: "walk ?tb (Suc (length q)) (next_level_table (es ! j)) js = walk tb (Suc (length q)) (next_level_table (es ! j)) js"
    if "tb u = Some es" "es ! j AND 3 = 3" for es
    using Cons.IH [of "q @ [j]" "next_level_table (es ! j)"] that Cons.prems by (simp add: follow_snoc)
  show ?case
  proof (cases "u = t")
    case True
    then have qp: "q = p" using L(13) [OF q(1)] Cons.prems(1) by simp
    show ?thesis
    proof (cases "j = i")
      case True
      then have "walk tb (length q) u (j # js) = None"
        using \<open>u = t\<close> L(5,7) assms(2) by simp
      moreover have "walk ?tb (Suc (length q)) n js = None"
        using Cons.prems(3) by (cases js) (simp_all add: link_table_at(2) [OF L(10)])
      ultimately show ?thesis
        using True \<open>u = t\<close> L(3,6,8,9,11) qp by (simp add: link_table_at)
    next
      case False
      with \<open>u = t\<close> next_ [OF L(5) [folded \<open>u = t\<close>]] L(5) show ?thesis by (simp add: link_table_at)
    qed
  next
    case False
    with un have "?tb u = tb u" by (simp add: link_table_at)
    with next_ show ?thesis by (auto split: option.split)
  qed
qed simp


section \<open>Creating tables and writing pages\<close>

definition free_frames :: "mmu \<Rightarrow> nat" where
  "free_frames m = (case mmu_frames m of
     None \<Rightarrow> 0 | Some mgr \<Rightarrow> card (bitmap_frames_of (bm_allocator mgr) - bitmap_owned (bm_allocator mgr)))"

lemma frame_address:
  assumes "allocator_ok a" "p \<in> bitmap_frames_of a"
  shows "unat (of_nat p :: usize) = p" "page_aligned (of_nat p)" "p < unat LINEAR_MAP_SIZE"
proof -
  show lt: "p < unat LINEAR_MAP_SIZE" using assms by (simp add: allocator_ok_def)
  then show u: "unat (of_nat p :: usize) = p" by (simp add: unat_of_nat map_layout_defs take_bit_nat_eq_self)
  obtain i where "p = ba_start a + i * 4096" "ba_start a mod 4096 = 0"
    using assms by (auto simp: allocator_ok_def bitmap_frames_of_def frame_addr_def bitmap_wf_def)
  then have "p mod 4096 = 0" by simp
  then show "page_aligned (of_nat p)" by (simp only: page_aligned_def u)
qed

lemma table_frame_inj:
  assumes "allocator_ok a" "p \<in> bitmap_frames_of a" "p \<notin> bitmap_owned a" "table_frame a t"
  shows "phys_to_virt (of_nat p) \<noteq> t"
proof
  assume eq: "phys_to_virt (of_nat p) = t"
  obtain q where q: "q \<in> bitmap_owned a" "t = phys_to_virt (of_nat q)" using assms(4) by (auto simp: table_frame_def)
  then have "q \<in> bitmap_frames_of a" using bitmap.owned_frames [of a] assms(1) by (auto simp: allocator_ok_def)
  with eq q(2) frame_address [OF assms(1,2)] frame_address [OF assms(1), of q] have "p = q"
    by (metis add_right_cancel phys_to_virt_def)
  with q(1) assms(3) show False by simp
qed

text \<open>\<open>PageTable::new\<close> finds a frame while one is free, and it is none of the tables in use.\<close>

lemma page_table_new_ok:
  assumes "mmu_frames m = Some mgr" "allocator_ok (bm_allocator mgr)" "0 < free_frames m"
  shows "\<exists>p mgr'. page_table_new m = Some (phys_to_virt (of_nat p),
        m\<lparr>mmu_tables := (mmu_tables m)(phys_to_virt (of_nat p) \<mapsto> replicate 512 0), mmu_frames := Some mgr'\<rparr>)
    \<and> p \<in> bitmap_frames_of (bm_allocator mgr) \<and> p \<notin> bitmap_owned (bm_allocator mgr)
    \<and> bitmap_owned (bm_allocator mgr') = insert p (bitmap_owned (bm_allocator mgr))
    \<and> bitmap_frames_of (bm_allocator mgr') = bitmap_frames_of (bm_allocator mgr)
    \<and> allocator_ok (bm_allocator mgr')
    \<and> card (bitmap_frames_of (bm_allocator mgr') - bitmap_owned (bm_allocator mgr')) = free_frames m - 1"
proof -
  let ?a = "bm_allocator mgr"
  have wf: "bitmap_wf ?a" using assms(2) by (simp add: allocator_ok_def)
  have "bitmap_owned ?a \<noteq> bitmap_frames_of ?a" using assms(1,3) by (auto simp: free_frames_def)
  then obtain p a' where p: "bitmap_alloc_frame ?a = (Some p, a')"
    using bitmap.alloc_fails_iff [OF wf] by (cases "bitmap_alloc_frame ?a") auto
  note f = bitmap_alloc_frame_Some [OF wf p]
  have "ba_frame_size a' = ba_frame_size ?a"
    using p by (auto simp: bitmap_alloc_frame_def Let_def split: option.splits prod.splits if_splits)
  then have ok: "allocator_ok a'" using f assms(2) by (simp add: allocator_ok_def)
  have fin: "finite (bitmap_frames_of ?a)" by (rule bitmap.finite_frames [OF wf])
  have "bitmap_frames_of a' - bitmap_owned a' = (bitmap_frames_of ?a - bitmap_owned ?a) - {p}"
    using f by auto
  then have card: "card (bitmap_frames_of a' - bitmap_owned a') = free_frames m - 1"
    using f fin assms(1) by (simp add: free_frames_def)
  have "alloc_page (mmu_frames m) = Some (Some (phys_to_virt (of_nat p)), Some (mgr\<lparr>bm_allocator := a'\<rparr>))"
    using p by (simp add: alloc_page_def alloc_frame_def assms(1))
  then show ?thesis
    using f ok card by (intro exI [of _ p] exI [of _ "mgr\<lparr>bm_allocator := a'\<rparr>"]) (simp add: page_table_new_def)
qed

lemma va_path_less: "\<forall>j \<in> set ([] @ va_path va). j < 512"
  by (simp add: va_path_def)

text \<open>\<open>get_or_create_next_leve_table\<close>: the table one level down, with all translations as they were.\<close>

lemma get_or_create_ok:
  assumes "mmu_wf m" "table_path p" "length p < 3" "follow (mmu_tables m) (mmu_kernel_table m) p = Some t" "i < 512"
    and "hd (p @ [i]) \<noteq> LEVEL_0_LINEAR_INDEX" "level \<noteq> Level3" "0 < free_frames m"
  shows "\<exists>t' m'. get_or_create_next_level_table t i level m = Some (t', m') \<and> mmu_wf m'
    \<and> mmu_kernel_table m' = mmu_kernel_table m \<and> mmu_user_table m' = mmu_user_table m
    \<and> follow (mmu_tables m') (mmu_kernel_table m) (p @ [i]) = Some t'
    \<and> (\<forall>va. translate m' va = translate m va) \<and> free_frames m - 1 \<le> free_frames m'"
proof -
  let ?tb = "mmu_tables m" and ?root = "mmu_kernel_table m"
  obtain mgr where mgr: "mmu_frames m = Some mgr" "allocator_ok (bm_allocator mgr)"
    and frames: "\<And>p t. table_path p \<Longrightarrow> follow ?tb ?root p = Some t \<Longrightarrow> table_frame (bm_allocator mgr) t"
    and tree: "tree_ok ?tb ?root"
    using assms(1) unfolding mmu_wf_def by blast
  obtain ds where ds: "?tb t = Some ds" "length ds = 512" using tree_length [OF tree assms(2,4)] by blast
  have no_block: "ds ! i AND 3 \<noteq> 1" using tree_blocks [OF tree assms(2-4) ds(1) assms(5,6)] .
  have get: "get_descriptor m t i = Some (ds ! i)" using ds assms(5) by (simp add: get_descriptor_def)
  show ?thesis
  proof (cases "ds ! i AND 3 = 3")
    case True
    then have "get_or_create_next_level_table t i level m = Some (next_level_table (ds ! i), m)"
      using get assms(7) by (simp add: get_or_create_next_level_table_def descriptor_from_def)
    moreover have "follow ?tb ?root (p @ [i]) = Some (next_level_table (ds ! i))"
      using True ds assms(4) by (simp add: follow_snoc)
    ultimately show ?thesis using assms(1) by auto
  next
    case False
    obtain q mgr' where new: "page_table_new m = Some (phys_to_virt (of_nat q),
        m\<lparr>mmu_tables := ?tb(phys_to_virt (of_nat q) \<mapsto> replicate 512 0), mmu_frames := Some mgr'\<rparr>)"
      "q \<in> bitmap_frames_of (bm_allocator mgr)" "q \<notin> bitmap_owned (bm_allocator mgr)"
      "bitmap_owned (bm_allocator mgr') = insert q (bitmap_owned (bm_allocator mgr))"
      "allocator_ok (bm_allocator mgr')"
      "card (bitmap_frames_of (bm_allocator mgr') - bitmap_owned (bm_allocator mgr')) = free_frames m - 1"
      using page_table_new_ok [OF mgr assms(8)] by blast
    let ?n = "phys_to_virt (of_nat q)" and ?d = "(of_nat q OR 3) :: u64"
    note addr = frame_address [OF mgr(2) new(2)]
    have v: "virt_to_phys ?n = of_nat q" using addr(1,3) by (simp add: virt_to_phys_to_virt)
    have d: "next_level_table ?d = ?n" "?d AND 3 = 3"
      using table_descriptor_roundtrip [OF addr(2)] addr(1,3) by simp_all
    have fresh: "\<And>q'. table_path q' \<Longrightarrow> follow ?tb ?root q' \<noteq> Some ?n"
      using frames table_frame_inj [OF mgr(2) new(2,3)] by blast
    then have nt: "?n \<noteq> t" using assms(2,4) by blast
    have link: "can_link ?tb ?root p t ds i ?d ?n"
      unfolding can_link_def using tree assms(2-5) ds False d fresh by blast
    let ?m' = "m\<lparr>mmu_tables := link_table t i ?d ?n ds ?tb, mmu_frames := Some mgr'\<rparr>"
    have "set_descriptor t i ?d (m\<lparr>mmu_tables := ?tb(?n \<mapsto> replicate 512 0), mmu_frames := Some mgr'\<rparr>) = Some ?m'"
      using ds assms(5) nt by (simp add: set_descriptor_def link_table_def)
    then have goc: "get_or_create_next_level_table t i level m = Some (?n, ?m')"
      using get False no_block new(1) v addr(2) d(1)
      by (simp add: get_or_create_next_level_table_def descriptor_from_def table_descriptor_new_def)
    have "table_frame (bm_allocator mgr') u" if "table_path q'" "follow (mmu_tables ?m') ?root q' = Some u" for q' u
      using follow_link_table [OF link that(1)] that frames [OF that(1)] new(4)
      by (auto simp: table_frame_def split: if_splits)
    then have wf: "mmu_wf ?m'"
      using tree_ok_link_table [OF link] new(5) by (simp add: mmu_wf_def)
    have tr: "translate ?m' va = translate m va" for va
      using walk_link_table [OF link no_block, of "[]" ?root "va_path va"] va_path_less [of va]
      by (simp add: translate_def) (simp add: va_path_def)
    have "table_path (p @ [i])" using assms(2,3,5) by (simp add: table_path_snoc)
    from follow_link_table [OF link this] wf tr goc new(6) show ?thesis
      by (intro exI [of _ ?n] exI [of _ ?m']) (simp add: free_frames_def)
  qed
qed


text \<open>Writing a page descriptor changes the translation of the one path that ends there.\<close>

lemma follow_set_page:
  assumes "tree_ok tb root" "table_path p" "length p = 3" "follow tb root p = Some t" "table_path q"
  shows "follow (tb(t \<mapsto> ds')) root q = follow tb root q"
  using assms(5)
proof (induction q rule: rev_induct)
  case (snoc j q)
  then have q: "table_path q" "length q < 3" by (simp_all add: table_path_snoc)
  have "u \<noteq> t" if "follow tb root q = Some u" for u
    using tree_inj [OF assms(1) q(1) assms(2)] that assms(3,4) q(2) by auto
  then show ?case using snoc.IH [OF q(1)] by (simp add: follow_snoc split: option.split)
qed simp

lemma walk_set_page:
  assumes "tree_ok tb root" "table_path p" "length p = 3" "follow tb root p = Some t" "tb t = Some ds"
    and "i < 512" "d AND 3 = 3"
    and "follow tb root q = Some u" "length q + length js = 4" "\<forall>j \<in> set (q @ js). j < 512" "length q < 4"
  shows "walk (tb(t \<mapsto> ds[i := d])) (length q) u js
    = (if q @ js = p @ [i] then Some (3, d) else walk tb (length q) u js)"
  using assms(8-11)
proof (induction js arbitrary: q u)
  case (Cons j js)
  let ?tb = "tb(t \<mapsto> ds[i := d])"
  have q: "table_path q" "j < 512" using Cons.prems by (auto simp: table_path_def)
  have lends: "length ds = 512" using tree_length [OF assms(1,2,4)] assms(5) by auto
  show ?case
  proof (cases "u = t")
    case True
    then have "q = p" using tree_inj [OF assms(1) q(1) assms(2)] Cons.prems(1) assms(4) by simp
    moreover from this have "js = []" using Cons.prems(2) assms(3) by simp
    ultimately show ?thesis using True assms(3,5-7) lends by (cases "j = i") auto
  next
    case False
    show ?thesis
    proof (cases "\<exists>es. tb u = Some es \<and> es ! j AND 3 = 3")
      case True
      then obtain es where es: "tb u = Some es" "es ! j AND 3 = 3" by blast
      have "walk ?tb (Suc (length q)) (next_level_table (es ! j)) js
          = (if q @ j # js = p @ [i] then Some (3, d) else walk tb (Suc (length q)) (next_level_table (es ! j)) js)"
        if "length q \<noteq> 3"
        using that Cons.IH [of "q @ [j]" "next_level_table (es ! j)"] es Cons.prems
        by (simp add: follow_snoc del: fun_upd_apply)
      moreover have "q @ j # js \<noteq> p @ [i]" if "length q = 3"
        using that Cons.prems False assms(4) by auto
      ultimately show ?thesis using False es by (simp add: fun_upd_other del: fun_upd_apply)
    next
      case none: False
      have "q @ j # js \<noteq> p @ [i]"
      proof
        assume eq: "q @ j # js = p @ [i]"
        have "js \<noteq> []" using eq False Cons.prems(1) assms(4) by auto
        then have p: "p = q @ j # butlast js"
          using arg_cong [OF eq, of butlast] by (simp add: butlast_append)
        have "follow tb u (j # butlast js) = None" using none by (auto split: option.split)
        with p assms(4) Cons.prems(1) show False by (simp add: follow_append)
      qed
      with False none show ?thesis by (auto split: option.split)
    qed
  qed
qed simp

lemma set_page_ok:
  assumes "mmu_wf m" "table_path p" "length p = 3" "follow (mmu_tables m) (mmu_kernel_table m) p = Some t" "i < 512"
    and "d AND 3 = 3"
  shows "\<exists>m'. set_descriptor t i d m = Some m' \<and> mmu_wf m' \<and> mmu_kernel_table m' = mmu_kernel_table m
    \<and> mmu_user_table m' = mmu_user_table m \<and> free_frames m' = free_frames m
    \<and> (\<forall>va. translate m' va = (if va_path va = p @ [i] then Some (leaf_address 3 d va, d) else translate m va))"
proof -
  let ?tb = "mmu_tables m" and ?root = "mmu_kernel_table m"
  have tree: "tree_ok ?tb ?root" using assms(1) unfolding mmu_wf_def by blast
  obtain ds where ds: "?tb t = Some ds" "length ds = 512" using tree_length [OF tree assms(2,4)] by blast
  let ?m' = "m\<lparr>mmu_tables := ?tb(t \<mapsto> ds[i := d])\<rparr>"
  note f = follow_set_page [OF tree assms(2-4)]
  have "tree_ok (?tb(t \<mapsto> ds[i := d])) ?root"
  proof (rule tree_okI)
    show "q = r" if "table_path q" "table_path r" "follow (?tb(t \<mapsto> ds[i := d])) ?root q = Some u"
      "follow (?tb(t \<mapsto> ds[i := d])) ?root r = Some u" for q r u
      using tree_inj [OF tree that(1,2)] that f by simp
    show "\<exists>es. (?tb(t \<mapsto> ds[i := d])) u = Some es \<and> length es = 512"
      if "table_path q" "follow (?tb(t \<mapsto> ds[i := d])) ?root q = Some u" for q u
      using tree_length [OF tree that(1)] that f ds(2) by auto
    show "es ! j AND 3 \<noteq> 1" if q: "table_path q" "length q < 3" "follow (?tb(t \<mapsto> ds[i := d])) ?root q = Some u"
      "(?tb(t \<mapsto> ds[i := d])) u = Some es" "j < 512" "hd (q @ [j]) \<noteq> LEVEL_0_LINEAR_INDEX" for q u es j
    proof -
      have fq: "follow ?tb ?root q = Some u" using q(1,3) f by simp
      then have "u \<noteq> t" using tree_inj [OF tree q(1) assms(2)] assms(3,4) q(2) by auto
      with q(4) have "?tb u = Some es" by simp
      from tree_blocks [OF tree q(1,2) fq this q(5,6)] show ?thesis .
    qed
  qed
  then have "mmu_wf ?m'" using assms(1) f by (simp add: mmu_wf_def)
  moreover have "translate ?m' va = (if va_path va = p @ [i] then Some (leaf_address 3 d va, d) else translate m va)" for va
  proof -
    have "length (va_path va) = 4" by (simp add: va_path_def)
    then have "walk (?tb(t \<mapsto> ds[i := d])) 0 ?root (va_path va)
        = (if va_path va = p @ [i] then Some (3, d) else walk ?tb 0 ?root (va_path va))"
      using walk_set_page [OF tree assms(2-4) ds(1) assms(5,6), of "[]" ?root "va_path va"] va_path_less [of va]
      by (simp del: fun_upd_apply)
    then show ?thesis by (simp add: translate_def del: fun_upd_apply)
  qed
  moreover have "set_descriptor t i d m = Some ?m'" using ds assms(5) by (simp add: set_descriptor_def)
  ultimately show ?thesis by (intro exI [of _ ?m']) (simp add: free_frames_def)
qed

lemma map_page_ok:
  assumes "mmu_wf m" "3 \<le> free_frames m" "\<not> is_user_address va" "page_attributes (level_0_index va) = Some attributes"
    and "page_aligned pa" "unat pa < 2 ^ 48"
  shows "\<exists>m'. map_page va pa m = Some m' \<and> mmu_wf m' \<and> mmu_kernel_table m' = mmu_kernel_table m
    \<and> free_frames m - 3 \<le> free_frames m'
    \<and> (\<forall>x. \<not> is_user_address x \<longrightarrow> translate m' x =
         (if unat x div 4096 = unat va div 4096 then Some (pa OR (x AND mask 12), attributes (pa OR 3)) else translate m x))"
proof -
  let ?i0 = "level_0_index va" and ?i1 = "level_1_index va" and ?i2 = "level_2_index va" and ?i3 = "level_3_index va"
  let ?d = "attributes (pa OR 3)"
  have i0: "?i0 \<noteq> LEVEL_0_LINEAR_INDEX" using assms(4) by (auto simp: page_attributes_def)
  obtain xn attr where attr: "attributes = with_attributes xn attr"
    using assms(4) by (auto simp: page_attributes_def split: if_splits)
  have leaf: "?d AND 3 = 3" "leaf_address 3 ?d x = pa OR (x AND mask 12)" for x
    using page_leaf [OF assms(5,6)] attr by simp_all
  have p: "table_path []" "table_path [?i0]" "table_path [?i0, ?i1]" "table_path [?i0, ?i1, ?i2]"
    by (simp_all add: table_path_def)
  obtain t1 m1 where 1: "get_or_create_next_level_table (mmu_kernel_table m) ?i0 Level0 m = Some (t1, m1)" "mmu_wf m1"
    "mmu_kernel_table m1 = mmu_kernel_table m" "follow (mmu_tables m1) (mmu_kernel_table m1) [?i0] = Some t1"
    "\<forall>x. translate m1 x = translate m x" "free_frames m - 1 \<le> free_frames m1"
    using get_or_create_ok [OF assms(1) p(1), of "mmu_kernel_table m" ?i0 Level0] i0 assms(2) by auto
  have f1: "0 < free_frames m1" using assms(2) 1(6) by linarith
  obtain t2 m2 where 2: "get_or_create_next_level_table t1 ?i1 Level1 m1 = Some (t2, m2)" "mmu_wf m2"
    "mmu_kernel_table m2 = mmu_kernel_table m1" "follow (mmu_tables m2) (mmu_kernel_table m2) [?i0, ?i1] = Some t2"
    "\<forall>x. translate m2 x = translate m1 x" "free_frames m1 - 1 \<le> free_frames m2"
    using get_or_create_ok [OF 1(2) p(2) _ 1(4), of ?i1 Level1] i0 f1 by (auto simp del: follow.simps)
  have f2: "0 < free_frames m2" using assms(2) 1(6) 2(6) by linarith
  obtain t3 m3 where 3: "get_or_create_next_level_table t2 ?i2 Level2 m2 = Some (t3, m3)" "mmu_wf m3"
    "mmu_kernel_table m3 = mmu_kernel_table m2" "follow (mmu_tables m3) (mmu_kernel_table m3) [?i0, ?i1, ?i2] = Some t3"
    "\<forall>x. translate m3 x = translate m2 x" "free_frames m2 - 1 \<le> free_frames m3"
    using get_or_create_ok [OF 2(2) p(3) _ 2(4), of ?i2 Level2] i0 f2 by (auto simp del: follow.simps)
  obtain m' where 4: "set_descriptor t3 ?i3 ?d m3 = Some m'" "mmu_wf m'" "mmu_kernel_table m' = mmu_kernel_table m3"
    "free_frames m' = free_frames m3"
    "\<forall>x. translate m' x = (if va_path x = [?i0, ?i1, ?i2] @ [?i3] then Some (leaf_address 3 ?d x, ?d) else translate m3 x)"
    using set_page_ok [OF 3(2) p(4) _ 3(4), of ?i3 ?d] leaf(1) by (auto simp del: follow.simps)
  have "map_page va pa m = Some m'"
    using 1(1) 2(1) 3(1) 4(1) assms(3,4,5) by (simp add: map_page_def page_descriptor_new_def)
  moreover have "translate m' x = (if unat x div 4096 = unat va div 4096 then Some (pa OR (x AND mask 12), ?d) else translate m x)"
    if "\<not> is_user_address x" for x
  proof -
    have "va_path x = [?i0, ?i1, ?i2] @ [?i3] \<longleftrightarrow> unat x div 4096 = unat va div 4096"
      using va_path_eq_iff [OF that assms(3)] by (simp add: va_path_def)
    then show ?thesis using 1(5) 2(5) 3(5) 4(5) leaf(2) by simp
  qed
  ultimately show ?thesis using 1(3,6) 2(3,6) 3(3,6) 4(2-4) by auto
qed


section \<open>The I/O window\<close>

lemma unat_io: "unat IO_PERIPHERALS_MAP_OFFSET = 18446691297151418368"
  by (simp add: map_layout_defs)

lemma unat_io_plus:
  assumes "unat x < 2 ^ 44" shows "unat (IO_PERIPHERALS_MAP_OFFSET + x) = 18446691297151418368 + unat x"
  using assms by (simp add: unat_word_ariths unat_io)

lemma io_index:
  assumes "unat x < 2 ^ 39"
  shows "level_0_index (IO_PERIPHERALS_MAP_OFFSET + x) = LEVEL_0_IO_INDEX"
    and "\<not> is_user_address (IO_PERIPHERALS_MAP_OFFSET + x)"
proof -
  have u: "unat (IO_PERIPHERALS_MAP_OFFSET + x) = 18446691297151418368 + unat x"
    using assms by (simp add: unat_io_plus)
  have "(18446691297151418368 + unat x) div 2 ^ 39 = 33554336"
    using assms by (intro div_nat_eqI) simp_all
  then show "level_0_index (IO_PERIPHERALS_MAP_OFFSET + x) = LEVEL_0_IO_INDEX"
    by (simp add: level_index_div u)
  show "\<not> is_user_address (IO_PERIPHERALS_MAP_OFFSET + x)"
    using u by (simp add: is_user_address_def not_less word_le_nat_alt)
qed

lemma unat_page_or:
  assumes "page_aligned pa" shows "unat (pa OR (x AND mask 12)) = unat pa + unat x mod 4096"
proof -
  have "pa AND (x AND mask 12) = 0"
    using aligned_low_bits [OF assms] by (intro bit_word_eqI) (auto simp: bit_simps)
  then have eq: "pa OR (x AND mask 12) = pa + (x AND mask 12)"
    using word_plus_and_or [of pa "x AND mask 12"] by simp
  obtain q where q: "unat pa = 4096 * q" using assms by (auto simp: page_aligned_def)
  have "q < 4503599627370496" using q unat_less_64 [of pa] by linarith
  then have "unat pa + unat x mod 4096 < 18446744073709551616"
    unfolding q using mod_less_divisor [of 4096 "unat x"] by linarith
  then show ?thesis by (simp add: eq unat_word_ariths unat_and_mask)
qed

text \<open>What a mapped I/O address translates to: itself, as device memory that is never executed.\<close>

definition io_translation :: "usize \<Rightarrow> usize \<times> u64" where
  "io_translation x = (x, with_attributes True DeviceNgnRnE (x AND NOT (mask 12) OR 3))"

lemma map_pages_io:
  assumes "mmu_wf m" "3 * n \<le> free_frames m" "page_aligned pa" "unat pa + 4096 * n \<le> 2 ^ 39"
  shows "\<exists>m'. map_pages (IO_PERIPHERALS_MAP_OFFSET + pa) pa n m = Some m' \<and> mmu_wf m'
    \<and> mmu_kernel_table m' = mmu_kernel_table m
    \<and> (\<forall>x. \<not> is_user_address x \<longrightarrow> translate m' x =
         (if unat IO_PERIPHERALS_MAP_OFFSET + unat pa \<le> unat x \<and> unat x < unat IO_PERIPHERALS_MAP_OFFSET + unat pa + 4096 * n
          then Some (io_translation (x - IO_PERIPHERALS_MAP_OFFSET)) else translate m x))"
  using assms
proof (induction n arbitrary: pa m)
  case (Suc n)
  let ?io = IO_PERIPHERALS_MAP_OFFSET
  have pa: "unat pa < 2 ^ 39" "unat pa + 4096 < 2 ^ 48" using Suc.prems(4) by simp_all
  have va: "unat (?io + pa) = unat ?io + unat pa" using pa by (simp add: unat_io_plus unat_io)
  have pa': "unat (pa + 4096) = unat pa + 4096" using pa by (simp add: unat_word_ariths)
  have al': "page_aligned (pa + 4096)" using Suc.prems(3) by (simp add: page_aligned_def pa')
  obtain m1 where m1: "map_page (?io + pa) pa m = Some m1" "mmu_wf m1" "mmu_kernel_table m1 = mmu_kernel_table m"
    "free_frames m - 3 \<le> free_frames m1"
    "\<forall>x. \<not> is_user_address x \<longrightarrow> translate m1 x =
       (if unat x div 4096 = unat (?io + pa) div 4096
        then Some (pa OR (x AND mask 12), with_attributes True DeviceNgnRnE (pa OR 3)) else translate m x)"
    using map_page_ok [OF Suc.prems(1), of "?io + pa" _ pa] io_index [OF pa(1)] Suc.prems pa(2)
    by (auto simp: page_attributes_def)
  have free: "3 * n \<le> free_frames m1" using Suc.prems(2) m1(4) by simp
  have "unat (pa + 4096) + 4096 * n \<le> 2 ^ 39" using Suc.prems(4) pa' by simp
  from Suc.IH [OF m1(2) free al' this]
  obtain m' where m': "map_pages (?io + (pa + 4096)) (pa + 4096) n m1 = Some m'" "mmu_wf m'"
    "mmu_kernel_table m' = mmu_kernel_table m1"
    "\<forall>x. \<not> is_user_address x \<longrightarrow> translate m' x =
       (if unat ?io + unat (pa + 4096) \<le> unat x \<and> unat x < unat ?io + unat (pa + 4096) + 4096 * n
        then Some (io_translation (x - ?io)) else translate m1 x)"
    by blast
  have page: "unat x div 4096 = unat (?io + pa) div 4096 \<longleftrightarrow> unat ?io + unat pa \<le> unat x \<and> unat x < unat ?io + unat pa + 4096" for x
  proof -
    obtain q where q: "unat ?io + unat pa = 4096 * q"
    proof (rule that)
      show "unat ?io + unat pa = 4096 * (unat pa div 4096 + 4503586742468608)"
        using Suc.prems(3) by (auto simp: page_aligned_def unat_io)
    qed
    have "(4096 * q) div 4096 = q" by simp
    then show ?thesis
      unfolding va q using div_mult_mod_eq [of "unat x" 4096] mod_less_divisor [of 4096 "unat x"]
      by (auto simp: div_nat_eqI)
  qed
  have first: "(pa OR (x AND mask 12), with_attributes True DeviceNgnRnE (pa OR 3)) = io_translation (x - ?io)"
    if x: "unat ?io + unat pa \<le> unat x" "unat x < unat ?io + unat pa + 4096" for x
  proof -
    have sub: "unat (x - ?io) = unat x - unat ?io" using x(1) by (simp add: unat_sub_if')
    obtain q where q: "unat pa = 4096 * q" using Suc.prems(3) by (auto simp: page_aligned_def)
    have xm: "unat x mod 4096 = unat x - unat ?io - unat pa"
    proof -
      have "unat x = (unat x - unat ?io - unat pa) + 4096 * (q + 4503586742468608)" using x(1) q by (simp add: unat_io)
      then show ?thesis using x by (metis add_less_imp_less_left diff_diff_left le_add_diff_inverse mod_less mod_mult_self2)
    qed
    have "unat (pa OR (x AND mask 12)) = unat (x - ?io)"
      unfolding unat_page_or [OF Suc.prems(3)] sub xm using x(1) by simp
    then have 1: "pa OR (x AND mask 12) = x - ?io" by (simp add: word_unat_eq_iff)
    have "unat ((x - ?io) AND NOT (mask 12)) = unat (x - ?io) div 2 ^ 12 * 2 ^ 12" by (rule unat_and_not_mask)
    also have "unat (x - ?io) div 2 ^ 12 = q" using sub x q by (intro div_nat_eqI) simp_all
    finally have "(x - ?io) AND NOT (mask 12) = pa" using q by (simp add: word_unat_eq_iff)
    with 1 show ?thesis by (simp add: io_translation_def)
  qed
  have "map_pages (?io + pa) pa (Suc n) m = Some m'"
    using m1(1) m'(1) by (simp add: add.assoc)
  moreover have "translate m' x =
      (if unat ?io + unat pa \<le> unat x \<and> unat x < unat ?io + unat pa + 4096 * Suc n
       then Some (io_translation (x - ?io)) else translate m x)" if "\<not> is_user_address x" for x
    using m1(5) m'(4) that page [of x] first [of x] pa' by auto
  ultimately show ?case using m1(3) m'(2,3) by auto
qed auto


section \<open>The tables at boot\<close>

definition block_entry :: "mem_attr_index \<Rightarrow> nat \<Rightarrow> u64" where
  "block_entry attr i = with_attributes False attr (of_nat (i * 2 ^ 30) OR 1)"

lemma those_map_Some: "(\<And>x. x \<in> set xs \<Longrightarrow> f x = Some (g x)) \<Longrightarrow> those (map f xs) = Some (map g xs)"
  by (induction xs) auto

lemma block_table_eq: "block_table attr = Some (map (block_entry attr) [0..<512])"
proof -
  have "block_descriptor_new_level_1 (of_nat (i * 2 ^ 30)) = Some (of_nat (i * 2 ^ 30) OR 1)" if "i < 512" for i
  proof -
    have "i * 2 ^ 30 < 2 ^ 64" using that by simp
    then have eq: "unat (of_nat (i * 2 ^ 30) :: usize) = i * 2 ^ 30"
      by (simp add: unat_of_nat take_bit_nat_eq_self del: of_nat_mult)
    have shift: "LEVEL_1_SHIFT = 30" by (simp add: level_shifts)
    have "unat (of_nat (i * 2 ^ 30) :: usize) mod 2 ^ LEVEL_1_SHIFT = 0"
      unfolding shift eq by simp
    then show ?thesis by (simp only: block_descriptor_new_level_1_def refl assert_that_True bind.bind_lunit)
  qed
  moreover have "LEVEL_1_SHIFT = 30" by (simp add: level_shifts)
  ultimately show ?thesis
    unfolding block_table_def
    by (intro those_map_Some) (simp add: block_entry_def del: of_nat_mult)
qed

lemma block_entry_bits:
  assumes "i < 512"
  shows "block_entry attr i AND 3 = 1" "leaf_address 1 (block_entry attr i) va = of_nat (i * 2 ^ 30) OR (va AND mask 30)"
proof -
  let ?b = "of_nat (i * 2 ^ 30) :: u64"
  have "i * 2 ^ 30 < 2 ^ 39" using assms by simp
  then have u: "unat ?b = i * 2 ^ 30"
    by (simp add: unat_of_nat take_bit_nat_eq_self del: of_nat_mult)
  have hi: "\<not> bit ?b k" if "39 \<le> k" for k using bit_high [of ?b 39 k] that u assms by simp
  have "?b AND mask 30 = 0" unfolding word_unat_eq_iff unat_and_mask u by simp
  have lo: "\<not> bit ?b k" if "k < 30" for k
  proof -
    have "bit (?b AND mask 30) k = bit ?b k" using that by (simp add: bit_simps del: of_nat_mult)
    with \<open>?b AND mask 30 = 0\<close> show ?thesis by simp
  qed
  have one: "bit (1 :: u64) k \<longleftrightarrow> k = 0" for k by (auto simp: bit_1_iff)
  show "block_entry attr i AND 3 = 1"
  proof (rule bit_word_eqI)
    fix k assume "k < LENGTH(64)"
    show "bit (block_entry attr i AND 3) k \<longleftrightarrow> bit (1 :: u64) k"
      using with_attributes_bits [of k False attr "?b OR 1"] lo [of k] one [of k]
      by (auto simp: block_entry_def bit_simps low_bits_3)
  qed
  show "leaf_address 1 (block_entry attr i) va = ?b OR (va AND mask 30)"
  proof (rule bit_word_eqI)
    fix k assume "k < LENGTH(64)"
    show "bit (leaf_address 1 (block_entry attr i) va) k \<longleftrightarrow> bit (?b OR (va AND mask 30)) k"
      using with_attributes_bits [of k False attr "?b OR 1"] lo [of k] hi [of k] one [of k]
      by (cases "k < 30"; cases "k < 48") (auto simp: leaf_address_def block_entry_def bit_simps addr_mask_bit)
  qed
qed


text \<open>The root with its three tables: one of blocks and two empty ones.\<close>

definition boot_root :: "u64 \<Rightarrow> u64 \<Rightarrow> u64 \<Rightarrow> u64 list" where
  "boot_root dl dh di = (((replicate 512 0)[LEVEL_0_LINEAR_INDEX := dl])[LEVEL_0_HEAP_INDEX := dh])[LEVEL_0_IO_INDEX := di]"

lemma boot_root_nth:
  assumes "i < 512"
  shows "boot_root dl dh di ! i = (if i = 256 then dl else if i = 320 then dh else if i = 416 then di else 0)"
  using assms by (simp add: boot_root_def nth_list_update)

lemma boot_tree:
  assumes tb: "tb k = Some (boot_root dl dh di)" "tb l = Some (map (block_entry attr) [0..<512])"
      "tb h = Some (replicate 512 0)" "tb io = Some (replicate 512 0)"
    and d: "dl AND 3 = 3" "dh AND 3 = 3" "di AND 3 = 3"
      "next_level_table dl = l" "next_level_table dh = h" "next_level_table di = io"
    and dist: "distinct [k, l, h, io]"
  shows "tree_ok tb k"
    and "table_path p \<Longrightarrow> follow tb k p = Some t \<Longrightarrow> t \<in> {k, l, h, io}"
    and "i0 < 512 \<Longrightarrow> i1 < 512 \<Longrightarrow> walk tb 0 k (i0 # i1 # is) =
      (if i0 = 256 then Some (1, block_entry attr i1) else None)"
proof -
  have ent: "map (block_entry attr) [0..<512] ! i AND 3 = 1" if "i < 512" for i
    using that block_entry_bits(1) [of i] by simp
  have f1: "follow tb k [i] = (if i = 256 then Some l else if i = 320 then Some h else if i = 416 then Some io else None)"
    if "i < 512" for i
    using that d by (simp add: tb(1) boot_root_nth)
  have f2: "follow tb k (i # j # is) = None" if "i < 512" "j < 512" for i j "is"
    using that d tb ent [OF that(2)] by (auto simp: boot_root_nth)
  have paths: "p = [] \<and> t = k \<or> p = [256] \<and> t = l \<or> p = [320] \<and> t = h \<or> p = [416] \<and> t = io"
    if "table_path p" "follow tb k p = Some t" for p t
  proof (cases p)
    case Nil
    then show ?thesis using that by simp
  next
    case (Cons i q)
    then have i: "i < 512" using that(1) by (simp add: table_path_def)
    show ?thesis
    proof (cases q)
      case Nil
      then show ?thesis using that Cons f1 [OF i] by (auto split: if_splits)
    next
      case (Cons j js)
      then show ?thesis using that \<open>p = i # q\<close> f2 [OF i, of j js] by (auto simp: table_path_def)
    qed
  qed
  show "table_path p \<Longrightarrow> follow tb k p = Some t \<Longrightarrow> t \<in> {k, l, h, io}" using paths by blast
  show "tree_ok tb k"
  proof (rule tree_okI)
    show "p = q" if "table_path p" "table_path q" "follow tb k p = Some t" "follow tb k q = Some t" for p q t
      using paths [OF that(1,3)] paths [OF that(2,4)] dist by auto
    show "\<exists>ds. tb t = Some ds \<and> length ds = 512" if "table_path p" "follow tb k p = Some t" for p t
      using paths [OF that] tb by (auto simp: boot_root_def)
    show "ds ! i AND 3 \<noteq> 1" if "table_path p" "length p < 3" "follow tb k p = Some t" "tb t = Some ds" "i < 512"
      "hd (p @ [i]) \<noteq> LEVEL_0_LINEAR_INDEX" for p t ds i
      using paths [OF that(1,3)] that tb d by (auto simp: boot_root_nth split: if_splits)
  qed
  show "walk tb 0 k (i0 # i1 # is) = (if i0 = 256 then Some (1, block_entry attr i1) else None)"
    if "i0 < 512" "i1 < 512"
    using that d tb ent [OF that(2)] by (auto simp: boot_root_nth)
qed

text \<open>Six tables from six free frames.\<close>

lemma fresh_table:
  assumes "mmu_frames m = Some mgr" "allocator_ok (bm_allocator mgr)" "0 < free_frames m"
    and "\<forall>t \<in> set ts. table_frame (bm_allocator mgr) t" "distinct ts"
  shows "\<exists>p mgr'. page_table_new m = Some (phys_to_virt (of_nat p),
        m\<lparr>mmu_tables := (mmu_tables m)(phys_to_virt (of_nat p) \<mapsto> replicate 512 0), mmu_frames := Some mgr'\<rparr>)
    \<and> p \<in> bitmap_frames_of (bm_allocator mgr') \<and> allocator_ok (bm_allocator mgr')
    \<and> card (bitmap_frames_of (bm_allocator mgr') - bitmap_owned (bm_allocator mgr')) = free_frames m - 1
    \<and> (\<forall>t \<in> set (phys_to_virt (of_nat p) # ts). table_frame (bm_allocator mgr') t)
    \<and> distinct (phys_to_virt (of_nat p) # ts)"
proof -
  obtain p mgr' where p: "page_table_new m = Some (phys_to_virt (of_nat p),
        m\<lparr>mmu_tables := (mmu_tables m)(phys_to_virt (of_nat p) \<mapsto> replicate 512 0), mmu_frames := Some mgr'\<rparr>)"
    "p \<in> bitmap_frames_of (bm_allocator mgr)" "p \<notin> bitmap_owned (bm_allocator mgr)"
    "bitmap_owned (bm_allocator mgr') = insert p (bitmap_owned (bm_allocator mgr))"
    "bitmap_frames_of (bm_allocator mgr') = bitmap_frames_of (bm_allocator mgr)" "allocator_ok (bm_allocator mgr')"
    "card (bitmap_frames_of (bm_allocator mgr') - bitmap_owned (bm_allocator mgr')) = free_frames m - 1"
    using page_table_new_ok [OF assms(1-3)] by blast
  have "phys_to_virt (of_nat p) \<notin> set ts"
    using table_frame_inj [OF assms(2) p(2,3)] assms(4) by blast
  moreover have "table_frame (bm_allocator mgr') t" if "t = phys_to_virt (of_nat p) \<or> t \<in> set ts" for t
    using that assms(4) p(4) by (auto simp: table_frame_def)
  ultimately show ?thesis using p assms(5) by (intro exI [of _ p] exI [of _ mgr']) auto
qed


lemma free_frames_simps [simp]:
  "free_frames (m\<lparr>mmu_tables := tb\<rparr>) = free_frames m"
  "free_frames (m\<lparr>mmu_tables := tb, mmu_frames := Some mgr\<rparr>)
     = card (bitmap_frames_of (bm_allocator mgr) - bitmap_owned (bm_allocator mgr))"
  by (simp_all add: free_frames_def)

lemma table_desc_new:
  assumes "allocator_ok a" "p \<in> bitmap_frames_of a"
  shows "table_descriptor_new (virt_to_phys (phys_to_virt (of_nat p))) = Some (of_nat p OR 3)"
    and "next_level_table (of_nat p OR 3) = phys_to_virt (of_nat p)" "(of_nat p OR 3 :: u64) AND 3 = 3"
proof -
  note a = frame_address [OF assms]
  have l: "unat (of_nat p :: usize) < unat LINEAR_MAP_SIZE" using a(1,3) by simp
  show "next_level_table (of_nat p OR 3) = phys_to_virt (of_nat p)" "(of_nat p OR 3 :: u64) AND 3 = 3"
    using table_descriptor_roundtrip [OF a(2) l] by blast+
  show "table_descriptor_new (virt_to_phys (phys_to_virt (of_nat p))) = Some (of_nat p OR 3)"
    by (simp add: table_descriptor_new_def virt_to_phys_to_virt [OF l] a(2))
qed

lemma setup_page_tables_ok:
  assumes "mmu_frames m = Some mgr" "allocator_ok (bm_allocator mgr)" "6 \<le> free_frames m"
  shows "\<exists>m'. setup_page_tables m = Some m' \<and> mmu_wf m' \<and> free_frames m - 6 \<le> free_frames m'
    \<and> (\<forall>i0 i1 is. i0 < 512 \<longrightarrow> i1 < 512 \<longrightarrow> walk (mmu_tables m') 0 (mmu_kernel_table m') (i0 # i1 # is)
         = (if i0 = LEVEL_0_LINEAR_INDEX then Some (1, block_entry NormalWriteBack i1) else None))"
proof -
  let ?v = "\<lambda>p :: nat. phys_to_virt (of_nat p)" and ?z = "replicate 512 0 :: u64 list"
  let ?new = "\<lambda>m p mgr'. m\<lparr>mmu_tables := (mmu_tables m)(?v p \<mapsto> ?z), mmu_frames := Some mgr'\<rparr>"
  have f1: "0 < free_frames m" using assms(3) by simp
  obtain p1 g1 where 1: "page_table_new m = Some (?v p1, ?new m p1 g1)" "allocator_ok (bm_allocator g1)"
    "card (bitmap_frames_of (bm_allocator g1) - bitmap_owned (bm_allocator g1)) = free_frames m - 1"
    "\<forall>t \<in> set [?v p1]. table_frame (bm_allocator g1) t" "distinct [?v p1]"
    using fresh_table [OF assms(1,2) f1, of "[]"] by auto
  let ?m1 = "?new m p1 g1"
  have f2: "mmu_frames ?m1 = Some g1" "0 < free_frames ?m1" "free_frames ?m1 = free_frames m - 1"
    using 1(3) assms(3) by simp_all
  obtain p2 g2 where 2: "page_table_new ?m1 = Some (?v p2, ?new ?m1 p2 g2)" "allocator_ok (bm_allocator g2)"
    "card (bitmap_frames_of (bm_allocator g2) - bitmap_owned (bm_allocator g2)) = free_frames ?m1 - 1"
    "\<forall>t \<in> set [?v p2, ?v p1]. table_frame (bm_allocator g2) t" "distinct [?v p2, ?v p1]"
    using fresh_table [OF f2(1) 1(2) f2(2) 1(4,5)] by blast
  let ?m2 = "?new ?m1 p2 g2"
  have f3: "mmu_frames ?m2 = Some g2" "0 < free_frames ?m2" "free_frames ?m2 = free_frames m - 2"
    using 2(3) f2(3) assms(3) by simp_all
  obtain p3 g3 where 3: "page_table_new ?m2 = Some (?v p3, ?new ?m2 p3 g3)" "p3 \<in> bitmap_frames_of (bm_allocator g3)"
    "allocator_ok (bm_allocator g3)"
    "card (bitmap_frames_of (bm_allocator g3) - bitmap_owned (bm_allocator g3)) = free_frames ?m2 - 1"
    "\<forall>t \<in> set [?v p3, ?v p2, ?v p1]. table_frame (bm_allocator g3) t" "distinct [?v p3, ?v p2, ?v p1]"
    using fresh_table [OF f3(1) 2(2) f3(2) 2(4,5)] by blast
  let ?ub = "map (block_entry DeviceNgnRnE) [0..<512]"
  let ?m3 = "?new ?m2 p3 g3"
  let ?m3' = "?m3\<lparr>mmu_tables := ((mmu_tables ?m3)(?v p3 \<mapsto> ?ub))(?v p1 \<mapsto> ?z[0 := of_nat p3 OR 3])\<rparr>"
  have user: "set_descriptor (?v p1) (level_0_index USER_MAP_OFFSET) (of_nat p3 OR 3)
      (?m3\<lparr>mmu_tables := (mmu_tables ?m3)(?v p3 \<mapsto> ?ub)\<rparr>) = Some ?m3'"
  proof -
    have "?v p1 \<noteq> ?v p2" "?v p1 \<noteq> ?v p3" using 3(6) by auto
    then show ?thesis by (simp add: set_descriptor_def level_index_div map_layout_defs)
  qed
  have f4: "mmu_frames ?m3' = Some g3" "0 < free_frames ?m3'" "free_frames ?m3' = free_frames m - 3"
    using 3(4) f3(3) assms(3) by (simp_all add: free_frames_def)
  obtain p4 g4 where 4: "page_table_new ?m3' = Some (?v p4, ?new ?m3' p4 g4)" "p4 \<in> bitmap_frames_of (bm_allocator g4)"
    "allocator_ok (bm_allocator g4)"
    "card (bitmap_frames_of (bm_allocator g4) - bitmap_owned (bm_allocator g4)) = free_frames ?m3' - 1"
    "\<forall>t \<in> set [?v p4, ?v p3, ?v p2, ?v p1]. table_frame (bm_allocator g4) t" "distinct [?v p4, ?v p3, ?v p2, ?v p1]"
    using fresh_table [OF f4(1) 3(3) f4(2) 3(5,6)] by blast
  let ?m4 = "?new ?m3' p4 g4"
  have f5: "mmu_frames ?m4 = Some g4" "0 < free_frames ?m4" "free_frames ?m4 = free_frames m - 4"
    using 4(4) f4(3) assms(3) by (simp_all add: free_frames_def)
  obtain p5 g5 where 5: "page_table_new ?m4 = Some (?v p5, ?new ?m4 p5 g5)" "p5 \<in> bitmap_frames_of (bm_allocator g5)"
    "allocator_ok (bm_allocator g5)"
    "card (bitmap_frames_of (bm_allocator g5) - bitmap_owned (bm_allocator g5)) = free_frames ?m4 - 1"
    "\<forall>t \<in> set [?v p5, ?v p4, ?v p3, ?v p2, ?v p1]. table_frame (bm_allocator g5) t"
    "distinct [?v p5, ?v p4, ?v p3, ?v p2, ?v p1]"
    using fresh_table [OF f5(1) 4(3) f5(2) 4(5,6)] by blast
  let ?m5 = "?new ?m4 p5 g5"
  have f6: "mmu_frames ?m5 = Some g5" "0 < free_frames ?m5" "free_frames ?m5 = free_frames m - 5"
    using 5(4) f5(3) assms(3) by (simp_all add: free_frames_def)
  obtain p6 g6 where 6: "page_table_new ?m5 = Some (?v p6, ?new ?m5 p6 g6)" "p6 \<in> bitmap_frames_of (bm_allocator g6)"
    "allocator_ok (bm_allocator g6)"
    "card (bitmap_frames_of (bm_allocator g6) - bitmap_owned (bm_allocator g6)) = free_frames ?m5 - 1"
    "\<forall>t \<in> set [?v p6, ?v p5, ?v p4, ?v p3, ?v p2, ?v p1]. table_frame (bm_allocator g6) t"
    "distinct [?v p6, ?v p5, ?v p4, ?v p3, ?v p2, ?v p1]"
    using fresh_table [OF f6(1) 5(3) f6(2) 5(5,6)] by blast
  let ?m6 = "?new ?m5 p6 g6"
  let ?l = "?v p4" and ?h = "?v p5" and ?io = "?v p6" and ?k = "?v p2"
  let ?dl = "of_nat p4 OR 3 :: u64" and ?dh = "of_nat p5 OR 3 :: u64" and ?di = "of_nat p6 OR 3 :: u64"
  let ?lb = "map (block_entry NormalWriteBack) [0..<512]"
  define m' where "m' = ?m6\<lparr>mmu_tables := (mmu_tables ?m6)(?k \<mapsto> boot_root ?dl ?dh ?di, ?l \<mapsto> ?lb),
    mmu_kernel_table := ?k, mmu_user_table := ?v p1\<rparr>"
  have ne: "?k \<noteq> ?l" "?k \<noteq> ?h" "?k \<noteq> ?io" "?l \<noteq> ?h" "?l \<noteq> ?io" "?h \<noteq> ?io"
    "?k \<noteq> ?v p1" "?l \<noteq> ?v p1" "?h \<noteq> ?v p1" "?io \<noteq> ?v p1" "?k \<noteq> ?v p3" "?h \<noteq> ?v p3" "?io \<noteq> ?v p3" "?l \<noteq> ?v p3"
    using 6(6) by auto
  note d = table_desc_new [OF 3(3,2)] table_desc_new [OF 4(3,2)] table_desc_new [OF 5(3,2)] table_desc_new [OF 6(3,2)]
  have root: "mmu_tables ?m6 ?k = Some ?z" using ne by simp
  have "set_descriptor ?k LEVEL_0_LINEAR_INDEX ?dl ?m6 = Some (?m6\<lparr>mmu_tables := (mmu_tables ?m6)(?k \<mapsto> ?z[256 := ?dl])\<rparr>)"
    using root by (simp add: set_descriptor_def del: fun_upd_apply)
  moreover have "set_descriptor ?k LEVEL_0_HEAP_INDEX ?dh (?m6\<lparr>mmu_tables := (mmu_tables ?m6)(?k \<mapsto> ?z[256 := ?dl])\<rparr>)
      = Some (?m6\<lparr>mmu_tables := (mmu_tables ?m6)(?k \<mapsto> (?z[256 := ?dl])[320 := ?dh])\<rparr>)"
    by (simp add: set_descriptor_def)
  moreover have "set_descriptor ?k LEVEL_0_IO_INDEX ?di (?m6\<lparr>mmu_tables := (mmu_tables ?m6)(?k \<mapsto> (?z[256 := ?dl])[320 := ?dh])\<rparr>)
      = Some (?m6\<lparr>mmu_tables := (mmu_tables ?m6)(?k \<mapsto> boot_root ?dl ?dh ?di)\<rparr>)"
    by (simp add: set_descriptor_def boot_root_def)
  ultimately have result: "setup_page_tables m = Some m'"
    unfolding setup_page_tables_def m'_def
    using 1(1) 2(1) 3(1) user 4(1) 5(1) 6(1) d(1,4,7,10) block_table_eq
    by (simp add: Let_def del: fun_upd_apply level_0_indexes)
  have tb: "mmu_tables m' ?k = Some (boot_root ?dl ?dh ?di)" "mmu_tables m' ?l = Some ?lb"
    "mmu_tables m' ?h = Some ?z" "mmu_tables m' ?io = Some ?z" "mmu_kernel_table m' = ?k" "mmu_frames m' = Some g6"
    using ne by (simp_all add: m'_def)
  have dist: "distinct [?k, ?l, ?h, ?io]" using ne by simp
  note tree = boot_tree [OF tb(1-4) d(6,9,12) d(5,8,11) dist]
  have "table_frame (bm_allocator g6) t" if "table_path p" "follow (mmu_tables m') ?k p = Some t" for p t
    using tree(2) [OF that] 6(5) by auto
  then have "mmu_wf m'" using tree(1) tb(5,6) 6(3) by (simp add: mmu_wf_def)
  moreover have "free_frames m' = free_frames m - 6"
    using 6(4) f6(3) tb(6) by (simp add: free_frames_def)
  ultimately show ?thesis
    using result tree(3) tb(5) by (intro exI [of _ m']) simp
qed


section \<open>Properties\<close>

text \<open>C13: \<open>setup_page_tables\<close> succeeds with six free frames and leaves tables in which the linear map of
  the first 512 GiB translates every address to its offset, as normal memory, and in which no other
  kernel address is mapped.\<close>

theorem boot_tables_map_linear:
  assumes "mmu_frames m = Some mgr" "allocator_ok (bm_allocator mgr)" "6 \<le> free_frames m"
  shows "\<exists>m'. setup_page_tables m = Some m' \<and> mmu_wf m'
    \<and> (\<forall>va. translate m' va = (if level_0_index va = LEVEL_0_LINEAR_INDEX
         then Some (of_nat (unat va mod 2 ^ 39), block_entry NormalWriteBack (level_1_index va)) else None))"
proof -
  obtain m' where m': "setup_page_tables m = Some m'" "mmu_wf m'"
    "\<forall>i0 i1 is. i0 < 512 \<longrightarrow> i1 < 512 \<longrightarrow> walk (mmu_tables m') 0 (mmu_kernel_table m') (i0 # i1 # is)
         = (if i0 = LEVEL_0_LINEAR_INDEX then Some (1, block_entry NormalWriteBack i1) else None)"
    using setup_page_tables_ok [OF assms] by blast
  have leaf: "leaf_address 1 (block_entry NormalWriteBack (level_1_index va)) va = of_nat (unat va mod 2 ^ 39)" for va
  proof -
    let ?b = "of_nat (level_1_index va * 2 ^ 30) :: usize"
    have "level_1_index va * 1073741824 < 18446744073709551616" using level_index_less(2) [of va] by linarith
    then have u: "unat ?b = level_1_index va * 2 ^ 30"
      by (simp add: unat_of_nat take_bit_nat_eq_self del: of_nat_mult)
    have "?b AND (va AND mask 30) = (?b AND mask 30) AND va" by (simp only: and.assoc and.commute)
    moreover have "?b AND mask 30 = 0" unfolding word_unat_eq_iff unat_and_mask u by simp
    ultimately have "?b OR (va AND mask 30) = ?b + (va AND mask 30)"
      using word_plus_and_or [of ?b "va AND mask 30"] by simp
    moreover have "unat (?b + (va AND mask 30)) = unat ?b + unat (va AND mask 30)"
    proof -
      have "unat va mod 1073741824 < 1073741824" by simp
      then have "level_1_index va * 1073741824 + unat va mod 1073741824 < 18446744073709551616"
        using level_index_less(2) [of va] by linarith
      then show ?thesis
        using u unat_and_mask [of va 30] by (simp add: unat_word_ariths(1) del: of_nat_mult)
    qed
    moreover have "unat va mod 2 ^ 39 = level_1_index va * 2 ^ 30 + unat va mod 2 ^ 30"
      using mod_mult2_eq [of "unat va" "2 ^ 30" 512] by (simp add: level_index_div mult.commute)
    moreover have "unat (of_nat (unat va mod 2 ^ 39) :: usize) = unat va mod 2 ^ 39"
      using mod_less_divisor [of "2 ^ 39" "unat va"] by (simp add: unat_of_nat take_bit_nat_eq_self)
    ultimately show ?thesis
      using block_entry_bits(2) [OF level_index_less(2) [of va], of NormalWriteBack va] u unat_and_mask [of va 30]
      by (simp add: word_unat_eq_iff del: of_nat_mult)
  qed
  have "translate m' va = (if level_0_index va = LEVEL_0_LINEAR_INDEX
         then Some (of_nat (unat va mod 2 ^ 39), block_entry NormalWriteBack (level_1_index va)) else None)" for va
    using m'(3) leaf [of va] by (simp add: translate_def va_path_def)
  with m'(1,2) show ?thesis by blast
qed


text \<open>An allocator of 95 free frames, and the tables \<open>setup_page_tables\<close> makes of it.\<close>

definition example_mmu :: mmu where
  "example_mmu = \<lparr>mmu_tables = Map.empty, mmu_kernel_table = 0, mmu_user_table = 0,
     mmu_frames = Some \<lparr>bm_available_mem = [], bm_reserved_mem = [], bm_kernel_region = (0, 0),
       bm_allocator = \<lparr>ba_frame_size = 4096, ba_total_frames = 96, ba_bitmap_frames = 1, ba_start = 0x100000,
         ba_words = bitmap_init_words 1 4096\<rparr>\<rparr>\<rparr>"

lemma bitmap_new_96:
  "bitmap_new 0x100000 0x60000 4096 = Some \<lparr>ba_frame_size = 4096, ba_total_frames = 96,
     ba_bitmap_frames = 1, ba_start = 0x100000, ba_words = bitmap_init_words 1 4096\<rparr>"
  by (simp add: bitmap_new_def Let_def next_multiple_of_def)

lemma example_mmu_ok:
  "\<exists>mgr. mmu_frames example_mmu = Some mgr \<and> allocator_ok (bm_allocator mgr) \<and> free_frames example_mmu = 95"
proof -
  let ?a = "\<lparr>ba_frame_size = 4096, ba_total_frames = 96, ba_bitmap_frames = 1, ba_start = 0x100000,
    ba_words = bitmap_init_words 1 4096\<rparr>"
  note a = bitmap_new_Some [OF bitmap_new_96]
  have "allocator_ok ?a"
    unfolding allocator_ok_def using a(1)
    by (auto simp: bitmap_frames_of_def frame_addr_def map_layout_defs)
  moreover have "inj_on (frame_addr ?a) {1..<96}" by (auto simp: inj_on_def frame_addr_def)
  then have "card (bitmap_frames_of ?a) = 95" by (simp add: bitmap_frames_of_def card_image)
  ultimately show ?thesis using a(2) by (simp add: example_mmu_def free_frames_def)
qed

theorem boot_tables_map_linear_witness:
  "\<exists>m'. setup_page_tables example_mmu = Some m' \<and> mmu_wf m' \<and> fst (the (translate m' 0xffff80003f201004)) = 0x3f201004"
proof -
  obtain mgr where "mmu_frames example_mmu = Some mgr" "allocator_ok (bm_allocator mgr)" "free_frames example_mmu = 95"
    using example_mmu_ok by blast
  from boot_tables_map_linear [OF this(1,2)] this(3) show ?thesis
    by (fastforce simp: level_index_div)
qed

lemma example_tables:
  "\<exists>m. setup_page_tables example_mmu = Some m \<and> mmu_wf m \<and> 89 \<le> free_frames m"
proof -
  obtain mgr where "mmu_frames example_mmu = Some mgr" "allocator_ok (bm_allocator mgr)" "free_frames example_mmu = 95"
    using example_mmu_ok by blast
  from setup_page_tables_ok [OF this(1,2)] this(3) show ?thesis by auto
qed

text \<open>C3: The page tables implement a finite map from pages to frames: \<open>map_page\<close> on a page of the heap or the
  I/O window, with three free frames, always succeeds, keeps the tables well formed, and changes the
  translation of that page only, to the frame and the memory type of the window.\<close>

theorem map_page_updates_one_page:
  assumes "mmu_wf m" "3 \<le> free_frames m" "\<not> is_user_address va"
    and "level_0_index va = LEVEL_0_HEAP_INDEX \<or> level_0_index va = LEVEL_0_IO_INDEX"
    and "page_aligned pa" "unat pa < 2 ^ 48"
  shows "\<exists>m'. map_page va pa m = Some m' \<and> mmu_wf m' \<and> free_frames m - 3 \<le> free_frames m'
    \<and> (\<forall>x. \<not> is_user_address x \<longrightarrow> translate m' x =
         (if unat x div 4096 = unat va div 4096
          then Some (pa OR (x AND mask 12),
            with_attributes True (if level_0_index va = LEVEL_0_IO_INDEX then DeviceNgnRnE else NormalWriteBack) (pa OR 3))
          else translate m x))"
proof -
  have "page_attributes (level_0_index va) =
      Some (with_attributes True (if level_0_index va = LEVEL_0_IO_INDEX then DeviceNgnRnE else NormalWriteBack))"
    using assms(4) by (auto simp: page_attributes_def)
  from map_page_ok [OF assms(1-3) this assms(5,6)] show ?thesis by blast
qed

theorem map_page_updates_one_page_witness:
  "\<exists>m m'. setup_page_tables example_mmu = Some m \<and> map_page 0xffffa00000000000 0x108000 m = Some m' \<and> mmu_wf m'
     \<and> map_option fst (translate m' 0xffffa00000000123) = Some 0x108123"
proof -
  obtain m where m: "setup_page_tables example_mmu = Some m" "mmu_wf m" "89 \<le> free_frames m"
    using example_tables by blast
  have "\<not> is_user_address 0xffffa00000000000" "level_0_index 0xffffa00000000000 = LEVEL_0_HEAP_INDEX"
    "page_aligned 0x108000" "unat (0x108000 :: usize) < 2 ^ 48" "3 \<le> free_frames m"
    using m(3) by (simp_all add: is_user_address_def level_index_div page_aligned_def)
  from map_page_updates_one_page [OF m(2) this(5,1) _ this(3,4)] this(2)
  obtain m' where m': "map_page 0xffffa00000000000 0x108000 m = Some m'" "mmu_wf m'"
    "\<forall>x. \<not> is_user_address x \<longrightarrow> map_option fst (translate m' x) =
      (if unat x div 4096 = unat (0xffffa00000000000 :: usize) div 4096 then Some (0x108000 OR (x AND mask 12))
       else map_option fst (translate m x))"
    by auto
  have "\<not> is_user_address 0xffffa00000000123" by (simp add: is_user_address_def)
  with m'(3) have "map_option fst (translate m' 0xffffa00000000123) = Some (0x108000 OR (0xffffa00000000123 AND mask 12))"
    by simp
  also have "0x108000 OR (0xffffa00000000123 AND mask 12) = (0x108123 :: usize)" by (simp add: mask_eq_decr_exp)
  finally show ?thesis using m(1) m'(1,2) by blast
qed

text \<open>\<open>map_io_region\<close> on registers below 512 GiB, with enough free frames, maps the whole pages of the
  region as device memory at a fixed offset and returns the address of its first byte.\<close>

theorem map_io_region_maps:
  assumes "mmu_wf m" "unat pa + unat sz \<le> 2 ^ 38"
    and "3 * ((unat sz + unat pa mod 4096 + 4095) div 4096) \<le> free_frames m"
  shows "\<exists>m'. map_io_region pa sz m = Some (IO_PERIPHERALS_MAP_OFFSET + pa, m') \<and> mmu_wf m'
    \<and> (\<forall>k. unat k < unat sz \<longrightarrow> translate m' (IO_PERIPHERALS_MAP_OFFSET + pa + k) = Some (io_translation (pa + k)))"
proof -
  let ?io = IO_PERIPHERALS_MAP_OFFSET and ?al = "pa AND NOT (mask 12)"
  let ?n = "(unat sz + unat pa mod 4096 + 4095) div 4096"
  have mask: "(of_nat PAGE_SIZE - 1 :: usize) = mask 12" by (simp add: PAGE_SIZE_def mask_eq_decr_exp)
  have al: "unat ?al = unat pa - unat pa mod 4096" "page_aligned ?al"
    by (simp_all add: unat_and_not_mask minus_mod_eq_div_mult page_aligned_def)
  have sub: "unat (pa - ?al) = unat pa mod 4096" by (simp add: unat_sub_if' al(1))
  have size: "unat (sz + (pa - ?al)) = unat sz + unat pa mod 4096"
    using assms(2) sub mod_less_divisor [of 4096 "unat pa"] by (simp add: unat_word_ariths)
  have n: "4096 * ?n \<le> unat sz + unat pa mod 4096 + 4095" "unat sz + unat pa mod 4096 \<le> 4096 * ?n" by simp_all
  have "unat ?al + 4096 * ?n \<le> 2 ^ 39" using n(1) al(1) assms(2) mod_le_divisor [of 4096 "unat pa"] by simp
  from map_pages_io [OF assms(1) assms(3) al(2) this]
  obtain m' where m': "map_pages (?io + ?al) ?al ?n m = Some m'" "mmu_wf m'"
    "\<forall>x. \<not> is_user_address x \<longrightarrow> translate m' x =
       (if unat ?io + unat ?al \<le> unat x \<and> unat x < unat ?io + unat ?al + 4096 * ?n
        then Some (io_translation (x - ?io)) else translate m x)"
    by blast
  have "unat (?io + pa + sz) = unat ?io + unat pa + unat sz"
    using assms(2) by (simp add: unat_word_ariths unat_io)
  moreover have "unat (?io + IO_PERIPHERALS_MAP_SIZE) = unat ?io + 2 ^ 44"
    by (simp add: map_layout_defs)
  ultimately have "?io + pa + sz \<le> ?io + IO_PERIPHERALS_MAP_SIZE" using assms(2) by (simp add: word_le_nat_alt)
  then have r: "map_io_region pa sz m = Some (?io + pa, m')"
    using m'(1) by (simp add: map_io_region_def mask size)
  have "translate m' (?io + pa + k) = Some (io_translation (pa + k))" if k: "unat k < unat sz" for k
  proof -
    have pk: "unat (pa + k) = unat pa + unat k" using k assms(2) by (simp add: unat_word_ariths)
    then have lt: "unat (pa + k) < 2 ^ 39" using k assms(2) by simp
    have u: "unat (?io + (pa + k)) = unat ?io + unat pa + unat k"
      using unat_io_plus [of "pa + k"] lt pk by (simp add: unat_io)
    have "unat ?al + unat pa mod 4096 = unat pa" using al(1) by simp
    then have "unat ?io + unat ?al \<le> unat (?io + (pa + k))" "unat (?io + (pa + k)) < unat ?io + unat ?al + 4096 * ?n"
      using u k n(2) by linarith+
    then show ?thesis using m'(3) io_index(2) [OF lt] by (simp add: add.assoc)
  qed
  with r m'(2) show ?thesis by blast
qed

theorem map_io_region_maps_witness:
  "\<exists>m m'. setup_page_tables example_mmu = Some m \<and> map_io_region 0x3f201010 0x20 m = Some (0xffffd0003f201010, m') \<and> mmu_wf m'
     \<and> translate m' 0xffffd0003f201014 = Some (io_translation 0x3f201014)"
proof -
  obtain m where m: "setup_page_tables example_mmu = Some m" "mmu_wf m" "89 \<le> free_frames m"
    using example_tables by blast
  have "unat (0x3f201010 :: usize) + unat (0x20 :: usize) \<le> 2 ^ 38"
    "3 * ((unat (0x20 :: usize) + unat (0x3f201010 :: usize) mod 4096 + 4095) div 4096) \<le> free_frames m"
    using m(3) by simp_all
  from map_io_region_maps [OF m(2) this]
  obtain m' where m': "map_io_region 0x3f201010 0x20 m = Some (IO_PERIPHERALS_MAP_OFFSET + 0x3f201010, m')" "mmu_wf m'"
    "\<And>k. unat k < unat (0x20 :: usize) \<Longrightarrow>
       translate m' (IO_PERIPHERALS_MAP_OFFSET + 0x3f201010 + k) = Some (io_translation (0x3f201010 + k))"
    by blast
  from m'(3) [of 4] have "translate m' 0xffffd0003f201014 = Some (io_translation 0x3f201014)"
    by (simp add: map_layout_defs)
  with m(1) m'(1,2) show ?thesis by (auto simp: map_layout_defs)
qed

end
