(* ===== verification/Device_Probe.thy ===== *)
theory Device_Probe
  imports Drivers Mmio Mmu
begin

text \<open>The steps the \<open>try_init\<close> of every memory-mapped device shares: its node has one register block, whose
  physical address is resolved and mapped.\<close>

definition map_device_registers :: "device_tree \<Rightarrow> nat \<Rightarrow> mmu \<Rightarrow> ((driver_init_error + usize) \<times> mmu) option" where
  "map_device_registers dt node m = do {
     reg \<leftarrow> node_reg (dt_node_at dt node);
     (case reg of
        None \<Rightarrow> Some (Inl DeviceTreeError, m)
      | Some rs \<Rightarrow>
          if length rs \<noteq> 1 then Some (Inl DeviceTreeError, m)
          else do {
            resolved \<leftarrow> resolve_phys_address_and_length dt node 0;
            (case resolved of
               None \<Rightarrow> Some (Inl DeviceTreeError, m)
             | Some (phys_addr, len) \<Rightarrow> do {
                 (addr, m') \<leftarrow> map_io_region phys_addr len m;
                 Some (Inr addr, m')
               })
          })
   }"

end
