(* ===== verification/Intc.thy ===== *)
theory Intc
  imports Irq Device_Probe
begin

unbundle bit_operations_syntax

text \<open>The interrupt controllers of the board: \<open>bcm2836_l1_intc.rs\<close>, the local controller of each core, and
  \<open>bcm2836_armctrl_ic.rs\<close>, the legacy controller behind it. Registers are reached through a bus; a
  controller is known by the address of its registers. Register updates run with interrupts masked and
  under the lock of the address (\<open>Locks\<close>), and are single steps here.\<close>

datatype intc = L1_Intc usize | Armctrl_Ic usize

text \<open>A handler is the legacy controller itself, chained to a line of the local one, or one of another
  driver.\<close>

datatype 'h intc_handler = H_Armctrl usize | H_Other 'h

text \<open>The machine: registers, the tables of \<open>Irq\<close>, the \<open>virq_base\<close> cell of each legacy controller, the page
  tables, the core that runs and the registries of the two drivers.\<close>

record ('d, 'h) board =
  bd_regs :: 'd
  bd_irqs :: "(intc, 'h intc_handler) irq_tables"
  bd_virq_bases :: "usize \<rightharpoonup> u32"
  bd_mmu :: mmu
  bd_core :: usize
  bd_l1_devices :: "intc registry"
  bd_armctrl_devices :: "intc registry"

definition read_reg :: "'d bus \<Rightarrow> usize \<Rightarrow> ('d, 'h) board \<Rightarrow> u32 \<times> ('d, 'h) board" where
  "read_reg bus reg m = (let (v, d) = bus_read bus reg (bd_regs m) in (v, m\<lparr>bd_regs := d\<rparr>))"

definition write_reg :: "'d bus \<Rightarrow> usize \<Rightarrow> u32 \<Rightarrow> ('d, 'h) board \<Rightarrow> ('d, 'h) board" where
  "write_reg bus reg v m = m\<lparr>bd_regs := bus_write bus reg v (bd_regs m)\<rparr>"


section \<open>The local controller\<close>

definition L1_COUNT :: u32 where "L1_COUNT = 12"
definition HWIRQ_GPU :: u32 where "HWIRQ_GPU = 8"
definition HWIRQ_PMU :: u32 where "HWIRQ_PMU = 9"
definition HWIRQ_AXI :: u32 where "HWIRQ_AXI = 10"
definition HWIRQ_LOCAL_TIMER :: u32 where "HWIRQ_LOCAL_TIMER = 11"

definition GPU_INT_ROUTING_REG_OFFSET :: usize where "GPU_INT_ROUTING_REG_OFFSET = 0xc"
definition PMU_INT_ROUTING_SET_REG_OFFSET :: usize where "PMU_INT_ROUTING_SET_REG_OFFSET = 0x10"
definition PMU_INT_ROUTING_CLR_REG_OFFSET :: usize where "PMU_INT_ROUTING_CLR_REG_OFFSET = 0x14"
definition LOCAL_TIMER_INT_ROUTING_REG_OFFSET :: usize where "LOCAL_TIMER_INT_ROUTING_REG_OFFSET = 0x24"
definition AXI_OUTSTANDING_IRQ_REG_OFFSET :: usize where "AXI_OUTSTANDING_IRQ_REG_OFFSET = 0x30"
definition LOCAL_TIMER_CTRL_AND_STATUS_REG_OFFSET :: usize where "LOCAL_TIMER_CTRL_AND_STATUS_REG_OFFSET = 0x34"
definition CORE_TIMERS_INT_CTRL_REG_OFFSET :: usize where "CORE_TIMERS_INT_CTRL_REG_OFFSET = 0x40"
definition CORE_MBOX_INT_CTRL_REG_OFFSET :: usize where "CORE_MBOX_INT_CTRL_REG_OFFSET = 0x50"
definition CORE_IRQ_SOURCE_REG_OFFSET :: usize where "CORE_IRQ_SOURCE_REG_OFFSET = 0x60"
definition CORE_UNRELATED_DEST_IRQ_CORE_0 :: u32 where "CORE_UNRELATED_DEST_IRQ_CORE_0 = 0"

lemmas l1_offsets = GPU_INT_ROUTING_REG_OFFSET_def PMU_INT_ROUTING_SET_REG_OFFSET_def
  PMU_INT_ROUTING_CLR_REG_OFFSET_def LOCAL_TIMER_INT_ROUTING_REG_OFFSET_def AXI_OUTSTANDING_IRQ_REG_OFFSET_def
  LOCAL_TIMER_CTRL_AND_STATUS_REG_OFFSET_def CORE_TIMERS_INT_CTRL_REG_OFFSET_def CORE_MBOX_INT_CTRL_REG_OFFSET_def
  CORE_IRQ_SOURCE_REG_OFFSET_def

definition update_reg :: "'d bus \<Rightarrow> usize \<Rightarrow> nat \<Rightarrow> bool \<Rightarrow> ('d, 'h) board \<Rightarrow> ('d, 'h) board" where
  "update_reg bus reg k on m =
     (let (v, m1) = read_reg bus reg m
      in write_reg bus reg (if on then v OR push_bit k 1 else v AND NOT (push_bit k 1)) m1)"

definition core_reg :: "usize \<Rightarrow> usize \<Rightarrow> ('d, 'h) board \<Rightarrow> usize" where
  "core_reg base offset m = base + offset + bd_core m * 4"

definition update_core_related_reg :: "'d bus \<Rightarrow> usize \<Rightarrow> usize \<Rightarrow> nat \<Rightarrow> bool \<Rightarrow> ('d, 'h) board \<Rightarrow> ('d, 'h) board" where
  "update_core_related_reg bus base offset k on m = update_reg bus (core_reg base offset m) k on m"

definition update_core_unrelated_reg :: "'d bus \<Rightarrow> usize \<Rightarrow> usize \<Rightarrow> nat \<Rightarrow> bool \<Rightarrow> ('d, 'h) board \<Rightarrow> ('d, 'h) board" where
  "update_core_unrelated_reg bus base offset k on m = update_reg bus (base + offset) k on m"

text \<open>The pairs \<open>enable_*_interrupt\<close> and \<open>disable_*_interrupt\<close>, with the flag they differ in.\<close>

definition switch_timer_interrupt :: "'d bus \<Rightarrow> usize \<Rightarrow> u32 \<Rightarrow> bool \<Rightarrow> ('d, 'h) board \<Rightarrow> ('d, 'h) board option" where
  "switch_timer_interrupt bus base hwirq on m = do {
     assert_that (hwirq < 4);
     Some (update_core_related_reg bus base CORE_TIMERS_INT_CTRL_REG_OFFSET (unat hwirq) on m)
   }"

definition switch_mailbox_interrupt :: "'d bus \<Rightarrow> usize \<Rightarrow> u32 \<Rightarrow> bool \<Rightarrow> ('d, 'h) board \<Rightarrow> ('d, 'h) board option" where
  "switch_mailbox_interrupt bus base hwirq on m = do {
     assert_that (hwirq \<ge> 4);
     assert_that (hwirq < 8);
     Some (update_core_related_reg bus base CORE_MBOX_INT_CTRL_REG_OFFSET (unat (hwirq - 4)) on m)
   }"

definition enable_pmu_interrupt :: "'d bus \<Rightarrow> usize \<Rightarrow> ('d, 'h) board \<Rightarrow> ('d, 'h) board" where
  "enable_pmu_interrupt bus base m =
     write_reg bus (base + PMU_INT_ROUTING_SET_REG_OFFSET) (push_bit (unat (bd_core m)) 1) m"

definition disable_pmu_interrupt :: "'d bus \<Rightarrow> usize \<Rightarrow> ('d, 'h) board \<Rightarrow> ('d, 'h) board" where
  "disable_pmu_interrupt bus base m =
     write_reg bus (base + PMU_INT_ROUTING_CLR_REG_OFFSET) (push_bit (unat (bd_core m)) 1) m"

definition switch_axi_interrupt :: "'d bus \<Rightarrow> usize \<Rightarrow> bool \<Rightarrow> ('d, 'h) board \<Rightarrow> ('d, 'h) board" where
  "switch_axi_interrupt bus base on = update_core_unrelated_reg bus base AXI_OUTSTANDING_IRQ_REG_OFFSET 20 on"

definition switch_local_timer_interrupt :: "'d bus \<Rightarrow> usize \<Rightarrow> bool \<Rightarrow> ('d, 'h) board \<Rightarrow> ('d, 'h) board" where
  "switch_local_timer_interrupt bus base on =
     update_core_unrelated_reg bus base LOCAL_TIMER_CTRL_AND_STATUS_REG_OFFSET 29 on"

text \<open>\<open>enable\<close> and \<open>disable\<close>; a line past the last is \<open>unreachable!()\<close>.\<close>

definition l1_switch :: "'d bus \<Rightarrow> usize \<Rightarrow> u32 \<Rightarrow> bool \<Rightarrow> ('d, 'h) board \<Rightarrow> ('d, 'h) board option" where
  "l1_switch bus base hwirq on m =
     (if hwirq = HWIRQ_GPU then Some m
      else if hwirq < 4 then switch_timer_interrupt bus base hwirq on m
      else if hwirq < 8 then switch_mailbox_interrupt bus base hwirq on m
      else if hwirq = HWIRQ_PMU then
        Some (if on then enable_pmu_interrupt bus base m else disable_pmu_interrupt bus base m)
      else if hwirq = HWIRQ_AXI then Some (switch_axi_interrupt bus base on m)
      else if hwirq = HWIRQ_LOCAL_TIMER then Some (switch_local_timer_interrupt bus base on m)
      else None)"

definition l1_pending_hwirq :: "'d bus \<Rightarrow> usize \<Rightarrow> ('d, 'h) board \<Rightarrow> u32 option \<times> ('d, 'h) board" where
  "l1_pending_hwirq bus base m =
     (let (pending, m1) = read_reg bus (core_reg base CORE_IRQ_SOURCE_REG_OFFSET m) m
      in (if pending = 0 then None else Some (of_nat (trailing_zeros pending)), m1))"

definition l1_xlate :: "u32 list \<Rightarrow> irq_error + u32" where
  "l1_xlate specifier =
     (case specifier of
        [] \<Rightarrow> Inl Irq_TranslationFailed
      | hwirq # _ \<Rightarrow> if hwirq < L1_COUNT then Inr hwirq else Inl Irq_TranslationFailed)"


section \<open>The legacy controller\<close>

definition HWIRQ_COUNT :: u32 where "HWIRQ_COUNT = 72"
definition HWIRQ_BASIC_RANGE_END :: u32 where "HWIRQ_BASIC_RANGE_END = 7"
definition HWIRQ_1_RANGE_START :: u32 where "HWIRQ_1_RANGE_START = 8"
definition HWIRQ_1_RANGE_END :: u32 where "HWIRQ_1_RANGE_END = 39"
definition HWIRQ_2_RANGE_START :: u32 where "HWIRQ_2_RANGE_START = 40"
definition HWIRQ_2_RANGE_END :: u32 where "HWIRQ_2_RANGE_END = 71"

lemmas hwirq_ranges = HWIRQ_COUNT_def HWIRQ_BASIC_RANGE_END_def HWIRQ_1_RANGE_START_def HWIRQ_1_RANGE_END_def
  HWIRQ_2_RANGE_START_def HWIRQ_2_RANGE_END_def

definition IRQ_BASIC_PENDING_REG_OFFSET :: usize where "IRQ_BASIC_PENDING_REG_OFFSET = 0x0"
definition IRQ_PENDING_1_REG_OFFSET :: usize where "IRQ_PENDING_1_REG_OFFSET = 0x4"
definition IRQ_PENDING_2_REG_OFFSET :: usize where "IRQ_PENDING_2_REG_OFFSET = 0x8"
definition FIQ_CTRL_REG_OFFSET :: usize where "FIQ_CTRL_REG_OFFSET = 0xC"
definition ENABLE_IRQS_1_REG_OFFSET :: usize where "ENABLE_IRQS_1_REG_OFFSET = 0x10"
definition ENABLE_IRQS_2_REG_OFFSET :: usize where "ENABLE_IRQS_2_REG_OFFSET = 0x14"
definition ENABLE_BASIC_IRQS_REG_OFFSET :: usize where "ENABLE_BASIC_IRQS_REG_OFFSET = 0x18"
definition DISABLE_IRQS_1_REG_OFFSET :: usize where "DISABLE_IRQS_1_REG_OFFSET = 0x1C"
definition DISABLE_IRQS_2_REG_OFFSET :: usize where "DISABLE_IRQS_2_REG_OFFSET = 0x20"
definition DISABLE_BASIC_IRQS_REG_OFFSET :: usize where "DISABLE_BASIC_IRQS_REG_OFFSET = 0x24"

lemmas armctrl_offsets = IRQ_BASIC_PENDING_REG_OFFSET_def IRQ_PENDING_1_REG_OFFSET_def IRQ_PENDING_2_REG_OFFSET_def
  FIQ_CTRL_REG_OFFSET_def ENABLE_IRQS_1_REG_OFFSET_def ENABLE_IRQS_2_REG_OFFSET_def ENABLE_BASIC_IRQS_REG_OFFSET_def
  DISABLE_IRQS_1_REG_OFFSET_def DISABLE_IRQS_2_REG_OFFSET_def DISABLE_BASIC_IRQS_REG_OFFSET_def

text \<open>\<open>enable\<close> and \<open>disable\<close> write one bit to one of three registers.\<close>

definition armctrl_enable :: "'d bus \<Rightarrow> usize \<Rightarrow> u32 \<Rightarrow> ('d, 'h) board \<Rightarrow> ('d, 'h) board option" where
  "armctrl_enable bus base hwirq m =
     (if hwirq \<le> HWIRQ_BASIC_RANGE_END then
        Some (write_reg bus (base + ENABLE_BASIC_IRQS_REG_OFFSET) (push_bit (unat hwirq) 1) m)
      else if hwirq \<le> HWIRQ_1_RANGE_END then
        Some (write_reg bus (base + ENABLE_IRQS_1_REG_OFFSET) (push_bit (unat (hwirq - HWIRQ_1_RANGE_START)) 1) m)
      else if hwirq \<le> HWIRQ_2_RANGE_END then
        Some (write_reg bus (base + ENABLE_IRQS_2_REG_OFFSET) (push_bit (unat (hwirq - HWIRQ_2_RANGE_START)) 1) m)
      else None)"

definition armctrl_disable :: "'d bus \<Rightarrow> usize \<Rightarrow> u32 \<Rightarrow> ('d, 'h) board \<Rightarrow> ('d, 'h) board option" where
  "armctrl_disable bus base hwirq m =
     (if hwirq \<le> HWIRQ_BASIC_RANGE_END then
        Some (write_reg bus (base + DISABLE_BASIC_IRQS_REG_OFFSET) (push_bit (unat hwirq) 1) m)
      else if hwirq \<le> HWIRQ_1_RANGE_END then
        Some (write_reg bus (base + DISABLE_IRQS_1_REG_OFFSET) (push_bit (unat (hwirq - HWIRQ_1_RANGE_START)) 1) m)
      else if hwirq \<le> HWIRQ_2_RANGE_END then
        Some (write_reg bus (base + DISABLE_IRQS_2_REG_OFFSET) (push_bit (unat (hwirq - HWIRQ_2_RANGE_START)) 1) m)
      else None)"

text \<open>The line a bit of the basic pending register stands for, where no other register is read; the
  remaining bits are \<open>unreachable!()\<close>.\<close>

definition shortcut_hwirq :: "nat \<Rightarrow> u32 option" where
  "shortcut_hwirq n =
     (let w = of_nat n :: u32 in
      if n \<le> 7 then Some w
      else if n = 10 then Some (w - 3 + HWIRQ_1_RANGE_START)
      else if 11 \<le> n \<and> n \<le> 12 then Some (w - 2 + HWIRQ_1_RANGE_START)
      else if 13 \<le> n \<and> n \<le> 14 then Some (w + 5 + HWIRQ_1_RANGE_START)
      else if 15 \<le> n \<and> n \<le> 19 then Some (w + 38 + HWIRQ_1_RANGE_START)
      else if n = 20 then Some (w + 42 + HWIRQ_2_RANGE_START)
      else None)"

text \<open>Bits 8 and 9 say that one of the other two registers has the line.\<close>

definition bank_hwirq :: "'d bus \<Rightarrow> usize \<Rightarrow> u32 \<Rightarrow> ('d, 'h) board \<Rightarrow> u32 option \<times> ('d, 'h) board" where
  "bank_hwirq bus reg start m =
     (let (pending, m1) = read_reg bus reg m
      in (if pending = 0 then None else Some (of_nat (trailing_zeros pending) + start), m1))"

definition armctrl_pending_hwirq :: "'d bus \<Rightarrow> usize \<Rightarrow> ('d, 'h) board \<Rightarrow> (u32 option \<times> ('d, 'h) board) option" where
  "armctrl_pending_hwirq bus base m =
     (let (pending_basic, m1) = read_reg bus (base + IRQ_BASIC_PENDING_REG_OFFSET) m;
          n = trailing_zeros pending_basic
      in if pending_basic = 0 then Some (None, m1)
         else if n = 8 then Some (bank_hwirq bus (base + IRQ_PENDING_1_REG_OFFSET) HWIRQ_1_RANGE_START m1)
         else if n = 9 then Some (bank_hwirq bus (base + IRQ_PENDING_2_REG_OFFSET) HWIRQ_2_RANGE_START m1)
         else map_option (\<lambda>hwirq. (Some hwirq, m1)) (shortcut_hwirq n))"

definition armctrl_xlate :: "u32 list \<Rightarrow> irq_error + u32" where
  "armctrl_xlate specifier =
     (case specifier of
        bank # int_num # _ \<Rightarrow>
          if bank = 0 then (if int_num > HWIRQ_BASIC_RANGE_END then Inl Irq_TranslationFailed else Inr int_num)
          else if bank = 1 then
            (let hwirq = int_num + HWIRQ_1_RANGE_START
             in if hwirq > HWIRQ_1_RANGE_END then Inl Irq_TranslationFailed else Inr hwirq)
          else if bank = 2 then
            (let hwirq = int_num + HWIRQ_2_RANGE_START
             in if hwirq > HWIRQ_2_RANGE_END then Inl Irq_TranslationFailed else Inr hwirq)
          else Inl Irq_TranslationFailed
      | _ \<Rightarrow> Inl Irq_TranslationFailed)"

text \<open>\<open>set_virq_base\<close>: the cell takes one value.\<close>

definition armctrl_set_virq_base :: "usize \<Rightarrow> u32 \<Rightarrow> ('d, 'h) board \<Rightarrow> (irq_error + unit) \<times> ('d, 'h) board" where
  "armctrl_set_virq_base base virq_base m =
     (case bd_virq_bases m base of
        None \<Rightarrow> (Inr (), m\<lparr>bd_virq_bases := (bd_virq_bases m)(base \<mapsto> virq_base)\<rparr>)
      | Some _ \<Rightarrow> (Inl Irq_InvalidVirq, m))"


section \<open>The controllers as one interface\<close>

definition intc_set_virq_base :: "intc \<Rightarrow> u32 \<Rightarrow> ('d, 'h) board \<Rightarrow> (irq_error + unit) \<times> ('d, 'h) board" where
  "intc_set_virq_base c v m = (case c of L1_Intc _ \<Rightarrow> (Inr (), m) | Armctrl_Ic b \<Rightarrow> armctrl_set_virq_base b v m)"

definition intc_enable :: "'d bus \<Rightarrow> intc \<Rightarrow> u32 \<Rightarrow> ('d, 'h) board \<Rightarrow> ('d, 'h) board option" where
  "intc_enable bus c hwirq m =
     (case c of L1_Intc b \<Rightarrow> l1_switch bus b hwirq True m | Armctrl_Ic b \<Rightarrow> armctrl_enable bus b hwirq m)"

definition intc_disable :: "'d bus \<Rightarrow> intc \<Rightarrow> u32 \<Rightarrow> ('d, 'h) board \<Rightarrow> ('d, 'h) board option" where
  "intc_disable bus c hwirq m =
     (case c of L1_Intc b \<Rightarrow> l1_switch bus b hwirq False m | Armctrl_Ic b \<Rightarrow> armctrl_disable bus b hwirq m)"

definition intc_pending :: "'d bus \<Rightarrow> intc \<Rightarrow> ('d, 'h) board \<Rightarrow> (u32 option \<times> ('d, 'h) board) option" where
  "intc_pending bus c m =
     (case c of L1_Intc b \<Rightarrow> Some (l1_pending_hwirq bus b m) | Armctrl_Ic b \<Rightarrow> armctrl_pending_hwirq bus b m)"

definition intc_xlate :: "intc \<Rightarrow> u32 list \<Rightarrow> irq_error + u32" where
  "intc_xlate c spec = (case c of L1_Intc _ \<Rightarrow> l1_xlate spec | Armctrl_Ic _ \<Rightarrow> armctrl_xlate spec)"

definition intc_lines :: "intc \<Rightarrow> u32" where
  "intc_lines c = (case c of L1_Intc _ \<Rightarrow> L1_COUNT | Armctrl_Ic _ \<Rightarrow> HWIRQ_COUNT)"

definition intc_ops :: "'d bus \<Rightarrow> (intc, ('d, 'h) board) interrupt_controller" where
  "intc_ops bus = \<lparr>ic_set_virq_base = intc_set_virq_base, ic_enable = intc_enable bus, ic_disable = intc_disable bus,
     ic_pending_hwirq = intc_pending bus, ic_ack = (\<lambda>c hwirq m. m), ic_xlate = intc_xlate\<rparr>"


section \<open>Chained dispatch\<close>

lemma dispatch_irq_mono [partial_function_mono]:
  assumes "\<And>h v m. mono_option (\<lambda>f. B f h v m)"
  shows "mono_option (\<lambda>f. dispatch_irq tables (B f) virq m)"
  unfolding dispatch_irq_def using assms by (cases "global_handlers (tables m) ! unat virq") (simp_all add: monotone_def option.leq_refl)

text \<open>\<open>handle_irq\<close> of the legacy controller: while it has a pending line and its base is set, the line's
  handler runs; that handler may be a legacy controller again. \<open>other\<close> is \<open>handle_irq\<close> of the other
  drivers. The loop need not end.\<close>

partial_function (option) armctrl_handle ::
    "'d bus \<Rightarrow> ('h \<Rightarrow> u32 \<Rightarrow> ('d, 'h) board \<Rightarrow> ('d, 'h) board option) \<Rightarrow> usize \<Rightarrow> ('d, 'h) board \<Rightarrow> ('d, 'h) board option" where
  "armctrl_handle bus other base m = do {
     (pending, m1) \<leftarrow> armctrl_pending_hwirq bus base m;
     (case pending of
        None \<Rightarrow> Some m1
      | Some hwirq \<Rightarrow>
          (case bd_virq_bases m1 base of
             None \<Rightarrow> Some m1
           | Some virq_base \<Rightarrow> do {
               m2 \<leftarrow> dispatch_irq bd_irqs
                        (\<lambda>h v m. case h of H_Armctrl b \<Rightarrow> armctrl_handle bus other b m | H_Other x \<Rightarrow> other x v m)
                        (virq_base + hwirq) m1;
               armctrl_handle bus other base m2
             }))
   }"

definition handle_irq :: "'d bus \<Rightarrow> ('h \<Rightarrow> u32 \<Rightarrow> ('d, 'h) board \<Rightarrow> ('d, 'h) board option) \<Rightarrow> 'h intc_handler \<Rightarrow> u32
    \<Rightarrow> ('d, 'h) board \<Rightarrow> ('d, 'h) board option" where
  "handle_irq bus other h virq m =
     (case h of H_Armctrl b \<Rightarrow> armctrl_handle bus other b m | H_Other x \<Rightarrow> other x virq m)"


section \<open>Setting the controllers up\<close>

definition with_irqs ::
    "((intc, 'h intc_handler) irq_tables \<Rightarrow> (irq_error + unit) \<times> (intc, 'h intc_handler) irq_tables)
       \<Rightarrow> ('d, 'h) board \<Rightarrow> (irq_error + unit) \<times> ('d, 'h) board" where
  "with_irqs f m = (let (r, t) = f (bd_irqs m) in (r, m\<lparr>bd_irqs := t\<rparr>))"

definition board_register_controller :: "'d bus \<Rightarrow> device_tree \<Rightarrow> nat \<Rightarrow> intc \<Rightarrow> ('d, 'h) board
    \<Rightarrow> ((irq_error + unit) \<times> ('d, 'h) board) option" where
  "board_register_controller bus dt node c m = do {
     (r, t, m') \<leftarrow> register_controller (intc_ops bus) dt node c (intc_lines c) (bd_irqs m) m;
     Some (r, m'\<lparr>bd_irqs := t\<rparr>)
   }"

definition or_retry :: "irq_error + 'a \<Rightarrow> driver_init_error + 'a" where
  "or_retry r = (case r of Inl _ \<Rightarrow> Inl Retry | Inr a \<Rightarrow> Inr a)"

definition l1_global_setup :: "'d bus \<Rightarrow> device_tree \<Rightarrow> nat \<Rightarrow> usize \<Rightarrow> ('d, 'h) board
    \<Rightarrow> ((driver_init_error + unit) \<times> ('d, 'h) board) option" where
  "l1_global_setup bus dt node base m = do {
     let m1 = write_reg bus (base + GPU_INT_ROUTING_REG_OFFSET) 0 m;
     let m2 = write_reg bus (base + PMU_INT_ROUTING_CLR_REG_OFFSET) (- 1) m1;
     let m3 = update_reg bus (base + AXI_OUTSTANDING_IRQ_REG_OFFSET) 20 False m2;
     let m4 = write_reg bus (base + LOCAL_TIMER_INT_ROUTING_REG_OFFSET) CORE_UNRELATED_DEST_IRQ_CORE_0 m3;
     let m5 = update_reg bus (base + LOCAL_TIMER_CTRL_AND_STATUS_REG_OFFSET) 29 False m4;
     (r, m6) \<leftarrow> board_register_controller bus dt node (L1_Intc base) m5;
     Some (or_retry r, m6)
   }"

definition l1_local_setup :: "'d bus \<Rightarrow> usize \<Rightarrow> ('d, 'h) board \<Rightarrow> (driver_init_error + unit) \<times> ('d, 'h) board" where
  "l1_local_setup bus base m =
     (let core_offset = bd_core m * 4;
          m1 = write_reg bus (base + CORE_TIMERS_INT_CTRL_REG_OFFSET + core_offset) 0 m;
          m2 = write_reg bus (base + CORE_MBOX_INT_CTRL_REG_OFFSET + core_offset) 0 m1
      in (Inr (), m2))"

text \<open>The tail of \<open>global_setup\<close> of the legacy controller: it becomes the handler of its own interrupt.\<close>

definition armctrl_chain :: "'d bus \<Rightarrow> device_tree \<Rightarrow> nat \<Rightarrow> usize \<Rightarrow> ('d, 'h) board
    \<Rightarrow> ((driver_init_error + unit) \<times> ('d, 'h) board) option" where
  "armctrl_chain bus dt node base m = do {
     resolved \<leftarrow> resolve_virq (intc_ops bus :: (intc, ('d, 'h) board) interrupt_controller) dt node 0 (bd_irqs m);
     (case resolved of
        Inl _ \<Rightarrow> Some (Inl Retry, m)
      | Inr parent_virq \<Rightarrow>
          (case with_irqs (register_handler parent_virq (H_Armctrl base)) m of
             (Inl _, m1) \<Rightarrow> Some (Inl Retry, m1)
           | (Inr _, m1) \<Rightarrow> do {
               (r, m2) \<leftarrow> enable_irq (intc_ops bus) parent_virq (bd_irqs m1) m1;
               Some (or_retry r, m2)
             }))
   }"

definition armctrl_global_setup :: "'d bus \<Rightarrow> device_tree \<Rightarrow> nat \<Rightarrow> usize \<Rightarrow> ('d, 'h) board
    \<Rightarrow> ((driver_init_error + unit) \<times> ('d, 'h) board) option" where
  "armctrl_global_setup bus dt node base m = do {
     let m1 = write_reg bus (base + FIQ_CTRL_REG_OFFSET) 0 m;
     let m2 = write_reg bus (base + DISABLE_IRQS_1_REG_OFFSET) (- 1) m1;
     let m3 = write_reg bus (base + DISABLE_IRQS_2_REG_OFFSET) (- 1) m2;
     let m4 = write_reg bus (base + DISABLE_BASIC_IRQS_REG_OFFSET) (- 1) m3;
     (r, m5) \<leftarrow> board_register_controller bus dt node (Armctrl_Ic base) m4;
     (case r of
        Inl _ \<Rightarrow> Some (Inl Retry, m5)
      | Inr _ \<Rightarrow> do {
          ints \<leftarrow> node_interrupts (dt_node_at dt node);
          extended \<leftarrow> (if ints = None then node_interrupts_extended (dt_node_at dt node) else Some None);
          (if ints \<noteq> None \<or> extended \<noteq> None then armctrl_chain bus dt node base m5 else Some (Inr (), m5))
        })
   }"

text \<open>The checks both drivers make, then the mapped registers; all errors are those of the tree.\<close>

definition intc_probe :: "device_tree \<Rightarrow> nat \<Rightarrow> mmu \<Rightarrow> ((driver_init_error + usize) \<times> mmu) option" where
  "intc_probe dt node m =
     (if \<not> node_is_interrupt_controller (dt_node_at dt node) then Some (Inl DeviceTreeError, m)
      else do {
        cells \<leftarrow> node_interrupt_cells (dt_node_at dt node);
        (if cells \<noteq> Some 2 then Some (Inl DeviceTreeError, m) else map_device_registers dt node m)
      })"

definition l1_try_init :: "'d bus \<Rightarrow> device_tree \<Rightarrow> nat \<Rightarrow> ('d, 'h) board \<Rightarrow> ((driver_init_error + unit) \<times> ('d, 'h) board) option" where
  "l1_try_init bus dt node m = do {
     (probed, mmu) \<leftarrow> intc_probe dt node (bd_mmu m);
     let m1 = m\<lparr>bd_mmu := mmu\<rparr>;
     (case probed of
        Inl e \<Rightarrow> Some (Inl e, m1)
      | Inr addr \<Rightarrow> do {
          path \<leftarrow> node_path dt node;
          (r, m2) \<leftarrow> l1_global_setup bus dt node addr m1;
          (case r of
             Inl e \<Rightarrow> Some (Inl e, m2)
           | Inr _ \<Rightarrow>
               (case l1_local_setup bus addr m2 of
                  (Inl e, m3) \<Rightarrow> Some (Inl e, m3)
                | (Inr _, m3) \<Rightarrow>
                    Some (Inr (), m3\<lparr>bd_l1_devices := add_device path (L1_Intc addr) (bd_l1_devices m3)\<rparr>)))
        })
   }"

definition armctrl_try_init :: "'d bus \<Rightarrow> device_tree \<Rightarrow> nat \<Rightarrow> ('d, 'h) board \<Rightarrow> ((driver_init_error + unit) \<times> ('d, 'h) board) option" where
  "armctrl_try_init bus dt node m = do {
     (probed, mmu) \<leftarrow> intc_probe dt node (bd_mmu m);
     let m1 = m\<lparr>bd_mmu := mmu\<rparr>;
     (case probed of
        Inl e \<Rightarrow> Some (Inl e, m1)
      | Inr addr \<Rightarrow> do {
          path \<leftarrow> node_path dt node;
          (r, m2) \<leftarrow> armctrl_global_setup bus dt node addr m1;
          (case r of
             Inl e \<Rightarrow> Some (Inl e, m2)
           | Inr _ \<Rightarrow>
               Some (Inr (), m2\<lparr>bd_armctrl_devices := add_device path (Armctrl_Ic addr) (bd_armctrl_devices m2)\<rparr>))
        })
   }"


section \<open>The tables of the board\<close>

lemma write_reg_irqs [simp]: "bd_irqs (write_reg bus reg v m) = bd_irqs m"
  by (simp add: write_reg_def)

lemma read_reg_irqs: "read_reg bus reg m = (v, m') \<Longrightarrow> bd_irqs m' = bd_irqs m"
  by (auto simp: read_reg_def split: prod.splits)

lemma update_reg_irqs [simp]: "bd_irqs (update_reg bus reg k on m) = bd_irqs m"
  by (auto simp: update_reg_def dest: read_reg_irqs split: prod.splits)

lemma register_controller_domains:
  assumes "register_controller ops dt node c n t m = Some (r, t', m')"
  shows "\<forall>d \<in> set (all_domains t'). d \<in> set (all_domains t) \<or> dom_controller d = c \<and> dom_irq_count d = n"
  using assms unfolding register_controller_def bind_eq_Some_conv
  by (auto simp: Let_def all_domains_def split: if_split_asm prod.split_asm sum.split_asm option.split_asm)

text \<open>The invariant: the ranges of the controllers are disjoint, and as long as the controllers have lines.\<close>

definition controllers_wf :: "('d, 'h) board \<Rightarrow> bool" where
  "controllers_wf m \<longleftrightarrow> irq_wf (bd_irqs m)
     \<and> (\<forall>d \<in> set (all_domains (bd_irqs m)). dom_irq_count d = intc_lines (dom_controller d))"

lemma controllers_wf_cong: "bd_irqs m' = bd_irqs m \<Longrightarrow> controllers_wf m' = controllers_wf m"
  by (simp add: controllers_wf_def)

lemma controllers_wf_write [simp]: "controllers_wf (write_reg bus reg v m) = controllers_wf m"
  "controllers_wf (update_reg bus reg k on m) = controllers_wf m" "controllers_wf (m\<lparr>bd_mmu := x\<rparr>) = controllers_wf m"
  "controllers_wf (m\<lparr>bd_l1_devices := y\<rparr>) = controllers_wf m" "controllers_wf (m\<lparr>bd_armctrl_devices := z\<rparr>) = controllers_wf m"
  by (simp_all add: controllers_wf_def)

lemma board_register_controller_wf:
  assumes "controllers_wf m" "board_register_controller bus dt node c m = Some (r, m')"
  shows "controllers_wf m'"
proof -
  obtain t m1 where t: "register_controller (intc_ops bus) dt node c (intc_lines c) (bd_irqs m) m = Some (r, t, m1)"
    "m' = m1\<lparr>bd_irqs := t\<rparr>"
    using assms(2) by (auto simp: board_register_controller_def bind_eq_Some_conv)
  have "unat (intc_lines c) \<le> 256" by (simp add: intc_lines_def L1_COUNT_def HWIRQ_COUNT_def split: intc.split)
  then have "irq_wf t" using register_controller_wf [OF _ t(1)] assms(1) by (simp add: controllers_wf_def)
  then show ?thesis
    using register_controller_domains [OF t(1)] assms(1) t(2) by (auto simp: controllers_wf_def)
qed

lemma with_irqs_handler_wf:
  assumes "controllers_wf m" "with_irqs (register_handler v h) m = (r, m')" shows "controllers_wf m'"
  using assms register_handler_wf [of "bd_irqs m" v h]
  by (auto simp: with_irqs_def controllers_wf_def register_handler_def all_domains_def split: if_split_asm)

lemma l1_switch_irqs: "l1_switch bus base hwirq on m = Some m' \<Longrightarrow> bd_irqs m' = bd_irqs m"
  by (auto simp: l1_switch_def switch_timer_interrupt_def switch_mailbox_interrupt_def enable_pmu_interrupt_def
      disable_pmu_interrupt_def switch_axi_interrupt_def switch_local_timer_interrupt_def bind_eq_Some_conv
      update_core_related_reg_def update_core_unrelated_reg_def split: if_split_asm)

lemma intc_enable_irqs: "intc_enable bus c hwirq m = Some m' \<Longrightarrow> bd_irqs m' = bd_irqs m"
  by (auto simp: intc_enable_def armctrl_enable_def dest: l1_switch_irqs split: intc.split_asm if_split_asm)

lemma enable_irq_wf:
  assumes "controllers_wf m" "enable_irq (intc_ops bus) v t m = Some (r, m')" shows "controllers_wf m'"
proof -
  have "bd_irqs m' = bd_irqs m"
    using assms(2) by (auto simp: enable_irq_def intc_ops_def dest: intc_enable_irqs split: option.split_asm)
  then show ?thesis using assms(1) controllers_wf_cong by blast
qed

lemma l1_global_setup_wf:
  assumes "controllers_wf m" "l1_global_setup bus dt node base m = Some (r, m')" shows "controllers_wf m'"
  using assms by (auto simp: l1_global_setup_def Let_def bind_eq_Some_conv elim!: board_register_controller_wf [rotated])

lemma armctrl_chain_wf:
  assumes wf: "controllers_wf m" and run: "armctrl_chain bus dt node base m = Some (r, m')" shows "controllers_wf m'"
proof -
  obtain resolved where resolved: "resolve_virq (intc_ops bus :: (intc, ('a, 'b) board) interrupt_controller) dt node 0 (bd_irqs m) = Some resolved"
    using run unfolding armctrl_chain_def bind_eq_Some_conv by blast
  show ?thesis
  proof (cases resolved)
    case (Inl e)
    with wf run resolved show ?thesis by (simp add: armctrl_chain_def)
  next
    case (Inr v)
    obtain r1 m1 where m1: "with_irqs (register_handler v (H_Armctrl base)) m = (r1, m1)" by fastforce
    note wf1 = with_irqs_handler_wf [OF wf m1]
    show ?thesis
    proof (cases r1)
      case Inl
      with Inr wf1 m1 run resolved show ?thesis by (simp add: armctrl_chain_def)
    next
      case (Inr u)
      with \<open>resolved = Inr v\<close> m1 run resolved
      obtain r2 where "enable_irq (intc_ops bus) v (bd_irqs m1) m1 = Some (r2, m')"
        by (auto simp: armctrl_chain_def bind_eq_Some_conv)
      from enable_irq_wf [OF wf1 this] show ?thesis .
    qed
  qed
qed

lemma armctrl_global_setup_wf:
  assumes wf: "controllers_wf m" and run: "armctrl_global_setup bus dt node base m = Some (r, m')" shows "controllers_wf m'"
proof -
  define m4 where "m4 = write_reg bus (base + DISABLE_BASIC_IRQS_REG_OFFSET) (- 1)
    (write_reg bus (base + DISABLE_IRQS_2_REG_OFFSET) (- 1) (write_reg bus (base + DISABLE_IRQS_1_REG_OFFSET) (- 1)
      (write_reg bus (base + FIQ_CTRL_REG_OFFSET) 0 m)))"
  have wf4: "controllers_wf m4" using wf by (simp add: m4_def)
  obtain r5 m5 where m5: "board_register_controller bus dt node (Armctrl_Ic base) m4 = Some (r5, m5)"
    using run by (auto simp: armctrl_global_setup_def Let_def bind_eq_Some_conv m4_def)
  have wf5: "controllers_wf m5" by (rule board_register_controller_wf [OF wf4 m5])
  have "m' = m5 \<or> armctrl_chain bus dt node base m5 = Some (r, m')"
    using run m5 by (cases r5) (auto simp: armctrl_global_setup_def Let_def bind_eq_Some_conv m4_def split: if_split_asm)
  then show ?thesis using wf5 armctrl_chain_wf by blast
qed

lemma l1_try_init_wf:
  assumes wf: "controllers_wf m" and run: "l1_try_init bus dt node m = Some (r, m')" shows "controllers_wf m'"
proof -
  obtain probed mmu where p: "intc_probe dt node (bd_mmu m) = Some (probed, mmu)"
    using run by (auto simp: l1_try_init_def bind_eq_Some_conv)
  have wf1: "controllers_wf (m\<lparr>bd_mmu := mmu\<rparr>)" using wf by simp
  show ?thesis
  proof (cases probed)
    case Inl
    with run p wf1 show ?thesis by (auto simp: l1_try_init_def)
  next
    case (Inr addr)
    then obtain path r2 m2 where s: "node_path dt node = Some path" "l1_global_setup bus dt node addr (m\<lparr>bd_mmu := mmu\<rparr>) = Some (r2, m2)"
      using run p by (auto simp: l1_try_init_def bind_eq_Some_conv)
    have wf2: "controllers_wf m2" by (rule l1_global_setup_wf [OF wf1 s(2)])
    with run p s Inr show ?thesis by (cases r2) (auto simp: l1_try_init_def l1_local_setup_def Let_def)
  qed
qed

lemma armctrl_try_init_wf:
  assumes wf: "controllers_wf m" and run: "armctrl_try_init bus dt node m = Some (r, m')" shows "controllers_wf m'"
proof -
  obtain probed mmu where p: "intc_probe dt node (bd_mmu m) = Some (probed, mmu)"
    using run by (auto simp: armctrl_try_init_def bind_eq_Some_conv)
  have wf1: "controllers_wf (m\<lparr>bd_mmu := mmu\<rparr>)" using wf by simp
  show ?thesis
  proof (cases probed)
    case Inl
    with run p wf1 show ?thesis by (auto simp: armctrl_try_init_def)
  next
    case (Inr addr)
    then obtain path r2 m2 where s: "node_path dt node = Some path" "armctrl_global_setup bus dt node addr (m\<lparr>bd_mmu := mmu\<rparr>) = Some (r2, m2)"
      using run p by (auto simp: armctrl_try_init_def bind_eq_Some_conv)
    have wf2: "controllers_wf m2" by (rule armctrl_global_setup_wf [OF wf1 s(2)])
    with run p s Inr show ?thesis by (cases r2) (auto simp: armctrl_try_init_def Let_def)
  qed
qed


section \<open>The controllers at work\<close>

interpretation intc: irq_translation intc_xlate intc_lines
proof
  fix c spec hwirq
  assume "intc_xlate c spec = Inr hwirq"
  then show "hwirq < intc_lines c"
    by (cases c) (auto simp: intc_xlate_def intc_lines_def l1_xlate_def armctrl_xlate_def L1_COUNT_def hwirq_ranges Let_def
      word_le_nat_alt word_less_nat_alt split: list.split_asm if_split_asm)
qed

text \<open>A line of a controller can always be enabled.\<close>

lemma intc_enable_total:
  assumes "hwirq < intc_lines c" shows "\<exists>m'. intc_enable bus c hwirq m = Some m'"
proof (cases c)
  case (L1_Intc b)
  with assms have "unat hwirq < 12" by (simp add: intc_lines_def L1_COUNT_def word_less_nat_alt)
  then consider "hwirq < 4" | "4 \<le> hwirq" "hwirq < 8" | "unat hwirq = 8" | "unat hwirq = 9" | "unat hwirq = 10" | "unat hwirq = 11"
    by (fastforce simp: word_less_nat_alt word_le_nat_alt)
  then show ?thesis
    using L1_Intc
    by cases (auto simp: intc_enable_def l1_switch_def switch_timer_interrupt_def switch_mailbox_interrupt_def assert_that_def
        HWIRQ_GPU_def HWIRQ_PMU_def HWIRQ_AXI_def HWIRQ_LOCAL_TIMER_def word_unat_eq_iff word_less_nat_alt word_le_nat_alt)
next
  case (Armctrl_Ic b)
  with assms show ?thesis
    by (auto simp: intc_enable_def armctrl_enable_def intc_lines_def hwirq_ranges word_less_nat_alt word_le_nat_alt)
qed

text \<open>What boot does with the controllers, in any order: the drivers' initialisation or only its parts, and
  the other drivers registering handlers and enabling interrupts.\<close>

inductive board_step :: "'d bus \<Rightarrow> device_tree \<Rightarrow> ('d, 'h) board \<Rightarrow> ('d, 'h) board \<Rightarrow> bool" for bus dt where
  step_l1_init: "l1_try_init bus dt node m = Some (r, m') \<Longrightarrow> board_step bus dt m m'"
| step_armctrl_init: "armctrl_try_init bus dt node m = Some (r, m') \<Longrightarrow> board_step bus dt m m'"
| step_l1_setup: "l1_global_setup bus dt node base m = Some (r, m') \<Longrightarrow> board_step bus dt m m'"
| step_armctrl_setup: "armctrl_global_setup bus dt node base m = Some (r, m') \<Longrightarrow> board_step bus dt m m'"
| step_local_setup: "l1_local_setup bus base m = (r, m') \<Longrightarrow> board_step bus dt m m'"
| step_handler: "with_irqs (register_handler virq h) m = (r, m') \<Longrightarrow> board_step bus dt m m'"
| step_enable: "enable_irq (intc_ops bus) virq (bd_irqs m) m = Some (r, m') \<Longrightarrow> board_step bus dt m m'"

lemma board_step_wf: "board_step bus dt m m' \<Longrightarrow> controllers_wf m \<Longrightarrow> controllers_wf m'"
proof (induction rule: board_step.induct)
  case (step_local_setup base m r m')
  then show ?case by (auto simp: l1_local_setup_def Let_def)
qed (blast intro: l1_try_init_wf armctrl_try_init_wf l1_global_setup_wf armctrl_global_setup_wf with_irqs_handler_wf enable_irq_wf)+

lemma board_steps_wf:
  assumes "(board_step bus dt)\<^sup>*\<^sup>* m m'" "bd_irqs m = irq_tables_new" shows "controllers_wf m'"
proof -
  have "controllers_wf m" using assms(2) irq_wf_new by (simp add: controllers_wf_def) (simp add: irq_tables_new_def all_domains_def)
  with assms(1) show ?thesis by (induction rule: rtranclp_induct) (auto intro: board_step_wf)
qed

text \<open>C4: Whatever boot has done with the interrupt controllers, two lines of any controllers never share
  a virtual interrupt number: a number is that of one line of one controller, and below the 256 entries of
  the table of handlers.\<close>

theorem lines_have_own_numbers:
  assumes "(board_step bus dt)\<^sup>*\<^sup>* m0 m" "bd_irqs m0 = irq_tables_new"
    and "d \<in> set (all_domains (bd_irqs m))" "e \<in> set (all_domains (bd_irqs m))"
    and "h < intc_lines (dom_controller d)" "k < intc_lines (dom_controller e)"
    and "dom_virq_base d + h = dom_virq_base e + k"
  shows "d = e \<and> h = k \<and> unat (dom_virq_base d + h) < 256"
proof -
  have wf: "irq_wf (bd_irqs m)" "\<forall>d \<in> set (all_domains (bd_irqs m)). dom_irq_count d = intc_lines (dom_controller d)"
    using board_steps_wf [OF assms(1,2)] by (simp_all add: controllers_wf_def)
  have range: "unat (dom_virq_base x + l) \<in> dom_range x \<and> unat (dom_virq_base x + l) < 256"
    if x: "x \<in> set (all_domains (bd_irqs m))" and l: "l < intc_lines (dom_controller x)" for x l
  proof -
    have small: "unat (dom_virq_base x) + unat (dom_irq_count x) < 256" by (rule domain_small [OF wf(1) x])
    have "unat l < unat (dom_irq_count x)" using wf(2) x l by (simp add: word_less_nat_alt)
    with small have "unat (dom_virq_base x + l) = unat (dom_virq_base x) + unat l" by (simp add: unat_word_ariths)
    with small \<open>unat l < _\<close> show ?thesis by (simp add: dom_range_def)
  qed
  have "d = e" using domains_overlap_eq [OF wf(1) assms(3,4)] range [OF assms(3,5)] range [OF assms(4,6)] assms(7) by simp
  with assms(7) range [OF assms(3,5)] show ?thesis by simp
qed



text \<open>The two controllers chained as on the board, and a device behind the second.\<close>

definition example_intc_props :: "u32 \<Rightarrow> u32 \<Rightarrow> dt_property list" where
  "example_intc_props phandle parent =
     [\<lparr>dp_name = ''interrupt-controller'', dp_value = PV_Interrupts Int_InterruptController\<rparr>,
      \<lparr>dp_name = ''#interrupt-cells'', dp_value = PV_Interrupts (Int_InterruptCells 2)\<rparr>,
      \<lparr>dp_name = ''phandle'', dp_value = PV_Standard (Std_PHandle phandle)\<rparr>,
      \<lparr>dp_name = ''interrupt-parent'', dp_value = PV_Interrupts (Int_InterruptParent parent)\<rparr>]"

definition example_interrupts :: "u32 list \<Rightarrow> dt_property" where
  "example_interrupts is = \<lparr>dp_name = ''interrupts'', dp_value = PV_Interrupts (Int_Interrupts is)\<rparr>"

definition example_intc_tree :: device_tree where
  "example_intc_tree = \<lparr>dt_address = 0, dt_size = 0, dt_version = 17, dt_last_comp_version = 16,
     dt_boot_cpuid_phys = 0, dt_memory_reservations = [],
     dt_nodes = [\<lparr>dn_name = [], dn_properties = [], dn_children = [1, 2, 3], dn_parent = None\<rparr>,
       \<lparr>dn_name = ''local_intc'', dn_properties = example_intc_props 1 1, dn_children = [], dn_parent = Some 0\<rparr>,
       \<lparr>dn_name = ''intc'', dn_properties = example_interrupts [8, 4] # example_intc_props 2 1, dn_children = [],
         dn_parent = Some 0\<rparr>,
       \<lparr>dn_name = ''usb'', dn_properties = [example_interrupts [1, 9],
         \<lparr>dp_name = ''interrupt-parent'', dp_value = PV_Interrupts (Int_InterruptParent 2)\<rparr>], dn_children = [],
         dn_parent = Some 0\<rparr>],
     dt_root = 0, dt_phandle_map = [1 \<mapsto> 1, 2 \<mapsto> 2]\<rparr>"

definition example_intc_board :: "(usize \<Rightarrow> u32, nat) board" where
  "example_intc_board = \<lparr>bd_regs = (\<lambda>a. 0), bd_irqs = irq_tables_new, bd_virq_bases = Map.empty, bd_mmu = example_mmu,
     bd_core = 0, bd_l1_devices = registry_new, bd_armctrl_devices = registry_new\<rparr>"

definition example_l1_domain :: "intc irq_domain" where
  "example_l1_domain = \<lparr>dom_node = 1, dom_controller = L1_Intc 0x1000, dom_virq_base = 0, dom_irq_count = 12\<rparr>"

definition example_armctrl_domain :: "intc irq_domain" where
  "example_armctrl_domain = \<lparr>dom_node = 2, dom_controller = Armctrl_Ic 0x2000, dom_virq_base = 12, dom_irq_count = 72\<rparr>"

lemmas example_intc_defs = example_intc_tree_def example_intc_board_def example_intc_props_def example_interrupts_def
  dt_node_at_def node_interrupt_parent_def node_phandle_def node_is_interrupt_controller_def typed_prop_def has_prop_def
  node_interrupts_def node_interrupts_extended_def node_interrupt_map_def node_interrupt_cells_def node_by_phandle_def

lemma example_l1_setup:
  "\<exists>m. l1_global_setup ram_bus example_intc_tree 1 0x1000 example_intc_board = Some (Inr (), m)
     \<and> bd_irqs m = irq_tables_new\<lparr>next_virq_base := 12, root_controller := Some example_l1_domain\<rparr>
     \<and> bd_virq_bases m = Map.empty"
  by (simp add: l1_global_setup_def Let_def board_register_controller_def register_controller_def is_root_controller_def
      example_intc_defs intc_ops_def intc_lines_def L1_COUNT_def irq_tables_new_def MAX_IRQS_def example_l1_domain_def
      intc_set_virq_base_def or_retry_def update_reg_def read_reg_def write_reg_def)

lemma all_domains_handlers [simp]: "all_domains (t\<lparr>global_handlers := hs\<rparr>) = all_domains t"
  by (simp add: all_domains_def)

lemma example_resolve:
  assumes "all_domains t = [example_l1_domain, example_armctrl_domain]"
  shows "resolve_virq (intc_ops bus) example_intc_tree 2 0 t = Some (Inr 8)"
    "resolve_virq (intc_ops bus) example_intc_tree 3 0 t = Some (Inr 29)"
  using assms
  by (simp_all add: resolve_virq_def resolve_at_def find_interrupt_parent.simps example_intc_defs assert_that_def
      interrupts_iter_def chunks_exact.simps example_l1_domain_def example_armctrl_domain_def intc_ops_def intc_xlate_def
      l1_xlate_def armctrl_xlate_def L1_COUNT_def hwirq_ranges)

lemma example_enable_parent:
  assumes "all_domains t = [example_l1_domain, example_armctrl_domain]"
  shows "enable_irq (intc_ops bus) 8 t m = Some (Inr (), m)"
  using assms
  by (simp add: enable_irq_def domain_of_virq_def in_domain_def example_l1_domain_def intc_ops_def intc_enable_def
      l1_switch_def HWIRQ_GPU_def)

lemma example_armctrl_setup:
  assumes "bd_irqs m = irq_tables_new\<lparr>next_virq_base := 12, root_controller := Some example_l1_domain\<rparr>"
    "bd_virq_bases m = Map.empty"
  shows "\<exists>m'. armctrl_global_setup ram_bus example_intc_tree 2 0x2000 m = Some (Inr (), m')
     \<and> all_domains (bd_irqs m') = [example_l1_domain, example_armctrl_domain]
     \<and> global_handlers (bd_irqs m') = (replicate 256 None)[8 := Some (H_Armctrl 0x2000)]"
proof -
  obtain m4 :: "(usize \<Rightarrow> u32, 'a) board" where m4: "m4 = write_reg ram_bus (0x2000 + DISABLE_BASIC_IRQS_REG_OFFSET) (- 1)
    (write_reg ram_bus (0x2000 + DISABLE_IRQS_2_REG_OFFSET) (- 1) (write_reg ram_bus (0x2000 + DISABLE_IRQS_1_REG_OFFSET) (- 1)
      (write_reg ram_bus (0x2000 + FIQ_CTRL_REG_OFFSET) 0 m)))" by blast
  have tables: "bd_irqs m4 = irq_tables_new\<lparr>next_virq_base := 12, root_controller := Some example_l1_domain\<rparr>"
    "bd_virq_bases m4 = Map.empty" using assms by (simp_all add: m4) (simp add: write_reg_def)
  then obtain m5 where m5: "board_register_controller ram_bus example_intc_tree 2 (Armctrl_Ic 0x2000) m4 = Some (Inr (), m5)"
    and t5: "all_domains (bd_irqs m5) = [example_l1_domain, example_armctrl_domain]"
      "global_handlers (bd_irqs m5) = replicate 256 None"
    by (simp add: board_register_controller_def register_controller_def is_root_controller_def
      example_intc_defs intc_ops_def intc_lines_def HWIRQ_COUNT_def irq_tables_new_def MAX_IRQS_def example_l1_domain_def
      intc_set_virq_base_def armctrl_set_virq_base_def all_domains_def example_armctrl_domain_def)
  obtain m6 where m6: "armctrl_chain ram_bus example_intc_tree 2 0x2000 m5 = Some (Inr (), m6)"
    and t6: "all_domains (bd_irqs m6) = [example_l1_domain, example_armctrl_domain]"
      "global_handlers (bd_irqs m6) = (replicate 256 None)[8 := Some (H_Armctrl 0x2000)]"
    using t5 by (simp add: armctrl_chain_def example_resolve example_enable_parent with_irqs_def register_handler_def
      MAX_IRQS_def all_domains_handlers or_retry_def)
  have "node_interrupts (dt_node_at example_intc_tree 2) \<noteq> None" "\<exists>x. node_interrupts (dt_node_at example_intc_tree 2) = Some (Some x)"
    by (simp_all add: example_intc_defs)
  then have "armctrl_global_setup ram_bus example_intc_tree 2 0x2000 m = Some (Inr (), m6)"
    using m5 m6 by (auto simp: armctrl_global_setup_def Let_def m4 [symmetric])
  with t6 show ?thesis by blast
qed

lemma example_boot:
  "\<exists>m. (board_step ram_bus example_intc_tree)\<^sup>*\<^sup>* example_intc_board m
     \<and> all_domains (bd_irqs m) = [example_l1_domain, example_armctrl_domain]"
proof -
  obtain m1 where m1: "l1_global_setup ram_bus example_intc_tree 1 0x1000 example_intc_board = Some (Inr (), m1)"
    "bd_irqs m1 = irq_tables_new\<lparr>next_virq_base := 12, root_controller := Some example_l1_domain\<rparr>"
    "bd_virq_bases m1 = Map.empty"
    using example_l1_setup by blast
  from example_armctrl_setup [OF m1(2,3)] obtain m2 where m2:
    "armctrl_global_setup ram_bus example_intc_tree 2 0x2000 m1 = Some (Inr (), m2)"
    "all_domains (bd_irqs m2) = [example_l1_domain, example_armctrl_domain]" by blast
  have "(board_step ram_bus example_intc_tree)\<^sup>*\<^sup>* example_intc_board m2"
    using step_l1_setup [OF m1(1)] step_armctrl_setup [OF m2(1)] by (meson r_into_rtranclp rtranclp_trans)
  with m2(2) show ?thesis by blast
qed

theorem lines_have_own_numbers_witness:
  "\<exists>m :: (usize \<Rightarrow> u32, nat) board. all_domains (bd_irqs m) = [example_l1_domain, example_armctrl_domain]
     \<and> unat (dom_virq_base example_armctrl_domain + (17 :: u32)) < 256"
proof -
  obtain m where m: "(board_step ram_bus example_intc_tree)\<^sup>*\<^sup>* example_intc_board m"
    "all_domains (bd_irqs m) = [example_l1_domain, example_armctrl_domain]" using example_boot by blast
  have new: "bd_irqs example_intc_board = irq_tables_new" by (simp add: example_intc_board_def)
  have d: "example_armctrl_domain \<in> set (all_domains (bd_irqs m))" using m(2) by simp
  have l: "(17 :: u32) < intc_lines (dom_controller example_armctrl_domain)"
    by (simp add: example_armctrl_domain_def intc_lines_def HWIRQ_COUNT_def)
  from lines_have_own_numbers [OF m(1) new d d l l] m(2) show ?thesis by blast
qed



section \<open>Pending lines\<close>

lemma trailing_zeros_power: "k < 32 \<Longrightarrow> trailing_zeros (2 ^ k) = k"
  by (intro trailing_zeros_unique) (simp_all add: bit_exp_iff)

text \<open>The lines of the GPU with a bit of their own in the basic pending register, bits 10 to 20 in order,
  as the manual of the chip and the comment in the source list them.\<close>

definition gpu_shortcuts :: "nat list" where
  "gpu_shortcuts = [7, 9, 10, 18, 19, 53, 54, 55, 56, 57, 62]"

text \<open>The lowest bit of the basic register that line \<open>g\<close> alone raises.\<close>

definition summary_bit :: "nat \<Rightarrow> nat" where
  "summary_bit g =
     (case List.find (\<lambda>i. gpu_shortcuts ! i = g) [0..<11] of Some i \<Rightarrow> 10 + i | None \<Rightarrow> if g < 32 then 8 else 9)"

lemma summary_bit_cases:
  assumes "g < 64" "g \<noteq> 62"
  shows "summary_bit g = 8 \<and> g < 32 \<or> summary_bit g = 9 \<and> g \<ge> 32
     \<or> 10 \<le> summary_bit g \<and> summary_bit g < 20 \<and> shortcut_hwirq (summary_bit g) = Some (of_nat g + 8)"
proof -
  have shortcuts: "list_all (\<lambda>g. 10 \<le> summary_bit g \<and> summary_bit g < 20
      \<and> shortcut_hwirq (summary_bit g) = Some (of_nat g + 8)) [7, 9, 10, 18, 19, 53, 54, 55, 56, 57]"
    by (simp add: summary_bit_def gpu_shortcuts_def upt_rec shortcut_hwirq_def hwirq_ranges)
  show ?thesis
  proof (cases "g \<in> set [7, 9, 10, 18, 19, 53, 54, 55, 56, 57]")
    case True
    with shortcuts show ?thesis unfolding list_all_iff by blast
  next
    case False
    with assms(2) have "List.find (\<lambda>i. gpu_shortcuts ! i = g) [0..<11] = None"
      by (simp add: find_None_iff gpu_shortcuts_def upt_rec)
    then show ?thesis by (simp add: summary_bit_def)
  qed
qed

text \<open>C12: A line of the GPU is recognised: where the basic pending register shows the bit that line \<open>g\<close> raises
  and the bank register of \<open>g\<close> shows \<open>g\<close> as its first line, \<open>pending_hwirq\<close> gives the line to which
  \<open>xlate\<close> translates the specifier of \<open>g\<close>, for every line but 62.\<close>

theorem pending_line_is_translated_line:
  assumes "g < 64" "g \<noteq> 62"
    and "bus_read bus base (bd_regs m) = (basic, d1)" "basic \<noteq> 0" "trailing_zeros basic = summary_bit g"
    and "bus_read bus (base + (if g < 32 then 4 else 8)) d1 = (bank, d2)" "bank \<noteq> 0" "trailing_zeros bank = g mod 32"
  shows "\<exists>hwirq m'. armctrl_pending_hwirq bus base m = Some (Some hwirq, m')
     \<and> armctrl_xlate [of_nat (1 + g div 32), of_nat (g mod 32)] = Inr hwirq"
proof -
  have xl: "armctrl_xlate [of_nat (1 + g div 32), of_nat (g mod 32)] = Inr (of_nat g + 8)"
  proof (cases "g < 32")
    case True
    then show ?thesis by (simp add: armctrl_xlate_def hwirq_ranges Let_def word_less_nat_alt unat_word_ariths unat_of_nat)
  next
    case False
    define k where "k = g - 32"
    have "g = 32 + k" "k < 32" "g div 32 = 1" "g mod 32 = k" using assms(1) False by (simp_all add: k_def le_mod_geq div_nat_eqI)
    then show ?thesis by (simp add: armctrl_xlate_def hwirq_ranges Let_def word_less_nat_alt unat_word_ariths unat_of_nat)
  qed
  have read: "read_reg bus base m = (basic, m\<lparr>bd_regs := d1\<rparr>)" using assms(3) by (simp add: read_reg_def)
  consider "summary_bit g = 8" "g < 32" | "summary_bit g = 9" "g \<ge> 32"
    | "10 \<le> summary_bit g" "summary_bit g < 20" "shortcut_hwirq (summary_bit g) = Some (of_nat g + 8)"
    using summary_bit_cases [OF assms(1,2)] by blast
  then have "\<exists>m'. armctrl_pending_hwirq bus base m = Some (Some (of_nat g + 8), m')"
  proof cases
    case 1
    then show ?thesis
      using assms read by (simp add: armctrl_pending_hwirq_def bank_hwirq_def armctrl_offsets read_reg_def hwirq_ranges)
  next
    case 2
    define k where "k = g - 32"
    have "g = 32 + k" "k < 32" "g mod 32 = k" using assms(1) 2(2) by (simp_all add: k_def le_mod_geq)
    with 2 show ?thesis
      using assms read by (simp add: armctrl_pending_hwirq_def bank_hwirq_def armctrl_offsets read_reg_def hwirq_ranges)
  next
    case 3
    then show ?thesis using assms read by (simp add: armctrl_pending_hwirq_def armctrl_offsets)
  qed
  with xl show ?thesis by blast
qed


theorem pending_line_is_translated_line_witness:
  "\<exists>hwirq m'. armctrl_pending_hwirq ram_bus 0x2000
       (example_intc_board\<lparr>bd_regs := (\<lambda>a. 0)(0x2000 := 2 ^ 15, 0x2008 := 2 ^ 21)\<rparr>) = Some (Some hwirq, m')
     \<and> armctrl_xlate [2, 21] = Inr hwirq"
proof -
  have sb: "summary_bit 53 = 15" by (simp add: summary_bit_def gpu_shortcuts_def upt_rec)
  let ?regs = "(\<lambda>a. 0)(0x2000 := 2 ^ 15, 0x2008 := 2 ^ 21) :: usize \<Rightarrow> u32"
  have "\<exists>hwirq m'. armctrl_pending_hwirq ram_bus 0x2000 (example_intc_board\<lparr>bd_regs := ?regs\<rparr>) = Some (Some hwirq, m')
     \<and> armctrl_xlate [of_nat (1 + 53 div 32), of_nat (53 mod 32)] = Inr hwirq"
    by (rule pending_line_is_translated_line [where ?d1.0 = ?regs and ?d2.0 = ?regs and basic = "2 ^ 15" and bank = "2 ^ 21"])
      (simp_all add: sb trailing_zeros_power del: power_numeral_even power_numeral_odd power_numeral)
  then show ?thesis by simp
qed

text \<open>C40: Line 62 of the GPU, the SD host, is lost: its bit 20 gives number 102 of a controller with 72 lines,
  the first of the next controllers or nobody's. Where no handler is registered under that number, the loop
  of the handler never ends as long as the bit stays up.\<close>

theorem sd_host_line_never_handled:
  assumes "bus_read bus base d = (basic, d)" "basic \<noteq> 0" "trailing_zeros basic = summary_bit 62"
    and "bd_regs m = d" "bd_virq_bases m base = Some virq_base" "unat virq_base + 102 < 256"
    and "global_handlers (bd_irqs m) ! (unat virq_base + 102) = None"
  shows "armctrl_pending_hwirq bus base m = Some (Some 102, m) \<and> \<not> 102 < intc_lines (Armctrl_Ic base)
     \<and> armctrl_handle bus other base m = None"
proof -
  have bit: "trailing_zeros basic = 20" using assms(3) by (simp add: summary_bit_def gpu_shortcuts_def upt_rec)
  have pending: "armctrl_pending_hwirq bus base m = Some (Some 102, m)"
    using assms(1,2,4) bit
    by (simp add: armctrl_pending_hwirq_def read_reg_def armctrl_offsets shortcut_hwirq_def hwirq_ranges)
  have virq: "unat (virq_base + 102) = unat virq_base + 102" using assms(6) by (simp add: unat_word_ariths)
  have skip: "dispatch_irq bd_irqs h (virq_base + 102) m = Some m" for h
    using assms(7) virq by (simp add: dispatch_irq_def)
  have no_result: "\<not> (bs = bus \<and> os = other \<and> b = base \<and> s = m)" if "armctrl_handle bs os b s = Some r" for bs os b s r
  proof (rule armctrl_handle.raw_induct [OF _ that, where P = "\<lambda>bs os b s r. \<not> (bs = bus \<and> os = other \<and> b = base \<and> s = m)"])
    fix rec bs os b s r
    assume IH: "\<And>bs os b s r. rec bs os b s = Some r \<Longrightarrow> \<not> (bs = bus \<and> os = other \<and> b = base \<and> s = m)"
      and body: "Option.bind (armctrl_pending_hwirq bs b s) (\<lambda>(pending, m1). case pending of None \<Rightarrow> Some m1
         | Some hwirq \<Rightarrow> (case bd_virq_bases m1 b of None \<Rightarrow> Some m1
            | Some virq_base \<Rightarrow> Option.bind (dispatch_irq bd_irqs
                (\<lambda>h v m. case h of H_Armctrl b \<Rightarrow> rec bs os b m | H_Other x \<Rightarrow> os x v m) (virq_base + hwirq) m1)
                (\<lambda>m2. rec bs os b m2))) = Some r"
    show "\<not> (bs = bus \<and> os = other \<and> b = base \<and> s = m)"
    proof
      assume eq: "bs = bus \<and> os = other \<and> b = base \<and> s = m"
      with body pending assms(5) skip have "rec bus other base m = Some r" by simp
      from IH [OF this] show False by simp
    qed
  qed
  have "armctrl_handle bus other base m = None" using no_result by (cases "armctrl_handle bus other base m") blast+
  then show ?thesis using pending by (simp add: intc_lines_def HWIRQ_COUNT_def)
qed


theorem sd_host_line_never_handled_witness:
  "armctrl_handle ram_bus (\<lambda>x v m. Some m) 0x2000
     (example_intc_board\<lparr>bd_regs := (\<lambda>a. 0)(0x2000 := 2 ^ 20), bd_virq_bases := [0x2000 \<mapsto> 12]\<rparr>) = None"
proof -
  have tz: "trailing_zeros (2 ^ 20) = summary_bit 62"
    by (simp add: trailing_zeros_power summary_bit_def gpu_shortcuts_def upt_rec del: power_numeral_even power_numeral_odd power_numeral)
  let ?regs = "(\<lambda>a. 0)(0x2000 := 2 ^ 20) :: usize \<Rightarrow> u32"
  let ?m = "example_intc_board\<lparr>bd_regs := ?regs, bd_virq_bases := [0x2000 \<mapsto> 12]\<rparr>"
  have "global_handlers (bd_irqs ?m) ! (unat (12 :: u32) + 102) = None"
    by (simp add: example_intc_board_def irq_tables_new_def)
  from sd_host_line_never_handled [where bus = ram_bus and base = "0x2000" and d = ?regs and m = ?m, OF _ _ tz _ _ _ this]
  show ?thesis by simp
qed

end
