(* ===== verification/Time.thy ===== *)
theory Time
  imports Irq Scheduler
begin

text \<open>Time (\<open>kernel/time.rs\<close>): durations and ticks, the registered timers and alarms, waiting, the data of a
  core (\<open>kernel/cpu.rs\<close>) and the alarm that drives the scheduler (\<open>start_sched\<close> of \<open>kernel/sched.rs\<close>). A timer
  \<open>'t\<close> and an alarm \<open>'a\<close> act on a machine \<open>'m\<close>.\<close>

section \<open>Durations\<close>

text \<open>\<open>core::time::Duration\<close>: seconds, and nanoseconds below \<open>10 ^ 9\<close>.\<close>

type_synonym u128 = "128 word"

datatype duration = Duration (as_secs: u64) (subsec_nanos: u32)

instantiation duration :: linorder
begin

definition less_eq_duration :: "duration \<Rightarrow> duration \<Rightarrow> bool" where
  "less_eq_duration a b \<longleftrightarrow> as_secs a < as_secs b \<or> as_secs a = as_secs b \<and> subsec_nanos a \<le> subsec_nanos b"

definition less_duration :: "duration \<Rightarrow> duration \<Rightarrow> bool" where
  "less_duration a b \<longleftrightarrow> as_secs a < as_secs b \<or> as_secs a = as_secs b \<and> subsec_nanos a < subsec_nanos b"

instance
  by standard (auto simp: less_eq_duration_def less_duration_def duration.expand)

end

definition duration_from_nanos :: "u64 \<Rightarrow> duration" where
  "duration_from_nanos n = Duration (n div 1000000000) (ucast (n mod 1000000000))"

text \<open>\<open>Duration::new\<close> carries over and panics when the seconds overflow.\<close>

definition duration_new :: "u64 \<Rightarrow> u32 \<Rightarrow> duration option" where
  "duration_new secs nanos =
     (if nanos < 1000000000 then Some (Duration secs nanos)
      else do {
        let carry = ucast (nanos div 1000000000);
        assert_that (unat secs + unat carry < 2 ^ 64);
        Some (Duration (secs + carry) (nanos mod 1000000000))
      })"

definition NANOS_PER_SEC :: u128 where "NANOS_PER_SEC = 1000000000"

text \<open>A division by a frequency of zero panics.\<close>

definition calc_resolution :: "u128 \<Rightarrow> duration option" where
  "calc_resolution frequency_hz = do {
     assert_that (frequency_hz \<noteq> 0);
     Some (duration_from_nanos (max 1 (ucast (NANOS_PER_SEC div frequency_hz))))
   }"

definition convert_duration_to_ticks :: "u128 \<Rightarrow> duration \<Rightarrow> u64" where
  "convert_duration_to_ticks frequency_hz d =
     (let secs = ucast (as_secs d); nanos = ucast (subsec_nanos d);
          secs_ticks = secs * frequency_hz;
          nanos_ticks = (nanos * frequency_hz) div NANOS_PER_SEC
      in ucast (secs_ticks + nanos_ticks))"

definition convert_ticks_to_duration :: "u128 \<Rightarrow> u64 \<Rightarrow> duration option" where
  "convert_ticks_to_duration frequency_hz ticks = do {
     assert_that (frequency_hz \<noteq> 0);
     let ticks = ucast ticks;
     let secs = ticks div frequency_hz;
     let nanos = ((ticks mod frequency_hz) * NANOS_PER_SEC) div frequency_hz;
     duration_new (ucast secs) (ucast nanos)
   }"


section \<open>Timers and alarms\<close>

text \<open>The methods of the traits \<open>Timer\<close> and \<open>Alarm\<close>; the result \<open>None\<close> is a panic.\<close>

record ('t, 'm) timer_ops =
  tm_counter :: "'t \<Rightarrow> 'm \<Rightarrow> u64 \<times> 'm"
  tm_frequency_hz :: "'t \<Rightarrow> u64"
  tm_max_ticks :: "'t \<Rightarrow> u64"

record ('a, 'm) alarm_ops =
  al_schedule_at :: "'a \<Rightarrow> u64 \<Rightarrow> 'm \<Rightarrow> 'm option"
  al_schedule_after :: "'a \<Rightarrow> u64 \<Rightarrow> 'm \<Rightarrow> 'm option"
  al_virq :: "'a \<Rightarrow> u32"
  al_cancel :: "'a \<Rightarrow> 'm \<Rightarrow> 'm"
  al_frequency_hz :: "'a \<Rightarrow> u64"
  al_max_ticks :: "'a \<Rightarrow> u64"

text \<open>The default methods.\<close>

definition timer_resolution :: "('t, 'm) timer_ops \<Rightarrow> 't \<Rightarrow> duration option" where
  "timer_resolution ops t = calc_resolution (ucast (tm_frequency_hz ops t))"

definition timer_duration_to_ticks :: "('t, 'm) timer_ops \<Rightarrow> 't \<Rightarrow> duration \<Rightarrow> u64" where
  "timer_duration_to_ticks ops t d = convert_duration_to_ticks (ucast (tm_frequency_hz ops t)) d"

definition timer_ticks_to_duration :: "('t, 'm) timer_ops \<Rightarrow> 't \<Rightarrow> u64 \<Rightarrow> duration option" where
  "timer_ticks_to_duration ops t ticks = convert_ticks_to_duration (ucast (tm_frequency_hz ops t)) ticks"

definition timer_uptime :: "('t, 'm) timer_ops \<Rightarrow> 't \<Rightarrow> 'm \<Rightarrow> (duration \<times> 'm) option" where
  "timer_uptime ops t m = do {
     let (ticks, m') = tm_counter ops t m;
     d \<leftarrow> timer_ticks_to_duration ops t ticks;
     Some (d, m')
   }"

definition alarm_resolution :: "('a, 'm) alarm_ops \<Rightarrow> 'a \<Rightarrow> duration option" where
  "alarm_resolution ops a = calc_resolution (ucast (al_frequency_hz ops a))"

definition alarm_min_duration :: "('a, 'm) alarm_ops \<Rightarrow> 'a \<Rightarrow> duration option" where
  "alarm_min_duration ops a = alarm_resolution ops a"

definition alarm_duration_to_ticks :: "('a, 'm) alarm_ops \<Rightarrow> 'a \<Rightarrow> duration \<Rightarrow> u64" where
  "alarm_duration_to_ticks ops a d = convert_duration_to_ticks (ucast (al_frequency_hz ops a)) d"

definition alarm_ticks_to_duration :: "('a, 'm) alarm_ops \<Rightarrow> 'a \<Rightarrow> u64 \<Rightarrow> duration option" where
  "alarm_ticks_to_duration ops a ticks = convert_ticks_to_duration (ucast (al_frequency_hz ops a)) ticks"

record ('t, 'a) time_state =
  global_timers :: "'t list"
  global_system_timer :: "'t option"
  global_alarms :: "'a list"
  global_system_alarm :: "'a option"

definition time_state_new :: "('t, 'a) time_state" where
  "time_state_new = \<lparr>global_timers = [], global_system_timer = None, global_alarms = [], global_system_alarm = None\<rparr>"

text \<open>Whether \<open>x\<close> replaces the one in use.\<close>

definition finer :: "('x \<Rightarrow> duration option) \<Rightarrow> 'x \<Rightarrow> 'x option \<Rightarrow> bool option" where
  "finer resolution x current =
     (case current of
        None \<Rightarrow> Some True
      | Some y \<Rightarrow> do {
          rx \<leftarrow> resolution x;
          ry \<leftarrow> resolution y;
          Some (rx < ry)
        })"

definition register_global_timer :: "('t, 'm) timer_ops \<Rightarrow> 't \<Rightarrow> ('t, 'a) time_state \<Rightarrow> ('t, 'a) time_state option" where
  "register_global_timer ops t s = do {
     let s1 = s\<lparr>global_timers := global_timers s @ [t]\<rparr>;
     better \<leftarrow> finer (timer_resolution ops) t (global_system_timer s1);
     Some (if better then s1\<lparr>global_system_timer := Some t\<rparr> else s1)
   }"

definition register_global_alarm :: "('a, 'm) alarm_ops \<Rightarrow> 'a \<Rightarrow> ('t, 'a) time_state \<Rightarrow> ('t, 'a) time_state option" where
  "register_global_alarm ops a s = do {
     let s1 = s\<lparr>global_alarms := global_alarms s @ [a]\<rparr>;
     better \<leftarrow> finer (alarm_resolution ops) a (global_system_alarm s1);
     Some (if better then s1\<lparr>global_system_alarm := Some a\<rparr> else s1)
   }"

definition uptime :: "('t, 'm) timer_ops \<Rightarrow> ('t, 'a) time_state \<Rightarrow> 'm \<Rightarrow> (duration \<times> 'm) option" where
  "uptime ops s m = (case global_system_timer s of None \<Rightarrow> Some (Duration 0 0, m) | Some t \<Rightarrow> timer_uptime ops t m)"


section \<open>Waiting\<close>

text \<open>The loop of \<open>busy_wait\<close> and \<open>sleep\<close>; \<open>idle\<close> is its body, a spin hint or \<open>yield_task\<close>.\<close>

partial_function (option) wait_loop :: "('m \<Rightarrow> u64 \<times> 'm) \<Rightarrow> ('m \<Rightarrow> 'm option) \<Rightarrow> u64 \<Rightarrow> u64 \<Rightarrow> 'm \<Rightarrow> 'm option" where
  "wait_loop counter idle start_ticks wait_ticks m =
     (let (now, m1) = counter m
      in if now - start_ticks < wait_ticks
         then do {
           m2 \<leftarrow> idle m1;
           wait_loop counter idle start_ticks wait_ticks m2
         }
         else Some m1)"

definition wait_for :: "('t, 'm) timer_ops \<Rightarrow> ('t, 'a) time_state \<Rightarrow> ('m \<Rightarrow> 'm option) \<Rightarrow> duration \<Rightarrow> 'm \<Rightarrow> 'm option" where
  "wait_for ops s idle d m = do {
     timer \<leftarrow> global_system_timer s;
     let (start_ticks, m1) = tm_counter ops timer m;
     let wait_ticks = timer_duration_to_ticks ops timer d;
     assert_that (wait_ticks < tm_max_ticks ops timer);
     wait_loop (tm_counter ops timer) idle start_ticks wait_ticks m1
   }"

definition busy_wait :: "('t, 'm) timer_ops \<Rightarrow> ('t, 'a) time_state \<Rightarrow> duration \<Rightarrow> 'm \<Rightarrow> 'm option" where
  "busy_wait ops s d m = do {
     assert_that (d > Duration 0 0);
     assert_that (d < Duration 1 0);
     wait_for ops s Some d m
   }"

definition sleep :: "('t, 'm) timer_ops \<Rightarrow> ('t, 'a) time_state \<Rightarrow> ('m \<Rightarrow> 'm option) \<Rightarrow> duration \<Rightarrow> 'm \<Rightarrow> 'm option" where
  "sleep ops s yield d m = do {
     assert_that (d > Duration 0 0);
     wait_for ops s yield d m
   }"


section \<open>The data of a core\<close>

record 'a local_data =
  ld_core_id :: usize
  ld_alarm :: "'a option"
  ld_schedule_flag :: bool

definition local_data_new :: "usize \<Rightarrow> 'a local_data" where
  "local_data_new i = \<lparr>ld_core_id = i, ld_alarm = None, ld_schedule_flag = False\<rparr>"

definition set_alarm :: "'a \<Rightarrow> 'a local_data \<Rightarrow> ('a + unit) \<times> 'a local_data" where
  "set_alarm a l = (case ld_alarm l of Some _ \<Rightarrow> (Inl a, l) | None \<Rightarrow> (Inr (), l\<lparr>ld_alarm := Some a\<rparr>))"

definition set_schedule_flag :: "'a local_data \<Rightarrow> 'a local_data" where
  "set_schedule_flag l = l\<lparr>ld_schedule_flag := True\<rparr>"

definition clear_schedule_flag :: "'a local_data \<Rightarrow> bool \<times> 'a local_data" where
  "clear_schedule_flag l = (ld_schedule_flag l, l\<lparr>ld_schedule_flag := False\<rparr>)"

definition register_local_alarm :: "'a \<Rightarrow> 'a local_data \<Rightarrow> 'a local_data option" where
  "register_local_alarm a l = (case set_alarm a l of (Inl _, _) \<Rightarrow> None | (Inr _, l') \<Rightarrow> Some l')"


section \<open>The alarm of the scheduler\<close>

definition TASK_QUANTUM :: duration where "TASK_QUANTUM = Duration 0 10000000"

text \<open>The handler \<open>start_sched\<close> registers: it arms the alarm again and asks for a switch.\<close>

definition quantum_handler :: "('a, 'm) alarm_ops \<Rightarrow> 'a \<Rightarrow> 'm \<times> 'a local_data \<Rightarrow> ('m \<times> 'a local_data) option" where
  "quantum_handler ops alarm w = do {
     m \<leftarrow> al_schedule_after ops alarm (alarm_duration_to_ticks ops alarm TASK_QUANTUM) (fst w);
     Some (m, set_schedule_flag (snd w))
   }"

text \<open>\<open>start_sched\<close> up to \<open>scheduler.start()\<close>; \<open>handler\<close> names the closure above in the table.\<close>

definition start_quantum :: "('a, 'm) alarm_ops \<Rightarrow> ('a \<Rightarrow> 'h) \<Rightarrow> ('c, 'h) irq_tables \<Rightarrow> 'm \<times> 'a local_data
    \<Rightarrow> (('c, 'h) irq_tables \<times> 'm \<times> 'a local_data) option" where
  "start_quantum ops handler t w = do {
     alarm \<leftarrow> ld_alarm (snd w);
     (case register_handler (al_virq ops alarm) (handler alarm) t of
        (Inl _, _) \<Rightarrow> None
      | (Inr _, t') \<Rightarrow> do {
          shortest \<leftarrow> alarm_min_duration ops alarm;
          m \<leftarrow> al_schedule_after ops alarm (alarm_duration_to_ticks ops alarm shortest) (fst w);
          Some (t', m, snd w)
        })
   }"

definition start_sched :: "('a, 'm) alarm_ops \<Rightarrow> ('a \<Rightarrow> 'h) \<Rightarrow> ('c, 'h) irq_tables \<Rightarrow> 'm \<times> 'a local_data
    \<Rightarrow> scheduler option \<Rightarrow> (scheduler \<times> ('c, 'h) irq_tables \<times> 'm \<times> 'a local_data) option" where
  "start_sched ops handler t w sched = do {
     scheduler \<leftarrow> sched;
     (t', m, l) \<leftarrow> start_quantum ops handler t w;
     Some (sched_start scheduler, t', m, l)
   }"

section \<open>Ticks and durations\<close>

definition duration_ok :: "duration \<Rightarrow> bool" where
  "duration_ok d \<longleftrightarrow> unat (subsec_nanos d) < 1000000000"

lemma ucast_u64_u128 [simp]: "unat (ucast (x :: u64) :: u128) = unat x"
  by (simp add: unsigned_ucast_eq take_bit_nat_eq_self_iff less_le_trans [OF unsigned_less])

lemma ucast_u32_u128 [simp]: "unat (ucast (x :: u32) :: u128) = unat x"
  by (simp add: unsigned_ucast_eq take_bit_nat_eq_self_iff less_le_trans [OF unsigned_less])

lemma unat_mult_u128: "unat (a :: u128) * unat b < 2 ^ 128 \<Longrightarrow> unat (a * b) = unat a * unat b"
  by (simp add: unat_word_ariths)

lemma u64_less: "unat (x :: u64) < 18446744073709551616" using unsigned_less [of x] by simp
lemma u32_less: "unat (x :: u32) < 4294967296" using unsigned_less [of x] by simp

lemma mult_bound: "(a :: nat) < b \<Longrightarrow> c < d \<Longrightarrow> a * c < b * d"
  by (rule mult_strict_mono) auto

lemma convert_duration_to_ticks_nat:
  fixes f :: u64
  assumes "duration_ok d"
  shows "unat (convert_duration_to_ticks (ucast f) d)
     = (unat (as_secs d) * unat f + unat (subsec_nanos d) * unat f div 1000000000) mod 2 ^ 64"
proof -
  let ?s = "ucast (as_secs d) :: u128" and ?n = "ucast (subsec_nanos d) :: u128" and ?f = "ucast f :: u128"
  have le: "unat (as_secs d) \<le> 18446744073709551615" "unat f \<le> 18446744073709551615" "unat (subsec_nanos d) \<le> 999999999"
    using u64_less [of "as_secs d"] u64_less [of f] assms unfolding duration_ok_def by linarith+
  have a: "unat (as_secs d) * unat f \<le> 18446744073709551615 * 18446744073709551615"
    using le by (intro mult_le_mono)
  have b: "unat (subsec_nanos d) * unat f \<le> 999999999 * 18446744073709551615"
    using le by (intro mult_le_mono)
  have 1: "unat (?s * ?f) = unat (as_secs d) * unat f" using a by (simp add: unat_mult_u128)
  have 2: "unat (?n * ?f) = unat (subsec_nanos d) * unat f" using b by (simp add: unat_mult_u128)
  have "unat (?n * ?f) div 1000000000 \<le> 999999999 * 18446744073709551615 div 1000000000"
    unfolding 2 using b by (rule div_le_mono)
  with a have "unat (as_secs d) * unat f + unat (?n * ?f) div 1000000000 < 2 ^ 128" by simp
  then have "unat (?s * ?f + ?n * ?f div NANOS_PER_SEC) = unat (?s * ?f) + unat (?n * ?f) div 1000000000"
    unfolding 1 [symmetric] unat_word_ariths(1) [where 'a = 128] unat_div by (simp add: NANOS_PER_SEC_def)
  then show ?thesis
    unfolding convert_duration_to_ticks_def Let_def
    by (simp add: unsigned_ucast_eq take_bit_eq_mod 1 2)
qed

lemma convert_ticks_to_duration_nat:
  fixes f t :: u64
  assumes "f \<noteq> 0"
  shows "convert_ticks_to_duration (ucast f) t
     = Some (Duration (of_nat (unat t div unat f)) (of_nat (unat t mod unat f * 1000000000 div unat f)))"
    "unat t mod unat f * 1000000000 div unat f < 1000000000"
proof -
  let ?t = "ucast t :: u128" and ?f = "ucast f :: u128"
  have f: "0 < unat f" using assms by (simp add: unat_gt_0)
  have f0: "?f \<noteq> 0"
  proof
    assume "?f = 0"
    then have "unat ?f = 0" by (simp only: unat_0)
    with f show False by simp
  qed
  have m: "unat t mod unat f < unat f" using f by simp
  show lt: "unat t mod unat f * 1000000000 div unat f < 1000000000"
    using f m by (simp add: less_mult_imp_div_less)
  have "unat (?t mod ?f) * unat NANOS_PER_SEC < 18446744073709551616 * 1000000001"
    using less_trans [OF m u64_less [of f]] by (intro mult_bound) (simp_all add: unat_mod NANOS_PER_SEC_def)
  then have n: "unat ((?t mod ?f) * NANOS_PER_SEC div ?f) = unat t mod unat f * 1000000000 div unat f"
    by (simp add: unat_div unat_mult_u128 unat_mod NANOS_PER_SEC_def)
  have nanos: "(ucast ((?t mod ?f) * NANOS_PER_SEC div ?f) :: u32) = of_nat (unat t mod unat f * 1000000000 div unat f)"
    using n by (metis of_nat_unat)
  have secs: "(ucast (?t div ?f) :: u64) = of_nat (unat t div unat f)"
    by (metis of_nat_unat ucast_u64_u128 unat_div)
  have "(of_nat (unat t mod unat f * 1000000000 div unat f) :: u32) < 1000000000"
    using lt by (simp add: word_less_nat_alt unat_of_nat)
  then show "convert_ticks_to_duration (ucast f) t
     = Some (Duration (of_nat (unat t div unat f)) (of_nat (unat t mod unat f * 1000000000 div unat f)))"
    using f0 by (simp add: convert_ticks_to_duration_def duration_new_def nanos secs)
qed

text \<open>Converting a number of ticks to a duration and back loses at most one tick, and none where the
  frequency divides \<open>10 ^ 9\<close>, for every frequency up to 1 GHz; the duration is well formed.\<close>

theorem ticks_duration_roundtrip:
  fixes f t :: u64
  assumes "f \<noteq> 0" "unat f \<le> 1000000000"
  shows "\<exists>d. convert_ticks_to_duration (ucast f) t = Some d \<and> duration_ok d
    \<and> (let r = unat (convert_duration_to_ticks (ucast f) d)
        in r \<le> unat t \<and> unat t \<le> r + 1 \<and> (1000000000 mod unat f = 0 \<longrightarrow> r = unat t))"
proof -
  let ?N = "1000000000 :: nat"
  define q r n where "q = unat t div unat f" and "r = unat t mod unat f" and "n = r * ?N div unat f"
  have f: "0 < unat f" using assms(1) by (simp add: unat_gt_0)
  have t: "unat t = q * unat f + r" by (simp add: q_def r_def)
  have q: "unat (of_nat q :: u64) = q"
    using le_less_trans [OF div_le_dividend u64_less [of t], of "unat f"] by (simp add: q_def unat_of_nat)
  have n: "n < ?N" using convert_ticks_to_duration_nat(2) [OF assms(1), of t] by (simp add: n_def r_def)
  then have n': "unat (of_nat n :: u32) = n" by (simp add: unat_of_nat)
  have nf: "n * unat f \<le> r * ?N" by (simp add: n_def)
  have "r * ?N < n * unat f + unat f"
    using f mod_less_divisor [OF f, of "r * ?N"] div_mult_mod_eq [of "r * ?N" "unat f"] unfolding n_def by linarith
  then have nf': "r * ?N \<le> n * unat f + ?N" using assms(2) by linarith
  define k where "k = n * unat f div ?N"
  have k: "k \<le> r" using div_le_mono [OF nf, of ?N] by (simp add: k_def)
  have k': "r \<le> k + 1" using div_le_mono [OF nf', of ?N] by (simp add: k_def)
  have exact: "k = r" if "?N mod unat f = 0"
  proof -
    have "unat f dvd r * ?N" using that by (simp add: mod_eq_0_iff_dvd)
    then have "n * unat f = r * ?N" by (simp add: n_def)
    then show ?thesis by (simp add: k_def)
  qed
  let ?d = "Duration (of_nat q) (of_nat n)"
  have ok: "duration_ok ?d" using n n' by (simp add: duration_ok_def)
  have "q * unat f + k < 18446744073709551616" using u64_less [of t] t k by linarith
  then have "unat (convert_duration_to_ticks (ucast f) ?d) = q * unat f + k"
    unfolding convert_duration_to_ticks_nat [OF ok] by (simp add: q n' k_def)
  moreover have "convert_ticks_to_duration (ucast f) t = Some ?d"
    using convert_ticks_to_duration_nat(1) [OF assms(1), of t] by (simp add: q_def n_def r_def)
  ultimately show ?thesis using ok t k k' exact by (auto simp: Let_def)
qed

theorem ticks_duration_roundtrip_witness:
  "\<exists>d. convert_ticks_to_duration (ucast (1000000 :: u64)) 1234567 = Some d
     \<and> unat (convert_duration_to_ticks (ucast (1000000 :: u64)) d) = 1234567"
  using ticks_duration_roundtrip [of 1000000 1234567] by (auto simp: Let_def)


section \<open>Waiting lasts as long as asked\<close>

lemma wait_loop_returns:
  fixes time :: "'m \<Rightarrow> nat"
  assumes clock: "\<And>m. \<exists>m'. counter m = (of_nat (time m'), m') \<and> time m < time m' \<and> time m' \<le> time m + 2 ^ 62"
    and idle: "\<And>m. \<exists>m'. idle m = Some m' \<and> time m \<le> time m' \<and> time m' \<le> time m + 2 ^ 62"
    and "t0 \<le> time m" "time m \<le> t0 + unat wait + 2 ^ 62" "unat wait \<le> 2 ^ 32"
  shows "\<exists>m'. wait_loop counter idle (of_nat t0) wait m = Some m' \<and> t0 + unat wait \<le> time m'"
  using assms(3,4)
proof (induction "t0 + unat wait + 2 ^ 62 - time m" arbitrary: m rule: less_induct)
  case less
  obtain m1 where m1: "counter m = (of_nat (time m1), m1)" "time m < time m1" "time m1 \<le> time m + 2 ^ 62"
    using clock by blast
  have diff: "unat (of_nat (time m1) - of_nat t0 :: u64) = time m1 - t0"
  proof -
    have "of_nat (time m1) - of_nat t0 = (of_nat (time m1 - t0) :: u64)" using m1(2) less.prems(1) by simp
    moreover have "time m1 - t0 < 18446744073709551616" using m1(3) less.prems(2) assms(5) by simp
    ultimately show ?thesis by (simp add: unat_of_nat)
  qed
  show ?case
  proof (cases "of_nat (time m1) - of_nat t0 < wait")
    case False
    then have "unat wait \<le> time m1 - t0" using diff by (simp add: word_less_nat_alt)
    then show ?thesis using False m1 less.prems(1) by (subst wait_loop.simps) (simp add: le_diff_conv2)
  next
    case True
    then have before: "time m1 < t0 + unat wait" using diff by (simp add: word_less_nat_alt)
    obtain m2 where m2: "idle m1 = Some m2" "time m1 \<le> time m2" "time m2 \<le> time m1 + 2 ^ 62" using idle by blast
    have "\<exists>m'. wait_loop counter idle (of_nat t0) wait m2 = Some m' \<and> t0 + unat wait \<le> time m'"
      using less.hyps [of m2] m1 m2 before less.prems by simp
    then show ?thesis using True m1(1) m2(1) by (subst wait_loop.simps) simp
  qed
qed

text \<open>With a timer whose counter shows a clock of 64 bits that keeps running, and is read at least every
  \<open>2 ^ 62\<close> ticks, \<open>busy_wait\<close> and \<open>sleep\<close> return, and not before the ticks of the duration have passed.\<close>

theorem waiting_lasts:
  fixes time :: "'m \<Rightarrow> nat"
  assumes "global_system_timer s = Some t"
    and "\<And>m. \<exists>m'. tm_counter ops t m = (of_nat (time m'), m') \<and> time m < time m' \<and> time m' \<le> time m + 2 ^ 62"
    and "\<And>m. \<exists>m'. yield m = Some m' \<and> time m \<le> time m' \<and> time m' \<le> time m + 2 ^ 62"
    and "Duration 0 0 < d" "d < Duration 1 0"
    and "timer_duration_to_ticks ops t d < tm_max_ticks ops t" "unat (tm_max_ticks ops t) \<le> 2 ^ 32"
  shows "(\<exists>m'. busy_wait ops s d m = Some m' \<and> time m + unat (timer_duration_to_ticks ops t d) \<le> time m')
    \<and> (\<exists>m'. sleep ops s yield d m = Some m' \<and> time m + unat (timer_duration_to_ticks ops t d) \<le> time m')"
proof -
  have wait: "\<exists>m'. wait_for ops s idle d m = Some m' \<and> time m + unat (timer_duration_to_ticks ops t d) \<le> time m'"
    if idle: "\<And>m. \<exists>m'. idle m = Some m' \<and> time m \<le> time m' \<and> time m' \<le> time m + 2 ^ 62" for idle
  proof -
    obtain m1 where m1: "tm_counter ops t m = (of_nat (time m1), m1)" "time m < time m1" using assms(2) by blast
    have "unat (timer_duration_to_ticks ops t d) \<le> 2 ^ 32" using assms(6,7) by (simp add: word_less_nat_alt)
    then obtain m' where "wait_loop (tm_counter ops t) idle (of_nat (time m1)) (timer_duration_to_ticks ops t d) m1 = Some m'"
      "time m1 + unat (timer_duration_to_ticks ops t d) \<le> time m'"
      using wait_loop_returns [where counter = "tm_counter ops t" and time = time and idle = idle, OF assms(2) idle, of "time m1" m1]
      by auto
    then show ?thesis using m1 assms(1,6) by (simp add: wait_for_def)
  qed
  show ?thesis using wait [of Some] wait [OF assms(3)] assms(4,5) by (simp add: busy_wait_def sleep_def)
qed


text \<open>A clock of 1 MHz that runs on by one tick at every reading.\<close>

definition example_timer :: "(unit, nat) timer_ops" where
  "example_timer = \<lparr>tm_counter = (\<lambda>t m. (of_nat (m + 1), m + 1)), tm_frequency_hz = (\<lambda>t. 1000000), tm_max_ticks = (\<lambda>t. 0xffffffff)\<rparr>"

definition example_time :: "(unit, unit) time_state" where
  "example_time = time_state_new\<lparr>global_system_timer := Some ()\<rparr>"

theorem waiting_lasts_witness:
  "\<exists>m'. busy_wait example_timer example_time (Duration 0 5000) 7 = Some m' \<and> 12 \<le> m'"
proof -
  have ticks: "timer_duration_to_ticks example_timer () (Duration 0 5000) = 5"
    by (simp add: timer_duration_to_ticks_def example_timer_def convert_duration_to_ticks_def NANOS_PER_SEC_def)
  have clock: "\<exists>m'. tm_counter example_timer () m = (of_nat m', m') \<and> m < m' \<and> m' \<le> m + 2 ^ 62" for m
    by (simp add: example_timer_def)
  have "timer_duration_to_ticks example_timer () (Duration 0 5000) < tm_max_ticks example_timer ()"
    "unat (tm_max_ticks example_timer ()) \<le> 2 ^ 32"
    unfolding ticks by (simp_all add: example_timer_def)
  from waiting_lasts [where time = "\<lambda>n. n" and ops = example_timer and t = "()" and yield = Some and m = 7
      and s = "example_time", OF _ clock _ _ _ this]
  show ?thesis by (simp add: ticks less_duration_def example_time_def)
qed

end
