(* ===== verification/Timers.thy ===== *)
theory Timers
  imports Time Intc
begin

text \<open>The timers of the board: \<open>bcm2835_system_timer.rs\<close>, a 32-bit counter with compare registers, and
  \<open>arm_generic_timer.rs\<close>, the virtual timer of each core. Both are timers and alarms in the sense of
  \<open>Time\<close>. The system registers are reached through a bus of their own; what they do is a parameter.\<close>

datatype sysreg = CNTFRQ_EL0 | CNTV_CTL_EL0 | CNTV_TVAL_EL0 | CNTV_CVAL_EL0 | CNTVCT_EL0

record 's sysreg_bus =
  sr_read :: "sysreg \<Rightarrow> 's \<Rightarrow> u64 \<times> 's"
  sr_write :: "sysreg \<Rightarrow> u64 \<Rightarrow> 's \<Rightarrow> 's"

text \<open>A device: register base, frequency and interrupt of the system timer; frequency and interrupt of the
  generic timer. Its frequency is stored once, before the device is registered.\<close>

datatype timer_device = System_Timer usize u64 u32 | Generic_Timer u64 u32

record ('d, 'h, 's) timer_board =
  tb_board :: "('d, 'h) board"
  tb_sysregs :: 's
  tb_time :: "(timer_device, timer_device) time_state"
  tb_local :: "timer_device local_data"
  tb_system_devices :: "timer_device registry"
  tb_generic_devices :: "timer_device registry"

definition tb_read_reg :: "'d bus \<Rightarrow> usize \<Rightarrow> ('d, 'h, 's) timer_board \<Rightarrow> u32 \<times> ('d, 'h, 's) timer_board" where
  "tb_read_reg bus reg m = (let (v, b) = read_reg bus reg (tb_board m) in (v, m\<lparr>tb_board := b\<rparr>))"

definition tb_write_reg :: "'d bus \<Rightarrow> usize \<Rightarrow> u32 \<Rightarrow> ('d, 'h, 's) timer_board \<Rightarrow> ('d, 'h, 's) timer_board" where
  "tb_write_reg bus reg v m = m\<lparr>tb_board := write_reg bus reg v (tb_board m)\<rparr>"

definition mrs :: "'s sysreg_bus \<Rightarrow> sysreg \<Rightarrow> ('d, 'h, 's) timer_board \<Rightarrow> u64 \<times> ('d, 'h, 's) timer_board" where
  "mrs sr r m = (let (v, s) = sr_read sr r (tb_sysregs m) in (v, m\<lparr>tb_sysregs := s\<rparr>))"

definition msr :: "'s sysreg_bus \<Rightarrow> sysreg \<Rightarrow> u64 \<Rightarrow> ('d, 'h, 's) timer_board \<Rightarrow> ('d, 'h, 's) timer_board" where
  "msr sr r v m = m\<lparr>tb_sysregs := sr_write sr r v (tb_sysregs m)\<rparr>"


section \<open>The system timer\<close>

definition CS_REG_OFFSET :: u32 where "CS_REG_OFFSET = 0x00"
definition CLO_REG_OFFSET :: u32 where "CLO_REG_OFFSET = 0x04"
definition C3_REG_OFFSET :: u32 where "C3_REG_OFFSET = 0x18"
definition CS_REG_M3_BIT :: u32 where "CS_REG_M3_BIT = push_bit 3 1"

definition get_lower_counter :: "'d bus \<Rightarrow> usize \<Rightarrow> ('d, 'h, 's) timer_board \<Rightarrow> u32 \<times> ('d, 'h, 's) timer_board" where
  "get_lower_counter bus base = tb_read_reg bus (base + ucast CLO_REG_OFFSET)"

definition set_compare :: "'d bus \<Rightarrow> usize \<Rightarrow> u32 \<Rightarrow> ('d, 'h, 's) timer_board \<Rightarrow> ('d, 'h, 's) timer_board" where
  "set_compare bus base v = tb_write_reg bus (base + ucast C3_REG_OFFSET) v"

definition clear_irq :: "'d bus \<Rightarrow> usize \<Rightarrow> ('d, 'h, 's) timer_board \<Rightarrow> ('d, 'h, 's) timer_board" where
  "clear_irq bus base = tb_write_reg bus (base + ucast CS_REG_OFFSET) CS_REG_M3_BIT"

definition system_counter :: "'d bus \<Rightarrow> usize \<Rightarrow> ('d, 'h, 's) timer_board \<Rightarrow> u64 \<times> ('d, 'h, 's) timer_board" where
  "system_counter bus base m = (let (v, m') = get_lower_counter bus base m in (ucast v, m'))"

text \<open>\<open>u32::MAX as u64\<close>, for both devices.\<close>

definition timer_max_ticks :: u64 where "timer_max_ticks = 0xffffffff"

definition system_schedule_at :: "'d bus \<Rightarrow> usize \<Rightarrow> u64 \<Rightarrow> ('d, 'h, 's) timer_board \<Rightarrow> ('d, 'h, 's) timer_board option" where
  "system_schedule_at bus base ticks m = do {
     assert_that (ticks < timer_max_ticks);
     Some (set_compare bus base (ucast ticks) m)
   }"

definition system_schedule_after :: "'d bus \<Rightarrow> usize \<Rightarrow> u64 \<Rightarrow> ('d, 'h, 's) timer_board \<Rightarrow> ('d, 'h, 's) timer_board option" where
  "system_schedule_after bus base ticks m =
     (let (now, m') = system_counter bus base m in system_schedule_at bus base (now + ticks) m')"


section \<open>The generic timer\<close>

definition generic_counter :: "'s sysreg_bus \<Rightarrow> ('d, 'h, 's) timer_board \<Rightarrow> u64 \<times> ('d, 'h, 's) timer_board" where
  "generic_counter sr = mrs sr CNTVCT_EL0"

definition generic_schedule_at :: "'s sysreg_bus \<Rightarrow> u64 \<Rightarrow> ('d, 'h, 's) timer_board \<Rightarrow> ('d, 'h, 's) timer_board" where
  "generic_schedule_at sr ticks m = msr sr CNTV_CTL_EL0 1 (msr sr CNTV_CVAL_EL0 ticks m)"

definition generic_schedule_after :: "'s sysreg_bus \<Rightarrow> u64 \<Rightarrow> ('d, 'h, 's) timer_board \<Rightarrow> ('d, 'h, 's) timer_board" where
  "generic_schedule_after sr ticks m = msr sr CNTV_CTL_EL0 1 (msr sr CNTV_TVAL_EL0 ticks m)"

definition generic_cancel :: "'s sysreg_bus \<Rightarrow> ('d, 'h, 's) timer_board \<Rightarrow> ('d, 'h, 's) timer_board" where
  "generic_cancel sr = msr sr CNTV_CTL_EL0 2"


section \<open>The devices as timers and alarms\<close>

definition device_frequency :: "timer_device \<Rightarrow> u64" where
  "device_frequency t = (case t of System_Timer _ f _ \<Rightarrow> f | Generic_Timer f _ \<Rightarrow> f)"

definition device_virq :: "timer_device \<Rightarrow> u32" where
  "device_virq t = (case t of System_Timer _ _ v \<Rightarrow> v | Generic_Timer _ v \<Rightarrow> v)"

definition device_timer_ops :: "'d bus \<Rightarrow> 's sysreg_bus \<Rightarrow> (timer_device, ('d, 'h, 's) timer_board) timer_ops" where
  "device_timer_ops bus sr = \<lparr>
     tm_counter = (\<lambda>t. case t of System_Timer b _ _ \<Rightarrow> system_counter bus b | Generic_Timer _ _ \<Rightarrow> generic_counter sr),
     tm_frequency_hz = device_frequency, tm_max_ticks = (\<lambda>t. timer_max_ticks)\<rparr>"

definition device_alarm_ops :: "'d bus \<Rightarrow> 's sysreg_bus \<Rightarrow> (timer_device, ('d, 'h, 's) timer_board) alarm_ops" where
  "device_alarm_ops bus sr = \<lparr>
     al_schedule_at = (\<lambda>t ticks m. case t of System_Timer b _ _ \<Rightarrow> system_schedule_at bus b ticks m
                                   | Generic_Timer _ _ \<Rightarrow> Some (generic_schedule_at sr ticks m)),
     al_schedule_after = (\<lambda>t ticks m. case t of System_Timer b _ _ \<Rightarrow> system_schedule_after bus b ticks m
                                   | Generic_Timer _ _ \<Rightarrow> Some (generic_schedule_after sr ticks m)),
     al_virq = device_virq,
     al_cancel = (\<lambda>t. case t of System_Timer b _ _ \<Rightarrow> clear_irq bus b | Generic_Timer _ _ \<Rightarrow> generic_cancel sr),
     al_frequency_hz = device_frequency, al_max_ticks = (\<lambda>t. timer_max_ticks)\<rparr>"


section \<open>Setting the timers up\<close>

definition tb_register_timer :: "'d bus \<Rightarrow> 's sysreg_bus \<Rightarrow> timer_device \<Rightarrow> ('d, 'h, 's) timer_board \<Rightarrow> ('d, 'h, 's) timer_board option" where
  "tb_register_timer bus sr t m = do {
     s \<leftarrow> register_global_timer (device_timer_ops bus sr :: (timer_device, ('d, 'h, 's) timer_board) timer_ops) t (tb_time m);
     Some (m\<lparr>tb_time := s\<rparr>)
   }"

definition system_timer_global_setup :: "'d bus \<Rightarrow> 's sysreg_bus \<Rightarrow> usize \<Rightarrow> u64 \<Rightarrow> u32 \<Rightarrow> ('d, 'h, 's) timer_board
    \<Rightarrow> ('d, 'h, 's) timer_board option" where
  "system_timer_global_setup bus sr base rate virq m = do {
     let m1 = tb_write_reg bus (base + ucast CS_REG_OFFSET) CS_REG_M3_BIT m;
     let m2 = tb_write_reg bus (base + ucast C3_REG_OFFSET) 0 m1;
     m3 \<leftarrow> tb_register_timer bus sr (System_Timer base rate virq) m2;
     s \<leftarrow> register_global_alarm (device_alarm_ops bus sr :: (timer_device, ('d, 'h, 's) timer_board) alarm_ops)
            (System_Timer base rate virq) (tb_time m3);
     Some (m3\<lparr>tb_time := s\<rparr>)
   }"

text \<open>The driver of the system timer; it never adds the device to its registry.\<close>

definition system_timer_try_init :: "'d bus \<Rightarrow> 's sysreg_bus \<Rightarrow> device_tree \<Rightarrow> nat \<Rightarrow> ('d, 'h, 's) timer_board
    \<Rightarrow> ((driver_init_error + unit) \<times> ('d, 'h, 's) timer_board) option" where
  "system_timer_try_init bus sr dt node m = do {
     reg \<leftarrow> node_reg (dt_node_at dt node);
     (case reg of
        None \<Rightarrow> Some (Inl DeviceTreeError, m)
      | Some rs \<Rightarrow>
          if length rs \<noteq> 1 then Some (Inl DeviceTreeError, m)
          else do {
            clock_frequency \<leftarrow> node_clock_frequency (dt_node_at dt node);
            let rate = (case clock_frequency of None \<Rightarrow> 1000000 | Some cf \<Rightarrow> clock_frequency_as_u64 cf);
            resolved \<leftarrow> resolve_phys_address_and_length dt node 0;
            (case resolved of
               None \<Rightarrow> Some (Inl DeviceTreeError, m)
             | Some (phys_addr, len) \<Rightarrow> do {
                 v \<leftarrow> resolve_virq (intc_ops bus :: (intc, ('d, 'h) board) interrupt_controller) dt node 3 (bd_irqs (tb_board m));
                 (case v of
                    Inl _ \<Rightarrow> Some (Inl Retry, m)
                  | Inr virq \<Rightarrow> do {
                      (addr, mmu) \<leftarrow> map_io_region phys_addr len (bd_mmu (tb_board m));
                      path \<leftarrow> node_path dt node;
                      m' \<leftarrow> system_timer_global_setup bus sr addr rate virq (m\<lparr>tb_board := (tb_board m)\<lparr>bd_mmu := mmu\<rparr>\<rparr>);
                      Some (Inr (), m')
                    })
               })
          })
   }"

text \<open>\<open>global_setup\<close> of the generic timer: the frequency register wins unless it is zero. The result is the
  device as it is registered.\<close>

definition generic_global_setup :: "'d bus \<Rightarrow> 's sysreg_bus \<Rightarrow> u64 \<Rightarrow> u32 \<Rightarrow> ('d, 'h, 's) timer_board
    \<Rightarrow> (timer_device \<times> ('d, 'h, 's) timer_board) option" where
  "generic_global_setup bus sr clock_frequency virq m = do {
     let (frequency, m1) = mrs sr CNTFRQ_EL0 m;
     let dev = Generic_Timer (if frequency > 0 then frequency else clock_frequency) virq;
     m2 \<leftarrow> tb_register_timer bus sr dev m1;
     Some (dev, m2)
   }"

definition generic_local_setup :: "'d bus \<Rightarrow> 's sysreg_bus \<Rightarrow> timer_device \<Rightarrow> ('d, 'h, 's) timer_board
    \<Rightarrow> ((driver_init_error + unit) \<times> ('d, 'h, 's) timer_board) option" where
  "generic_local_setup bus sr dev m = do {
     let m1 = msr sr CNTV_TVAL_EL0 0xffffffff (msr sr CNTV_CTL_EL0 2 m);
     (r, b) \<leftarrow> enable_irq (intc_ops bus) (device_virq dev) (bd_irqs (tb_board m1)) (tb_board m1);
     let m2 = m1\<lparr>tb_board := b\<rparr>;
     (case r of
        Inl _ \<Rightarrow> Some (Inl ToDo, m2)
      | Inr _ \<Rightarrow> do {
          l \<leftarrow> register_local_alarm dev (tb_local m2);
          Some (Inr (), m2\<lparr>tb_local := l\<rparr>)
        })
   }"

definition generic_timer_try_init :: "'d bus \<Rightarrow> 's sysreg_bus \<Rightarrow> device_tree \<Rightarrow> nat \<Rightarrow> ('d, 'h, 's) timer_board
    \<Rightarrow> ((driver_init_error + unit) \<times> ('d, 'h, 's) timer_board) option" where
  "generic_timer_try_init bus sr dt node m = do {
     frequency \<leftarrow> node_clock_frequency (dt_node_at dt node);
     v \<leftarrow> resolve_virq (intc_ops bus :: (intc, ('d, 'h) board) interrupt_controller) dt node 2 (bd_irqs (tb_board m));
     (case v of
        Inl _ \<Rightarrow> Some (Inl Retry, m)
      | Inr virq \<Rightarrow> do {
          path \<leftarrow> node_path dt node;
          let cf = (case frequency of None \<Rightarrow> Freq_U32 0 | Some cf \<Rightarrow> cf);
          (dev, m1) \<leftarrow> generic_global_setup bus sr (clock_frequency_as_u64 cf) virq m;
          (r, m2) \<leftarrow> generic_local_setup bus sr dev m1;
          (case r of
             Inl e \<Rightarrow> Some (Inl e, m2)
           | Inr _ \<Rightarrow> Some (Inr (), m2\<lparr>tb_generic_devices := add_device path dev (tb_generic_devices m2)\<rparr>))
        })
   }"

section \<open>The 32-bit counter\<close>

lemma ucast_u32_u64 [simp]: "unat (ucast (x :: u32) :: u64) = unat x"
  by (simp add: unsigned_ucast_eq take_bit_nat_eq_self_iff less_le_trans [OF unsigned_less])

text \<open>Once the counter has rolled over, the 64-bit difference to the start is huge.\<close>

lemma rollover_difference:
  assumes "now < (start :: u32)" and "unat (wait :: u64) \<le> 2 ^ 32"
  shows "\<not> (ucast now - ucast start :: u64) < wait"
proof -
  have "unat (ucast now - ucast start :: u64) = 18446744073709551616 + unat now - unat start"
    using assms(1) u32_less [of start] by (simp add: unat_sub_if' word_less_nat_alt)
  moreover have "unat wait \<le> 4294967296" using assms(2) by simp
  ultimately show ?thesis using assms(1) u32_less [of start] unfolding word_less_nat_alt not_less by linarith
qed

text \<open>With the system timer as the timer of the kernel, \<open>busy_wait\<close> ends at the first reading of a
  counter that has rolled over since the start, however little of the duration has passed.\<close>

theorem system_timer_wait_cut_short:
  assumes "global_system_timer s = Some (System_Timer base f virq)"
    and "Duration 0 0 < d" "d < Duration 1 0" and "convert_duration_to_ticks (ucast f) d < timer_max_ticks"
    and "get_lower_counter bus base m = (start, m1)" "get_lower_counter bus base m1 = (now, m2)" and "now < start"
  shows "busy_wait (device_timer_ops bus sr) s d m = Some m2"
proof -
  let ?ops = "device_timer_ops bus sr" and ?t = "System_Timer base f virq"
  have ticks: "timer_duration_to_ticks ?ops ?t d = convert_duration_to_ticks (ucast f) d"
    "tm_max_ticks ?ops ?t = timer_max_ticks"
    by (simp_all add: timer_duration_to_ticks_def device_timer_ops_def device_frequency_def)
  have "unat (convert_duration_to_ticks (ucast f) d) \<le> 2 ^ 32"
    using assms(4) by (simp add: word_less_nat_alt timer_max_ticks_def)
  note over = rollover_difference [OF assms(7) this]
  have "tm_counter ?ops ?t m = (ucast start, m1)" "tm_counter ?ops ?t m1 = (ucast now, m2)"
    using assms(5,6) by (simp_all add: device_timer_ops_def system_counter_def)
  then show ?thesis
    using assms(1-4) over by (simp add: busy_wait_def wait_for_def ticks wait_loop.simps)
qed

text \<open>An alarm after \<open>ticks\<close> sets the compare register, and panics when it lies past the last value.\<close>

lemma system_schedule_after_spec:
  assumes "get_lower_counter bus base m = (now, m')" "unat now + unat ticks < 2 ^ 64"
  shows "system_schedule_after bus base ticks m
    = (if unat now + unat ticks < 2 ^ 32 - 1 then Some (set_compare bus base (now + ucast ticks) m') else None)"
proof -
  have "unat (ucast now + ticks :: u64) = unat now + unat ticks" using assms(2) by (simp add: unat_word_ariths)
  moreover have "ucast (ucast now + ticks :: u64) = (now + ucast ticks :: u32)"
    by (simp add: unsigned_ucast_eq word_unat_eq_iff unat_word_ariths take_bit_eq_mod mod_mod_cancel mod_simps)
  ultimately show ?thesis
    using assms(1) by (simp add: system_schedule_after_def system_counter_def system_schedule_at_def
        word_less_nat_alt timer_max_ticks_def)
qed


text \<open>A counter that is read at its last value and then at zero; the wait asks for half a second.\<close>

definition example_counter_bus :: "nat bus" where
  "example_counter_bus = \<lparr>bus_read = (\<lambda>a d. (of_nat d, d + 1)), bus_write = (\<lambda>a v d. d)\<rparr>"

definition example_sysregs :: "unit sysreg_bus" where
  "example_sysregs = \<lparr>sr_read = (\<lambda>r s. (0, s)), sr_write = (\<lambda>r v s. s)\<rparr>"

definition example_timer_board :: "nat \<Rightarrow> (nat, unit, unit) timer_board" where
  "example_timer_board d = \<lparr>tb_board = \<lparr>bd_regs = d, bd_irqs = irq_tables_new, bd_virq_bases = Map.empty,
       bd_mmu = example_mmu, bd_core = 0, bd_l1_devices = registry_new, bd_armctrl_devices = registry_new\<rparr>,
     tb_sysregs = (), tb_time = time_state_new\<lparr>global_system_timer := Some (System_Timer 0x3000 1000000 29)\<rparr>,
     tb_local = local_data_new 0, tb_system_devices = registry_new, tb_generic_devices = registry_new\<rparr>"

theorem system_timer_wait_cut_short_witness:
  "busy_wait (device_timer_ops example_counter_bus example_sysregs) (tb_time (example_timer_board (2 ^ 32 - 1))) (Duration 0 500000000)
     (example_timer_board (2 ^ 32 - 1)) = Some (example_timer_board (2 ^ 32 + 1))"
  by (rule system_timer_wait_cut_short [where base = "0x3000" and f = 1000000 and virq = 29 and start = "0xffffffff" and now = 0
        and ?m1.0 = "example_timer_board (2 ^ 32)"])
    (simp_all add: example_timer_board_def example_counter_bus_def get_lower_counter_def tb_read_reg_def read_reg_def
      less_duration_def convert_duration_to_ticks_def NANOS_PER_SEC_def timer_max_ticks_def)

end
