(* ===== verification/Heap_Allocator.thy ===== *)
theory Heap_Allocator
  imports Mmu "HOL-Library.Multiset"
begin

text \<open>The kernel heap (\<open>mm/heap_allocator.rs\<close>, \<open>mm/allocator.rs\<close>): nine free lists of blocks of 16 bytes to a
  page, which run through the free blocks themselves, and runs of pages for larger requests. The memory
  is physical and is reached through the page tables; a word is at its address, and an access where
  nothing is mapped is a fault, the result \<open>None\<close>. The lock of the heap is elided.\<close>

section \<open>Layouts\<close>

text \<open>\<open>core::alloc::Layout\<close>: its alignment is a power of two, and the size rounded up to it fits an
  \<open>isize\<close>.\<close>

record layout =
  ly_size :: nat
  ly_align :: nat

definition layout_ok :: "layout \<Rightarrow> bool" where
  "layout_ok l \<longleftrightarrow> (\<exists>k < 63. ly_align l = 2 ^ k) \<and> ly_size l + ly_align l \<le> 2 ^ 63"

text \<open>\<open>next_power_of_two\<close> and \<open>trailing_zeros\<close> of its result.\<close>

fun log2_up :: "nat \<Rightarrow> nat" where
  "log2_up n = (if n \<le> 1 then 0 else Suc (log2_up ((n + 1) div 2)))"

declare log2_up.simps [simp del]

definition next_power_of_two :: "nat \<Rightarrow> nat" where
  "next_power_of_two n = 2 ^ log2_up n"


section \<open>The allocator\<close>

definition MIN_BLOCK_SIZE :: nat where "MIN_BLOCK_SIZE = 16"

definition HEAD_COUNT :: nat where "HEAD_COUNT = log2_up PAGE_SIZE - log2_up MIN_BLOCK_SIZE + 1"

text \<open>\<open>HEAP_MANAGER\<close> and \<open>HEAP_SIZE\<close> with the memory and the page tables; the null pointer is zero.\<close>

record heap =
  hp_heads :: "usize list"
  hp_multi_page_list :: usize
  hp_size :: usize
  hp_mem :: "usize \<Rightarrow> u64"
  hp_mmu :: mmu

definition heap_new :: "(usize \<Rightarrow> u64) \<Rightarrow> mmu \<Rightarrow> heap" where
  "heap_new mem m = \<lparr>hp_heads = replicate HEAD_COUNT 0, hp_multi_page_list = 0, hp_size = 0, hp_mem = mem, hp_mmu = m\<rparr>"

definition load_word :: "usize \<Rightarrow> heap \<Rightarrow> u64 option" where
  "load_word va h = do {
     (pa, attributes) \<leftarrow> translate (hp_mmu h) va;
     Some (hp_mem h pa)
   }"

definition store_word :: "usize \<Rightarrow> u64 \<Rightarrow> heap \<Rightarrow> heap option" where
  "store_word va v h = do {
     (pa, attributes) \<leftarrow> translate (hp_mmu h) va;
     Some (h\<lparr>hp_mem := (hp_mem h)(pa := v)\<rparr>)
   }"

text \<open>The null pointer of a failed \<open>alloc_frame\<close> is not looked at: frame zero is mapped then.\<close>

definition alloc_heap_page :: "heap \<Rightarrow> (usize \<times> heap) option" where
  "alloc_heap_page h = do {
     let va = HEAP_MAP_OFFSET + hp_size h;
     (frame, mgr) \<leftarrow> alloc_frame (mmu_frames (hp_mmu h));
     let pa = (case frame of None \<Rightarrow> 0 | Some p \<Rightarrow> of_nat p);
     m \<leftarrow> map_page va pa ((hp_mmu h)\<lparr>mmu_frames := mgr\<rparr>);
     Some (va, h\<lparr>hp_mmu := m, hp_size := hp_size h + of_nat PAGE_SIZE\<rparr>)
   }"

text \<open>\<open>push_node\<close>: a block goes to the front of list \<open>k\<close>; its first word becomes the old head.\<close>

definition push_node :: "nat \<Rightarrow> usize \<Rightarrow> heap \<Rightarrow> heap option" where
  "push_node k node h = do {
     h1 \<leftarrow> store_word node (hp_heads h ! k) h;
     Some (h1\<lparr>hp_heads := (hp_heads h1)[k := node]\<rparr>)
   }"

fun push_blocks :: "nat \<Rightarrow> usize \<Rightarrow> nat list \<Rightarrow> heap \<Rightarrow> heap option" where
  "push_blocks k page [] h = Some h"
| "push_blocks k page (offset # offsets) h = do {
     h' \<leftarrow> push_node k (page + of_nat offset) h;
     push_blocks k page offsets h'
   }"

text \<open>\<open>(0..PAGE_SIZE).step_by(block_size)\<close>.\<close>

definition block_offsets :: "nat \<Rightarrow> nat list" where
  "block_offsets block_size = map (\<lambda>i. i * block_size) [0..<(PAGE_SIZE + block_size - 1) div block_size]"

definition refill_head :: "nat \<Rightarrow> nat \<Rightarrow> heap \<Rightarrow> heap option" where
  "refill_head k block_size h = do {
     (page, h') \<leftarrow> alloc_heap_page h;
     push_blocks k page (block_offsets block_size) h'
   }"

fun refill_all :: "nat list \<Rightarrow> heap \<Rightarrow> heap option" where
  "refill_all [] h = Some h"
| "refill_all (k # ks) h = do {
     h' \<leftarrow> refill_head k (MIN_BLOCK_SIZE * 2 ^ k) h;
     refill_all ks h'
   }"

definition init_heap :: "heap \<Rightarrow> heap option" where
  "init_heap h = refill_all [0..<HEAD_COUNT] h"

definition head_index :: "layout \<Rightarrow> nat" where
  "head_index l = log2_up (max (max (ly_size l) (ly_align l)) MIN_BLOCK_SIZE) - log2_up MIN_BLOCK_SIZE"

definition layout_pages :: "layout \<Rightarrow> nat" where
  "layout_pages l = (ly_size l + PAGE_SIZE - 1) div PAGE_SIZE"

fun alloc_more_pages :: "nat \<Rightarrow> heap \<Rightarrow> heap option" where
  "alloc_more_pages 0 h = Some h"
| "alloc_more_pages (Suc n) h = do {
     (va, h') \<leftarrow> alloc_heap_page h;
     alloc_more_pages n h'
   }"

text \<open>\<open>alloc\<close>: the pointer, null when the list stays empty.\<close>

definition heap_alloc :: "layout \<Rightarrow> heap \<Rightarrow> (usize \<times> heap) option" where
  "heap_alloc l h = do {
     assert_that (\<not> ly_align l > PAGE_SIZE);
     let block_size = next_power_of_two (max (max (ly_size l) (ly_align l)) MIN_BLOCK_SIZE);
     let k = head_index l;
     (if k \<ge> HEAD_COUNT then do {
        (va, h1) \<leftarrow> alloc_heap_page h;
        h2 \<leftarrow> alloc_more_pages (layout_pages l - 1) h1;
        Some (va, h2)
      }
      else do {
        h1 \<leftarrow> (if hp_heads h ! k = 0 then refill_head k block_size h else Some h);
        let ptr = hp_heads h1 ! k;
        (if ptr = 0 then Some (0, h1)
         else do {
           next_node \<leftarrow> load_word ptr h1;
           Some (ptr, h1\<lparr>hp_heads := (hp_heads h1)[k := next_node]\<rparr>)
         })
      })
   }"

text \<open>\<open>dealloc\<close>: a run of pages goes to a list of its own, which no allocation looks at.\<close>

definition heap_dealloc :: "usize \<Rightarrow> layout \<Rightarrow> heap \<Rightarrow> heap option" where
  "heap_dealloc ptr l h = do {
     assert_that (\<not> ly_align l > PAGE_SIZE);
     let k = head_index l;
     (if k \<ge> HEAD_COUNT then do {
        h1 \<leftarrow> store_word ptr (of_nat (layout_pages l)) h;
        h2 \<leftarrow> store_word (ptr + 8) (hp_multi_page_list h1) h1;
        Some (h2\<lparr>hp_multi_page_list := ptr\<rparr>)
      }
      else push_node k ptr h)
   }"

text \<open>\<open>GlobalAlloc\<close> before and after \<open>init_global_allocator\<close>.\<close>

definition kernel_alloc :: "bool \<Rightarrow> layout \<Rightarrow> heap \<Rightarrow> (usize \<times> heap) option" where
  "kernel_alloc initialised l h = (if initialised then heap_alloc l h else None)"

definition kernel_dealloc :: "bool \<Rightarrow> usize \<Rightarrow> layout \<Rightarrow> heap \<Rightarrow> heap option" where
  "kernel_dealloc initialised ptr l h = (if initialised then heap_dealloc ptr l h else None)"

section \<open>Frames in use\<close>

definition owned_frames :: "mmu \<Rightarrow> nat set" where
  "owned_frames m = (case mmu_frames m of None \<Rightarrow> {} | Some mgr \<Rightarrow> bitmap_owned (bm_allocator mgr))"

definition frames_wf :: "mmu \<Rightarrow> bool" where
  "frames_wf m \<longleftrightarrow> (\<exists>mgr. mmu_frames m = Some mgr \<and> bitmap_wf (bm_allocator mgr))"

lemma mmu_frames_wf: "mmu_wf m \<Longrightarrow> frames_wf m"
  by (auto simp: mmu_wf_def frames_wf_def allocator_ok_def)

text \<open>Mapping a page takes frames and gives none back.\<close>

lemma alloc_frame_keeps:
  assumes "alloc_frame (mmu_frames m) = Some (p, mgr)" "frames_wf m"
  shows "frames_wf (m\<lparr>mmu_frames := mgr\<rparr>)" "owned_frames m \<subseteq> owned_frames (m\<lparr>mmu_frames := mgr\<rparr>)"
proof -
  obtain g where g: "mmu_frames m = Some g" "bitmap_wf (bm_allocator g)" using assms(2) by (auto simp: frames_wf_def)
  obtain a where a: "bitmap_alloc_frame (bm_allocator g) = (p, a)" "mgr = Some (g\<lparr>bm_allocator := a\<rparr>)"
    using assms(1) g(1) by (auto simp: alloc_frame_def split: prod.splits)
  have "bitmap_wf a \<and> bitmap_owned (bm_allocator g) \<subseteq> bitmap_owned a"
  proof (cases p)
    case None
    with a(1) have "a = bm_allocator g"
      by (auto simp: bitmap_alloc_frame_def Let_def split: option.split_asm prod.split_asm if_split_asm)
    with g(2) show ?thesis by simp
  next
    case (Some q)
    with bitmap_alloc_frame_Some [OF g(2), of q a] a(1) show ?thesis by auto
  qed
  then show "frames_wf (m\<lparr>mmu_frames := mgr\<rparr>)" "owned_frames m \<subseteq> owned_frames (m\<lparr>mmu_frames := mgr\<rparr>)"
    using a(2) g(1) by (simp_all add: frames_wf_def owned_frames_def)
qed

lemma owned_frames_tables [simp]: "owned_frames (m\<lparr>mmu_tables := t\<rparr>) = owned_frames m"
  "frames_wf (m\<lparr>mmu_tables := t\<rparr>) = frames_wf m"
  by (simp_all add: owned_frames_def frames_wf_def)

lemma set_descriptor_frames: "set_descriptor t i d m = Some m' \<Longrightarrow> mmu_frames m' = mmu_frames m"
  by (auto simp: set_descriptor_def bind_eq_Some_conv split: if_split_asm option.split_asm)

lemma owned_frames_cong: "mmu_frames m' = mmu_frames m \<Longrightarrow> owned_frames m' = owned_frames m \<and> frames_wf m' = frames_wf m"
  by (simp add: owned_frames_def frames_wf_def)

lemma page_table_new_keeps:
  assumes "page_table_new m = Some (t, m')" "frames_wf m"
  shows "frames_wf m' \<and> owned_frames m \<subseteq> owned_frames m'"
proof -
  obtain p mgr where p: "alloc_frame (mmu_frames m) = Some (p, mgr)"
    and m': "mmu_frames m' = mgr"
    using assms(1) by (auto simp: page_table_new_def alloc_page_def bind_eq_Some_conv split: option.split_asm)
  have "mmu_frames m' = mmu_frames (m\<lparr>mmu_frames := mgr\<rparr>)" using m' by simp
  from owned_frames_cong [OF this] alloc_frame_keeps [OF p assms(2)] show ?thesis by blast
qed

lemma get_or_create_keeps:
  assumes "get_or_create_next_level_table t i level m = Some (t', m')" "frames_wf m"
  shows "frames_wf m' \<and> owned_frames m \<subseteq> owned_frames m'"
proof -
  obtain d kind where d: "get_descriptor m t i = Some d" "descriptor_from d level = Some kind"
    using assms(1) by (auto simp: get_or_create_next_level_table_def bind_eq_Some_conv)
  show ?thesis
  proof (cases "kind = Desc_Invalid")
    case True
    then obtain n m1 nd m2 where new: "page_table_new m = Some (n, m1)" "set_descriptor t i nd m1 = Some m2" "m' = m2"
      using assms(1) d by (auto simp: get_or_create_next_level_table_def bind_eq_Some_conv)
    from page_table_new_keeps [OF new(1) assms(2)] owned_frames_cong [OF set_descriptor_frames [OF new(2)]] new(3)
    show ?thesis by blast
  next
    case False
    with assms d show ?thesis by (auto simp: get_or_create_next_level_table_def split: if_split_asm)
  qed
qed

lemma map_page_keeps:
  assumes "map_page va pa m = Some m'" "frames_wf m"
  shows "frames_wf m' \<and> owned_frames m \<subseteq> owned_frames m'"
proof -
  obtain t1 m1 t2 m2 t3 m3 d where m:
    "get_or_create_next_level_table (mmu_kernel_table m) (level_0_index va) Level0 m = Some (t1, m1)"
    "get_or_create_next_level_table t1 (level_1_index va) Level1 m1 = Some (t2, m2)"
    "get_or_create_next_level_table t2 (level_2_index va) Level2 m2 = Some (t3, m3)"
    "set_descriptor t3 (level_3_index va) d m3 = Some m'"
    using assms(1) by (auto simp: map_page_def bind_eq_Some_conv)
  note 1 = get_or_create_keeps [OF m(1) assms(2)]
  note 2 = get_or_create_keeps [OF m(2) conjunct1 [OF 1]]
  note 3 = get_or_create_keeps [OF m(3) conjunct1 [OF 2]]
  from 1 2 3 owned_frames_cong [OF set_descriptor_frames [OF m(4)]] show ?thesis by blast
qed


section \<open>Heap pages\<close>

text \<open>The address of an offset into the heap.\<close>

definition hva :: "nat \<Rightarrow> usize" where
  "hva off = HEAP_MAP_OFFSET + of_nat off"

lemma unat_hva: "off < 2 ^ 44 \<Longrightarrow> unat (hva off) = 18446638520593285120 + off"
  by (simp add: hva_def unat_word_ariths unat_of_nat HEAP_MAP_OFFSET_def)

lemma page_of_base: "(18446638520593285120 + n) div 4096 = n div 4096 + 4503573857566720"
  "(18446638520593285120 + n) mod 4096 = n mod 4096" for n :: nat
  using div_mult_self1 [of 4096 n 4503573857566720] mod_mult_self1 [of n 4503573857566720 4096] by (simp_all add: add.commute)

lemma hva_inj: "off < 2 ^ 44 \<Longrightarrow> off' < 2 ^ 44 \<Longrightarrow> hva off = hva off' \<longleftrightarrow> off = off'"
  by (metis add_left_cancel unat_hva)

lemma hva_nonzero: "off < 2 ^ 44 \<Longrightarrow> hva off \<noteq> 0"
  using unat_hva [of off] by auto

lemma hva_plus: "hva a + of_nat b = hva (a + b)"
  by (simp add: hva_def)

lemma hva_index:
  assumes "off < 2 ^ 39"
  shows "level_0_index (hva off) = LEVEL_0_HEAP_INDEX" "\<not> is_user_address (hva off)"
proof -
  have u: "unat (hva off) = 18446638520593285120 + off" using assms by (simp add: unat_hva)
  have "(18446638520593285120 + off) div 2 ^ 39 = 33554240" using assms by (intro div_nat_eqI) simp_all
  then show "level_0_index (hva off) = LEVEL_0_HEAP_INDEX" by (simp add: level_index_div u)
  show "\<not> is_user_address (hva off)" using u by (simp add: is_user_address_def not_less word_le_nat_alt)
qed

text \<open>The physical address behind an offset, for the frames \<open>fs\<close> of the heap's pages.\<close>

definition heap_pa :: "nat list \<Rightarrow> nat \<Rightarrow> usize" where
  "heap_pa fs off = of_nat (fs ! (off div 4096) + off mod 4096)"

definition frames_ok :: "mmu \<Rightarrow> nat list \<Rightarrow> bool" where
  "frames_ok m fs \<longleftrightarrow> distinct fs \<and> set fs \<subseteq> owned_frames m \<and> (\<forall>f \<in> set fs. f mod 4096 = 0 \<and> f < 2 ^ 44)"

text \<open>The heap is its pages: each offset below its size is mapped, to its own frame.\<close>

definition heap_backed :: "nat list \<Rightarrow> heap \<Rightarrow> bool" where
  "heap_backed fs h \<longleftrightarrow> mmu_wf (hp_mmu h) \<and> hp_size h = of_nat (4096 * length fs) \<and> 4096 * length fs \<le> 2 ^ 39
     \<and> frames_ok (hp_mmu h) fs
     \<and> (\<forall>off < 4096 * length fs. \<exists>attr. translate (hp_mmu h) (hva off) = Some (heap_pa fs off, attr))"

lemma heap_pa_inj:
  assumes "frames_ok m fs" "a < 4096 * length fs" "b < 4096 * length fs" "heap_pa fs a = heap_pa fs b"
  shows "a = b"
proof -
  have idx: "a div 4096 < length fs" "b div 4096 < length fs" using assms(2,3) by (simp_all add: less_mult_imp_div_less mult.commute)
  have f: "fs ! (a div 4096) mod 4096 = 0" "fs ! (b div 4096) mod 4096 = 0"
    "fs ! (a div 4096) < 17592186044416" "fs ! (b div 4096) < 17592186044416"
    using assms(1) nth_mem [OF idx(1)] nth_mem [OF idx(2)] by (auto simp: frames_ok_def)
  have pa: "unat (heap_pa fs x) = fs ! (x div 4096) + x mod 4096" if "fs ! (x div 4096) < 17592186044416" for x
    using that mod_less_divisor [of 4096 x] unfolding heap_pa_def unat_of_nat by (intro mod_less) simp
  have eq: "fs ! (a div 4096) + a mod 4096 = fs ! (b div 4096) + b mod 4096"
    using assms(4) pa [OF f(3)] pa [OF f(4)] by simp
  have low: "a mod 4096 = b mod 4096"
    using arg_cong [OF eq, of "\<lambda>n. n mod 4096"] f(1,2) by (simp add: mod_add_eq [symmetric])
  then have "fs ! (a div 4096) = fs ! (b div 4096)" using eq by simp
  then have "a div 4096 = b div 4096" using assms(1) idx by (simp add: frames_ok_def nth_eq_iff_index_eq)
  with low show ?thesis by (metis div_mult_mod_eq)
qed

text \<open>The words of the heap by offset.\<close>

definition heap_word :: "nat list \<Rightarrow> heap \<Rightarrow> nat \<Rightarrow> u64" where
  "heap_word fs h off = hp_mem h (heap_pa fs off)"

lemma load_word_heap:
  "heap_backed fs h \<Longrightarrow> off < 4096 * length fs \<Longrightarrow> load_word (hva off) h = Some (heap_word fs h off)"
  by (fastforce simp: heap_backed_def load_word_def heap_word_def)

lemma store_word_heap:
  assumes "heap_backed fs h" "off < 4096 * length fs"
  shows "store_word (hva off) v h = Some (h\<lparr>hp_mem := (hp_mem h)(heap_pa fs off := v)\<rparr>)"
    "heap_backed fs (h\<lparr>hp_mem := (hp_mem h)(heap_pa fs off := v)\<rparr>)"
    "off' < 4096 * length fs \<Longrightarrow>
       heap_word fs (h\<lparr>hp_mem := (hp_mem h)(heap_pa fs off := v)\<rparr>) off' = (if off' = off then v else heap_word fs h off')"
proof -
  obtain attr where "translate (hp_mmu h) (hva off) = Some (heap_pa fs off, attr)"
    using assms by (auto simp: heap_backed_def)
  then show "store_word (hva off) v h = Some (h\<lparr>hp_mem := (hp_mem h)(heap_pa fs off := v)\<rparr>)"
    by (simp add: store_word_def)
  show "heap_backed fs (h\<lparr>hp_mem := (hp_mem h)(heap_pa fs off := v)\<rparr>)" using assms by (simp add: heap_backed_def)
  show "heap_word fs (h\<lparr>hp_mem := (hp_mem h)(heap_pa fs off := v)\<rparr>) off' = (if off' = off then v else heap_word fs h off')"
    if "off' < 4096 * length fs"
    using heap_pa_inj [of "hp_mmu h" fs off' off] assms that by (auto simp: heap_word_def heap_backed_def)
qed


text \<open>\<open>alloc_heap_page\<close> adds a page with a frame of its own, while frames are left.\<close>

lemma alloc_frame_ok:
  assumes "mmu_wf m" "0 < free_frames m"
  shows "\<exists>p mgr. alloc_frame (mmu_frames m) = Some (Some p, mgr) \<and> mmu_wf (m\<lparr>mmu_frames := mgr\<rparr>)
    \<and> p \<notin> owned_frames m \<and> owned_frames (m\<lparr>mmu_frames := mgr\<rparr>) = insert p (owned_frames m)
    \<and> p mod 4096 = 0 \<and> p < 2 ^ 44 \<and> free_frames (m\<lparr>mmu_frames := mgr\<rparr>) = free_frames m - 1"
proof -
  obtain g where g: "mmu_frames m = Some g" "allocator_ok (bm_allocator g)" "tree_ok (mmu_tables m) (mmu_kernel_table m)"
    and frames: "\<forall>p t. table_path p \<longrightarrow> follow (mmu_tables m) (mmu_kernel_table m) p = Some t
                \<longrightarrow> table_frame (bm_allocator g) t"
    using assms(1) unfolding mmu_wf_def by blast
  obtain p mgr' where p: "page_table_new m = Some (phys_to_virt (of_nat p),
        m\<lparr>mmu_tables := (mmu_tables m)(phys_to_virt (of_nat p) \<mapsto> replicate 512 0), mmu_frames := Some mgr'\<rparr>)"
    "p \<in> bitmap_frames_of (bm_allocator g)" "p \<notin> bitmap_owned (bm_allocator g)"
    "bitmap_owned (bm_allocator mgr') = insert p (bitmap_owned (bm_allocator g))" "allocator_ok (bm_allocator mgr')"
    "card (bitmap_frames_of (bm_allocator mgr') - bitmap_owned (bm_allocator mgr')) = free_frames m - 1"
    using page_table_new_ok [OF g(1,2) assms(2)] by blast
  note addr = frame_address [OF g(2) p(2)]
  obtain q mgr where q: "alloc_frame (mmu_frames m) = Some (Some q, mgr)" "phys_to_virt (of_nat q) = phys_to_virt (of_nat p)"
    "mgr = Some mgr'"
    using p(1)
    by (auto simp: page_table_new_def alloc_page_def bind_eq_Some_conv split: option.split_asm dest!: arg_cong [where f = mmu_frames])
  have "bitmap_wf (bm_allocator g)" using g(2) by (simp add: allocator_ok_def)
  from bitmap_alloc_frame_Some [OF this, of q "bm_allocator mgr'"] have "q \<in> bitmap_frames_of (bm_allocator g)"
    using q(1,3) g(1) by (auto simp: alloc_frame_def split: prod.split_asm)
  then have "unat (of_nat q :: usize) = q" by (rule frame_address(1) [OF g(2)])
  then have "q = p" using q(2) addr(1) by (metis add_right_cancel phys_to_virt_def)
  have "table_frame (bm_allocator mgr') t" if "table_frame (bm_allocator g) t" for t
    using that p(4) by (auto simp: table_frame_def)
  then have "mmu_wf (m\<lparr>mmu_frames := mgr\<rparr>)" using frames g(3) p(5) q(3) by (auto simp: mmu_wf_def)
  moreover have "p mod 4096 = 0" using addr(1,2) by (simp add: page_aligned_def)
  moreover have "p < 2 ^ 44" using addr(3) by (simp add: map_layout_defs)
  ultimately show ?thesis
    using q p(3,4,6) g(1) \<open>q = p\<close>
    by (intro exI [of _ p] exI [of _ mgr]) (simp add: owned_frames_def free_frames_def)
qed

lemma alloc_heap_page_ok:
  assumes "heap_backed fs h" "4 \<le> free_frames (hp_mmu h)" "4096 * length fs + 4096 \<le> 2 ^ 39"
  shows "\<exists>f h'. alloc_heap_page h = Some (hva (4096 * length fs), h') \<and> heap_backed (fs @ [f]) h'
    \<and> hp_heads h' = hp_heads h \<and> hp_multi_page_list h' = hp_multi_page_list h \<and> hp_mem h' = hp_mem h
    \<and> free_frames (hp_mmu h) \<le> free_frames (hp_mmu h') + 4"
proof -
  let ?m = "hp_mmu h" and ?n = "4096 * length fs"
  have wf: "mmu_wf ?m" and size: "hp_size h = of_nat ?n" and ok: "frames_ok ?m fs"
    and mapped: "\<And>off. off < ?n \<Longrightarrow> \<exists>attr. translate ?m (hva off) = Some (heap_pa fs off, attr)"
    using assms(1) by (simp_all add: heap_backed_def)
  have "0 < free_frames ?m" using assms(2) by simp
  from alloc_frame_ok [OF wf this] obtain p mgr where p: "alloc_frame (mmu_frames ?m) = Some (Some p, mgr)"
    "mmu_wf (?m\<lparr>mmu_frames := mgr\<rparr>)" "p \<notin> owned_frames ?m" "owned_frames (?m\<lparr>mmu_frames := mgr\<rparr>) = insert p (owned_frames ?m)"
    "p mod 4096 = 0" "p < 2 ^ 44" "free_frames (?m\<lparr>mmu_frames := mgr\<rparr>) = free_frames ?m - 1"
    by (elim exE conjE) (rule that; assumption)
  let ?m1 = "?m\<lparr>mmu_frames := mgr\<rparr>"
  have up: "unat (of_nat p :: usize) = p" using p(6) by (simp add: unat_of_nat)
  have al: "page_aligned (of_nat p)" "unat (of_nat p :: usize) < 2 ^ 48" using up p(5,6) by (simp_all add: page_aligned_def)
  have idx: "level_0_index (hva ?n) = LEVEL_0_HEAP_INDEX" "\<not> is_user_address (hva ?n)" using hva_index assms(3) by simp_all
  then have attr: "page_attributes (level_0_index (hva ?n)) = Some (with_attributes True NormalWriteBack)"
    by (simp add: page_attributes_def)
  have f3: "3 \<le> free_frames ?m1" using p(7) assms(2) by simp
  from map_page_ok [OF p(2) f3 idx(2) attr al] obtain m' where m': "map_page (hva ?n) (of_nat p) ?m1 = Some m'" "mmu_wf m'"
    "free_frames ?m1 - 3 \<le> free_frames m'"
    and tr: "\<And>x. \<not> is_user_address x \<Longrightarrow> translate m' x = (if unat x div 4096 = unat (hva ?n) div 4096
      then Some (of_nat p OR (x AND mask 12), with_attributes True NormalWriteBack (of_nat p OR 3)) else translate ?m1 x)"
    by blast
  have tr1: "translate ?m1 x = translate ?m x" for x by (simp add: translate_def)
  have page: "unat (hva off) div 4096 = unat (hva ?n) div 4096 \<longleftrightarrow> off div 4096 = length fs" if "off < ?n + 4096" for off
  proof -
    have "unat (hva off) div 4096 = off div 4096 + 4503573857566720" "unat (hva ?n) div 4096 = ?n div 4096 + 4503573857566720"
      using that assms(3) by (simp_all add: unat_hva page_of_base)
    then show ?thesis by simp
  qed
  have "frames_wf ?m1" using p(2) by (rule mmu_frames_wf)
  from map_page_keeps [OF m'(1) this] have owned: "insert p (owned_frames ?m) \<subseteq> owned_frames m'" using p(4) by simp
  have "p \<notin> set fs" using p(3) ok by (auto simp: frames_ok_def)
  then have ok': "frames_ok m' (fs @ [p])" using ok owned p(5,6) by (auto simp: frames_ok_def)
  let ?h' = "h\<lparr>hp_mmu := m', hp_size := hp_size h + 4096\<rparr>"
  have "\<exists>attr. translate m' (hva off) = Some (heap_pa (fs @ [p]) off, attr)" if off: "off < ?n + 4096" for off
  proof (cases "off < ?n")
    case True
    then have "off div 4096 < length fs" by (simp add: less_mult_imp_div_less mult.commute)
    moreover have "\<not> is_user_address (hva off)" using hva_index(2) True assms(3) by simp
    ultimately show ?thesis using tr [of "hva off"] tr1 page [OF off] mapped [OF True] by (simp add: heap_pa_def nth_append)
  next
    case False
    then have d: "off div 4096 = length fs" using off by (intro div_nat_eqI) simp_all
    have off39: "off < 2 ^ 39" using off assms(3) by simp
    have "unat (hva off) mod 4096 = off mod 4096"
      using off39 by (simp add: unat_hva page_of_base)
    then have "unat (of_nat p OR (hva off AND mask 12)) = p + off mod 4096" using unat_page_or [OF al(1), of "hva off"] up by simp
    moreover have "unat (heap_pa (fs @ [p]) off) = p + off mod 4096"
      using p(6) mod_less_divisor [of 4096 off] unfolding heap_pa_def d unat_of_nat nth_append_length by (intro mod_less) simp
    ultimately have "of_nat p OR (hva off AND mask 12) = heap_pa (fs @ [p]) off" by (simp only: word_unat_eq_iff)
    then show ?thesis using tr [of "hva off"] hva_index(2) [OF off39] page [OF off] d by simp
  qed
  then have "heap_backed (fs @ [p]) ?h'" using m'(2) size ok' assms(3) by (simp add: heap_backed_def add.commute)
  moreover have "alloc_heap_page h = Some (hva ?n, ?h')"
    using p(1) m'(1) size by (simp add: alloc_heap_page_def hva_def PAGE_SIZE_def Let_def)
  ultimately show ?thesis using m'(3) p(7) by (intro exI [of _ p] exI [of _ ?h']) simp
qed


section \<open>Blocks\<close>

text \<open>A block is an offset with a length; blocks in a multiset do not overlap.\<close>

definition apart :: "nat \<times> nat \<Rightarrow> nat \<times> nat \<Rightarrow> bool" where
  "apart b c \<longleftrightarrow> fst b + snd b \<le> fst c \<or> fst c + snd c \<le> fst b"

lemma apart_sym: "apart b c = apart c b"
  by (auto simp: apart_def)

definition blocks_apart :: "(nat \<times> nat) multiset \<Rightarrow> bool" where
  "blocks_apart B \<longleftrightarrow> (\<forall>b \<in># B. \<forall>c \<in># B - {#b#}. apart b c)"

lemma blocks_apart_empty [simp]: "blocks_apart {#}"
  by (simp add: blocks_apart_def)

lemma blocks_apart_add [simp]: "blocks_apart (add_mset b B) \<longleftrightarrow> blocks_apart B \<and> (\<forall>c \<in># B. apart b c)"
proof
  assume all: "blocks_apart (add_mset b B)"
  have "apart b c" if "c \<in># B" for c using all that by (auto simp: blocks_apart_def)
  moreover have "apart c d" if "c \<in># B" "d \<in># B - {#c#}" for c d
  proof -
    have "d \<in># add_mset b B - {#c#}" using that by (metis diff_union_swap2 insert_DiffM2 insert_noteq_member more_than_one_mset_mset_diff union_iff add_mset_add_single)
    then show ?thesis using all that(1) by (auto simp: blocks_apart_def)
  qed
  ultimately show "blocks_apart B \<and> (\<forall>c \<in># B. apart b c)" by (auto simp: blocks_apart_def)
next
  assume old: "blocks_apart B \<and> (\<forall>c \<in># B. apart b c)"
  have "apart c d" if "c \<in># add_mset b B" "d \<in># add_mset b B - {#c#}" for c d
  proof (cases "c = b")
    case True
    with that old show ?thesis by simp
  next
    case False
    with that have "c \<in># B" "d = b \<or> d \<in># B - {#c#}" by auto
    with old show ?thesis by (auto simp: blocks_apart_def apart_sym [of c b])
  qed
  then show "blocks_apart (add_mset b B)" by (simp add: blocks_apart_def)
qed

text \<open>The free list from \<open>p\<close> through the words \<open>w\<close> runs through the offsets \<open>xs\<close>.\<close>

fun chain :: "(nat \<Rightarrow> u64) \<Rightarrow> usize \<Rightarrow> nat list \<Rightarrow> bool" where
  "chain w p [] \<longleftrightarrow> p = 0"
| "chain w p (x # xs) \<longleftrightarrow> p = hva x \<and> chain w (w x) xs"

lemma chain_cong: "(\<And>x. x \<in> set xs \<Longrightarrow> w x = w' x) \<Longrightarrow> chain w p xs \<longleftrightarrow> chain w' p xs"
  by (induction xs arbitrary: p) auto

definition class_size :: "nat \<Rightarrow> nat" where
  "class_size k = 16 * 2 ^ k"

lemma class_size_bounds: "16 \<le> class_size k" "k < 9 \<Longrightarrow> class_size k dvd 4096" "0 < class_size k"
proof -
  show "16 \<le> class_size k" "0 < class_size k" by (simp_all add: class_size_def)
  show "class_size k dvd 4096" if "k < 9"
  proof -
    have "(2 :: nat) ^ (4 + k) dvd 2 ^ 12" using that by (intro le_imp_power_dvd) simp
    then show ?thesis by (simp add: class_size_def power_add)
  qed
qed

definition of_class :: "nat \<Rightarrow> (nat \<times> nat) list \<Rightarrow> nat list" where
  "of_class k free = map fst (filter (\<lambda>b. snd b = k) free)"

definition free_blocks :: "(nat \<times> nat) list \<Rightarrow> (nat \<times> nat) multiset" where
  "free_blocks free = image_mset (\<lambda>(x, k). (x, class_size k)) (mset free)"

lemma free_blocks_simps [simp]: "free_blocks [] = {#}" "free_blocks ((x, k) # free) = add_mset (x, class_size k) (free_blocks free)"
  by (simp_all add: free_blocks_def)

lemma of_class_simps [simp]: "of_class k ((x, c) # free) = (if c = k then x # of_class k free else of_class k free)"
  by (simp add: of_class_def)

lemma of_class_mem: "x \<in> set (of_class k free) \<longleftrightarrow> (x, k) \<in> set free"
  by (force simp: of_class_def)

text \<open>The invariant: \<open>free\<close> lists the free blocks with their class, \<open>B\<close> the blocks that are held.\<close>

definition heap_inv :: "nat list \<Rightarrow> (nat \<times> nat) list \<Rightarrow> (nat \<times> nat) multiset \<Rightarrow> heap \<Rightarrow> bool" where
  "heap_inv fs free B h \<longleftrightarrow> heap_backed fs h \<and> length (hp_heads h) = 9
     \<and> (\<forall>k < 9. chain (heap_word fs h) (hp_heads h ! k) (of_class k free))
     \<and> (\<forall>(x, k) \<in> set free. k < 9 \<and> class_size k dvd x)
     \<and> blocks_apart (free_blocks free + B)
     \<and> (\<forall>(x, n) \<in># free_blocks free + B. x + n \<le> 4096 * length fs \<and> 16 \<le> n)"

lemma heap_invD:
  assumes "heap_inv fs free B h"
  shows "heap_backed fs h" "length (hp_heads h) = 9" "k < 9 \<Longrightarrow> chain (heap_word fs h) (hp_heads h ! k) (of_class k free)"
    "(x, k) \<in> set free \<Longrightarrow> k < 9 \<and> class_size k dvd x" "blocks_apart (free_blocks free + B)"
    "(x, n) \<in># B \<Longrightarrow> x + n \<le> 4096 * length fs \<and> 16 \<le> n"
    "(x, k) \<in> set free \<Longrightarrow> x + class_size k \<le> 4096 * length fs"
    "(x, n) \<in># free_blocks free + B \<Longrightarrow> x + n \<le> 4096 * length fs \<and> 16 \<le> n"
  using assms by (auto simp: heap_inv_def free_blocks_def)

lemma heap_invI:
  assumes "heap_backed fs h" "length (hp_heads h) = 9" "\<And>k. k < 9 \<Longrightarrow> chain (heap_word fs h) (hp_heads h ! k) (of_class k free)"
    and "\<And>x k. (x, k) \<in> set free \<Longrightarrow> k < 9 \<and> class_size k dvd x" "blocks_apart (free_blocks free + B)"
    and "\<And>x n. (x, n) \<in># free_blocks free + B \<Longrightarrow> x + n \<le> 4096 * length fs \<and> 16 \<le> n"
  shows "heap_inv fs free B h"
  unfolding heap_inv_def using assms by blast

text \<open>What the holders of \<open>B\<close> see in their blocks stays the same.\<close>

definition same_words :: "(nat \<times> nat) multiset \<Rightarrow> nat list \<Rightarrow> heap \<Rightarrow> nat list \<Rightarrow> heap \<Rightarrow> bool" where
  "same_words B fs h fs' h' \<longleftrightarrow>
     (\<forall>(x, n) \<in># B. \<forall>off. x \<le> off \<longrightarrow> off + 8 \<le> x + n \<longrightarrow> heap_word fs' h' off = heap_word fs h off)"

lemma same_words_trans: "same_words B fs h fs1 h1 \<Longrightarrow> same_words B fs1 h1 fs2 h2 \<Longrightarrow> same_words B fs h fs2 h2"
  by (fastforce simp: same_words_def)


lemma same_words_refl: "same_words B fs h fs h"
  by (auto simp: same_words_def)

text \<open>A word of a held block can be written: no free list runs through it, and no other holder sees it.\<close>

lemma store_held:
  assumes inv: "heap_inv fs free (add_mset (x, n) B) h" and o: "x \<le> off" "off + 8 \<le> x + n"
  shows "\<exists>h'. store_word (hva off) v h = Some h' \<and> heap_inv fs free (add_mset (x, n) B) h' \<and> same_words B fs h fs h'
    \<and> hp_heads h' = hp_heads h \<and> hp_mmu h' = hp_mmu h \<and> hp_multi_page_list h' = hp_multi_page_list h
    \<and> heap_word fs h' off = v"
proof -
  let ?h' = "h\<lparr>hp_mem := (hp_mem h)(heap_pa fs off := v)\<rparr>"
  note D = heap_invD [OF inv]
  have below: "x + n \<le> 4096 * length fs" using D(6) [of x n] by simp
  then have off: "off < 4096 * length fs" using o by simp
  note st = store_word_heap [OF D(1) off, where v = v]
  have other: "heap_word fs ?h' a = heap_word fs h a" if "a < 4096 * length fs" "a \<noteq> off" for a
    using st(3) [OF that(1)] that(2) by simp
  have apart: "apart (x, n) c" if "c \<in># free_blocks free + B" for c
    using D(5) that by simp
  have heads: "chain (heap_word fs ?h') (hp_heads h ! k) (of_class k free)" if k: "k < 9" for k
  proof -
    have "heap_word fs ?h' a = heap_word fs h a" if "a \<in> set (of_class k free)" for a
    proof (rule other)
      have a: "(a, k) \<in> set free" using that by (simp add: of_class_mem)
      then have "(a, class_size k) \<in># free_blocks free" by (force simp: free_blocks_def)
      then have "apart (x, n) (a, class_size k)" by (intro apart) simp
      then show "a \<noteq> off" using o class_size_bounds(1) [of k] by (auto simp: apart_def)
      show "a < 4096 * length fs" using D(7) [OF a] class_size_bounds(3) [of k] by simp
    qed
    then show ?thesis using chain_cong [of "of_class k free" "heap_word fs ?h'" "heap_word fs h"] D(3) [OF k] by simp
  qed
  have "heap_inv fs free (add_mset (x, n) B) ?h'" using inv st(2) heads by (simp add: heap_inv_def)
  moreover have "same_words B fs h fs ?h'"
  proof -
    have "heap_word fs ?h' a = heap_word fs h a" if "(y, m) \<in># B" "y \<le> a" "a + 8 \<le> y + m" for y m a
    proof (rule other)
      have "apart (x, n) (y, m)" using that(1) by (intro apart) simp
      then show "a \<noteq> off" using o that(2,3) by (auto simp: apart_def)
      have "y + m \<le> 4096 * length fs" using D(6) [of y m] that(1) by simp
      then show "a < 4096 * length fs" using that(3) by simp
    qed
    then show ?thesis by (auto simp: same_words_def)
  qed
  ultimately show ?thesis using st(1) st(3) [OF off] by (intro exI [of _ ?h']) simp
qed

text \<open>\<open>push_node\<close> gives a held block back.\<close>

lemma push_node_inv:
  assumes inv: "heap_inv fs free (add_mset (x, class_size k) B) h" and k: "k < 9" "class_size k dvd x"
  shows "\<exists>h'. push_node k (hva x) h = Some h' \<and> heap_inv fs ((x, k) # free) B h' \<and> same_words B fs h fs h'
    \<and> hp_mmu h' = hp_mmu h"
proof -
  note D = heap_invD [OF inv]
  have "x + 8 \<le> x + class_size k" using class_size_bounds(1) [of k] by simp
  from store_held [OF inv order.refl this, of "hp_heads h ! k"]
  obtain h1 where h1: "store_word (hva x) (hp_heads h ! k) h = Some h1" "heap_inv fs free (add_mset (x, class_size k) B) h1"
    "same_words B fs h fs h1" "hp_heads h1 = hp_heads h" "hp_mmu h1 = hp_mmu h" "heap_word fs h1 x = hp_heads h ! k"
    by blast
  note E = heap_invD [OF h1(2)]
  let ?h' = "h1\<lparr>hp_heads := (hp_heads h1)[k := hva x]\<rparr>"
  have words: "heap_word fs ?h' = heap_word fs h1" by (auto simp: heap_word_def fun_eq_iff)
  have "chain (heap_word fs h1) ((hp_heads h1)[k := hva x] ! j) (of_class j ((x, k) # free))" if "j < 9" for j
    using E(3) [OF that] E(3) [OF k(1)] E(2) h1(4,6) k(1) by (auto simp: nth_list_update)
  moreover have "heap_backed fs ?h'" using E(1) by (simp add: heap_backed_def)
  ultimately have "heap_inv fs ((x, k) # free) B ?h'" using h1(2) k by (auto simp: heap_inv_def words)
  moreover have "same_words B fs h fs ?h'" using h1(3) by (simp add: same_words_def words)
  ultimately show ?thesis using h1(1,5) by (intro exI [of _ ?h']) (simp add: push_node_def)
qed

text \<open>A new page leaves the blocks as they are; blocks in it can then be held.\<close>

lemma alloc_heap_page_inv:
  assumes inv: "heap_inv fs free B h" and room: "4 \<le> free_frames (hp_mmu h)" "4096 * length fs + 4096 \<le> 2 ^ 39"
  shows "\<exists>f h'. alloc_heap_page h = Some (hva (4096 * length fs), h') \<and> heap_inv (fs @ [f]) free B h'
    \<and> same_words B fs h (fs @ [f]) h' \<and> hp_heads h' = hp_heads h \<and> free_frames (hp_mmu h) \<le> free_frames (hp_mmu h') + 4"
proof -
  note D = heap_invD [OF inv]
  obtain f h' where h': "alloc_heap_page h = Some (hva (4096 * length fs), h')" "heap_backed (fs @ [f]) h'"
    "hp_heads h' = hp_heads h" "hp_mem h' = hp_mem h" "free_frames (hp_mmu h) \<le> free_frames (hp_mmu h') + 4"
    using alloc_heap_page_ok [OF D(1) room] by (elim exE conjE) (rule that; assumption)
  have words: "heap_word (fs @ [f]) h' a = heap_word fs h a" if "a < 4096 * length fs" for a
    using that h'(4) by (simp add: heap_word_def heap_pa_def nth_append less_mult_imp_div_less mult.commute)
  have "chain (heap_word (fs @ [f]) h') (hp_heads h ! k) (of_class k free)" if k: "k < 9" for k
  proof -
    have "heap_word (fs @ [f]) h' a = heap_word fs h a" if "a \<in> set (of_class k free)" for a
    proof (rule words)
      have "(a, k) \<in> set free" using that by (simp add: of_class_mem)
      from D(7) [OF this] class_size_bounds(3) [of k] show "a < 4096 * length fs" by simp
    qed
    then show ?thesis using chain_cong [of "of_class k free" "heap_word (fs @ [f]) h'" "heap_word fs h"] D(3) [OF k] by simp
  qed
  moreover have "x + n \<le> 4096 * length (fs @ [f]) \<and> 16 \<le> n" if "(x, n) \<in># free_blocks free + B" for x n
    using D(8) [OF that] by simp
  ultimately have "heap_inv (fs @ [f]) free B h'" using D(2,4,5) h'(2,3) by (intro heap_invI) simp_all
  moreover have "same_words B fs h (fs @ [f]) h'"
  proof -
    have "heap_word (fs @ [f]) h' a = heap_word fs h a" if "(y, m) \<in># B" "y \<le> a" "a + 8 \<le> y + m" for y m a
      using words [of a] D(6) [OF that(1)] that(3) by simp
    then show ?thesis by (auto simp: same_words_def)
  qed
  ultimately show ?thesis using h'(1,3,5) by blast
qed


text \<open>Blocks past all others can be held as well.\<close>

lemma hold_block:
  assumes "heap_inv fs free B h" "\<And>y m. (y, m) \<in># free_blocks free + B \<Longrightarrow> apart (x, n) (y, m)"
    and "x + n \<le> 4096 * length fs" "16 \<le> n"
  shows "heap_inv fs free (add_mset (x, n) B) h"
proof -
  note D = heap_invD [OF assms(1)]
  have "blocks_apart (free_blocks free + add_mset (x, n) B)" using D(5) assms(2) by auto
  moreover have "y + m \<le> 4096 * length fs \<and> 16 \<le> m" if "(y, m) \<in># free_blocks free + add_mset (x, n) B" for y m
    using that D(8) [of y m] assms(3,4) by auto
  ultimately show ?thesis using D(1-4) by (intro heap_invI) simp_all
qed

definition page_blocks :: "nat \<Rightarrow> nat \<Rightarrow> nat \<Rightarrow> (nat \<times> nat) multiset" where
  "page_blocks n sz cnt = image_mset (\<lambda>i. (n + i * sz, sz)) (mset [0..<cnt])"

lemma page_blocks_Suc: "page_blocks n sz (Suc c) = add_mset (n + c * sz, sz) (page_blocks n sz c)"
  by (simp add: page_blocks_def)

lemma page_blocks_mem: "(y, m) \<in># page_blocks n sz c \<longleftrightarrow> m = sz \<and> (\<exists>i < c. y = n + i * sz)"
  by (auto simp: page_blocks_def)

lemma hold_page_blocks:
  assumes "heap_inv fs free B h" "\<And>y m. (y, m) \<in># free_blocks free + B \<Longrightarrow> y + m \<le> n"
    and "n + cnt * sz \<le> 4096 * length fs" "16 \<le> sz"
  shows "heap_inv fs free (page_blocks n sz cnt + B) h"
  using assms(3)
proof (induction cnt)
  case 0
  with assms(1) show ?case by (simp add: page_blocks_def)
next
  case (Suc c)
  have IH: "heap_inv fs free (page_blocks n sz c + B) h" using Suc by simp
  have "apart (n + c * sz, sz) (y, m)" if "(y, m) \<in># free_blocks free + (page_blocks n sz c + B)" for y m
  proof (cases "(y, m) \<in># page_blocks n sz c")
    case True
    then obtain i where "m = sz" "y = n + i * sz" "i < c" by (auto simp: page_blocks_mem)
    moreover from this(3) have "i * sz + sz \<le> c * sz" using mult_le_mono1 [of "Suc i" c sz] by simp
    ultimately show ?thesis by (simp add: apart_def)
  next
    case False
    with that have "(y, m) \<in># free_blocks free + B" by auto
    from assms(2) [OF this] show ?thesis by (simp add: apart_def)
  qed
  from hold_block [OF IH this] Suc.prems assms(4) show ?case by (simp add: page_blocks_Suc)
qed

lemma image_add_mset_upt: "page_blocks n sz (Suc c) = add_mset (n, sz) (page_blocks (n + sz) sz c)"
proof (induction c)
  case 0
  then show ?case by (simp add: page_blocks_def)
next
  case (Suc c)
  then show ?case by (simp add: page_blocks_Suc [of n] page_blocks_Suc [of "n + sz" sz c] add_mset_commute)
qed

text \<open>The offsets of a page go to the free list one after the other.\<close>

lemma push_blocks_inv:
  assumes "heap_inv fs free (page_blocks (n + i * class_size k) (class_size k) c + B) h" "k < 9" "class_size k dvd n"
  shows "\<exists>free' h'. push_blocks k (hva n) (map (\<lambda>i. i * class_size k) [i..<i + c]) h = Some h' \<and> heap_inv fs free' B h'
    \<and> same_words B fs h fs h' \<and> hp_mmu h' = hp_mmu h \<and> (0 < c \<or> of_class k free \<noteq> [] \<longrightarrow> of_class k free' \<noteq> [])"
  using assms(1)
proof (induction c arbitrary: i free h)
  case 0
  then show ?case using same_words_refl by (intro exI [of _ free] exI [of _ h]) (simp add: page_blocks_def)
next
  case (Suc c)
  let ?x = "n + i * class_size k"
  have "heap_inv fs free (add_mset (?x, class_size k) (page_blocks (n + Suc i * class_size k) (class_size k) c + B)) h"
    using Suc.prems by (simp add: image_add_mset_upt ac_simps)
  moreover have "class_size k dvd ?x" using assms(3) by simp
  ultimately obtain h1 where h1: "push_node k (hva ?x) h = Some h1"
    "heap_inv fs ((?x, k) # free) (page_blocks (n + Suc i * class_size k) (class_size k) c + B) h1"
    "same_words (page_blocks (n + Suc i * class_size k) (class_size k) c + B) fs h fs h1" "hp_mmu h1 = hp_mmu h"
    using push_node_inv assms(2) by blast
  from Suc.IH [OF h1(2)] obtain free' h' where
    h': "push_blocks k (hva n) (map (\<lambda>i. i * class_size k) [Suc i..<Suc i + c]) h1 = Some h'" "heap_inv fs free' B h'"
    "same_words B fs h1 fs h'" "hp_mmu h' = hp_mmu h1" "of_class k free' \<noteq> []"
    by auto
  have "[i..<i + Suc c] = i # [Suc i..<Suc i + c]" by (simp add: upt_rec)
  then have "push_blocks k (hva n) (map (\<lambda>i. i * class_size k) [i..<i + Suc c]) h = Some h'"
    using h1(1) h'(1) by (simp add: hva_plus del: of_nat_mult upt_Suc)
  moreover have "same_words B fs h fs h1" using h1(3) by (simp add: same_words_def)
  ultimately show ?case
    using h1(4) h' by (intro exI [of _ free'] exI [of _ h']) (simp add: same_words_trans)
qed


lemma block_offsets_class:
  assumes "k < 9" shows "block_offsets (class_size k) = map (\<lambda>i. i * class_size k) [0..<0 + 4096 div class_size k]"
proof -
  obtain q where q: "4096 = class_size k * q" using class_size_bounds(2) [OF assms] by (elim dvdE)
  have "(4096 + class_size k - 1) div class_size k = q"
    unfolding q using class_size_bounds(3) [of k] by (intro div_nat_eqI) (auto simp: mult.commute)
  moreover have "4096 div class_size k = q" unfolding q using class_size_bounds(3) [of k] by simp
  ultimately show ?thesis by (simp add: block_offsets_def PAGE_SIZE_def)
qed

lemma refill_head_inv:
  assumes "heap_inv fs free B h" "k < 9" "4 \<le> free_frames (hp_mmu h)" "4096 * length fs + 4096 \<le> 2 ^ 39"
  shows "\<exists>fs' free' h'. refill_head k (class_size k) h = Some h' \<and> heap_inv fs' free' B h' \<and> same_words B fs h fs' h'
    \<and> length fs' = length fs + 1 \<and> of_class k free' \<noteq> [] \<and> free_frames (hp_mmu h) \<le> free_frames (hp_mmu h') + 4"
proof -
  let ?n = "4096 * length fs" and ?s = "class_size k" and ?c = "4096 div class_size k"
  obtain f h1 where h1: "alloc_heap_page h = Some (hva ?n, h1)" "heap_inv (fs @ [f]) free B h1"
    "same_words B fs h (fs @ [f]) h1" "free_frames (hp_mmu h) \<le> free_frames (hp_mmu h1) + 4"
    using alloc_heap_page_inv [OF assms(1,3,4)] by (elim exE conjE) (rule that; assumption)
  have dvd: "?s dvd 4096" "?s dvd ?n" using class_size_bounds(2) [OF assms(2)] by simp_all
  then have c: "?c * ?s = 4096" "0 < ?c" using class_size_bounds(3) [of k] by (auto simp: dvd_imp_le div_greater_zero_iff)
  have "heap_inv (fs @ [f]) free (page_blocks ?n ?s ?c + B) h1"
    by (rule hold_page_blocks [OF h1(2)]) (use heap_invD(8) [OF assms(1)] c class_size_bounds(1) in auto)
  then have "heap_inv (fs @ [f]) free (page_blocks (?n + 0 * ?s) ?s ?c + B) h1" by simp
  from push_blocks_inv [OF this assms(2) dvd(2)] obtain free' h' where
    h': "push_blocks k (hva ?n) (map (\<lambda>i. i * ?s) [0..<0 + ?c]) h1 = Some h'" "heap_inv (fs @ [f]) free' B h'"
    "same_words B (fs @ [f]) h1 (fs @ [f]) h'" "hp_mmu h' = hp_mmu h1" "of_class k free' \<noteq> []"
    using c(2) by auto
  have "refill_head k ?s h = Some h'" using h1(1) h'(1) assms(2) by (simp add: refill_head_def block_offsets_class)
  with h1 h' same_words_trans [OF h1(3) h'(3)] show ?thesis
    by (intro exI [of _ "fs @ [f]"] exI [of _ free'] exI [of _ h']) simp
qed

text \<open>The first block of a list is taken.\<close>

lemma take_block_inv:
  assumes inv: "heap_inv fs free B h" and k: "k < 9" "of_class k free \<noteq> []"
  shows "\<exists>x free' h'. hp_heads h ! k = hva x \<and> hva x \<noteq> 0 \<and> load_word (hva x) h = Some (heap_word fs h x)
    \<and> h' = h\<lparr>hp_heads := (hp_heads h)[k := heap_word fs h x]\<rparr>
    \<and> heap_inv fs free' (add_mset (x, class_size k) B) h' \<and> class_size k dvd x \<and> same_words B fs h fs h'"
proof -
  note D = heap_invD [OF inv]
  obtain b rest where split: "filter (\<lambda>b. snd b = k) free = b # rest" using k(2) by (cases "filter (\<lambda>b. snd b = k) free") (auto simp: of_class_def)
  have "b \<in> set (filter (\<lambda>b. snd b = k) free)" unfolding split by simp
  then have "snd b = k" "b \<in> set free" by simp_all
  then obtain x where b: "b = (x, k)" "(x, k) \<in> set free" by (cases b) auto
  let ?free' = "remove1 (x, k) free" and ?h' = "h\<lparr>hp_heads := (hp_heads h)[k := heap_word fs h x]\<rparr>"
  have mset: "mset free = add_mset (x, k) (mset ?free')" using b(2) by simp
  have classes: "of_class k free = x # of_class k ?free'" "j \<noteq> k \<Longrightarrow> of_class j ?free' = of_class j free" for j
    using split b(1) by (simp_all add: of_class_def filter_remove1 remove1_idem)
  have "free_blocks free = add_mset (x, class_size k) (free_blocks ?free')"
    by (simp only: free_blocks_def mset image_mset_add_mset prod.case)
  then have total: "free_blocks ?free' + add_mset (x, class_size k) B = free_blocks free + B" by simp
  have head: "hp_heads h ! k = hva x" "chain (heap_word fs h) (heap_word fs h x) (of_class k ?free')"
    using D(3) [OF k(1)] by (simp_all add: classes(1))
  have x: "x < 4096 * length fs" using D(7) [OF b(2)] class_size_bounds(3) [of k] by simp
  then have "hva x \<noteq> 0" using D(1) by (intro hva_nonzero) (simp add: heap_backed_def)
  have words: "heap_word fs ?h' = heap_word fs h" by (auto simp: heap_word_def fun_eq_iff)
  have "heap_inv fs ?free' (add_mset (x, class_size k) B) ?h'"
  proof (rule heap_invI)
    show "heap_backed fs ?h'" using D(1) by (simp add: heap_backed_def)
    show "length (hp_heads ?h') = 9" using D(2) by simp
    show "chain (heap_word fs ?h') (hp_heads ?h' ! j) (of_class j ?free')" if "j < 9" for j
      using D(2) D(3) [OF that] head(2) k(1) classes(2) [of j] unfolding words by (cases "j = k") simp_all
    show "j < 9 \<and> class_size j dvd y" if "(y, j) \<in> set ?free'" for y j
      using D(4) notin_set_remove1 [of "(y, j)" free "(x, k)"] that by blast
    show "blocks_apart (free_blocks ?free' + add_mset (x, class_size k) B)" unfolding total by (rule D(5))
    show "y + n \<le> 4096 * length fs \<and> 16 \<le> n" if "(y, n) \<in># free_blocks ?free' + add_mset (x, class_size k) B" for y n
      using that unfolding total by (rule D(8))
  qed
  moreover have "same_words B fs h fs ?h'" by (auto simp: same_words_def words)
  ultimately show ?thesis
    using head(1) \<open>hva x \<noteq> 0\<close> load_word_heap [OF D(1) x] D(4) [OF b(2)] by blast
qed


section \<open>Sizes\<close>

lemma log2_up_le: "log2_up n \<le> k \<longleftrightarrow> n \<le> 2 ^ k"
proof (induction n arbitrary: k rule: log2_up.induct)
  case (1 n)
  show ?case
  proof (cases "n \<le> 1")
    case True
    moreover have "(1 :: nat) \<le> 2 ^ k" by simp
    ultimately have "n \<le> 2 ^ k" by linarith
    moreover have "log2_up n = 0" using True by (subst log2_up.simps) (simp only: if_True)
    ultimately show ?thesis by simp
  next
    case False
    then have step: "log2_up n = Suc (log2_up ((n + 1) div 2))" by (subst log2_up.simps) (simp only: if_False)
    show ?thesis
    proof (cases k)
      case 0
      with False step show ?thesis by simp
    next
      case (Suc j)
      with "1.IH" [OF False, of j] step show ?thesis by auto
    qed
  qed
qed

lemma log2_up_values [simp]: "log2_up 16 = 4" "log2_up 4096 = 12"
  by (simp_all add: log2_up.simps)

lemma HEAD_COUNT_eq: "HEAD_COUNT = 9"
  by (simp add: HEAD_COUNT_def PAGE_SIZE_def MIN_BLOCK_SIZE_def)

definition layout_need :: "layout \<Rightarrow> nat" where
  "layout_need l = max (max (ly_size l) (ly_align l)) 16"

definition block_len :: "layout \<Rightarrow> nat" where
  "block_len l = (if head_index l < 9 then class_size (head_index l) else 4096 * layout_pages l)"

definition pages_needed :: "layout \<Rightarrow> nat" where
  "pages_needed l = (if head_index l < 9 then 1 else layout_pages l)"

lemma head_index_need:
  "head_index l < 9 \<longleftrightarrow> layout_need l \<le> 4096" "next_power_of_two (layout_need l) = class_size (head_index l)"
  "layout_need l \<le> class_size (head_index l)"
proof -
  have "\<not> log2_up (layout_need l) \<le> 3" by (simp add: log2_up_le layout_need_def)
  then have 4: "log2_up (layout_need l) = head_index l + 4"
    by (simp add: head_index_def MIN_BLOCK_SIZE_def layout_need_def)
  have "head_index l < 9 \<longleftrightarrow> log2_up (layout_need l) \<le> 12" unfolding 4 by linarith
  then show "head_index l < 9 \<longleftrightarrow> layout_need l \<le> 4096" by (simp add: log2_up_le)
  show *: "next_power_of_two (layout_need l) = class_size (head_index l)"
    by (simp add: next_power_of_two_def 4 class_size_def power_add)
  show "layout_need l \<le> class_size (head_index l)"
    using log2_up_le [of "layout_need l" "log2_up (layout_need l)"] by (simp add: * [symmetric] next_power_of_two_def)
qed

text \<open>A block of a class has room for the layout and is aligned for it.\<close>

lemma power_of_two_dvd: "a = 2 ^ i \<Longrightarrow> b = 2 ^ j \<Longrightarrow> a \<le> b \<Longrightarrow> a dvd b" for a b :: nat
  by (simp add: le_imp_power_dvd)

lemma layout_fits:
  assumes "layout_ok l" "ly_align l \<le> 4096"
  shows "ly_size l \<le> block_len l" "ly_align l dvd 4096" "head_index l < 9 \<Longrightarrow> ly_align l dvd class_size (head_index l)"
    "16 \<le> block_len l" "\<not> head_index l < 9 \<Longrightarrow> 0 < layout_pages l"
proof -
  obtain k where k: "ly_align l = 2 ^ k" using assms(1) by (auto simp: layout_ok_def)
  have c: "class_size (head_index l) = 2 ^ (4 + head_index l)" by (simp add: class_size_def power_add)
  show "ly_align l dvd 4096" using power_of_two_dvd [OF k, of 4096 12] assms(2) by simp
  show "ly_align l dvd class_size (head_index l)"
    using power_of_two_dvd [OF k c] head_index_need(3) [of l] by (simp add: layout_need_def)
  have big: "4096 < ly_size l" if "\<not> head_index l < 9"
    using that head_index_need(1) [of l] assms(2) by (auto simp: layout_need_def)
  then show pos: "\<not> head_index l < 9 \<Longrightarrow> 0 < layout_pages l" by (simp add: layout_pages_def PAGE_SIZE_def div_greater_zero_iff)
  have "ly_size l \<le> 4096 * layout_pages l" by (simp add: layout_pages_def PAGE_SIZE_def)
  then show "ly_size l \<le> block_len l"
    using head_index_need(3) [of l] by (simp add: block_len_def layout_need_def)
  show "16 \<le> block_len l" using class_size_bounds(1) pos by (simp add: block_len_def Suc_leI)
qed


section \<open>Allocation and release\<close>

lemma alloc_more_pages_inv:
  assumes "heap_inv fs free B h" "4 * n \<le> free_frames (hp_mmu h)" "4096 * (length fs + n) \<le> 2 ^ 39"
  shows "\<exists>gs h'. alloc_more_pages n h = Some h' \<and> heap_inv (fs @ gs) free B h' \<and> length gs = n
    \<and> same_words B fs h (fs @ gs) h'"
  using assms
proof (induction n arbitrary: fs h)
  case 0
  then show ?case using same_words_refl by (intro exI [of _ "[]"] exI [of _ h]) simp
next
  case (Suc n)
  have "4 \<le> free_frames (hp_mmu h)" "4096 * length fs + 4096 \<le> 2 ^ 39" using Suc.prems by simp_all
  from alloc_heap_page_inv [OF Suc.prems(1) this] obtain f h1 where h1: "alloc_heap_page h = Some (hva (4096 * length fs), h1)"
    "heap_inv (fs @ [f]) free B h1" "same_words B fs h (fs @ [f]) h1" "free_frames (hp_mmu h) \<le> free_frames (hp_mmu h1) + 4"
    by (elim exE conjE) (rule that; assumption)
  have "4 * n \<le> free_frames (hp_mmu h1)" "4096 * (length (fs @ [f]) + n) \<le> 2 ^ 39" using Suc.prems(2,3) h1(4) by simp_all
  from Suc.IH [OF h1(2) this] obtain gs h' where h': "alloc_more_pages n h1 = Some h'" "heap_inv ((fs @ [f]) @ gs) free B h'"
    "length gs = n" "same_words B (fs @ [f]) h1 ((fs @ [f]) @ gs) h'"
    by (elim exE conjE) (rule that; assumption)
  with h1(1) same_words_trans [OF h1(3) h'(4)] show ?case
    by (intro exI [of _ "f # gs"] exI [of _ h']) simp
qed

lemma heap_alloc_inv:
  assumes inv: "heap_inv fs free B h" and l: "layout_ok l" "ly_align l \<le> 4096"
    and room: "4 * pages_needed l \<le> free_frames (hp_mmu h)" "4096 * (length fs + pages_needed l) \<le> 2 ^ 39"
  shows "\<exists>x fs' free' h'. heap_alloc l h = Some (hva x, h') \<and> hva x \<noteq> 0 \<and> ly_align l dvd x
    \<and> (head_index l < 9 \<longrightarrow> class_size (head_index l) dvd x)
    \<and> heap_inv fs' free' (add_mset (x, block_len l) B) h' \<and> same_words B fs h fs' h'"
proof (cases "head_index l < 9")
  case True
  let ?k = "head_index l"
  obtain fs1 free1 h1 where h1: "(if hp_heads h ! ?k = 0 then refill_head ?k (class_size ?k) h else Some h) = Some h1"
    "heap_inv fs1 free1 B h1" "same_words B fs h fs1 h1" "of_class ?k free1 \<noteq> []"
  proof (cases "hp_heads h ! ?k = 0")
    case null: True
    have "4 \<le> free_frames (hp_mmu h)" "4096 * length fs + 4096 \<le> 2 ^ 39" using room True by (simp_all add: pages_needed_def)
    from refill_head_inv [OF inv True this] null show ?thesis by (elim exE conjE) (rule that; simp)
  next
    case False
    then have "of_class ?k free \<noteq> []" using heap_invD(3) [OF inv True] by auto
    with False inv same_words_refl show ?thesis by (intro that) auto
  qed
  from take_block_inv [OF h1(2) True h1(4)] obtain x free' h' where x: "hp_heads h1 ! ?k = hva x" "hva x \<noteq> 0"
    "load_word (hva x) h1 = Some (heap_word fs1 h1 x)" "h' = h1\<lparr>hp_heads := (hp_heads h1)[?k := heap_word fs1 h1 x]\<rparr>"
    "heap_inv fs1 free' (add_mset (x, class_size ?k) B) h'" "class_size ?k dvd x" "same_words B fs1 h1 fs1 h'"
    by (elim exE conjE) (rule that; assumption)
  have "heap_alloc l h = Some (hva x, h')"
    using h1(1) x(1-4) True l(2) head_index_need(2) [of l]
    by (simp add: heap_alloc_def HEAD_COUNT_eq PAGE_SIZE_def MIN_BLOCK_SIZE_def layout_need_def not_le not_less)
  moreover have "ly_align l dvd x" using layout_fits(3) [OF l True] x(6) by (rule dvd_trans)
  ultimately show ?thesis
    using x(2,5,6) same_words_trans [OF h1(3) x(7)] True by (intro exI [of _ x] exI [of _ fs1] exI [of _ free'] exI [of _ h']) (simp add: block_len_def)
next
  case False
  let ?n = "4096 * length fs" and ?p = "layout_pages l"
  have p: "0 < ?p" by (rule layout_fits(5) [OF l False])
  then have "4 \<le> free_frames (hp_mmu h)" "4096 * length fs + 4096 \<le> 2 ^ 39" using room False by (simp_all add: pages_needed_def)
  from alloc_heap_page_inv [OF inv this] obtain f h1 where h1: "alloc_heap_page h = Some (hva ?n, h1)"
    "heap_inv (fs @ [f]) free B h1" "same_words B fs h (fs @ [f]) h1" "free_frames (hp_mmu h) \<le> free_frames (hp_mmu h1) + 4"
    by (elim exE conjE) (rule that; assumption)
  have "4 * (?p - 1) \<le> free_frames (hp_mmu h1)" "4096 * (length (fs @ [f]) + (?p - 1)) \<le> 2 ^ 39"
    using room False h1(4) p by (simp_all add: pages_needed_def)
  from alloc_more_pages_inv [OF h1(2) this] obtain gs h' where h': "alloc_more_pages (?p - 1) h1 = Some h'"
    "heap_inv ((fs @ [f]) @ gs) free B h'" "length gs = ?p - 1" "same_words B (fs @ [f]) h1 ((fs @ [f]) @ gs) h'"
    by (elim exE conjE) (rule that; assumption)
  have len: "4096 * length ((fs @ [f]) @ gs) = ?n + 4096 * ?p" using h'(3) p by simp
  have "heap_inv ((fs @ [f]) @ gs) free (add_mset (?n, 4096 * ?p) B) h'"
  proof (rule hold_block [OF h'(2)])
    show "apart (?n, 4096 * ?p) (y, m)" if "(y, m) \<in># free_blocks free + B" for y m
      using heap_invD(8) [OF inv that] by (simp add: apart_def)
  qed (use len p in simp_all)
  moreover have "hva ?n \<noteq> 0" using room(2) by (intro hva_nonzero) simp
  moreover have "heap_alloc l h = Some (hva ?n, h')"
    using h1(1) h'(1) False l(2) by (simp add: heap_alloc_def HEAD_COUNT_eq PAGE_SIZE_def not_le not_less)
  moreover have "ly_align l dvd ?n" using layout_fits(2) [OF l] by simp
  ultimately show ?thesis using same_words_trans [OF h1(3) h'(4)] False by (auto simp: block_len_def intro!: exI [of _ ?n])
qed

text \<open>A released run of pages stays held, by the list no allocation looks at.\<close>

lemma heap_dealloc_inv:
  assumes inv: "heap_inv fs free (add_mset (x, block_len l) B) h" and l: "layout_ok l" "ly_align l \<le> 4096"
    and aligned: "head_index l < 9 \<longrightarrow> class_size (head_index l) dvd x"
  shows "\<exists>free' B' h'. heap_dealloc (hva x) l h = Some h' \<and> heap_inv fs free' (B + B') h' \<and> same_words B fs h fs h'"
proof (cases "head_index l < 9")
  case True
  with push_node_inv [of fs free x "head_index l" B h] inv aligned obtain h' where
    "push_node (head_index l) (hva x) h = Some h'" "heap_inv fs ((x, head_index l) # free) B h'" "same_words B fs h fs h'"
    by (auto simp: block_len_def)
  with True l(2) show ?thesis
    by (intro exI [of _ "(x, head_index l) # free"] exI [of _ "{#}"] exI [of _ h'])
      (simp add: heap_dealloc_def HEAD_COUNT_eq PAGE_SIZE_def)
next
  case False
  have len: "16 \<le> block_len l" by (rule layout_fits(4) [OF l])
  then have "x + 8 \<le> x + block_len l" by simp
  from store_held [OF inv order.refl this, of "of_nat (layout_pages l)"] obtain h1 where
    h1: "store_word (hva x) (of_nat (layout_pages l)) h = Some h1" "heap_inv fs free (add_mset (x, block_len l) B) h1"
    "same_words B fs h fs h1" by blast
  have "x \<le> x + 8" "(x + 8) + 8 \<le> x + block_len l" using len by simp_all
  from store_held [OF h1(2) this, of "hp_multi_page_list h1"] obtain h2 where
    h2: "store_word (hva (x + 8)) (hp_multi_page_list h1) h1 = Some h2" "heap_inv fs free (add_mset (x, block_len l) B) h2"
    "same_words B fs h1 fs h2" by blast
  let ?h' = "h2\<lparr>hp_multi_page_list := hva x\<rparr>"
  have words: "heap_word fs ?h' = heap_word fs h2" by (auto simp: heap_word_def fun_eq_iff)
  have "heap_inv fs free (add_mset (x, block_len l) B) ?h'" using h2(2) by (simp add: heap_inv_def words heap_backed_def)
  moreover have "heap_dealloc (hva x) l h = Some ?h'"
    using h1(1) h2(1) False l(2) hva_plus [of x 8] by (simp add: heap_dealloc_def HEAD_COUNT_eq PAGE_SIZE_def)
  moreover have "same_words B fs h fs ?h'" using same_words_trans [OF h1(3) h2(3)] by (simp add: same_words_def words)
  ultimately show ?thesis by (intro exI [of _ free] exI [of _ "{#(x, block_len l)#}"] exI [of _ ?h']) simp
qed


section \<open>Clients of the heap\<close>

lemma heap_new_inv: "mmu_wf m \<Longrightarrow> heap_inv [] [] {#} (heap_new mem m)"
  by (auto simp: heap_inv_def heap_backed_def heap_new_def HEAD_COUNT_eq frames_ok_def of_class_def simp del: replicate.simps)

lemma refill_all_inv:
  assumes "heap_inv fs free B h" "\<forall>k \<in> set ks. k < 9" "4 * length ks \<le> free_frames (hp_mmu h)"
    and "4096 * (length fs + length ks) \<le> 2 ^ 39"
  shows "\<exists>fs' free' h'. refill_all ks h = Some h' \<and> heap_inv fs' free' B h' \<and> length fs' = length fs + length ks
    \<and> free_frames (hp_mmu h) \<le> free_frames (hp_mmu h') + 4 * length ks"
  using assms
proof (induction ks arbitrary: fs free h)
  case Nil
  then show ?case by auto
next
  case (Cons k ks)
  have "k < 9" "4 \<le> free_frames (hp_mmu h)" "4096 * length fs + 4096 \<le> 2 ^ 39" using Cons.prems by simp_all
  from refill_head_inv [OF Cons.prems(1) this] obtain fs1 free1 h1 where
    h1: "refill_head k (class_size k) h = Some h1" "heap_inv fs1 free1 B h1" "length fs1 = length fs + 1"
      "free_frames (hp_mmu h) \<le> free_frames (hp_mmu h1) + 4"
    by (elim exE conjE) (rule that; assumption)
  from Cons.IH [OF h1(2)] obtain fs' free' h' where "refill_all ks h1 = Some h'" "heap_inv fs' free' B h'"
    "length fs' = length fs1 + length ks" "free_frames (hp_mmu h1) \<le> free_frames (hp_mmu h') + 4 * length ks"
    using Cons.prems h1(3,4) by auto
  with h1(1,3,4) show ?case
    by (intro exI [of _ fs'] exI [of _ free'] exI [of _ h']) (simp add: class_size_def MIN_BLOCK_SIZE_def)
qed

lemma init_heap_inv:
  assumes "mmu_wf m" "36 \<le> free_frames m"
  shows "\<exists>fs free h. init_heap (heap_new mem m) = Some h \<and> heap_inv fs free {#} h \<and> length fs = 9
    \<and> free_frames m \<le> free_frames (hp_mmu h) + 36"
proof -
  have "hp_mmu (heap_new mem m) = m" by (simp add: heap_new_def)
  with refill_all_inv [OF heap_new_inv [OF assms(1)], of "[0..<9]" mem] assms(2) show ?thesis
    by (simp add: init_heap_def HEAD_COUNT_eq)
qed

text \<open>What clients do, with the list of the blocks they hold: they allocate while there are frames for the
  new pages and room in the window of the heap, release what they hold and write into it.\<close>

inductive heap_step :: "heap \<times> (usize \<times> layout) list \<Rightarrow> heap \<times> (usize \<times> layout) list \<Rightarrow> bool" where
  step_alloc: "layout_ok l \<Longrightarrow> 4 * pages_needed l \<le> free_frames (hp_mmu h) \<Longrightarrow> unat (hp_size h) + 4096 * pages_needed l \<le> 2 ^ 39
     \<Longrightarrow> heap_alloc l h = Some (p, h') \<Longrightarrow> heap_step (h, live) (h', (p, l) # live)"
| step_dealloc: "(p, l) \<in> set live \<Longrightarrow> heap_dealloc p l h = Some h' \<Longrightarrow> heap_step (h, live) (h', remove1 (p, l) live)"
| step_write: "(p, l) \<in> set live \<Longrightarrow> off + 8 \<le> ly_size l \<Longrightarrow> off mod 8 = 0 \<Longrightarrow> store_word (p + of_nat off) v h = Some h'
     \<Longrightarrow> heap_step (h, live) (h', live)"

definition held :: "(nat \<times> layout) list \<Rightarrow> (nat \<times> nat) multiset" where
  "held lv = image_mset (\<lambda>(x, l). (x, block_len l)) (mset lv)"

definition live_of :: "(nat \<times> layout) list \<Rightarrow> (usize \<times> layout) list" where
  "live_of lv = map (\<lambda>(x, l). (hva x, l)) lv"

definition block_ok :: "nat \<times> layout \<Rightarrow> bool" where
  "block_ok b \<longleftrightarrow> layout_ok (snd b) \<and> ly_align (snd b) \<le> 4096 \<and> ly_align (snd b) dvd fst b
     \<and> (head_index (snd b) < 9 \<longrightarrow> class_size (head_index (snd b)) dvd fst b)"

definition clients_inv :: "nat list \<Rightarrow> (nat \<times> nat) list \<Rightarrow> (nat \<times> layout) list \<Rightarrow> (nat \<times> nat) multiset \<Rightarrow> heap \<Rightarrow> bool" where
  "clients_inv fs free lv B h \<longleftrightarrow> heap_inv fs free (held lv + B) h \<and> list_all block_ok lv"

lemma held_simps [simp]: "held [] = {#}" "held ((x, l) # lv) = add_mset (x, block_len l) (held lv)"
  by (simp_all add: held_def)

lemma held_remove1: "(x, l) \<in> set lv \<Longrightarrow> held lv = add_mset (x, block_len l) (held (remove1 (x, l) lv))"
proof -
  assume "(x, l) \<in> set lv"
  then have "mset lv = add_mset (x, l) (mset (remove1 (x, l) lv))" by simp
  then show ?thesis by (simp only: held_def image_mset_add_mset prod.case)
qed

lemma clients_below:
  assumes "clients_inv fs free lv B h" "(x, l) \<in> set lv" shows "x + block_len l \<le> 4096 * length fs" "x < 2 ^ 44"
proof -
  have "(x, block_len l) \<in># held lv + B" using assms(2) by (force simp: held_def)
  with assms(1) heap_invD(6) [of fs free "held lv + B" h x "block_len l"] show "x + block_len l \<le> 4096 * length fs" "x < 2 ^ 44"
    using heap_invD(1) [of fs free "held lv + B" h] by (auto simp: clients_inv_def heap_backed_def)
qed

lemma live_of_mem:
  assumes "clients_inv fs free lv B h" "(p, l) \<in> set (live_of lv)"
  shows "\<exists>x. p = hva x \<and> (x, l) \<in> set lv"
  using assms(2) by (auto simp: live_of_def)

lemma map_remove1_inj: "inj_on f (insert x (set xs)) \<Longrightarrow> map f (remove1 x xs) = remove1 (f x) (map f xs)"
  by (induction xs) auto

lemma live_of_remove1:
  assumes "clients_inv fs free lv B h" "(x, l) \<in> set lv"
  shows "live_of (remove1 (x, l) lv) = remove1 (hva x, l) (live_of lv)"
proof -
  have "inj_on (\<lambda>(x, l). (hva x, l)) (insert (x, l) (set lv))"
    using clients_below(2) [OF assms(1)] assms(2) by (auto simp: inj_on_def hva_inj)
  from map_remove1_inj [OF this] show ?thesis by (simp add: live_of_def)
qed

lemma clients_alloc:
  assumes inv: "clients_inv fs free lv B h" and l: "layout_ok l" "ly_align l \<le> 4096"
    and room: "4 * pages_needed l \<le> free_frames (hp_mmu h)" "unat (hp_size h) + 4096 * pages_needed l \<le> 2 ^ 39"
  shows "\<exists>x fs' free' h'. heap_alloc l h = Some (hva x, h') \<and> hva x \<noteq> 0 \<and> clients_inv fs' free' ((x, l) # lv) B h'
    \<and> same_words (held lv + B) fs h fs' h'"
proof -
  have h: "heap_inv fs free (held lv + B) h" using inv by (simp add: clients_inv_def)
  have "hp_size h = of_nat (4096 * length fs)" "4096 * length fs \<le> 2 ^ 39"
    using heap_invD(1) [OF h] unfolding heap_backed_def by blast+
  then have "unat (hp_size h) = 4096 * length fs" by (simp only: unat_of_nat) (intro mod_less, simp)
  then have "4096 * (length fs + pages_needed l) \<le> 2 ^ 39" using room(2) by simp
  from heap_alloc_inv [OF h l room(1) this] obtain x fs' free' h' where
    "heap_alloc l h = Some (hva x, h')" "hva x \<noteq> 0" "ly_align l dvd x" "head_index l < 9 \<longrightarrow> class_size (head_index l) dvd x"
    "heap_inv fs' free' (add_mset (x, block_len l) (held lv + B)) h'" "same_words (held lv + B) fs h fs' h'"
    by (elim exE conjE) (rule that; assumption)
  with inv l show ?thesis
    by (intro exI [of _ x] exI [of _ fs'] exI [of _ free'] exI [of _ h']) (simp add: clients_inv_def block_ok_def)
qed

lemma clients_dealloc:
  assumes inv: "clients_inv fs free lv B h" and mem: "(x, l) \<in> set lv"
  shows "\<exists>free' B' h'. heap_dealloc (hva x) l h = Some h' \<and> clients_inv fs free' (remove1 (x, l) lv) B' h'
    \<and> same_words (held (remove1 (x, l) lv)) fs h fs h'"
proof -
  let ?rest = "held (remove1 (x, l) lv)"
  have ok: "block_ok (x, l)" using inv mem by (auto simp: clients_inv_def list_all_iff)
  have h: "heap_inv fs free (add_mset (x, block_len l) (?rest + B)) h"
    using inv held_remove1 [OF mem] by (simp add: clients_inv_def)
  have l: "layout_ok l" "ly_align l \<le> 4096" "head_index l < 9 \<longrightarrow> class_size (head_index l) dvd x"
    using ok by (simp_all add: block_ok_def)
  obtain free' B' h' where r: "heap_dealloc (hva x) l h = Some h'" "heap_inv fs free' (?rest + B + B') h'"
    "same_words (?rest + B) fs h fs h'"
    using heap_dealloc_inv [OF h l] by (elim exE conjE) (rule that; assumption)
  have "list_all block_ok (remove1 (x, l) lv)"
    using inv notin_set_remove1 [of _ lv] by (auto simp: clients_inv_def list_all_iff dest: notin_set_remove1)
  then have "clients_inv fs free' (remove1 (x, l) lv) (B + B') h'" using r(2) by (simp add: clients_inv_def add.assoc)
  moreover have "same_words ?rest fs h fs h'" using r(3) by (auto simp: same_words_def)
  ultimately show ?thesis using r(1) by blast
qed

lemma clients_write:
  assumes inv: "clients_inv fs free lv B h" and mem: "(x, l) \<in> set lv" and off: "off + 8 \<le> ly_size l"
  shows "\<exists>h'. store_word (hva x + of_nat off) v h = Some h' \<and> clients_inv fs free lv B h'"
proof -
  let ?rest = "held (remove1 (x, l) lv)"
  have ok: "block_ok (x, l)" using inv mem by (auto simp: clients_inv_def list_all_iff)
  have h: "heap_inv fs free (add_mset (x, block_len l) (?rest + B)) h"
    using inv held_remove1 [OF mem] by (simp add: clients_inv_def)
  have "ly_size l \<le> block_len l" using ok by (intro layout_fits(1)) (simp_all add: block_ok_def)
  then have "x \<le> x + off" "x + off + 8 \<le> x + block_len l" using off by simp_all
  from store_held [OF h this, of v] obtain h' where "store_word (hva (x + off)) v h = Some h'"
    "heap_inv fs free (add_mset (x, block_len l) (?rest + B)) h'" by blast
  then show ?thesis using inv held_remove1 [OF mem] by (simp add: clients_inv_def hva_plus)
qed

lemma clients_step:
  assumes "heap_step (h, live) (h', live')" "clients_inv fs free lv B h" "live = live_of lv"
  shows "\<exists>fs' free' lv' B'. live' = live_of lv' \<and> clients_inv fs' free' lv' B' h'"
  using assms(1)
proof cases
  case (step_alloc l p)
  have "ly_align l \<le> 4096" using step_alloc(5) by (auto simp: heap_alloc_def bind_eq_Some_conv PAGE_SIZE_def not_less)
  from clients_alloc [OF assms(2) step_alloc(2) this step_alloc(3,4)] obtain x fs' free' h2 where
    "heap_alloc l h = Some (hva x, h2)" "clients_inv fs' free' ((x, l) # lv) B h2"
    by (elim exE conjE) (rule that; assumption)
  with step_alloc(1,5) assms(3) show ?thesis
    by (intro exI [of _ fs'] exI [of _ free'] exI [of _ "(x, l) # lv"] exI [of _ B]) (simp add: live_of_def)
next
  case (step_dealloc p l)
  then obtain x where x: "p = hva x" "(x, l) \<in> set lv" using live_of_mem [OF assms(2)] assms(3) by blast
  from clients_dealloc [OF assms(2) x(2)] step_dealloc(3) x(1) obtain free' B' where
    "clients_inv fs free' (remove1 (x, l) lv) B' h'" by auto
  with step_dealloc(1) x assms(3) live_of_remove1 [OF assms(2) x(2)] show ?thesis
    by (intro exI [of _ fs] exI [of _ free'] exI [of _ "remove1 (x, l) lv"] exI [of _ B']) simp
next
  case (step_write p l off v)
  then obtain x where x: "p = hva x" "(x, l) \<in> set lv" using live_of_mem [OF assms(2)] assms(3) by blast
  from clients_write [OF assms(2) x(2) step_write(3), of v] step_write(5) x(1) have "clients_inv fs free lv B h'" by auto
  with step_write(1) assms(3) show ?thesis by blast
qed

lemma clients_reachable:
  assumes "heap_step\<^sup>*\<^sup>* (h0, []) (h, live)" "init_heap (heap_new mem m) = Some h0" "mmu_wf m" "36 \<le> free_frames m"
  shows "\<exists>fs free lv B. live = live_of lv \<and> clients_inv fs free lv B h"
proof -
  obtain fs free where "heap_inv fs free {#} h0" using init_heap_inv [OF assms(3,4), where mem = mem] assms(2) by auto
  then have init: "clients_inv fs free [] {#} h0" "[] = live_of []" by (simp_all add: clients_inv_def live_of_def)
  have "heap_step\<^sup>*\<^sup>* s t \<Longrightarrow> s = (h0, []) \<Longrightarrow> \<exists>fs free lv B. snd t = live_of lv \<and> clients_inv fs free lv B (fst t)" for s t
  proof (induction rule: rtranclp_induct)
    case base
    with init show ?case by auto
  next
    case (step t u)
    then obtain fs free lv B where t: "snd t = live_of lv" "clients_inv fs free lv B (fst t)" by blast
    have "heap_step (fst t, snd t) (fst u, snd u)" using step(2) by simp
    from this t(2,1) show ?case by (rule clients_step)
  qed
  from this [OF assms(1)] show ?thesis by simp
qed


lemma apart_sorted: "blocks_apart (mset bs + B) \<Longrightarrow> sorted_wrt apart bs"
  by (induction bs) auto

lemma held_sorted:
  assumes "clients_inv fs free lv B h" shows "sorted_wrt (\<lambda>b c. apart (fst b, block_len (snd b)) (fst c, block_len (snd c))) lv"
proof -
  have "blocks_apart (free_blocks free + (held lv + B))" using assms heap_invD(5) by (auto simp: clients_inv_def)
  moreover have "free_blocks free + (held lv + B) = mset (map (\<lambda>(x, l). (x, block_len l)) lv) + (free_blocks free + B)"
    by (simp add: held_def)
  ultimately have "sorted_wrt apart (map (\<lambda>(x, l). (x, block_len l)) lv)" using apart_sorted by metis
  then show ?thesis by (simp add: sorted_wrt_map case_prod_beta)
qed


lemma same_load:
  assumes "heap_backed fs h" "heap_backed fs' h'" "same_words C fs h fs' h'" "(x, n) \<in># C" "off + 8 \<le> n"
    and "x + n \<le> 4096 * length fs" "x + n \<le> 4096 * length fs'"
  shows "load_word (hva x + of_nat off) h' = load_word (hva x + of_nat off) h \<and> load_word (hva x + of_nat off) h \<noteq> None"
proof -
  have "heap_word fs' h' (x + off) = heap_word fs h (x + off)"
    using assms(3-5) unfolding same_words_def by fastforce
  then show ?thesis
    using load_word_heap [OF assms(1), of "x + off"] load_word_heap [OF assms(2), of "x + off"] assms(5-7)
    by (simp add: hva_plus)
qed

lemma clients_same_load:
  assumes "clients_inv fs free lv B h" "clients_inv fs' free' lv' B' h'" "same_words (held lv0 + C) fs h fs' h'"
    and "(x, k) \<in> set lv0" "set lv0 \<subseteq> set lv" "set lv0 \<subseteq> set lv'" "off + 8 \<le> ly_size k"
  shows "load_word (hva x + of_nat off) h' = load_word (hva x + of_nat off) h \<and> load_word (hva x + of_nat off) h \<noteq> None"
proof (rule same_load [OF _ _ assms(3)])
  show "heap_backed fs h" "heap_backed fs' h'" using assms(1,2) heap_invD(1) by (auto simp: clients_inv_def)
  show "(x, block_len k) \<in># held lv0 + C" using assms(4) by (force simp: held_def)
  have "block_ok (x, k)" using assms(1,4,5) by (auto simp: clients_inv_def list_all_iff)
  then have "ly_size k \<le> block_len k" by (intro layout_fits(1)) (simp_all add: block_ok_def)
  with assms(7) show "off + 8 \<le> block_len k" by simp
  show "x + block_len k \<le> 4096 * length fs" "x + block_len k \<le> 4096 * length fs'"
    using clients_below(1) [OF assms(1)] clients_below(1) [OF assms(2)] assms(4-6) by blast+
qed

text \<open>In every state clients can bring the heap to, \<open>alloc\<close> succeeds for an alignment up to a page while
  there are frames for the new pages and room in the window, and \<open>dealloc\<close> of a held block succeeds; neither
  changes a word of the other blocks that are held, or makes it fault.\<close>

theorem heap_operations_succeed:
  assumes "init_heap (heap_new mem m) = Some h0" "mmu_wf m" "36 \<le> free_frames m"
    and "heap_step\<^sup>*\<^sup>* (h0, []) (h, live)"
  shows "(layout_ok l \<and> ly_align l \<le> 4096 \<and> 4 * pages_needed l \<le> free_frames (hp_mmu h)
        \<and> unat (hp_size h) + 4096 * pages_needed l \<le> 2 ^ 39 \<longrightarrow>
      (\<exists>p h'. heap_alloc l h = Some (p, h') \<and> p \<noteq> 0 \<and> (\<forall>(q, k) \<in> set live. \<forall>off. off + 8 \<le> ly_size k \<longrightarrow>
         load_word (q + of_nat off) h' = load_word (q + of_nat off) h \<and> load_word (q + of_nat off) h \<noteq> None)))
    \<and> ((p, l) \<in> set live \<longrightarrow>
      (\<exists>h'. heap_dealloc p l h = Some h' \<and> (\<forall>(q, k) \<in> set (remove1 (p, l) live). \<forall>off. off + 8 \<le> ly_size k \<longrightarrow>
         load_word (q + of_nat off) h' = load_word (q + of_nat off) h \<and> load_word (q + of_nat off) h \<noteq> None)))"
proof -
  obtain fs free lv B where live: "live = live_of lv" and inv: "clients_inv fs free lv B h"
    using clients_reachable [OF assms(4,1,2,3)] by blast
  show ?thesis
  proof (rule conjI)
  show "layout_ok l \<and> ly_align l \<le> 4096 \<and> 4 * pages_needed l \<le> free_frames (hp_mmu h)
        \<and> unat (hp_size h) + 4096 * pages_needed l \<le> 2 ^ 39 \<longrightarrow>
      (\<exists>p h'. heap_alloc l h = Some (p, h') \<and> p \<noteq> 0 \<and> (\<forall>(q, k) \<in> set live. \<forall>off. off + 8 \<le> ly_size k \<longrightarrow>
         load_word (q + of_nat off) h' = load_word (q + of_nat off) h \<and> load_word (q + of_nat off) h \<noteq> None))"
  proof (intro impI, elim conjE)
    assume "layout_ok l" "ly_align l \<le> 4096" "4 * pages_needed l \<le> free_frames (hp_mmu h)"
      "unat (hp_size h) + 4096 * pages_needed l \<le> 2 ^ 39"
    from clients_alloc [OF inv this] obtain x fs' free' h' where
      a: "heap_alloc l h = Some (hva x, h')" "hva x \<noteq> 0" "clients_inv fs' free' ((x, l) # lv) B h'"
        "same_words (held lv + B) fs h fs' h'"
      by (elim exE conjE) (rule that; assumption)
    show "\<exists>p h'. heap_alloc l h = Some (p, h') \<and> p \<noteq> 0 \<and> (\<forall>(q, k) \<in> set live. \<forall>off. off + 8 \<le> ly_size k \<longrightarrow>
         load_word (q + of_nat off) h' = load_word (q + of_nat off) h \<and> load_word (q + of_nat off) h \<noteq> None)"
      using a(1,2) clients_same_load [OF inv a(3,4)] unfolding live live_of_def by fastforce
  qed
  show "(p, l) \<in> set live \<longrightarrow>
      (\<exists>h'. heap_dealloc p l h = Some h' \<and> (\<forall>(q, k) \<in> set (remove1 (p, l) live). \<forall>off. off + 8 \<le> ly_size k \<longrightarrow>
         load_word (q + of_nat off) h' = load_word (q + of_nat off) h \<and> load_word (q + of_nat off) h \<noteq> None))"
  proof
    assume "(p, l) \<in> set live"
    then obtain x where x: "p = hva x" "(x, l) \<in> set lv" using live_of_mem [OF inv] live by blast
    from clients_dealloc [OF inv x(2)] obtain free' B' h' where
      d: "heap_dealloc (hva x) l h = Some h'" "clients_inv fs free' (remove1 (x, l) lv) B' h'"
        "same_words (held (remove1 (x, l) lv)) fs h fs h'"
      by (elim exE conjE) (rule that; assumption)
    have rest: "remove1 (p, l) live = live_of (remove1 (x, l) lv)" using live_of_remove1 [OF inv x(2)] x(1) live by simp
    have "same_words (held (remove1 (x, l) lv) + {#}) fs h fs h'" using d(3) by simp
    from clients_same_load [OF inv d(2) this _ set_remove1_subset order.refl]
    show "\<exists>h'. heap_dealloc p l h = Some h' \<and> (\<forall>(q, k) \<in> set (remove1 (p, l) live). \<forall>off. off + 8 \<le> ly_size k \<longrightarrow>
         load_word (q + of_nat off) h' = load_word (q + of_nat off) h \<and> load_word (q + of_nat off) h \<noteq> None)"
      using d(1) x(1) unfolding rest live_of_def by fastforce
  qed
  qed
qed


text \<open>A heap on the tables of an example board, and a first block of 100 bytes.\<close>

definition example_layout :: layout where
  "example_layout = \<lparr>ly_size = 100, ly_align = 8\<rparr>"

lemma example_heap:
  "\<exists>m h0 p h. setup_page_tables example_mmu = Some m \<and> mmu_wf m \<and> 36 \<le> free_frames m
    \<and> init_heap (heap_new (\<lambda>a. 0) m) = Some h0 \<and> heap_alloc example_layout h0 = Some (p, h)
    \<and> heap_step\<^sup>*\<^sup>* (h0, []) (h, [(p, example_layout)])"
proof -
  obtain m where m: "setup_page_tables example_mmu = Some m" "mmu_wf m" "89 \<le> free_frames m" using example_tables by blast
  then have "36 \<le> free_frames m" by simp
  from init_heap_inv [OF m(2) this, where mem = "\<lambda>a. 0"] obtain fs free h0 where
    h0: "init_heap (heap_new (\<lambda>a. 0) m) = Some h0" "heap_inv fs free {#} h0" "length fs = 9" "free_frames m \<le> free_frames (hp_mmu h0) + 36"
    by (elim exE conjE) (rule that; assumption)
  have l: "layout_ok example_layout" "ly_align example_layout \<le> 4096"
    by (auto simp: layout_ok_def example_layout_def intro!: exI [of _ 3])
  have "head_index example_layout < 9"
    by (simp add: head_index_need layout_need_def example_layout_def)
  then have need: "pages_needed example_layout = 1" by (simp add: pages_needed_def)
  have "unat (hp_size h0) = 36864" using heap_invD(1) [OF h0(2)] h0(3) by (simp add: heap_backed_def)
  then have room: "4 * pages_needed example_layout \<le> free_frames (hp_mmu h0)"
    "unat (hp_size h0) + 4096 * pages_needed example_layout \<le> 2 ^ 39"
    using need h0(4) m(3) by simp_all
  have "clients_inv fs free [] {#} h0" using h0(2) by (simp add: clients_inv_def)
  from clients_alloc [OF this l room] obtain x h where a: "heap_alloc example_layout h0 = Some (hva x, h)"
    by (elim exE conjE) (rule that; assumption)
  from step_alloc [OF l(1) room a, of "[]"] have "heap_step\<^sup>*\<^sup>* (h0, []) (h, [(hva x, example_layout)])" by simp
  with m(1,2) h0(1) a \<open>36 \<le> free_frames m\<close> show ?thesis by (intro exI conjI)
qed


theorem heap_operations_succeed_witness:
  "\<exists>m h0 p h h'. init_heap (heap_new (\<lambda>a. 0) m) = Some h0 \<and> heap_step\<^sup>*\<^sup>* (h0, []) (h, [(p, example_layout)])
     \<and> heap_dealloc p example_layout h = Some h'"
proof -
  obtain m h0 p h where e: "mmu_wf m" "36 \<le> free_frames m" "init_heap (heap_new (\<lambda>a. 0) m) = Some h0"
    "heap_step\<^sup>*\<^sup>* (h0, []) (h, [(p, example_layout)])" using example_heap by (elim exE conjE) (rule that; assumption)
  from heap_operations_succeed [OF e(3,1,2,4), of example_layout p]
  obtain h' where "heap_dealloc p example_layout h = Some h'" by auto
  with e(3,4) show ?thesis by (intro exI conjI)
qed

end
