(* ===== verification/Terminal.thy ===== *)
theory Terminal
  imports Device_Tree
begin

text \<open>The system terminal (\<open>kernel/terminal.rs\<close>): input and output devices, the line discipline with its echo,
  the listeners of lines and the choice of the devices at boot. Devices are parameters: an output device
  \<open>'o\<close>, an input device \<open>'i\<close> and a listener \<open>'l\<close> act on a machine \<open>'m\<close>.\<close>

datatype terminal_error = NoInputDevice | NoOutputDevice | AlreadyInitialized

record ('o, 'm) output_ops =
  od_id :: "'o \<Rightarrow> string"
  od_write :: "'o \<Rightarrow> u8 list \<Rightarrow> 'm \<Rightarrow> 'm"

record ('i, 'm) input_ops =
  in_id :: "'i \<Rightarrow> string"
  in_read :: "'i \<Rightarrow> 'm \<Rightarrow> u8 list \<times> 'm"

text \<open>\<open>SystemTerminal\<close> with its \<open>TerminalState\<close>.\<close>

record ('o, 'i, 'l) terminal =
  tt_output :: 'o
  tt_inputs :: "'i list"
  tt_line_buffer :: "u8 list"
  tt_echo :: bool
  tt_listeners :: "'l list"

text \<open>The statics of the module and the machine.\<close>

record ('o, 'i, 'l, 'm) term_world =
  tw_input_devices :: "'i list"
  tw_output_devices :: "'o list"
  tw_terminal :: "('o, 'i, 'l) terminal option"
  tw_machine :: 'm


section \<open>Registration and output\<close>

definition register_input :: "'i \<Rightarrow> ('o, 'i, 'l, 'm, 'z) term_world_scheme \<Rightarrow> ('o, 'i, 'l, 'm, 'z) term_world_scheme" where
  "register_input dev w = w\<lparr>tw_input_devices := tw_input_devices w @ [dev]\<rparr>"

definition register_output :: "'o \<Rightarrow> ('o, 'i, 'l, 'm, 'z) term_world_scheme \<Rightarrow> ('o, 'i, 'l, 'm, 'z) term_world_scheme" where
  "register_output dev w = w\<lparr>tw_output_devices := tw_output_devices w @ [dev]\<rparr>"

definition write_to_secondary_outputs ::
    "('o, 'm) output_ops \<Rightarrow> string \<Rightarrow> u8 list \<Rightarrow> 'o list \<Rightarrow> 'm \<Rightarrow> 'm" where
  "write_to_secondary_outputs ops primary_id bytes outputs m =
     fold (\<lambda>out m. if od_id ops out \<noteq> primary_id then od_write ops out bytes m else m) outputs m"

definition terminal_write :: "('o, 'm) output_ops \<Rightarrow> ('o, 'i, 'l) terminal \<Rightarrow> u8 list
    \<Rightarrow> ('o, 'i, 'l, 'm, 'z) term_world_scheme \<Rightarrow> ('o, 'i, 'l, 'm, 'z) term_world_scheme" where
  "terminal_write ops t bytes w =
     w\<lparr>tw_machine := write_to_secondary_outputs ops (od_id ops (tt_output t)) bytes (tw_output_devices w)
                      (od_write ops (tt_output t) bytes (tw_machine w))\<rparr>"

definition add_listener :: "'l \<Rightarrow> ('o, 'i, 'l) terminal \<Rightarrow> ('o, 'i, 'l) terminal" where
  "add_listener l t = t\<lparr>tt_listeners := tt_listeners t @ [l]\<rparr>"


section \<open>The line discipline\<close>

definition is_newline :: "u8 \<Rightarrow> bool" where "is_newline b \<longleftrightarrow> b = 0x0a \<or> b = 0x0d"
definition is_erase :: "u8 \<Rightarrow> bool" where "is_erase b \<longleftrightarrow> b = 0x08 \<or> b = 0x7f"
definition is_printable :: "u8 \<Rightarrow> bool" where "is_printable b \<longleftrightarrow> 0x20 \<le> b \<and> b < 0x7f"

definition echo_bytes :: "('o, 'm) output_ops \<Rightarrow> ('o, 'i, 'l) terminal \<Rightarrow> u8 list
    \<Rightarrow> ('o, 'i, 'l, 'm, 'z) term_world_scheme \<Rightarrow> ('o, 'i, 'l, 'm, 'z) term_world_scheme" where
  "echo_bytes ops t bytes w = (if tt_echo t then terminal_write ops t bytes w else w)"

text \<open>\<open>line_discipline\<close>: the line that is complete, if any, and the terminal.\<close>

definition line_discipline :: "('o, 'm) output_ops \<Rightarrow> u8 \<Rightarrow> ('o, 'i, 'l) terminal \<Rightarrow> ('o, 'i, 'l, 'm, 'z) term_world_scheme
    \<Rightarrow> u8 list option \<times> ('o, 'i, 'l) terminal \<times> ('o, 'i, 'l, 'm, 'z) term_world_scheme" where
  "line_discipline ops byte t w =
     (if is_newline byte then
        (Some (tt_line_buffer t), t\<lparr>tt_line_buffer := []\<rparr>, echo_bytes ops t [0x0d, 0x0a] w)
      else if is_erase byte then
        (if tt_line_buffer t \<noteq> [] then
           (None, t\<lparr>tt_line_buffer := butlast (tt_line_buffer t)\<rparr>, echo_bytes ops t [0x08, 0x20, 0x08] w)
         else (None, t, w))
      else if is_printable byte then
        (None, t\<lparr>tt_line_buffer := tt_line_buffer t @ [byte]\<rparr>, echo_bytes ops t [byte] w)
      else (None, t, w))"

text \<open>A byte of input: the terminal's state is updated, and a complete line goes to the listeners, which act
  on the world with the terminal in it.\<close>

fun notify_listeners :: "('l \<Rightarrow> u8 list \<Rightarrow> 'w \<Rightarrow> 'w option) \<Rightarrow> 'l list \<Rightarrow> u8 list \<Rightarrow> 'w \<Rightarrow> 'w option" where
  "notify_listeners on_line [] line w = Some w"
| "notify_listeners on_line (l # ls) line w = do {
     w' \<leftarrow> on_line l line w;
     notify_listeners on_line ls line w'
   }"

definition input_byte :: "('o, 'm) output_ops
    \<Rightarrow> ('l \<Rightarrow> u8 list \<Rightarrow> ('o, 'i, 'l, 'm, 'z) term_world_scheme \<Rightarrow> ('o, 'i, 'l, 'm, 'z) term_world_scheme option)
    \<Rightarrow> u8 \<Rightarrow> ('o, 'i, 'l, 'm, 'z) term_world_scheme \<Rightarrow> ('o, 'i, 'l, 'm, 'z) term_world_scheme option" where
  "input_byte ops on_line byte w = do {
     t \<leftarrow> tw_terminal w;
     let (line, t', w') = line_discipline ops byte t w;
     let w1 = w'\<lparr>tw_terminal := Some t'\<rparr>;
     (case line of None \<Rightarrow> Some w1 | Some l \<Rightarrow> notify_listeners on_line (tt_listeners t') l w1)
   }"

fun input_bytes :: "('o, 'm) output_ops
    \<Rightarrow> ('l \<Rightarrow> u8 list \<Rightarrow> ('o, 'i, 'l, 'm, 'z) term_world_scheme \<Rightarrow> ('o, 'i, 'l, 'm, 'z) term_world_scheme option)
    \<Rightarrow> u8 list \<Rightarrow> ('o, 'i, 'l, 'm, 'z) term_world_scheme \<Rightarrow> ('o, 'i, 'l, 'm, 'z) term_world_scheme option" where
  "input_bytes ops on_line [] w = Some w"
| "input_bytes ops on_line (b # bs) w = do {
     w' \<leftarrow> input_byte ops on_line b w;
     input_bytes ops on_line bs w'
   }"

fun poll_inputs :: "('o, 'm) output_ops \<Rightarrow> ('i, 'm) input_ops
    \<Rightarrow> ('l \<Rightarrow> u8 list \<Rightarrow> ('o, 'i, 'l, 'm, 'z) term_world_scheme \<Rightarrow> ('o, 'i, 'l, 'm, 'z) term_world_scheme option)
    \<Rightarrow> 'i list \<Rightarrow> ('o, 'i, 'l, 'm, 'z) term_world_scheme \<Rightarrow> ('o, 'i, 'l, 'm, 'z) term_world_scheme option" where
  "poll_inputs ops ins on_line [] w = Some w"
| "poll_inputs ops ins on_line (i # is) w = do {
     let (raw_bytes, m) = in_read ins i (tw_machine w);
     w' \<leftarrow> input_bytes ops on_line raw_bytes (w\<lparr>tw_machine := m\<rparr>);
     poll_inputs ops ins on_line is w'
   }"

definition poll :: "('o, 'm) output_ops \<Rightarrow> ('i, 'm) input_ops
    \<Rightarrow> ('l \<Rightarrow> u8 list \<Rightarrow> ('o, 'i, 'l, 'm, 'z) term_world_scheme \<Rightarrow> ('o, 'i, 'l, 'm, 'z) term_world_scheme option)
    \<Rightarrow> ('o, 'i, 'l, 'm, 'z) term_world_scheme \<Rightarrow> ('o, 'i, 'l, 'm, 'z) term_world_scheme option" where
  "poll ops ins on_line w = do {
     t \<leftarrow> tw_terminal w;
     poll_inputs ops ins on_line (tt_inputs t) w
   }"


section \<open>Choosing the devices\<close>

definition normalize_chosen_path :: "string \<Rightarrow> string" where
  "normalize_chosen_path path = takeWhile (\<lambda>c. c \<noteq> CHR '':'') path"

text \<open>\<open>find_input_for_path\<close> and \<open>find_output_for_path\<close>: the device named by the node's own path.\<close>

definition find_for_path :: "device_tree \<Rightarrow> ('d \<Rightarrow> string) \<Rightarrow> 'd list \<Rightarrow> string option \<Rightarrow> 'd option option" where
  "find_for_path dt dev_id devs path =
     (case path of
        None \<Rightarrow> Some None
      | Some p \<Rightarrow>
          (case node_by_path dt (normalize_chosen_path p) of
             None \<Rightarrow> Some None
           | Some n \<Rightarrow> do {
               own \<leftarrow> node_path dt n;
               Some (List.find (\<lambda>d. dev_id d = own) devs)
             }))"

definition find_dedicated :: "('d \<Rightarrow> string) \<Rightarrow> 'd list \<Rightarrow> ('e \<Rightarrow> string) \<Rightarrow> 'e list \<Rightarrow> 'd option" where
  "find_dedicated dev_id devs other_id others =
     List.find (\<lambda>d. list_all (\<lambda>e. other_id e \<noteq> dev_id d) others) devs"

definition or_else :: "'a option \<Rightarrow> 'a option \<Rightarrow> 'a option" where
  "or_else a b = (case a of None \<Rightarrow> b | Some _ \<Rightarrow> a)"

definition first_of :: "'a list \<Rightarrow> 'a option" where
  "first_of xs = (case xs of [] \<Rightarrow> None | x # _ \<Rightarrow> Some x)"

definition chosen_paths :: "device_tree \<Rightarrow> (string option \<times> string option) option" where
  "chosen_paths dt =
     (case dt_chosen dt of
        None \<Rightarrow> Some (None, None)
      | Some c \<Rightarrow> do {
          out \<leftarrow> node_stdout_path (dt_node_at dt c);
          inp \<leftarrow> node_stdin_path (dt_node_at dt c);
          Some (out, inp)
        })"

text \<open>The choice of \<open>init\<close>, from the devices found for the two paths.\<close>

definition choose_input :: "('o, 'm) output_ops \<Rightarrow> ('i, 'm) input_ops \<Rightarrow> 'o list \<Rightarrow> 'i list \<Rightarrow> 'i option \<Rightarrow> 'i option \<Rightarrow> 'i option" where
  "choose_input ops ins outs inps stdout_input stdin_input =
     or_else stdin_input (or_else (find_dedicated (in_id ins) inps (od_id ops) outs)
       (or_else stdout_input (first_of inps)))"

definition choose_output :: "('o, 'm) output_ops \<Rightarrow> ('i, 'm) input_ops \<Rightarrow> 'o list \<Rightarrow> 'i list \<Rightarrow> 'o option \<Rightarrow> 'o option \<Rightarrow> 'i option
    \<Rightarrow> 'o option" where
  "choose_output ops ins outs inps stdout_output stdin_output system_input =
     (let matching = Option.bind system_input (\<lambda>i. List.find (\<lambda>d. od_id ops d = in_id ins i) outs);
          dedicated_output = find_dedicated (od_id ops) outs (in_id ins) inps
      in if matching \<noteq> None
         then or_else stdout_output (or_else matching (or_else stdin_output (or_else dedicated_output (first_of outs))))
         else or_else dedicated_output (or_else stdout_output (or_else stdin_output (or_else matching (first_of outs)))))"

definition terminal_init :: "('o, 'm) output_ops \<Rightarrow> ('i, 'm) input_ops \<Rightarrow> device_tree option \<Rightarrow> ('o, 'i, 'l, 'm, 'z) term_world_scheme
    \<Rightarrow> ((terminal_error + unit) \<times> ('o, 'i, 'l, 'm, 'z) term_world_scheme) option" where
  "terminal_init ops ins devicetree w =
     (let outs = tw_output_devices w; inps = tw_input_devices w
      in if outs = [] then Some (Inl NoOutputDevice, w)
         else if inps = [] then Some (Inl NoInputDevice, w)
         else do {
           dt \<leftarrow> devicetree;
           (stdout_path, stdin_path) \<leftarrow> chosen_paths dt;
           stdout_output \<leftarrow> find_for_path dt (od_id ops) outs stdout_path;
           stdout_input \<leftarrow> find_for_path dt (in_id ins) inps stdout_path;
           stdin_output \<leftarrow> find_for_path dt (od_id ops) outs stdin_path;
           stdin_input \<leftarrow> find_for_path dt (in_id ins) inps stdin_path;
           let system_input = choose_input ops ins outs inps stdout_input stdin_input;
           output \<leftarrow> choose_output ops ins outs inps stdout_output stdin_output system_input;
           (case tw_terminal w of
              Some _ \<Rightarrow> Some (Inl AlreadyInitialized, w)
            | None \<Rightarrow> Some (Inr (), w\<lparr>tw_terminal := Some \<lparr>tt_output = output, tt_inputs = inps, tt_line_buffer = [],
                                     tt_echo = True, tt_listeners = []\<rparr>\<rparr>))
         })"

section \<open>Editing lines\<close>

text \<open>What a sequence of keys means, apart from the terminal: the keys between two ends of line edit a line
  from scratch.\<close>

definition edit_key :: "u8 list \<Rightarrow> u8 \<Rightarrow> u8 list" where
  "edit_key line b = (if is_erase b then butlast line else if is_printable b then line @ [b] else line)"

definition edit_line :: "u8 list \<Rightarrow> u8 list" where
  "edit_line keys = foldl edit_key [] keys"

fun split_newlines :: "u8 list \<Rightarrow> u8 list list" where
  "split_newlines [] = [[]]"
| "split_newlines (b # bs) =
     (if is_newline b then [] # split_newlines bs
      else (b # hd (split_newlines bs)) # tl (split_newlines bs))"

lemma split_newlines_not_Nil [simp]: "split_newlines bs \<noteq> []"
  by (induction bs) auto

lemma split_newlines_snoc: "split_newlines (bs @ [b]) =
    (if is_newline b then split_newlines bs @ [[]]
     else butlast (split_newlines bs) @ [last (split_newlines bs) @ [b]])"
proof (induction bs)
  case (Cons x xs)
  obtain l ls where "split_newlines xs = l # ls" by (cases "split_newlines xs") simp_all
  with Cons show ?case by auto
qed simp

text \<open>A screen with a cursor: a carriage return and a backspace move it, a line feed starts a new line, and
  every other byte is written over what is there.\<close>

record screen =
  scr_lines :: "u8 list list"
  scr_line :: "u8 list"
  scr_cursor :: nat

definition empty_screen :: screen where
  "empty_screen = \<lparr>scr_lines = [], scr_line = [], scr_cursor = 0\<rparr>"

definition screen_byte :: "screen \<Rightarrow> u8 \<Rightarrow> screen" where
  "screen_byte s b =
     (if b = 0x0d then s\<lparr>scr_cursor := 0\<rparr>
      else if b = 0x0a then s\<lparr>scr_lines := scr_lines s @ [scr_line s], scr_line := []\<rparr>
      else if b = 0x08 then s\<lparr>scr_cursor := scr_cursor s - 1\<rparr>
      else s\<lparr>scr_line := (if scr_cursor s < length (scr_line s) then (scr_line s)[scr_cursor s := b] else scr_line s @ [b]),
             scr_cursor := scr_cursor s + 1\<rparr>)"

definition screen_bytes :: "u8 list \<Rightarrow> screen" where
  "screen_bytes bs = foldl screen_byte empty_screen bs"

definition padded :: "u8 list \<Rightarrow> u8 list \<Rightarrow> bool" where
  "padded shown line \<longleftrightarrow> (\<exists>k. shown = line @ replicate k 0x20)"

definition screen_shows :: "screen \<Rightarrow> u8 list list \<Rightarrow> u8 list \<Rightarrow> bool" where
  "screen_shows s lines line \<longleftrightarrow> list_all2 padded (scr_lines s) lines \<and> padded (scr_line s) line \<and> scr_cursor s = length line"

lemma screen_bytes_append: "screen_bytes (as @ bs) = foldl screen_byte (screen_bytes as) bs"
  by (simp add: screen_bytes_def)

lemma screen_shows_newline:
  "screen_shows s lines line \<Longrightarrow> screen_shows (foldl screen_byte s [0x0d, 0x0a]) (lines @ [line]) []"
  by (auto simp: screen_shows_def screen_byte_def padded_def intro!: list_all2_appendI)

lemma screen_shows_printable:
  assumes "screen_shows s lines line" "is_printable b"
  shows "screen_shows (foldl screen_byte s [b]) lines (line @ [b])"
proof -
  obtain k where k: "scr_line s = line @ replicate k 0x20" using assms(1) by (auto simp: screen_shows_def padded_def)
  have "b \<noteq> 0x0d" "b \<noteq> 0x0a" "b \<noteq> 0x08" using assms(2) by (auto simp: is_printable_def)
  moreover have "padded (if length line < length (scr_line s) then (scr_line s)[length line := b] else scr_line s @ [b]) (line @ [b])"
  proof (cases k)
    case 0
    with k show ?thesis by (auto simp: padded_def intro: exI [of _ 0])
  next
    case (Suc j)
    with k show ?thesis by (auto simp: padded_def list_update_append intro: exI [of _ j])
  qed
  ultimately show ?thesis using assms(1) by (auto simp: screen_shows_def screen_byte_def split: if_split_asm)
qed

lemma screen_shows_erase:
  assumes "screen_shows s lines line" "line \<noteq> []"
  shows "screen_shows (foldl screen_byte s [0x08, 0x20, 0x08]) lines (butlast line)"
proof -
  obtain k where k: "scr_line s = line @ replicate k 0x20" using assms(1) by (auto simp: screen_shows_def padded_def)
  obtain pre b where line: "line = pre @ [b]" using assms(2) by (metis append_butlast_last_id)
  have "(scr_line s)[length pre := 0x20] = pre @ replicate (Suc k) 0x20"
    unfolding k line by (simp add: list_update_append)
  then have "padded ((scr_line s)[length pre := 0x20]) pre" unfolding padded_def by blast
  moreover have "length pre < length (scr_line s)" by (simp add: k line)
  ultimately show ?thesis using assms(1) by (simp add: screen_shows_def screen_byte_def line)
qed


section \<open>The terminal edits lines and shows them\<close>

text \<open>Devices that keep what is written to them, by their id, and a listener that keeps the lines.\<close>

definition log_output :: "('o \<Rightarrow> string) \<Rightarrow> ('o, string \<Rightarrow> u8 list) output_ops" where
  "log_output name = \<lparr>od_id = name, od_write = (\<lambda>out bytes m. m(name out := m (name out) @ bytes))\<rparr>"

record ('o, 'i, 'l, 'm) lines_world = "('o, 'i, 'l, 'm) term_world" +
  lw_lines :: "u8 list list"

definition keep_line :: "'l \<Rightarrow> u8 list \<Rightarrow> ('o, 'i, 'l, 'm) lines_world \<Rightarrow> ('o, 'i, 'l, 'm) lines_world option" where
  "keep_line l line w = Some (w\<lparr>lw_lines := lw_lines w @ [line]\<rparr>)"

lemma log_output_simps [simp]: "od_id (log_output name) = name"
  "od_write (log_output name) out bytes m = m(name out := m (name out) @ bytes)"
  by (simp_all only: log_output_def output_ops.simps)

lemma write_to_secondary_log:
  assumes "distinct (map name outs)"
  shows "write_to_secondary_outputs (log_output name) primary bytes outs m
    = (\<lambda>n. if n \<noteq> primary \<and> n \<in> name ` set outs then m n @ bytes else m n)"
  using assms
proof (induction outs arbitrary: m)
  case (Cons out outs)
  let ?m = "if name out \<noteq> primary then m(name out := m (name out) @ bytes) else m"
  have fresh: "name out \<notin> name ` set outs" using Cons.prems by simp
  have "write_to_secondary_outputs (log_output name) primary bytes (out # outs) m
      = write_to_secondary_outputs (log_output name) primary bytes outs ?m"
    by (simp only: write_to_secondary_outputs_def fold_Cons comp_def log_output_simps)
  also have "\<dots> = (\<lambda>n. if n \<noteq> primary \<and> n \<in> name ` set outs then ?m n @ bytes else ?m n)"
    using Cons.prems by (intro Cons.IH) simp
  also have "\<dots> = (\<lambda>n. if n \<noteq> primary \<and> n \<in> name ` set (out # outs) then m n @ bytes else m n)"
    using fresh by (intro ext) (cases "name out = primary"; auto)
  finally show ?case .
qed (simp add: write_to_secondary_outputs_def)

definition terminal_ids :: "('o \<Rightarrow> string) \<Rightarrow> ('o, 'i, 'l) terminal \<Rightarrow> 'o list \<Rightarrow> string set" where
  "terminal_ids name t outs = insert (name (tt_output t)) (name ` set outs)"

text \<open>Every device of the terminal gets the bytes once, the main one included.\<close>

lemma terminal_write_log:
  assumes "distinct (map name (tw_output_devices w))" "n \<in> terminal_ids name t (tw_output_devices w)"
  shows "tw_machine (terminal_write (log_output name) t bytes w) n = tw_machine w n @ bytes"
  using assms by (auto simp: terminal_write_def terminal_ids_def write_to_secondary_log)

lemma terminal_write_fields [simp]:
  "tw_output_devices (terminal_write ops t bytes w) = tw_output_devices w"
  "tw_terminal (terminal_write ops t bytes w) = tw_terminal w"
  "term_world.more (terminal_write ops t bytes w) = term_world.more w"
  by (simp_all add: terminal_write_def)

lemma lw_lines_write [simp]: "lw_lines (terminal_write ops t bytes w) = lw_lines w"
  by (simp add: terminal_write_def)

text \<open>The invariant over the bytes read so far.\<close>

definition edited :: "('o \<Rightarrow> string) \<Rightarrow> string set \<Rightarrow> u8 list \<Rightarrow> ('o, 'i, 'l, string \<Rightarrow> u8 list) lines_world \<Rightarrow> bool" where
  "edited name ids bs w \<longleftrightarrow> (\<exists>t. tw_terminal w = Some t \<and> tt_echo t \<and> length (tt_listeners t) = 1
     \<and> ids = terminal_ids name t (tw_output_devices w) \<and> distinct (map name (tw_output_devices w))
     \<and> tt_line_buffer t = edit_line (last (split_newlines bs)) \<and> lw_lines w = map edit_line (butlast (split_newlines bs))
     \<and> (\<forall>n \<in> ids. screen_shows (screen_bytes (tw_machine w n)) (lw_lines w) (tt_line_buffer t)))"

lemma is_newline_cases: "is_newline b \<Longrightarrow> \<not> is_erase b" "is_newline b \<Longrightarrow> \<not> is_printable b" "is_erase b \<Longrightarrow> \<not> is_printable b"
  by (auto simp: is_newline_def is_erase_def is_printable_def)

lemma edited_step:
  assumes "edited name ids bs w"
  shows "\<exists>w'. input_byte (log_output name) keep_line b w = Some w' \<and> edited name ids (bs @ [b]) w'"
proof -
  obtain t where t: "tw_terminal w = Some t" "tt_echo t" "length (tt_listeners t) = 1"
    "ids = terminal_ids name t (tw_output_devices w)" "distinct (map name (tw_output_devices w))"
    "tt_line_buffer t = edit_line (last (split_newlines bs))" "lw_lines w = map edit_line (butlast (split_newlines bs))"
    and shows_: "\<And>n. n \<in> ids \<Longrightarrow> screen_shows (screen_bytes (tw_machine w n)) (lw_lines w) (tt_line_buffer t)"
    using assms by (auto simp: edited_def)
  obtain l where l: "tt_listeners t = [l]" using t(3) by (auto simp: length_Suc_conv)
  note logs = terminal_write_log [OF t(5)]
  have all: "map edit_line (split_newlines bs) = lw_lines w @ [tt_line_buffer t]"
    by (metis append_butlast_last_id list.simps(8,9) map_append split_newlines_not_Nil t(6,7))
  consider "is_newline b" | "is_erase b" "tt_line_buffer t \<noteq> []" | "is_erase b" "tt_line_buffer t = []"
    | "is_printable b" | "\<not> is_newline b" "\<not> is_erase b" "\<not> is_printable b" by blast
  then show ?thesis
  proof cases
    case 1
    let ?t = "t\<lparr>tt_line_buffer := []\<rparr>"
    let ?w = "terminal_write (log_output name) t [0x0d, 0x0a] w\<lparr>tw_terminal := Some ?t, lw_lines := lw_lines w @ [tt_line_buffer t]\<rparr>"
    have "input_byte (log_output name) keep_line b w = Some ?w"
      using 1 t(1,2) l by (simp add: input_byte_def line_discipline_def echo_bytes_def keep_line_def)
    moreover have "screen_shows (screen_bytes (tw_machine ?w n)) (lw_lines ?w) []" if "n \<in> ids" for n
      using screen_shows_newline [OF shows_ [OF that]] logs [of n t] that t(4) by (simp add: screen_bytes_append)
    then have "edited name ids (bs @ [b]) ?w"
      unfolding edited_def using 1 t all by (auto simp: split_newlines_snoc terminal_ids_def edit_line_def)
    ultimately show ?thesis by blast
  next
    case 2
    let ?t = "t\<lparr>tt_line_buffer := butlast (tt_line_buffer t)\<rparr>"
    let ?w = "terminal_write (log_output name) t [0x08, 0x20, 0x08] w\<lparr>tw_terminal := Some ?t\<rparr>"
    have "input_byte (log_output name) keep_line b w = Some ?w"
      using 2 t(1,2) is_newline_cases by (auto simp: input_byte_def line_discipline_def echo_bytes_def)
    moreover have "screen_shows (screen_bytes (tw_machine ?w n)) (lw_lines ?w) (butlast (tt_line_buffer t))" if "n \<in> ids" for n
      using screen_shows_erase [OF shows_ [OF that] 2(2)] logs [of n t] that t(4) by (simp add: screen_bytes_append)
    then have "edited name ids (bs @ [b]) ?w"
      unfolding edited_def using 2 t is_newline_cases
      by (auto simp: split_newlines_snoc terminal_ids_def edit_line_def edit_key_def)
    ultimately show ?thesis by blast
  next
    case 3
    let ?w = "w\<lparr>tw_terminal := Some t\<rparr>"
    have "input_byte (log_output name) keep_line b w = Some ?w"
      using 3 t(1) is_newline_cases by (auto simp: input_byte_def line_discipline_def)
    moreover have "edited name ids (bs @ [b]) ?w"
      unfolding edited_def using 3 t shows_ is_newline_cases
      by (auto simp: split_newlines_snoc terminal_ids_def edit_line_def edit_key_def)
    ultimately show ?thesis by blast
  next
    case 4
    let ?t = "t\<lparr>tt_line_buffer := tt_line_buffer t @ [b]\<rparr>"
    let ?w = "terminal_write (log_output name) t [b] w\<lparr>tw_terminal := Some ?t\<rparr>"
    have "input_byte (log_output name) keep_line b w = Some ?w"
      using 4 t(1,2) is_newline_cases by (auto simp: input_byte_def line_discipline_def echo_bytes_def)
    moreover have "screen_shows (screen_bytes (tw_machine ?w n)) (lw_lines ?w) (tt_line_buffer t @ [b])" if "n \<in> ids" for n
      using screen_shows_printable [OF shows_ [OF that] 4] logs [of n t] that t(4) by (simp add: screen_bytes_append)
    then have "edited name ids (bs @ [b]) ?w"
      unfolding edited_def using 4 t is_newline_cases
      by (auto simp: split_newlines_snoc terminal_ids_def edit_line_def edit_key_def)
    ultimately show ?thesis by blast
  next
    case 5
    let ?w = "w\<lparr>tw_terminal := Some t\<rparr>"
    have "input_byte (log_output name) keep_line b w = Some ?w"
      using 5 t(1) by (auto simp: input_byte_def line_discipline_def)
    moreover have "edited name ids (bs @ [b]) ?w"
      unfolding edited_def using 5 t shows_
      by (auto simp: split_newlines_snoc terminal_ids_def edit_line_def edit_key_def)
    ultimately show ?thesis by blast
  qed
qed


lemma edited_bytes:
  assumes "edited name ids bs w"
  shows "\<exists>w'. input_bytes (log_output name) keep_line cs w = Some w' \<and> edited name ids (bs @ cs) w'"
  using assms
proof (induction cs arbitrary: bs w)
  case (Cons c cs)
  from edited_step [OF Cons.prems] obtain w1 where
    w1: "input_byte (log_output name) keep_line c w = Some w1" "edited name ids (bs @ [c]) w1" by blast
  from Cons.IH [OF w1(2)] w1(1) show ?case by simp
qed simp

text \<open>C21: Whatever bytes arrive at a fresh terminal, its listener gets exactly the edited lines, the keys
  between two ends of line with erased characters removed, and every device of the terminal shows them: read
  as a screen with a cursor, what was written to the device is those lines, padded with blanks, and the line
  that is being edited, with the cursor behind it.\<close>

theorem terminal_edits_and_shows_lines:
  assumes "tw_terminal w = Some \<lparr>tt_output = out, tt_inputs = inps, tt_line_buffer = [], tt_echo = True, tt_listeners = [l]\<rparr>"
    and "distinct (map name (tw_output_devices w))" "lw_lines w = []"
    and "n = name out \<or> n \<in> name ` set (tw_output_devices w)" "\<forall>k. tw_machine w k = []"
  shows "\<exists>w' t. input_bytes (log_output name) keep_line bs w = Some w' \<and> tw_terminal w' = Some t
    \<and> lw_lines w' = map edit_line (butlast (split_newlines bs))
    \<and> tt_line_buffer t = edit_line (last (split_newlines bs))
    \<and> screen_shows (screen_bytes (tw_machine w' n)) (lw_lines w') (tt_line_buffer t)"
proof -
  let ?t = "\<lparr>tt_output = out, tt_inputs = inps, tt_line_buffer = [], tt_echo = True, tt_listeners = [l]\<rparr>"
  let ?ids = "terminal_ids name ?t (tw_output_devices w)"
  have "edited name ?ids [] w"
    using assms by (auto simp: edited_def edit_line_def screen_shows_def screen_bytes_def empty_screen_def padded_def)
  from edited_bytes [OF this, of bs] obtain w' where
    w': "input_bytes (log_output name) keep_line bs w = Some w'" "edited name ?ids bs w'" by auto
  have "n \<in> ?ids" using assms(4) by (auto simp: terminal_ids_def)
  with w'(2) obtain t where "tw_terminal w' = Some t" "lw_lines w' = map edit_line (butlast (split_newlines bs))"
    "tt_line_buffer t = edit_line (last (split_newlines bs))"
    "screen_shows (screen_bytes (tw_machine w' n)) (lw_lines w') (tt_line_buffer t)"
    unfolding edited_def by blast
  with w'(1) show ?thesis by blast
qed

text \<open>The keys \<open>lx\<close>, backspace, \<open>s\<close> and return, on a serial line and a second display.\<close>

definition example_world :: "(string, string, unit, string \<Rightarrow> u8 list) lines_world" where
  "example_world = \<lparr>tw_input_devices = [''uart''], tw_output_devices = [''uart'', ''fb''],
     tw_terminal = Some \<lparr>tt_output = ''uart'', tt_inputs = [''uart''], tt_line_buffer = [], tt_echo = True, tt_listeners = [()]\<rparr>,
     tw_machine = (\<lambda>k. []), lw_lines = []\<rparr>"

theorem terminal_edits_and_shows_lines_witness:
  "\<exists>w' t. input_bytes (log_output id) keep_line [0x6c, 0x78, 0x08, 0x73, 0x0d] example_world = Some w' \<and> tw_terminal w' = Some t
     \<and> lw_lines w' = [[0x6c, 0x73]] \<and> screen_shows (screen_bytes (tw_machine w' ''fb'')) [[0x6c, 0x73]] []"
proof -
  have "split_newlines [0x6c, 0x78, 0x08, 0x73, 0x0d] = [[0x6c, 0x78, 0x08, 0x73], []]" by (simp add: is_newline_def)
  moreover have "edit_line [0x6c, 0x78, 0x08, 0x73] = [0x6c, 0x73]" "edit_line [] = []"
    by (simp_all add: edit_line_def edit_key_def is_erase_def is_printable_def)
  moreover have "\<exists>w' t. input_bytes (log_output id) keep_line [0x6c, 0x78, 0x08, 0x73, 0x0d] example_world = Some w'
    \<and> tw_terminal w' = Some t
    \<and> lw_lines w' = map edit_line (butlast (split_newlines [0x6c, 0x78, 0x08, 0x73, 0x0d]))
    \<and> tt_line_buffer t = edit_line (last (split_newlines [0x6c, 0x78, 0x08, 0x73, 0x0d]))
    \<and> screen_shows (screen_bytes (tw_machine w' ''fb'')) (lw_lines w') (tt_line_buffer t)"
    by (rule terminal_edits_and_shows_lines) (simp_all add: example_world_def)
  ultimately show ?thesis by auto
qed

end
