(* ===== verification/Drawing.thy ===== *)
theory Drawing
  imports Font
begin

text \<open>Drawing on a frame buffer of 32 bits per pixel: the trait of \<open>drivers/display/mod.rs\<close>, the device of
  \<open>bcm2708_fb.rs\<close> and the primitives of \<open>drawing.rs\<close>. The memory is a map from the addresses that are mapped
  to the words there; an access outside it is a fault, the result \<open>None\<close>. Barriers are left out.\<close>

type_synonym vram = "usize \<rightharpoonup> u32"

definition store_pixel :: "usize \<Rightarrow> u32 \<Rightarrow> vram \<Rightarrow> vram option" where
  "store_pixel a color m = (case m a of None \<Rightarrow> None | Some _ \<Rightarrow> Some (m(a \<mapsto> color)))"

definition load_pixel :: "usize \<Rightarrow> vram \<Rightarrow> u32 option" where
  "load_pixel a m = m a"

text \<open>\<open>base.add(offset)\<close> on a pointer to words.\<close>

definition word_ptr :: "usize \<Rightarrow> u32 \<Rightarrow> usize" where
  "word_ptr base offset = base + 4 * ucast offset"

record framebuffer =
  fb_id :: string
  fb_va :: usize
  fb_bus_addr :: u32
  fb_width :: u32
  fb_height :: u32
  fb_pitch :: u32
  fb_depth :: u32

text \<open>A loop over a range of words, and its body run for each element in turn.\<close>

definition u32_range :: "u32 \<Rightarrow> u32 \<Rightarrow> u32 list" where
  "u32_range a b = map of_nat [unat a..<unat b]"

fun foreach :: "'a list \<Rightarrow> ('a \<Rightarrow> 's \<Rightarrow> 's option) \<Rightarrow> 's \<Rightarrow> 's option" where
  "foreach [] f s = Some s"
| "foreach (x # xs) f s = do {
     s' \<leftarrow> f x s;
     foreach xs f s'
   }"


section \<open>The primitives\<close>

text \<open>\<open>fill\<close> and \<open>write_pixel\<close> of the device address a row by its pitch in bytes.\<close>

definition fb_fill :: "framebuffer \<Rightarrow> u32 \<Rightarrow> vram \<Rightarrow> vram option" where
  "fb_fill fb color m =
     foreach (u32_range 0 (fb_height fb))
       (\<lambda>y. foreach (u32_range 0 (fb_width fb))
         (\<lambda>x. store_pixel (word_ptr (fb_va fb + ucast (y * fb_pitch fb)) x) color)) m"

definition fb_write_pixel :: "framebuffer \<Rightarrow> u32 \<Rightarrow> u32 \<Rightarrow> u32 \<Rightarrow> vram \<Rightarrow> vram option" where
  "fb_write_pixel fb x y color m =
     (if fb_width fb \<le> x \<or> fb_height fb \<le> y then Some m
      else store_pixel (word_ptr (fb_va fb + ucast (y * fb_pitch fb)) x) color m)"

definition fill_rect :: "framebuffer \<Rightarrow> u32 \<Rightarrow> u32 \<Rightarrow> u32 \<Rightarrow> u32 \<Rightarrow> u32 \<Rightarrow> vram \<Rightarrow> vram option" where
  "fill_rect fb x y w h color m =
     (let fb_w = fb_width fb; fb_h = fb_height fb
      in if fb_w \<le> x \<or> fb_h \<le> y \<or> w = 0 \<or> h = 0 then Some m
         else let x_end = min (x + w) fb_w; y_end = min (y + h) fb_h; pitch_pixels = fb_pitch fb div 4
              in foreach (u32_range y y_end)
                   (\<lambda>row. foreach (u32_range x x_end)
                     (\<lambda>col. store_pixel (word_ptr (fb_va fb) (row * pitch_pixels + col)) color)) m)"

definition saturating_sub :: "'a::len word \<Rightarrow> 'a word \<Rightarrow> 'a word" where
  "saturating_sub a b = (if b \<le> a then a - b else 0)"

definition copy_pixel :: "usize \<Rightarrow> usize \<Rightarrow> vram \<Rightarrow> vram option" where
  "copy_pixel src dst m = do {
     pixel \<leftarrow> load_pixel src m;
     store_pixel dst pixel m
   }"

definition copy_region :: "framebuffer \<Rightarrow> u32 \<Rightarrow> u32 \<Rightarrow> u32 \<Rightarrow> u32 \<Rightarrow> u32 \<Rightarrow> u32 \<Rightarrow> vram \<Rightarrow> vram option" where
  "copy_region fb src_x src_y dst_x dst_y w h m =
     (let fb_w = fb_width fb; fb_h = fb_height fb
      in if fb_w \<le> src_x \<or> fb_h \<le> src_y \<or> fb_w \<le> dst_x \<or> fb_h \<le> dst_y then Some m
         else let w' = min (min w (saturating_sub fb_w src_x)) (saturating_sub fb_w dst_x);
                  h' = min (min h (saturating_sub fb_h src_y)) (saturating_sub fb_h dst_y)
              in if w' = 0 \<or> h' = 0 then Some m
                 else let pitch_pixels = fb_pitch fb div 4
                      in foreach (u32_range 0 h')
                           (\<lambda>row. foreach (u32_range 0 w')
                             (\<lambda>col. copy_pixel (word_ptr (fb_va fb) ((src_y + row) * pitch_pixels + (src_x + col)))
                                      (word_ptr (fb_va fb) ((dst_y + row) * pitch_pixels + (dst_x + col))))) m)"

text \<open>The loops of \<open>draw_glyph\<close> stop at the right and the lower edge.\<close>

fun draw_glyph_row :: "framebuffer \<Rightarrow> u32 \<Rightarrow> u32 \<Rightarrow> u8 \<Rightarrow> u32 \<Rightarrow> u32 \<Rightarrow> u32 list \<Rightarrow> vram \<Rightarrow> vram option" where
  "draw_glyph_row fb x py byte fg bg [] m = Some m"
| "draw_glyph_row fb x py byte fg bg (b # bs) m =
     (let px = x + b
      in if fb_width fb \<le> px then Some m
         else do {
           m' \<leftarrow> store_pixel (word_ptr (fb_va fb) (py * (fb_pitch fb div 4) + px))
                   (if byte AND drop_bit (unat b) 0x80 \<noteq> 0 then fg else bg) m;
           draw_glyph_row fb x py byte fg bg bs m'
         })"

fun draw_glyph_rows :: "framebuffer \<Rightarrow> u32 \<Rightarrow> u32 \<Rightarrow> nat \<Rightarrow> u8 list \<Rightarrow> u32 \<Rightarrow> u32 \<Rightarrow> vram \<Rightarrow> vram option" where
  "draw_glyph_rows fb x y row [] fg bg m = Some m"
| "draw_glyph_rows fb x y row (byte # bytes) fg bg m =
     (let py = y + of_nat row
      in if fb_height fb \<le> py then Some m
         else do {
           m' \<leftarrow> draw_glyph_row fb x py byte fg bg (u32_range 0 FONT_WIDTH) m;
           draw_glyph_rows fb x y (Suc row) bytes fg bg m'
         })"

definition draw_glyph :: "framebuffer \<Rightarrow> u32 \<Rightarrow> u32 \<Rightarrow> u8 list \<Rightarrow> u32 \<Rightarrow> u32 \<Rightarrow> vram \<Rightarrow> vram option" where
  "draw_glyph fb x y bitmap fg bg m =
     (if fb_width fb \<le> x \<or> fb_height fb \<le> y then Some m
      else draw_glyph_rows fb x y 0 (take (unat FONT_HEIGHT) bitmap) fg bg m)"


section \<open>Pictures\<close>

text \<open>The geometry \<open>try_init\<close> checks, read as numbers: a row of pixels fits the pitch, and the rows fit a size
  of 32 bits.\<close>

definition fb_wf :: "framebuffer \<Rightarrow> bool" where
  "fb_wf fb \<longleftrightarrow> unat (fb_width fb) * 4 \<le> unat (fb_pitch fb) \<and> unat (fb_height fb) * unat (fb_pitch fb) < 2 ^ 32"

definition pixel_va :: "framebuffer \<Rightarrow> nat \<Rightarrow> nat \<Rightarrow> usize" where
  "pixel_va fb x y = fb_va fb + of_nat (4 * (y * (unat (fb_pitch fb) div 4) + x))"

definition fb_addrs :: "framebuffer \<Rightarrow> usize set" where
  "fb_addrs fb = {pixel_va fb x y |x y. x < unat (fb_width fb) \<and> y < unat (fb_height fb)}"

type_synonym picture = "nat \<Rightarrow> nat \<Rightarrow> u32"

text \<open>The memory shows a picture, and differs from a former one in the pixels only.\<close>

definition shows_picture :: "framebuffer \<Rightarrow> vram \<Rightarrow> vram \<Rightarrow> picture \<Rightarrow> bool" where
  "shows_picture fb m0 m p \<longleftrightarrow>
     (\<forall>x < unat (fb_width fb). \<forall>y < unat (fb_height fb). m (pixel_va fb x y) = Some (p x y))
     \<and> (\<forall>a. a \<notin> fb_addrs fb \<longrightarrow> m a = m0 a)"

definition draws :: "framebuffer \<Rightarrow> vram \<Rightarrow> vram option \<Rightarrow> picture \<Rightarrow> bool" where
  "draws fb m0 r p \<longleftrightarrow> (\<exists>m. r = Some m \<and> shows_picture fb m0 m p)"

lemma drawsI [intro]: "shows_picture fb m0 m p \<Longrightarrow> draws fb m0 (Some m) p"
  by (auto simp: draws_def)

lemma drawsE: "draws fb m0 r p \<Longrightarrow> (\<And>m. r = Some m \<Longrightarrow> shows_picture fb m0 m p \<Longrightarrow> thesis) \<Longrightarrow> thesis"
  by (auto simp: draws_def)

lemma shows_picture_cong:
  "shows_picture fb m0 m p \<Longrightarrow> (\<And>x y. x < unat (fb_width fb) \<Longrightarrow> y < unat (fb_height fb) \<Longrightarrow> p x y = q x y)
    \<Longrightarrow> shows_picture fb m0 m q"
  by (simp add: shows_picture_def)

lemma draws_cong:
  "draws fb m0 r p \<Longrightarrow> (\<And>x y. x < unat (fb_width fb) \<Longrightarrow> y < unat (fb_height fb) \<Longrightarrow> p x y = q x y)
    \<Longrightarrow> draws fb m0 r q"
  unfolding draws_def by (metis shows_picture_cong)

lemma fb_index_less:
  assumes "fb_wf fb" "x < unat (fb_width fb)" "y < unat (fb_height fb)"
  shows "4 * (y * (unat (fb_pitch fb) div 4) + x) < 2 ^ 32"
proof -
  let ?pp = "unat (fb_pitch fb) div 4"
  have "x < ?pp" using assms(1,2) by (auto simp: fb_wf_def less_eq_div_iff_mult_less_eq)
  then have "y * ?pp + x < Suc y * ?pp" by simp
  also have "\<dots> \<le> unat (fb_height fb) * ?pp" using assms(3) by (intro mult_le_mono1) simp
  finally have "4 * (y * ?pp + x) < unat (fb_height fb) * (4 * ?pp)" by simp
  also have "\<dots> \<le> unat (fb_height fb) * unat (fb_pitch fb)" by (intro mult_le_mono2) simp
  also have "\<dots> < 2 ^ 32" using assms(1) by (simp add: fb_wf_def)
  finally show ?thesis .
qed

lemma unat_of_nat_small: "n < 2 ^ 32 \<Longrightarrow> unat (of_nat n :: u32) = n" "n < 2 ^ 32 \<Longrightarrow> unat (of_nat n :: usize) = n"
  by (simp_all add: unat_of_nat)

lemma pixel_va_inj:
  assumes wf: "fb_wf fb" and x: "x < unat (fb_width fb)" "x' < unat (fb_width fb)"
    and y: "y < unat (fb_height fb)" "y' < unat (fb_height fb)"
    and eq: "pixel_va fb x y = pixel_va fb x' y'"
  shows "x = x' \<and> y = y'"
proof -
  let ?pp = "unat (fb_pitch fb) div 4"
  have "(of_nat (4 * (y * ?pp + x)) :: usize) = of_nat (4 * (y' * ?pp + x'))"
    using eq by (simp add: pixel_va_def)
  then have "unat (of_nat (4 * (y * ?pp + x)) :: usize) = unat (of_nat (4 * (y' * ?pp + x')) :: usize)" by simp
  then have "4 * (y * ?pp + x) = 4 * (y' * ?pp + x')"
    by (simp only: unat_of_nat_small(2) [OF fb_index_less [OF wf x(1) y(1)]] unat_of_nat_small(2) [OF fb_index_less [OF wf x(2) y(2)]])
  then have eq': "y * ?pp + x = y' * ?pp + x'" by simp
  have less: "x < ?pp" "x' < ?pp" using wf x by (auto simp: fb_wf_def less_eq_div_iff_mult_less_eq)
  from eq' have "(y * ?pp + x) mod ?pp = (y' * ?pp + x') mod ?pp" "(y * ?pp + x) div ?pp = (y' * ?pp + x') div ?pp"
    by simp_all
  with less show ?thesis by simp
qed

text \<open>Storing and loading pixels at the offsets the primitives compute.\<close>

lemma word_ptr_pixel:
  assumes "fb_wf fb" "unat (col :: u32) < unat (fb_width fb)" "unat (row :: u32) < unat (fb_height fb)"
  shows "word_ptr (fb_va fb) (row * (fb_pitch fb div 4) + col) = pixel_va fb (unat col) (unat row)"
proof -
  let ?pp = "unat (fb_pitch fb) div 4"
  have less: "4 * (unat row * ?pp + unat col) < 2 ^ 32" by (rule fb_index_less [OF assms])
  have "row * (fb_pitch fb div 4) + col = of_nat (unat row * ?pp + unat col)"
    by (simp add: word_arith_nat_div)
  moreover have "unat (of_nat (unat row * ?pp + unat col) :: u32) = unat row * ?pp + unat col"
    using less by (intro unat_of_nat_small(1)) simp
  then have "(ucast (of_nat (unat row * ?pp + unat col) :: u32) :: usize) = of_nat (unat row * ?pp + unat col)"
    by (metis of_nat_unat unat_ucast_32_64)
  ultimately show ?thesis by (simp add: word_ptr_def pixel_va_def)
qed

definition paint :: "picture \<Rightarrow> nat \<Rightarrow> nat \<Rightarrow> u32 \<Rightarrow> picture" where
  "paint p x y color = (\<lambda>x' y'. if x' = x \<and> y' = y then color else p x' y')"

lemma draws_store_pixel:
  assumes wf: "fb_wf fb" and m: "shows_picture fb m0 m p" and x: "x < unat (fb_width fb)" and y: "y < unat (fb_height fb)"
  shows "draws fb m0 (store_pixel (pixel_va fb x y) color m) (paint p x y color)"
proof -
  have "store_pixel (pixel_va fb x y) color m = Some (m(pixel_va fb x y \<mapsto> color))"
    using m x y by (simp add: store_pixel_def shows_picture_def)
  moreover have "pixel_va fb x y \<in> fb_addrs fb" using x y by (auto simp: fb_addrs_def)
  then have "shows_picture fb m0 (m(pixel_va fb x y \<mapsto> color)) (paint p x y color)"
    using m pixel_va_inj [OF wf _ x _ y] by (auto simp: shows_picture_def paint_def)
  ultimately show ?thesis by auto
qed

lemma draws_copy_pixel:
  assumes "fb_wf fb" "shows_picture fb m0 m p" "sx < unat (fb_width fb)" "sy < unat (fb_height fb)"
    "x < unat (fb_width fb)" "y < unat (fb_height fb)"
  shows "draws fb m0 (copy_pixel (pixel_va fb sx sy) (pixel_va fb x y) m) (paint p x y (p sx sy))"
  using assms draws_store_pixel [OF assms(1,2,5,6)]
  by (simp add: copy_pixel_def load_pixel_def shows_picture_def)

text \<open>A loop over a range of words draws a sequence of pictures.\<close>

lemma draws_foreach:
  assumes "shows_picture fb m0 m (q a)" "a \<le> b" "b < 2 ^ 32"
    and step: "\<And>k m. a \<le> k \<Longrightarrow> k < b \<Longrightarrow> shows_picture fb m0 m (q k) \<Longrightarrow> draws fb m0 (f (of_nat k :: u32) m) (q (Suc k))"
  shows "draws fb m0 (foreach (map of_nat [a..<b]) f m) (q b)"
  using assms(1,2) step
proof (induction "b - a" arbitrary: a m)
  case (Suc n)
  then have "a < b" by simp
  then have range: "[a..<b] = a # [Suc a..<b]" by (simp add: upt_rec)
  from Suc.prems(1,3) \<open>a < b\<close> obtain m' where m': "f (of_nat a) m = Some m'" "shows_picture fb m0 m' (q (Suc a))"
    by (meson drawsE order_refl)
  have "draws fb m0 (foreach (map of_nat [Suc a..<b]) f m') (q b)"
    using Suc \<open>a < b\<close> m'(2) by (intro Suc.hyps(1)) auto
  then show ?case by (simp add: range m'(1))
qed auto

section \<open>What the primitives draw\<close>

definition in_rect :: "nat \<Rightarrow> nat \<Rightarrow> nat \<Rightarrow> nat \<Rightarrow> nat \<Rightarrow> nat \<Rightarrow> bool" where
  "in_rect x y x_end y_end px py \<longleftrightarrow> x \<le> px \<and> px < x_end \<and> y \<le> py \<and> py < y_end"

text \<open>The pixels before \<open>(col, row)\<close> in the order of the loops.\<close>

definition drawn_upto :: "nat \<Rightarrow> nat \<Rightarrow> nat \<Rightarrow> nat \<Rightarrow> nat \<Rightarrow> nat \<Rightarrow> nat \<Rightarrow> bool" where
  "drawn_upto x y x_end row col px py \<longleftrightarrow>
     x \<le> px \<and> px < x_end \<and> y \<le> py \<and> (py < row \<or> py = row \<and> px < col)"

text \<open>A nest of two loops over \<open>[x, x_end)\<close> and \<open>[y, y_end)\<close> that sets one pixel per turn, displaced by
  \<open>(dx, dy)\<close>.\<close>

lemma draws_nest:
  fixes x y :: nat
  assumes m: "shows_picture fb m0 m p"
    and range: "x \<le> x_end" "x_end < 2 ^ 32" "y \<le> y_end" "y_end < 2 ^ 32"
    and step: "\<And>row col m. y \<le> row \<Longrightarrow> row < y_end \<Longrightarrow> x \<le> col \<Longrightarrow> col < x_end
      \<Longrightarrow> shows_picture fb m0 m (\<lambda>px py. if drawn_upto (dx + x) (dy + y) (dx + x_end) (dy + row) (dx + col) px py then q px py else p px py)
      \<Longrightarrow> draws fb m0 (f (of_nat row :: u32) (of_nat col :: u32) m)
            (paint (\<lambda>px py. if drawn_upto (dx + x) (dy + y) (dx + x_end) (dy + row) (dx + col) px py then q px py else p px py)
               (dx + col) (dy + row) (q (dx + col) (dy + row)))"
  shows "draws fb m0 (foreach (map of_nat [y..<y_end]) (\<lambda>row. foreach (map of_nat [x..<x_end]) (f row)) m)
           (\<lambda>px py. if in_rect (dx + x) (dy + y) (dx + x_end) (dy + y_end) px py then q px py else p px py)"
proof -
  let ?P = "\<lambda>row col px py. if drawn_upto (dx + x) (dy + y) (dx + x_end) (dy + row) (dx + col) px py then q px py else p px py"
  have row: "draws fb m0 (foreach (map of_nat [x..<x_end]) (f (of_nat row)) m) (?P (Suc row) x)"
    if "y \<le> row" "row < y_end" "shows_picture fb m0 m (?P row x)" for row m
  proof -
    have "draws fb m0 (foreach (map of_nat [x..<x_end]) (f (of_nat row)) m) (?P row x_end)"
    proof (rule draws_foreach [where q = "?P row"])
      fix col m assume "x \<le> col" "col < x_end" "shows_picture fb m0 m (?P row col)"
      from step [OF that(1,2) this] show "draws fb m0 (f (of_nat row) (of_nat col) m) (?P row (Suc col))"
        by (rule draws_cong) (use that(1) \<open>x \<le> col\<close> \<open>col < x_end\<close> in \<open>auto simp: paint_def drawn_upto_def\<close>)
    qed (use that(3) range in auto)
    then show ?thesis by (rule draws_cong) (use that(1) in \<open>auto simp: drawn_upto_def\<close>)
  qed
  have "shows_picture fb m0 m (?P y x)" by (rule shows_picture_cong [OF m]) (auto simp: drawn_upto_def)
  then have "draws fb m0 (foreach (map of_nat [y..<y_end]) (\<lambda>row. foreach (map of_nat [x..<x_end]) (f row)) m) (?P y_end x)"
    using range row by (intro draws_foreach [where q = "\<lambda>row. ?P row x"]) auto
  then show ?thesis by (rule draws_cong) (auto simp: drawn_upto_def in_rect_def)
qed

definition fill_picture :: "nat \<Rightarrow> nat \<Rightarrow> nat \<Rightarrow> nat \<Rightarrow> u32 \<Rightarrow> picture \<Rightarrow> picture" where
  "fill_picture x y w h color p = (\<lambda>px py. if in_rect x y (x + w) (y + h) px py then color else p px py)"

lemma min_word: "unat (min a b) = min (unat a) (unat b)"
  by (simp add: min_def word_le_nat_alt)

lemma unat_less_2_32: "unat (w :: u32) < 2 ^ 32"
  using unsigned_less [of w] by simp

lemma unat_of_nat_less: "n < unat (w :: u32) \<Longrightarrow> unat (of_nat n :: u32) = n"
  by (meson less_trans unat_of_nat_small(1) unat_less_2_32)

lemma unat_add_of_nat_less:
  assumes "unat a + n < unat (w :: u32)"
  shows "unat (a + of_nat n :: u32) = unat a + n"
proof -
  have "a + of_nat n = of_nat (unat a + n)" by simp
  then show ?thesis using unat_of_nat_less [OF assms] by (simp only:)
qed

lemma draws_fill_rect:
  assumes wf: "fb_wf fb" and m: "shows_picture fb m0 m p"
    and fits: "unat x + unat w < 2 ^ 32" "unat y + unat h < 2 ^ 32"
  shows "draws fb m0 (fill_rect fb x y w h color m) (fill_picture (unat x) (unat y) (unat w) (unat h) color p)"
proof (cases "fb_width fb \<le> x \<or> fb_height fb \<le> y \<or> w = 0 \<or> h = 0")
  case True
  then have "unat (fb_width fb) \<le> unat x \<or> unat (fb_height fb) \<le> unat y \<or> unat w = 0 \<or> unat h = 0"
    by (auto simp: word_le_nat_alt)
  then have "shows_picture fb m0 m (fill_picture (unat x) (unat y) (unat w) (unat h) color p)"
    by (intro shows_picture_cong [OF m]) (auto simp: fill_picture_def in_rect_def)
  moreover have "fill_rect fb x y w h color m = Some m" using True by (simp add: fill_rect_def)
  ultimately show ?thesis by auto
next
  case False
  let ?xe = "min (x + w) (fb_width fb)" and ?ye = "min (y + h) (fb_height fb)"
  have "unat (x + w) = unat x + unat w" "unat (y + h) = unat y + unat h"
    using fits by (simp_all add: unat_word_ariths)
  then have ends: "unat ?xe = min (unat x + unat w) (unat (fb_width fb))"
    "unat ?ye = min (unat y + unat h) (unat (fb_height fb))"
    by (simp_all add: min_word)
  have xy: "unat x < unat (fb_width fb)" "unat y < unat (fb_height fb)" using False by (simp_all add: word_le_nat_alt)
  have "draws fb m0 (foreach (map of_nat [unat y..<unat ?ye]) (\<lambda>row. foreach (map of_nat [unat x..<unat ?xe])
      (\<lambda>col. store_pixel (word_ptr (fb_va fb) (row * (fb_pitch fb div 4) + col)) color)) m)
      (\<lambda>px py. if in_rect (unat x) (unat y) (unat ?xe) (unat ?ye) px py then color else p px py)"
  proof (rule draws_nest [where q = "\<lambda>_ _. color" and dx = 0 and dy = 0, simplified])
    fix row col m
    assume r: "row < unat ?ye" "col < unat ?xe"
      and m: "shows_picture fb m0 m (\<lambda>px py. if drawn_upto (unat x) (unat y) (unat ?xe) row col px py then color else p px py)"
    have less: "row < unat (fb_height fb)" "col < unat (fb_width fb)" using r ends by simp_all
    then have "unat (of_nat row :: u32) = row" "unat (of_nat col :: u32) = col"
      by (simp_all add: unat_of_nat_less)
    with less word_ptr_pixel [OF wf, of "of_nat col" "of_nat row"] draws_store_pixel [OF wf m, of col row]
    show "draws fb m0 (store_pixel (word_ptr (fb_va fb) (of_nat row * (fb_pitch fb div 4) + of_nat col)) color m)
       (paint (\<lambda>px py. if drawn_upto (unat x) (unat y) (unat ?xe) row col px py then color else p px py) col row color)"
      by simp
  qed (use m ends xy fits in auto)
  moreover have "fill_rect fb x y w h color m = foreach (map of_nat [unat y..<unat ?ye]) (\<lambda>row. foreach (map of_nat [unat x..<unat ?xe])
      (\<lambda>col. store_pixel (word_ptr (fb_va fb) (row * (fb_pitch fb div 4) + col)) color)) m"
    using False by (simp add: fill_rect_def u32_range_def)
  ultimately have "draws fb m0 (fill_rect fb x y w h color m)
      (\<lambda>px py. if in_rect (unat x) (unat y) (unat ?xe) (unat ?ye) px py then color else p px py)" by simp
  then show ?thesis by (rule draws_cong) (auto simp: fill_picture_def in_rect_def ends)
qed


definition copy_picture :: "nat \<Rightarrow> nat \<Rightarrow> nat \<Rightarrow> nat \<Rightarrow> nat \<Rightarrow> nat \<Rightarrow> picture \<Rightarrow> picture" where
  "copy_picture sx sy dx dy w h p =
     (\<lambda>px py. if in_rect dx dy (dx + w) (dy + h) px py then p (px - dx + sx) (py - dy + sy) else p px py)"

text \<open>Copying in forward order is right when the target lies before the source.\<close>

lemma draws_copy_region:
  assumes wf: "fb_wf fb" and m: "shows_picture fb m0 m p"
    and src: "unat sx + unat w \<le> unat (fb_width fb)" "unat sy + unat h \<le> unat (fb_height fb)"
    and dst: "unat dx + unat w \<le> unat (fb_width fb)" "unat dy + unat h \<le> unat (fb_height fb)"
    and before: "unat dy < unat sy \<or> unat dy = unat sy \<and> unat dx \<le> unat sx"
  shows "draws fb m0 (copy_region fb sx sy dx dy w h m)
           (copy_picture (unat sx) (unat sy) (unat dx) (unat dy) (unat w) (unat h) p)"
proof (cases "w = 0 \<or> h = 0")
  case True
  then have "unat w = 0 \<or> unat h = 0" by auto
  then have "shows_picture fb m0 m (copy_picture (unat sx) (unat sy) (unat dx) (unat dy) (unat w) (unat h) p)"
    by (intro shows_picture_cong [OF m]) (auto simp: copy_picture_def in_rect_def)
  moreover have "copy_region fb sx sy dx dy w h m = Some m" using True by (auto simp: copy_region_def Let_def min_def)
  ultimately show ?thesis by auto
next
  case False
  then have pos: "0 < unat w" "0 < unat h" by (simp_all add: unat_gt_0)
  then have inside: "sx < fb_width fb" "sy < fb_height fb" "dx < fb_width fb" "dy < fb_height fb"
    using src dst by (simp_all add: word_less_nat_alt)
  have clamp: "min (min w (saturating_sub (fb_width fb) sx)) (saturating_sub (fb_width fb) dx) = w"
    "min (min h (saturating_sub (fb_height fb) sy)) (saturating_sub (fb_height fb) dy) = h"
    using src dst inside by (auto simp: saturating_sub_def min_def word_le_nat_alt word_less_nat_alt unat_sub_if')
  let ?q = "\<lambda>px py. p (px - unat dx + unat sx) (py - unat dy + unat sy)"
  let ?copy = "\<lambda>row col. copy_pixel (word_ptr (fb_va fb) ((sy + row) * (fb_pitch fb div 4) + (sx + col)))
      (word_ptr (fb_va fb) ((dy + row) * (fb_pitch fb div 4) + (dx + col)))"
  have "draws fb m0 (foreach (map of_nat [0..<unat h]) (\<lambda>row. foreach (map of_nat [0..<unat w]) (?copy row)) m)
      (\<lambda>px py. if in_rect (unat dx + 0) (unat dy + 0) (unat dx + unat w) (unat dy + unat h) px py then ?q px py else p px py)"
  proof (rule draws_nest [where dx = "unat dx" and dy = "unat dy" and q = ?q])
    fix row col m
    let ?p = "\<lambda>px py. if drawn_upto (unat dx + 0) (unat dy + 0) (unat dx + unat w) (unat dy + row) (unat dx + col) px py then ?q px py else p px py"
    assume r: "row < unat h" "col < unat w" and m: "shows_picture fb m0 m ?p"
    have less: "unat sx + col < unat (fb_width fb)" "unat sy + row < unat (fb_height fb)"
      "unat dx + col < unat (fb_width fb)" "unat dy + row < unat (fb_height fb)" using r src dst by simp_all
    have small: "unat (sx + of_nat col) = unat sx + col" "unat (sy + of_nat row) = unat sy + row"
      "unat (dx + of_nat col) = unat dx + col" "unat (dy + of_nat row) = unat dy + row"
      using less by (simp_all add: unat_add_of_nat_less)
    have "word_ptr (fb_va fb) ((sy + of_nat row) * (fb_pitch fb div 4) + (sx + of_nat col)) = pixel_va fb (unat sx + col) (unat sy + row)"
      using less word_ptr_pixel [OF wf, of "sx + of_nat col" "sy + of_nat row"] unfolding small by blast
    moreover have "word_ptr (fb_va fb) ((dy + of_nat row) * (fb_pitch fb div 4) + (dx + of_nat col)) = pixel_va fb (unat dx + col) (unat dy + row)"
      using less word_ptr_pixel [OF wf, of "dx + of_nat col" "dy + of_nat row"] unfolding small by blast
    moreover have "\<not> drawn_upto (unat dx + 0) (unat dy + 0) (unat dx + unat w) (unat dy + row) (unat dx + col) (unat sx + col) (unat sy + row)"
      using before by (simp add: drawn_upto_def) linarith
    then have "?p (unat sx + col) (unat sy + row) = ?q (unat dx + col) (unat dy + row)"
      by (simp add: add.commute)
    ultimately show "draws fb m0 (?copy (of_nat row) (of_nat col) m) (paint ?p (unat dx + col) (unat dy + row) (?q (unat dx + col) (unat dy + row)))"
      using draws_copy_pixel [OF wf m less] by (simp only:)
  qed (use m unat_less_2_32 in simp_all)
  moreover have "copy_region fb sx sy dx dy w h m = foreach (map of_nat [0..<unat h]) (\<lambda>row. foreach (map of_nat [0..<unat w]) (?copy row)) m"
    unfolding copy_region_def Let_def clamp using False inside by (simp add: u32_range_def not_le)
  ultimately show ?thesis by (simp add: copy_picture_def)
qed

definition glyph_picture :: "nat \<Rightarrow> nat \<Rightarrow> u8 list \<Rightarrow> u32 \<Rightarrow> u32 \<Rightarrow> picture \<Rightarrow> picture" where
  "glyph_picture x y bitmap fg bg p =
     (\<lambda>px py. if in_rect x y (x + 8) (y + length bitmap) px py
              then if bit (bitmap ! (py - y)) (7 - (px - x)) then fg else bg
              else p px py)"

lemma glyph_bit:
  assumes "k < 8"
  shows "(byte AND drop_bit k 0x80 \<noteq> 0) = bit (byte :: u8) (7 - k)"
proof -
  have "k \<in> {0, 1, 2, 3, 4, 5, 6, 7}" using assms by auto
  then have "drop_bit k (0x80 :: u8) = push_bit (7 - k) 1" by auto
  then show ?thesis by (simp add: bit_iff_and_push_bit_not_eq_0)
qed

lemma draws_glyph_row:
  assumes wf: "fb_wf fb" and fits: "unat x + 8 < 2 ^ 32" and py: "unat py < unat (fb_height fb)"
    and b: "b \<le> 8"
    and m: "shows_picture fb m0 m
      (\<lambda>qx qy. if qy = unat py \<and> unat x \<le> qx \<and> qx < unat x + b
               then if bit byte (7 - (qx - unat x)) then fg else bg else p qx qy)"
  shows "draws fb m0 (draw_glyph_row fb x py byte fg bg (map of_nat [b..<8]) m) (glyph_picture (unat x) (unat py) [byte] fg bg p)"
  using b m
proof (induction "8 - b" arbitrary: b m)
  case 0
  then have "b = 8" by simp
  with 0 have "shows_picture fb m0 m (glyph_picture (unat x) (unat py) [byte] fg bg p)"
    by (elim shows_picture_cong) (auto simp: glyph_picture_def in_rect_def)
  with \<open>b = 8\<close> show ?case by auto
next
  case (Suc n)
  then have b: "b < 8" by simp
  then have range: "[b..<8] = b # [Suc b..<8]" by (simp add: upt_rec)
  have px: "unat (x + of_nat b) = unat x + b" "unat (of_nat b :: u32) = b" using b fits by (simp_all add: unat_word_ariths unat_of_nat)
  show ?case
  proof (cases "fb_width fb \<le> x + of_nat b")
    case True
    then have "unat (fb_width fb) \<le> unat x + b" by (simp add: word_le_nat_alt px)
    then have "shows_picture fb m0 m (glyph_picture (unat x) (unat py) [byte] fg bg p)"
      using b by (intro shows_picture_cong [OF Suc.prems(2)]) (auto simp: glyph_picture_def in_rect_def)
    with True show ?thesis by (simp add: range Let_def drawsI)
  next
    case False
    then have less: "unat (x + of_nat b) < unat (fb_width fb)" by (simp add: word_le_nat_alt)
    let ?c = "if byte AND drop_bit (unat (of_nat b :: u32)) 0x80 \<noteq> 0 then fg else bg"
    have c: "?c = (if bit byte (7 - b) then fg else bg)" using glyph_bit [OF b] px(2) by simp
    from draws_store_pixel [OF wf Suc.prems(2) less py, of ?c] word_ptr_pixel [OF wf less py]
    obtain m' where m': "store_pixel (word_ptr (fb_va fb) (py * (fb_pitch fb div 4) + (x + of_nat b))) ?c m = Some m'"
      "shows_picture fb m0 m' (paint (\<lambda>qx qy. if qy = unat py \<and> unat x \<le> qx \<and> qx < unat x + b
               then if bit byte (7 - (qx - unat x)) then fg else bg else p qx qy) (unat (x + of_nat b)) (unat py) ?c)"
      by (auto elim: drawsE)
    have "draws fb m0 (draw_glyph_row fb x py byte fg bg (map of_nat [Suc b..<8]) m') (glyph_picture (unat x) (unat py) [byte] fg bg p)"
      using Suc(2) b by (intro Suc.hyps(1) shows_picture_cong [OF m'(2)]) (auto simp: paint_def c px(1))
    with False m'(1) show ?thesis by (simp add: range Let_def)
  qed
qed

lemma draws_glyph_rows:
  assumes wf: "fb_wf fb" and fits: "unat x + 8 < 2 ^ 32" "unat y + row + length bytes < 2 ^ 32"
    and m: "shows_picture fb m0 m p"
  shows "draws fb m0 (draw_glyph_rows fb x y row bytes fg bg m) (glyph_picture (unat x) (unat y + row) bytes fg bg p)"
  using fits(2) m
proof (induction bytes arbitrary: row m p)
  case Nil
  then have "shows_picture fb m0 m (glyph_picture (unat x) (unat y + row) [] fg bg p)"
    by (elim shows_picture_cong) (auto simp: glyph_picture_def in_rect_def)
  then show ?case by (simp add: drawsI)
next
  case (Cons byte bytes)
  have py: "unat (y + of_nat row) = unat y + row" using Cons.prems(1) by (simp add: unat_word_ariths unat_of_nat)
  show ?case
  proof (cases "fb_height fb \<le> y + of_nat row")
    case True
    then have "unat (fb_height fb) \<le> unat y + row" by (simp add: word_le_nat_alt py)
    then have "shows_picture fb m0 m (glyph_picture (unat x) (unat y + row) (byte # bytes) fg bg p)"
      by (intro shows_picture_cong [OF Cons.prems(2)]) (auto simp: glyph_picture_def in_rect_def)
    with True show ?thesis by (simp add: Let_def drawsI)
  next
    case False
    then have "unat (y + of_nat row) < unat (fb_height fb)" by (simp add: word_le_nat_alt)
    moreover have "shows_picture fb m0 m (\<lambda>qx qy. if qy = unat (y + of_nat row) \<and> unat x \<le> qx \<and> qx < unat x + 0
        then if bit byte (7 - (qx - unat x)) then fg else bg else p qx qy)"
      by (rule shows_picture_cong [OF Cons.prems(2)]) auto
    ultimately have "draws fb m0 (draw_glyph_row fb x (y + of_nat row) byte fg bg (map of_nat [0..<8]) m)
        (glyph_picture (unat x) (unat y + row) [byte] fg bg p)"
      using draws_glyph_row [OF wf fits(1), of "y + of_nat row" 0 m0 m byte fg bg p] unfolding py by blast
    then obtain m' where m': "draw_glyph_row fb x (y + of_nat row) byte fg bg (u32_range 0 FONT_WIDTH) m = Some m'"
      "shows_picture fb m0 m' (glyph_picture (unat x) (unat y + row) [byte] fg bg p)"
      by (auto simp: u32_range_def FONT_WIDTH_def elim: drawsE)
    have "draws fb m0 (draw_glyph_rows fb x y (Suc row) bytes fg bg m')
        (glyph_picture (unat x) (unat y + Suc row) bytes fg bg (glyph_picture (unat x) (unat y + row) [byte] fg bg p))"
      using Cons.prems(1) m'(2) by (intro Cons.IH) auto
    then have "draws fb m0 (draw_glyph_rows fb x y (Suc row) bytes fg bg m') (glyph_picture (unat x) (unat y + row) (byte # bytes) fg bg p)"
      by (rule draws_cong) (auto simp: glyph_picture_def in_rect_def nth_Cons' not_le less_Suc_eq_le)
    with False m'(1) show ?thesis by (simp add: Let_def)
  qed
qed

lemma draws_glyph:
  assumes wf: "fb_wf fb" and fits: "unat x + 8 < 2 ^ 32" "unat y + 16 < 2 ^ 32" and len: "length bitmap = 16"
    and m: "shows_picture fb m0 m p"
  shows "draws fb m0 (draw_glyph fb x y bitmap fg bg m) (glyph_picture (unat x) (unat y) bitmap fg bg p)"
proof (cases "fb_width fb \<le> x \<or> fb_height fb \<le> y")
  case True
  then have "unat (fb_width fb) \<le> unat x \<or> unat (fb_height fb) \<le> unat y" by (simp add: word_le_nat_alt)
  then have "shows_picture fb m0 m (glyph_picture (unat x) (unat y) bitmap fg bg p)"
    by (intro shows_picture_cong [OF m]) (auto simp: glyph_picture_def in_rect_def)
  with True show ?thesis by (simp add: draw_glyph_def drawsI)
next
  case False
  then show ?thesis using draws_glyph_rows [OF wf fits(1), of y 0 bitmap] fits(2) len m
    by (simp add: draw_glyph_def FONT_HEIGHT_def)
qed

end
