(* ===== verification/Dma.thy ===== *)
theory Dma
  imports Device_Probe Intc
begin

text \<open>The DMA engine: \<open>drivers/dma_controller/mod.rs\<close> and \<open>bcm2835_dma.rs\<close>. The hardware is a parameter: a bus of
  registers and the memory access that stores a control block. The handler of the channel may run before
  each turn of the loop that waits for a transfer.\<close>

datatype dma_error = Dma_Unavailable | Dma_Busy | Dma_InvalidTransfer | Dma_Timeout | Dma_Fault

record dma_2d_transfer =
  tr_src_bus_addr :: u32
  tr_dst_bus_addr :: u32
  tr_row_len_bytes :: u32
  tr_row_count :: u32
  tr_src_stride :: u32
  tr_dst_stride :: u32

text \<open>\<open>SYSTEM_DMA_ENGINE\<close>, set once.\<close>

definition register_dma_engine :: "'e \<Rightarrow> 'e option \<Rightarrow> (unit + unit) \<times> 'e option" where
  "register_dma_engine engine cell = (case cell of None \<Rightarrow> (Inr (), Some engine) | Some _ \<Rightarrow> (Inl (), cell))"


section \<open>Registers and control blocks\<close>

definition DMA_CHAN_SIZE :: usize where "DMA_CHAN_SIZE = 0x100"
definition DMA_CS_OFFSET :: usize where "DMA_CS_OFFSET = 0x00"
definition DMA_ADDR_OFFSET :: usize where "DMA_ADDR_OFFSET = 0x04"
definition DMA_DEBUG_OFFSET :: usize where "DMA_DEBUG_OFFSET = 0x20"
definition DMA_ENABLE_OFFSET :: usize where "DMA_ENABLE_OFFSET = 0xff0"

definition DMA_CS_ACTIVE :: u32 where "DMA_CS_ACTIVE = push_bit 0 1"
definition DMA_CS_END :: u32 where "DMA_CS_END = push_bit 1 1"
definition DMA_CS_INT :: u32 where "DMA_CS_INT = push_bit 2 1"
definition DMA_CS_ERR :: u32 where "DMA_CS_ERR = push_bit 8 1"
definition DMA_CS_WAIT_FOR_WRITES :: u32 where "DMA_CS_WAIT_FOR_WRITES = push_bit 28 1"
definition DMA_CS_DIS_DEBUG :: u32 where "DMA_CS_DIS_DEBUG = push_bit 29 1"
definition DMA_CS_ABORT :: u32 where "DMA_CS_ABORT = push_bit 30 1"
definition DMA_CS_RESET :: u32 where "DMA_CS_RESET = push_bit 31 1"
definition DMA_TI_INT_EN :: u32 where "DMA_TI_INT_EN = push_bit 0 1"
definition DMA_TI_TDMODE :: u32 where "DMA_TI_TDMODE = push_bit 1 1"
definition DMA_TI_D_INC :: u32 where "DMA_TI_D_INC = push_bit 4 1"
definition DMA_TI_D_WIDTH :: u32 where "DMA_TI_D_WIDTH = push_bit 5 1"
definition DMA_TI_S_INC :: u32 where "DMA_TI_S_INC = push_bit 8 1"
definition DMA_TI_S_WIDTH :: u32 where "DMA_TI_S_WIDTH = push_bit 9 1"
definition DMA_DEBUG_CLEAR_MASK :: u32 where "DMA_DEBUG_CLEAR_MASK = push_bit 0 1 OR push_bit 1 1 OR push_bit 2 1"
definition DMA_BUS_ALIAS_MASK :: u32 where "DMA_BUS_ALIAS_MASK = 0xc0000000"
definition DMA_BUS_ALIAS_NONALLOCATING :: u32 where "DMA_BUS_ALIAS_NONALLOCATING = 0x80000000"
definition DMA_PREFERRED_CHANNELS :: "u8 list" where "DMA_PREFERRED_CHANNELS = [0, 2, 4, 6]"
definition DMA_RESET_POLL_LIMIT :: nat where "DMA_RESET_POLL_LIMIT = 1000000"
definition DMA_WAIT_POLL_LIMIT :: nat where "DMA_WAIT_POLL_LIMIT = 128000000"

definition DMA_CS_DEFAULTS :: u32 where
  "DMA_CS_DEFAULTS = push_bit 16 8 OR push_bit 20 8 OR DMA_CS_WAIT_FOR_WRITES OR DMA_CS_DIS_DEBUG"

definition DMA_ERROR_NONE :: u32 where "DMA_ERROR_NONE = 0"
definition DMA_ERROR_TIMEOUT :: u32 where "DMA_ERROR_TIMEOUT = 1"
definition DMA_ERROR_FAULT :: u32 where "DMA_ERROR_FAULT = 2"
definition DMA_ERROR_INVALID :: u32 where "DMA_ERROR_INVALID = 3"
definition DMA_ERROR_BUSY :: u32 where "DMA_ERROR_BUSY = 4"

record dma_stats =
  ds_transfers_started :: u32
  ds_irq_completions :: u32
  ds_poll_completions :: u32
  ds_timeouts :: u32
  ds_faults :: u32
  ds_busy_errors :: u32
  ds_invalid_errors :: u32
  ds_last_cs :: u32
  ds_last_debug :: u32
  ds_last_error :: u32

definition dma_reset_stats :: "dma_stats \<Rightarrow> dma_stats" where
  "dma_reset_stats s = \<lparr>ds_transfers_started = 0, ds_irq_completions = 0, ds_poll_completions = 0, ds_timeouts = 0,
     ds_faults = 0, ds_busy_errors = 0, ds_invalid_errors = 0, ds_last_cs = 0, ds_last_debug = 0,
     ds_last_error = DMA_ERROR_NONE\<rparr>"

record control_block =
  cb_info :: u32
  cb_src :: u32
  cb_dst :: u32
  cb_length :: u32
  cb_stride :: u32
  cb_next :: u32
  cb_pad :: "u32 list"

definition control_block_new :: control_block where
  "control_block_new = \<lparr>cb_info = 0, cb_src = 0, cb_dst = 0, cb_length = 0, cb_stride = 0, cb_next = 0, cb_pad = [0, 0]\<rparr>"

record dma_channel =
  dc_id :: string
  dc_reg_base :: usize
  dc_channel :: u8
  dc_virq :: u32
  dc_control_block_va :: usize
  dc_control_block_bus :: u32

text \<open>The hardware, and what the device and the module keep: the flags the handler sets, the lock of a
  transfer and the counters.\<close>

record 'd dma_bus = "'d bus" +
  bus_store_block :: "usize \<Rightarrow> control_block \<Rightarrow> 'd \<Rightarrow> 'd"

record 'd dma_state =
  dm_hw :: 'd
  dm_irq_complete :: bool
  dm_irq_error :: bool
  dm_locked :: bool
  dm_stats :: dma_stats

definition burst_length :: "u32 \<Rightarrow> u32" where
  "burst_length value = push_bit 12 (value AND 0xf)"

definition dma_bus_addr :: "u32 \<Rightarrow> u32" where
  "dma_bus_addr addr = (addr AND NOT DMA_BUS_ALIAS_MASK) OR DMA_BUS_ALIAS_NONALLOCATING"

definition channel_base :: "dma_channel \<Rightarrow> usize" where
  "channel_base dev = dc_reg_base dev + ucast (dc_channel dev) * DMA_CHAN_SIZE"

definition read_shared_reg :: "'d dma_bus \<Rightarrow> dma_channel \<Rightarrow> usize \<Rightarrow> 'd dma_state \<Rightarrow> u32 \<times> 'd dma_state" where
  "read_shared_reg bus dev offset s =
     (let (v, d) = bus_read bus (dc_reg_base dev + offset) (dm_hw s) in (v, s\<lparr>dm_hw := d\<rparr>))"

definition write_shared_reg :: "'d dma_bus \<Rightarrow> dma_channel \<Rightarrow> usize \<Rightarrow> u32 \<Rightarrow> 'd dma_state \<Rightarrow> 'd dma_state" where
  "write_shared_reg bus dev offset value s = s\<lparr>dm_hw := bus_write bus (dc_reg_base dev + offset) value (dm_hw s)\<rparr>"

definition read_channel_reg :: "'d dma_bus \<Rightarrow> dma_channel \<Rightarrow> usize \<Rightarrow> 'd dma_state \<Rightarrow> u32 \<times> 'd dma_state" where
  "read_channel_reg bus dev offset s =
     (let (v, d) = bus_read bus (channel_base dev + offset) (dm_hw s) in (v, s\<lparr>dm_hw := d\<rparr>))"

definition write_channel_reg :: "'d dma_bus \<Rightarrow> dma_channel \<Rightarrow> usize \<Rightarrow> u32 \<Rightarrow> 'd dma_state \<Rightarrow> 'd dma_state" where
  "write_channel_reg bus dev offset value s = s\<lparr>dm_hw := bus_write bus (channel_base dev + offset) value (dm_hw s)\<rparr>"

definition enable_channel :: "'d dma_bus \<Rightarrow> dma_channel \<Rightarrow> 'd dma_state \<Rightarrow> 'd dma_state" where
  "enable_channel bus dev s =
     (let (enabled, s1) = read_shared_reg bus dev DMA_ENABLE_OFFSET s
      in write_shared_reg bus dev DMA_ENABLE_OFFSET (enabled OR push_bit (unat (dc_channel dev) mod 32) 1) s1)"

definition clear_channel_state :: "'d dma_bus \<Rightarrow> dma_channel \<Rightarrow> 'd dma_state \<Rightarrow> 'd dma_state" where
  "clear_channel_state bus dev s =
     write_channel_reg bus dev DMA_DEBUG_OFFSET DMA_DEBUG_CLEAR_MASK
       (write_channel_reg bus dev DMA_CS_OFFSET (DMA_CS_END OR DMA_CS_INT OR DMA_CS_ERR) s)"

section \<open>A transfer\<close>

abbreviation dm_stat :: "(dma_stats \<Rightarrow> dma_stats) \<Rightarrow> 'd dma_state \<Rightarrow> 'd dma_state" where
  "dm_stat f s \<equiv> s\<lparr>dm_stats := f (dm_stats s)\<rparr>"

fun reset_polls :: "'d dma_bus \<Rightarrow> dma_channel \<Rightarrow> nat \<Rightarrow> 'd dma_state \<Rightarrow> (dma_error + unit) \<times> 'd dma_state" where
  "reset_polls bus dev 0 s = (Inl Dma_Timeout, s)"
| "reset_polls bus dev (Suc n) s =
     (let (cs, s1) = read_channel_reg bus dev DMA_CS_OFFSET s
      in if cs AND DMA_CS_RESET = 0 then (Inr (), clear_channel_state bus dev s1)
         else reset_polls bus dev n s1)"

definition reset_channel :: "'d dma_bus \<Rightarrow> dma_channel \<Rightarrow> 'd dma_state \<Rightarrow> (dma_error + unit) \<times> 'd dma_state" where
  "reset_channel bus dev s =
     reset_polls bus dev DMA_RESET_POLL_LIMIT (write_channel_reg bus dev DMA_CS_OFFSET DMA_CS_RESET s)"

definition abort_channel :: "'d dma_bus \<Rightarrow> dma_channel \<Rightarrow> 'd dma_state \<Rightarrow> 'd dma_state" where
  "abort_channel bus dev s = snd (reset_channel bus dev (write_channel_reg bus dev DMA_CS_OFFSET DMA_CS_ABORT s))"

definition transfer_ok :: "dma_2d_transfer \<Rightarrow> bool" where
  "transfer_ok t \<longleftrightarrow> \<not> (tr_row_len_bytes t = 0 \<or> tr_row_count t = 0 \<or> tr_row_len_bytes t > 0xffff
     \<or> tr_row_count t > 0xffff \<or> tr_src_stride t > 0xffff \<or> tr_dst_stride t > 0xffff)"

definition transfer_block :: "dma_channel \<Rightarrow> dma_2d_transfer \<Rightarrow> control_block" where
  "transfer_block dev t =
     (let burst_size = (if dc_channel dev = 0 then 8 else 2)
      in \<lparr>cb_info = DMA_TI_INT_EN OR DMA_TI_TDMODE OR DMA_TI_D_INC OR DMA_TI_D_WIDTH OR DMA_TI_S_INC
                    OR DMA_TI_S_WIDTH OR burst_length burst_size,
          cb_src = dma_bus_addr (tr_src_bus_addr t), cb_dst = dma_bus_addr (tr_dst_bus_addr t),
          cb_length = tr_row_len_bytes t OR push_bit 16 (tr_row_count t),
          cb_stride = tr_src_stride t OR push_bit 16 (tr_dst_stride t), cb_next = 0, cb_pad = [0, 0]\<rparr>)"

definition fill_control_block :: "'d dma_bus \<Rightarrow> dma_channel \<Rightarrow> dma_2d_transfer \<Rightarrow> 'd dma_state
    \<Rightarrow> (dma_error + unit) \<times> 'd dma_state" where
  "fill_control_block bus dev t s =
     (if \<not> transfer_ok t
      then (Inl Dma_InvalidTransfer,
            dm_stat (\<lambda>c. c\<lparr>ds_invalid_errors := ds_invalid_errors c + 1, ds_last_error := DMA_ERROR_INVALID\<rparr>) s)
      else (Inr (), s\<lparr>dm_hw := bus_store_block bus (dc_control_block_va dev) (transfer_block dev t) (dm_hw s)\<rparr>))"

definition start_transfer :: "'d dma_bus \<Rightarrow> dma_channel \<Rightarrow> 'd dma_state \<Rightarrow> (dma_error + unit) \<times> 'd dma_state" where
  "start_transfer bus dev s =
     (case reset_channel bus dev s of
        (Inl e, s1) \<Rightarrow> (Inl e, s1)
      | (Inr _, s1) \<Rightarrow>
          let s2 = dm_stat (\<lambda>c. c\<lparr>ds_transfers_started := ds_transfers_started c + 1, ds_last_error := DMA_ERROR_NONE\<rparr>)
                     (s1\<lparr>dm_irq_complete := False, dm_irq_error := False\<rparr>);
              s3 = write_channel_reg bus dev DMA_ADDR_OFFSET (dc_control_block_bus dev) s2
          in (Inr (), write_channel_reg bus dev DMA_CS_OFFSET (DMA_CS_DEFAULTS OR DMA_CS_ACTIVE) s3))"

text \<open>The registers of status, which both the poll and the handler read and note down.\<close>

definition read_status :: "'d dma_bus \<Rightarrow> dma_channel \<Rightarrow> 'd dma_state \<Rightarrow> u32 \<times> u32 \<times> 'd dma_state" where
  "read_status bus dev s =
     (let (cs, s1) = read_channel_reg bus dev DMA_CS_OFFSET s;
          (debug, s2) = read_channel_reg bus dev DMA_DEBUG_OFFSET s1
      in (cs, debug, dm_stat (\<lambda>c. c\<lparr>ds_last_cs := cs, ds_last_debug := debug\<rparr>) s2))"

definition status_fault :: "u32 \<Rightarrow> u32 \<Rightarrow> bool" where
  "status_fault cs debug \<longleftrightarrow> cs AND DMA_CS_ERR \<noteq> 0 \<or> debug AND DMA_DEBUG_CLEAR_MASK \<noteq> 0"

definition status_done :: "u32 \<Rightarrow> bool" where
  "status_done cs \<longleftrightarrow> cs AND (DMA_CS_END OR DMA_CS_INT) \<noteq> 0"

definition poll_transfer_result :: "'d dma_bus \<Rightarrow> dma_channel \<Rightarrow> 'd dma_state
    \<Rightarrow> (dma_error + unit) option \<times> 'd dma_state" where
  "poll_transfer_result bus dev s =
     (let (cs, debug, s1) = read_status bus dev s
      in if status_fault cs debug
         then (Some (Inl Dma_Fault), clear_channel_state bus dev
                 (dm_stat (\<lambda>c. c\<lparr>ds_faults := ds_faults c + 1, ds_last_error := DMA_ERROR_FAULT\<rparr>) s1))
         else if status_done cs
         then (Some (Inr ()), clear_channel_state bus dev
                 (dm_stat (\<lambda>c. c\<lparr>ds_poll_completions := ds_poll_completions c + 1\<rparr>) s1))
         else (None, s1))"

definition dma_handle_irq :: "'d dma_bus \<Rightarrow> dma_channel \<Rightarrow> 'd dma_state \<Rightarrow> 'd dma_state" where
  "dma_handle_irq bus dev s =
     (let (cs, debug, s1) = read_status bus dev s
      in if cs AND (DMA_CS_END OR DMA_CS_INT OR DMA_CS_ERR) = 0 \<and> debug AND DMA_DEBUG_CLEAR_MASK = 0 then s1
         else clear_channel_state bus dev
           (if status_fault cs debug
            then dm_stat (\<lambda>c. c\<lparr>ds_last_error := DMA_ERROR_FAULT\<rparr>) (s1\<lparr>dm_irq_error := True\<rparr>)
            else dm_stat (\<lambda>c. c\<lparr>ds_irq_completions := ds_irq_completions c + 1\<rparr>) (s1\<lparr>dm_irq_complete := True\<rparr>)))"

text \<open>A turn of the loop of \<open>wait_for_transfer\<close>; \<open>irqs\<close> tells for each turn whether the handler runs before it.\<close>

definition wait_turn :: "'d dma_bus \<Rightarrow> dma_channel \<Rightarrow> 'd dma_state \<Rightarrow> (dma_error + unit) option \<times> 'd dma_state" where
  "wait_turn bus dev s =
     (if dm_irq_error s
      then (Some (Inl Dma_Fault), dm_stat (\<lambda>c. c\<lparr>ds_faults := ds_faults c + 1, ds_last_error := DMA_ERROR_FAULT\<rparr>)
              (s\<lparr>dm_irq_error := False\<rparr>))
      else if dm_irq_complete s then (Some (Inr ()), s\<lparr>dm_irq_complete := False\<rparr>)
      else poll_transfer_result bus dev s)"

fun wait_turns :: "'d dma_bus \<Rightarrow> dma_channel \<Rightarrow> (nat \<Rightarrow> bool) \<Rightarrow> nat \<Rightarrow> 'd dma_state
    \<Rightarrow> (dma_error + unit) \<times> 'd dma_state" where
  "wait_turns bus dev irqs 0 s =
     (Inl Dma_Timeout, dm_stat (\<lambda>c. c\<lparr>ds_timeouts := ds_timeouts c + 1, ds_last_error := DMA_ERROR_TIMEOUT\<rparr>) s)"
| "wait_turns bus dev irqs (Suc n) s =
     (case wait_turn bus dev (if irqs n then dma_handle_irq bus dev s else s) of
        (Some r, s1) \<Rightarrow> (r, s1)
      | (None, s1) \<Rightarrow> wait_turns bus dev irqs n s1)"

definition wait_for_transfer :: "'d dma_bus \<Rightarrow> dma_channel \<Rightarrow> (nat \<Rightarrow> bool) \<Rightarrow> 'd dma_state
    \<Rightarrow> (dma_error + unit) \<times> 'd dma_state" where
  "wait_for_transfer bus dev irqs s = wait_turns bus dev irqs DMA_WAIT_POLL_LIMIT s"

text \<open>\<open>copy_2d\<close>: the guard of the transfer lock is dropped on every way out.\<close>

definition copy_2d :: "'d dma_bus \<Rightarrow> dma_channel \<Rightarrow> (nat \<Rightarrow> bool) \<Rightarrow> dma_2d_transfer \<Rightarrow> 'd dma_state
    \<Rightarrow> (dma_error + unit) \<times> 'd dma_state" where
  "copy_2d bus dev irqs t s =
     (if dm_locked s
      then (Inl Dma_Busy, dm_stat (\<lambda>c. c\<lparr>ds_busy_errors := ds_busy_errors c + 1, ds_last_error := DMA_ERROR_BUSY\<rparr>) s)
      else
        let (r, s') =
          (case fill_control_block bus dev t (s\<lparr>dm_locked := True\<rparr>) of
             (Inl e, s1) \<Rightarrow> (Inl e, s1)
           | (Inr _, s1) \<Rightarrow>
               (case start_transfer bus dev s1 of
                  (Inl e, s2) \<Rightarrow> (Inl e, s2)
                | (Inr _, s2) \<Rightarrow>
                    (case wait_for_transfer bus dev irqs s2 of
                       (Inr _, s3) \<Rightarrow> (Inr (), s3)
                     | (Inl e, s3) \<Rightarrow> (Inl e, abort_channel bus dev s3))))
        in (r, s'\<lparr>dm_locked := False\<rparr>))"


section \<open>The driver\<close>

definition select_channel :: "u32 \<Rightarrow> u8 option" where
  "select_channel usable = List.find (\<lambda>channel. usable AND push_bit (unat channel mod 32) 1 \<noteq> 0) DMA_PREFERRED_CHANNELS"

definition phys_to_dma_bus :: "usize \<Rightarrow> dma_error + u32" where
  "phys_to_dma_bus pa = (if unat pa \<le> 0xffffffff then Inr (dma_bus_addr (ucast pa)) else Inl Dma_InvalidTransfer)"

text \<open>The board with the engine: its devices are on the board's bus too, but their registers are apart, and
  \<open>de_dma\<close> is the state of the channel. \<open>handler\<close> is the handler the channel registers.\<close>

record ('d, 'h, 'm) dma_board =
  de_board :: "('d, 'h) board"
  de_dma :: "'m dma_state"
  de_engine :: "dma_channel option"
  de_devices :: "dma_channel registry"

definition dma_global_setup :: "'d bus \<Rightarrow> 'm dma_bus \<Rightarrow> 'h \<Rightarrow> dma_channel \<Rightarrow> ('d, 'h, 'm) dma_board
    \<Rightarrow> ((driver_init_error + unit) \<times> ('d, 'h, 'm) dma_board) option" where
  "dma_global_setup ibus bus handler dev b =
     (let b1 = b\<lparr>de_dma := enable_channel bus dev (de_dma b)\<rparr>;
          (r, t) = register_handler (dc_virq dev) (H_Other handler) (bd_irqs (de_board b1));
          b2 = b1\<lparr>de_board := (de_board b1)\<lparr>bd_irqs := t\<rparr>\<rparr>
      in case r of
           Inl _ \<Rightarrow> Some (Inl Retry, b2)
         | Inr _ \<Rightarrow> do {
             (r', bd) \<leftarrow> enable_irq (intc_ops ibus) (dc_virq dev) (bd_irqs (de_board b2)) (de_board b2);
             let b3 = b2\<lparr>de_board := bd\<rparr>;
             (case r' of
                Inl _ \<Rightarrow> Some (Inl Retry, b3)
              | Inr _ \<Rightarrow>
                  let (r'', engine) = register_dma_engine dev (de_engine b3)
                  in Some (case r'' of Inl _ \<Rightarrow> Inl DeviceFailed | Inr _ \<Rightarrow> Inr (), b3\<lparr>de_engine := engine\<rparr>))
           })"

definition dma_try_init :: "'d bus \<Rightarrow> 'm dma_bus \<Rightarrow> 'h \<Rightarrow> ('e + u32) option \<Rightarrow> device_tree \<Rightarrow> nat \<Rightarrow> ('d, 'h, 'm) dma_board
    \<Rightarrow> ((driver_init_error + unit) \<times> ('d, 'h, 'm) dma_board) option" where
  "dma_try_init ibus bus handler get_dma_channels dt node b = do {
     reg \<leftarrow> node_reg (dt_node_at dt node);
     (case reg of
        None \<Rightarrow> Some (Inl DeviceTreeError, b)
      | Some rs \<Rightarrow>
          if length rs \<noteq> 1 then Some (Inl DeviceTreeError, b)
          else (case get_dma_channels of
            None \<Rightarrow> Some (Inl Retry, b)
          | Some (Inl _) \<Rightarrow> Some (Inl DeviceFailed, b)
          | Some (Inr usable_mask) \<Rightarrow>
              (case select_channel usable_mask of
                 None \<Rightarrow> Some (Inl DeviceFailed, b)
               | Some channel \<Rightarrow> do {
                   v \<leftarrow> resolve_virq (intc_ops ibus :: (intc, ('d, 'h) board) interrupt_controller) dt node (unat channel)
                          (bd_irqs (de_board b));
                   (case v of
                      Inl _ \<Rightarrow> Some (Inl Retry, b)
                    | Inr virq \<Rightarrow> do {
                        resolved \<leftarrow> resolve_phys_address_and_length dt node 0;
                        (case resolved of
                           None \<Rightarrow> Some (Inl DeviceTreeError, b)
                         | Some (phys_addr, len) \<Rightarrow> do {
                             (reg_base, mmu) \<leftarrow> map_io_region phys_addr len (bd_mmu (de_board b));
                             (page, frames) \<leftarrow> alloc_page (mmu_frames mmu);
                             let b1 = b\<lparr>de_board := (de_board b)\<lparr>bd_mmu := mmu\<lparr>mmu_frames := frames\<rparr>\<rparr>\<rparr>;
                             (case page of
                                None \<Rightarrow> Some (Inl DeviceFailed, b1)
                              | Some va \<Rightarrow>
                                  (case phys_to_dma_bus (virt_to_phys va) of
                                     Inl _ \<Rightarrow> Some (Inl DeviceFailed, b1)
                                   | Inr cb_bus \<Rightarrow> do {
                                       let b2 = b1\<lparr>de_dma := (de_dma b1)\<lparr>dm_hw := bus_store_block bus va control_block_new
                                                                    (dm_hw (de_dma b1))\<rparr>\<rparr>;
                                       path \<leftarrow> node_path dt node;
                                       let dev = \<lparr>dc_id = path, dc_reg_base = reg_base, dc_channel = channel, dc_virq = virq,
                                                 dc_control_block_va = va, dc_control_block_bus = cb_bus\<rparr>;
                                       (r, b3) \<leftarrow> dma_global_setup ibus bus handler dev b2;
                                       (case r of
                                          Inl e \<Rightarrow> Some (Inl e, b3)
                                        | Inr _ \<Rightarrow> Some (Inr (), b3\<lparr>de_devices := add_device path dev (de_devices b3)\<rparr>))
                                     }))
                           })
                      })
                 })))
   }"

section \<open>The verdict on a transfer\<close>

text \<open>What a read of the status registers of the hardware gives, and the hardware after a number of them.\<close>

definition hw_status :: "'d dma_bus \<Rightarrow> dma_channel \<Rightarrow> 'd \<Rightarrow> u32 \<times> u32 \<times> 'd" where
  "hw_status bus dev d =
     (let (cs, d1) = bus_read bus (channel_base dev + DMA_CS_OFFSET) d;
          (debug, d2) = bus_read bus (channel_base dev + DMA_DEBUG_OFFSET) d1
      in (cs, debug, d2))"

fun hw_after :: "'d dma_bus \<Rightarrow> dma_channel \<Rightarrow> nat \<Rightarrow> 'd \<Rightarrow> 'd" where
  "hw_after bus dev 0 d = d"
| "hw_after bus dev (Suc k) d = hw_after bus dev k (snd (snd (hw_status bus dev d)))"

definition hw_verdict :: "'d dma_bus \<Rightarrow> dma_channel \<Rightarrow> 'd \<Rightarrow> (dma_error + unit) option" where
  "hw_verdict bus dev d =
     (let (cs, debug, _) = hw_status bus dev d
      in if status_fault cs debug then Some (Inl Dma_Fault) else if status_done cs then Some (Inr ()) else None)"

text \<open>The first reading with news, and its verdict.\<close>

definition first_news :: "'d dma_bus \<Rightarrow> dma_channel \<Rightarrow> 'd \<Rightarrow> nat \<Rightarrow> dma_error + unit \<Rightarrow> bool" where
  "first_news bus dev d k r \<longleftrightarrow>
     (\<forall>j < k. hw_verdict bus dev (hw_after bus dev j d) = None) \<and> hw_verdict bus dev (hw_after bus dev k d) = Some r"

lemma hw_after_add: "hw_after bus dev (i + k) d = hw_after bus dev k (hw_after bus dev i d)"
  by (induction i arbitrary: d) simp_all

lemma hw_after_1: "hw_after bus dev 1 d = snd (snd (hw_status bus dev d))"
  by simp

definition no_news :: "'d dma_bus \<Rightarrow> dma_channel \<Rightarrow> 'd \<Rightarrow> nat \<Rightarrow> bool" where
  "no_news bus dev d n \<longleftrightarrow> (\<forall>j < n. hw_verdict bus dev (hw_after bus dev j d) = None)"

lemma no_news_add: "no_news bus dev d i \<Longrightarrow> no_news bus dev (hw_after bus dev i d) k \<Longrightarrow> no_news bus dev d (i + k)"
  unfolding no_news_def by (metis hw_after_add add_diff_inverse_nat nat_add_left_cancel_less)

lemma no_news_le: "no_news bus dev d n \<Longrightarrow> m \<le> n \<Longrightarrow> no_news bus dev d m"
  by (auto simp: no_news_def)

lemma first_news_add:
  "no_news bus dev d i \<Longrightarrow> first_news bus dev (hw_after bus dev i d) k r \<Longrightarrow> first_news bus dev d (i + k) r"
  unfolding first_news_def no_news_def [symmetric] by (metis hw_after_add no_news_add)

lemma read_status_eq: "read_status bus dev s =
    (let (cs, debug, d) = hw_status bus dev (dm_hw s)
     in (cs, debug, s\<lparr>dm_hw := d, dm_stats := (dm_stats s)\<lparr>ds_last_cs := cs, ds_last_debug := debug\<rparr>\<rparr>))"
  by (simp add: read_status_def read_channel_reg_def hw_status_def Let_def split: prod.splits)

lemma channel_write_fields [simp]:
  "dm_irq_error (clear_channel_state bus dev s) = dm_irq_error s"
  "dm_irq_complete (clear_channel_state bus dev s) = dm_irq_complete s"
  "dm_locked (clear_channel_state bus dev s) = dm_locked s"
  by (simp_all add: clear_channel_state_def write_channel_reg_def)

text \<open>A poll and the handler read one status and act on its verdict.\<close>

lemma poll_transfer_result_verdict:
  assumes "poll_transfer_result bus dev s = (v, s')"
  shows "v = hw_verdict bus dev (dm_hw s)"
    and "v = None \<Longrightarrow> dm_hw s' = snd (snd (hw_status bus dev (dm_hw s)))
           \<and> dm_irq_error s' = dm_irq_error s \<and> dm_irq_complete s' = dm_irq_complete s"
  using assms
  by (auto simp: poll_transfer_result_def read_status_eq hw_verdict_def Let_def split: prod.splits if_splits)

lemma no_news_iff: "cs AND (DMA_CS_END OR DMA_CS_INT OR DMA_CS_ERR) = 0 \<and> debug AND DMA_DEBUG_CLEAR_MASK = 0
    \<longleftrightarrow> \<not> status_fault cs debug \<and> \<not> status_done cs"
  by (auto simp: status_fault_def status_done_def bit.conj_disj_distrib or_eq_0_iff)

lemma dma_handle_irq_verdict:
  assumes "\<not> dm_irq_error s" "\<not> dm_irq_complete s"
  shows "hw_verdict bus dev (dm_hw s) = None \<Longrightarrow>
      dm_hw (dma_handle_irq bus dev s) = snd (snd (hw_status bus dev (dm_hw s)))
      \<and> \<not> dm_irq_error (dma_handle_irq bus dev s) \<and> \<not> dm_irq_complete (dma_handle_irq bus dev s)"
    and "hw_verdict bus dev (dm_hw s) = Some r \<Longrightarrow> fst (wait_turn bus dev (dma_handle_irq bus dev s)) = Some r"
  using assms unfolding dma_handle_irq_def no_news_iff
  by (auto simp: read_status_eq hw_verdict_def wait_turn_def Let_def split: prod.splits if_splits)

lemma wait_turns_verdict:
  assumes "\<not> dm_irq_error s" "\<not> dm_irq_complete s" "wait_turns bus dev irqs n s = (r, s')"
  shows "(\<exists>k. first_news bus dev (dm_hw s) k r) \<or> r = Inl Dma_Timeout \<and> no_news bus dev (dm_hw s) n"
  using assms
proof (induction n arbitrary: s)
  case (Suc n)
  have poll: ?case
    if turn: "(case poll_transfer_result bus dev t of
          (Some r, s1) \<Rightarrow> (r, s1) | (None, s1) \<Rightarrow> wait_turns bus dev irqs n s1) = (r, s')"
      and t: "dm_hw t = hw_after bus dev i (dm_hw s)" "no_news bus dev (dm_hw s) i"
        "\<not> dm_irq_error t" "\<not> dm_irq_complete t" for t i
  proof (cases "poll_transfer_result bus dev t")
    case (Pair v s1)
    note v = poll_transfer_result_verdict [OF Pair]
    show ?thesis
    proof (cases v)
      case None
      with v t have s1: "dm_hw s1 = hw_after bus dev (Suc i) (dm_hw s)" "\<not> dm_irq_error s1" "\<not> dm_irq_complete s1"
        using hw_after_add [of bus dev i 1 "dm_hw s"] by simp_all
      have quiet: "no_news bus dev (dm_hw s) (Suc i)" using t v(1) None by (auto simp: no_news_def less_Suc_eq)
      have "wait_turns bus dev irqs n s1 = (r, s')" using turn Pair None by simp
      from Suc.IH [OF s1(2,3) this] show ?thesis
      proof (elim disjE exE conjE)
        fix k assume "first_news bus dev (dm_hw s1) k r"
        with quiet show ?thesis using first_news_add s1(1) by metis
      next
        assume "r = Inl Dma_Timeout" "no_news bus dev (dm_hw s1) n"
        with quiet have "no_news bus dev (dm_hw s) (Suc i + n)" using no_news_add s1(1) by metis
        then have "no_news bus dev (dm_hw s) (Suc n)" by (rule no_news_le) simp
        with \<open>r = Inl Dma_Timeout\<close> show ?thesis by blast
      qed
    next
      case (Some v')
      then have "r = v'" "hw_verdict bus dev (hw_after bus dev i (dm_hw s)) = Some v'"
        using turn Pair v(1) t(1) by simp_all
      with t(2) have "first_news bus dev (dm_hw s) i r" by (simp add: first_news_def no_news_def)
      then show ?thesis by blast
    qed
  qed
  show ?case
  proof (cases "irqs n")
    case False
    with Suc.prems show ?thesis by (intro poll [of s 0]) (auto simp: wait_turn_def no_news_def)
  next
    case True
    show ?thesis
    proof (cases "hw_verdict bus dev (dm_hw s)")
      case None
      from dma_handle_irq_verdict(1) [OF Suc.prems(1,2) None] True Suc.prems None show ?thesis
        by (intro poll [of "dma_handle_irq bus dev s" 1]) (auto simp: wait_turn_def no_news_def)
    next
      case (Some v)
      from dma_handle_irq_verdict(2) [OF Suc.prems(1,2) Some] True Suc.prems(3)
      have "first_news bus dev (dm_hw s) 0 r" using Some by (auto simp: first_news_def split: prod.splits)
      then show ?thesis by blast
    qed
  qed
qed (simp add: no_news_def)

text \<open>The control block says what the transfer does.\<close>

definition block_describes :: "control_block \<Rightarrow> dma_2d_transfer \<Rightarrow> bool" where
  "block_describes b t \<longleftrightarrow>
     cb_length b AND 0xffff = tr_row_len_bytes t \<and> drop_bit 16 (cb_length b) = tr_row_count t
     \<and> cb_stride b AND 0xffff = tr_src_stride t \<and> drop_bit 16 (cb_stride b) = tr_dst_stride t
     \<and> cb_src b AND 0x3fffffff = tr_src_bus_addr t AND 0x3fffffff \<and> cb_dst b AND 0x3fffffff = tr_dst_bus_addr t AND 0x3fffffff
     \<and> cb_next b = 0"

lemma half_bits:
  assumes "(c :: u32) \<le> 0xffff"
  shows "take_bit 16 c = c" "drop_bit 16 c = 0" "drop_bit 16 (push_bit 16 c) = c"
proof -
  have "unat c < 2 ^ 16" using assms by (simp add: word_le_nat_alt)
  then have "unat (take_bit 16 c) = unat c" by (simp add: unsigned_take_bit_eq take_bit_nat_eq_self)
  then show c: "take_bit 16 c = c" by (simp add: word_unat_eq_iff)
  then have small: "i < 16" if "bit c i" for i using that by (metis bit_take_bit_iff)
  show "drop_bit 16 c = 0" by (rule bit_word_eqI) (auto simp: bit_drop_bit_eq dest: small)
  show "drop_bit 16 (push_bit 16 c) = c"
    by (rule bit_word_eqI) (auto simp: bit_drop_bit_eq bit_push_bit_iff dest: small)
qed

lemma low_half:
  assumes "(a :: u32) \<le> 0xffff"
  shows "(a OR push_bit 16 b) AND 0xffff = a"
proof -
  have m: "mask 16 = (0xffff :: u32)" by (simp add: mask_eq_exp_minus_1)
  have "(a OR push_bit 16 b) AND 0xffff = take_bit 16 (a OR push_bit 16 b)"
    by (simp only: take_bit_eq_mask m)
  then show ?thesis using half_bits(1) [OF assms] by (simp add: take_bit_push_bit)
qed

lemma transfer_block_describes:
  assumes "transfer_ok t"
  shows "block_describes (transfer_block dev t) t"
proof -
  have "dma_bus_addr a AND 0x3fffffff = a AND 0x3fffffff" for a
    by (simp add: dma_bus_addr_def DMA_BUS_ALIAS_MASK_def DMA_BUS_ALIAS_NONALLOCATING_def bit.conj_disj_distrib2 and.assoc)
  with assms show ?thesis
    by (simp add: block_describes_def transfer_block_def transfer_ok_def low_half half_bits not_less)
qed

lemma reset_polls_error: "reset_polls bus dev n s = (Inl e, s') \<Longrightarrow> e = Dma_Timeout"
  by (induction n arbitrary: s) (auto simp: Let_def split: prod.splits if_splits)

lemma start_transfer_error: "start_transfer bus dev s = (Inl e, s') \<Longrightarrow> e = Dma_Timeout"
  by (auto simp: start_transfer_def reset_channel_def Let_def split: prod.splits sum.splits dest: reset_polls_error)

lemma start_transfer_flags:
  "start_transfer bus dev s = (Inr u, s') \<Longrightarrow> \<not> dm_irq_error s' \<and> \<not> dm_irq_complete s'"
  by (auto simp: start_transfer_def write_channel_reg_def Let_def split: prod.splits sum.splits)

text \<open>C32: What becomes of a 2D copy, whatever the hardware does and whenever the interrupt of the channel comes: a
  transfer that does not fit the registers is rejected and leaves the hardware alone; otherwise the control
  block in memory describes the transfer, and once the channel is started the result is the verdict of the first
  reading of the status registers that has news, read by the handler or by the poll, and a timeout means that
  none of 128000000 readings had any. The lock is free afterwards.\<close>

theorem copy_2d_follows_status:
  assumes "\<not> dm_locked s" "copy_2d bus dev irqs t s = (r, s')"
  shows "\<not> dm_locked s' \<and>
    (if transfer_ok t
     then (let stored = s\<lparr>dm_locked := True, dm_hw := bus_store_block bus (dc_control_block_va dev) (transfer_block dev t) (dm_hw s)\<rparr>
           in block_describes (transfer_block dev t) t
              \<and> (case start_transfer bus dev stored of
                   (Inl e, _) \<Rightarrow> r = Inl Dma_Timeout
                 | (Inr _, started) \<Rightarrow> (\<exists>k. first_news bus dev (dm_hw started) k r)
                     \<or> r = Inl Dma_Timeout \<and> no_news bus dev (dm_hw started) 128000000))
     else r = Inl Dma_InvalidTransfer \<and> dm_hw s' = dm_hw s)"
proof (cases "transfer_ok t")
  case False
  then show ?thesis using assms by (auto simp: copy_2d_def fill_control_block_def)
next
  case ok: True
  define stored where "stored = s\<lparr>dm_locked := True, dm_hw := bus_store_block bus (dc_control_block_va dev) (transfer_block dev t) (dm_hw s)\<rparr>"
  obtain q started where start: "start_transfer bus dev stored = (q, started)" by fastforce
  have fill: "fill_control_block bus dev t (s\<lparr>dm_locked := True\<rparr>) = (Inr (), stored)"
    using ok by (simp add: fill_control_block_def stored_def)
  show ?thesis
  proof (cases q)
    case (Inl e)
    then have "e = Dma_Timeout" using start by (simp add: start_transfer_error)
    then show ?thesis
      using assms ok start fill Inl transfer_block_describes [OF ok]
      by (auto simp: copy_2d_def stored_def [symmetric])
  next
    case (Inr u)
    obtain v waited where wait: "wait_turns bus dev irqs DMA_WAIT_POLL_LIMIT started = (v, waited)" by fastforce
    have "\<not> dm_irq_error started" "\<not> dm_irq_complete started" using start_transfer_flags start Inr by blast+
    note verdict = wait_turns_verdict [OF this wait]
    have "r = v" "\<not> dm_locked s'"
      using assms fill start Inr wait by (auto simp: copy_2d_def wait_for_transfer_def split: sum.splits)
    with verdict show ?thesis
      using ok start Inr transfer_block_describes [OF ok]
      by (simp add: stored_def [symmetric] DMA_WAIT_POLL_LIMIT_def)
  qed
qed

text \<open>A channel that is done at once.\<close>

definition example_dma_bus :: "unit dma_bus" where
  "example_dma_bus = \<lparr>bus_read = (\<lambda>a d. (if a = 0x1000 then 2 else 0, d)), bus_write = (\<lambda>_ _ d. d),
     bus_store_block = (\<lambda>_ _ d. d)\<rparr>"

definition example_dma_channel :: dma_channel where
  "example_dma_channel = \<lparr>dc_id = ''/soc/dma'', dc_reg_base = 0x1000, dc_channel = 0, dc_virq = 16,
     dc_control_block_va = 0x2000, dc_control_block_bus = 0x80002000\<rparr>"

definition example_dma_state :: "unit dma_state" where
  "example_dma_state = \<lparr>dm_hw = (), dm_irq_complete = True, dm_irq_error = False, dm_locked = False,
     dm_stats = dma_reset_stats undefined\<rparr>"

definition example_transfer :: dma_2d_transfer where
  "example_transfer = \<lparr>tr_src_bus_addr = 0xc0010000, tr_dst_bus_addr = 0xc0000000, tr_row_len_bytes = 64,
     tr_row_count = 16, tr_src_stride = 0, tr_dst_stride = 0\<rparr>"

lemma reset_polls_first:
  "0 < n \<Longrightarrow> reset_polls bus dev n s =
     (let (cs, s1) = read_channel_reg bus dev DMA_CS_OFFSET s
      in if cs AND DMA_CS_RESET = 0 then (Inr (), clear_channel_state bus dev s1) else reset_polls bus dev (n - 1) s1)"
  using reset_polls.simps(2) [of bus dev "n - 1" s] by (simp del: reset_polls.simps)

lemma wait_turns_first:
  "0 < n \<Longrightarrow> wait_turns bus dev irqs n s =
     (case wait_turn bus dev (if irqs (n - 1) then dma_handle_irq bus dev s else s) of
        (Some r, s1) \<Rightarrow> (r, s1) | (None, s1) \<Rightarrow> wait_turns bus dev irqs (n - 1) s1)"
  using wait_turns.simps(2) [of bus dev irqs "n - 1" s] by (simp del: wait_turns.simps)

lemma example_transfer_ok: "transfer_ok example_transfer"
  by (simp add: transfer_ok_def example_transfer_def)

lemma example_copy: "fst (copy_2d example_dma_bus example_dma_channel (\<lambda>_. True) example_transfer example_dma_state) = Inr ()"
proof -
  have regs: "read_channel_reg example_dma_bus example_dma_channel DMA_CS_OFFSET s = (2, s)"
    "read_channel_reg example_dma_bus example_dma_channel DMA_DEBUG_OFFSET s = (0, s)"
    "write_channel_reg example_dma_bus example_dma_channel a v s = s" for a v s
    by (simp_all add: read_channel_reg_def write_channel_reg_def channel_base_def example_dma_bus_def example_dma_channel_def
        DMA_CS_OFFSET_def DMA_DEBUG_OFFSET_def)
  have bits: "(2 :: u32) AND DMA_CS_RESET = 0" "\<not> status_fault 2 0" "status_done 2"
    "(2 :: u32) AND (DMA_CS_END OR DMA_CS_INT OR DMA_CS_ERR) \<noteq> 0"
    by (simp_all add: status_fault_def status_done_def DMA_CS_RESET_def DMA_CS_ERR_def DMA_CS_END_def DMA_CS_INT_def)
  have start: "\<exists>s'. start_transfer example_dma_bus example_dma_channel s = (Inr (), s')
      \<and> \<not> dm_irq_error s' \<and> \<not> dm_irq_complete s'" for s
    by (simp add: start_transfer_def reset_channel_def reset_polls_first DMA_RESET_POLL_LIMIT_def regs bits clear_channel_state_def)
  obtain s1 where s1: "fill_control_block example_dma_bus example_dma_channel example_transfer (example_dma_state\<lparr>dm_locked := True\<rparr>) = (Inr (), s1)"
    by (simp add: fill_control_block_def example_transfer_ok)
  from start obtain s2 where s2: "start_transfer example_dma_bus example_dma_channel s1 = (Inr (), s2)"
    "\<not> dm_irq_error s2" "\<not> dm_irq_complete s2" by blast
  have "\<exists>s3. wait_for_transfer example_dma_bus example_dma_channel (\<lambda>_. True) s2 = (Inr (), s3)"
    using s2(2) by (simp add: wait_for_transfer_def wait_turns_first DMA_WAIT_POLL_LIMIT_def wait_turn_def dma_handle_irq_def
        read_status_def regs bits clear_channel_state_def)
  then show ?thesis using s1 s2(1) by (auto simp: copy_2d_def example_dma_state_def)
qed

theorem copy_2d_follows_status_witness:
  "\<exists>s'. copy_2d example_dma_bus example_dma_channel (\<lambda>_. True) example_transfer example_dma_state = (Inr (), s')
     \<and> \<not> dm_locked s' \<and> block_describes (transfer_block example_dma_channel example_transfer) example_transfer"
proof -
  obtain s' where s': "copy_2d example_dma_bus example_dma_channel (\<lambda>_. True) example_transfer example_dma_state = (Inr (), s')"
    using example_copy by (metis prod.collapse)
  have "\<not> dm_locked example_dma_state" by (simp add: example_dma_state_def)
  from copy_2d_follows_status [OF this s'] s' example_transfer_ok show ?thesis by (simp add: Let_def)
qed

end
