(* ===== verification/Fb_Console.thy ===== *)
theory Fb_Console
  imports Drawing Dma
begin

text \<open>The text console on the frame buffer (\<open>drivers/display/fb_console.rs\<close>): a parser that drops escape
  sequences, a cursor over a grid of cells and scrolling, by the DMA engine when there is one. The engine is a
  function on its own state \<open>'e\<close> and the memory.\<close>

definition DEFAULT_FG :: u32 where "DEFAULT_FG = 0xffffffff"
definition DEFAULT_BG :: u32 where "DEFAULT_BG = 0xff000000"
definition FB_DMA_ERROR_NONE :: u32 where "FB_DMA_ERROR_NONE = 0"
definition FB_DMA_ERROR_BUSY :: u32 where "FB_DMA_ERROR_BUSY = 1"
definition FB_DMA_ERROR_UNAVAILABLE :: u32 where "FB_DMA_ERROR_UNAVAILABLE = 2"
definition FB_DMA_ERROR_INVALID :: u32 where "FB_DMA_ERROR_INVALID = 3"
definition FB_DMA_ERROR_TIMEOUT :: u32 where "FB_DMA_ERROR_TIMEOUT = 4"
definition FB_DMA_ERROR_FAULT :: u32 where "FB_DMA_ERROR_FAULT = 5"

definition fb_dma_error_name :: "u32 \<Rightarrow> string" where
  "fb_dma_error_name code =
     (if code = FB_DMA_ERROR_BUSY then ''busy''
      else if code = FB_DMA_ERROR_UNAVAILABLE then ''no-engine''
      else if code = FB_DMA_ERROR_INVALID then ''invalid''
      else if code = FB_DMA_ERROR_TIMEOUT then ''timeout''
      else if code = FB_DMA_ERROR_FAULT then ''fault''
      else ''none'')"

record fb_stats =
  fs_scrolls :: u32
  fs_dma_attempts :: u32
  fs_dma_successes :: u32
  fs_no_engine_fallbacks :: u32
  fs_busy_fallbacks :: u32
  fs_error_fallbacks :: u32
  fs_disabled_fallbacks :: u32
  fs_last_dma_error :: u32

definition reset_fb_stats :: "fb_stats \<Rightarrow> fb_stats" where
  "reset_fb_stats s = \<lparr>fs_scrolls = 0, fs_dma_attempts = 0, fs_dma_successes = 0, fs_no_engine_fallbacks = 0,
     fs_busy_fallbacks = 0, fs_error_fallbacks = 0, fs_disabled_fallbacks = 0, fs_last_dma_error = FB_DMA_ERROR_NONE\<rparr>"

datatype ansi_state = Ansi_Normal | Ansi_Escape | Ansi_Csi | Ansi_Osc

record fb_console =
  fc_col :: u32
  fc_row :: u32
  fc_cols :: u32
  fc_rows :: u32
  fc_fb_width :: u32
  fc_fb_height :: u32
  fc_fg :: u32
  fc_bg :: u32
  fc_ansi_state :: ansi_state
  fc_dma_failed :: bool

text \<open>The machine of the console: memory, the counters and the engine.\<close>

record 'e fb_world =
  fw_vram :: vram
  fw_stats :: fb_stats
  fw_engine :: 'e

type_synonym 'e dma_engine = "dma_2d_transfer \<Rightarrow> vram \<Rightarrow> 'e \<Rightarrow> (dma_error + unit) \<times> vram \<times> 'e"

definition on_vram :: "(vram \<Rightarrow> vram option) \<Rightarrow> 'e fb_world \<Rightarrow> 'e fb_world option" where
  "on_vram f w = map_option (\<lambda>m. w\<lparr>fw_vram := m\<rparr>) (f (fw_vram w))"

definition fb_stat :: "(fb_stats \<Rightarrow> fb_stats) \<Rightarrow> 'e fb_world \<Rightarrow> 'e fb_world" where
  "fb_stat f w = w\<lparr>fw_stats := f (fw_stats w)\<rparr>"

definition fb_console_new :: "framebuffer \<Rightarrow> 'e fb_world \<Rightarrow> (fb_console \<times> 'e fb_world) option" where
  "fb_console_new fb w = do {
     w' \<leftarrow> on_vram (fill_rect fb 0 0 (fb_width fb) (fb_height fb) DEFAULT_BG) w;
     Some (\<lparr>fc_col = 0, fc_row = 0, fc_cols = fb_width fb div FONT_WIDTH, fc_rows = fb_height fb div FONT_HEIGHT,
            fc_fb_width = fb_width fb, fc_fb_height = fb_height fb, fc_fg = DEFAULT_FG, fc_bg = DEFAULT_BG,
            fc_ansi_state = Ansi_Normal, fc_dma_failed = False\<rparr>, w')
   }"

definition scroll_transfer :: "framebuffer \<Rightarrow> fb_console \<Rightarrow> dma_2d_transfer" where
  "scroll_transfer fb s =
     (let row_len_bytes = fc_fb_width s * 4; row_count = (fc_rows s - 1) * FONT_HEIGHT
      in \<lparr>tr_src_bus_addr = fb_bus_addr fb + FONT_HEIGHT * fb_pitch fb, tr_dst_bus_addr = fb_bus_addr fb,
          tr_row_len_bytes = row_len_bytes, tr_row_count = row_count,
          tr_src_stride = fb_pitch fb - row_len_bytes, tr_dst_stride = fb_pitch fb - row_len_bytes\<rparr>)"

definition fb_error_code :: "dma_error \<Rightarrow> u32" where
  "fb_error_code err = (case err of
     Dma_InvalidTransfer \<Rightarrow> FB_DMA_ERROR_INVALID
   | Dma_Timeout \<Rightarrow> FB_DMA_ERROR_TIMEOUT
   | Dma_Fault \<Rightarrow> FB_DMA_ERROR_FAULT
   | _ \<Rightarrow> FB_DMA_ERROR_NONE)"

text \<open>The attempt to scroll by DMA: whether it was done, the console and the world.\<close>

definition scroll_by_dma :: "framebuffer \<Rightarrow> 'e dma_engine option \<Rightarrow> fb_console \<Rightarrow> 'e fb_world
    \<Rightarrow> bool \<times> fb_console \<times> 'e fb_world" where
  "scroll_by_dma fb engine s w =
     (if fc_dma_failed s
      then (False, s, fb_stat (\<lambda>c. c\<lparr>fs_disabled_fallbacks := fs_disabled_fallbacks c + 1\<rparr>) w)
      else (case engine of
        None \<Rightarrow> (False, s, fb_stat (\<lambda>c. c\<lparr>fs_no_engine_fallbacks := fs_no_engine_fallbacks c + 1,
                                          fs_last_dma_error := FB_DMA_ERROR_UNAVAILABLE\<rparr>) w)
      | Some dma_copy_2d \<Rightarrow>
          let w1 = fb_stat (\<lambda>c. c\<lparr>fs_dma_attempts := fs_dma_attempts c + 1\<rparr>) w;
              (r, m, e) = dma_copy_2d (scroll_transfer fb s) (fw_vram w1) (fw_engine w1);
              w2 = w1\<lparr>fw_vram := m, fw_engine := e\<rparr>
          in (case r of
                Inr _ \<Rightarrow> (True, s, fb_stat (\<lambda>c. c\<lparr>fs_dma_successes := fs_dma_successes c + 1,
                                                  fs_last_dma_error := FB_DMA_ERROR_NONE\<rparr>) w2)
              | Inl Dma_Busy \<Rightarrow> (False, s, fb_stat (\<lambda>c. c\<lparr>fs_busy_fallbacks := fs_busy_fallbacks c + 1,
                                                  fs_last_dma_error := FB_DMA_ERROR_BUSY\<rparr>) w2)
              | Inl Dma_Unavailable \<Rightarrow> (False, s, fb_stat (\<lambda>c. c\<lparr>fs_no_engine_fallbacks := fs_no_engine_fallbacks c + 1,
                                                  fs_last_dma_error := FB_DMA_ERROR_UNAVAILABLE\<rparr>) w2)
              | Inl err \<Rightarrow> (False, s\<lparr>fc_dma_failed := True\<rparr>,
                            fb_stat (\<lambda>c. c\<lparr>fs_error_fallbacks := fs_error_fallbacks c + 1,
                                          fs_last_dma_error := fb_error_code err\<rparr>) w2))))"

definition fb_scroll :: "framebuffer \<Rightarrow> 'e dma_engine option \<Rightarrow> fb_console \<Rightarrow> 'e fb_world
    \<Rightarrow> (fb_console \<times> 'e fb_world) option" where
  "fb_scroll fb engine s w = do {
     let row_count = (fc_rows s - 1) * FONT_HEIGHT;
     let w0 = fb_stat (\<lambda>c. c\<lparr>fs_scrolls := fs_scrolls c + 1\<rparr>) w;
     let (used_dma, s1, w1) = scroll_by_dma fb engine s w0;
     w2 \<leftarrow> (if used_dma then Some w1
            else on_vram (copy_region fb 0 FONT_HEIGHT 0 0 (fc_fb_width s1) row_count) w1);
     w3 \<leftarrow> on_vram (fill_rect fb 0 ((fc_rows s1 - 1) * FONT_HEIGHT) (fc_fb_width s1) FONT_HEIGHT (fc_bg s1)) w2;
     Some (s1\<lparr>fc_row := fc_rows s1 - 1\<rparr>, w3)
   }"

definition fb_newline :: "framebuffer \<Rightarrow> 'e dma_engine option \<Rightarrow> fb_console \<Rightarrow> 'e fb_world
    \<Rightarrow> (fb_console \<times> 'e fb_world) option" where
  "fb_newline fb engine s w =
     (let s1 = s\<lparr>fc_col := 0, fc_row := fc_row s + 1\<rparr>
      in if fc_rows s1 \<le> fc_row s1 then fb_scroll fb engine s1 w else Some (s1, w))"

definition fb_normal_byte :: "framebuffer \<Rightarrow> 'e dma_engine option \<Rightarrow> u8 \<Rightarrow> fb_console \<Rightarrow> 'e fb_world
    \<Rightarrow> (fb_console \<times> 'e fb_world) option" where
  "fb_normal_byte fb engine byte s w =
     (if byte = 0x1b then Some (s\<lparr>fc_ansi_state := Ansi_Escape\<rparr>, w)
      else if 0x20 \<le> byte \<and> byte \<le> 0x7e then do {
        let px = fc_col s * FONT_WIDTH;
        let py = fc_row s * FONT_HEIGHT;
        bitmap \<leftarrow> get_glyph (unat byte);
        w1 \<leftarrow> on_vram (draw_glyph fb px py bitmap (fc_fg s) (fc_bg s)) w;
        let s1 = s\<lparr>fc_col := fc_col s + 1\<rparr>;
        (if fc_cols s1 \<le> fc_col s1 then fb_newline fb engine s1 w1 else Some (s1, w1))
      }
      else if byte = 0x0a then fb_newline fb engine s w
      else if byte = 0x0d then Some (s\<lparr>fc_col := 0\<rparr>, w)
      else if byte = 0x08 then do {
        let s1 = (if fc_col s > 0 then s\<lparr>fc_col := fc_col s - 1\<rparr> else s);
        let px = fc_col s1 * FONT_WIDTH;
        let py = fc_row s1 * FONT_HEIGHT;
        w1 \<leftarrow> on_vram (fill_rect fb px py FONT_WIDTH FONT_HEIGHT (fc_bg s1)) w;
        Some (s1, w1)
      }
      else Some (s, w))"

definition ansi_next :: "ansi_state \<Rightarrow> u8 \<Rightarrow> ansi_state" where
  "ansi_next st byte = (case st of
     Ansi_Escape \<Rightarrow>
       (if byte = 0x5b then Ansi_Csi else if byte = 0x5d then Ansi_Osc
        else if byte = 0x1b then Ansi_Escape else Ansi_Normal)
   | Ansi_Csi \<Rightarrow> (if 0x40 \<le> byte \<and> byte \<le> 0x7e then Ansi_Normal else Ansi_Csi)
   | Ansi_Osc \<Rightarrow> (if byte = 0x07 then Ansi_Normal else if byte = 0x1b then Ansi_Escape else Ansi_Osc)
   | Ansi_Normal \<Rightarrow> Ansi_Normal)"

definition fb_write_byte :: "framebuffer \<Rightarrow> 'e dma_engine option \<Rightarrow> u8 \<Rightarrow> fb_console \<Rightarrow> 'e fb_world
    \<Rightarrow> (fb_console \<times> 'e fb_world) option" where
  "fb_write_byte fb engine byte s w =
     (if fc_ansi_state s = Ansi_Normal then fb_normal_byte fb engine byte s w
      else Some (s\<lparr>fc_ansi_state := ansi_next (fc_ansi_state s) byte\<rparr>, w))"

fun fb_write :: "framebuffer \<Rightarrow> 'e dma_engine option \<Rightarrow> u8 list \<Rightarrow> fb_console \<Rightarrow> 'e fb_world
    \<Rightarrow> (fb_console \<times> 'e fb_world) option" where
  "fb_write fb engine [] s w = Some (s, w)"
| "fb_write fb engine (b # bs) s w = do {
     (s', w') \<leftarrow> fb_write_byte fb engine b s w;
     fb_write fb engine bs s' w'
   }"


section \<open>Text on the screen\<close>

text \<open>The screen as rows of characters with a cursor, and the text that is left when escape sequences are
  dropped.\<close>

record text_screen =
  ts_lines :: "u8 list list"
  ts_col :: nat
  ts_row :: nat

definition blank_line :: "nat \<Rightarrow> u8 list" where "blank_line cols = replicate cols 0x20"

definition blank_screen :: "nat \<Rightarrow> nat \<Rightarrow> text_screen" where
  "blank_screen cols rows = \<lparr>ts_lines = replicate rows (blank_line cols), ts_col = 0, ts_row = 0\<rparr>"

definition put_char :: "text_screen \<Rightarrow> u8 \<Rightarrow> text_screen" where
  "put_char t b = t\<lparr>ts_lines := (ts_lines t)[ts_row t := (ts_lines t ! ts_row t)[ts_col t := b]]\<rparr>"

definition text_newline :: "text_screen \<Rightarrow> text_screen" where
  "text_newline t =
     (if Suc (ts_row t) < length (ts_lines t) then t\<lparr>ts_col := 0, ts_row := Suc (ts_row t)\<rparr>
      else t\<lparr>ts_col := 0, ts_lines := tl (ts_lines t) @ [blank_line (length (hd (ts_lines t)))]\<rparr>)"

definition text_byte :: "text_screen \<Rightarrow> u8 \<Rightarrow> text_screen" where
  "text_byte t b =
     (if 0x20 \<le> b \<and> b \<le> 0x7e then
        let t1 = (put_char t b)\<lparr>ts_col := Suc (ts_col t)\<rparr>
        in if ts_col t1 < length (ts_lines t ! ts_row t) then t1 else text_newline t1
      else if b = 0x0a then text_newline t
      else if b = 0x0d then t\<lparr>ts_col := 0\<rparr>
      else if b = 0x08 then put_char (t\<lparr>ts_col := ts_col t - 1\<rparr>) 0x20
      else t)"

fun strip_escapes :: "ansi_state \<Rightarrow> u8 list \<Rightarrow> u8 list" where
  "strip_escapes st [] = []"
| "strip_escapes st (b # bs) =
     (if st \<noteq> Ansi_Normal then strip_escapes (ansi_next st b) bs
      else if b = 0x1b then strip_escapes Ansi_Escape bs
      else b # strip_escapes Ansi_Normal bs)"

definition text_shown :: "nat \<Rightarrow> nat \<Rightarrow> u8 list \<Rightarrow> text_screen" where
  "text_shown cols rows bs = foldl text_byte (blank_screen cols rows) (strip_escapes Ansi_Normal bs)"

text \<open>The picture of a screen: the glyphs of its characters, and the background beside them.\<close>

definition text_picture :: "u32 \<Rightarrow> u32 \<Rightarrow> u8 list list \<Rightarrow> picture" where
  "text_picture fg bg lines =
     (\<lambda>x y. if y div 16 < length lines \<and> x div 8 < length (lines ! (y div 16))
            then if bit (FONT_ROWS ! glyph_index (unat (lines ! (y div 16) ! (x div 8))) ! (y mod 16)) (7 - x mod 8) then fg else bg
            else bg)"

section \<open>What the console's drawing does to the text\<close>

lemma cell_rect: "in_rect (8 * c) (16 * r) (8 * c + 8) (16 * r + 16) x y \<longleftrightarrow> x div 8 = c \<and> y div 16 = r"
  by (auto simp: in_rect_def)

lemma blank_glyph [simp]: "FONT_ROWS ! glyph_index 0x20 = replicate 16 0"
  by (simp add: glyph_index_def FONT_ROWS_blank)

lemma glyph_picture_text:
  assumes "r < length lines" "c < length (lines ! r)" "bitmap = FONT_ROWS ! glyph_index (unat b)"
  shows "glyph_picture (8 * c) (16 * r) bitmap fg bg (text_picture fg bg lines)
    = text_picture fg bg (lines[r := (lines ! r)[c := b]])"
proof (intro ext)
  fix x y
  have len: "length bitmap = 16" by (simp add: assms(3))
  show "glyph_picture (8 * c) (16 * r) bitmap fg bg (text_picture fg bg lines) x y
      = text_picture fg bg (lines[r := (lines ! r)[c := b]]) x y"
  proof (cases "x div 8 = c \<and> y div 16 = r")
    case True
    then have "x - 8 * c = x mod 8" "y - 16 * r = y mod 16" by (auto simp: minus_mult_div_eq_mod)
    with True assms show ?thesis by (simp add: glyph_picture_def text_picture_def len cell_rect)
  next
    case False
    then have "text_picture fg bg lines x y = text_picture fg bg (lines[r := (lines ! r)[c := b]]) x y"
      by (cases "y div 16 = r") (auto simp: text_picture_def nth_list_update)
    with False show ?thesis by (auto simp: glyph_picture_def len cell_rect)
  qed
qed

lemma fill_picture_text:
  assumes "r < length lines" "c < length (lines ! r)"
  shows "fill_picture (8 * c) (16 * r) 8 16 bg (text_picture fg bg lines)
    = text_picture fg bg (lines[r := (lines ! r)[c := 0x20]])"
proof -
  have "fill_picture (8 * c) (16 * r) 8 16 bg p = glyph_picture (8 * c) (16 * r) (replicate 16 0) fg bg p" for p
    by (intro ext) (auto simp: fill_picture_def glyph_picture_def in_rect_def)
  with glyph_picture_text [OF assms, where b = "0x20" and bitmap = "replicate 16 0"] show ?thesis by simp
qed

lemma scroll_picture_text:
  assumes "lines \<noteq> []" "n = 16 * (length lines - 1)" "x < w"
  shows "fill_picture 0 n w 16 bg (copy_picture 0 16 0 0 w n (text_picture fg bg lines)) x y
    = text_picture fg bg (tl lines @ [blank_line k]) x y"
proof -
  obtain l ls where lines: "lines = l # ls" using assms(1) by (cases lines) auto
  have n: "n = 16 * length ls" using assms(2) lines by simp
  consider "y < n" | "n \<le> y" "y < n + 16" | "n + 16 \<le> y" by linarith
  then show ?thesis
  proof cases
    case 1
    then have "y div 16 < length ls" using n by linarith
    moreover have "(y + 16) div 16 = Suc (y div 16)" "(y + 16) mod 16 = y mod 16" by simp_all
    ultimately show ?thesis using 1 assms(3)
      by (simp add: fill_picture_def copy_picture_def in_rect_def text_picture_def lines nth_append)
  next
    case 2
    then have "y div 16 = length ls" using n by linarith
    then show ?thesis using 2 assms(3)
      by (simp add: fill_picture_def in_rect_def text_picture_def lines nth_append blank_line_def)
  next
    case 3
    then have "Suc (length ls) \<le> y div 16" using n by linarith
    then show ?thesis using 3 assms(3)
      by (simp add: fill_picture_def copy_picture_def in_rect_def text_picture_def lines)
  qed
qed


section \<open>The console shows the text\<close>

text \<open>The contract of \<open>copy_2d\<close> for the transfer of a scroll: a copy that is reported done moves the rows, and a
  failed one leaves the pixels alone.\<close>

definition scroll_rows :: "framebuffer \<Rightarrow> u32 \<Rightarrow> dma_2d_transfer" where
  "scroll_rows fb rows =
     \<lparr>tr_src_bus_addr = fb_bus_addr fb + FONT_HEIGHT * fb_pitch fb, tr_dst_bus_addr = fb_bus_addr fb,
      tr_row_len_bytes = fb_width fb * 4, tr_row_count = rows,
      tr_src_stride = fb_pitch fb - fb_width fb * 4, tr_dst_stride = fb_pitch fb - fb_width fb * 4\<rparr>"

definition engine_scrolls_at :: "framebuffer \<Rightarrow> 'e dma_engine \<Rightarrow> vram \<Rightarrow> picture \<Rightarrow> u32 \<Rightarrow> vram \<Rightarrow> 'e \<Rightarrow> bool" where
  "engine_scrolls_at fb copy m0 p rows m e \<longleftrightarrow>
     (case copy (scroll_rows fb rows) m e of (r, m', _) \<Rightarrow>
        shows_picture fb m0 m p \<longrightarrow>
          shows_picture fb m0 m' (case r of
            Inr _ \<Rightarrow> copy_picture 0 16 0 0 (unat (fb_width fb)) (unat rows) p
          | Inl _ \<Rightarrow> p))"

definition engine_scrolls :: "framebuffer \<Rightarrow> 'e dma_engine \<Rightarrow> bool" where
  "engine_scrolls fb copy \<longleftrightarrow> (\<forall>m0 p rows m e. engine_scrolls_at fb copy m0 p rows m e)"

definition engine_ok :: "framebuffer \<Rightarrow> 'e dma_engine option \<Rightarrow> bool" where
  "engine_ok fb engine \<longleftrightarrow> (case engine of None \<Rightarrow> True | Some copy \<Rightarrow> engine_scrolls fb copy)"

text \<open>A frame buffer of at least one cell.\<close>

definition fb_has_cells :: "framebuffer \<Rightarrow> bool" where
  "fb_has_cells fb \<longleftrightarrow> fb_wf fb \<and> 8 \<le> unat (fb_width fb) \<and> 16 \<le> unat (fb_height fb)"

definition con_shows :: "framebuffer \<Rightarrow> vram \<Rightarrow> text_screen \<Rightarrow> fb_console \<Rightarrow> 'e fb_world \<Rightarrow> bool" where
  "con_shows fb m0 t s w \<longleftrightarrow>
     fc_cols s = fb_width fb div 8 \<and> fc_rows s = fb_height fb div 16 \<and> fc_fb_width s = fb_width fb
     \<and> unat (fc_col s) = ts_col t \<and> unat (fc_row s) = ts_row t
     \<and> length (ts_lines t) = unat (fb_height fb) div 16 \<and> (\<forall>l \<in> set (ts_lines t). length l = unat (fb_width fb) div 8)
     \<and> ts_col t < unat (fb_width fb) div 8 \<and> ts_row t < unat (fb_height fb) div 16
     \<and> shows_picture fb m0 (fw_vram w) (text_picture (fc_fg s) (fc_bg s) (ts_lines t))"

lemma fb_small:
  assumes "fb_has_cells fb"
  shows "unat (fb_width fb) < 2 ^ 30" "unat (fb_height fb) < 2 ^ 27"
proof -
  have wf: "unat (fb_width fb) * 4 \<le> unat (fb_pitch fb)" "unat (fb_height fb) * unat (fb_pitch fb) < 2 ^ 32"
    "8 \<le> unat (fb_width fb)" "16 \<le> unat (fb_height fb)"
    using assms by (simp_all add: fb_has_cells_def fb_wf_def)
  then have "unat (fb_width fb) * 4 < 2 ^ 32" using unat_less_2_32 [of "fb_pitch fb"] by linarith
  then show "unat (fb_width fb) < 2 ^ 30" by simp
  have "unat (fb_height fb) * 32 \<le> unat (fb_height fb) * unat (fb_pitch fb)" using wf(1,3) by (intro mult_le_mono2) simp
  with wf(2) have "unat (fb_height fb) * 32 < 2 ^ 32" by linarith
  then show "unat (fb_height fb) < 2 ^ 27" by simp
qed

lemma unat_FONT: "unat FONT_WIDTH = 8" "unat FONT_HEIGHT = 16"
  by (simp_all add: FONT_WIDTH_def FONT_HEIGHT_def)

lemma unat_cell:
  assumes "fb_has_cells fb"
  shows "unat c < unat (fb_width fb) div 8 \<Longrightarrow> unat (c * FONT_WIDTH) = 8 * unat c"
    and "unat r < unat (fb_height fb) div 16 \<Longrightarrow> unat (r * FONT_HEIGHT) = 16 * unat r"
  using fb_small [OF assms] by (simp_all add: unat_word_ariths FONT_WIDTH_def FONT_HEIGHT_def)

lemma on_vram_draws:
  assumes "draws fb m0 (f (fw_vram w)) p"
  shows "\<exists>w'. on_vram f w = Some w' \<and> shows_picture fb m0 (fw_vram w') p"
  using assms by (auto simp: on_vram_def elim!: drawsE)

lemma con_showsD:
  assumes "con_shows fb m0 t s w"
  shows "fc_cols s = fb_width fb div 8" "fc_rows s = fb_height fb div 16" "fc_fb_width s = fb_width fb"
    "unat (fc_col s) = ts_col t" "unat (fc_row s) = ts_row t"
    "length (ts_lines t) = unat (fb_height fb) div 16" "\<And>l. l \<in> set (ts_lines t) \<Longrightarrow> length l = unat (fb_width fb) div 8"
    "ts_col t < unat (fb_width fb) div 8" "ts_row t < unat (fb_height fb) div 16"
    "shows_picture fb m0 (fw_vram w) (text_picture (fc_fg s) (fc_bg s) (ts_lines t))"
  using assms by (simp_all add: con_shows_def)

lemma unat_div_cells: "unat (w div 8) = unat w div 8" "unat (w div 16) = unat w div 16" for w :: u32
  by (simp_all add: unat_div)

lemma same_failed: "\<exists>f. s = (s :: fb_console)\<lparr>fc_dma_failed := f\<rparr>"
  by (rule exI [of _ "fc_dma_failed s"]) simp

lemma engine_scrollsD:
  assumes "engine_scrolls fb copy" "shows_picture fb m0 m p" "copy (scroll_rows fb rows) m e = (r, m', e')"
  shows "shows_picture fb m0 m' (case r of
      Inr _ \<Rightarrow> copy_picture 0 16 0 0 (unat (fb_width fb)) (unat rows) p | Inl _ \<Rightarrow> p)"
proof -
  have "engine_scrolls_at fb copy m0 p rows m e" using assms(1) by (simp add: engine_scrolls_def)
  with assms(2,3) show ?thesis by (simp add: engine_scrolls_at_def)
qed

lemma scroll_by_dma_shows:
  assumes "engine_ok fb engine" "fc_fb_width s = fb_width fb" "shows_picture fb m0 (fw_vram w) p"
    "scroll_by_dma fb engine s w = (used, s', w')"
  shows "(\<exists>f. s' = s\<lparr>fc_dma_failed := f\<rparr>)
    \<and> shows_picture fb m0 (fw_vram w')
        (if used then copy_picture 0 16 0 0 (unat (fb_width fb)) (unat ((fc_rows s - 1) * FONT_HEIGHT)) p else p)"
proof (cases "fc_dma_failed s \<or> engine = None")
  case True
  then show ?thesis using assms(3,4) by (auto simp: scroll_by_dma_def fb_stat_def intro: same_failed split: option.splits if_splits)
next
  case False
  then obtain copy where engine: "engine = Some copy" by auto
  obtain r m e where copy: "copy (scroll_transfer fb s) (fw_vram w) (fw_engine w) = (r, m, e)" by (rule prod_cases3)
  have "shows_picture fb m0 m (case r of
      Inr _ \<Rightarrow> copy_picture 0 16 0 0 (unat (fb_width fb)) (unat ((fc_rows s - 1) * FONT_HEIGHT)) p | Inl _ \<Rightarrow> p)"
    using assms(1-3) copy engine_scrollsD [of fb copy m0 "fw_vram w" p]
    by (simp add: engine engine_ok_def scroll_transfer_def scroll_rows_def Let_def)
  then show ?thesis using assms(4) False copy
    by (auto simp: scroll_by_dma_def engine fb_stat_def Let_def intro: same_failed split: sum.splits dma_error.splits)
qed

lemma fb_scroll_shows:
  assumes cells: "fb_has_cells fb" and engine: "engine_ok fb engine"
    and con: "fc_cols s = fb_width fb div 8" "fc_rows s = fb_height fb div 16" "fc_fb_width s = fb_width fb" "fc_col s = 0"
      "length (ts_lines t) = unat (fb_height fb) div 16" "\<forall>l \<in> set (ts_lines t). length l = unat (fb_width fb) div 8"
      "ts_row t = unat (fb_height fb) div 16 - 1"
      "shows_picture fb m0 (fw_vram w) (text_picture (fc_fg s) (fc_bg s) (ts_lines t))"
  shows "\<exists>s' w'. fb_scroll fb engine s w = Some (s', w')
    \<and> con_shows fb m0 (t\<lparr>ts_col := 0, ts_lines := tl (ts_lines t) @ [blank_line (length (hd (ts_lines t)))]\<rparr>) s' w'
    \<and> fc_ansi_state s' = fc_ansi_state s \<and> fc_fg s' = fc_fg s \<and> fc_bg s' = fc_bg s"
proof -
  note small = fb_small [OF cells]
  let ?W = "unat (fb_width fb)" and ?H = "unat (fb_height fb)"
  let ?n = "16 * (?H div 16 - 1)" and ?k = "length (hd (ts_lines t))"
  let ?P = "text_picture (fc_fg s) (fc_bg s) (ts_lines t)"
  have pos: "8 \<le> ?W" "16 \<le> ?H" "fb_wf fb" using cells by (simp_all add: fb_has_cells_def)
  then have ne: "ts_lines t \<noteq> []" using con(5) by auto
  have row1: "unat (fc_rows s - 1) = ?H div 16 - 1"
    using pos(2) con(2) by (subst unat_minus_one) (auto simp: unat_div_cells word_unat_eq_iff)
  have n: "unat ((fc_rows s - 1) * FONT_HEIGHT) = ?n"
    using unat_cell(2) [OF cells, of "fc_rows s - 1"] row1 pos(2) by simp
  obtain used s1 w1 where dma: "scroll_by_dma fb engine s (fb_stat (\<lambda>c. c\<lparr>fs_scrolls := fs_scrolls c + 1\<rparr>) w) = (used, s1, w1)"
    by (rule prod_cases3)
  have "shows_picture fb m0 (fw_vram (fb_stat (\<lambda>c. c\<lparr>fs_scrolls := fs_scrolls c + 1\<rparr>) w)) ?P"
    using con(8) by (simp add: fb_stat_def)
  note scrolled = scroll_by_dma_shows [OF engine con(3) this dma, unfolded n]
  obtain f where s1: "s1 = s\<lparr>fc_dma_failed := f\<rparr>" using scrolled by blast
  have w1: "shows_picture fb m0 (fw_vram w1) (if used then copy_picture 0 16 0 0 ?W ?n ?P else ?P)"
    using scrolled by blast
  have s1_fields: "fc_cols s1 = fc_cols s" "fc_rows s1 = fc_rows s" "fc_fb_width s1 = fc_fb_width s" "fc_bg s1 = fc_bg s"
    "fc_fg s1 = fc_fg s" "fc_col s1 = fc_col s" "fc_ansi_state s1 = fc_ansi_state s"
    by (simp_all add: s1)
  have h: "?n + 16 \<le> ?H" using pos(2) by linarith
  obtain w2 where w2: "(if used then Some w1 else on_vram (copy_region fb 0 FONT_HEIGHT 0 0 (fc_fb_width s1) ((fc_rows s - 1) * FONT_HEIGHT)) w1) = Some w2"
    "shows_picture fb m0 (fw_vram w2) (copy_picture 0 16 0 0 ?W ?n ?P)"
  proof (cases used)
    case True
    with w1 that show ?thesis by simp
  next
    case False
    have "draws fb m0 (copy_region fb 0 FONT_HEIGHT 0 0 (fc_fb_width s1) ((fc_rows s - 1) * FONT_HEIGHT) (fw_vram w1))
        (copy_picture 0 16 0 0 ?W ?n ?P)"
      using draws_copy_region [OF pos(3), of m0 "fw_vram w1" ?P 0 "fb_width fb" FONT_HEIGHT "(fc_rows s - 1) * FONT_HEIGHT" 0 0]
        w1 False h by (simp add: n s1_fields con(3) unat_FONT)
    then have "\<exists>w'. on_vram (copy_region fb 0 FONT_HEIGHT 0 0 (fc_fb_width s1) ((fc_rows s - 1) * FONT_HEIGHT)) w1 = Some w'
        \<and> shows_picture fb m0 (fw_vram w') (copy_picture 0 16 0 0 ?W ?n ?P)" by (rule on_vram_draws)
    with that False show ?thesis by auto
  qed
  have "draws fb m0 (fill_rect fb 0 ((fc_rows s1 - 1) * FONT_HEIGHT) (fc_fb_width s1) FONT_HEIGHT (fc_bg s1) (fw_vram w2))
      (fill_picture 0 ?n ?W 16 (fc_bg s) (copy_picture 0 16 0 0 ?W ?n ?P))"
    using draws_fill_rect [OF pos(3) w2(2), of 0 "fb_width fb" "(fc_rows s - 1) * FONT_HEIGHT" FONT_HEIGHT "fc_bg s"] small h
    by (simp add: n s1_fields con(3) unat_FONT)
  then have "draws fb m0 (fill_rect fb 0 ((fc_rows s1 - 1) * FONT_HEIGHT) (fc_fb_width s1) FONT_HEIGHT (fc_bg s1) (fw_vram w2))
      (text_picture (fc_fg s) (fc_bg s) (tl (ts_lines t) @ [blank_line ?k]))"
    by (rule draws_cong) (use scroll_picture_text [OF ne, of ?n _ ?W] con(5) in auto)
  then have "\<exists>w3. on_vram (fill_rect fb 0 ((fc_rows s1 - 1) * FONT_HEIGHT) (fc_fb_width s1) FONT_HEIGHT (fc_bg s1)) w2 = Some w3
      \<and> shows_picture fb m0 (fw_vram w3) (text_picture (fc_fg s) (fc_bg s) (tl (ts_lines t) @ [blank_line ?k]))"
    by (rule on_vram_draws)
  then obtain w3 where w3:
    "on_vram (fill_rect fb 0 ((fc_rows s1 - 1) * FONT_HEIGHT) (fc_fb_width s1) FONT_HEIGHT (fc_bg s1)) w2 = Some w3"
    "shows_picture fb m0 (fw_vram w3) (text_picture (fc_fg s) (fc_bg s) (tl (ts_lines t) @ [blank_line ?k]))" by blast
  have "fb_scroll fb engine s w = Some (s1\<lparr>fc_row := fc_rows s1 - 1\<rparr>, w3)"
    using w2(1) w3(1) by (simp add: fb_scroll_def dma Let_def)
  moreover have "?k = ?W div 8" using con(6) ne by simp
  then have "con_shows fb m0 (t\<lparr>ts_col := 0, ts_lines := tl (ts_lines t) @ [blank_line ?k]\<rparr>) (s1\<lparr>fc_row := fc_rows s1 - 1\<rparr>) w3"
    using con pos w3(2) s1_fields row1 ne
    by (auto simp: con_shows_def blank_line_def dest: list.set_sel(2))
  ultimately show ?thesis using s1_fields by auto
qed

text \<open>A step of the console: it shows the next screen, with the same colours.\<close>

definition con_steps :: "framebuffer \<Rightarrow> vram \<Rightarrow> text_screen \<Rightarrow> ansi_state \<Rightarrow> fb_console \<Rightarrow> (fb_console \<times> 'e fb_world) option \<Rightarrow> bool" where
  "con_steps fb m0 t st s r \<longleftrightarrow> (\<exists>s' w'. r = Some (s', w') \<and> con_shows fb m0 t s' w' \<and> fc_ansi_state s' = st
     \<and> fc_fg s' = fc_fg s \<and> fc_bg s' = fc_bg s)"

lemma con_stepsI:
  "con_shows fb m0 t s' w' \<Longrightarrow> fc_ansi_state s' = st \<Longrightarrow> fc_fg s' = fc_fg s \<Longrightarrow> fc_bg s' = fc_bg s
    \<Longrightarrow> con_steps fb m0 t st s (Some (s', w'))"
  by (simp add: con_steps_def)

lemma fb_newline_shows:
  assumes cells: "fb_has_cells fb" and engine: "engine_ok fb engine"
    and con: "fc_cols s = fb_width fb div 8" "fc_rows s = fb_height fb div 16" "fc_fb_width s = fb_width fb"
      "length (ts_lines t) = unat (fb_height fb) div 16" "\<forall>l \<in> set (ts_lines t). length l = unat (fb_width fb) div 8"
      "unat (fc_row s) = ts_row t" "ts_row t < unat (fb_height fb) div 16"
      "shows_picture fb m0 (fw_vram w) (text_picture (fc_fg s) (fc_bg s) (ts_lines t))"
  shows "con_steps fb m0 (text_newline t) (fc_ansi_state s) s (fb_newline fb engine s w)"
proof -
  let ?s = "s\<lparr>fc_col := 0, fc_row := fc_row s + 1\<rparr>"
  have row: "unat (fc_row s + 1) = Suc (ts_row t)"
    using con(6,7) fb_small(2) [OF cells] by (simp add: unat_word_ariths)
  then have le: "fc_rows s \<le> fc_row s + 1 \<longleftrightarrow> unat (fb_height fb) div 16 \<le> Suc (ts_row t)"
    by (simp add: con(2) word_le_nat_alt unat_div_cells)
  have pos: "0 < unat (fb_width fb) div 8" using cells by (simp add: fb_has_cells_def div_greater_zero_iff)
  show ?thesis
  proof (cases "fc_rows s \<le> fc_row s + 1")
    case True
    then have "ts_row t = unat (fb_height fb) div 16 - 1" using le con(7) by linarith
    with con have "\<exists>s' w'. fb_scroll fb engine ?s w = Some (s', w')
      \<and> con_shows fb m0 (t\<lparr>ts_col := 0, ts_lines := tl (ts_lines t) @ [blank_line (length (hd (ts_lines t)))]\<rparr>) s' w'
      \<and> fc_ansi_state s' = fc_ansi_state ?s \<and> fc_fg s' = fc_fg ?s \<and> fc_bg s' = fc_bg ?s"
      by (intro fb_scroll_shows [OF cells engine]) simp_all
    with True le con(4,7) show ?thesis
      by (auto simp: fb_newline_def con_steps_def text_newline_def)
  next
    case False
    with le con pos have "con_shows fb m0 (text_newline t) ?s w"
      by (auto simp: con_shows_def text_newline_def row not_le)
    with False show ?thesis by (simp add: fb_newline_def con_stepsI)
  qed
qed

lemma length_put_char [simp]:
  "length (ts_lines (put_char t b)) = length (ts_lines t)" "ts_row (put_char t b) = ts_row t" "ts_col (put_char t b) = ts_col t"
  by (simp_all add: put_char_def)

lemma put_char_lines:
  "\<forall>l \<in> set (ts_lines t). length l = n \<Longrightarrow> ts_row t < length (ts_lines t) \<Longrightarrow> \<forall>l \<in> set (ts_lines (put_char t b)). length l = n"
  by (auto simp: put_char_def dest!: set_update_subset_insert [THEN subsetD])

lemma fb_normal_byte_shows:
  assumes cells: "fb_has_cells fb" and engine: "engine_ok fb engine" and con: "con_shows fb m0 t s w"
    and normal: "fc_ansi_state s = Ansi_Normal" "byte \<noteq> 0x1b"
  shows "con_steps fb m0 (text_byte t byte) Ansi_Normal s (fb_normal_byte fb engine byte s w)"
proof -
  note c = con_showsD [OF con]
  note small = fb_small [OF cells]
  have wf: "fb_wf fb" using cells by (simp add: fb_has_cells_def)
  have r: "ts_row t < length (ts_lines t)" using c(6,9) by simp
  then have line: "length (ts_lines t ! ts_row t) = unat (fb_width fb) div 8" using c(7) by simp
  have pos: "unat (fc_col s * FONT_WIDTH) = 8 * ts_col t" "unat (fc_row s * FONT_HEIGHT) = 16 * ts_row t"
    using c(4,5,8,9) by (simp_all add: unat_cell [OF cells])
  have bounds: "8 * ts_col t + 8 < 2 ^ 32" "16 * ts_row t + 16 < 2 ^ 32" using c(8,9) small by simp_all
  consider "0x20 \<le> byte \<and> byte \<le> 0x7e" | "byte = 0x0a" | "byte = 0x0d" | "byte = 0x08"
    | "\<not> (0x20 \<le> byte \<and> byte \<le> 0x7e)" "byte \<noteq> 0x0a" "byte \<noteq> 0x0d" "byte \<noteq> 0x08" by blast
  then show ?thesis
  proof cases
    case 1
    let ?g = "FONT_ROWS ! glyph_index (unat byte)"
    let ?draw = "draw_glyph fb (fc_col s * FONT_WIDTH) (fc_row s * FONT_HEIGHT) ?g (fc_fg s) (fc_bg s)"
    let ?t = "(put_char t byte)\<lparr>ts_col := Suc (ts_col t)\<rparr>" and ?s = "s\<lparr>fc_col := fc_col s + 1\<rparr>"
    have "draws fb m0 (?draw (fw_vram w)) (glyph_picture (8 * ts_col t) (16 * ts_row t) ?g (fc_fg s) (fc_bg s)
        (text_picture (fc_fg s) (fc_bg s) (ts_lines t)))"
      using draws_glyph [OF wf _ _ length_glyph c(10), of "fc_col s * FONT_WIDTH" "fc_row s * FONT_HEIGHT" "unat byte" "fc_fg s" "fc_bg s"]
        bounds unfolding pos by blast
    then have "draws fb m0 (?draw (fw_vram w)) (text_picture (fc_fg s) (fc_bg s) (ts_lines ?t))"
      using glyph_picture_text [OF r, of "ts_col t" ?g byte "fc_fg s" "fc_bg s"] line c(8) by (simp add: put_char_def)
    then have "\<exists>w'. on_vram ?draw w = Some w' \<and> shows_picture fb m0 (fw_vram w') (text_picture (fc_fg s) (fc_bg s) (ts_lines ?t))"
      by (rule on_vram_draws)
    then obtain w1 where w1: "on_vram ?draw w = Some w1"
      "shows_picture fb m0 (fw_vram w1) (text_picture (fc_fg s) (fc_bg s) (ts_lines ?t))" by blast
    have col: "unat (fc_col s + 1) = Suc (ts_col t)" using c(4,8) small(1) by (simp add: unat_word_ariths)
    then have wrap: "fc_cols s \<le> fc_col s + 1 \<longleftrightarrow> unat (fb_width fb) div 8 \<le> Suc (ts_col t)"
      by (simp add: c(1) word_le_nat_alt unat_div_cells)
    have run: "fb_normal_byte fb engine byte s w = (if fc_cols s \<le> fc_col s + 1 then fb_newline fb engine ?s w1 else Some (?s, w1))"
      using 1 normal(2) w1(1) by (auto simp: fb_normal_byte_def get_glyph_eq Let_def)
    show ?thesis
    proof (cases "fc_cols s \<le> fc_col s + 1")
      case True
      have "con_steps fb m0 (text_newline ?t) (fc_ansi_state ?s) ?s (fb_newline fb engine ?s w1)"
        using c w1(2) put_char_lines [OF _ r, of "unat (fb_width fb) div 8" byte]
        by (intro fb_newline_shows [OF cells engine]) simp_all
      with True wrap 1 normal(1) line show ?thesis by (simp add: run text_byte_def con_steps_def Let_def)
    next
      case False
      have "con_shows fb m0 ?t ?s w1"
        using c w1(2) put_char_lines [OF _ r, of "unat (fb_width fb) div 8" byte] False wrap
        by (simp add: con_shows_def col)
      with False wrap 1 normal(1) line show ?thesis by (simp add: run text_byte_def con_stepsI Let_def)
    qed
  next
    case 2
    have "con_steps fb m0 (text_newline t) (fc_ansi_state s) s (fb_newline fb engine s w)"
      using c by (intro fb_newline_shows [OF cells engine]) simp_all
    with 2 normal show ?thesis by (simp add: fb_normal_byte_def text_byte_def)
  next
    case 3
    have "con_shows fb m0 (t\<lparr>ts_col := 0\<rparr>) (s\<lparr>fc_col := 0\<rparr>) w" using con c(8) by (simp add: con_shows_def)
    with 3 normal show ?thesis by (simp add: fb_normal_byte_def text_byte_def con_stepsI)
  next
    case 4
    let ?s = "if fc_col s > 0 then s\<lparr>fc_col := fc_col s - 1\<rparr> else s"
    let ?t = "t\<lparr>ts_col := ts_col t - 1\<rparr>"
    have "unat (fc_col ?s) = ts_col ?t"
    proof (cases "fc_col s = 0")
      case False
      then have "unat (fc_col s - 1) = unat (fc_col s) - 1" by (rule unat_minus_one)
      with False c(4) show ?thesis by (simp add: word_neq_0_conv)
    qed (use c(4) in simp)
    then have s: "unat (fc_col ?s) = ts_col ?t" "fc_cols ?s = fc_cols s" "fc_rows ?s = fc_rows s" "fc_row ?s = fc_row s"
      "fc_fb_width ?s = fc_fb_width s" "fc_bg ?s = fc_bg s" "fc_fg ?s = fc_fg s" "fc_ansi_state ?s = fc_ansi_state s"
      by simp_all
    have col: "ts_col ?t < unat (fb_width fb) div 8" using c(8) by simp
    then have px: "unat (fc_col ?s * FONT_WIDTH) = 8 * ts_col ?t" using s(1) by (simp add: unat_cell(1) [OF cells])
    let ?erase = "fill_rect fb (fc_col ?s * FONT_WIDTH) (fc_row ?s * FONT_HEIGHT) FONT_WIDTH FONT_HEIGHT (fc_bg ?s)"
    have "draws fb m0 (?erase (fw_vram w)) (text_picture (fc_fg s) (fc_bg s) (ts_lines (put_char ?t 0x20)))"
      using draws_fill_rect [OF wf c(10), of "fc_col ?s * FONT_WIDTH" FONT_WIDTH "fc_row s * FONT_HEIGHT" FONT_HEIGHT "fc_bg s"]
        bounds fill_picture_text [OF r, of "ts_col ?t"] line col
      by (simp add: s(4,6) px pos(2) unat_FONT put_char_def)
    then have "\<exists>w'. on_vram ?erase w = Some w'
        \<and> shows_picture fb m0 (fw_vram w') (text_picture (fc_fg s) (fc_bg s) (ts_lines (put_char ?t 0x20)))"
      by (rule on_vram_draws)
    then obtain w1 where w1: "on_vram ?erase w = Some w1"
      "shows_picture fb m0 (fw_vram w1) (text_picture (fc_fg s) (fc_bg s) (ts_lines (put_char ?t 0x20)))" by blast
    have "con_shows fb m0 (put_char ?t 0x20) ?s w1"
      using c w1(2) put_char_lines [of ?t "unat (fb_width fb) div 8" "0x20"] col r unfolding con_shows_def s
      by (simp add: s(1))
    moreover have "fb_normal_byte fb engine byte s w = Some (?s, w1)"
      using w1(1) 4 by (simp add: fb_normal_byte_def Let_def)
    ultimately show ?thesis using 4 normal(1) s by (simp add: text_byte_def con_stepsI)
  next
    case 5
    with con normal show ?thesis by (auto simp: fb_normal_byte_def text_byte_def con_stepsI)
  qed
qed

lemma fb_write_shows:
  assumes cells: "fb_has_cells fb" and engine: "engine_ok fb engine" and con: "con_shows fb m0 t s w"
  shows "\<exists>s' w'. fb_write fb engine bs s w = Some (s', w')
    \<and> con_shows fb m0 (foldl text_byte t (strip_escapes (fc_ansi_state s) bs)) s' w'
    \<and> fc_fg s' = fc_fg s \<and> fc_bg s' = fc_bg s"
  using con
proof (induction bs arbitrary: t s w)
  case Nil
  then show ?case by simp
next
  case (Cons b bs)
  consider "fc_ansi_state s \<noteq> Ansi_Normal" | "fc_ansi_state s = Ansi_Normal" "b = 0x1b"
    | "fc_ansi_state s = Ansi_Normal" "b \<noteq> 0x1b" by blast
  then show ?case
  proof cases
    case 1
    have "con_shows fb m0 t (s\<lparr>fc_ansi_state := ansi_next (fc_ansi_state s) b\<rparr>) w"
      using Cons.prems by (simp add: con_shows_def)
    from Cons.IH [OF this] 1 show ?thesis by (simp add: fb_write_byte_def)
  next
    case 2
    have "con_shows fb m0 t (s\<lparr>fc_ansi_state := Ansi_Escape\<rparr>) w" using Cons.prems by (simp add: con_shows_def)
    from Cons.IH [OF this] 2 show ?thesis by (simp add: fb_write_byte_def fb_normal_byte_def)
  next
    case 3
    from fb_normal_byte_shows [OF cells engine Cons.prems 3] obtain s1 w1 where
      s1: "fb_normal_byte fb engine b s w = Some (s1, w1)" "con_shows fb m0 (text_byte t b) s1 w1"
        "fc_ansi_state s1 = Ansi_Normal" "fc_fg s1 = fc_fg s" "fc_bg s1 = fc_bg s"
      by (auto simp: con_steps_def)
    from Cons.IH [OF s1(2)] 3 s1 show ?thesis by (simp add: fb_write_byte_def)
  qed
qed

definition fb_mapped :: "framebuffer \<Rightarrow> vram \<Rightarrow> bool" where
  "fb_mapped fb m \<longleftrightarrow> fb_addrs fb \<subseteq> dom m"

lemma fb_console_new_shows:
  assumes cells: "fb_has_cells fb" and mapped: "fb_mapped fb (fw_vram w)"
  shows "\<exists>s w'. fb_console_new fb w = Some (s, w')
    \<and> con_shows fb (fw_vram w) (blank_screen (unat (fb_width fb) div 8) (unat (fb_height fb) div 16)) s w'
    \<and> fc_ansi_state s = Ansi_Normal \<and> fc_fg s = DEFAULT_FG \<and> fc_bg s = DEFAULT_BG"
proof -
  let ?W = "unat (fb_width fb)" and ?H = "unat (fb_height fb)"
  let ?p = "\<lambda>x y. the (fw_vram w (pixel_va fb x y))"
  let ?lines = "replicate (?H div 16) (blank_line (?W div 8))"
  have wf: "fb_wf fb" and pos: "0 < ?W div 8" "0 < ?H div 16"
    using cells by (simp_all add: fb_has_cells_def div_greater_zero_iff)
  have "shows_picture fb (fw_vram w) (fw_vram w) ?p"
    using mapped by (fastforce simp: shows_picture_def fb_mapped_def fb_addrs_def)
  then have "draws fb (fw_vram w) (fill_rect fb 0 0 (fb_width fb) (fb_height fb) DEFAULT_BG (fw_vram w))
      (fill_picture 0 0 ?W ?H DEFAULT_BG ?p)"
    using draws_fill_rect [OF wf, of "fw_vram w" "fw_vram w" ?p 0 "fb_width fb" 0 "fb_height fb" DEFAULT_BG] unat_less_2_32
    by simp
  then have "draws fb (fw_vram w) (fill_rect fb 0 0 (fb_width fb) (fb_height fb) DEFAULT_BG (fw_vram w))
      (text_picture DEFAULT_FG DEFAULT_BG ?lines)"
    by (rule draws_cong) (auto simp: fill_picture_def in_rect_def text_picture_def blank_line_def)
  then have "\<exists>w'. on_vram (fill_rect fb 0 0 (fb_width fb) (fb_height fb) DEFAULT_BG) w = Some w'
      \<and> shows_picture fb (fw_vram w) (fw_vram w') (text_picture DEFAULT_FG DEFAULT_BG ?lines)"
    by (rule on_vram_draws)
  then show ?thesis using pos
    by (auto simp: fb_console_new_def con_shows_def blank_screen_def blank_line_def FONT_WIDTH_def FONT_HEIGHT_def)
qed


text \<open>A frame buffer of 24 by 32 pixels, and an engine that is always busy.\<close>

definition example_fb :: framebuffer where
  "example_fb = \<lparr>fb_id = ''/fb'', fb_va = 0x1000, fb_bus_addr = 0xc0000000, fb_width = 24, fb_height = 32,
     fb_pitch = 96, fb_depth = 32\<rparr>"

definition example_fb_world :: "unit fb_world" where
  "example_fb_world = \<lparr>fw_vram = (\<lambda>_. Some 0), fw_stats = reset_fb_stats undefined, fw_engine = ()\<rparr>"

definition busy_engine :: "unit dma_engine" where
  "busy_engine t m e = (Inl Dma_Busy, m, e)"


section \<open>The text can be read off the screen\<close>

definition printable_line :: "nat \<Rightarrow> u8 list \<Rightarrow> bool" where
  "printable_line n l \<longleftrightarrow> length l = n \<and> (\<forall>b \<in> set l. 0x20 \<le> b \<and> b \<le> 0x7e)"

lemma printable_blank [simp]: "printable_line n (blank_line n)"
  by (simp add: printable_line_def blank_line_def)

lemma printable_update:
  "printable_line n l \<Longrightarrow> 0x20 \<le> b \<Longrightarrow> b \<le> 0x7e \<Longrightarrow> printable_line n (l[c := b])"
  by (auto simp: printable_line_def dest!: set_update_subset_insert [THEN subsetD])

text \<open>A screen of \<open>rows\<close> printable lines with its cursor inside.\<close>

definition screen_ok :: "nat \<Rightarrow> nat \<Rightarrow> text_screen \<Rightarrow> bool" where
  "screen_ok cols rows t \<longleftrightarrow> length (ts_lines t) = rows \<and> (\<forall>l \<in> set (ts_lines t). printable_line cols l) \<and> ts_row t < rows"

lemma screen_ok_put_char:
  "screen_ok cols rows t \<Longrightarrow> 0x20 \<le> b \<Longrightarrow> b \<le> 0x7e \<Longrightarrow> screen_ok cols rows (put_char t b)"
  by (auto simp: screen_ok_def put_char_def intro: printable_update dest!: set_update_subset_insert [THEN subsetD])

lemma screen_ok_newline: "screen_ok cols rows t \<Longrightarrow> screen_ok cols rows (text_newline t)"
  by (cases "ts_lines t") (auto simp: screen_ok_def text_newline_def printable_line_def blank_line_def)

lemma screen_ok_byte:
  assumes "screen_ok cols rows t"
  shows "screen_ok cols rows (text_byte t b)"
proof -
  have col: "screen_ok cols rows (t'\<lparr>ts_col := c\<rparr>) = screen_ok cols rows t'" for t' c by (simp add: screen_ok_def)
  from assms show ?thesis
    by (simp add: text_byte_def Let_def col screen_ok_put_char screen_ok_newline)
qed

lemma screen_ok_shown: "0 < rows \<Longrightarrow> screen_ok cols rows (text_shown cols rows bs)"
proof -
  assume "0 < rows"
  then have "screen_ok cols rows (blank_screen cols rows)" by (simp add: screen_ok_def blank_screen_def)
  then have "screen_ok cols rows (foldl text_byte (blank_screen cols rows) cs)" for cs
    by (induction cs rule: rev_induct) (simp_all add: screen_ok_byte)
  then show ?thesis by (simp add: text_shown_def)
qed

lemma u8_eqI:
  assumes "\<And>i. i < 8 \<Longrightarrow> bit a (7 - i) = bit b (7 - i)"
  shows "a = (b :: u8)"
proof -
  have "bit a n = bit b n" if "n < 8" for n
  proof -
    from that have "7 - (7 - n) = n" by simp
    with assms [of "7 - n"] show ?thesis by simp
  qed
  then show ?thesis by (intro bit_word_eqI) simp
qed

lemma printable_glyph_inj:
  assumes "0x20 \<le> a" "a \<le> 0x7e" "0x20 \<le> b" "b \<le> (0x7e :: u8)"
    "FONT_ROWS ! glyph_index (unat a) = FONT_ROWS ! glyph_index (unat b)"
  shows "a = b"
proof -
  have bounds: "32 \<le> unat a" "unat a \<le> 126" "32 \<le> unat b" "unat b \<le> 126" using assms(1-4) by (simp_all add: word_le_nat_alt)
  let ?gs = "take 95 (drop 0x20 FONT_ROWS)"
  have "unat a - 32 < length ?gs" "unat b - 32 < length ?gs" using bounds by (simp_all add: FONT_ROWS_shape)
  moreover have "?gs ! (unat a - 32) = ?gs ! (unat b - 32)"
    using assms(5) bounds by (simp add: glyph_index_def FONT_ROWS_shape)
  ultimately have "unat a - 32 = unat b - 32" using printable_glyphs_distinct nth_eq_iff_index_eq by blast
  with bounds show ?thesis by (simp add: word_unat_eq_iff)
qed

lemma cell_from_pixels:
  assumes pixels: "\<And>x y. x < 8 * n \<Longrightarrow> y < 16 * length lines \<Longrightarrow> text_picture fg bg lines x y = text_picture fg bg lines' x y"
    and "fg \<noteq> bg" "length lines = length lines'" "r < length lines" "c < n"
    and "printable_line n (lines ! r)" "printable_line n (lines' ! r)"
  shows "lines ! r ! c = lines' ! r ! c"
proof -
  let ?a = "lines ! r ! c" and ?b = "lines' ! r ! c"
  let ?f = "\<lambda>b :: u8. FONT_ROWS ! glyph_index (unat b)"
  have "?f ?a ! j = ?f ?b ! j" if j: "j < 16" for j
  proof (rule u8_eqI)
    fix i :: nat assume i: "i < 8"
    have "8 * c + i < 8 * n" "16 * r + j < 16 * length lines" using assms(4,5) i j by linarith+
    from pixels [OF this] have "(if bit (?f ?a ! j) (7 - i) then fg else bg) = (if bit (?f ?b ! j) (7 - i) then fg else bg)"
      using assms(3-7) i j by (simp add: text_picture_def printable_line_def)
    with \<open>fg \<noteq> bg\<close> show "bit (?f ?a ! j) (7 - i) = bit (?f ?b ! j) (7 - i)" by (auto split: if_splits)
  qed
  then have "?f ?a = ?f ?b" by (intro nth_equalityI) simp_all
  with assms(5-7) show ?thesis by (intro printable_glyph_inj) (auto simp: printable_line_def)
qed

text \<open>Nothing of the text is lost in the pixels: two sequences of bytes leave the same picture on the screen
  exactly when they leave the same text, since the visible glyphs differ.\<close>

theorem pixels_determine_text:
  assumes "fb_has_cells fb"
  shows "(let shown = (\<lambda>bs. ts_lines (text_shown (unat (fb_width fb) div 8) (unat (fb_height fb) div 16) bs));
              pic = (\<lambda>bs. text_picture DEFAULT_FG DEFAULT_BG (shown bs))
          in (\<forall>x < unat (fb_width fb). \<forall>y < unat (fb_height fb). pic bs x y = pic bs' x y) \<longleftrightarrow> shown bs = shown bs')"
proof -
  let ?W = "unat (fb_width fb)" and ?H = "unat (fb_height fb)"
  let ?l = "ts_lines (text_shown (?W div 8) (?H div 16) bs)" and ?l' = "ts_lines (text_shown (?W div 8) (?H div 16) bs')"
  have "0 < ?H div 16" using assms by (simp add: fb_has_cells_def div_greater_zero_iff)
  note ok = screen_ok_shown [OF this, of "?W div 8" bs] screen_ok_shown [OF this, of "?W div 8" bs']
  then have len: "length ?l = ?H div 16" "length ?l' = ?H div 16" by (simp_all add: screen_ok_def)
  have printable: "printable_line (?W div 8) (?l ! r)" "printable_line (?W div 8) (?l' ! r)" if "r < ?H div 16" for r
    using ok that len by (simp_all add: screen_ok_def)
  have "?l = ?l'" if same: "\<forall>x < ?W. \<forall>y < ?H. text_picture DEFAULT_FG DEFAULT_BG ?l x y = text_picture DEFAULT_FG DEFAULT_BG ?l' x y"
  proof (rule nth_equalityI)
    show "length ?l = length ?l'" by (simp only: len)
    fix r assume "r < length ?l"
    then have r: "r < ?H div 16" by (simp only: len)
    have "?l ! r ! c = ?l' ! r ! c" if c: "c < ?W div 8" for c
    proof (rule cell_from_pixels [where fg = DEFAULT_FG and bg = DEFAULT_BG and n = "?W div 8"])
      fix x y assume "x < 8 * (?W div 8)" "y < 16 * length ?l"
      then have "x < ?W" "y < ?H" unfolding len by linarith+
      with same show "text_picture DEFAULT_FG DEFAULT_BG ?l x y = text_picture DEFAULT_FG DEFAULT_BG ?l' x y" by blast
    qed (use r c printable len in \<open>simp_all add: DEFAULT_FG_def DEFAULT_BG_def\<close>)
    then show "?l ! r = ?l' ! r"
      using printable [OF r] by (intro nth_equalityI) (simp_all add: printable_line_def)
  qed
  then show ?thesis unfolding Let_def by auto
qed

theorem pixels_determine_text_witness:
  "\<exists>x y. x < 24 \<and> y < 32 \<and>
      text_picture DEFAULT_FG DEFAULT_BG (ts_lines (text_shown 3 2 [0x61, 0x08, 0x62])) x y
        \<noteq> text_picture DEFAULT_FG DEFAULT_BG (ts_lines (text_shown 3 2 [0x61, 0x62])) x y"
proof -
  have cells: "fb_has_cells example_fb" by (simp add: fb_has_cells_def fb_wf_def example_fb_def)
  have diff: "ts_lines (text_shown 3 2 [0x61, 0x08, 0x62]) \<noteq> ts_lines (text_shown 3 2 [0x61, 0x62])" by code_simp
  have dims: "unat (fb_width example_fb) = 24" "unat (fb_height example_fb) = 32" by (simp_all add: example_fb_def)
  from pixels_determine_text [OF cells, of "[0x61, 0x08, 0x62]" "[0x61, 0x62]"] diff
  show ?thesis unfolding dims Let_def by auto
qed

end
