(* ===== verification/Shell.thy ===== *)
theory Shell
  imports Terminal Time
begin

text \<open>The kernel shell (\<open>kernel/shell.rs\<close>), a listener of lines of the terminal, and the modules that put commands
  into it: the power handlers of \<open>power.rs\<close>, the watchdog of \<open>watchdog.rs\<close> and the random numbers of \<open>rng.rs\<close>. The
  handler of a dynamic command is a value \<open>'k\<close> the parameter \<open>run\<close> interprets; the lock of the registry,
  which is held while such a handler runs, is elided.\<close>

record 'k shell_command =
  sc_name :: string
  sc_description :: string
  sc_handler :: 'k

datatype builtin = Cmd_Help | Cmd_Echo | Cmd_Reboot | Cmd_Poweroff | Cmd_Clear

definition COMMAND_REGISTRY :: "builtin shell_command list" where
  "COMMAND_REGISTRY = [
     \<lparr>sc_name = ''help'', sc_description = ''Display this help message'', sc_handler = Cmd_Help\<rparr>,
     \<lparr>sc_name = ''echo'', sc_description = ''Echo the input arguments'', sc_handler = Cmd_Echo\<rparr>,
     \<lparr>sc_name = ''reboot'', sc_description = ''Reboot the system'', sc_handler = Cmd_Reboot\<rparr>,
     \<lparr>sc_name = ''poweroff'', sc_description = ''Power off the system'', sc_handler = Cmd_Poweroff\<rparr>,
     \<lparr>sc_name = ''clear'', sc_description = ''Clear the terminal screen'', sc_handler = Cmd_Clear\<rparr>]"

text \<open>The world of the terminal with the commands and the handlers of \<open>power.rs\<close>, which act on the machine.\<close>

record ('o, 'i, 'l, 'm, 'k, 'r) shell_world = "('o, 'i, 'l, 'm) term_world" +
  sh_commands :: "'k shell_command list"
  sh_restart_handlers :: "'r list"
  sh_power_off_handlers :: "'r list"

definition register_command :: "'k shell_command \<Rightarrow> ('o, 'i, 'l, 'm, 'k, 'r, 'z) shell_world_scheme
    \<Rightarrow> ('o, 'i, 'l, 'm, 'k, 'r, 'z) shell_world_scheme" where
  "register_command cmd w = w\<lparr>sh_commands := sh_commands w @ [cmd]\<rparr>"

definition register_restart_handler :: "'r \<Rightarrow> ('o, 'i, 'l, 'm, 'k, 'r, 'z) shell_world_scheme
    \<Rightarrow> ('o, 'i, 'l, 'm, 'k, 'r, 'z) shell_world_scheme" where
  "register_restart_handler h w = w\<lparr>sh_restart_handlers := sh_restart_handlers w @ [h]\<rparr>"

definition register_power_off_handler :: "'r \<Rightarrow> ('o, 'i, 'l, 'm, 'k, 'r, 'z) shell_world_scheme
    \<Rightarrow> ('o, 'i, 'l, 'm, 'k, 'r, 'z) shell_world_scheme" where
  "register_power_off_handler h w = w\<lparr>sh_power_off_handlers := sh_power_off_handlers w @ [h]\<rparr>"

text \<open>The handlers run in turn; one that does its work does not return, the result \<open>None\<close>.\<close>

fun run_handlers :: "('r \<Rightarrow> 'm \<Rightarrow> 'm option) \<Rightarrow> 'r list \<Rightarrow> 'm \<Rightarrow> 'm option" where
  "run_handlers act [] m = Some m"
| "run_handlers act (h # hs) m = do {
     m' \<leftarrow> act h m;
     run_handlers act hs m'
   }"

definition system_restart :: "('r \<Rightarrow> 'm \<Rightarrow> 'm option) \<Rightarrow> ('o, 'i, 'l, 'm, 'k, 'r, 'z) shell_world_scheme
    \<Rightarrow> ('o, 'i, 'l, 'm, 'k, 'r, 'z) shell_world_scheme option" where
  "system_restart restart w =
     map_option (\<lambda>m. w\<lparr>tw_machine := m\<rparr>) (run_handlers restart (sh_restart_handlers w) (tw_machine w))"

definition system_power_off :: "('r \<Rightarrow> 'm \<Rightarrow> 'm option) \<Rightarrow> ('o, 'i, 'l, 'm, 'k, 'r, 'z) shell_world_scheme
    \<Rightarrow> ('o, 'i, 'l, 'm, 'k, 'r, 'z) shell_world_scheme option" where
  "system_power_off power_off w =
     map_option (\<lambda>m. w\<lparr>tw_machine := m\<rparr>) (run_handlers power_off (sh_power_off_handlers w) (tw_machine w))"


section \<open>Words of a line\<close>

text \<open>\<open>str::split_whitespace\<close> over UTF-8: the characters of a valid string by the length of their encoding, and
  those with the property White_Space.\<close>

fun utf8_chars :: "u8 list \<Rightarrow> u8 list list" where
  "utf8_chars [] = []"
| "utf8_chars (b # bs) =
     (let n = (if b < 0x80 then 0 else if b < 0xe0 then 1 else if b < 0xf0 then 2 else 3)
      in (b # take n bs) # utf8_chars (drop n bs))"

definition is_whitespace :: "u8 list \<Rightarrow> bool" where
  "is_whitespace c \<longleftrightarrow>
     (case c of
        [a] \<Rightarrow> 0x09 \<le> a \<and> a \<le> 0x0d \<or> a = 0x20
      | [a, b] \<Rightarrow> a = 0xc2 \<and> (b = 0x85 \<or> b = 0xa0)
      | [a, b, d] \<Rightarrow>
          a = 0xe1 \<and> b = 0x9a \<and> d = 0x80
          \<or> a = 0xe2 \<and> b = 0x80 \<and> (d \<le> 0x8a \<or> d = 0xa8 \<or> d = 0xa9 \<or> d = 0xaf)
          \<or> a = 0xe2 \<and> b = 0x81 \<and> d = 0x9f
          \<or> a = 0xe3 \<and> b = 0x80 \<and> d = 0x80
      | _ \<Rightarrow> False)"

fun split_words :: "u8 list list \<Rightarrow> u8 list \<Rightarrow> u8 list list" where
  "split_words [] word = (if word = [] then [] else [word])"
| "split_words (c # cs) word =
     (if is_whitespace c then (if word = [] then split_words cs [] else word # split_words cs [])
      else split_words cs (word @ c))"

definition split_whitespace :: "string \<Rightarrow> string list" where
  "split_whitespace line = map str_of_bytes (split_words (utf8_chars (bytes_of_str line)) [])"


section \<open>Commands\<close>

definition newline :: string where "newline = [CHR 0x0a]"

text \<open>\<open>terminal.write\<close>, where the system terminal is there.\<close>

definition tput :: "('o, 'm) output_ops \<Rightarrow> u8 list \<Rightarrow> ('o, 'i, 'l, 'm, 'z) term_world_scheme
    \<Rightarrow> ('o, 'i, 'l, 'm, 'z) term_world_scheme" where
  "tput ops bytes w = (case tw_terminal w of None \<Rightarrow> w | Some t \<Rightarrow> terminal_write ops t bytes w)"

definition tputs :: "('o, 'm) output_ops \<Rightarrow> string list \<Rightarrow> ('o, 'i, 'l, 'm, 'z) term_world_scheme
    \<Rightarrow> ('o, 'i, 'l, 'm, 'z) term_world_scheme" where
  "tputs ops ss w = fold (\<lambda>s. tput ops (bytes_of_str s)) ss w"

definition help_line :: "string \<Rightarrow> string \<Rightarrow> string list" where
  "help_line name description =
     [''  '', name] @ replicate (10 - length name) '' '' @ ['' - '', description, newline]"

definition cmd_help :: "('o, 'm) output_ops \<Rightarrow> string list \<Rightarrow> ('o, 'i, 'l, 'm, 'k, 'r, 'z) shell_world_scheme
    \<Rightarrow> ('o, 'i, 'l, 'm, 'k, 'r, 'z) shell_world_scheme" where
  "cmd_help ops args w =
     (let show_all = ''-a'' \<in> set args
      in tputs ops
          ([''Kruspix kernel shell commands:'' @ newline, ''------------------------------'' @ newline]
           @ concat (map (\<lambda>c. help_line (sc_name c) (sc_description c)) COMMAND_REGISTRY)
           @ (if show_all then concat (map (\<lambda>c. help_line (sc_name c) (sc_description c)) (sh_commands w)) else [])
           @ [''------------------------------'' @ newline]
           @ (if show_all then [] else [newline @ ''Type 'help -a' to see all commands.'' @ newline])) w)"

text \<open>\<open>cmd_echo\<close>; \<open>i\<close> is the index of the first of the arguments that are left.\<close>

fun echo_args :: "('o, 'm) output_ops \<Rightarrow> nat \<Rightarrow> nat \<Rightarrow> string list \<Rightarrow> ('o, 'i, 'l, 'm, 'z) term_world_scheme
    \<Rightarrow> ('o, 'i, 'l, 'm, 'z) term_world_scheme" where
  "echo_args ops n i [] w = w"
| "echo_args ops n i (arg # args) w =
     (let w1 = tput ops (bytes_of_str arg) w
      in echo_args ops n (Suc i) args (if i < n - 1 then tput ops (bytes_of_str '' '') w1 else w1))"

definition cmd_echo :: "('o, 'm) output_ops \<Rightarrow> string list \<Rightarrow> ('o, 'i, 'l, 'm, 'z) term_world_scheme
    \<Rightarrow> ('o, 'i, 'l, 'm, 'z) term_world_scheme" where
  "cmd_echo ops args w = tput ops (bytes_of_str newline) (echo_args ops (length args) 0 args w)"

definition cmd_clear :: "('o, 'm) output_ops \<Rightarrow> ('o, 'i, 'l, 'm, 'z) term_world_scheme
    \<Rightarrow> ('o, 'i, 'l, 'm, 'z) term_world_scheme" where
  "cmd_clear ops w = tput ops (bytes_of_str (CHR 0x1b # ''[2J'' @ CHR 0x1b # ''[H'')) w"

text \<open>What the shell is given: the output devices, the power handlers and the dynamic commands.\<close>

record ('o, 'm, 'k, 'r, 'w) shell_ops =
  so_output :: "('o, 'm) output_ops"
  so_restart :: "'r \<Rightarrow> 'm \<Rightarrow> 'm option"
  so_power_off :: "'r \<Rightarrow> 'm \<Rightarrow> 'm option"
  so_run :: "'k \<Rightarrow> string list \<Rightarrow> 'w \<Rightarrow> 'w option"

definition run_builtin :: "('o, 'm, 'k, 'r, ('o, 'i, 'l, 'm, 'k, 'r, 'z) shell_world_scheme) shell_ops \<Rightarrow> builtin \<Rightarrow> string list
    \<Rightarrow> ('o, 'i, 'l, 'm, 'k, 'r, 'z) shell_world_scheme \<Rightarrow> ('o, 'i, 'l, 'm, 'k, 'r, 'z) shell_world_scheme option" where
  "run_builtin ops b args w =
     (case b of
        Cmd_Help \<Rightarrow> Some (cmd_help (so_output ops) args w)
      | Cmd_Echo \<Rightarrow> Some (cmd_echo (so_output ops) args w)
      | Cmd_Clear \<Rightarrow> Some (cmd_clear (so_output ops) w)
      | Cmd_Reboot \<Rightarrow> system_restart (so_restart ops) w
      | Cmd_Poweroff \<Rightarrow> system_power_off (so_power_off ops) w)"

definition shell_exec :: "('o, 'm, 'k, 'r, ('o, 'i, 'l, 'm, 'k, 'r, 'z) shell_world_scheme) shell_ops \<Rightarrow> string
    \<Rightarrow> ('o, 'i, 'l, 'm, 'k, 'r, 'z) shell_world_scheme \<Rightarrow> ('o, 'i, 'l, 'm, 'k, 'r, 'z) shell_world_scheme option" where
  "shell_exec ops line w =
     (case split_whitespace line of
        [] \<Rightarrow> Some w
      | command # args \<Rightarrow>
          (case List.find (\<lambda>c. sc_name c = command) COMMAND_REGISTRY of
             Some cmd \<Rightarrow> run_builtin ops (sc_handler cmd) args w
           | None \<Rightarrow>
               (case List.find (\<lambda>c. sc_name c = command) (sh_commands w) of
                  Some cmd \<Rightarrow> so_run ops (sc_handler cmd) args w
                | None \<Rightarrow> Some (tputs (so_output ops)
                    [''Unknown command: '', command, newline @ ''Type 'help -a' for a full list.'' @ newline] w))))"

definition print_prompt :: "('o, 'm) output_ops \<Rightarrow> ('o, 'i, 'l, 'm, 'z) term_world_scheme
    \<Rightarrow> ('o, 'i, 'l, 'm, 'z) term_world_scheme" where
  "print_prompt ops w = tput ops (bytes_of_str (newline @ ''kruspix> '')) w"

definition print_welcome_message :: "('o, 'm) output_ops \<Rightarrow> ('o, 'i, 'l, 'm, 'z) term_world_scheme
    \<Rightarrow> ('o, 'i, 'l, 'm, 'z) term_world_scheme" where
  "print_welcome_message ops w =
     tputs ops [newline @ newline @ ''Welcome to the kruspix kernel shell!'' @ newline,
                ''Type 'help' for a list of commands.'' @ newline] w"

definition shell_start :: "('o, 'm) output_ops \<Rightarrow> 'l \<Rightarrow> ('o, 'i, 'l, 'm, 'z) term_world_scheme
    \<Rightarrow> ('o, 'i, 'l, 'm, 'z) term_world_scheme" where
  "shell_start ops shell w =
     (let w1 = print_prompt ops (print_welcome_message ops w)
      in w1\<lparr>tw_terminal := map_option (add_listener shell) (tw_terminal w1)\<rparr>)"

definition shell_on_line :: "('o, 'm, 'k, 'r, ('o, 'i, 'l, 'm, 'k, 'r, 'z) shell_world_scheme) shell_ops \<Rightarrow> u8 list
    \<Rightarrow> ('o, 'i, 'l, 'm, 'k, 'r, 'z) shell_world_scheme \<Rightarrow> ('o, 'i, 'l, 'm, 'k, 'r, 'z) shell_world_scheme option" where
  "shell_on_line ops line w =
     (case tw_terminal w of
        None \<Rightarrow> Some w
      | Some _ \<Rightarrow> do {
          w1 \<leftarrow> (case to_str line of
                  Some cmd \<Rightarrow> shell_exec ops cmd w
                | None \<Rightarrow> Some (tput (so_output ops) (bytes_of_str ''Error: Invalid UTF-8 input'') w));
          Some (print_prompt (so_output ops) w1)
        })"

section \<open>What a line does\<close>

lemma to_str_ascii: "\<forall>b \<in> set bs. b < 0x80 \<Longrightarrow> to_str bs = Some (str_of_bytes bs)"
proof -
  assume "\<forall>b \<in> set bs. b < 0x80"
  then have "utf8_valid bs" by (induction bs) simp_all
  then show ?thesis by (simp add: to_str_def)
qed

lemma utf8_chars_ascii: "\<forall>b \<in> set bs. b < 0x80 \<Longrightarrow> utf8_chars bs = map (\<lambda>b. [b]) bs"
  by (induction bs) simp_all

text \<open>A line of words with blanks before each.\<close>

definition visible :: "u8 \<Rightarrow> bool" where "visible b \<longleftrightarrow> 0x21 \<le> b \<and> b \<le> 0x7e"

definition word_ok :: "nat \<times> u8 list \<Rightarrow> bool" where
  "word_ok a \<longleftrightarrow> 0 < fst a \<and> snd a \<noteq> [] \<and> (\<forall>b \<in> set (snd a). visible b)"

definition spaced :: "(nat \<times> u8 list) list \<Rightarrow> u8 list" where
  "spaced args = concat (map (\<lambda>a. replicate (fst a) 0x20 @ snd a) args)"

lemma spaced_simps [simp]: "spaced [] = []" "spaced (a # args) = replicate (fst a) 0x20 @ snd a @ spaced args"
  by (simp_all add: spaced_def)

lemma visible_not_white: "visible b \<Longrightarrow> \<not> is_whitespace [b]"
  by (auto simp: visible_def is_whitespace_def word_le_nat_alt)

lemma split_words_blanks: "split_words (map (\<lambda>b. [b]) (replicate k 0x20) @ cs) [] = split_words cs []"
  by (induction k) (simp_all add: is_whitespace_def)

lemma split_words_visible:
  "\<forall>b \<in> set a. visible b \<Longrightarrow> split_words (map (\<lambda>b. [b]) a @ cs) word = split_words cs (word @ a)"
  by (induction a arbitrary: word) (simp_all add: visible_not_white)

lemma split_words_spaced:
  "\<forall>a \<in> set args. word_ok a \<Longrightarrow>
    split_words (map (\<lambda>b. [b]) (spaced args @ replicate j 0x20)) word = (if word = [] then [] else [word]) @ map snd args"
proof (induction args arbitrary: word)
  case Nil
  have "is_whitespace [0x20]" by (simp add: is_whitespace_def)
  then show ?case using split_words_blanks [of _ "[]"] by (cases j) simp_all
next
  case (Cons a args)
  obtain k where k: "fst a = Suc k" and a: "snd a \<noteq> []" "\<forall>b \<in> set (snd a). visible b"
    using Cons.prems by (cases "fst a") (simp_all add: word_ok_def)
  have white: "is_whitespace [0x20]" by (simp add: is_whitespace_def)
  have "split_words (map (\<lambda>b. [b]) (replicate k 0x20 @ snd a @ spaced args @ replicate j 0x20)) [] = snd a # map snd args"
    using Cons.IH [of "snd a"] Cons.prems a(1)
    by (simp only: map_append split_words_blanks split_words_visible [OF a(2)]) simp
  then show ?case by (simp add: k white)
qed

lemma word_ok_ascii: "\<forall>a \<in> set args. word_ok a \<Longrightarrow> \<forall>b \<in> set (spaced args). b < 0x80 \<and> is_printable b"
  by (induction args) (auto simp: word_ok_def visible_def is_printable_def word_le_nat_alt word_less_nat_alt)

text \<open>\<open>terminal.write\<close> on devices that keep what is written to them.\<close>

definition logs :: "('o \<Rightarrow> string) \<Rightarrow> string \<Rightarrow> ('o, 'i, 'l, string \<Rightarrow> u8 list, 'z) term_world_scheme \<Rightarrow> bool" where
  "logs name n w \<longleftrightarrow> (\<exists>t. tw_terminal w = Some t \<and> distinct (map name (tw_output_devices w))
     \<and> n \<in> terminal_ids name t (tw_output_devices w))"

lemma tput_fields [simp]:
  "tw_terminal (tput ops bytes w) = tw_terminal w" "tw_output_devices (tput ops bytes w) = tw_output_devices w"
  by (simp_all add: tput_def split: option.split)

lemma logs_tput [simp]: "logs name n (tput ops bytes w) = logs name n w"
  by (simp add: logs_def)

lemma tput_log: "logs name n w \<Longrightarrow> tw_machine (tput (log_output name) bytes w) n = tw_machine w n @ bytes"
  by (auto simp: logs_def tput_def terminal_write_log)

fun unwords :: "string list \<Rightarrow> string" where
  "unwords [] = ''''"
| "unwords [s] = s"
| "unwords (s # ss) = s @ '' '' @ unwords ss"

lemma echo_args_log:
  assumes "logs name n w" "i + length args = m"
  shows "tw_machine (echo_args (log_output name) m i args w) n = tw_machine w n @ bytes_of_str (unwords args)
    \<and> tw_terminal (echo_args (log_output name) m i args w) = tw_terminal w
    \<and> logs name n (echo_args (log_output name) m i args w)"
  using assms
proof (induction args arbitrary: i w rule: unwords.induct)
  case 1
  then show ?case by (simp add: bytes_of_str_def)
next
  case (2 s)
  then show ?case by (auto simp: Let_def tput_log)
next
  case (3 s s' ss)
  let ?w = "tput (log_output name) (bytes_of_str '' '') (tput (log_output name) (bytes_of_str s) w)"
  have "i < m - 1" using "3.prems"(2) by simp
  then have step: "echo_args (log_output name) m i (s # s' # ss) w = echo_args (log_output name) m (Suc i) (s' # ss) ?w"
    by (simp only: echo_args.simps(2) [of _ _ _ s] Let_def if_True)
  have "logs name n ?w" "Suc i + length (s' # ss) = m" using "3.prems" by simp_all
  from "3.IH" [OF this] "3.prems"(1) show ?case unfolding step
    by (simp del: echo_args.simps add: tput_log bytes_of_str_def)
qed

text \<open>Typing printable keys at a terminal whose echo is on.\<close>

lemma terminal_write_log_fields:
  assumes "logs name n w" "tw_terminal w = Some t"
  shows "tw_machine (terminal_write (log_output name) t bytes w) n = tw_machine w n @ bytes"
  using assms by (auto simp: logs_def terminal_write_log)

lemma input_printable:
  assumes "\<forall>b \<in> set keys. is_printable b" "logs name n w" "tw_terminal w = Some t" "tt_echo t"
  shows "\<exists>w' t'. input_bytes (log_output name) on_line (keys @ rest) w = input_bytes (log_output name) on_line rest w'
    \<and> tw_terminal w' = Some t' \<and> t' = t\<lparr>tt_line_buffer := tt_line_buffer t @ keys\<rparr> \<and> logs name n w'
    \<and> tw_machine w' n = tw_machine w n @ keys"
  using assms
proof (induction keys arbitrary: w t)
  case Nil
  then show ?case by (intro exI [of _ w] exI [of _ t]) simp
next
  case (Cons b keys)
  let ?t = "t\<lparr>tt_line_buffer := tt_line_buffer t @ [b]\<rparr>"
  let ?w = "terminal_write (log_output name) t [b] w\<lparr>tw_terminal := Some ?t\<rparr>"
  have b: "is_printable b" "\<not> is_newline b" "\<not> is_erase b" using Cons.prems(1) is_newline_cases by auto
  have step: "input_byte (log_output name) on_line b w = Some ?w"
    using b Cons.prems(3,4) by (simp add: input_byte_def line_discipline_def echo_bytes_def)
  have "logs name n ?w" using Cons.prems(2,3) by (auto simp: logs_def terminal_ids_def)
  moreover have "tw_machine ?w n = tw_machine w n @ [b]"
    using terminal_write_log_fields [OF Cons.prems(2,3)] by simp
  ultimately show ?case using Cons.IH [of ?w ?t] Cons.prems(1,4) by (auto simp: step)
qed

text \<open>C23: Typing \<open>echo\<close> and words at the terminal, with any number of blanks between and behind them, runs the
  shell's command once: every device of the terminal shows the keys as they are typed, a new line, the words
  separated by single blanks, and the prompt; the terminal is ready for the next line.\<close>

theorem shell_echoes_words:
  assumes "so_output sops = log_output name"
    and "tw_terminal w = Some \<lparr>tt_output = out, tt_inputs = inps, tt_line_buffer = [], tt_echo = True, tt_listeners = [l]\<rparr>"
    and "distinct (map name (tw_output_devices w))" "n = name out \<or> n \<in> name ` set (tw_output_devices w)"
    and "\<forall>a \<in> set args. word_ok a"
    and "keys = bytes_of_str ''echo'' @ spaced args @ replicate j 0x20"
  shows "\<exists>w'. input_bytes (log_output name) (\<lambda>_. shell_on_line sops) (keys @ [0x0d]) w = Some w'
    \<and> tw_machine w' n = tw_machine w n @ keys @ [0x0d, 0x0a]
        @ bytes_of_str (unwords (map (\<lambda>a. str_of_bytes (snd a)) args) @ newline @ newline @ ''kruspix> '')
    \<and> tw_terminal w' = tw_terminal w"
proof -
  let ?t = "\<lparr>tt_output = out, tt_inputs = inps, tt_line_buffer = [], tt_echo = True, tt_listeners = [l]\<rparr>"
  let ?on_line = "\<lambda>_. shell_on_line sops"
  have logs: "logs name n w" using assms(2-4) by (auto simp: logs_def terminal_ids_def)
  have echo: "\<forall>b \<in> set (bytes_of_str ''echo''). visible b" by (simp add: bytes_of_str_def visible_def)
  have ascii: "\<forall>b \<in> set keys. b < 0x80 \<and> is_printable b"
    using word_ok_ascii [OF assms(5)] by (auto simp: assms(6) bytes_of_str_def is_printable_def)
  from input_printable [OF _ logs assms(2), of keys ?on_line "[0x0d]"] ascii obtain w1 where
    w1: "input_bytes (log_output name) ?on_line (keys @ [0x0d]) w = input_bytes (log_output name) ?on_line [0x0d] w1"
      "tw_terminal w1 = Some (?t\<lparr>tt_line_buffer := keys\<rparr>)" "logs name n w1" "tw_machine w1 n = tw_machine w n @ keys"
    by auto
  let ?t1 = "?t\<lparr>tt_line_buffer := keys\<rparr>"
  let ?w2 = "terminal_write (log_output name) ?t1 [0x0d, 0x0a] w1\<lparr>tw_terminal := Some ?t\<rparr>"
  have enter: "input_bytes (log_output name) ?on_line [0x0d] w1 = shell_on_line sops keys ?w2"
    using w1(2) by (simp add: input_byte_def line_discipline_def is_newline_def echo_bytes_def)
  have w2: "logs name n ?w2" "tw_machine ?w2 n = tw_machine w n @ keys @ [0x0d, 0x0a]"
    using w1 terminal_write_log_fields [OF w1(3,2), of "[0x0d, 0x0a]"] by (auto simp: logs_def terminal_ids_def)
  let ?words = "map (\<lambda>a. str_of_bytes (snd a)) args"
  have "split_words (utf8_chars keys) [] = bytes_of_str ''echo'' # map snd args"
    using split_words_spaced [OF assms(5), of j "bytes_of_str ''echo''"] split_words_visible [OF echo, of _ "[]"] ascii
    by (simp add: utf8_chars_ascii assms(6)) (simp add: bytes_of_str_def)
  then have words: "split_whitespace (str_of_bytes keys) = ''echo'' # ?words"
    by (simp add: split_whitespace_def comp_def)
  have "shell_exec sops (str_of_bytes keys) ?w2 = Some (cmd_echo (log_output name) ?words ?w2)"
    by (simp add: shell_exec_def words COMMAND_REGISTRY_def run_builtin_def assms(1))
  then have line: "shell_on_line sops keys ?w2 = Some (print_prompt (log_output name) (cmd_echo (log_output name) ?words ?w2))"
    using to_str_ascii [of keys] ascii by (simp add: shell_on_line_def assms(1))
  have echoed: "tw_machine (echo_args (log_output name) (length ?words) 0 ?words ?w2) n = tw_machine ?w2 n @ bytes_of_str (unwords ?words)"
    "tw_terminal (echo_args (log_output name) (length ?words) 0 ?words ?w2) = tw_terminal ?w2"
    "logs name n (echo_args (log_output name) (length ?words) 0 ?words ?w2)"
    using echo_args_log [OF w2(1), of 0 ?words "length ?words"] by simp_all
  show ?thesis
    using w1(1) enter line assms(2) echoed w2(2)
    by (simp add: print_prompt_def cmd_echo_def tput_log)
qed

definition example_shell_ops ::
    "(string, string \<Rightarrow> u8 list, unit, unit, (string, unit, unit, string \<Rightarrow> u8 list, unit, unit) shell_world) shell_ops" where
  "example_shell_ops = \<lparr>so_output = log_output id, so_restart = (\<lambda>_ _. None), so_power_off = (\<lambda>_ _. None),
     so_run = (\<lambda>_ _ w. Some w)\<rparr>"

definition example_shell_world :: "(string, unit, unit, string \<Rightarrow> u8 list, unit, unit) shell_world" where
  "example_shell_world = \<lparr>tw_input_devices = [()], tw_output_devices = [''uart'', ''fb''],
     tw_terminal = Some \<lparr>tt_output = ''uart'', tt_inputs = [()], tt_line_buffer = [], tt_echo = True, tt_listeners = [()]\<rparr>,
     tw_machine = (\<lambda>_. []), sh_commands = [], sh_restart_handlers = [], sh_power_off_handlers = []\<rparr>"

theorem shell_echoes_words_witness:
  "\<exists>w'. input_bytes (log_output id) (\<lambda>_. shell_on_line example_shell_ops)
      (bytes_of_str ''echo  hi you '' @ [0x0d]) example_shell_world = Some w'
    \<and> tw_machine w' ''fb'' = bytes_of_str ''echo  hi you '' @ [0x0d, 0x0a] @ bytes_of_str (''hi you'' @ newline @ newline @ ''kruspix> '')"
proof -
  let ?args = "[(2, bytes_of_str ''hi''), (1, bytes_of_str ''you'')]"
  have "\<forall>a \<in> set ?args. word_ok a" by (simp add: word_ok_def visible_def bytes_of_str_def)
  moreover have "bytes_of_str ''echo  hi you '' = bytes_of_str ''echo'' @ spaced ?args @ replicate 1 0x20"
    by (simp add: bytes_of_str_def numeral_2_eq_2)
  ultimately obtain w' where "input_bytes (log_output id) (\<lambda>_. shell_on_line example_shell_ops)
      (bytes_of_str ''echo  hi you '' @ [0x0d]) example_shell_world = Some w'"
    "tw_machine w' ''fb'' = tw_machine example_shell_world ''fb'' @ bytes_of_str ''echo  hi you '' @ [0x0d, 0x0a]
        @ bytes_of_str (unwords (map (\<lambda>a. str_of_bytes (snd a)) ?args) @ newline @ newline @ ''kruspix> '')"
    using shell_echoes_words [of example_shell_ops id example_shell_world "''uart''" "[()]" "()" "''fb''" ?args "bytes_of_str ''echo  hi you ''" 1]
    by (auto simp: example_shell_ops_def example_shell_world_def)
  then show ?thesis by (auto simp: example_shell_world_def)
qed

end
