(* ===== verification/Console.thy ===== *)
theory Console
  imports Ring_Array Terminal
begin

text \<open>The log (\<open>kernel/console.rs\<close>, \<open>kernel/print.rs\<close>): messages go to the system consoles, before there is one to
  the early console, and before that into a ring of 4096 bytes. A console is an output device of \<open>Terminal\<close>.\<close>

record ('o, 'm) log_world =
  cw_boot_console :: "u8 ring"
  cw_early_console :: "'o option"
  cw_system_consoles :: "'o list"
  cw_machine :: 'm

definition log_world_new :: "'m \<Rightarrow> ('o, 'm) log_world" where
  "log_world_new m = \<lparr>cw_boot_console = ring_new 4096 0, cw_early_console = None, cw_system_consoles = [], cw_machine = m\<rparr>"

text \<open>\<open>Console::write_str\<close>, and the loops over the consoles and over the bytes of a message.\<close>

definition con_write :: "('o, 'm) output_ops \<Rightarrow> 'o \<Rightarrow> u8 list \<Rightarrow> ('o, 'm) log_world \<Rightarrow> ('o, 'm) log_world" where
  "con_write ops con s w = w\<lparr>cw_machine := od_write ops con s (cw_machine w)\<rparr>"

definition console_write_str :: "('o, 'm) output_ops \<Rightarrow> u8 list \<Rightarrow> ('o, 'm) log_world \<Rightarrow> ('o, 'm) log_world option" where
  "console_write_str ops s w =
     (if cw_system_consoles w \<noteq> [] then Some (fold (\<lambda>con. con_write ops con s) (cw_system_consoles w) w)
      else case cw_early_console w of
        Some con \<Rightarrow> Some (con_write ops con s w)
      | None \<Rightarrow> map_option (\<lambda>buf. w\<lparr>cw_boot_console := buf\<rparr>) (push_all ring_push (cw_boot_console w) s))"

text \<open>\<open>kprintln!\<close>, with the message as it is formatted.\<close>

definition kprintln :: "('o, 'm) output_ops \<Rightarrow> string \<Rightarrow> ('o, 'm) log_world \<Rightarrow> ('o, 'm) log_world option" where
  "kprintln ops msg w = console_write_str ops (bytes_of_str (''[kruspix] '' @ msg @ [CHR 0x0a])) w"

definition register_console :: "('o, 'm) output_ops \<Rightarrow> 'o \<Rightarrow> ('o, 'm) log_world \<Rightarrow> ('o, 'm) log_world option" where
  "register_console ops console w = do {
     w1 \<leftarrow> kprintln ops ''[INFO] Registering a new system console'' w;
     let w2 = w1\<lparr>cw_system_consoles := cw_system_consoles w1 @ [console]\<rparr>;
     (case cw_early_console w2 of
        None \<Rightarrow> Some w2
      | Some early_console \<Rightarrow>
          kprintln ops ''[INFO] Early console replaced by system console''
            (con_write ops early_console
               (bytes_of_str (''[kruspix] [INFO] Replacing early console with system console'' @ [CHR 0x0a]))
               (w2\<lparr>cw_early_console := None\<rparr>)))
   }"

text \<open>The bytes of the ring are written one by one, where a byte alone is valid UTF-8.\<close>

definition flush_boot_console :: "('o, 'm) output_ops \<Rightarrow> 'o \<Rightarrow> u8 list \<Rightarrow> ('o, 'm) log_world \<Rightarrow> ('o, 'm) log_world" where
  "flush_boot_console ops console bytes w =
     fold (\<lambda>byte w. case to_str [byte] of Some msg \<Rightarrow> con_write ops console (bytes_of_str msg) w | None \<Rightarrow> w) bytes w"

definition register_early_console :: "('o, 'm) output_ops \<Rightarrow> 'o \<Rightarrow> ('o, 'm) log_world \<Rightarrow> ('o, 'm) log_world option" where
  "register_early_console ops console w = do {
     w1 \<leftarrow> (case cw_early_console w of
             Some _ \<Rightarrow> Some w
           | None \<Rightarrow> do {
               bytes \<leftarrow> ring_iter_collect (ring_iter (cw_boot_console w));
               let w1 = flush_boot_console ops console bytes w;
               Some (w1\<lparr>cw_boot_console := ring_clear (cw_boot_console w1)\<rparr>)
             });
     Some (w1\<lparr>cw_early_console := Some console\<rparr>)
   }"


section \<open>The log is delivered\<close>

fun print_all :: "('o, 'm) output_ops \<Rightarrow> u8 list list \<Rightarrow> ('o, 'm) log_world \<Rightarrow> ('o, 'm) log_world option" where
  "print_all ops [] w = Some w"
| "print_all ops (s # ss) w = do {
     w' \<leftarrow> console_write_str ops s w;
     print_all ops ss w'
   }"

text \<open>A boot: messages, the early console, messages, a system console, messages.\<close>

definition boot_log :: "('o, 'm) output_ops \<Rightarrow> 'o \<Rightarrow> 'o \<Rightarrow> u8 list list \<Rightarrow> u8 list list \<Rightarrow> u8 list list
    \<Rightarrow> ('o, 'm) log_world \<Rightarrow> ('o, 'm) log_world option" where
  "boot_log ops early console before between after w = do {
     w1 \<leftarrow> print_all ops before w;
     w2 \<leftarrow> register_early_console ops early w1;
     w3 \<leftarrow> print_all ops between w2;
     w4 \<leftarrow> register_console ops console w3;
     print_all ops after w4
   }"

text \<open>Writing twice to a device that keeps what is written is writing once.\<close>

lemma con_write_append:
  "con_write (log_output name) con t (con_write (log_output name) con s w) = con_write (log_output name) con (s @ t) w"
  by (cases w) (simp add: con_write_def)

lemma con_write_Nil [simp]: "con_write (log_output name) con [] w = w"
  by (cases w) (simp add: con_write_def)

lemma con_write_fields [simp]:
  "cw_boot_console (con_write ops con s w) = cw_boot_console w" "cw_early_console (con_write ops con s w) = cw_early_console w"
  "cw_system_consoles (con_write ops con s w) = cw_system_consoles w"
  "cw_machine (con_write (log_output name) con s w) n = (if n = name con then cw_machine w n @ s else cw_machine w n)"
  by (simp_all add: con_write_def)

lemma print_all_boot:
  assumes "cw_system_consoles w = []" "cw_early_console w = None" "ring_wf (cw_boot_console w)"
  shows "\<exists>buf. print_all ops ss w = Some (w\<lparr>cw_boot_console := buf\<rparr>) \<and> ring_wf buf
    \<and> ring_capacity buf = ring_capacity (cw_boot_console w)
    \<and> ring_contents buf = last_n (ring_capacity (cw_boot_console w)) (ring_contents (cw_boot_console w) @ concat ss)"
  using assms
proof (induction ss arbitrary: w)
  case Nil
  then show ?case using ring.contents_bounded [of "cw_boot_console w"]
    by (intro exI [of _ "cw_boot_console w"]) simp
next
  case (Cons s ss)
  from ring.push_all_contents [OF Cons.prems(3), of s] obtain b where
    b: "push_all ring_push (cw_boot_console w) s = Some b" "ring_wf b" "ring_capacity b = ring_capacity (cw_boot_console w)"
      "ring_contents b = last_n (ring_capacity (cw_boot_console w)) (ring_contents (cw_boot_console w) @ s)" by blast
  from Cons.IH [of "w\<lparr>cw_boot_console := b\<rparr>"] Cons.prems b show ?case
    by (auto simp: console_write_str_def last_n_append_last_n)
qed

lemma print_all_early:
  assumes "cw_system_consoles w = []" "cw_early_console w = Some con"
  shows "print_all (log_output name) ss w = Some (con_write (log_output name) con (concat ss) w)"
  using assms
  by (induction ss arbitrary: w) (simp_all add: console_write_str_def con_write_append)

lemma print_all_system:
  assumes "cw_system_consoles w = [con]"
  shows "print_all (log_output name) ss w = Some (con_write (log_output name) con (concat ss) w)"
  using assms
  by (induction ss arbitrary: w) (simp_all add: console_write_str_def con_write_append)

lemma flush_boot_console_log:
  assumes "\<forall>b \<in> set bytes. b < 0x80"
  shows "flush_boot_console (log_output name) con bytes w = con_write (log_output name) con bytes w"
  using assms
proof (induction bytes arbitrary: w)
  case (Cons b bytes)
  have "to_str [b] = Some (str_of_bytes [b])" using Cons.prems by (simp add: to_str_def)
  with Cons.IH [of "con_write (log_output name) con [b] w"] Cons.prems show ?case
    by (simp add: flush_boot_console_def con_write_append)
qed (simp add: flush_boot_console_def)

lemma last_n_subset: "set (last_n n xs) \<subseteq> set xs"
  by (auto simp: last_n_def dest: in_set_dropD)

definition registered_message :: "u8 list" where
  "registered_message = bytes_of_str (''[kruspix] [INFO] Registering a new system console'' @ [CHR 0x0a])"
definition replacing_message :: "u8 list" where
  "replacing_message = bytes_of_str (''[kruspix] [INFO] Replacing early console with system console'' @ [CHR 0x0a])"
definition replaced_message :: "u8 list" where
  "replaced_message = bytes_of_str (''[kruspix] [INFO] Early console replaced by system console'' @ [CHR 0x0a])"

text \<open>C24: No message of a boot is lost as long as the messages before the early console are ASCII and fit the ring: the
  early console gets them all, then every message up to the one that hands over to the system console, and the
  system console every message after it. When they do not fit, the newest 4096 bytes are kept.\<close>

theorem boot_log_delivered:
  assumes "name early \<noteq> name console" "\<forall>b \<in> set (concat before). b < 0x80"
  shows "\<exists>w. boot_log (log_output name) early console before between after (log_world_new (\<lambda>_. [])) = Some w
    \<and> cw_machine w (name early) = last_n 4096 (concat before) @ concat between @ registered_message @ replacing_message
    \<and> cw_machine w (name console) = replaced_message @ concat after"
proof -
  let ?ops = "log_output name"
  let ?w0 = "log_world_new (\<lambda>_. [])"
  have wf: "ring_wf (ring_new 4096 (0 :: u8))" by (rule ring_wf_new) simp
  then obtain buf where
    w1: "print_all ?ops before ?w0 = Some (?w0\<lparr>cw_boot_console := buf\<rparr>)" "ring_wf buf"
      "ring_contents buf = last_n 4096 (concat before)"
    using print_all_boot [of ?w0 ?ops before] by (auto simp: log_world_new_def)
  have ascii: "\<forall>b \<in> set (ring_contents buf). b < 0x80"
    using assms(2) last_n_subset w1(3) by fastforce
  let ?w2 = "con_write ?ops early (ring_contents buf) (?w0\<lparr>cw_boot_console := buf\<rparr>)
      \<lparr>cw_boot_console := ring_clear buf, cw_early_console := Some early\<rparr>"
  have w2: "register_early_console ?ops early (?w0\<lparr>cw_boot_console := buf\<rparr>) = Some ?w2"
    using ring_iter_yields_contents [OF w1(2)] flush_boot_console_log [OF ascii, of name early]
    by (simp add: register_early_console_def log_world_new_def Let_def)
  let ?w3 = "con_write ?ops early (concat between) ?w2"
  have w3: "print_all ?ops between ?w2 = Some ?w3"
    by (rule print_all_early) (simp_all add: log_world_new_def)
  let ?w4 = "con_write ?ops console replaced_message
      (con_write ?ops early replacing_message (con_write ?ops early registered_message ?w3
         \<lparr>cw_system_consoles := [console], cw_early_console := None\<rparr>))"
  have w4: "register_console ?ops console ?w3 = Some ?w4"
    by (simp add: register_console_def kprintln_def console_write_str_def log_world_new_def Let_def
        registered_message_def replacing_message_def replaced_message_def)
  have "print_all ?ops after ?w4 = Some (con_write ?ops console (concat after) ?w4)"
    by (rule print_all_system) (simp add: log_world_new_def)
  then have "boot_log ?ops early console before between after ?w0 = Some (con_write ?ops console (concat after) ?w4)"
    by (simp only: boot_log_def w1(1) w2 w3 w4 bind.bind_lunit)
  then show ?thesis using assms(1) w1(3) by (auto simp: log_world_new_def)
qed

theorem boot_log_delivered_witness:
  "\<exists>w. boot_log (log_output id) ''early'' ''uart'' [[0x6f, 0x6e, 0x65]] [[0x74, 0x77, 0x6f]] [[0x21]] (log_world_new (\<lambda>_. [])) = Some w
    \<and> cw_machine w ''early'' = [0x6f, 0x6e, 0x65, 0x74, 0x77, 0x6f] @ registered_message @ replacing_message
    \<and> cw_machine w ''uart'' = replaced_message @ [0x21]"
proof -
  have "last_n 4096 (concat [[0x6f, 0x6e, 0x65 :: u8]]) = [0x6f, 0x6e, 0x65]" by simp
  with boot_log_delivered [of id "''early''" "''uart''" "[[0x6f, 0x6e, 0x65]]" "[[0x74, 0x77, 0x6f]]" "[[0x21]]"]
  show ?thesis by simp
qed

end
