(* ===== verification/Number_Formats.thy ===== *)
theory Number_Formats
  imports Kruspix_Prelude
begin

text \<open>Decimal numbers as the standard library prints and parses them: \<open>to_string\<close> and \<open>{:03}\<close> of an unsigned
  integer, and \<open>str::parse::<u64>\<close>, which takes a sign and leading zeros and checks the range; and words as bytes, the
  lowest first.\<close>

definition digit_char :: "nat \<Rightarrow> char" where
  "digit_char d = char_of (48 + d)"

fun dec_of_nat :: "nat \<Rightarrow> string" where
  "dec_of_nat n = (if n < 10 then [digit_char n] else dec_of_nat (n div 10) @ [digit_char (n mod 10)])"

declare dec_of_nat.simps [simp del]

definition zero_padded :: "nat \<Rightarrow> string \<Rightarrow> string" where
  "zero_padded width s = replicate (width - length s) CHR ''0'' @ s"

definition to_digit :: "char \<Rightarrow> nat option" where
  "to_digit c = (let n = of_char c :: nat in if 48 \<le> n \<and> n \<le> 57 then Some (n - 48) else None)"

fun parse_digits :: "nat \<Rightarrow> string \<Rightarrow> nat option" where
  "parse_digits acc [] = Some acc"
| "parse_digits acc (c # cs) =
     (case to_digit c of
        None \<Rightarrow> None
      | Some d \<Rightarrow> if acc * 10 + d < 2 ^ 64 then parse_digits (acc * 10 + d) cs else None)"

definition parse_u64 :: "string \<Rightarrow> u64 option" where
  "parse_u64 s =
     (case s of
        [] \<Rightarrow> None
      | c # cs \<Rightarrow>
          if c = CHR ''+'' then (if cs = [] then None else map_option of_nat (parse_digits 0 cs))
          else map_option of_nat (parse_digits 0 s))"


section \<open>Parsing what was printed\<close>

lemma to_digit_char [simp]: "d < 10 \<Longrightarrow> to_digit (digit_char d) = Some d"
  by (simp add: to_digit_def digit_char_def take_bit_eq_mod)

lemma parse_digits_append:
  "parse_digits acc (xs @ ys) = Option.bind (parse_digits acc xs) (\<lambda>a. parse_digits a ys)"
  by (induction xs arbitrary: acc) (simp_all split: option.split)

lemma dec_of_nat_not_Nil [simp]: "dec_of_nat n \<noteq> []"
  by (subst dec_of_nat.simps) simp

lemma parse_digits_dec: "n < 2 ^ 64 \<Longrightarrow> parse_digits 0 (dec_of_nat n) = Some n"
proof (induction n rule: dec_of_nat.induct)
  case (1 n)
  show ?case
  proof (cases "n < 10")
    case True
    then show ?thesis using "1.prems" by (simp add: dec_of_nat.simps)
  next
    case False
    then have "parse_digits 0 (dec_of_nat (n div 10)) = Some (n div 10)" using "1.IH" "1.prems" by simp
    then show ?thesis using False "1.prems" by (subst dec_of_nat.simps) (simp add: parse_digits_append)
  qed
qed

lemma dec_of_nat_digits: "c \<in> set (dec_of_nat n) \<Longrightarrow> \<exists>d < 10. c = digit_char d"
proof (induction n rule: dec_of_nat.induct)
  case (1 n)
  show ?case
  proof (cases "n < 10")
    case True
    then show ?thesis using "1.prems" by (subst (asm) dec_of_nat.simps) auto
  next
    case False
    then have "c \<in> set (dec_of_nat (n div 10)) \<or> c = digit_char (n mod 10)"
      using "1.prems" by (subst (asm) dec_of_nat.simps) auto
    moreover have "n mod 10 < 10" by simp
    ultimately show ?thesis using False "1.IH" by blast
  qed
qed

lemma of_char_digit: "d < 10 \<Longrightarrow> of_char (digit_char d) = (48 + d :: nat)"
  by (simp add: digit_char_def take_bit_eq_mod)

lemma parse_to_string [simp]: "parse_u64 (dec_of_nat (unat n)) = Some n" for n :: u64
proof -
  obtain c cs where s: "dec_of_nat (unat n) = c # cs" by (meson dec_of_nat_not_Nil neq_Nil_conv)
  then obtain d where d: "d < 10" "c = digit_char d" using dec_of_nat_digits [of c "unat n"] by auto
  have "c \<noteq> CHR ''+''"
  proof
    assume "c = CHR ''+''"
    then have "of_char c = (43 :: nat)" by simp
    with of_char_digit [OF d(1)] d(2) show False by simp
  qed
  moreover have "parse_digits 0 (dec_of_nat (unat n)) = Some (unat n)" by (rule parse_digits_dec) simp
  ultimately show ?thesis by (simp add: parse_u64_def s)
qed


section \<open>Little-endian bytes\<close>

definition le_nat :: "u8 list \<Rightarrow> nat" where
  "le_nat bs = be_nat (rev bs)"

definition u32_from_le_bytes :: "u8 list \<Rightarrow> u32" where
  "u32_from_le_bytes bs = of_nat (le_nat bs)"

definition u64_from_le_bytes :: "u8 list \<Rightarrow> u64" where
  "u64_from_le_bytes bs = of_nat (le_nat bs)"

definition u32_to_le_bytes :: "u32 \<Rightarrow> u8 list" where
  "u32_to_le_bytes w = [ucast w, ucast (drop_bit 8 w), ucast (drop_bit 16 w), ucast (drop_bit 24 w)]"

lemma length_u32_to_le_bytes [simp]: "length (u32_to_le_bytes w) = 4"
  by (simp add: u32_to_le_bytes_def)

lemma be_nat_append: "be_nat (xs @ [y]) = be_nat xs * 256 + unat y"
  by (simp add: be_nat_def)

lemma le_nat_simps [simp]: "le_nat [] = 0" "le_nat (b # bs) = unat b + 256 * le_nat bs"
  by (simp_all add: le_nat_def be_nat_append) (simp add: be_nat_def)

lemma le_nat_append: "le_nat (xs @ ys) = le_nat xs + 256 ^ length xs * le_nat ys"
  by (induction xs) (simp_all add: algebra_simps)

lemma unat_low_byte: "unat (ucast w :: u8) = unat w mod 256" for w :: "'a::len word"
  by (simp add: unsigned_ucast_eq take_bit_eq_mod)

lemma le_nat_u16_bytes [simp]: "le_nat (u16_to_le_bytes w) = unat w"
proof -
  have "unat w div 256 < 256" by (rule less_mult_imp_div_less) (use unat_less_16 [of w] in simp)
  then show ?thesis
    by (simp add: u16_to_le_bytes_def unat_low_byte unsigned_drop_bit_eq drop_bit_eq_div take_bit_eq_mod unat_div_distrib)
qed

lemma le_nat_u32_bytes [simp]: "le_nat (u32_to_le_bytes w) = unat w"
proof -
  have "unat w div 16777216 < 256" by (rule less_mult_imp_div_less) (use unat_less_32 [of w] in simp)
  then have top: "unat w div 16777216 mod 256 = unat w div 16777216" by simp
  have "unat w div 16777216 = unat w div 256 div 256 div 256" "unat w div 65536 = unat w div 256 div 256"
    by (simp_all add: div_mult2_eq [symmetric])
  moreover have "n = n mod 256 + 256 * (n div 256)" for n :: nat by simp
  ultimately have "unat w = unat w mod 256 + 256 * (unat w div 256 mod 256 + 256 * (unat w div 65536 mod 256 + 256 * (unat w div 16777216)))"
    by (metis add.commute mult.commute)
  with top show ?thesis
    by (simp add: u32_to_le_bytes_def unat_low_byte unsigned_drop_bit_eq drop_bit_eq_div take_bit_eq_mod unat_div_distrib)
qed

lemma u32_le_roundtrip [simp]: "u32_from_le_bytes (u32_to_le_bytes w) = w"
  by (simp add: u32_from_le_bytes_def)

lemma u16_le_roundtrip [simp]: "u16_from_le_bytes (u16_to_le_bytes w) = w"
  using le_nat_u16_bytes [of w] by (simp add: u16_from_le_bytes_def le_nat_def)

end
