(* ===== verification/Boot_World.thy ===== *)
theory Boot_World
  imports Shell Console
begin

text \<open>The statics of the console and of the terminal together, over one machine, for the drivers that register their device with
  both.\<close>

record ('o, 'i, 'l, 'm, 'k, 'r) boot_world = "('o, 'i, 'l, 'm, 'k, 'r) shell_world" +
  bw_boot_console :: "u8 ring"
  bw_early_console :: "'o option"
  bw_system_consoles :: "'o list"

text \<open>An operation of \<open>Console\<close> on this world.\<close>

definition in_log :: "(('o, 'm) log_world \<Rightarrow> ('o, 'm) log_world option) \<Rightarrow> ('o, 'i, 'l, 'm, 'k, 'r, 'z) boot_world_scheme
    \<Rightarrow> ('o, 'i, 'l, 'm, 'k, 'r, 'z) boot_world_scheme option" where
  "in_log f w = do {
     l \<leftarrow> f \<lparr>cw_boot_console = bw_boot_console w, cw_early_console = bw_early_console w,
            cw_system_consoles = bw_system_consoles w, cw_machine = tw_machine w\<rparr>;
     Some (w\<lparr>bw_boot_console := cw_boot_console l, bw_early_console := cw_early_console l,
             bw_system_consoles := cw_system_consoles l, tw_machine := cw_machine l\<rparr>)
   }"

end
