(* ===== verification/Device_Irq.thy ===== *)
theory Device_Irq
  imports Intc
begin

text \<open>The steps by which the drivers of devices attach the handler of their interrupt.\<close>

text \<open>\<open>node.interrupts().is_some() || node.interrupts_extended().is_some()\<close>.\<close>

definition has_interrupts :: "dt_node \<Rightarrow> bool option" where
  "has_interrupts n = do {
     i \<leftarrow> node_interrupts n;
     if i \<noteq> None then Some True
     else do {
       e \<leftarrow> node_interrupts_extended n;
       Some (e \<noteq> None)
     }
   }"

text \<open>The interrupt of a device with the handler it registers; every failure is one to retry after.\<close>

definition attach_irq :: "'d bus \<Rightarrow> 'h \<Rightarrow> device_tree \<Rightarrow> nat \<Rightarrow> nat \<Rightarrow> ('d, 'h) board
    \<Rightarrow> ((driver_init_error + unit) \<times> ('d, 'h) board) option" where
  "attach_irq bus handler dt node index b = do {
     v \<leftarrow> resolve_virq (intc_ops bus :: (intc, ('d, 'h) board) interrupt_controller) dt node index (bd_irqs b);
     (case v of
        Inl _ \<Rightarrow> Some (Inl Retry, b)
      | Inr virq \<Rightarrow>
          let (r, t) = register_handler virq (H_Other handler) (bd_irqs b); b1 = b\<lparr>bd_irqs := t\<rparr>
          in case r of
               Inl _ \<Rightarrow> Some (Inl Retry, b1)
             | Inr _ \<Rightarrow> do {
                 (r', b2) \<leftarrow> enable_irq (intc_ops bus) virq (bd_irqs b1) b1;
                 Some (case r' of Inl _ \<Rightarrow> Inl Retry | Inr _ \<Rightarrow> Inr (), b2)
               })
   }"

text \<open>The value of the first property of a name, where it is none of the standard ones.\<close>

definition unknown_prop :: "string \<Rightarrow> dt_node \<Rightarrow> u8 list option" where
  "unknown_prop name n =
     (case List.find (\<lambda>p. dp_name p = name) (dn_properties n) of
        None \<Rightarrow> None
      | Some p \<Rightarrow> (case dp_value p of PV_Unknown v \<Rightarrow> Some v | _ \<Rightarrow> None))"

end
