(* ===== verification/Watchdog.thy ===== *)
theory Watchdog
  imports Number_Formats Shell Timers Device_Irq
begin

text \<open>Watchdogs (\<open>kernel/watchdog.rs\<close>): the trait, the registered devices and the command of the shell; and the
  watchdog of the power manager (\<open>drivers/watchdog/bcm2835_pm.rs\<close>), which also restarts the board and powers it
  off. Interrupts are masked while it does so; the lock of the device is elided.\<close>

section \<open>The command\<close>

text \<open>The methods of the trait \<open>Watchdog\<close>; the result \<open>None\<close> is a panic.\<close>

record ('w, 'm) watchdog_ops =
  wo_is_running :: "'w \<Rightarrow> 'm \<Rightarrow> bool \<times> 'm"
  wo_start :: "'w \<Rightarrow> 'm \<Rightarrow> 'm"
  wo_stop :: "'w \<Rightarrow> 'm \<Rightarrow> 'm"
  wo_default_timeout :: "'w \<Rightarrow> 'm \<Rightarrow> duration"
  wo_max_timeout :: "'w \<Rightarrow> duration"
  wo_min_timeout :: "'w \<Rightarrow> duration"
  wo_set_timeout :: "'w \<Rightarrow> duration \<Rightarrow> 'm \<Rightarrow> 'm option"
  wo_countdown :: "'w \<Rightarrow> 'm \<Rightarrow> (duration \<times> 'm) option"
  wo_acknowledge :: "'w \<Rightarrow> 'm \<Rightarrow> 'm"

record ('o, 'i, 'l, 'm, 'k, 'r, 'w) wdt_world = "('o, 'i, 'l, 'm, 'k, 'r) shell_world" +
  ww_watchdogs :: "'w list"

definition register_watchdog :: "'w \<Rightarrow> ('o, 'i, 'l, 'm, 'k, 'r, 'w, 'z) wdt_world_scheme
    \<Rightarrow> ('o, 'i, 'l, 'm, 'k, 'r, 'w, 'z) wdt_world_scheme" where
  "register_watchdog wdt w = w\<lparr>ww_watchdogs := ww_watchdogs w @ [wdt]\<rparr>"

text \<open>\<open>WATCHDOGS.lock().first().unwrap()\<close>.\<close>

definition first_watchdog :: "('o, 'i, 'l, 'm, 'k, 'r, 'w, 'z) wdt_world_scheme \<Rightarrow> 'w option" where
  "first_watchdog w = index_at (ww_watchdogs w) 0"

definition watchdog_usage :: "('o, 'm) output_ops \<Rightarrow> ('o, 'i, 'l, 'm, 'k, 'r, 'w, 'z) wdt_world_scheme
    \<Rightarrow> ('o, 'i, 'l, 'm, 'k, 'r, 'w, 'z) wdt_world_scheme" where
  "watchdog_usage ops w =
     tput ops (bytes_of_str (''Usage: watchdog <status|start|stop|set_timeout <seconds>|ack>'' @ newline)) w"

definition secs_string :: "duration \<Rightarrow> string" where
  "secs_string d = dec_of_nat (unat (as_secs d))"

definition watchdog_status :: "('o, 'm) output_ops \<Rightarrow> ('w, 'm) watchdog_ops \<Rightarrow> ('o, 'i, 'l, 'm, 'k, 'r, 'w, 'z) wdt_world_scheme
    \<Rightarrow> ('o, 'i, 'l, 'm, 'k, 'r, 'w, 'z) wdt_world_scheme option" where
  "watchdog_status ops wops w = do {
     watchdog \<leftarrow> first_watchdog w;
     let (is_running, m1) = wo_is_running wops watchdog (tw_machine w);
     let default_timeout = wo_default_timeout wops watchdog m1;
     let min_timeout = wo_min_timeout wops watchdog;
     let max_timeout = wo_max_timeout wops watchdog;
     (countdown, m2) \<leftarrow> wo_countdown wops watchdog m1;
     Some (tputs ops
       ([''Watchdog Status: '', if is_running then ''RUNNING'' else ''STOPPED'', newline,
         ''Timeout Settings:'' @ newline,
         ''  Default: '', secs_string default_timeout, '' seconds'' @ newline,
         ''  Min: '', secs_string min_timeout, '' seconds'' @ newline,
         ''  Max: '', secs_string max_timeout, '' seconds'' @ newline]
        @ (if is_running then [''Current Countdown: '', secs_string countdown, '' seconds'' @ newline] else []))
       (w\<lparr>tw_machine := m2\<rparr>))
   }"

definition watchdog_set_timeout :: "('o, 'm) output_ops \<Rightarrow> ('w, 'm) watchdog_ops \<Rightarrow> u64
    \<Rightarrow> ('o, 'i, 'l, 'm, 'k, 'r, 'w, 'z) wdt_world_scheme \<Rightarrow> ('o, 'i, 'l, 'm, 'k, 'r, 'w, 'z) wdt_world_scheme option" where
  "watchdog_set_timeout ops wops secs w = do {
     watchdog \<leftarrow> first_watchdog w;
     let min_timeout = as_secs (wo_min_timeout wops watchdog);
     let max_timeout = as_secs (wo_max_timeout wops watchdog);
     if secs < min_timeout \<or> secs > max_timeout
     then Some (tputs ops [''Usage: Timeout must be between '', dec_of_nat (unat min_timeout), '' and '',
                           dec_of_nat (unat max_timeout), '' seconds.'' @ newline] w)
     else do {
       m \<leftarrow> wo_set_timeout wops watchdog (Duration secs 0) (tw_machine w);
       Some (w\<lparr>tw_machine := m\<rparr>)
     }
   }"

definition on_watchdog :: "('w \<Rightarrow> 'm \<Rightarrow> 'm) \<Rightarrow> ('o, 'i, 'l, 'm, 'k, 'r, 'w, 'z) wdt_world_scheme
    \<Rightarrow> ('o, 'i, 'l, 'm, 'k, 'r, 'w, 'z) wdt_world_scheme option" where
  "on_watchdog act w = map_option (\<lambda>wd. w\<lparr>tw_machine := act wd (tw_machine w)\<rparr>) (first_watchdog w)"

definition watchdog_command :: "('o, 'm) output_ops \<Rightarrow> ('w, 'm) watchdog_ops \<Rightarrow> string list
    \<Rightarrow> ('o, 'i, 'l, 'm, 'k, 'r, 'w, 'z) wdt_world_scheme \<Rightarrow> ('o, 'i, 'l, 'm, 'k, 'r, 'w, 'z) wdt_world_scheme option" where
  "watchdog_command ops wops args w =
     (case args of
        [] \<Rightarrow> Some (watchdog_usage ops w)
      | cmd # rest \<Rightarrow>
          if cmd = ''status'' then watchdog_status ops wops w
          else if cmd = ''start'' then on_watchdog (wo_start wops) w
          else if cmd = ''stop'' then on_watchdog (wo_stop wops) w
          else if cmd = ''set_timeout'' then
            (case rest of
               [arg] \<Rightarrow> (case parse_u64 arg of Some secs \<Rightarrow> watchdog_set_timeout ops wops secs w
                         | None \<Rightarrow> Some (watchdog_usage ops w))
             | _ \<Rightarrow> Some (watchdog_usage ops w))
          else if cmd = ''ack'' then on_watchdog (wo_acknowledge wops) w
          else Some (watchdog_usage ops w))"

text \<open>\<open>init\<close>; \<open>k\<close> stands for the command.\<close>

definition watchdog_init :: "'k \<Rightarrow> ('o, 'i, 'l, 'm, 'k, 'r, 'z) shell_world_scheme \<Rightarrow> ('o, 'i, 'l, 'm, 'k, 'r, 'z) shell_world_scheme" where
  "watchdog_init k = register_command \<lparr>sc_name = ''watchdog'', sc_description = ''Watchdog control'', sc_handler = k\<rparr>"


section \<open>The device\<close>

definition PM_RSTC_REG_OFFSET :: usize where "PM_RSTC_REG_OFFSET = 0x1c"
definition PM_RSTS_REG_OFFSET :: usize where "PM_RSTS_REG_OFFSET = 0x20"
definition PM_WDOG_REG_OFFSET :: usize where "PM_WDOG_REG_OFFSET = 0x24"
definition PM_WDOG_FREQUENCY_HZ :: u128 where "PM_WDOG_FREQUENCY_HZ = push_bit 16 1"
definition PM_WDOG_TIME_SET :: u32 where "PM_WDOG_TIME_SET = 0x000fffff"
definition PM_RSTC_WRCFG_CLR :: u32 where "PM_RSTC_WRCFG_CLR = 0xffffffcf"
definition PM_RSTC_WRCFG_FULL_RESET :: u32 where "PM_RSTC_WRCFG_FULL_RESET = 0x00000020"
definition PM_RSTC_RESET :: u32 where "PM_RSTC_RESET = 0x00000102"
definition PM_RSTS_PARTITION_CLR :: u32 where "PM_RSTS_PARTITION_CLR = 0xfffffaaa"
definition PM_PASSWORD :: u32 where "PM_PASSWORD = 0x5a000000"

record wdt_device =
  wd_id :: string
  wd_reg_base :: usize
  wd_timeout :: u32

definition wdt_device_new :: "string \<Rightarrow> usize \<Rightarrow> wdt_device" where
  "wdt_device_new i reg_base = \<lparr>wd_id = i, wd_reg_base = reg_base, wd_timeout = 15\<rparr>"

text \<open>The machine: the board, the devices made so far, to which references are their positions, and the registry.\<close>

record ('d, 'h, 's) pm_machine =
  pm_board :: "('d, 'h, 's) timer_board"
  pm_devices :: "wdt_device list"
  pm_registry :: "nat registry"

definition pm_dev :: "nat \<Rightarrow> ('d, 'h, 's, 'z) pm_machine_scheme \<Rightarrow> wdt_device" where
  "pm_dev i m = pm_devices m ! i"

definition pm_read :: "'d bus \<Rightarrow> nat \<Rightarrow> usize \<Rightarrow> ('d, 'h, 's, 'z) pm_machine_scheme \<Rightarrow> u32 \<times> ('d, 'h, 's, 'z) pm_machine_scheme" where
  "pm_read bus i off m =
     (let (v, b) = tb_read_reg bus (wd_reg_base (pm_dev i m) + off) (pm_board m) in (v, m\<lparr>pm_board := b\<rparr>))"

definition pm_write :: "'d bus \<Rightarrow> nat \<Rightarrow> usize \<Rightarrow> u32 \<Rightarrow> ('d, 'h, 's, 'z) pm_machine_scheme \<Rightarrow> ('d, 'h, 's, 'z) pm_machine_scheme" where
  "pm_write bus i off v m = m\<lparr>pm_board := tb_write_reg bus (wd_reg_base (pm_dev i m) + off) v (pm_board m)\<rparr>"

definition wdt_duration_to_ticks :: "duration \<Rightarrow> u32" where
  "wdt_duration_to_ticks d = ucast (convert_duration_to_ticks PM_WDOG_FREQUENCY_HZ d)"

definition wdt_ticks_to_duration :: "u32 \<Rightarrow> duration option" where
  "wdt_ticks_to_duration ticks = convert_ticks_to_duration PM_WDOG_FREQUENCY_HZ (ucast (ticks AND PM_WDOG_TIME_SET))"

definition timeout_ticks :: "nat \<Rightarrow> ('d, 'h, 's, 'z) pm_machine_scheme \<Rightarrow> u32" where
  "timeout_ticks i m = wdt_duration_to_ticks (Duration (ucast (wd_timeout (pm_dev i m))) 0)"

definition wdt_min_timeout :: duration where "wdt_min_timeout = Duration 0 1000000"
definition wdt_max_timeout :: duration where "wdt_max_timeout = Duration 15 0"

definition wdt_default_timeout :: "nat \<Rightarrow> ('d, 'h, 's, 'z) pm_machine_scheme \<Rightarrow> duration" where
  "wdt_default_timeout i m = Duration (ucast (wd_timeout (pm_dev i m))) 0"

definition wdt_is_running :: "'d bus \<Rightarrow> nat \<Rightarrow> ('d, 'h, 's, 'z) pm_machine_scheme \<Rightarrow> bool \<times> ('d, 'h, 's, 'z) pm_machine_scheme" where
  "wdt_is_running bus i m =
     (let (rstc, m1) = pm_read bus i PM_RSTC_REG_OFFSET m in (rstc AND PM_RSTC_WRCFG_FULL_RESET \<noteq> 0, m1))"

text \<open>The write of a countdown and the configuration of a full reset.\<close>

definition set_countdown :: "'d bus \<Rightarrow> nat \<Rightarrow> u32 \<Rightarrow> ('d, 'h, 's, 'z) pm_machine_scheme \<Rightarrow> ('d, 'h, 's, 'z) pm_machine_scheme" where
  "set_countdown bus i ticks = pm_write bus i PM_WDOG_REG_OFFSET ((ticks AND PM_WDOG_TIME_SET) OR PM_PASSWORD)"

definition configure_full_reset :: "'d bus \<Rightarrow> nat \<Rightarrow> ('d, 'h, 's, 'z) pm_machine_scheme \<Rightarrow> ('d, 'h, 's, 'z) pm_machine_scheme" where
  "configure_full_reset bus i m =
     (let (rstc, m1) = pm_read bus i PM_RSTC_REG_OFFSET m
      in pm_write bus i PM_RSTC_REG_OFFSET ((rstc AND PM_RSTC_WRCFG_CLR) OR PM_RSTC_WRCFG_FULL_RESET OR PM_PASSWORD) m1)"

definition wdt_start :: "'d bus \<Rightarrow> nat \<Rightarrow> ('d, 'h, 's, 'z) pm_machine_scheme \<Rightarrow> ('d, 'h, 's, 'z) pm_machine_scheme" where
  "wdt_start bus i m = configure_full_reset bus i (set_countdown bus i (timeout_ticks i m) m)"

definition wdt_stop :: "'d bus \<Rightarrow> nat \<Rightarrow> ('d, 'h, 's, 'z) pm_machine_scheme \<Rightarrow> ('d, 'h, 's, 'z) pm_machine_scheme" where
  "wdt_stop bus i = pm_write bus i PM_RSTC_REG_OFFSET (PM_RSTC_RESET OR PM_PASSWORD)"

definition wdt_set_timeout :: "nat \<Rightarrow> duration \<Rightarrow> ('d, 'h, 's, 'z) pm_machine_scheme \<Rightarrow> ('d, 'h, 's, 'z) pm_machine_scheme option" where
  "wdt_set_timeout i timeout m = do {
     let secs = as_secs timeout;
     assert_that (1 \<le> secs \<and> secs \<le> 15);
     Some (m\<lparr>pm_devices := (pm_devices m)[i := (pm_dev i m)\<lparr>wd_timeout := ucast secs\<rparr>]\<rparr>)
   }"

definition wdt_countdown :: "'d bus \<Rightarrow> nat \<Rightarrow> ('d, 'h, 's, 'z) pm_machine_scheme \<Rightarrow> (duration \<times> ('d, 'h, 's, 'z) pm_machine_scheme) option" where
  "wdt_countdown bus i m = do {
     let (ticks, m1) = pm_read bus i PM_WDOG_REG_OFFSET m;
     d \<leftarrow> wdt_ticks_to_duration ticks;
     Some (d, m1)
   }"

definition wdt_acknowledge :: "'d bus \<Rightarrow> nat \<Rightarrow> ('d, 'h, 's, 'z) pm_machine_scheme \<Rightarrow> ('d, 'h, 's, 'z) pm_machine_scheme" where
  "wdt_acknowledge bus i m = set_countdown bus i (timeout_ticks i m) m"

definition wdt_ops :: "'d bus \<Rightarrow> (nat, ('d, 'h, 's, 'z) pm_machine_scheme) watchdog_ops" where
  "wdt_ops bus = \<lparr>wo_is_running = wdt_is_running bus, wo_start = wdt_start bus, wo_stop = wdt_stop bus,
     wo_default_timeout = wdt_default_timeout, wo_max_timeout = (\<lambda>_. wdt_max_timeout), wo_min_timeout = (\<lambda>_. wdt_min_timeout),
     wo_set_timeout = wdt_set_timeout, wo_countdown = wdt_countdown bus, wo_acknowledge = wdt_acknowledge bus\<rparr>"

section \<open>Restart and power off\<close>

text \<open>The partition number, one bit of it at every second bit of the register.\<close>

definition rsts_partition :: "u32 \<Rightarrow> u32" where
  "rsts_partition code =
     fold (\<lambda>i acc. acc OR push_bit (2 * i) (drop_bit i code AND 1)) [0..<6] 0"

definition restart_with_partition :: "'d bus \<Rightarrow> nat \<Rightarrow> u32 \<Rightarrow> ('d, 'h, 's, 'z) pm_machine_scheme
    \<Rightarrow> ('d, 'h, 's, 'z) pm_machine_scheme option" where
  "restart_with_partition bus i code m = do {
     assert_that (code < 64);
     let (rsts, m1) = pm_read bus i PM_RSTS_REG_OFFSET m;
     let m2 = pm_write bus i PM_RSTS_REG_OFFSET
                ((rsts AND PM_RSTS_PARTITION_CLR) OR rsts_partition code OR PM_PASSWORD) m1;
     Some (configure_full_reset bus i (set_countdown bus i (wdt_duration_to_ticks wdt_min_timeout) m2))
   }"

text \<open>\<open>get_min_timeout().add(Duration::from_millis(1))\<close>, for how long the callers wait for the reset.\<close>

definition reset_wait :: duration where "reset_wait = Duration 0 2000000"

definition wdt_reset :: "'d bus \<Rightarrow> 's sysreg_bus \<Rightarrow> u32 \<Rightarrow> nat \<Rightarrow> ('d, 'h, 's, 'z) pm_machine_scheme
    \<Rightarrow> ('d, 'h, 's, 'z) pm_machine_scheme option" where
  "wdt_reset bus sr code i m = do {
     m1 \<leftarrow> restart_with_partition bus i code m;
     b \<leftarrow> busy_wait (device_timer_ops bus sr) (tb_time (pm_board m1)) reset_wait (pm_board m1);
     Some (m1\<lparr>pm_board := b\<rparr>)
   }"

definition wdt_restart :: "'d bus \<Rightarrow> 's sysreg_bus \<Rightarrow> nat \<Rightarrow> ('d, 'h, 's, 'z) pm_machine_scheme \<Rightarrow> ('d, 'h, 's, 'z) pm_machine_scheme option" where
  "wdt_restart bus sr = wdt_reset bus sr 0"

definition wdt_power_off :: "'d bus \<Rightarrow> 's sysreg_bus \<Rightarrow> nat \<Rightarrow> ('d, 'h, 's, 'z) pm_machine_scheme \<Rightarrow> ('d, 'h, 's, 'z) pm_machine_scheme option" where
  "wdt_power_off bus sr = wdt_reset bus sr 63"


section \<open>The driver\<close>

definition wdt_global_setup :: "'d bus \<Rightarrow> dt_node \<Rightarrow> nat
    \<Rightarrow> ('o, 'i, 'l, ('d, 'h, 's, 'y) pm_machine_scheme, 'k, nat, nat, 'z) wdt_world_scheme
    \<Rightarrow> ('o, 'i, 'l, ('d, 'h, 's, 'y) pm_machine_scheme, 'k, nat, nat, 'z) wdt_world_scheme" where
  "wdt_global_setup bus node i w =
     (let m = tw_machine w;
          m1 = (case Option.bind (unknown_prop ''timeout-sec'' node) (\<lambda>v. of_result (value_as_u32 v)) of
                  Some timeout_sec \<Rightarrow> m\<lparr>pm_devices := (pm_devices m)[i := (pm_dev i m)\<lparr>wd_timeout := timeout_sec\<rparr>]\<rparr>
                | None \<Rightarrow> m);
          (running, m2) = wdt_is_running bus i m1;
          m3 = (if running then wdt_stop bus i m2 else m2)
      in register_power_off_handler i (register_restart_handler i (register_watchdog i (w\<lparr>tw_machine := m3\<rparr>))))"

text \<open>The region of the watchdog: the one named \<open>pm\<close>, or else the first.\<close>

definition pm_reg_index :: "dt_node \<Rightarrow> nat" where
  "pm_reg_index n =
     (case unknown_prop ''reg-names'' n of
        None \<Rightarrow> 0
      | Some v \<Rightarrow> (let names = ok_strings (string_list v); k = length (takeWhile (\<lambda>s. s \<noteq> ''pm'') names)
                    in if k < length names then k else 0))"

definition wdt_try_init :: "'d bus \<Rightarrow> device_tree \<Rightarrow> nat
    \<Rightarrow> ('o, 'i, 'l, ('d, 'h, 's, 'y) pm_machine_scheme, 'k, nat, nat, 'z) wdt_world_scheme
    \<Rightarrow> ((driver_init_error + unit) \<times> ('o, 'i, 'l, ('d, 'h, 's, 'y) pm_machine_scheme, 'k, nat, nat, 'z) wdt_world_scheme) option" where
  "wdt_try_init bus dt node w = do {
     reg \<leftarrow> node_reg (dt_node_at dt node);
     (case reg of
        None \<Rightarrow> Some (Inl DeviceTreeError, w)
      | Some rs \<Rightarrow>
          if \<not> (2 \<le> length rs \<and> length rs \<le> 3) then Some (Inl DeviceTreeError, w)
          else do {
            resolved \<leftarrow> resolve_phys_address_and_length dt node (pm_reg_index (dt_node_at dt node));
            (case resolved of
               None \<Rightarrow> Some (Inl DeviceTreeError, w)
             | Some (phys_addr, len) \<Rightarrow> do {
                 let m = tw_machine w;
                 let tb = pm_board m;
                 (addr, mmu) \<leftarrow> map_io_region phys_addr len (bd_mmu (tb_board tb));
                 path \<leftarrow> node_path dt node;
                 let i = length (pm_devices m);
                 let m1 = m\<lparr>pm_board := tb\<lparr>tb_board := (tb_board tb)\<lparr>bd_mmu := mmu\<rparr>\<rparr>,
                            pm_devices := pm_devices m @ [wdt_device_new path addr]\<rparr>;
                 let w1 = wdt_global_setup bus (dt_node_at dt node) i (w\<lparr>tw_machine := m1\<rparr>);
                 Some (Inr (), w1\<lparr>tw_machine := (tw_machine w1)\<lparr>pm_registry := add_device path i (pm_registry (tw_machine w1))\<rparr>\<rparr>)
               })
          })
   }"

section \<open>Registers that keep what is written\<close>

definition pm_reg :: "nat \<Rightarrow> usize \<Rightarrow> (usize \<Rightarrow> u32, 'h, 's, 'z) pm_machine_scheme \<Rightarrow> u32" where
  "pm_reg i off m = bd_regs (tb_board (pm_board m)) (wd_reg_base (pm_dev i m) + off)"

lemma pm_read_ram [simp]: "pm_read ram_bus i off m = (pm_reg i off m, m)"
  by (simp add: pm_read_def pm_reg_def tb_read_reg_def read_reg_def)

lemma pm_write_devices [simp]:
  "pm_devices (pm_write bus i off v m) = pm_devices m" "pm_dev j (pm_write bus i off v m) = pm_dev j m"
  by (simp_all add: pm_write_def pm_dev_def)

lemma pm_reg_write [simp]: "pm_reg i off (pm_write ram_bus i off' v m) = (if off = off' then v else pm_reg i off m)"
  by (simp add: pm_reg_def pm_write_def pm_dev_def tb_write_reg_def write_reg_def)

lemma timeout_ticks_write [simp]: "timeout_ticks i (pm_write bus j off v m) = timeout_ticks i m"
  by (simp add: timeout_ticks_def)

lemmas pm_offsets = PM_RSTC_REG_OFFSET_def PM_RSTS_REG_OFFSET_def PM_WDOG_REG_OFFSET_def

lemma password_above_time [simp]: "((ticks AND PM_WDOG_TIME_SET) OR PM_PASSWORD) AND PM_WDOG_TIME_SET = ticks AND PM_WDOG_TIME_SET"
proof -
  have "PM_PASSWORD AND PM_WDOG_TIME_SET = 0" by (simp add: PM_PASSWORD_def PM_WDOG_TIME_SET_def)
  then show ?thesis unfolding bit.conj_disj_distrib2 by (simp add: and.assoc)
qed

lemma PM_WDOG_TIME_SET_mask: "PM_WDOG_TIME_SET = mask 20"
  by (simp add: PM_WDOG_TIME_SET_def mask_eq_exp_minus_1)

text \<open>Whole seconds in ticks: the register keeps four bits of them.\<close>

lemma seconds_in_ticks:
  "wdt_duration_to_ticks (Duration (ucast t) 0) AND PM_WDOG_TIME_SET = push_bit 16 (t AND mask 4)" for t :: u32
proof -
  have "wdt_duration_to_ticks (Duration (ucast t) 0) = ucast (ucast (push_bit 16 (ucast (ucast t :: u64) :: u128)) :: u64)"
    by (simp add: wdt_duration_to_ticks_def convert_duration_to_ticks_def PM_WDOG_FREQUENCY_HZ_def push_bit_eq_mult NANOS_PER_SEC_def mult.commute)
  then show ?thesis
    unfolding PM_WDOG_TIME_SET_mask by (intro bit_word_eqI) (auto simp: bit_simps)
qed

lemma less_16_cases: "r < 16 \<Longrightarrow> r = 0 \<or> r = 1 \<or> r = 2 \<or> r = 3 \<or> r = 4 \<or> r = 5 \<or> r = 6 \<or> r = 7
    \<or> r = 8 \<or> r = 9 \<or> r = 10 \<or> r = 11 \<or> r = 12 \<or> r = 13 \<or> r = 14 \<or> r = 15" for r :: nat
  by arith

lemma ticks_to_seconds: "wdt_ticks_to_duration (push_bit 16 (t AND mask 4)) = Some (Duration (ucast (t AND mask 4)) 0)" for t :: u32
proof -
  define r where "r = unat (t AND mask 4)"
  have "r < 16" by (simp add: r_def unat_and_mask)
  moreover have "t AND mask 4 = of_nat r" by (simp add: r_def)
  moreover have "wdt_ticks_to_duration (push_bit 16 (of_nat r)) = Some (Duration (ucast (of_nat r :: u32)) 0)"
    using less_16_cases [OF \<open>r < 16\<close>]
    by (elim disjE) (simp_all add: wdt_ticks_to_duration_def convert_ticks_to_duration_def PM_WDOG_FREQUENCY_HZ_def PM_WDOG_TIME_SET_def
        push_bit_eq_mult duration_new_def NANOS_PER_SEC_def)
  ultimately show ?thesis by simp
qed

text \<open>Once the watchdog is started it is running, and its countdown is what the four lowest bits of its timeout
  say: up to 15 seconds it is the timeout, and the timeout of 16 seconds that a device tree may ask for, which
  is not checked, is no time at all.\<close>

theorem started_countdown:
  "wdt_is_running ram_bus i (wdt_start ram_bus i m) = (True, wdt_start ram_bus i m)
    \<and> wdt_countdown ram_bus i (wdt_start ram_bus i m)
        = Some (Duration (ucast (wd_timeout (pm_dev i m) AND mask 4)) 0, wdt_start ram_bus i m)"
proof -
  let ?m = "wdt_start ram_bus i m"
  have running: "pm_reg i PM_RSTC_REG_OFFSET ?m AND PM_RSTC_WRCFG_FULL_RESET \<noteq> 0"
    by (simp add: wdt_start_def set_countdown_def configure_full_reset_def pm_offsets bit.conj_disj_distrib2 PM_RSTC_WRCFG_FULL_RESET_def or_eq_0_iff)
  have "pm_reg i PM_WDOG_REG_OFFSET ?m = (timeout_ticks i m AND PM_WDOG_TIME_SET) OR PM_PASSWORD"
    by (simp add: wdt_start_def set_countdown_def configure_full_reset_def pm_offsets)
  then have "pm_reg i PM_WDOG_REG_OFFSET ?m AND PM_WDOG_TIME_SET = timeout_ticks i m AND PM_WDOG_TIME_SET"
    by (simp only: password_above_time)
  then have "pm_reg i PM_WDOG_REG_OFFSET ?m AND PM_WDOG_TIME_SET = push_bit 16 (wd_timeout (pm_dev i m) AND mask 4)"
    by (simp only: timeout_ticks_def seconds_in_ticks)
  moreover have "wdt_ticks_to_duration (pm_reg i PM_WDOG_REG_OFFSET ?m)
      = wdt_ticks_to_duration (pm_reg i PM_WDOG_REG_OFFSET ?m AND PM_WDOG_TIME_SET)"
    by (simp add: wdt_ticks_to_duration_def)
  ultimately have "wdt_ticks_to_duration (pm_reg i PM_WDOG_REG_OFFSET ?m) = Some (Duration (ucast (wd_timeout (pm_dev i m) AND mask 4)) 0)"
    by (simp only: ticks_to_seconds)
  with running show ?thesis by (simp add: wdt_is_running_def wdt_countdown_def)
qed

text \<open>The bits of the partition.\<close>

lemma rsts_partition_eq:
  "rsts_partition code = (code AND 1) OR push_bit 2 (drop_bit 1 code AND 1) OR push_bit 4 (drop_bit 2 code AND 1)
     OR push_bit 6 (drop_bit 3 code AND 1) OR push_bit 8 (drop_bit 4 code AND 1) OR push_bit 10 (drop_bit 5 code AND 1)"
  by (simp add: rsts_partition_def upt_rec or.assoc eval_nat_numeral)

lemma bit_code_place: "n < 32 \<Longrightarrow> bit (push_bit n (drop_bit j code AND 1)) k \<longleftrightarrow> k = n \<and> bit code j" for code :: u32
  by (auto simp: bit_simps bit_1_iff)

lemma bit_rsts_partition: "bit (rsts_partition code) k \<longleftrightarrow> even k \<and> k < 12 \<and> bit code (k div 2)"
proof -
  have "bit (code AND 1) k \<longleftrightarrow> k = 0 \<and> bit code 0" by (auto simp: bit_simps bit_1_iff)
  then have "bit (rsts_partition code) k \<longleftrightarrow> (k = 0 \<and> bit code 0) \<or> (k = 2 \<and> bit code 1) \<or> (k = 4 \<and> bit code 2)
      \<or> (k = 6 \<and> bit code 3) \<or> (k = 8 \<and> bit code 4) \<or> (k = 10 \<and> bit code 5)"
    by (simp only: rsts_partition_eq bit_or_iff bit_code_place)
  note bits = this
  show ?thesis
  proof (cases "even k \<and> k < 12")
    case True
    then have "k = 0 \<or> k = 2 \<or> k = 4 \<or> k = 6 \<or> k = 8 \<or> k = 10" by presburger
    then show ?thesis unfolding bits by (elim disjE) simp_all
  next
    case False
    then have "k \<noteq> 0 \<and> k \<noteq> 2 \<and> k \<noteq> 4 \<and> k \<noteq> 6 \<and> k \<noteq> 8 \<and> k \<noteq> 10" by presburger
    then show ?thesis using False bits by blast
  qed
qed

text \<open>Restarting with the number of a partition is configured as a full reset in less than a millisecond, and leaves in the
  status register the bits of the number at the even places below the twelfth, with the other bits of the lower three
  bytes as they were: the code 63 of a halt is legible to the firmware.\<close>

theorem restart_sets_partition:
  assumes "code < 64"
  shows "\<exists>m'. restart_with_partition ram_bus i code m = Some m'
    \<and> (\<forall>k < 24. bit (pm_reg i PM_RSTS_REG_OFFSET m') k
           = (if even k \<and> k < 12 then bit code (k div 2) else bit (pm_reg i PM_RSTS_REG_OFFSET m) k))
    \<and> wdt_countdown ram_bus i m' = Some (Duration 0 991821, m')
    \<and> wdt_is_running ram_bus i m' = (True, m')"
proof -
  let ?rsts = "(pm_reg i PM_RSTS_REG_OFFSET m AND PM_RSTS_PARTITION_CLR) OR rsts_partition code OR PM_PASSWORD"
  let ?m1 = "pm_write ram_bus i PM_RSTS_REG_OFFSET ?rsts m"
  let ?m = "configure_full_reset ram_bus i (set_countdown ram_bus i (wdt_duration_to_ticks wdt_min_timeout) ?m1)"
  have "bit ?rsts k = (if even k \<and> k < 12 then bit code (k div 2) else bit (pm_reg i PM_RSTS_REG_OFFSET m) k)" if "k < 24" for k
  proof -
    have "\<not> bit PM_PASSWORD k"
    proof -
      have "PM_PASSWORD = push_bit 24 0x5a" by (simp add: PM_PASSWORD_def)
      then show ?thesis using that by (metis bit_push_bit_iff leD)
    qed
    moreover have "bit PM_RSTS_PARTITION_CLR k \<longleftrightarrow> \<not> (even k \<and> k < 12)"
    proof -
      have clr: "PM_RSTS_PARTITION_CLR = NOT (rsts_partition 63)" by (simp add: PM_RSTS_PARTITION_CLR_def rsts_partition_eq)
      moreover have "bit (63 :: u32) j" if "j < 6" for j
      proof -
        have "(63 :: u32) = mask 6" by (simp add: mask_eq_exp_minus_1)
        with that show ?thesis by (simp only: bit_mask_iff) simp
      qed
      moreover have "k < LENGTH(32)" using that by simp
      ultimately show ?thesis unfolding clr bit_not_iff bit_rsts_partition possible_bit_word by auto
    qed
    ultimately show ?thesis by (auto simp: bit_or_iff bit_and_iff bit_rsts_partition)
  qed
  moreover have "pm_reg i PM_RSTS_REG_OFFSET ?m = ?rsts" "pm_reg i PM_WDOG_REG_OFFSET ?m = 65 OR PM_PASSWORD"
    by (simp_all add: configure_full_reset_def set_countdown_def pm_offsets wdt_min_timeout_def wdt_duration_to_ticks_def
        convert_duration_to_ticks_def PM_WDOG_FREQUENCY_HZ_def NANOS_PER_SEC_def PM_WDOG_TIME_SET_def)
  moreover have "wdt_ticks_to_duration (65 OR PM_PASSWORD) = Some (Duration 0 991821)"
    by (simp add: wdt_ticks_to_duration_def PM_PASSWORD_def PM_WDOG_TIME_SET_def convert_ticks_to_duration_def
        PM_WDOG_FREQUENCY_HZ_def NANOS_PER_SEC_def duration_new_def)
  moreover have "pm_reg i PM_RSTC_REG_OFFSET ?m AND PM_RSTC_WRCFG_FULL_RESET \<noteq> 0"
    by (simp add: configure_full_reset_def set_countdown_def pm_offsets bit.conj_disj_distrib2 PM_RSTC_WRCFG_FULL_RESET_def or_eq_0_iff)
  moreover have "restart_with_partition ram_bus i code m = Some ?m"
    using assms by (simp add: restart_with_partition_def)
  ultimately show ?thesis
    by (intro exI [of _ ?m]) (simp add: wdt_countdown_def wdt_is_running_def)
qed

definition example_pm_machine :: "(usize \<Rightarrow> u32, unit, unit) pm_machine" where
  "example_pm_machine = \<lparr>pm_board = \<lparr>tb_board = \<lparr>bd_regs = (\<lambda>_. 0), bd_irqs = irq_tables_new, bd_virq_bases = Map.empty,
       bd_mmu = example_mmu, bd_core = 0, bd_l1_devices = registry_new, bd_armctrl_devices = registry_new\<rparr>,
     tb_sysregs = (), tb_time = time_state_new, tb_local = local_data_new 0, tb_system_devices = registry_new,
     tb_generic_devices = registry_new\<rparr>, pm_devices = [wdt_device_new ''wdt'' 0x1000], pm_registry = registry_new\<rparr>"

theorem restart_sets_partition_witness:
  "\<exists>m'. restart_with_partition ram_bus 0 63 example_pm_machine = Some m' \<and> bit (pm_reg 0 PM_RSTS_REG_OFFSET m') 10
     \<and> wdt_is_running ram_bus 0 m' = (True, m')"
proof -
  have "(63 :: u32) = mask 6" by (simp add: mask_eq_exp_minus_1)
  then have "bit (63 :: u32) 5" by (simp only: bit_mask_iff) simp
  then show ?thesis using restart_sets_partition [of 63 0 example_pm_machine] by auto
qed

text \<open>The command of the shell to set the timeout. The shortest timeout is below a second, so zero seconds pass the test
  of the command, and the assertion of the device panics.\<close>

lemma word_between_1_15: "0 < (n :: u64) \<Longrightarrow> 1 \<le> n"
  by (simp add: word_less_nat_alt word_le_nat_alt)

text \<open>The command to set the timeout of a watchdog, with a number in decimal: from 1 to 15 it becomes the timeout in
  seconds, above it is refused with a message, and zero brings the kernel down.\<close>

theorem set_timeout_command:
  fixes n :: u64
  assumes "ww_watchdogs w = i # ws"
  shows "watchdog_command ops (wdt_ops bus) [''set_timeout'', dec_of_nat (unat n)] w
    = (if n = 0 then None
       else if n \<le> 15 then Some (w\<lparr>tw_machine := (tw_machine w)\<lparr>pm_devices :=
              (pm_devices (tw_machine w))[i := (pm_dev i (tw_machine w))\<lparr>wd_timeout := ucast n\<rparr>]\<rparr>\<rparr>)
       else Some (tputs ops [''Usage: Timeout must be between '', ''0'', '' and '', ''15'', '' seconds.'' @ newline] w))"
proof -
  have first: "first_watchdog w = Some i" using assms by (simp add: first_watchdog_def)
  have "dec_of_nat 0 = ''0''" "dec_of_nat 15 = ''15''" by code_simp+
  then show ?thesis
    by (auto simp: watchdog_command_def watchdog_set_timeout_def first wdt_ops_def wdt_min_timeout_def wdt_max_timeout_def
        wdt_set_timeout_def word_between_1_15 word_neq_0_conv not_le)
qed

definition example_wdt_world ::
    "(string, unit, unit, (usize \<Rightarrow> u32, unit, unit) pm_machine, unit, nat, nat) wdt_world" where
  "example_wdt_world = \<lparr>tw_input_devices = [()], tw_output_devices = [''uart''], tw_terminal = None,
     tw_machine = example_pm_machine, sh_commands = [], sh_restart_handlers = [0], sh_power_off_handlers = [0], ww_watchdogs = [0]\<rparr>"

theorem set_timeout_command_witness:
  "watchdog_command \<lparr>od_id = id, od_write = (\<lambda>_ _ m. m)\<rparr> (wdt_ops ram_bus) [''set_timeout'', ''0''] example_wdt_world = None
   \<and> map_option (wdt_default_timeout 0 \<circ> tw_machine)
        (watchdog_command \<lparr>od_id = id, od_write = (\<lambda>_ _ m. m)\<rparr> (wdt_ops ram_bus) [''set_timeout'', ''9''] example_wdt_world)
      = Some (Duration 9 0)"
proof -
  have "ww_watchdogs example_wdt_world = 0 # []" by (simp add: example_wdt_world_def)
  note * = set_timeout_command [OF this, of "\<lparr>od_id = id, od_write = (\<lambda>_ _ m. m)\<rparr>" ram_bus]
  have "dec_of_nat 0 = ''0''" "dec_of_nat 9 = ''9''" by code_simp+
  with * [of 0] * [of 9] show ?thesis
    by (simp del: map_option_eq_Some add: wdt_default_timeout_def pm_dev_def example_wdt_world_def example_pm_machine_def)
qed

end
