(* ===== verification/Rng.thy ===== *)
theory Rng
  imports Number_Formats Shell Timers Device_Probe
begin

text \<open>Random numbers (\<open>kernel/rng.rs\<close>): the trait with the reading of whole buffers, the generator of the system and its
  command; and the generator of the board (\<open>drivers/rng/bcm2835_rng.rs\<close>), which is polled. The lock of the device is
  elided.\<close>

datatype rng_error = RngHardwareError | RngTimeout | RngAlreadyRegistered

definition rng_error_name :: "rng_error \<Rightarrow> string" where
  "rng_error_name e = (case e of RngHardwareError \<Rightarrow> ''HardwareError'' | RngTimeout \<Rightarrow> ''Timeout''
     | RngAlreadyRegistered \<Rightarrow> ''AlreadyRegistered'')"

text \<open>The method \<open>read\<close> of the trait gives its result and the buffer as it leaves it.\<close>

record ('g, 'm) rng_ops =
  ro_enable :: "'g \<Rightarrow> 'm \<Rightarrow> (rng_error + unit) \<times> 'm"
  ro_disable :: "'g \<Rightarrow> 'm \<Rightarrow> (rng_error + unit) \<times> 'm"
  ro_read :: "'g \<Rightarrow> u8 list \<Rightarrow> bool \<Rightarrow> 'm \<Rightarrow> ((rng_error + nat) \<times> u8 list \<times> 'm) option"

partial_function (option) read_exact :: "('g, 'm) rng_ops \<Rightarrow> 'g \<Rightarrow> nat \<Rightarrow> u8 list \<Rightarrow> 'm
    \<Rightarrow> ((rng_error + unit) \<times> u8 list \<times> 'm) option" where
  "read_exact ops g offset buffer m =
     (if offset < length buffer then do {
        (r, rest, m1) \<leftarrow> ro_read ops g (drop offset buffer) True m;
        let buffer1 = take offset buffer @ rest;
        (case r of
           Inl e \<Rightarrow> Some (Inl e, buffer1, m1)
         | Inr n \<Rightarrow> if n = 0 then Some (Inl RngTimeout, buffer1, m1)
                    else read_exact ops g (offset + n) buffer1 m1)
      } else Some (Inr (), buffer, m))"

definition next_word :: "nat \<Rightarrow> ('g, 'm) rng_ops \<Rightarrow> 'g \<Rightarrow> 'm \<Rightarrow> ((rng_error + 'a::len word) \<times> 'm) option" where
  "next_word bytes ops g m = do {
     (r, buf, m1) \<leftarrow> read_exact ops g 0 (replicate bytes 0) m;
     Some (res_bind r (\<lambda>_. Inr (of_nat (le_nat buf))), m1)
   }"

definition next_u32 :: "('g, 'm) rng_ops \<Rightarrow> 'g \<Rightarrow> 'm \<Rightarrow> ((rng_error + u32) \<times> 'm) option" where
  "next_u32 = next_word 4"

definition next_u64 :: "('g, 'm) rng_ops \<Rightarrow> 'g \<Rightarrow> 'm \<Rightarrow> ((rng_error + u64) \<times> 'm) option" where
  "next_u64 = next_word 8"

definition next_usize :: "('g, 'm) rng_ops \<Rightarrow> 'g \<Rightarrow> 'm \<Rightarrow> ((rng_error + usize) \<times> 'm) option" where
  "next_usize = next_word 8"

record ('o, 'i, 'l, 'm, 'k, 'r, 'g) rng_world = "('o, 'i, 'l, 'm, 'k, 'r) shell_world" +
  rn_rng :: "'g option"

definition register_rng :: "'g \<Rightarrow> ('o, 'i, 'l, 'm, 'k, 'r, 'g, 'z) rng_world_scheme
    \<Rightarrow> (rng_error + unit) \<times> ('o, 'i, 'l, 'm, 'k, 'r, 'g, 'z) rng_world_scheme" where
  "register_rng rng w =
     (case rn_rng w of Some _ \<Rightarrow> (Inl RngAlreadyRegistered, w) | None \<Rightarrow> (Inr (), w\<lparr>rn_rng := Some rng\<rparr>))"

definition rng_command :: "('o, 'm) output_ops \<Rightarrow> ('g, 'm) rng_ops \<Rightarrow> ('o, 'i, 'l, 'm, 'k, 'r, 'g, 'z) rng_world_scheme
    \<Rightarrow> ('o, 'i, 'l, 'm, 'k, 'r, 'g, 'z) rng_world_scheme option" where
  "rng_command ops rops w = do {
     rng \<leftarrow> rn_rng w;
     (r, m) \<leftarrow> next_usize rops rng (tw_machine w);
     Some (tput ops (bytes_of_str (case r of
         Inr num \<Rightarrow> ''Random number: '' @ dec_of_nat (unat num) @ newline
       | Inl err \<Rightarrow> ''Failed to get random number: '' @ rng_error_name err @ newline)) (w\<lparr>tw_machine := m\<rparr>))
   }"

definition rng_init :: "'k \<Rightarrow> ('o, 'i, 'l, 'm, 'k, 'r, 'g, 'z) rng_world_scheme \<Rightarrow> ('o, 'i, 'l, 'm, 'k, 'r, 'g, 'z) rng_world_scheme" where
  "rng_init k w =
     (case rn_rng w of
        None \<Rightarrow> w
      | Some _ \<Rightarrow> register_command \<lparr>sc_name = ''rng'', sc_description = ''Print a random number'', sc_handler = k\<rparr> w)"


section \<open>The device\<close>

definition RNG_CTRL_REG_OFFSET :: usize where "RNG_CTRL_REG_OFFSET = 0x00"
definition RNG_STATUS_REG_OFFSET :: usize where "RNG_STATUS_REG_OFFSET = 0x04"
definition RNG_DATA_REG_OFFSET :: usize where "RNG_DATA_REG_OFFSET = 0x08"
definition RNG_RBGEN_BIT :: u32 where "RNG_RBGEN_BIT = 1"
definition UNIT_SIZE :: nat where "UNIT_SIZE = 4"
definition RNG_FIFO_SIZE :: nat where "RNG_FIFO_SIZE = 4"
definition RNG_WAIT_PER_UNIT :: duration where "RNG_WAIT_PER_UNIT = Duration 0 34000"
definition RNG_WARMUP_COUNT :: u32 where "RNG_WARMUP_COUNT = 0x40000"
definition UNSUPPORTED_PROPS :: "string list" where
  "UNSUPPORTED_PROPS = [''clocks'', ''clock-names'', ''resets'', ''reset-names'']"

record rng_device =
  rd_id :: string
  rd_reg_base :: usize

record ('d, 'h, 's) rng_machine =
  rm_board :: "('d, 'h, 's) timer_board"
  rm_registry :: "rng_device registry"

definition rng_read_reg :: "'d bus \<Rightarrow> rng_device \<Rightarrow> usize \<Rightarrow> ('d, 'h, 's, 'z) rng_machine_scheme \<Rightarrow> u32 \<times> ('d, 'h, 's, 'z) rng_machine_scheme" where
  "rng_read_reg bus dev off m =
     (let (v, b) = tb_read_reg bus (rd_reg_base dev + off) (rm_board m) in (v, m\<lparr>rm_board := b\<rparr>))"

definition rng_write_reg :: "'d bus \<Rightarrow> rng_device \<Rightarrow> usize \<Rightarrow> u32 \<Rightarrow> ('d, 'h, 's, 'z) rng_machine_scheme \<Rightarrow> ('d, 'h, 's, 'z) rng_machine_scheme" where
  "rng_write_reg bus dev off v m = m\<lparr>rm_board := tb_write_reg bus (rd_reg_base dev + off) v (rm_board m)\<rparr>"

definition rng_enable :: "'d bus \<Rightarrow> rng_device \<Rightarrow> ('d, 'h, 's, 'z) rng_machine_scheme
    \<Rightarrow> (rng_error + unit) \<times> ('d, 'h, 's, 'z) rng_machine_scheme" where
  "rng_enable bus dev m =
     (let (ctrl, m1) = rng_read_reg bus dev RNG_CTRL_REG_OFFSET m
      in (Inr (), if ctrl AND RNG_RBGEN_BIT = 0
                  then rng_write_reg bus dev RNG_CTRL_REG_OFFSET RNG_RBGEN_BIT
                         (rng_write_reg bus dev RNG_STATUS_REG_OFFSET RNG_WARMUP_COUNT m1)
                  else m1))"

definition rng_disable :: "'d bus \<Rightarrow> rng_device \<Rightarrow> ('d, 'h, 's, 'z) rng_machine_scheme
    \<Rightarrow> (rng_error + unit) \<times> ('d, 'h, 's, 'z) rng_machine_scheme" where
  "rng_disable bus dev m = (Inr (), rng_write_reg bus dev RNG_CTRL_REG_OFFSET 0 m)"

text \<open>The loop that waits for a word; the first argument is \<open>retries\<close>.\<close>

definition rng_retries :: nat where
  "rng_retries = 1000000 div (RNG_FIFO_SIZE * 34)"

definition rng_available :: "'d bus \<Rightarrow> rng_device \<Rightarrow> ('d, 'h, 's, 'z) rng_machine_scheme \<Rightarrow> nat \<times> ('d, 'h, 's, 'z) rng_machine_scheme" where
  "rng_available bus dev m =
     (let (status, m1) = rng_read_reg bus dev RNG_STATUS_REG_OFFSET m in (unat (drop_bit 24 status) * UNIT_SIZE, m1))"

fun rng_poll :: "nat \<Rightarrow> 'd bus \<Rightarrow> 's sysreg_bus \<Rightarrow> rng_device \<Rightarrow> bool \<Rightarrow> ('d, 'h, 's, 'z) rng_machine_scheme
    \<Rightarrow> (nat \<times> ('d, 'h, 's, 'z) rng_machine_scheme) option" where
  "rng_poll 0 bus sr dev wait m = Some (rng_available bus dev m)"
| "rng_poll (Suc n) bus sr dev wait m =
     (let (available, m1) = rng_available bus dev m
      in if available > 0 \<or> \<not> wait then Some (available, m1)
         else do {
           b \<leftarrow> busy_wait (device_timer_ops bus sr) (tb_time (rm_board m1)) RNG_WAIT_PER_UNIT (rm_board m1);
           rng_poll n bus sr dev wait (m1\<lparr>rm_board := b\<rparr>)
         })"

text \<open>The bytes of the words from the data register, the last one cut off.\<close>

function rng_fetch :: "'d bus \<Rightarrow> rng_device \<Rightarrow> nat \<Rightarrow> ('d, 'h, 's, 'z) rng_machine_scheme \<Rightarrow> u8 list \<times> ('d, 'h, 's, 'z) rng_machine_scheme" where
  "rng_fetch bus dev n m =
     (if n = 0 then ([], m)
      else let (data, m1) = rng_read_reg bus dev RNG_DATA_REG_OFFSET m;
               chunk_len = min n UNIT_SIZE;
               (rest, m2) = rng_fetch bus dev (n - chunk_len) m1
           in (take chunk_len (u32_to_le_bytes data) @ rest, m2))"
  by pat_completeness auto
termination
  by (relation "measure (\<lambda>(_, _, n, _). n)") (auto simp: UNIT_SIZE_def)

declare rng_fetch.simps [simp del]

definition rng_read :: "'d bus \<Rightarrow> 's sysreg_bus \<Rightarrow> rng_device \<Rightarrow> u8 list \<Rightarrow> bool \<Rightarrow> ('d, 'h, 's, 'z) rng_machine_scheme
    \<Rightarrow> ((rng_error + nat) \<times> u8 list \<times> ('d, 'h, 's, 'z) rng_machine_scheme) option" where
  "rng_read bus sr dev buffer wait m = do {
     (available, m1) \<leftarrow> rng_poll rng_retries bus sr dev wait m;
     let bytes_to_copy = min available (length buffer);
     let (bytes, m2) = rng_fetch bus dev bytes_to_copy m1;
     Some (Inr bytes_to_copy, bytes @ drop bytes_to_copy buffer, m2)
   }"

definition rng_device_ops :: "'d bus \<Rightarrow> 's sysreg_bus \<Rightarrow> (rng_device, ('d, 'h, 's, 'z) rng_machine_scheme) rng_ops" where
  "rng_device_ops bus sr = \<lparr>ro_enable = rng_enable bus, ro_disable = rng_disable bus, ro_read = rng_read bus sr\<rparr>"

definition rng_global_setup :: "'d bus \<Rightarrow> dt_node \<Rightarrow> rng_device
    \<Rightarrow> ('o, 'i, 'l, ('d, 'h, 's, 'y) rng_machine_scheme, 'k, 'r, rng_device, 'z) rng_world_scheme
    \<Rightarrow> (driver_init_error + unit) \<times> ('o, 'i, 'l, ('d, 'h, 's, 'y) rng_machine_scheme, 'k, 'r, rng_device, 'z) rng_world_scheme" where
  "rng_global_setup bus node dev w =
     (if list_ex (\<lambda>p. dp_name p \<in> set UNSUPPORTED_PROPS) (dn_properties node) then (Inl DeviceFailed, w)
      else let (r, m) = rng_enable bus dev (tw_machine w);
               w1 = w\<lparr>tw_machine := m\<rparr>
           in case r of
                Inl _ \<Rightarrow> (Inl DeviceFailed, w1)
              | Inr _ \<Rightarrow> (case register_rng dev w1 of
                            (Inl _, w2) \<Rightarrow> (Inl DeviceFailed, w2)
                          | (Inr _, w2) \<Rightarrow> (Inr (), w2)))"

definition rng_try_init :: "'d bus \<Rightarrow> device_tree \<Rightarrow> nat
    \<Rightarrow> ('o, 'i, 'l, ('d, 'h, 's, 'y) rng_machine_scheme, 'k, 'r, rng_device, 'z) rng_world_scheme
    \<Rightarrow> ((driver_init_error + unit) \<times> ('o, 'i, 'l, ('d, 'h, 's, 'y) rng_machine_scheme, 'k, 'r, rng_device, 'z) rng_world_scheme) option" where
  "rng_try_init bus dt node w = do {
     let m = tw_machine w;
     let tb = rm_board m;
     (r, mmu) \<leftarrow> map_device_registers dt node (bd_mmu (tb_board tb));
     let w1 = w\<lparr>tw_machine := m\<lparr>rm_board := tb\<lparr>tb_board := (tb_board tb)\<lparr>bd_mmu := mmu\<rparr>\<rparr>\<rparr>\<rparr>;
     (case r of
        Inl e \<Rightarrow> Some (Inl e, w1)
      | Inr addr \<Rightarrow> do {
          path \<leftarrow> node_path dt node;
          let dev = \<lparr>rd_id = path, rd_reg_base = addr\<rparr>;
          (case rng_global_setup bus (dt_node_at dt node) dev w1 of
             (Inl e, w2) \<Rightarrow> Some (Inl e, w2)
           | (Inr _, w2) \<Rightarrow> Some (Inr (), w2\<lparr>tw_machine := (tw_machine w2)\<lparr>rm_registry := add_device path dev (rm_registry (tw_machine w2))\<rparr>\<rparr>))
        })
   }"

section \<open>A generator with words\<close>

text \<open>A generator that shows, at every reading of its status, between 1 and 255 words that are ready, and gives its words one by
  one.\<close>

record fifo =
  ff_ready :: "nat \<Rightarrow> u8"
  ff_polls :: nat
  ff_words :: "nat \<Rightarrow> u32"
  ff_taken :: nat

definition fifo_bus :: "usize \<Rightarrow> fifo bus" where
  "fifo_bus base = \<lparr>
     bus_read = (\<lambda>a d. if a = base + RNG_STATUS_REG_OFFSET
                        then (push_bit 24 (ucast (ff_ready d (ff_polls d))), d\<lparr>ff_polls := Suc (ff_polls d)\<rparr>)
                        else if a = base + RNG_DATA_REG_OFFSET then (ff_words d (ff_taken d), d\<lparr>ff_taken := Suc (ff_taken d)\<rparr>)
                        else (0, d)),
     bus_write = (\<lambda>a v d. d)\<rparr>"

definition rm_fifo :: "(fifo, 'h, 's, 'z) rng_machine_scheme \<Rightarrow> fifo" where
  "rm_fifo m = bd_regs (tb_board (rm_board m))"

definition set_fifo :: "fifo \<Rightarrow> (fifo, 'h, 's, 'z) rng_machine_scheme \<Rightarrow> (fifo, 'h, 's, 'z) rng_machine_scheme" where
  "set_fifo f m = m\<lparr>rm_board := (rm_board m)\<lparr>tb_board := (tb_board (rm_board m))\<lparr>bd_regs := f\<rparr>\<rparr>\<rparr>"

lemma rm_fifo_set [simp]: "rm_fifo (set_fifo f m) = f"
  by (simp add: rm_fifo_def set_fifo_def)

lemma set_fifo_set [simp]: "set_fifo f (set_fifo g m) = set_fifo f m"
  by (simp add: set_fifo_def)

lemma rng_read_fifo [simp]:
  "rng_read_reg (fifo_bus (rd_reg_base dev)) dev RNG_STATUS_REG_OFFSET m
     = (push_bit 24 (ucast (ff_ready (rm_fifo m) (ff_polls (rm_fifo m)))), set_fifo ((rm_fifo m)\<lparr>ff_polls := Suc (ff_polls (rm_fifo m))\<rparr>) m)"
  "rng_read_reg (fifo_bus (rd_reg_base dev)) dev RNG_DATA_REG_OFFSET m
     = (ff_words (rm_fifo m) (ff_taken (rm_fifo m)), set_fifo ((rm_fifo m)\<lparr>ff_taken := Suc (ff_taken (rm_fifo m))\<rparr>) m)"
  by (simp_all add: rng_read_reg_def tb_read_reg_def read_reg_def fifo_bus_def rm_fifo_def set_fifo_def
      RNG_STATUS_REG_OFFSET_def RNG_DATA_REG_OFFSET_def)

definition words_bytes :: "(nat \<Rightarrow> u32) \<Rightarrow> nat \<Rightarrow> nat \<Rightarrow> u8 list" where
  "words_bytes words t n = concat (map (\<lambda>i. u32_to_le_bytes (words (t + i))) [0..<n])"

lemma words_bytes_Suc: "words_bytes words t (Suc n) = u32_to_le_bytes (words t) @ words_bytes words (Suc t) n"
  by (simp add: words_bytes_def upt_conv_Cons map_Suc_upt [symmetric] comp_def del: upt_Suc)

lemma words_bytes_0 [simp]: "words_bytes words t 0 = []"
  by (simp add: words_bytes_def)

lemma length_words_bytes [simp]: "length (words_bytes words t n) = 4 * n"
  by (induction n arbitrary: t) (simp_all add: words_bytes_Suc)

lemma words_bytes_add: "words_bytes words t (j + n) = words_bytes words t j @ words_bytes words (t + j) n"
  by (induction j arbitrary: t) (simp_all add: words_bytes_Suc)

lemma rng_fetch_words:
  "rng_fetch (fifo_bus (rd_reg_base dev)) dev (4 * n) m
     = (words_bytes (ff_words (rm_fifo m)) (ff_taken (rm_fifo m)) n,
        set_fifo ((rm_fifo m)\<lparr>ff_taken := ff_taken (rm_fifo m) + n\<rparr>) m)"
proof (induction n arbitrary: m)
  case 0
  then show ?case by (simp add: rng_fetch.simps rm_fifo_def set_fifo_def)
next
  case (Suc n)
  have "4 * Suc n - 4 = 4 * n" by simp
  with Suc show ?case
    by (subst rng_fetch.simps) (simp add: UNIT_SIZE_def Let_def words_bytes_Suc)
qed

lemma fifo_available:
  "rng_available (fifo_bus (rd_reg_base dev)) dev m
     = (unat (ff_ready (rm_fifo m) (ff_polls (rm_fifo m))) * 4, set_fifo ((rm_fifo m)\<lparr>ff_polls := Suc (ff_polls (rm_fifo m))\<rparr>) m)"
proof -
  have "drop_bit 24 (push_bit 24 (ucast r :: u32)) = ucast r" for r :: u8
    by (rule bit_word_eqI) (auto simp: bit_simps dest: bit_imp_le_length)
  moreover have "unat (ucast r :: u32) = unat r" for r :: u8
    by (simp add: unsigned_ucast_eq take_bit_nat_eq_self_iff less_le_trans [OF unsigned_less])
  ultimately show ?thesis by (simp add: rng_available_def UNIT_SIZE_def)
qed

definition fifo_ready :: "fifo \<Rightarrow> bool" where
  "fifo_ready f \<longleftrightarrow> (\<forall>i. ff_ready f i \<noteq> 0)"

lemma rng_read_words:
  assumes "fifo_ready (rm_fifo m)" "length buffer = 4 * n" "0 < n"
  shows "\<exists>k m'. 0 < k \<and> k \<le> n
    \<and> rng_read (fifo_bus (rd_reg_base dev)) sr dev buffer wait m
        = Some (Inr (4 * k), words_bytes (ff_words (rm_fifo m)) (ff_taken (rm_fifo m)) k @ drop (4 * k) buffer, m')
    \<and> fifo_ready (rm_fifo m') \<and> ff_words (rm_fifo m') = ff_words (rm_fifo m) \<and> ff_taken (rm_fifo m') = ff_taken (rm_fifo m) + k"
proof -
  let ?r = "unat (ff_ready (rm_fifo m) (ff_polls (rm_fifo m)))"
  let ?k = "min ?r n"
  let ?m = "set_fifo ((rm_fifo m)\<lparr>ff_polls := Suc (ff_polls (rm_fifo m))\<rparr>) m"
  have r: "0 < ?r" using assms(1) by (simp add: fifo_ready_def unat_gt_0)
  obtain n' where n': "rng_retries = Suc n'" by (cases rng_retries) (simp_all add: rng_retries_def RNG_FIFO_SIZE_def)
  then have poll: "rng_poll rng_retries (fifo_bus (rd_reg_base dev)) sr dev wait m = Some (?r * 4, ?m)"
    unfolding n' using r by (simp add: fifo_available del: unat_gt_0)
  have "min (?r * 4) (length buffer) = 4 * ?k" using assms(2) by (simp add: min_def)
  then show ?thesis
    using r assms(1,3) rng_fetch_words [of dev ?k ?m]
    by (intro exI [of _ ?k] exI [of _ "snd (rng_fetch (fifo_bus (rd_reg_base dev)) dev (4 * ?k) ?m)"])
      (simp add: rng_read_def poll fifo_ready_def Let_def)
qed

lemma read_exact_words:
  assumes "fifo_ready (rm_fifo m)" "length buffer = offset + 4 * n"
  shows "\<exists>m'. read_exact (rng_device_ops (fifo_bus (rd_reg_base dev)) sr) dev offset buffer m
      = Some (Inr (), take offset buffer @ words_bytes (ff_words (rm_fifo m)) (ff_taken (rm_fifo m)) n, m')
    \<and> fifo_ready (rm_fifo m') \<and> ff_words (rm_fifo m') = ff_words (rm_fifo m) \<and> ff_taken (rm_fifo m') = ff_taken (rm_fifo m) + n"
  using assms
proof (induction n arbitrary: offset buffer m rule: less_induct)
  case (less n)
  let ?ops = "rng_device_ops (fifo_bus (rd_reg_base dev)) sr"
  let ?w = "ff_words (rm_fifo m)" and ?t = "ff_taken (rm_fifo m)"
  show ?case
  proof (cases "n = 0")
    case True
    then show ?thesis using less.prems by (simp add: read_exact.simps)
  next
    case False
    obtain k m1 where k: "0 < k" "k \<le> n"
      "rng_read (fifo_bus (rd_reg_base dev)) sr dev (drop offset buffer) True m
         = Some (Inr (4 * k), words_bytes ?w ?t k @ drop (4 * k) (drop offset buffer), m1)"
      "fifo_ready (rm_fifo m1)" "ff_words (rm_fifo m1) = ?w" "ff_taken (rm_fifo m1) = ?t + k"
      using rng_read_words [of m "drop offset buffer" n dev sr True] less.prems False by auto
    let ?buffer = "take offset buffer @ words_bytes ?w ?t k @ drop (4 * k) (drop offset buffer)"
    have step: "read_exact ?ops dev offset buffer m = read_exact ?ops dev (offset + 4 * k) ?buffer m1"
      using k(1,3) less.prems(2) False by (subst read_exact.simps) (simp add: rng_device_ops_def)
    have "length ?buffer = (offset + 4 * k) + 4 * (n - k)" using less.prems(2) k(2) by simp
    from less.IH [OF _ k(4) this] k(1,2) obtain m2 where
      "read_exact ?ops dev (offset + 4 * k) ?buffer m1
         = Some (Inr (), take (offset + 4 * k) ?buffer @ words_bytes ?w (?t + k) (n - k), m2)"
      "fifo_ready (rm_fifo m2)" "ff_words (rm_fifo m2) = ?w" "ff_taken (rm_fifo m2) = ?t + k + (n - k)"
      unfolding k(5,6) by auto
    moreover have "take (offset + 4 * k) ?buffer = take offset buffer @ words_bytes ?w ?t k"
      using less.prems(2) by simp
    moreover have "words_bytes ?w ?t n = words_bytes ?w ?t k @ words_bytes ?w (?t + k) (n - k)"
      using words_bytes_add [of ?w ?t k "n - k"] k(2) by simp
    ultimately show ?thesis using step k(2) by (auto intro!: exI [of _ m2])
  qed
qed

text \<open>With a generator that always has a word ready, a random number of 64 bits is made of its next two words, the first
  one the lower half, and no word is skipped: however many words are ready, the next number starts at the third.\<close>

theorem next_number_takes_two_words:
  assumes "fifo_ready (rm_fifo m)"
  shows "\<exists>m'. next_u64 (rng_device_ops (fifo_bus (rd_reg_base dev)) sr) dev m
      = Some (Inr (of_nat (unat (ff_words (rm_fifo m) (ff_taken (rm_fifo m)))
                           + 2 ^ 32 * unat (ff_words (rm_fifo m) (Suc (ff_taken (rm_fifo m)))))), m')
    \<and> fifo_ready (rm_fifo m') \<and> ff_words (rm_fifo m') = ff_words (rm_fifo m) \<and> ff_taken (rm_fifo m') = ff_taken (rm_fifo m) + 2"
proof -
  let ?w = "ff_words (rm_fifo m)" and ?t = "ff_taken (rm_fifo m)"
  have "le_nat (words_bytes ?w ?t 2) = unat (?w ?t) + 2 ^ 32 * unat (?w (Suc ?t))"
  proof -
    have "words_bytes ?w ?t (Suc (Suc 0)) = u32_to_le_bytes (?w ?t) @ u32_to_le_bytes (?w (Suc ?t))"
      by (simp only: words_bytes_Suc words_bytes_0 append_Nil2)
    then show ?thesis by (simp add: numeral_2_eq_2 [symmetric] le_nat_append)
  qed
  moreover have "length (replicate 8 (0 :: u8)) = 0 + 4 * 2" by simp
  ultimately show ?thesis
    using read_exact_words [OF assms, of "replicate 8 0" 0 2 dev sr] by (auto simp: next_u64_def next_word_def)
qed

definition example_rng_machine :: "(fifo, unit, unit) rng_machine" where
  "example_rng_machine = \<lparr>rm_board = \<lparr>tb_board = \<lparr>bd_regs = \<lparr>ff_ready = (\<lambda>_. 1), ff_polls = 0, ff_words = of_nat, ff_taken = 5\<rparr>,
       bd_irqs = irq_tables_new, bd_virq_bases = Map.empty, bd_mmu = example_mmu, bd_core = 0, bd_l1_devices = registry_new,
       bd_armctrl_devices = registry_new\<rparr>,
     tb_sysregs = (), tb_time = time_state_new, tb_local = local_data_new 0, tb_system_devices = registry_new,
     tb_generic_devices = registry_new\<rparr>, rm_registry = registry_new\<rparr>"

theorem next_number_takes_two_words_witness:
  "\<exists>m'. next_u64 (rng_device_ops (fifo_bus 0x2000) example_sysregs) \<lparr>rd_id = ''rng'', rd_reg_base = 0x2000\<rparr> example_rng_machine
      = Some (Inr 0x600000005, m') \<and> ff_taken (rm_fifo m') = 7"
  using next_number_takes_two_words [of example_rng_machine "\<lparr>rd_id = ''rng'', rd_reg_base = 0x2000\<rparr>" example_sysregs]
  by (auto simp: rm_fifo_def example_rng_machine_def fifo_ready_def)

end
