(* ===== verification/Mailbox.thy ===== *)
theory Mailbox
  imports Device_Irq Number_Formats
begin

text \<open>The mailbox to the VideoCore: the device (\<open>drivers/mailbox/bcm2835_mbox.rs\<close>), the only one with the trait of
  \<open>drivers/mailbox/mod.rs\<close>, and the client of the system. Words to the VideoCore are written to mailbox 1, its words are
  read from mailbox 0 into a queue. The locks of the device and of the queue are elided.\<close>

datatype mailbox_error = MailboxFull | MailboxEmpty | MailboxDisabled | MailboxAlreadyExists | MailboxNotInitialized | MailboxBusy

definition MBOX_0_REG_OFFSET :: usize where "MBOX_0_REG_OFFSET = 0x0"
definition MBOX_1_REG_OFFSET :: usize where "MBOX_1_REG_OFFSET = 0x20"
definition MBOX_RW_OFFSET :: usize where "MBOX_RW_OFFSET = 0x0"
definition MBOX_STATUS_OFFSET :: usize where "MBOX_STATUS_OFFSET = 0x18"
definition MBOX_CONFIG_OFFSET :: usize where "MBOX_CONFIG_OFFSET = 0x1c"
definition MBOX_STATUS_EMPTY :: u32 where "MBOX_STATUS_EMPTY = 0x40000000"
definition MBOX_STATUS_FULL :: u32 where "MBOX_STATUS_FULL = 0x80000000"

record mbox_device =
  mx_id :: string
  mx_reg_base :: usize
  mx_enabled :: bool
  mx_queue :: "u32 list"

definition mbox_device_new :: "string \<Rightarrow> usize \<Rightarrow> mbox_device" where
  "mbox_device_new i reg_base = \<lparr>mx_id = i, mx_reg_base = reg_base, mx_enabled = False, mx_queue = []\<rparr>"

text \<open>The client of the system mailbox: its device and whether it is taken.\<close>

record mailbox_client =
  mc_mbox :: nat
  mc_lock :: bool

record ('d, 'h) mbox_machine =
  mx_board :: "('d, 'h) board"
  mx_devices :: "mbox_device list"
  mx_client :: "mailbox_client option"
  mx_registry :: "nat registry"

definition mx_dev :: "nat \<Rightarrow> ('d, 'h, 'z) mbox_machine_scheme \<Rightarrow> mbox_device" where
  "mx_dev i m = mx_devices m ! i"

definition update_mbox :: "nat \<Rightarrow> (mbox_device \<Rightarrow> mbox_device) \<Rightarrow> ('d, 'h, 'z) mbox_machine_scheme \<Rightarrow> ('d, 'h, 'z) mbox_machine_scheme" where
  "update_mbox i f m = m\<lparr>mx_devices := (mx_devices m)[i := f (mx_dev i m)]\<rparr>"

definition mbox_read_reg :: "'d bus \<Rightarrow> nat \<Rightarrow> usize \<Rightarrow> ('d, 'h, 'z) mbox_machine_scheme \<Rightarrow> u32 \<times> ('d, 'h, 'z) mbox_machine_scheme" where
  "mbox_read_reg bus i off m =
     (let (v, b) = read_reg bus (mx_reg_base (mx_dev i m) + off) (mx_board m) in (v, m\<lparr>mx_board := b\<rparr>))"

definition mbox_write_reg :: "'d bus \<Rightarrow> nat \<Rightarrow> usize \<Rightarrow> u32 \<Rightarrow> ('d, 'h, 'z) mbox_machine_scheme \<Rightarrow> ('d, 'h, 'z) mbox_machine_scheme" where
  "mbox_write_reg bus i off v m = m\<lparr>mx_board := write_reg bus (mx_reg_base (mx_dev i m) + off) v (mx_board m)\<rparr>"

definition enable_interrupts :: "'d bus \<Rightarrow> nat \<Rightarrow> ('d, 'h, 'z) mbox_machine_scheme \<Rightarrow> ('d, 'h, 'z) mbox_machine_scheme" where
  "enable_interrupts bus i = mbox_write_reg bus i (MBOX_0_REG_OFFSET + MBOX_CONFIG_OFFSET) 1"

definition disable_interrupts :: "'d bus \<Rightarrow> nat \<Rightarrow> ('d, 'h, 'z) mbox_machine_scheme \<Rightarrow> ('d, 'h, 'z) mbox_machine_scheme" where
  "disable_interrupts bus i = mbox_write_reg bus i (MBOX_0_REG_OFFSET + MBOX_CONFIG_OFFSET) 0"

definition read_mbox_0 :: "'d bus \<Rightarrow> nat \<Rightarrow> ('d, 'h, 'z) mbox_machine_scheme \<Rightarrow> u32 \<times> ('d, 'h, 'z) mbox_machine_scheme" where
  "read_mbox_0 bus i = mbox_read_reg bus i (MBOX_0_REG_OFFSET + MBOX_RW_OFFSET)"

definition write_mbox_1 :: "'d bus \<Rightarrow> nat \<Rightarrow> u32 \<Rightarrow> ('d, 'h, 'z) mbox_machine_scheme \<Rightarrow> ('d, 'h, 'z) mbox_machine_scheme" where
  "write_mbox_1 bus i = mbox_write_reg bus i (MBOX_1_REG_OFFSET + MBOX_RW_OFFSET)"

definition get_mbox_0_status :: "'d bus \<Rightarrow> nat \<Rightarrow> ('d, 'h, 'z) mbox_machine_scheme \<Rightarrow> u32 \<times> ('d, 'h, 'z) mbox_machine_scheme" where
  "get_mbox_0_status bus i = mbox_read_reg bus i (MBOX_0_REG_OFFSET + MBOX_STATUS_OFFSET)"

text \<open>It reads the status of mailbox 0, too.\<close>

definition get_mbox_1_status :: "'d bus \<Rightarrow> nat \<Rightarrow> ('d, 'h, 'z) mbox_machine_scheme \<Rightarrow> u32 \<times> ('d, 'h, 'z) mbox_machine_scheme" where
  "get_mbox_1_status bus i = mbox_read_reg bus i (MBOX_0_REG_OFFSET + MBOX_STATUS_OFFSET)"

definition push_back :: "nat \<Rightarrow> u32 \<Rightarrow> ('d, 'h, 'z) mbox_machine_scheme \<Rightarrow> ('d, 'h, 'z) mbox_machine_scheme" where
  "push_back i msg = update_mbox i (\<lambda>d. d\<lparr>mx_queue := mx_queue d @ [msg]\<rparr>)"

partial_function (option) mbox_handle_irq :: "'d bus \<Rightarrow> nat \<Rightarrow> ('d, 'h, 'z) mbox_machine_scheme \<Rightarrow> ('d, 'h, 'z) mbox_machine_scheme option" where
  "mbox_handle_irq bus i m =
     (let (status, m1) = get_mbox_0_status bus i m
      in if status AND MBOX_STATUS_EMPTY \<noteq> 0 then Some m1
         else let (msg, m2) = read_mbox_0 bus i m1 in mbox_handle_irq bus i (push_back i msg m2))"


section \<open>The trait\<close>

definition mbox_enable :: "'d bus \<Rightarrow> nat \<Rightarrow> ('d, 'h, 'z) mbox_machine_scheme \<Rightarrow> ('d, 'h, 'z) mbox_machine_scheme" where
  "mbox_enable bus i m = enable_interrupts bus i (update_mbox i (\<lambda>d. d\<lparr>mx_enabled := True\<rparr>) m)"

definition mbox_disable :: "'d bus \<Rightarrow> nat \<Rightarrow> ('d, 'h, 'z) mbox_machine_scheme \<Rightarrow> ('d, 'h, 'z) mbox_machine_scheme" where
  "mbox_disable bus i m = update_mbox i (\<lambda>d. d\<lparr>mx_enabled := False\<rparr>) (disable_interrupts bus i m)"

definition mbox_ready :: "'d bus \<Rightarrow> nat \<Rightarrow> ('d, 'h, 'z) mbox_machine_scheme \<Rightarrow> bool \<times> ('d, 'h, 'z) mbox_machine_scheme" where
  "mbox_ready bus i m =
     (if \<not> mx_enabled (mx_dev i m) then (False, m)
      else let (status, m1) = get_mbox_1_status bus i m in (status AND MBOX_STATUS_FULL = 0, m1))"

definition mbox_send :: "'d bus \<Rightarrow> nat \<Rightarrow> u32 \<Rightarrow> ('d, 'h, 'z) mbox_machine_scheme \<Rightarrow> (mailbox_error + unit) \<times> ('d, 'h, 'z) mbox_machine_scheme" where
  "mbox_send bus i data m =
     (if \<not> mx_enabled (mx_dev i m) then (Inl MailboxDisabled, m) else (Inr (), write_mbox_1 bus i data m))"

definition mbox_receive :: "'d bus \<Rightarrow> nat \<Rightarrow> ('d, 'h, 'z) mbox_machine_scheme \<Rightarrow> u32 option \<times> ('d, 'h, 'z) mbox_machine_scheme" where
  "mbox_receive bus i m =
     (let (status, m1) = get_mbox_0_status bus i m
      in if status AND MBOX_STATUS_EMPTY \<noteq> 0 then (None, m1)
         else let (msg, m2) = read_mbox_0 bus i m1 in (Some msg, push_back i msg m2))"


section \<open>The client\<close>

definition client_send :: "'d bus \<Rightarrow> nat \<Rightarrow> u32 \<Rightarrow> ('d, 'h, 'z) mbox_machine_scheme \<Rightarrow> (mailbox_error + unit) \<times> ('d, 'h, 'z) mbox_machine_scheme" where
  "client_send bus i data m =
     (let (ready, m1) = mbox_ready bus i m in if \<not> ready then (Inl MailboxFull, m1) else mbox_send bus i data m1)"

partial_function (option) receive_blocking :: "'d bus \<Rightarrow> nat \<Rightarrow> ('d, 'h, 'z) mbox_machine_scheme
    \<Rightarrow> ((mailbox_error + u32) \<times> ('d, 'h, 'z) mbox_machine_scheme) option" where
  "receive_blocking bus i m =
     (let (_, m1) = mbox_receive bus i m
      in case mx_queue (mx_dev i m1) of
           msg # queue \<Rightarrow> Some (Inr msg, update_mbox i (\<lambda>d. d\<lparr>mx_queue := queue\<rparr>) m1)
         | [] \<Rightarrow> receive_blocking bus i m1)"

definition register_mailbox :: "nat \<Rightarrow> ('d, 'h, 'z) mbox_machine_scheme \<Rightarrow> (mailbox_error + unit) \<times> ('d, 'h, 'z) mbox_machine_scheme" where
  "register_mailbox i m =
     (case mx_client m of
        Some _ \<Rightarrow> (Inl MailboxAlreadyExists, m)
      | None \<Rightarrow> (Inr (), m\<lparr>mx_client := Some \<lparr>mc_mbox = i, mc_lock = False\<rparr>\<rparr>))"

text \<open>The client that is taken is the only one; the result is the position of its device.\<close>

definition take_mailbox :: "'d bus \<Rightarrow> ('d, 'h, 'z) mbox_machine_scheme \<Rightarrow> (mailbox_error + nat) \<times> ('d, 'h, 'z) mbox_machine_scheme" where
  "take_mailbox bus m =
     (case mx_client m of
        None \<Rightarrow> (Inl MailboxNotInitialized, m)
      | Some client \<Rightarrow>
          if mc_lock client then (Inl MailboxBusy, m)
          else (Inr (mc_mbox client), mbox_enable bus (mc_mbox client) (m\<lparr>mx_client := Some (client\<lparr>mc_lock := True\<rparr>)\<rparr>)))"


section \<open>The driver\<close>

text \<open>\<open>handler\<close> makes the value of the handler a device registers.\<close>

definition mbox_global_setup :: "'d bus \<Rightarrow> (nat \<Rightarrow> 'h) \<Rightarrow> device_tree \<Rightarrow> nat \<Rightarrow> nat \<Rightarrow> ('d, 'h, 'z) mbox_machine_scheme
    \<Rightarrow> ((driver_init_error + unit) \<times> ('d, 'h, 'z) mbox_machine_scheme) option" where
  "mbox_global_setup bus handler dt node i m = do {
     irq \<leftarrow> has_interrupts (dt_node_at dt node);
     if irq then do {
       (r, b) \<leftarrow> attach_irq bus (handler i) dt node 0 (mx_board m);
       let m1 = m\<lparr>mx_board := b\<rparr>;
       (case r of
          Inl e \<Rightarrow> Some (Inl e, m1)
        | Inr _ \<Rightarrow> (case register_mailbox i m1 of
                      (Inl _, m2) \<Rightarrow> Some (Inl DeviceTreeError, m2)
                    | (Inr _, m2) \<Rightarrow> Some (Inr (), m2)))
     } else Some (Inl DeviceTreeError, m)
   }"

definition mbox_try_init :: "'d bus \<Rightarrow> (nat \<Rightarrow> 'h) \<Rightarrow> device_tree \<Rightarrow> nat \<Rightarrow> ('d, 'h, 'z) mbox_machine_scheme
    \<Rightarrow> ((driver_init_error + unit) \<times> ('d, 'h, 'z) mbox_machine_scheme) option" where
  "mbox_try_init bus handler dt node m = do {
     (r, mmu) \<leftarrow> map_device_registers dt node (bd_mmu (mx_board m));
     let m1 = m\<lparr>mx_board := (mx_board m)\<lparr>bd_mmu := mmu\<rparr>\<rparr>;
     (case r of
        Inl e \<Rightarrow> Some (Inl e, m1)
      | Inr addr \<Rightarrow> do {
          path \<leftarrow> node_path dt node;
          let i = length (mx_devices m1);
          (r', m2) \<leftarrow> mbox_global_setup bus handler dt node i (m1\<lparr>mx_devices := mx_devices m1 @ [mbox_device_new path addr]\<rparr>);
          (case r' of
             Inl e \<Rightarrow> Some (Inl e, m2)
           | Inr _ \<Rightarrow> Some (Inr (), m2\<lparr>mx_registry := add_device path i (mx_registry m2)\<rparr>))
        })
   }"

section \<open>Words in order\<close>

text \<open>A mailbox as its documentation has it: the words for the processor in a FIFO behind mailbox 0, and a record of those
  written to mailbox 1.\<close>

record mail =
  ml_inbox :: "u32 list"
  ml_sent :: "u32 list"

definition mail_bus :: "usize \<Rightarrow> mail bus" where
  "mail_bus base = \<lparr>
     bus_read = (\<lambda>a d. if a = base + MBOX_STATUS_OFFSET then (if ml_inbox d = [] then MBOX_STATUS_EMPTY else 0, d)
                        else if a = base + MBOX_RW_OFFSET \<and> ml_inbox d \<noteq> [] then (hd (ml_inbox d), d\<lparr>ml_inbox := tl (ml_inbox d)\<rparr>)
                        else (0, d)),
     bus_write = (\<lambda>a v d. if a = base + MBOX_1_REG_OFFSET then d\<lparr>ml_sent := ml_sent d @ [v]\<rparr> else d)\<rparr>"

definition mx_mail :: "(mail, 'h, 'z) mbox_machine_scheme \<Rightarrow> mail" where
  "mx_mail m = bd_regs (mx_board m)"

definition set_mail :: "mail \<Rightarrow> (mail, 'h, 'z) mbox_machine_scheme \<Rightarrow> (mail, 'h, 'z) mbox_machine_scheme" where
  "set_mail d m = m\<lparr>mx_board := (mx_board m)\<lparr>bd_regs := d\<rparr>\<rparr>"

lemma set_mail_simps [simp]:
  "mx_mail (set_mail d m) = d" "mx_dev i (set_mail d m) = mx_dev i m" "set_mail (mx_mail m) m = m"
  "mx_devices (set_mail d m) = mx_devices m" "set_mail d (set_mail d' m) = set_mail d m"
  by (simp_all add: mx_mail_def set_mail_def mx_dev_def)

lemma push_back_simps [simp]:
  "mx_mail (push_back i w m) = mx_mail m" "length (mx_devices (push_back i w m)) = length (mx_devices m)"
  "i < length (mx_devices m) \<Longrightarrow> mx_dev i (push_back i w m) = (mx_dev i m)\<lparr>mx_queue := mx_queue (mx_dev i m) @ [w]\<rparr>"
  by (simp_all add: push_back_def update_mbox_def mx_mail_def mx_dev_def)

lemmas mbox_0_offsets = MBOX_0_REG_OFFSET_def MBOX_RW_OFFSET_def MBOX_STATUS_OFFSET_def MBOX_1_REG_OFFSET_def

lemma mail_status [simp]:
  "get_mbox_0_status (mail_bus (mx_reg_base (mx_dev i m))) i m = (if ml_inbox (mx_mail m) = [] then MBOX_STATUS_EMPTY else 0, m)"
  by (simp add: get_mbox_0_status_def mbox_read_reg_def read_reg_def mail_bus_def mbox_0_offsets mx_mail_def)

lemma mail_read [simp]:
  "ml_inbox (mx_mail m) = w # ws \<Longrightarrow>
    read_mbox_0 (mail_bus (mx_reg_base (mx_dev i m))) i m = (w, set_mail ((mx_mail m)\<lparr>ml_inbox := ws\<rparr>) m)"
  by (simp add: read_mbox_0_def mbox_read_reg_def read_reg_def mail_bus_def mbox_0_offsets mx_mail_def set_mail_def)

text \<open>The words that are to be received, in their order.\<close>

definition pending :: "nat \<Rightarrow> (mail, 'h, 'z) mbox_machine_scheme \<Rightarrow> u32 list" where
  "pending i m = mx_queue (mx_dev i m) @ ml_inbox (mx_mail m)"

definition same_mailbox :: "nat \<Rightarrow> (mail, 'h, 'z) mbox_machine_scheme \<Rightarrow> (mail, 'h, 'z) mbox_machine_scheme \<Rightarrow> bool" where
  "same_mailbox i m m' \<longleftrightarrow> i < length (mx_devices m') \<and> mx_reg_base (mx_dev i m') = mx_reg_base (mx_dev i m)"

lemma mbox_handle_irq_pending:
  assumes "i < length (mx_devices m)"
  shows "\<exists>m'. mbox_handle_irq (mail_bus (mx_reg_base (mx_dev i m))) i m = Some m' \<and> pending i m' = pending i m \<and> same_mailbox i m m'"
  using assms
proof (induction "ml_inbox (mx_mail m)" arbitrary: m)
  case Nil
  then show ?case
    by (subst mbox_handle_irq.simps) (simp add: MBOX_STATUS_EMPTY_def same_mailbox_def flip: Nil.hyps)
next
  case (Cons w ws)
  let ?m = "push_back i w (set_mail ((mx_mail m)\<lparr>ml_inbox := ws\<rparr>) m)"
  have m: "ws = ml_inbox (mx_mail ?m)" "i < length (mx_devices ?m)" "mx_reg_base (mx_dev i ?m) = mx_reg_base (mx_dev i m)"
    using Cons.prems by simp_all
  have step: "mbox_handle_irq (mail_bus (mx_reg_base (mx_dev i m))) i m = mbox_handle_irq (mail_bus (mx_reg_base (mx_dev i ?m))) i ?m"
    using Cons.hyps(2) by (subst mbox_handle_irq.simps) (simp add: m(3) flip: Cons.hyps(2))
  have "pending i ?m = pending i m" using Cons.prems by (simp add: pending_def flip: Cons.hyps(2))
  with Cons.hyps(1) [OF m(1,2)] show ?case unfolding step by (simp add: same_mailbox_def m(3))
qed

lemma mbox_receive_pending:
  assumes "i < length (mx_devices m)"
  shows "\<exists>w m'. mbox_receive (mail_bus (mx_reg_base (mx_dev i m))) i m = (w, m') \<and> pending i m' = pending i m \<and> same_mailbox i m m'
    \<and> (pending i m \<noteq> [] \<longrightarrow> mx_queue (mx_dev i m') \<noteq> [])"
proof (cases "ml_inbox (mx_mail m)")
  case Nil
  then show ?thesis using assms by (simp add: mbox_receive_def MBOX_STATUS_EMPTY_def same_mailbox_def pending_def)
next
  case (Cons w ws)
  then show ?thesis using assms by (simp add: mbox_receive_def same_mailbox_def pending_def)
qed

lemma receive_blocking_pending:
  assumes "i < length (mx_devices m)" "pending i m = w # ws"
  shows "\<exists>m'. receive_blocking (mail_bus (mx_reg_base (mx_dev i m))) i m = Some (Inr w, m') \<and> pending i m' = ws \<and> same_mailbox i m m'"
proof -
  obtain x m1 where m1: "mbox_receive (mail_bus (mx_reg_base (mx_dev i m))) i m = (x, m1)" "pending i m1 = w # ws"
      "same_mailbox i m m1" "mx_queue (mx_dev i m1) \<noteq> []"
    using mbox_receive_pending [OF assms(1)] assms(2) by auto
  then obtain q where "mx_queue (mx_dev i m1) = w # q" by (cases "mx_queue (mx_dev i m1)") (auto simp: pending_def)
  then show ?thesis
    using m1 by (subst receive_blocking.simps) (auto simp: pending_def same_mailbox_def update_mbox_def mx_dev_def mx_mail_def)
qed

text \<open>A run of the mailbox: words arrive, the handler runs, the client receives.\<close>

datatype mail_step = Mail_Arrives u32 | Mail_Irq | Mail_Receive

fun run_mail :: "nat \<Rightarrow> mail_step list \<Rightarrow> (mail, 'h, 'z) mbox_machine_scheme \<Rightarrow> (u32 list \<times> (mail, 'h, 'z) mbox_machine_scheme) option" where
  "run_mail i [] m = Some ([], m)"
| "run_mail i (Mail_Arrives w # steps) m = run_mail i steps (set_mail ((mx_mail m)\<lparr>ml_inbox := ml_inbox (mx_mail m) @ [w]\<rparr>) m)"
| "run_mail i (Mail_Irq # steps) m = do {
     m1 \<leftarrow> mbox_handle_irq (mail_bus (mx_reg_base (mx_dev i m))) i m;
     run_mail i steps m1
   }"
| "run_mail i (Mail_Receive # steps) m = do {
     (r, m1) \<leftarrow> receive_blocking (mail_bus (mx_reg_base (mx_dev i m))) i m;
     (received, m2) \<leftarrow> run_mail i steps m1;
     Some ((case r of Inr w \<Rightarrow> [w] | Inl _ \<Rightarrow> []) @ received, m2)
   }"

text \<open>Every word is asked for after it has arrived; \<open>k\<close> words are waiting.\<close>

fun answered :: "nat \<Rightarrow> mail_step list \<Rightarrow> bool" where
  "answered k [] = True"
| "answered k (Mail_Arrives w # steps) = answered (Suc k) steps"
| "answered k (Mail_Irq # steps) = answered k steps"
| "answered k (Mail_Receive # steps) = (0 < k \<and> answered (k - 1) steps)"

definition arrivals :: "mail_step list \<Rightarrow> u32 list" where
  "arrivals steps = concat (map (\<lambda>s. case s of Mail_Arrives w \<Rightarrow> [w] | _ \<Rightarrow> []) steps)"


definition example_mbox_machine :: "(mail, unit) mbox_machine" where
  "example_mbox_machine = \<lparr>mx_board = \<lparr>bd_regs = \<lparr>ml_inbox = [1, 2], ml_sent = []\<rparr>, bd_irqs = irq_tables_new,
       bd_virq_bases = Map.empty, bd_mmu = example_mmu, bd_core = 0, bd_l1_devices = registry_new, bd_armctrl_devices = registry_new\<rparr>,
     mx_devices = [mbox_device_new ''mbox'' 0x7000], mx_client = None, mx_registry = registry_new\<rparr>"


end
