(* ===== verification/Firmware_Messages.thy ===== *)
theory Firmware_Messages
  imports Number_Formats
begin

text \<open>The messages of the property interface of the firmware (\<open>drivers/syscon/bcm2835_firmware.rs\<close>): the identifiers of
  its tags, the tags with their buffers, and the messages with one tag or seven. Every constructor of a message is a
  definition of its own, named as in the code; a tag's constructor has the prefix \<open>tag_\<close>. Building a message is
  \<open>None\<close> where an array would be left or a check at compile time fails.\<close>

definition MBOX_0_CH_8_ARM_VC_TAGS :: u32 where "MBOX_0_CH_8_ARM_VC_TAGS = 8"
definition REQUEST_CODE :: u32 where "REQUEST_CODE = 0x00000000"
definition RESPONSE_CODE_SUCCESS :: u32 where "RESPONSE_CODE_SUCCESS = 0x80000000"
definition RESPONSE_CODE_ERROR :: u32 where "RESPONSE_CODE_ERROR = 0x80000001"
definition POWER_STATE_ON :: u32 where "POWER_STATE_ON = push_bit 0 1"
definition POWER_STATE_NO_DEVICE :: u32 where "POWER_STATE_NO_DEVICE = push_bit 1 1"

named_theorems tag_defs \<open>identifiers and constructors of tags\<close>


section \<open>Identifiers\<close>

definition END_TAG :: u32 where [tag_defs]: "END_TAG = 0x00000000"
definition VIDEO_CORE_GET_FIRMWARE_REVISION :: u32 where [tag_defs]: "VIDEO_CORE_GET_FIRMWARE_REVISION = 0x00000001"
definition HARDWARE_GET_BOARD_MODEL :: u32 where [tag_defs]: "HARDWARE_GET_BOARD_MODEL = 0x00010001"
definition HARDWARE_GET_BOARD_REVISION :: u32 where [tag_defs]: "HARDWARE_GET_BOARD_REVISION = 0x00010002"
definition HARDWARE_GET_BOARD_MAC_ADDRESS :: u32 where [tag_defs]: "HARDWARE_GET_BOARD_MAC_ADDRESS = 0x00010003"
definition HARDWARE_GET_BOARD_SERIAL :: u32 where [tag_defs]: "HARDWARE_GET_BOARD_SERIAL = 0x00010004"
definition HARDWARE_GET_ARM_MEMORY :: u32 where [tag_defs]: "HARDWARE_GET_ARM_MEMORY = 0x00010005"
definition HARDWARE_GET_VC_MEMORY :: u32 where [tag_defs]: "HARDWARE_GET_VC_MEMORY = 0x00010006"
definition HARDWARE_GET_CLOCKS :: u32 where [tag_defs]: "HARDWARE_GET_CLOCKS = 0x00010007"
definition CONFIG_GET_COMMAND_LINE :: u32 where [tag_defs]: "CONFIG_GET_COMMAND_LINE = 0x00050001"
definition SHARED_GET_DMA_CHANNELS :: u32 where [tag_defs]: "SHARED_GET_DMA_CHANNELS = 0x00060001"
definition power_SD_CARD :: u32 where "power_SD_CARD = 0x00000000"
definition power_UART0 :: u32 where "power_UART0 = 0x00000001"
definition power_UART1 :: u32 where "power_UART1 = 0x00000002"
definition power_USB_HCD :: u32 where "power_USB_HCD = 0x00000003"
definition power_I2C0 :: u32 where "power_I2C0 = 0x00000004"
definition power_I2C1 :: u32 where "power_I2C1 = 0x00000005"
definition power_I2C2 :: u32 where "power_I2C2 = 0x00000006"
definition power_SPI :: u32 where "power_SPI = 0x00000007"
definition power_CCP2TX :: u32 where "power_CCP2TX = 0x00000008"
definition POWER_GET_POWER_STATE :: u32 where [tag_defs]: "POWER_GET_POWER_STATE = 0x00020001"
definition POWER_GET_TIMING :: u32 where [tag_defs]: "POWER_GET_TIMING = 0x00020002"
definition POWER_SET_POWER_STATE :: u32 where [tag_defs]: "POWER_SET_POWER_STATE = 0x00028001"
definition clocks_EMMC :: u32 where "clocks_EMMC = 0x00000001"
definition clocks_UART :: u32 where "clocks_UART = 0x00000002"
definition clocks_ARM :: u32 where "clocks_ARM = 0x00000003"
definition clocks_CORE :: u32 where "clocks_CORE = 0x00000004"
definition clocks_V3D :: u32 where "clocks_V3D = 0x00000005"
definition clocks_H264 :: u32 where "clocks_H264 = 0x00000006"
definition clocks_ISP :: u32 where "clocks_ISP = 0x00000007"
definition clocks_SDRAM :: u32 where "clocks_SDRAM = 0x00000008"
definition clocks_PIXEL :: u32 where "clocks_PIXEL = 0x00000009"
definition clocks_PWM :: u32 where "clocks_PWM = 0x0000000a"
definition clocks_HEVC :: u32 where "clocks_HEVC = 0x0000000b"
definition clocks_EMMC2 :: u32 where "clocks_EMMC2 = 0x0000000c"
definition clocks_M2MC :: u32 where "clocks_M2MC = 0x0000000d"
definition clocks_PIXEL_BVB :: u32 where "clocks_PIXEL_BVB = 0x0000000e"
definition CLOCK_GET_CLOCK_STATE :: u32 where [tag_defs]: "CLOCK_GET_CLOCK_STATE = 0x00030001"
definition CLOCK_SET_CLOCK_STATE :: u32 where [tag_defs]: "CLOCK_SET_CLOCK_STATE = 0x00038001"
definition CLOCK_GET_CLOCK_RATE :: u32 where [tag_defs]: "CLOCK_GET_CLOCK_RATE = 0x00030002"
definition CLOCK_GET_CLOCK_RATE_MEASURED :: u32 where [tag_defs]: "CLOCK_GET_CLOCK_RATE_MEASURED = 0x00030047"
definition CLOCK_SET_CLOCK_RATE :: u32 where [tag_defs]: "CLOCK_SET_CLOCK_RATE = 0x00038002"
definition CLOCK_GET_MAX_CLOCK_RATE :: u32 where [tag_defs]: "CLOCK_GET_MAX_CLOCK_RATE = 0x00030004"
definition CLOCK_GET_MIN_CLOCK_RATE :: u32 where [tag_defs]: "CLOCK_GET_MIN_CLOCK_RATE = 0x00030007"
definition CLOCK_GET_TURBO :: u32 where [tag_defs]: "CLOCK_GET_TURBO = 0x00030009"
definition CLOCK_SET_TURBO :: u32 where [tag_defs]: "CLOCK_SET_TURBO = 0x00038009"
definition LED_GET_ONBOARD_LED_STATUS :: u32 where [tag_defs]: "LED_GET_ONBOARD_LED_STATUS = 0x00030041"
definition LED_TEST_ONBOARD_LED_STATUS :: u32 where [tag_defs]: "LED_TEST_ONBOARD_LED_STATUS = 0x00034041"
definition LED_SET_ONBOARD_LED_STATUS :: u32 where [tag_defs]: "LED_SET_ONBOARD_LED_STATUS = 0x00038041"
definition voltage_CORE :: u32 where "voltage_CORE = 0x000000001"
definition voltage_SDRAM_C :: u32 where "voltage_SDRAM_C = 0x000000002"
definition voltage_SDRAM_P :: u32 where "voltage_SDRAM_P = 0x000000003"
definition voltage_SDRAM_I :: u32 where "voltage_SDRAM_I = 0x000000004"
definition VOLTAGE_GET_VOLTAGE :: u32 where [tag_defs]: "VOLTAGE_GET_VOLTAGE = 0x00030003"
definition VOLTAGE_SET_VOLTAGE :: u32 where [tag_defs]: "VOLTAGE_SET_VOLTAGE = 0x00038003"
definition VOLTAGE_GET_MAX_VOLTAGE :: u32 where [tag_defs]: "VOLTAGE_GET_MAX_VOLTAGE = 0x00030005"
definition VOLTAGE_GET_MIN_VOLTAGE :: u32 where [tag_defs]: "VOLTAGE_GET_MIN_VOLTAGE = 0x00030008"
definition TEMPERATURE_GET_TEMPERATURE :: u32 where [tag_defs]: "TEMPERATURE_GET_TEMPERATURE = 0x00030006"
definition TEMPERATURE_GET_MAX_TEMPERATURE :: u32 where [tag_defs]: "TEMPERATURE_GET_MAX_TEMPERATURE = 0x0003000a"
definition MEM_FLAG_DISCARDABLE :: u32 where "MEM_FLAG_DISCARDABLE = push_bit 0 1"
definition MEM_FLAG_NORMAL :: u32 where "MEM_FLAG_NORMAL = push_bit 2 0"
definition MEM_FLAG_DIRECT :: u32 where "MEM_FLAG_DIRECT = push_bit 2 1"
definition MEM_FLAG_COHERENT :: u32 where "MEM_FLAG_COHERENT = push_bit 2 2"
definition MEM_FLAG_L1_NONALLOCATING :: u32 where "MEM_FLAG_L1_NONALLOCATING = MEM_FLAG_DIRECT OR MEM_FLAG_COHERENT"
definition MEM_FLAG_ZERO :: u32 where "MEM_FLAG_ZERO = push_bit 4 1"
definition MEM_FLAG_NO_INIT :: u32 where "MEM_FLAG_NO_INIT = push_bit 5 1"
definition MEM_FLAG_HINT_PERMALOCK :: u32 where "MEM_FLAG_HINT_PERMALOCK = push_bit 6 1"
definition MEMORY_ALLOCATE_MEMORY :: u32 where [tag_defs]: "MEMORY_ALLOCATE_MEMORY = 0x0003000c"
definition MEMORY_LOCK_MEMORY :: u32 where [tag_defs]: "MEMORY_LOCK_MEMORY = 0x0003000d"
definition MEMORY_UNLOCK_MEMORY :: u32 where [tag_defs]: "MEMORY_UNLOCK_MEMORY = 0x0003000e"
definition MEMORY_RELEASE_MEMORY :: u32 where [tag_defs]: "MEMORY_RELEASE_MEMORY = 0x0003000f"
definition MEMORY_EXECUTE_CODE :: u32 where [tag_defs]: "MEMORY_EXECUTE_CODE = 0x00030010"
definition MEMORY_GET_DISPMANX_RESOURCE_MEM_HANDLE :: u32 where [tag_defs]: "MEMORY_GET_DISPMANX_RESOURCE_MEM_HANDLE = 0x00030014"
definition MEMORY_GET_EDID_BLOCK :: u32 where [tag_defs]: "MEMORY_GET_EDID_BLOCK = 0x00030020"
definition FRAMEBUFFER_ALLOCATE_BUFFER :: u32 where [tag_defs]: "FRAMEBUFFER_ALLOCATE_BUFFER = 0x00040001"
definition FRAMEBUFFER_RELEASE_BUFFER :: u32 where [tag_defs]: "FRAMEBUFFER_RELEASE_BUFFER = 0x00048001"
definition FRAMEBUFFER_BLANK_SCREEN :: u32 where [tag_defs]: "FRAMEBUFFER_BLANK_SCREEN = 0x00040002"
definition FRAMEBUFFER_GET_PHYSICAL_WIDTH_HEIGHT :: u32 where [tag_defs]: "FRAMEBUFFER_GET_PHYSICAL_WIDTH_HEIGHT = 0x00040003"
definition FRAMEBUFFER_TEST_PHYSICAL_WIDTH_HEIGHT :: u32 where [tag_defs]: "FRAMEBUFFER_TEST_PHYSICAL_WIDTH_HEIGHT = 0x00044003"
definition FRAMEBUFFER_SET_PHYSICAL_WIDTH_HEIGHT :: u32 where [tag_defs]: "FRAMEBUFFER_SET_PHYSICAL_WIDTH_HEIGHT = 0x00048003"
definition FRAMEBUFFER_GET_VIRTUAL_WIDTH_HEIGHT :: u32 where [tag_defs]: "FRAMEBUFFER_GET_VIRTUAL_WIDTH_HEIGHT = 0x00040004"
definition FRAMEBUFFER_TEST_VIRTUAL_WIDTH_HEIGHT :: u32 where [tag_defs]: "FRAMEBUFFER_TEST_VIRTUAL_WIDTH_HEIGHT = 0x00044004"
definition FRAMEBUFFER_SET_VIRTUAL_WIDTH_HEIGHT :: u32 where [tag_defs]: "FRAMEBUFFER_SET_VIRTUAL_WIDTH_HEIGHT = 0x00048004"
definition FRAMEBUFFER_GET_DEPTH :: u32 where [tag_defs]: "FRAMEBUFFER_GET_DEPTH = 0x00040005"
definition FRAMEBUFFER_TEST_DEPTH :: u32 where [tag_defs]: "FRAMEBUFFER_TEST_DEPTH = 0x00044005"
definition FRAMEBUFFER_SET_DEPTH :: u32 where [tag_defs]: "FRAMEBUFFER_SET_DEPTH = 0x00048005"
definition FRAMEBUFFER_GET_PIXEL_ORDER :: u32 where [tag_defs]: "FRAMEBUFFER_GET_PIXEL_ORDER = 0x00040006"
definition FRAMEBUFFER_TEST_PIXEL_ORDER :: u32 where [tag_defs]: "FRAMEBUFFER_TEST_PIXEL_ORDER = 0x00044006"
definition FRAMEBUFFER_SET_PIXEL_ORDER :: u32 where [tag_defs]: "FRAMEBUFFER_SET_PIXEL_ORDER = 0x00048006"
definition FRAMEBUFFER_GET_ALPHA_MODE :: u32 where [tag_defs]: "FRAMEBUFFER_GET_ALPHA_MODE = 0x00040007"
definition FRAMEBUFFER_TEST_ALPHA_MODE :: u32 where [tag_defs]: "FRAMEBUFFER_TEST_ALPHA_MODE = 0x00044007"
definition FRAMEBUFFER_SET_ALPHA_MODE :: u32 where [tag_defs]: "FRAMEBUFFER_SET_ALPHA_MODE = 0x00048007"
definition FRAMEBUFFER_GET_PITCH :: u32 where [tag_defs]: "FRAMEBUFFER_GET_PITCH = 0x00040008"
definition FRAMEBUFFER_GET_VIRTUAL_OFFSET :: u32 where [tag_defs]: "FRAMEBUFFER_GET_VIRTUAL_OFFSET = 0x00040009"
definition FRAMEBUFFER_TEST_VIRTUAL_OFFSET :: u32 where [tag_defs]: "FRAMEBUFFER_TEST_VIRTUAL_OFFSET = 0x00044009"
definition FRAMEBUFFER_SET_VIRTUAL_OFFSET :: u32 where [tag_defs]: "FRAMEBUFFER_SET_VIRTUAL_OFFSET = 0x00048009"
definition FRAMEBUFFER_GET_OVERSCAN :: u32 where [tag_defs]: "FRAMEBUFFER_GET_OVERSCAN = 0x0004000a"
definition FRAMEBUFFER_TEST_OVERSCAN :: u32 where [tag_defs]: "FRAMEBUFFER_TEST_OVERSCAN = 0x0004400a"
definition FRAMEBUFFER_SET_OVERSCAN :: u32 where [tag_defs]: "FRAMEBUFFER_SET_OVERSCAN = 0x0004800a"
definition FRAMEBUFFER_GET_PALETTE :: u32 where [tag_defs]: "FRAMEBUFFER_GET_PALETTE = 0x0004000b"
definition FRAMEBUFFER_TEST_PALETTE :: u32 where [tag_defs]: "FRAMEBUFFER_TEST_PALETTE = 0x0004400b"
definition FRAMEBUFFER_SET_PALETTE :: u32 where [tag_defs]: "FRAMEBUFFER_SET_PALETTE = 0x0004800b"
definition FRAMEBUFFER_SET_CURSOR_INFO :: u32 where [tag_defs]: "FRAMEBUFFER_SET_CURSOR_INFO = 0x00008010"
definition FRAMEBUFFER_SET_CURSOR_STATE :: u32 where [tag_defs]: "FRAMEBUFFER_SET_CURSOR_STATE = 0x00008011"


section \<open>Tags\<close>

text \<open>The length of the buffer is the parameter \<open>WORDS\<close> of the code.\<close>

record tag =
  tg_identifier :: u32
  tg_value_buffer_size :: u32
  tg_req_res_code :: u32
  tg_value_buffer :: "u32 list"

definition tag_new :: "nat \<Rightarrow> u32 \<Rightarrow> tag" where
  "tag_new words identifier =
     \<lparr>tg_identifier = identifier, tg_value_buffer_size = of_nat (words * 4), tg_req_res_code = REQUEST_CODE,
      tg_value_buffer = replicate words 0\<rparr>"

definition tag_release_buffer :: tag where [tag_defs]: "tag_release_buffer = tag_new 0 FRAMEBUFFER_RELEASE_BUFFER"
definition tag_get_firmware_revision :: tag where [tag_defs]: "tag_get_firmware_revision = tag_new 1 VIDEO_CORE_GET_FIRMWARE_REVISION"
definition tag_get_board_model :: tag where [tag_defs]: "tag_get_board_model = tag_new 1 HARDWARE_GET_BOARD_MODEL"
definition tag_get_board_revision :: tag where [tag_defs]: "tag_get_board_revision = tag_new 1 HARDWARE_GET_BOARD_REVISION"
definition tag_get_dma_channels :: tag where [tag_defs]: "tag_get_dma_channels = tag_new 1 SHARED_GET_DMA_CHANNELS"
definition tag_lock_memory :: tag where [tag_defs]: "tag_lock_memory = tag_new 1 MEMORY_LOCK_MEMORY"
definition tag_unlock_memory :: tag where [tag_defs]: "tag_unlock_memory = tag_new 1 MEMORY_UNLOCK_MEMORY"
definition tag_release_memory :: tag where [tag_defs]: "tag_release_memory = tag_new 1 MEMORY_RELEASE_MEMORY"
definition tag_blank_screen :: tag where [tag_defs]: "tag_blank_screen = tag_new 1 FRAMEBUFFER_BLANK_SCREEN"
definition tag_get_depth :: tag where [tag_defs]: "tag_get_depth = tag_new 1 FRAMEBUFFER_GET_DEPTH"
definition tag_test_depth :: tag where [tag_defs]: "tag_test_depth = tag_new 1 FRAMEBUFFER_TEST_DEPTH"
definition tag_set_depth :: tag where [tag_defs]: "tag_set_depth = tag_new 1 FRAMEBUFFER_SET_DEPTH"
definition tag_get_pixel_order :: tag where [tag_defs]: "tag_get_pixel_order = tag_new 1 FRAMEBUFFER_GET_PIXEL_ORDER"
definition tag_test_pixel_order :: tag where [tag_defs]: "tag_test_pixel_order = tag_new 1 FRAMEBUFFER_TEST_PIXEL_ORDER"
definition tag_set_pixel_order :: tag where [tag_defs]: "tag_set_pixel_order = tag_new 1 FRAMEBUFFER_SET_PIXEL_ORDER"
definition tag_get_alpha_mode :: tag where [tag_defs]: "tag_get_alpha_mode = tag_new 1 FRAMEBUFFER_GET_ALPHA_MODE"
definition tag_test_alpha_mode :: tag where [tag_defs]: "tag_test_alpha_mode = tag_new 1 FRAMEBUFFER_TEST_ALPHA_MODE"
definition tag_set_alpha_mode :: tag where [tag_defs]: "tag_set_alpha_mode = tag_new 1 FRAMEBUFFER_SET_ALPHA_MODE"
definition tag_get_pitch :: tag where [tag_defs]: "tag_get_pitch = tag_new 1 FRAMEBUFFER_GET_PITCH"
definition tag_get_board_mac_address :: tag where [tag_defs]: "tag_get_board_mac_address = tag_new 2 HARDWARE_GET_BOARD_MAC_ADDRESS"
definition tag_get_board_serial :: tag where [tag_defs]: "tag_get_board_serial = tag_new 2 HARDWARE_GET_BOARD_SERIAL"
definition tag_get_arm_memory :: tag where [tag_defs]: "tag_get_arm_memory = tag_new 2 HARDWARE_GET_ARM_MEMORY"
definition tag_get_vc_memory :: tag where [tag_defs]: "tag_get_vc_memory = tag_new 2 HARDWARE_GET_VC_MEMORY"
definition tag_get_power_state :: tag where [tag_defs]: "tag_get_power_state = tag_new 2 POWER_GET_POWER_STATE"
definition tag_get_timing :: tag where [tag_defs]: "tag_get_timing = tag_new 2 POWER_GET_TIMING"
definition tag_set_power_state :: tag where [tag_defs]: "tag_set_power_state = tag_new 2 POWER_SET_POWER_STATE"
definition tag_get_clock_state :: tag where [tag_defs]: "tag_get_clock_state = tag_new 2 CLOCK_GET_CLOCK_STATE"
definition tag_set_clock_state :: tag where [tag_defs]: "tag_set_clock_state = tag_new 2 CLOCK_SET_CLOCK_STATE"
definition tag_get_clock_rate :: tag where [tag_defs]: "tag_get_clock_rate = tag_new 2 CLOCK_GET_CLOCK_RATE"
definition tag_get_onboard_led_status :: tag where [tag_defs]: "tag_get_onboard_led_status = tag_new 2 LED_GET_ONBOARD_LED_STATUS"
definition tag_test_onboard_led_status :: tag where [tag_defs]: "tag_test_onboard_led_status = tag_new 2 LED_TEST_ONBOARD_LED_STATUS"
definition tag_set_onboard_led_status :: tag where [tag_defs]: "tag_set_onboard_led_status = tag_new 2 LED_SET_ONBOARD_LED_STATUS"
definition tag_get_clock_rate_measured :: tag where [tag_defs]: "tag_get_clock_rate_measured = tag_new 2 CLOCK_GET_CLOCK_RATE_MEASURED"
definition tag_get_max_clock_rate :: tag where [tag_defs]: "tag_get_max_clock_rate = tag_new 2 CLOCK_GET_MAX_CLOCK_RATE"
definition tag_get_min_clock_rate :: tag where [tag_defs]: "tag_get_min_clock_rate = tag_new 2 CLOCK_GET_MIN_CLOCK_RATE"
definition tag_get_turbo :: tag where [tag_defs]: "tag_get_turbo = tag_new 2 CLOCK_GET_TURBO"
definition tag_set_turbo :: tag where [tag_defs]: "tag_set_turbo = tag_new 2 CLOCK_SET_TURBO"
definition tag_get_voltage :: tag where [tag_defs]: "tag_get_voltage = tag_new 2 VOLTAGE_GET_VOLTAGE"
definition tag_set_voltage :: tag where [tag_defs]: "tag_set_voltage = tag_new 2 VOLTAGE_SET_VOLTAGE"
definition tag_get_max_voltage :: tag where [tag_defs]: "tag_get_max_voltage = tag_new 2 VOLTAGE_GET_MAX_VOLTAGE"
definition tag_get_min_voltage :: tag where [tag_defs]: "tag_get_min_voltage = tag_new 2 VOLTAGE_GET_MIN_VOLTAGE"
definition tag_get_temperature :: tag where [tag_defs]: "tag_get_temperature = tag_new 2 TEMPERATURE_GET_TEMPERATURE"
definition tag_get_max_temperature :: tag where [tag_defs]: "tag_get_max_temperature = tag_new 2 TEMPERATURE_GET_MAX_TEMPERATURE"
definition tag_get_dispmanx_resource_mem_handle :: tag where [tag_defs]: "tag_get_dispmanx_resource_mem_handle = tag_new 2 MEMORY_GET_DISPMANX_RESOURCE_MEM_HANDLE"
definition tag_allocate_buffer :: tag where [tag_defs]: "tag_allocate_buffer = tag_new 2 FRAMEBUFFER_ALLOCATE_BUFFER"
definition tag_get_physical_width_height :: tag where [tag_defs]: "tag_get_physical_width_height = tag_new 2 FRAMEBUFFER_GET_PHYSICAL_WIDTH_HEIGHT"
definition tag_test_physical_width_height :: tag where [tag_defs]: "tag_test_physical_width_height = tag_new 2 FRAMEBUFFER_TEST_PHYSICAL_WIDTH_HEIGHT"
definition tag_set_physical_width_height :: tag where [tag_defs]: "tag_set_physical_width_height = tag_new 2 FRAMEBUFFER_SET_PHYSICAL_WIDTH_HEIGHT"
definition tag_get_virtual_width_height :: tag where [tag_defs]: "tag_get_virtual_width_height = tag_new 2 FRAMEBUFFER_GET_VIRTUAL_WIDTH_HEIGHT"
definition tag_test_virtual_width_height :: tag where [tag_defs]: "tag_test_virtual_width_height = tag_new 2 FRAMEBUFFER_TEST_VIRTUAL_WIDTH_HEIGHT"
definition tag_set_virtual_width_height :: tag where [tag_defs]: "tag_set_virtual_width_height = tag_new 2 FRAMEBUFFER_SET_VIRTUAL_WIDTH_HEIGHT"
definition tag_get_virtual_offset :: tag where [tag_defs]: "tag_get_virtual_offset = tag_new 2 FRAMEBUFFER_GET_VIRTUAL_OFFSET"
definition tag_test_virtual_offset :: tag where [tag_defs]: "tag_test_virtual_offset = tag_new 2 FRAMEBUFFER_TEST_VIRTUAL_OFFSET"
definition tag_set_virtual_offset :: tag where [tag_defs]: "tag_set_virtual_offset = tag_new 2 FRAMEBUFFER_SET_VIRTUAL_OFFSET"
definition tag_set_clock_rate :: tag where [tag_defs]: "tag_set_clock_rate = tag_new 3 CLOCK_SET_CLOCK_RATE"
definition tag_allocate_memory :: tag where [tag_defs]: "tag_allocate_memory = tag_new 3 MEMORY_ALLOCATE_MEMORY"
definition tag_get_overscan :: tag where [tag_defs]: "tag_get_overscan = tag_new 4 FRAMEBUFFER_GET_OVERSCAN"
definition tag_test_overscan :: tag where [tag_defs]: "tag_test_overscan = tag_new 4 FRAMEBUFFER_TEST_OVERSCAN"
definition tag_set_overscan :: tag where [tag_defs]: "tag_set_overscan = tag_new 4 FRAMEBUFFER_SET_OVERSCAN"
definition tag_set_cursor_state :: tag where [tag_defs]: "tag_set_cursor_state = tag_new 4 FRAMEBUFFER_SET_CURSOR_STATE"
definition tag_set_cursor_info :: tag where [tag_defs]: "tag_set_cursor_info = tag_new 6 FRAMEBUFFER_SET_CURSOR_INFO"
definition tag_execute_code :: tag where [tag_defs]: "tag_execute_code = tag_new 7 MEMORY_EXECUTE_CODE"
definition tag_get_clocks :: tag where [tag_defs]: "tag_get_clocks = tag_new 32 HARDWARE_GET_CLOCKS"
definition tag_get_edid_block :: tag where [tag_defs]: "tag_get_edid_block = tag_new 34 MEMORY_GET_EDID_BLOCK"
definition tag_get_command_line :: tag where [tag_defs]: "tag_get_command_line = tag_new 256 CONFIG_GET_COMMAND_LINE"
definition tag_get_palette :: tag where [tag_defs]: "tag_get_palette = tag_new 256 FRAMEBUFFER_GET_PALETTE"
definition tag_test_palette :: tag where [tag_defs]: "tag_test_palette = tag_new 258 FRAMEBUFFER_TEST_PALETTE"
definition tag_set_palette :: tag where [tag_defs]: "tag_set_palette = tag_new 258 FRAMEBUFFER_SET_PALETTE"

text \<open>The assignments to the first words of the buffer.\<close>

definition fill :: "u32 list \<Rightarrow> tag \<Rightarrow> tag" where
  "fill vs t = t\<lparr>tg_value_buffer := vs @ drop (length vs) (tg_value_buffer t)\<rparr>"


section \<open>Messages\<close>

record message =
  ms_size :: u32
  ms_req_res_code :: u32
  ms_data :: "u32 list"

text \<open>The data and the index of the next word. \<open>put\<close> is an assignment with the step of the index.\<close>

type_synonym cursor = "u32 list \<times> nat"

definition put :: "u32 \<Rightarrow> cursor \<Rightarrow> cursor option" where
  "put w c = map_option (\<lambda>data. (data, Suc (snd c))) (update_at (fst c) (snd c) w)"

fun put_all :: "u32 list \<Rightarrow> cursor \<Rightarrow> cursor option" where
  "put_all [] c = Some c"
| "put_all (w # ws) c = do {
     c' \<leftarrow> put w c;
     put_all ws c'
   }"

definition put_tag :: "tag \<Rightarrow> cursor \<Rightarrow> cursor option" where
  "put_tag t c = do {
     c1 \<leftarrow> put (tg_identifier t) c;
     c2 \<leftarrow> put (tg_value_buffer_size t) c1;
     c3 \<leftarrow> put (tg_req_res_code t) c2;
     put_all (tg_value_buffer t) c3
   }"

definition message_with :: "nat \<Rightarrow> cursor \<Rightarrow> message option" where
  "message_with words c = do {
     (data, _) \<leftarrow> put END_TAG c;
     Some \<lparr>ms_size = of_nat ((2 + words) * 4), ms_req_res_code = REQUEST_CODE, ms_data = data\<rparr>
   }"

definition const_checks :: "nat \<Rightarrow> nat \<Rightarrow> bool" where
  "const_checks n words \<longleftrightarrow> n + 4 \<le> words \<and> (words + 2) mod 16 = 0"

definition message_new :: "nat \<Rightarrow> tag \<Rightarrow> message option" where
  "message_new words t = do {
     assert_that (const_checks (length (tg_value_buffer t)) words);
     c \<leftarrow> put_tag t (replicate words 0, 0);
     message_with words c
   }"

definition message_new_7 :: "nat \<Rightarrow> tag \<Rightarrow> tag \<Rightarrow> tag \<Rightarrow> tag \<Rightarrow> tag \<Rightarrow> tag \<Rightarrow> tag \<Rightarrow> message option" where
  "message_new_7 words t1 t2 t3 t4 t5 t6 t7 = do {
     assert_that (const_checks 0 words);
     assert_that (sum_list (map (length \<circ> tg_value_buffer) [t1, t2, t3, t4, t5, t6, t7]) + 4 \<le> words);
     c1 \<leftarrow> put_tag t1 (replicate words 0, 0);
     c2 \<leftarrow> put_tag t2 c1;
     c3 \<leftarrow> put_tag t3 c2;
     c4 \<leftarrow> put_tag t4 c3;
     c5 \<leftarrow> put_tag t5 c4;
     c6 \<leftarrow> put_tag t6 c5;
     c7 \<leftarrow> put_tag t7 c6;
     message_with words c7
   }"

definition new_get_firmware_revision :: "message option" where
  "new_get_firmware_revision = message_new 14 tag_get_firmware_revision"
definition new_get_board_model :: "message option" where
  "new_get_board_model = message_new 14 tag_get_board_model"
definition new_get_board_revision :: "message option" where
  "new_get_board_revision = message_new 14 tag_get_board_revision"
definition new_get_board_mac_address :: "message option" where
  "new_get_board_mac_address = message_new 14 tag_get_board_mac_address"
definition new_get_board_serial :: "message option" where
  "new_get_board_serial = message_new 14 tag_get_board_serial"
definition new_get_arm_memory :: "message option" where
  "new_get_arm_memory = message_new 14 tag_get_arm_memory"
definition new_get_vc_memory :: "message option" where
  "new_get_vc_memory = message_new 14 tag_get_vc_memory"
definition new_get_dma_channels :: "message option" where
  "new_get_dma_channels = message_new 14 tag_get_dma_channels"
definition new_get_onboard_led_status :: "message option" where
  "new_get_onboard_led_status = message_new 14 tag_get_onboard_led_status"
definition new_test_onboard_led_status :: "message option" where
  "new_test_onboard_led_status = message_new 14 tag_test_onboard_led_status"
definition new_set_onboard_led_status :: "u32 \<Rightarrow> u32 \<Rightarrow> message option" where
  "new_set_onboard_led_status pin_number st = message_new 14 (fill [pin_number, st] tag_set_onboard_led_status)"
definition new_release_buffer :: "message option" where
  "new_release_buffer = message_new 14 tag_release_buffer"
definition new_blank_screen :: "u32 \<Rightarrow> message option" where
  "new_blank_screen state = message_new 14 (fill [state] tag_blank_screen)"
definition new_get_physical_width_height :: "message option" where
  "new_get_physical_width_height = message_new 14 tag_get_physical_width_height"
definition new_test_physical_width_height :: "u32 \<Rightarrow> u32 \<Rightarrow> message option" where
  "new_test_physical_width_height width height = message_new 14 (fill [width, height] tag_test_physical_width_height)"
definition new_set_physical_width_height :: "u32 \<Rightarrow> u32 \<Rightarrow> message option" where
  "new_set_physical_width_height width height = message_new 14 (fill [width, height] tag_set_physical_width_height)"
definition new_get_virtual_width_height :: "message option" where
  "new_get_virtual_width_height = message_new 14 tag_get_virtual_width_height"
definition new_test_virtual_width_height :: "u32 \<Rightarrow> u32 \<Rightarrow> message option" where
  "new_test_virtual_width_height width height = message_new 14 (fill [width, height] tag_test_virtual_width_height)"
definition new_set_virtual_width_height :: "u32 \<Rightarrow> u32 \<Rightarrow> message option" where
  "new_set_virtual_width_height width height = message_new 14 (fill [width, height] tag_set_virtual_width_height)"
definition new_get_depth :: "message option" where
  "new_get_depth = message_new 14 tag_get_depth"
definition new_test_depth :: "u32 \<Rightarrow> message option" where
  "new_test_depth bits_per_pixel = message_new 14 (fill [bits_per_pixel] tag_test_depth)"
definition new_set_depth :: "u32 \<Rightarrow> message option" where
  "new_set_depth bits_per_pixel = message_new 14 (fill [bits_per_pixel] tag_set_depth)"
definition new_get_pixel_order :: "message option" where
  "new_get_pixel_order = message_new 14 tag_get_pixel_order"
definition new_test_pixel_order :: "u32 \<Rightarrow> message option" where
  "new_test_pixel_order state = message_new 14 (fill [state] tag_test_pixel_order)"
definition new_set_pixel_order :: "u32 \<Rightarrow> message option" where
  "new_set_pixel_order state = message_new 14 (fill [state] tag_set_pixel_order)"
definition new_get_alpha_mode :: "message option" where
  "new_get_alpha_mode = message_new 14 tag_get_alpha_mode"
definition new_test_alpha_mode :: "u32 \<Rightarrow> message option" where
  "new_test_alpha_mode state = message_new 14 (fill [state] tag_test_alpha_mode)"
definition new_set_alpha_mode :: "u32 \<Rightarrow> message option" where
  "new_set_alpha_mode state = message_new 14 (fill [state] tag_set_alpha_mode)"
definition new_get_pitch :: "message option" where
  "new_get_pitch = message_new 14 tag_get_pitch"
definition new_get_virtual_offset :: "message option" where
  "new_get_virtual_offset = message_new 14 tag_get_virtual_offset"
definition new_test_virtual_offset :: "u32 \<Rightarrow> u32 \<Rightarrow> message option" where
  "new_test_virtual_offset x y = message_new 14 (fill [x, y] tag_test_virtual_offset)"
definition new_set_virtual_offset :: "u32 \<Rightarrow> u32 \<Rightarrow> message option" where
  "new_set_virtual_offset x y = message_new 14 (fill [x, y] tag_set_virtual_offset)"
definition new_get_overscan :: "message option" where
  "new_get_overscan = message_new 14 tag_get_overscan"
definition new_test_overscan :: "u32 \<Rightarrow> u32 \<Rightarrow> u32 \<Rightarrow> u32 \<Rightarrow> message option" where
  "new_test_overscan tp btm lft rght = message_new 14 (fill [tp, btm, lft, rght] tag_test_overscan)"
definition new_set_overscan :: "u32 \<Rightarrow> u32 \<Rightarrow> u32 \<Rightarrow> u32 \<Rightarrow> message option" where
  "new_set_overscan tp btm lft rght = message_new 14 (fill [tp, btm, lft, rght] tag_set_overscan)"
definition new_get_power_state :: "u32 \<Rightarrow> message option" where
  "new_get_power_state device_id = message_new 14 (fill [device_id] tag_get_power_state)"
definition new_get_timing :: "u32 \<Rightarrow> message option" where
  "new_get_timing device_id = message_new 14 (fill [device_id] tag_get_timing)"
definition new_set_power_state :: "u32 \<Rightarrow> u32 \<Rightarrow> message option" where
  "new_set_power_state device_id state = message_new 14 (fill [device_id, state] tag_set_power_state)"
definition new_get_clock_state :: "u32 \<Rightarrow> message option" where
  "new_get_clock_state clock_id = message_new 14 (fill [clock_id] tag_get_clock_state)"
definition new_set_clock_state :: "u32 \<Rightarrow> u32 \<Rightarrow> message option" where
  "new_set_clock_state clock_id state = message_new 14 (fill [clock_id, state] tag_set_clock_state)"
definition new_get_clock_rate :: "u32 \<Rightarrow> message option" where
  "new_get_clock_rate clock_id = message_new 14 (fill [clock_id] tag_get_clock_rate)"
definition new_get_clock_rate_measured :: "u32 \<Rightarrow> message option" where
  "new_get_clock_rate_measured clock_id = message_new 14 (fill [clock_id] tag_get_clock_rate_measured)"
definition new_set_clock_rate :: "u32 \<Rightarrow> u32 \<Rightarrow> u32 \<Rightarrow> message option" where
  "new_set_clock_rate clock_id rate skip_setting_turbo = message_new 14 (fill [clock_id, rate, skip_setting_turbo] tag_set_clock_rate)"
definition new_get_max_clock_rate :: "u32 \<Rightarrow> message option" where
  "new_get_max_clock_rate clock_id = message_new 14 (fill [clock_id] tag_get_max_clock_rate)"
definition new_get_min_clock_rate :: "u32 \<Rightarrow> message option" where
  "new_get_min_clock_rate clock_id = message_new 14 (fill [clock_id] tag_get_min_clock_rate)"
definition new_get_turbo :: "u32 \<Rightarrow> message option" where
  "new_get_turbo i = message_new 14 (fill [i] tag_get_turbo)"
definition new_set_turbo :: "u32 \<Rightarrow> u32 \<Rightarrow> message option" where
  "new_set_turbo i level = message_new 14 (fill [i, level] tag_set_turbo)"
definition new_get_voltage :: "u32 \<Rightarrow> message option" where
  "new_get_voltage voltage_id = message_new 14 (fill [voltage_id] tag_get_voltage)"
definition new_set_voltage :: "u32 \<Rightarrow> u32 \<Rightarrow> message option" where
  "new_set_voltage voltage_id val = message_new 14 (fill [voltage_id, val] tag_set_voltage)"
definition new_get_max_voltage :: "u32 \<Rightarrow> message option" where
  "new_get_max_voltage voltage_id = message_new 14 (fill [voltage_id] tag_get_max_voltage)"
definition new_get_min_voltage :: "u32 \<Rightarrow> message option" where
  "new_get_min_voltage voltage_id = message_new 14 (fill [voltage_id] tag_get_min_voltage)"
definition new_get_temperature :: "u32 \<Rightarrow> message option" where
  "new_get_temperature temperature_id = message_new 14 (fill [temperature_id] tag_get_temperature)"
definition new_get_max_temperature :: "u32 \<Rightarrow> message option" where
  "new_get_max_temperature temperature_id = message_new 14 (fill [temperature_id] tag_get_max_temperature)"
definition new_allocate_memory :: "u32 \<Rightarrow> u32 \<Rightarrow> u32 \<Rightarrow> message option" where
  "new_allocate_memory sz alignment flags = message_new 14 (fill [sz, alignment, flags] tag_allocate_memory)"
definition new_lock_memory :: "u32 \<Rightarrow> message option" where
  "new_lock_memory handle = message_new 14 (fill [handle] tag_lock_memory)"
definition new_unlock_memory :: "u32 \<Rightarrow> message option" where
  "new_unlock_memory handle = message_new 14 (fill [handle] tag_unlock_memory)"
definition new_release_memory :: "u32 \<Rightarrow> message option" where
  "new_release_memory handle = message_new 14 (fill [handle] tag_release_memory)"
definition new_execute_code :: "u32 \<Rightarrow> u32 \<Rightarrow> u32 \<Rightarrow> u32 \<Rightarrow> u32 \<Rightarrow> u32 \<Rightarrow> u32 \<Rightarrow> message option" where
  "new_execute_code entry_point r0 r1 r2 r3 r4 r5 = message_new 14 (fill [entry_point, r0, r1, r2, r3, r4, r5] tag_execute_code)"
definition new_get_dispmanx_resource_mem_handle :: "u32 \<Rightarrow> message option" where
  "new_get_dispmanx_resource_mem_handle handle = message_new 14 (fill [handle] tag_get_dispmanx_resource_mem_handle)"
definition new_set_cursor_info :: "u32 \<Rightarrow> u32 \<Rightarrow> u32 \<Rightarrow> u32 \<Rightarrow> u32 \<Rightarrow> message option" where
  "new_set_cursor_info width height pointer_to_pixels hotspot_x hotspot_y = message_new 14 (fill [width, height, 0, pointer_to_pixels, hotspot_x, hotspot_y] tag_set_cursor_info)"
definition new_set_cursor_state :: "u32 \<Rightarrow> u32 \<Rightarrow> u32 \<Rightarrow> u32 \<Rightarrow> message option" where
  "new_set_cursor_state enable x y flags = message_new 14 (fill [enable, x, y, flags] tag_set_cursor_state)"
definition new_get_clocks :: "message option" where
  "new_get_clocks = message_new 46 tag_get_clocks"
definition new_get_edid_block :: "u32 \<Rightarrow> message option" where
  "new_get_edid_block block_id = message_new 46 (fill [block_id] tag_get_edid_block)"

definition new_allocate_buffer :: "u32 \<Rightarrow> u32 \<Rightarrow> u32 \<Rightarrow> message option" where
  "new_allocate_buffer width height depth =
     message_new_7 46 (fill [width, height] tag_set_physical_width_height) (fill [width, height] tag_set_virtual_width_height)
       (fill [depth] tag_set_depth) (fill [0] tag_set_pixel_order) (fill [0, 0, 0, 0] tag_set_overscan)
       (fill [0, 0] tag_set_virtual_offset) (fill [4096] tag_allocate_buffer)"

definition new_get_palette :: "message option" where
  "new_get_palette = message_new 318 tag_get_palette"

text \<open>As many words of the palette as the buffer takes.\<close>

definition message_palette :: "u32 \<Rightarrow> u32 \<Rightarrow> u32 list \<Rightarrow> tag \<Rightarrow> message option" where
  "message_palette offset n palette t =
     message_new 318 (fill ([offset, n] @ take (length (tg_value_buffer t) - 2) palette) t)"

definition new_test_palette :: "u32 \<Rightarrow> u32 \<Rightarrow> u32 list \<Rightarrow> message option" where
  "new_test_palette offset n palette = message_palette offset n palette tag_test_palette"

definition new_set_palette :: "u32 \<Rightarrow> u32 \<Rightarrow> u32 list \<Rightarrow> message option" where
  "new_set_palette offset n palette = message_palette offset n palette tag_set_palette"

definition new_get_command_line :: "message option" where
  "new_get_command_line = message_new 318 tag_get_command_line"

section \<open>The format\<close>

text \<open>The property interface reads a message as tags up to the end tag: identifier, size of the buffer in bytes, code,
  buffer.\<close>

function parse_tags :: "u32 list \<Rightarrow> tag list option" where
  "parse_tags ws =
     (case ws of
        [] \<Rightarrow> None
      | i # rest \<Rightarrow>
          if i = END_TAG then Some []
          else (case rest of
             n # code # vs \<Rightarrow>
               let words = unat n div 4
               in if unat n mod 4 \<noteq> 0 \<or> length vs < words then None
                  else map_option ((#) \<lparr>tg_identifier = i, tg_value_buffer_size = n, tg_req_res_code = code,
                                        tg_value_buffer = take words vs\<rparr>) (parse_tags (drop words vs))
           | _ \<Rightarrow> None))"
  by pat_completeness auto
termination
  by (relation "measure length") auto

declare parse_tags.simps [simp del]

definition tag_words :: "tag \<Rightarrow> u32 list" where
  "tag_words t = tg_identifier t # tg_value_buffer_size t # tg_req_res_code t # tg_value_buffer t"

definition tag_ok :: "tag \<Rightarrow> bool" where
  "tag_ok t \<longleftrightarrow> tg_identifier t \<noteq> END_TAG \<and> unat (tg_value_buffer_size t) = 4 * length (tg_value_buffer t)"

lemma length_tag_words [simp]: "length (tag_words t) = 3 + length (tg_value_buffer t)"
  by (simp add: tag_words_def)

lemma parse_tag_words: "tag_ok t \<Longrightarrow> parse_tags (tag_words t @ ws) = map_option ((#) t) (parse_tags ws)"
  by (subst parse_tags.simps) (cases t, simp add: tag_words_def tag_ok_def)

lemma parse_end [simp]: "parse_tags (END_TAG # ws) = Some []"
  by (subst parse_tags.simps) simp

lemma parse_all_tags: "\<forall>t \<in> set ts. tag_ok t \<Longrightarrow> parse_tags (concat (map tag_words ts) @ END_TAG # ws) = Some ts"
  by (induction ts) (simp_all add: parse_tag_words)

lemma put_in: "i < length data \<Longrightarrow> put w (data, i) = Some (data[i := w], Suc i)"
  by (simp add: put_def)

lemma put_all_in:
  "length pre + length ws \<le> length pre + length post \<Longrightarrow>
    put_all ws (pre @ post, length pre) = Some (pre @ ws @ drop (length ws) post, length pre + length ws)"
proof (induction ws arbitrary: pre post)
  case Nil
  then show ?case by simp
next
  case (Cons w ws)
  then obtain x xs where post: "post = x # xs" by (cases post) simp_all
  have "put_all ws ((pre @ [w]) @ xs, length (pre @ [w])) = Some ((pre @ [w]) @ ws @ drop (length ws) xs, length (pre @ [w]) + length ws)"
    using Cons.prems post by (intro Cons.IH) simp
  then show ?case by (simp add: put_in post)
qed

lemma put_all_Cons: "put_all (w # ws) = (\<lambda>c. Option.bind (put w c) (put_all ws))"
  by (rule ext) simp

lemma put_tag_eq: "put_tag t c = put_all (tag_words t) c"
  by (simp add: put_tag_def tag_words_def put_all_Cons del: put_all.simps)

text \<open>A buffer that is written up to a place and zero from there.\<close>

definition cursor_at :: "nat \<Rightarrow> u32 list \<Rightarrow> cursor" where
  "cursor_at words pre = (pre @ replicate (words - length pre) 0, length pre)"

lemma cursor_at_start: "(replicate words 0, 0) = cursor_at words []"
  by (simp add: cursor_at_def)

lemma put_tag_in:
  assumes "length (pre @ tag_words t) \<le> words"
  shows "put_tag t (cursor_at words pre) = Some (cursor_at words (pre @ tag_words t))"
proof -
  have "length (tag_words t) \<le> words - length pre" using assms by simp
  then have "put_all (tag_words t) (pre @ replicate (words - length pre) 0, length pre)
      = Some (pre @ tag_words t @ drop (length (tag_words t)) (replicate (words - length pre) 0), length pre + length (tag_words t))"
    by (intro put_all_in) simp
  then show ?thesis by (simp add: put_tag_eq cursor_at_def)
qed

definition message_of :: "nat \<Rightarrow> u32 list \<Rightarrow> message" where
  "message_of words pre = \<lparr>ms_size = of_nat ((2 + words) * 4), ms_req_res_code = REQUEST_CODE,
     ms_data = pre @ END_TAG # replicate (words - length pre - 1) 0\<rparr>"

lemma message_with_in:
  assumes "length pre < words"
  shows "message_with words (cursor_at words pre) = Some (message_of words pre)"
proof -
  have "(pre @ replicate (words - length pre) 0)[length pre := END_TAG] = pre @ END_TAG # replicate (words - length pre - 1) 0"
    using assms by (cases "words - length pre") (simp_all add: list_update_append)
  then show ?thesis using assms by (simp add: message_with_def put_in cursor_at_def message_of_def)
qed

lemma message_new_data:
  assumes "const_checks (length (tg_value_buffer t)) words"
  shows "message_new words t = Some (message_of words (tag_words t))"
proof -
  have n: "length (tg_value_buffer t) + 4 \<le> words" using assms by (simp add: const_checks_def)
  then show ?thesis
    using assms put_tag_in [of "[]" t words] message_with_in [of "tag_words t" words]
    by (simp add: message_new_def cursor_at_start)
qed

text \<open>The message with seven tags needs room for the headers of all of them, which the checks of the code do not ask
  for.\<close>

lemma message_new_7_data:
  assumes "(words + 2) mod 16 = 0" "length (concat (map tag_words [t1, t2, t3, t4, t5, t6, t7])) < words"
  shows "message_new_7 words t1 t2 t3 t4 t5 t6 t7 = Some (message_of words (concat (map tag_words [t1, t2, t3, t4, t5, t6, t7])))"
proof -
  let ?pre = "\<lambda>n. concat (map tag_words (take n [t1, t2, t3, t4, t5, t6, t7]))"
  have "put_tag t1 (cursor_at words (?pre 0)) = Some (cursor_at words (?pre 1))"
    "put_tag t2 (cursor_at words (?pre 1)) = Some (cursor_at words (?pre 2))"
    "put_tag t3 (cursor_at words (?pre 2)) = Some (cursor_at words (?pre 3))"
    "put_tag t4 (cursor_at words (?pre 3)) = Some (cursor_at words (?pre 4))"
    "put_tag t5 (cursor_at words (?pre 4)) = Some (cursor_at words (?pre 5))"
    "put_tag t6 (cursor_at words (?pre 5)) = Some (cursor_at words (?pre 6))"
    "put_tag t7 (cursor_at words (?pre 6)) = Some (cursor_at words (?pre 7))"
    using assms(2) by (simp_all add: put_tag_in numeral_eq_Suc)
  moreover have "message_with words (cursor_at words (?pre 7)) = Some (message_of words (?pre 7))"
    using assms(2) by (intro message_with_in) simp
  moreover have "const_checks 0 words" "sum_list (map (length \<circ> tg_value_buffer) [t1, t2, t3, t4, t5, t6, t7]) + 4 \<le> words"
    using assms by (simp_all add: const_checks_def)
  ultimately show ?thesis
    unfolding message_new_7_def cursor_at_start by simp
qed

lemma unat_u32_of_nat: "n < 2 ^ 32 \<Longrightarrow> unat (of_nat n :: u32) = n"
  by (simp add: unsigned_of_nat take_bit_nat_eq_self)

lemma tag_new_ok: "words < 2 ^ 30 \<Longrightarrow> identifier \<noteq> 0 \<Longrightarrow> tag_ok (tag_new words identifier)"
  using unat_u32_of_nat [of "words * 4"] by (simp add: tag_new_def tag_ok_def END_TAG_def del: of_nat_mult)

lemma length_tag_new [simp]: "length (tg_value_buffer (tag_new words identifier)) = words"
  by (simp add: tag_new_def)

lemma fill_ok [simp]:
  "length vs \<le> length (tg_value_buffer t) \<Longrightarrow> length (tg_value_buffer (fill vs t)) = length (tg_value_buffer t)"
  "length vs \<le> length (tg_value_buffer t) \<Longrightarrow> tag_ok (fill vs t) = tag_ok t"
  by (simp_all add: fill_def tag_ok_def)

text \<open>C35: A message for a tag fits its structure, whose size is a multiple of the 64 bytes of a cache line, and the firmware
  reads from it that tag and nothing else.\<close>

theorem message_is_its_tag:
  assumes "const_checks (length (tg_value_buffer t)) words" "tag_ok t" "words < 2 ^ 29"
  shows "\<exists>msg. message_new words t = Some msg \<and> parse_tags (ms_data msg) = Some [t]
    \<and> unat (ms_size msg) = 4 * (2 + length (ms_data msg)) \<and> 64 dvd unat (ms_size msg)"
proof -
  have words: "length (tg_value_buffer t) + 4 \<le> words" "(words + 2) mod 16 = 0" using assms(1) by (simp_all add: const_checks_def)
  have "16 dvd words + 2" using words(2) by (simp add: dvd_eq_mod_eq_0)
  then obtain k where "words + 2 = 16 * k" by (rule dvdE)
  then have "4 * (2 + words) = 64 * k" by simp
  then have "64 dvd 4 * (2 + words)" by (rule dvdI)
  moreover have "unat (of_nat ((2 + words) * 4) :: u32) = 4 * (2 + words)"
    using assms(3) unat_u32_of_nat [of "(2 + words) * 4"] by (simp add: mult.commute del: of_nat_mult)
  moreover have "parse_tags (tag_words t @ END_TAG # replicate (words - length (tag_words t) - 1) 0) = Some [t]"
    using assms(2) by (simp add: parse_tag_words)
  ultimately show ?thesis using words by (simp add: message_new_data [OF assms(1)] message_of_def)
qed

theorem message_is_its_tag_witness:
  "\<exists>msg. new_set_power_state 3 1 = Some msg \<and> parse_tags (ms_data msg) = Some [fill [3, 1] tag_set_power_state]
    \<and> 64 dvd unat (ms_size msg)"
proof -
  have "const_checks (length (tg_value_buffer (fill [3, 1] tag_set_power_state))) 14" "tag_ok (fill [3, 1] tag_set_power_state)"
    by (simp_all add: tag_defs const_checks_def tag_new_ok)
  from message_is_its_tag [OF this] show ?thesis by (auto simp: new_set_power_state_def)
qed

end
