(* ===== verification/Firmware.thy ===== *)
theory Firmware
  imports Mailbox Firmware_Messages
begin

text \<open>The firmware behind the mailbox (\<open>drivers/syscon/bcm2835_firmware.rs\<close>, \<open>drivers/syscon/mod.rs\<close>): a message is put into
  memory, its address sent, the answer awaited, and the message read again as the firmware has left it. The address
  at which the message of a call lies on the stack is a parameter of the call; cleaning and invalidating the cache
  and the lock, which makes a call one step, are left out.\<close>

section \<open>State\<close>

text \<open>Memory as the processor sees it, by words.\<close>

record 'd ram_ops =
  ram_store :: "usize \<Rightarrow> u32 \<Rightarrow> 'd \<Rightarrow> 'd"
  ram_load :: "usize \<Rightarrow> 'd \<Rightarrow> u32"

fun store_words :: "'d ram_ops \<Rightarrow> usize \<Rightarrow> u32 list \<Rightarrow> 'd \<Rightarrow> 'd" where
  "store_words ram va [] d = d"
| "store_words ram va (w # ws) d = store_words ram (va + 4) ws (ram_store ram va w d)"

fun load_words :: "'d ram_ops \<Rightarrow> usize \<Rightarrow> nat \<Rightarrow> 'd \<Rightarrow> u32 list" where
  "load_words ram va 0 d = []"
| "load_words ram va (Suc n) d = ram_load ram va d # load_words ram (va + 4) n d"

definition message_words :: "message \<Rightarrow> u32 list" where
  "message_words msg = ms_size msg # ms_req_res_code msg # ms_data msg"

definition load_message :: "'d ram_ops \<Rightarrow> usize \<Rightarrow> nat \<Rightarrow> 'd \<Rightarrow> message" where
  "load_message ram va words d =
     \<lparr>ms_size = ram_load ram va d, ms_req_res_code = ram_load ram (va + 4) d, ms_data = load_words ram (va + 8) words d\<rparr>"

text \<open>A firmware device; its mailbox, once it is taken, is the position of the mailbox device.\<close>

record rpi_firmware =
  fd_id :: string
  fd_mbox :: "nat option"

record ('d, 'h) fw_machine = "('d, 'h) mbox_machine" +
  fw_devices :: "rpi_firmware list"
  fw_system :: "nat option"
  fw_registry :: "nat registry"

definition fw_dev :: "nat \<Rightarrow> ('d, 'h, 'z) fw_machine_scheme \<Rightarrow> rpi_firmware" where
  "fw_dev i m = fw_devices m ! i"

definition on_ram :: "('d \<Rightarrow> 'd) \<Rightarrow> ('d, 'h, 'z) mbox_machine_scheme \<Rightarrow> ('d, 'h, 'z) mbox_machine_scheme" where
  "on_ram f m = m\<lparr>mx_board := (mx_board m)\<lparr>bd_regs := f (bd_regs (mx_board m))\<rparr>\<rparr>"


section \<open>Properties\<close>

text \<open>\<open>property\<close>; the result is the message after the call.\<close>

definition fw_property :: "'d bus \<Rightarrow> 'd ram_ops \<Rightarrow> nat \<Rightarrow> usize \<Rightarrow> message \<Rightarrow> ('d, 'h, 'z) fw_machine_scheme
    \<Rightarrow> ((unit + message) \<times> ('d, 'h, 'z) fw_machine_scheme) option" where
  "fw_property bus ram i virt_addr msg m = do {
     mbox \<leftarrow> fd_mbox (fw_dev i m);
     let m1 = on_ram (store_words ram virt_addr (message_words msg)) m;
     let phys_addr = virt_to_phys virt_addr;
     let data = ucast phys_addr OR MBOX_0_CH_8_ARM_VC_TAGS;
     let (sent, m2) = client_send bus mbox data m1;
     (case sent of
        Inl _ \<Rightarrow> Some (Inl (), m2)
      | Inr _ \<Rightarrow> do {
          (received, m3) \<leftarrow> receive_blocking bus mbox m2;
          (case received of
             Inl _ \<Rightarrow> Some (Inl (), m3)
           | Inr result \<Rightarrow>
               if result \<noteq> data then Some (Inl (), m3)
               else let msg' = load_message ram virt_addr (length (ms_data msg)) (bd_regs (mx_board m3))
                    in Some (if ms_req_res_code msg' \<noteq> RESPONSE_CODE_SUCCESS then Inl () else Inr msg', m3))
        })
   }"

text \<open>A call with a message of a constructor, and what is made of the words of its answer.\<close>

definition fw_ask :: "'d bus \<Rightarrow> 'd ram_ops \<Rightarrow> nat \<Rightarrow> usize \<Rightarrow> message option \<Rightarrow> (u32 list \<Rightarrow> unit + 'a) \<Rightarrow> ('d, 'h, 'z) fw_machine_scheme
    \<Rightarrow> ((unit + 'a) \<times> ('d, 'h, 'z) fw_machine_scheme) option" where
  "fw_ask bus ram i va request answer m = do {
     msg \<leftarrow> request;
     (r, m1) \<leftarrow> fw_property bus ram i va msg m;
     Some (res_bind r (\<lambda>msg'. answer (ms_data msg')), m1)
   }"

definition get_firmware_revision :: "'d bus \<Rightarrow> 'd ram_ops \<Rightarrow> nat \<Rightarrow> usize \<Rightarrow> ('d, 'h, 'z) fw_machine_scheme
    \<Rightarrow> ((unit + u32) \<times> ('d, 'h, 'z) fw_machine_scheme) option" where
  "get_firmware_revision bus ram i va = fw_ask bus ram i va new_get_firmware_revision (\<lambda>data. Inr (data ! 3))"

definition get_board_model :: "'d bus \<Rightarrow> 'd ram_ops \<Rightarrow> nat \<Rightarrow> usize \<Rightarrow> ('d, 'h, 'z) fw_machine_scheme
    \<Rightarrow> ((unit + u32) \<times> ('d, 'h, 'z) fw_machine_scheme) option" where
  "get_board_model bus ram i va = fw_ask bus ram i va new_get_board_model (\<lambda>data. Inr (data ! 3))"

definition get_board_revision :: "'d bus \<Rightarrow> 'd ram_ops \<Rightarrow> nat \<Rightarrow> usize \<Rightarrow> ('d, 'h, 'z) fw_machine_scheme
    \<Rightarrow> ((unit + u32) \<times> ('d, 'h, 'z) fw_machine_scheme) option" where
  "get_board_revision bus ram i va = fw_ask bus ram i va new_get_board_revision (\<lambda>data. Inr (data ! 3))"

definition get_board_mac_address :: "'d bus \<Rightarrow> 'd ram_ops \<Rightarrow> nat \<Rightarrow> usize \<Rightarrow> ('d, 'h, 'z) fw_machine_scheme
    \<Rightarrow> ((unit + u8 list) \<times> ('d, 'h, 'z) fw_machine_scheme) option" where
  "get_board_mac_address bus ram i va = fw_ask bus ram i va new_get_board_mac_address
     (\<lambda>data. let word0 = u32_to_le_bytes (data ! 3); word1 = u32_to_le_bytes (data ! 4)
              in Inr [word0 ! 0, word0 ! 1, word0 ! 2, word0 ! 3, word1 ! 0, word1 ! 1])"

definition get_board_serial :: "'d bus \<Rightarrow> 'd ram_ops \<Rightarrow> nat \<Rightarrow> usize \<Rightarrow> ('d, 'h, 'z) fw_machine_scheme
    \<Rightarrow> ((unit + u64) \<times> ('d, 'h, 'z) fw_machine_scheme) option" where
  "get_board_serial bus ram i va = fw_ask bus ram i va new_get_board_serial
     (\<lambda>data. let low = ucast (data ! 3); high = ucast (data ! 4) in Inr (push_bit 32 high OR low))"

definition get_arm_memory :: "'d bus \<Rightarrow> 'd ram_ops \<Rightarrow> nat \<Rightarrow> usize \<Rightarrow> ('d, 'h, 'z) fw_machine_scheme
    \<Rightarrow> ((unit + u32 \<times> u32) \<times> ('d, 'h, 'z) fw_machine_scheme) option" where
  "get_arm_memory bus ram i va = fw_ask bus ram i va new_get_arm_memory (\<lambda>data. Inr (data ! 3, data ! 4))"

definition get_vc_memory :: "'d bus \<Rightarrow> 'd ram_ops \<Rightarrow> nat \<Rightarrow> usize \<Rightarrow> ('d, 'h, 'z) fw_machine_scheme
    \<Rightarrow> ((unit + u32 \<times> u32) \<times> ('d, 'h, 'z) fw_machine_scheme) option" where
  "get_vc_memory bus ram i va = fw_ask bus ram i va new_get_vc_memory (\<lambda>data. Inr (data ! 3, data ! 4))"

definition get_command_line :: "'d bus \<Rightarrow> 'd ram_ops \<Rightarrow> nat \<Rightarrow> usize \<Rightarrow> ('d, 'h, 'z) fw_machine_scheme
    \<Rightarrow> ((unit + string) \<times> ('d, 'h, 'z) fw_machine_scheme) option" where
  "get_command_line bus ram i va = fw_ask bus ram i va new_get_command_line
     (\<lambda>data. ok_or () (to_str (takeWhile (\<lambda>b. b \<noteq> 0) (concat (map u32_to_le_bytes (drop 3 data))))))"

definition get_dma_channels :: "'d bus \<Rightarrow> 'd ram_ops \<Rightarrow> nat \<Rightarrow> usize \<Rightarrow> ('d, 'h, 'z) fw_machine_scheme
    \<Rightarrow> ((unit + u32) \<times> ('d, 'h, 'z) fw_machine_scheme) option" where
  "get_dma_channels bus ram i va = fw_ask bus ram i va new_get_dma_channels (\<lambda>data. Inr (data ! 3))"

definition get_power_state :: "'d bus \<Rightarrow> 'd ram_ops \<Rightarrow> nat \<Rightarrow> usize \<Rightarrow> u32 \<Rightarrow> ('d, 'h, 'z) fw_machine_scheme
    \<Rightarrow> ((unit + u32) \<times> ('d, 'h, 'z) fw_machine_scheme) option" where
  "get_power_state bus ram i va device_id = fw_ask bus ram i va (new_get_power_state device_id) (\<lambda>data. Inr (data ! 4))"

definition set_power_state :: "'d bus \<Rightarrow> 'd ram_ops \<Rightarrow> nat \<Rightarrow> usize \<Rightarrow> u32 \<Rightarrow> u32 \<Rightarrow> ('d, 'h, 'z) fw_machine_scheme
    \<Rightarrow> ((unit + u32) \<times> ('d, 'h, 'z) fw_machine_scheme) option" where
  "set_power_state bus ram i va device_id state = fw_ask bus ram i va (new_set_power_state device_id state)
     (\<lambda>data. let returned_state = data ! 4 in
        if returned_state AND POWER_STATE_NO_DEVICE \<noteq> 0 then Inl ()
        else if state AND POWER_STATE_ON \<noteq> 0 \<and> returned_state AND POWER_STATE_ON = 0 then Inl ()
        else Inr returned_state)"

text \<open>\<open>print_info\<close> asks for what it prints, up to the first error.\<close>

definition and_then :: "('m \<Rightarrow> ((unit + 'a) \<times> 'm) option) \<Rightarrow> ('m \<Rightarrow> ((unit + unit) \<times> 'm) option) \<Rightarrow> 'm \<Rightarrow> ((unit + unit) \<times> 'm) option" where
  "and_then f g m = do {
     (r, m1) \<leftarrow> f m;
     (case r of Inl e \<Rightarrow> Some (Inl e, m1) | Inr _ \<Rightarrow> g m1)
   }"

definition print_info :: "'d bus \<Rightarrow> 'd ram_ops \<Rightarrow> nat \<Rightarrow> usize \<Rightarrow> ('d, 'h, 'z) fw_machine_scheme
    \<Rightarrow> ((unit + unit) \<times> ('d, 'h, 'z) fw_machine_scheme) option" where
  "print_info bus ram i va =
     and_then (get_firmware_revision bus ram i va)
     (and_then (get_board_model bus ram i va)
     (and_then (get_board_revision bus ram i va)
     (and_then (get_board_serial bus ram i va)
     (and_then (get_board_mac_address bus ram i va)
     (and_then (get_arm_memory bus ram i va)
     (and_then (get_vc_memory bus ram i va)
     (and_then (get_command_line bus ram i va)
     (and_then (get_dma_channels bus ram i va) (\<lambda>m. Some (Inr (), m))))))))))"

record framebuffer_info =
  fi_bus_addr :: u32
  fi_size :: u32
  fi_pitch :: u32
  fi_width :: u32
  fi_height :: u32
  fi_depth :: u32

definition get_preferred_resolution :: "(u32 \<times> u32) option" where
  "get_preferred_resolution = None"

text \<open>\<open>init_framebuffer\<close>, whose two messages lie at \<open>va\<close> and \<open>va'\<close>.\<close>

definition init_framebuffer :: "'d bus \<Rightarrow> 'd ram_ops \<Rightarrow> nat \<Rightarrow> usize \<Rightarrow> usize \<Rightarrow> u32 \<Rightarrow> u32 \<Rightarrow> u32 \<Rightarrow> ('d, 'h, 'z) fw_machine_scheme
    \<Rightarrow> ((unit + framebuffer_info) \<times> ('d, 'h, 'z) fw_machine_scheme) option" where
  "init_framebuffer bus ram i va va' width height depth m = do {
     (r, m1) \<leftarrow> fw_ask bus ram i va (new_allocate_buffer width height depth)
                  (\<lambda>data. Inr (data ! 3, data ! 4, data ! 33, data ! 34)) m;
     (case r of
        Inl e \<Rightarrow> Some (Inl e, m1)
      | Inr (actual_width, actual_height, bus_addr, sz) \<Rightarrow> do {
          (r', m2) \<leftarrow> fw_ask bus ram i va' new_get_pitch (\<lambda>data. Inr (data ! 3)) m1;
          Some (res_bind r' (\<lambda>pitch. Inr \<lparr>fi_bus_addr = bus_addr, fi_size = sz, fi_pitch = pitch, fi_width = actual_width,
                                         fi_height = actual_height, fi_depth = depth\<rparr>), m2)
        })
   }"


section \<open>The driver\<close>

definition register_rpi_firmware :: "nat \<Rightarrow> ('d, 'h, 'z) fw_machine_scheme \<Rightarrow> (unit + unit) \<times> ('d, 'h, 'z) fw_machine_scheme" where
  "register_rpi_firmware fw m = (case fw_system m of Some _ \<Rightarrow> (Inl (), m) | None \<Rightarrow> (Inr (), m\<lparr>fw_system := Some fw\<rparr>))"

definition get_rpi_firmware :: "('d, 'h, 'z) fw_machine_scheme \<Rightarrow> nat option" where
  "get_rpi_firmware m = fw_system m"

definition fw_global_setup :: "'d bus \<Rightarrow> 'd ram_ops \<Rightarrow> usize \<Rightarrow> nat \<Rightarrow> ('d, 'h, 'z) fw_machine_scheme
    \<Rightarrow> ((driver_init_error + unit) \<times> ('d, 'h, 'z) fw_machine_scheme) option" where
  "fw_global_setup bus ram va i m =
     (case take_mailbox bus m of
        (Inl _, m1) \<Rightarrow> Some (Inl DeviceFailed, m1)
      | (Inr mbox, m1) \<Rightarrow>
          (case fd_mbox (fw_dev i m1) of
             Some _ \<Rightarrow> Some (Inl DeviceFailed, m1)
           | None \<Rightarrow> do {
               (r, m2) \<leftarrow> print_info bus ram i va (m1\<lparr>fw_devices := (fw_devices m1)[i := (fw_dev i m1)\<lparr>fd_mbox := Some mbox\<rparr>]\<rparr>);
               (case r of
                  Inl _ \<Rightarrow> Some (Inl DeviceFailed, m2)
                | Inr _ \<Rightarrow> (case register_rpi_firmware i m2 of
                              (Inl _, m3) \<Rightarrow> Some (Inl DeviceFailed, m3)
                            | (Inr _, m3) \<Rightarrow> Some (Inr (), m3)))
             }))"

text \<open>\<open>device_ready\<close> tells whether the device manager has a device of a path.\<close>

definition fw_try_init :: "'d bus \<Rightarrow> 'd ram_ops \<Rightarrow> usize \<Rightarrow> (string \<Rightarrow> bool) \<Rightarrow> device_tree \<Rightarrow> nat \<Rightarrow> ('d, 'h, 'z) fw_machine_scheme
    \<Rightarrow> ((driver_init_error + unit) \<times> ('d, 'h, 'z) fw_machine_scheme) option" where
  "fw_try_init bus ram va device_ready dt node m =
     (case Option.bind (unknown_prop ''mboxes'' (dt_node_at dt node)) (\<lambda>v. of_result (value_as_phandle v)) of
        None \<Rightarrow> Some (Inl DeviceTreeError, m)
      | Some mboxes_phandle \<Rightarrow>
          (case node_by_phandle dt mboxes_phandle of
             None \<Rightarrow> Some (Inl DeviceFailed, m)
           | Some mbox_node \<Rightarrow> do {
               mbox_path \<leftarrow> node_path dt mbox_node;
               if \<not> device_ready mbox_path then Some (Inl Retry, m)
               else do {
                 path \<leftarrow> node_path dt node;
                 let i = length (fw_devices m);
                 (r, m1) \<leftarrow> fw_global_setup bus ram va i (m\<lparr>fw_devices := fw_devices m @ [\<lparr>fd_id = path, fd_mbox = None\<rparr>]\<rparr>);
                 (case r of
                    Inl e \<Rightarrow> Some (Inl e, m1)
                  | Inr _ \<Rightarrow> Some (Inr (), m1\<lparr>fw_registry := add_device path i (fw_registry m1)\<rparr>))
               }
             }))"

section \<open>The other side\<close>

text \<open>The VideoCore as the property interface documents it, for the theorems below: it keeps memory by physical address,
  and a word for channel 8 in mailbox 1 makes it answer every tag of the message at the address in place, mark the tags and the
  message, and send the word back. \<open>answer\<close> gives the values for a tag.\<close>

record videocore =
  vc_mem :: "usize \<Rightarrow> u32"
  vc_inbox :: "u32 list"

fun put_words :: "usize \<Rightarrow> u32 list \<Rightarrow> (usize \<Rightarrow> u32) \<Rightarrow> usize \<Rightarrow> u32" where
  "put_words a [] mem = mem"
| "put_words a (w # ws) mem = put_words (a + 4) ws (mem(a := w))"

definition words_at :: "usize \<Rightarrow> nat \<Rightarrow> (usize \<Rightarrow> u32) \<Rightarrow> u32 list" where
  "words_at a n mem = map (\<lambda>k. mem (a + of_nat (4 * k))) [0..<n]"

definition respond_tag :: "(u32 \<Rightarrow> u32 list \<Rightarrow> u32 list) \<Rightarrow> tag \<Rightarrow> tag" where
  "respond_tag answer t = t\<lparr>tg_req_res_code := 0x80000000 OR tg_value_buffer_size t,
     tg_value_buffer := answer (tg_identifier t) (tg_value_buffer t)\<rparr>"

definition respond :: "(u32 \<Rightarrow> u32 list \<Rightarrow> u32 list) \<Rightarrow> u32 list \<Rightarrow> u32 list" where
  "respond answer ws =
     (case ws of
        sz # code # data \<Rightarrow>
          (case parse_tags data of
             None \<Rightarrow> sz # RESPONSE_CODE_ERROR # data
           | Some ts \<Rightarrow> (let tags = concat (map (tag_words \<circ> respond_tag answer) ts)
                         in sz # RESPONSE_CODE_SUCCESS # tags @ drop (length tags) data))
      | _ \<Rightarrow> ws)"

definition vc_serve :: "(u32 \<Rightarrow> u32 list \<Rightarrow> u32 list) \<Rightarrow> u32 \<Rightarrow> videocore \<Rightarrow> videocore" where
  "vc_serve answer w d =
     (if w AND 15 = MBOX_0_CH_8_ARM_VC_TAGS
      then let a = ucast (w AND NOT 15); n = unat (vc_mem d a) div 4
           in d\<lparr>vc_mem := put_words a (respond answer (words_at a n (vc_mem d))) (vc_mem d), vc_inbox := vc_inbox d @ [w]\<rparr>
      else d)"

definition vc_bus :: "(u32 \<Rightarrow> u32 list \<Rightarrow> u32 list) \<Rightarrow> usize \<Rightarrow> videocore bus" where
  "vc_bus answer base = \<lparr>
     bus_read = (\<lambda>a d. if a = base + MBOX_STATUS_OFFSET then (if vc_inbox d = [] then MBOX_STATUS_EMPTY else 0, d)
                        else if a = base + MBOX_RW_OFFSET \<and> vc_inbox d \<noteq> [] then (hd (vc_inbox d), d\<lparr>vc_inbox := tl (vc_inbox d)\<rparr>)
                        else (0, d)),
     bus_write = (\<lambda>a v d. if a = base + MBOX_1_REG_OFFSET then vc_serve answer v d else d)\<rparr>"

definition vc_ram :: "videocore ram_ops" where
  "vc_ram = \<lparr>ram_store = (\<lambda>va w d. d\<lparr>vc_mem := (vc_mem d)(virt_to_phys va := w)\<rparr>), ram_load = (\<lambda>va d. vc_mem d (virt_to_phys va))\<rparr>"


subsection \<open>Words in memory\<close>

lemma of_nat_4_inj: "4 * k < 2 ^ 64 \<Longrightarrow> 4 * j < 2 ^ 64 \<Longrightarrow> (of_nat (4 * k) :: usize) = of_nat (4 * j) \<longleftrightarrow> k = j"
proof -
  assume "4 * k < 2 ^ 64" "4 * j < 2 ^ 64"
  then have "unat (of_nat (4 * k) :: usize) = 4 * k" "unat (of_nat (4 * j) :: usize) = 4 * j"
    by (simp_all add: unsigned_of_nat take_bit_nat_eq_self del: of_nat_mult)
  then show ?thesis by (metis mult_left_cancel zero_neq_numeral)
qed

lemma put_words_other:
  "(\<forall>k < length ws. x \<noteq> a + of_nat (4 * k)) \<Longrightarrow> put_words a ws mem x = mem x"
proof (induction ws arbitrary: a mem)
  case (Cons w ws)
  have "x \<noteq> (a + 4) + of_nat (4 * k)" if "k < length ws" for k
    using Cons.prems that by (auto dest: spec [of _ "Suc k"] simp: algebra_simps)
  then have "put_words (a + 4) ws (mem(a := w)) x = (mem(a := w)) x" by (intro Cons.IH) blast
  moreover have "x \<noteq> a" using Cons.prems by (auto dest: spec [of _ 0])
  then have "(mem(a := w)) x = mem x" by simp
  ultimately show ?case by (simp only: put_words.simps)
qed simp

lemma put_words_at:
  "4 * length ws < 2 ^ 64 \<Longrightarrow> k < length ws \<Longrightarrow> put_words a ws mem (a + of_nat (4 * k)) = ws ! k"
proof (induction ws arbitrary: a mem k)
  case (Cons w ws)
  show ?case
  proof (cases k)
    case 0
    have "a \<noteq> (a + 4) + of_nat (4 * j)" if "j < length ws" for j
      using of_nat_4_inj [of 0 "Suc j"] that Cons.prems(1) by (auto simp: algebra_simps)
    then show ?thesis using 0 put_words_other [of ws a "a + 4" "mem(a := w)"] by simp
  next
    case (Suc j)
    have "a + of_nat (4 * k) = (a + 4) + of_nat (4 * j)" by (simp add: Suc algebra_simps)
    moreover have "put_words (a + 4) ws (mem(a := w)) ((a + 4) + of_nat (4 * j)) = ws ! j"
      using Suc Cons.prems by (intro Cons.IH) simp_all
    ultimately show ?thesis by (simp only: put_words.simps Suc nth_Cons_Suc)
  qed
qed simp

lemma words_at_put [simp]: "4 * length ws < 2 ^ 64 \<Longrightarrow> words_at a (length ws) (put_words a ws mem) = ws"
  by (rule nth_equalityI) (simp_all add: words_at_def put_words_at del: of_nat_mult)

lemma words_at_Suc: "words_at a (Suc n) mem = mem a # words_at (a + 4) n mem"
  by (simp add: words_at_def upt_conv_Cons map_Suc_upt [symmetric] algebra_simps comp_def del: upt_Suc)

text \<open>Addresses in the linear map.\<close>

definition linear :: "usize \<Rightarrow> nat \<Rightarrow> bool" where
  "linear p n \<longleftrightarrow> unat p + 4 * n \<le> 2 ^ 32"

lemma linear_step: "linear p (Suc n) \<Longrightarrow> linear (p + 4) n \<and> phys_to_virt p + 4 = phys_to_virt (p + 4)"
proof -
  assume "linear p (Suc n)"
  then have p: "unat p + 4 + 4 * n \<le> 2 ^ 32" by (simp add: linear_def)
  then have "unat (p + 4) = unat p + 4" by (subst unat_add_lem [THEN iffD1]) (simp_all add: unat_plus_simple)
  with p show ?thesis by (simp add: linear_def phys_to_virt_def algebra_simps)
qed

lemma linear_phys: "linear p (Suc n) \<Longrightarrow> virt_to_phys (phys_to_virt p) = p"
  by (rule virt_to_phys_to_virt) (simp add: linear_def map_layout_defs)

lemma store_words_vc:
  "linear p (length ws) \<Longrightarrow> store_words vc_ram (phys_to_virt p) ws d = d\<lparr>vc_mem := put_words p ws (vc_mem d)\<rparr>"
proof (induction ws arbitrary: p d)
  case (Cons w ws)
  then have "linear (p + 4) (length ws)" "phys_to_virt p + 4 = phys_to_virt (p + 4)" "virt_to_phys (phys_to_virt p) = p"
    using linear_step [of p "length ws"] linear_phys [of p "length ws"] by simp_all
  with Cons.IH [of "p + 4"] show ?case by (simp add: vc_ram_def)
qed simp

lemma load_words_vc: "linear p n \<Longrightarrow> load_words vc_ram (phys_to_virt p) n d = words_at p n (vc_mem d)"
proof (induction n arbitrary: p)
  case (Suc n)
  then show ?case
    using linear_step [of p n] linear_phys [of p n] by (simp add: words_at_Suc vc_ram_def)
qed (simp add: words_at_def)

lemma load_message_vc:
  assumes "linear p (2 + n)" "words_at p (2 + n) (vc_mem d) = sz # code # data"
  shows "load_message vc_ram (phys_to_virt p) n d = \<lparr>ms_size = sz, ms_req_res_code = code, ms_data = data\<rparr>"
proof -
  have "load_words vc_ram (phys_to_virt p) (Suc (Suc n)) d = sz # code # data"
    using assms load_words_vc [of p "2 + n" d] by simp
  then show ?thesis by (simp add: load_message_def algebra_simps)
qed

subsection \<open>A call is answered\<close>

lemma message_address:
  assumes "p AND mask 4 = 0" "unat p < 2 ^ 32"
  shows "(ucast p OR MBOX_0_CH_8_ARM_VC_TAGS) AND 15 = MBOX_0_CH_8_ARM_VC_TAGS"
    "ucast ((ucast p OR MBOX_0_CH_8_ARM_VC_TAGS) AND NOT 15) = (p :: usize)"
proof -
  have fifteen: "(15 :: u32) = mask 4" by (simp add: mask_eq_exp_minus_1)
  have eight: "bit MBOX_0_CH_8_ARM_VC_TAGS n \<longleftrightarrow> n = 3" for n
  proof -
    have eq: "MBOX_0_CH_8_ARM_VC_TAGS = 2 ^ 3" by (simp add: MBOX_0_CH_8_ARM_VC_TAGS_def)
    show ?thesis unfolding eq bit_exp_iff by auto
  qed
  have low: "\<not> bit p n" if "n < 4" for n
  proof -
    have "\<not> bit (p AND mask 4) n" by (simp add: assms(1))
    with that show ?thesis by (simp add: bit_and_iff bit_mask_iff)
  qed
  have high: "n < 32" if "bit p n" for n
  proof (rule ccontr)
    assume "\<not> n < 32"
    moreover have "take_bit 32 p = p" using assms(2) by (simp add: word_unat_eq_iff unsigned_take_bit_eq take_bit_nat_eq_self)
    ultimately show False using that by (metis bit_take_bit_iff)
  qed
  show "(ucast p OR MBOX_0_CH_8_ARM_VC_TAGS) AND 15 = MBOX_0_CH_8_ARM_VC_TAGS"
    unfolding fifteen by (rule bit_word_eqI) (use low in \<open>auto simp: bit_simps eight\<close>)
  show "ucast ((ucast p OR MBOX_0_CH_8_ARM_VC_TAGS) AND NOT 15) = p"
    unfolding fifteen by (rule bit_word_eqI) (use low high in \<open>auto simp: bit_simps eight not_less dest: leI\<close>)
qed

definition fw_ready :: "usize \<Rightarrow> nat \<Rightarrow> nat \<Rightarrow> (videocore, 'h, 'z) fw_machine_scheme \<Rightarrow> bool" where
  "fw_ready base mb i m \<longleftrightarrow> mb < length (mx_devices m) \<and> mx_reg_base (mx_dev mb m) = base \<and> mx_enabled (mx_dev mb m)
     \<and> mx_queue (mx_dev mb m) = [] \<and> vc_inbox (bd_regs (mx_board m)) = [] \<and> fd_mbox (fw_dev i m) = Some mb"

text \<open>The data of a message that the firmware has answered.\<close>

definition keeps_lengths :: "(u32 \<Rightarrow> u32 list \<Rightarrow> u32 list) \<Rightarrow> bool" where
  "keeps_lengths answer \<longleftrightarrow> (\<forall>i vs. length (answer i vs) = length vs)"

definition answered_data :: "(u32 \<Rightarrow> u32 list \<Rightarrow> u32 list) \<Rightarrow> nat \<Rightarrow> tag list \<Rightarrow> u32 list" where
  "answered_data answer words ts =
     (let tags = concat (map (tag_words \<circ> respond_tag answer) ts) in tags @ END_TAG # replicate (words - length tags - 1) 0)"

lemma length_responded:
  assumes "keeps_lengths answer"
  shows "length (concat (map (tag_words \<circ> respond_tag answer) ts)) = length (concat (map tag_words ts))"
  using assms by (induction ts) (simp_all add: respond_tag_def keeps_lengths_def)

lemma respond_message:
  assumes "keeps_lengths answer" "\<forall>t \<in> set ts. tag_ok t" "length (concat (map tag_words ts)) < words"
  shows "respond answer (message_words (message_of words (concat (map tag_words ts))))
    = of_nat ((2 + words) * 4) # RESPONSE_CODE_SUCCESS # answered_data answer words ts"
proof -
  have "drop (length (concat (map (tag_words \<circ> respond_tag answer) ts))) (concat (map tag_words ts) @ rest) = rest" for rest
    using length_responded [OF assms(1), where ts = ts] by simp
  then show ?thesis
    using length_responded [OF assms(1), where ts = ts]
    by (simp add: respond_def message_words_def message_of_def parse_all_tags [OF assms(2)] answered_data_def Let_def)
qed

lemma fw_property_answered:
  assumes answer: "keeps_lengths answer"
    and ready: "fw_ready base mb i m"
    and p: "linear p (2 + words)" "p AND mask 4 = 0" "words < 2 ^ 29"
    and ts: "\<forall>t \<in> set ts. tag_ok t" "length (concat (map tag_words ts)) < words"
  shows "\<exists>msg' m'. fw_property (vc_bus answer base) vc_ram i (phys_to_virt p) (message_of words (concat (map tag_words ts))) m
      = Some (Inr msg', m') \<and> ms_data msg' = answered_data answer words ts \<and> fw_ready base mb i m'"
proof -
  let ?msg = "message_of words (concat (map tag_words ts))" and ?bus = "vc_bus answer base"
  let ?data = "ucast p OR MBOX_0_CH_8_ARM_VC_TAGS :: u32"
  define ws where "ws = message_words ?msg"
  define ws' where "ws' = of_nat ((2 + words) * 4) # RESPONSE_CODE_SUCCESS # answered_data answer words ts"
  have len: "length ws = 2 + words" "length ws' = 2 + words" "length (ms_data ?msg) = words"
    using ts(2) length_responded [OF answer, where ts = ts]
    by (simp_all add: ws_def ws'_def message_words_def message_of_def answered_data_def Let_def)
  have small: "4 * (2 + words) < 2 ^ 32" "unat p < 2 ^ 32" using p by (simp_all add: linear_def)
  have respond: "respond answer ws = ws'" using respond_message [OF answer ts] by (simp add: ws_def ws'_def)
  have phys: "virt_to_phys (phys_to_virt p) = p" using p(1) linear_phys [of p "1 + words"] by simp
  have dev: "mx_reg_base (mx_dev mb m) = base" "mx_enabled (mx_dev mb m)" "mx_queue (mx_dev mb m) = []" "mb < length (mx_devices m)"
    "vc_inbox (bd_regs (mx_board m)) = []" "fd_mbox (fw_dev i m) = Some mb"
    using ready by (simp_all add: fw_ready_def)
  define d where "d = bd_regs (mx_board m)"
  define d1 where "d1 = d\<lparr>vc_mem := put_words p ws (vc_mem d)\<rparr>"
  define d2 where "d2 = d1\<lparr>vc_mem := put_words p ws' (vc_mem d1)\<rparr>"
  let ?on = "\<lambda>d. m\<lparr>mx_board := (mx_board m)\<lparr>bd_regs := d\<rparr>\<rparr>"
  have stored: "on_ram (store_words vc_ram (phys_to_virt p) ws) m = ?on d1"
    using store_words_vc [of p ws d] p(1) by (simp add: on_ram_def d1_def d_def len)
  have served: "vc_serve answer ?data d1 = d2\<lparr>vc_inbox := [?data]\<rparr>"
  proof -
    have "4 * length ws < 2 ^ 64" using small by (simp add: len)
    from words_at_put [OF this] have "words_at p (length ws) (vc_mem d1) = ws" by (simp add: d1_def)
    moreover have "vc_mem d1 p = of_nat ((2 + words) * 4)"
      using put_words_at [of ws 0 p "vc_mem d"] small len by (simp add: d1_def ws_def message_words_def message_of_def)
    moreover have "unat (of_nat ((2 + words) * 4) :: u32) = (2 + words) * 4"
      using small by (intro unat_u32_of_nat) simp
    ultimately have "words_at p (unat (vc_mem d1 p) div 4) (vc_mem d1) = ws" by (simp add: len del: of_nat_mult of_nat_add)
    then show ?thesis
      using dev(5) respond message_address [OF p(2) small(2)] by (simp add: vc_serve_def Let_def d2_def d1_def d_def)
  qed
  have sent: "client_send ?bus mb ?data (?on d1) = (Inr (), ?on (d2\<lparr>vc_inbox := [?data]\<rparr>))"
    using dev served by (simp add: client_send_def mbox_ready_def mbox_send_def get_mbox_1_status_def write_mbox_1_def mbox_read_reg_def
        mbox_write_reg_def read_reg_def write_reg_def mx_dev_def vc_bus_def mbox_0_offsets d1_def d_def MBOX_STATUS_EMPTY_def MBOX_STATUS_FULL_def)
  let ?dev = "mx_dev mb m"
  define m3 where "m3 = ?on (d2\<lparr>vc_inbox := []\<rparr>)\<lparr>mx_devices := (mx_devices m)[mb := ?dev\<lparr>mx_queue := []\<rparr>]\<rparr>"
  have received: "receive_blocking ?bus mb (?on (d2\<lparr>vc_inbox := [?data]\<rparr>)) = Some (Inr ?data, m3)"
    using dev by (subst receive_blocking.simps)
      (simp add: mbox_receive_def get_mbox_0_status_def read_mbox_0_def mbox_read_reg_def read_reg_def mx_dev_def vc_bus_def
        mbox_0_offsets push_back_def update_mbox_def m3_def)
  have "words_at p (2 + words) (vc_mem d2) = ws'"
    using words_at_put [of ws' p "vc_mem d1"] small len by (simp add: d2_def)
  then have loaded: "load_message vc_ram (phys_to_virt p) words (bd_regs (mx_board m3))
      = \<lparr>ms_size = of_nat ((2 + words) * 4), ms_req_res_code = RESPONSE_CODE_SUCCESS, ms_data = answered_data answer words ts\<rparr>"
    using p(1) by (intro load_message_vc) (simp_all add: m3_def ws'_def)
  have "fw_ready base mb i m3" using dev by (simp add: fw_ready_def m3_def mx_dev_def fw_dev_def)
  then show ?thesis
    using dev(6) stored sent received loaded len(3) phys
    by (simp add: fw_property_def ws_def [symmetric] fw_dev_def)
qed

lemma fw_ask_new:
  assumes "keeps_lengths answer" "fw_ready base mb i m"
    and "linear p (2 + words)" "p AND mask 4 = 0" "words < 2 ^ 29"
    and "tag_ok t" "const_checks (length (tg_value_buffer t)) words"
  shows "\<exists>m'. fw_ask (vc_bus answer base) vc_ram i (phys_to_virt p) (message_new words t) f m
      = Some (f (answered_data answer words [t]), m') \<and> fw_ready base mb i m'"
proof -
  have "\<forall>t' \<in> set [t]. tag_ok t'" "length (concat (map tag_words [t])) < words" using assms(6,7) by (simp_all add: const_checks_def)
  from fw_property_answered [OF assms(1-5) this] show ?thesis
    by (auto simp: fw_ask_def message_new_data [OF assms(7)])
qed

lemma nth_answered [simp]:
  "answered_data answer words (t # ts) ! Suc (Suc (Suc k)) =
     (if k < length (tg_value_buffer (respond_tag answer t)) then tg_value_buffer (respond_tag answer t) ! k
      else (concat (map (tag_words \<circ> respond_tag answer) ts)
            @ END_TAG # replicate (words - length (concat (map (tag_words \<circ> respond_tag answer) (t # ts))) - 1) 0) ! (k - length (tg_value_buffer (respond_tag answer t))))"
  by (simp add: answered_data_def Let_def tag_words_def nth_append)


definition example_answer :: "u32 \<Rightarrow> u32 list \<Rightarrow> u32 list" where
  "example_answer i vs =
     (if i = FRAMEBUFFER_ALLOCATE_BUFFER then take (length vs) ([0xfeb00000, 0x7e9000] @ vs)
      else if i = FRAMEBUFFER_GET_PITCH then map (\<lambda>_. 7680) vs else vs)"

definition example_fw_machine :: "(videocore, unit) fw_machine" where
  "example_fw_machine = \<lparr>mx_board = \<lparr>bd_regs = \<lparr>vc_mem = (\<lambda>_. 0), vc_inbox = []\<rparr>, bd_irqs = irq_tables_new,
       bd_virq_bases = Map.empty, bd_mmu = example_mmu, bd_core = 0, bd_l1_devices = registry_new, bd_armctrl_devices = registry_new\<rparr>,
     mx_devices = [(mbox_device_new ''mbox'' 0x7000)\<lparr>mx_enabled := True\<rparr>], mx_client = None, mx_registry = registry_new,
     fw_devices = [\<lparr>fd_id = ''firmware'', fd_mbox = Some 0\<rparr>], fw_system = None, fw_registry = registry_new\<rparr>"


end
