(* ===== verification/Framebuffer.thy ===== *)
theory Framebuffer
  imports Fb_Console Firmware Boot_World
begin

text \<open>The driver of the frame buffer (\<open>drivers/display/bcm2708_fb.rs\<close>), which asks the firmware for one, checks its geometry and
  puts a console on it, and the command that prints the counters of the console and of the DMA engine. \<open>video\<close> is
  what the page tables make of the video memory.\<close>

record ('d, 'h, 'e) fb_machine = "('d, 'h) fw_machine" +
  fbm_world :: "'e fb_world"
  fbm_consoles :: "(string \<times> framebuffer \<times> fb_console) list"
  fbm_system :: "framebuffer option"
  fbm_registry :: "framebuffer registry"
  fbm_stats_registered :: bool


section \<open>The counters\<close>

definition hex_digit :: "nat \<Rightarrow> char" where
  "hex_digit d = char_of (if d < 10 then 48 + d else 87 + d)"

fun hex_of_nat :: "nat \<Rightarrow> string" where
  "hex_of_nat n = (if n < 16 then [hex_digit n] else hex_of_nat (n div 16) @ [hex_digit (n mod 16)])"

declare hex_of_nat.simps [simp del]

definition dma_error_text :: "u32 \<Rightarrow> string" where
  "dma_error_text code =
     (if code = 1 then ''timeout'' else if code = 2 then ''fault'' else if code = 3 then ''invalid'' else if code = 4 then ''busy''
      else ''none'')"

definition dec :: "u32 \<Rightarrow> string" where "dec n = dec_of_nat (unat n)"

definition fb_stats_message :: "fb_stats \<Rightarrow> dma_stats \<Rightarrow> string" where
  "fb_stats_message f d =
     ''fb: scrolls='' @ dec (fs_scrolls f) @ '' dma_attempts='' @ dec (fs_dma_attempts f) @ '' dma_ok='' @ dec (fs_dma_successes f)
     @ '' no_engine='' @ dec (fs_no_engine_fallbacks f) @ '' busy='' @ dec (fs_busy_fallbacks f) @ '' error='' @ dec (fs_error_fallbacks f)
     @ '' disabled='' @ dec (fs_disabled_fallbacks f) @ '' last='' @ fb_dma_error_name (fs_last_dma_error f) @ newline
     @ ''dma: started='' @ dec (ds_transfers_started d) @ '' irq_ok='' @ dec (ds_irq_completions d) @ '' poll_ok='' @ dec (ds_poll_completions d)
     @ '' timeouts='' @ dec (ds_timeouts d) @ '' faults='' @ dec (ds_faults d) @ '' busy='' @ dec (ds_busy_errors d)
     @ '' invalid='' @ dec (ds_invalid_errors d) @ '' last_cs=0x'' @ zero_padded 8 (hex_of_nat (unat (ds_last_cs d)))
     @ '' last_dbg=0x'' @ zero_padded 8 (hex_of_nat (unat (ds_last_debug d))) @ '' last='' @ dma_error_text (ds_last_error d) @ newline"

text \<open>The command; \<open>get_dma\<close> and \<open>reset_dma\<close> are \<open>get_stats\<close> and \<open>reset_stats\<close> on the state of the engine.\<close>

definition fbstats_command :: "('o, ('d, 'h, 'e, 'y) fb_machine_scheme) output_ops \<Rightarrow> ('e \<Rightarrow> dma_stats) \<Rightarrow> ('e \<Rightarrow> 'e) \<Rightarrow> string list
    \<Rightarrow> ('o, 'i, 'l, ('d, 'h, 'e, 'y) fb_machine_scheme, 'z) term_world_scheme
    \<Rightarrow> ('o, 'i, 'l, ('d, 'h, 'e, 'y) fb_machine_scheme, 'z) term_world_scheme" where
  "fbstats_command ops get_dma reset_dma args w =
     (case tw_terminal w of
        None \<Rightarrow> w
      | Some t \<Rightarrow>
          let m = tw_machine w; world = fbm_world m
          in if ''-r'' \<in> set args
             then terminal_write ops t (bytes_of_str (''fbstats reset'' @ newline))
                    (w\<lparr>tw_machine := m\<lparr>fbm_world := (fb_stat reset_fb_stats world)\<lparr>fw_engine := reset_dma (fw_engine world)\<rparr>\<rparr>\<rparr>)
             else terminal_write ops t (bytes_of_str (fb_stats_message (fw_stats world) (get_dma (fw_engine world)))) w)"

text \<open>\<open>register_stats_command\<close>; \<open>k\<close> stands for the command.\<close>

definition register_stats_command :: "'k \<Rightarrow> ('o, 'i, 'l, ('d, 'h, 'e, 'y) fb_machine_scheme, 'k, 'r, 'z) shell_world_scheme
    \<Rightarrow> ('o, 'i, 'l, ('d, 'h, 'e, 'y) fb_machine_scheme, 'k, 'r, 'z) shell_world_scheme" where
  "register_stats_command k w =
     (if fbm_stats_registered (tw_machine w) then w
      else register_command \<lparr>sc_name = ''fbstats'', sc_description = ''Show framebuffer scroll and DMA stats (-r resets)'', sc_handler = k\<rparr>
             (w\<lparr>tw_machine := (tw_machine w)\<lparr>fbm_stats_registered := True\<rparr>\<rparr>))"


section \<open>The driver\<close>

definition strip_vc_bus_alias :: "u32 \<Rightarrow> usize" where
  "strip_vc_bus_alias bus_addr = ucast (bus_addr AND 0x3fffffff)"

definition bcm2708_fb_new :: "string \<Rightarrow> usize \<Rightarrow> framebuffer_info \<Rightarrow> framebuffer" where
  "bcm2708_fb_new i va info = \<lparr>fb_id = i, fb_va = va, fb_bus_addr = fi_bus_addr info, fb_width = fi_width info,
     fb_height = fi_height info, fb_pitch = fi_pitch info, fb_depth = fi_depth info\<rparr>"

definition register_framebuffer :: "framebuffer \<Rightarrow> ('d, 'h, 'e, 'y) fb_machine_scheme \<Rightarrow> (unit + unit) \<times> ('d, 'h, 'e, 'y) fb_machine_scheme" where
  "register_framebuffer fb m = (case fbm_system m of Some _ \<Rightarrow> (Inl (), m) | None \<Rightarrow> (Inr (), m\<lparr>fbm_system := Some fb\<rparr>))"

text \<open>\<open>out\<close> makes the device of the terminal that stands for a console.\<close>

definition fb_global_setup :: "('o, ('d, 'h, 'e, 'y) fb_machine_scheme) output_ops \<Rightarrow> 'k \<Rightarrow> (nat \<Rightarrow> 'o) \<Rightarrow> framebuffer
    \<Rightarrow> ('o, 'i, 'l, ('d, 'h, 'e, 'y) fb_machine_scheme, 'k, 'r, 'z) boot_world_scheme
    \<Rightarrow> ((driver_init_error + unit) \<times> ('o, 'i, 'l, ('d, 'h, 'e, 'y) fb_machine_scheme, 'k, 'r, 'z) boot_world_scheme) option" where
  "fb_global_setup ops k out fb w =
     (case register_framebuffer fb (tw_machine w) of
        (Inl _, m) \<Rightarrow> Some (Inl DeviceFailed, w\<lparr>tw_machine := m\<rparr>)
      | (Inr _, m) \<Rightarrow> do {
          (console, world) \<leftarrow> fb_console_new fb (fbm_world m);
          let i = length (fbm_consoles m);
          let m1 = m\<lparr>fbm_world := world, fbm_consoles := fbm_consoles m @ [(fb_id fb @ ''/console'', fb, console)]\<rparr>;
          let w1 = register_output (out i) (register_stats_command k (w\<lparr>tw_machine := m1\<rparr>));
          w2 \<leftarrow> in_log (register_console ops (out i)) w1;
          Some (Inr (), w2)
        })"

text \<open>The test of the geometry. The product of width and depth wraps; that of height and pitch is checked.\<close>

definition fb_geometry_ok :: "framebuffer_info \<Rightarrow> bool" where
  "fb_geometry_ok info \<longleftrightarrow> \<not> (fi_width info * 4 > fi_pitch info)
     \<and> unat (fi_height info) * unat (fi_pitch info) < 2 ^ 32 \<and> fi_height info * fi_pitch info \<le> fi_size info"

definition fb_try_init :: "'d bus \<Rightarrow> 'd ram_ops \<Rightarrow> usize \<Rightarrow> usize \<Rightarrow> (mmu \<Rightarrow> vram \<Rightarrow> vram) \<Rightarrow> (string \<Rightarrow> bool)
    \<Rightarrow> ('o, ('d, 'h, 'e, 'y) fb_machine_scheme) output_ops \<Rightarrow> 'k \<Rightarrow> (nat \<Rightarrow> 'o) \<Rightarrow> device_tree \<Rightarrow> nat
    \<Rightarrow> ('o, 'i, 'l, ('d, 'h, 'e, 'y) fb_machine_scheme, 'k, 'r, 'z) boot_world_scheme
    \<Rightarrow> ((driver_init_error + unit) \<times> ('o, 'i, 'l, ('d, 'h, 'e, 'y) fb_machine_scheme, 'k, 'r, 'z) boot_world_scheme) option" where
  "fb_try_init bus ram va va' video device_ready ops k out dt node w =
     (case Option.bind (unknown_prop ''firmware'' (dt_node_at dt node)) (\<lambda>v. of_result (value_as_phandle v)) of
        None \<Rightarrow> Some (Inl DeviceTreeError, w)
      | Some firmware_phandle \<Rightarrow>
          (case node_by_phandle dt firmware_phandle of
             None \<Rightarrow> Some (Inl DeviceFailed, w)
           | Some fw_node \<Rightarrow> do {
               fw_path \<leftarrow> node_path dt fw_node;
               if \<not> device_ready fw_path then Some (Inl Retry, w)
               else (case get_rpi_firmware (tw_machine w) of
                 None \<Rightarrow> Some (Inl DeviceFailed, w)
               | Some firmware \<Rightarrow> do {
                   let (width, height) = (case get_preferred_resolution of Some r \<Rightarrow> r | None \<Rightarrow> (1920, 1080));
                   (r, m) \<leftarrow> init_framebuffer bus ram firmware va va' width height 32 (tw_machine w);
                   let w1 = w\<lparr>tw_machine := m\<rparr>;
                   (case r of
                      Inl _ \<Rightarrow> Some (Inl DeviceFailed, w1)
                    | Inr info \<Rightarrow>
                        if fi_depth info \<noteq> 32 then Some (Inl DeviceFailed, w1)
                        else if \<not> fb_geometry_ok info then Some (Inl DeviceFailed, w1)
                        else do {
                          let phys_addr = strip_vc_bus_alias (fi_bus_addr info);
                          (fb_va, mmu) \<leftarrow> map_io_region phys_addr (ucast (fi_size info)) (bd_mmu (mx_board m));
                          path \<leftarrow> node_path dt node;
                          let fb = bcm2708_fb_new path fb_va info;
                          let m1 = m\<lparr>mx_board := (mx_board m)\<lparr>bd_mmu := mmu\<rparr>,
                                     fbm_world := (fbm_world m)\<lparr>fw_vram := video mmu (fw_vram (fbm_world m))\<rparr>\<rparr>;
                          (r', w2) \<leftarrow> fb_global_setup ops k out fb (w1\<lparr>tw_machine := m1\<rparr>);
                          Some (case r' of
                             Inl e \<Rightarrow> (Inl e, w2)
                           | Inr _ \<Rightarrow> (Inr (), w2\<lparr>tw_machine := (tw_machine w2)\<lparr>fbm_registry := add_device path fb (fbm_registry (tw_machine w2))\<rparr>\<rparr>))
                        })
                 })
             }))"

text \<open>C36: A geometry that passes the test of the driver, below a width of \<open>2 ^ 30\<close>, keeps every pixel that is drawn inside the
  region that is mapped: its four bytes end before the size the firmware reported.\<close>

theorem accepted_pixels_in_region:
  assumes "fb_geometry_ok info" "unat (fi_width info) < 2 ^ 30"
    and "x < unat (fi_width info)" "y < unat (fi_height info)"
  shows "unat (pixel_va (bcm2708_fb_new i va info) x y - va) + 4 \<le> unat (fi_size info)"
proof -
  let ?p = "unat (fi_pitch info)" and ?h = "unat (fi_height info)" and ?w = "unat (fi_width info)"
  have wide: "?w * 4 \<le> ?p"
    using assms(1,2) by (simp add: fb_geometry_ok_def not_less word_le_nat_alt unat_word_ariths)
  have total: "?h * ?p < 2 ^ 32" and "fi_height info * fi_pitch info \<le> fi_size info"
    using assms(1) by (simp_all add: fb_geometry_ok_def)
  then have size: "?h * ?p \<le> unat (fi_size info)" by (simp add: word_le_nat_alt unat_word_ariths)
  let ?k = "4 * (y * (?p div 4) + x)"
  have row: "y * ?p + ?p \<le> ?h * ?p" using assms(4) mult_le_mono1 [of "Suc y" ?h ?p] by simp
  have "4 * (y * (?p div 4)) \<le> y * ?p" by simp
  then have k: "?k + 4 \<le> ?h * ?p" using row wide assms(3) unfolding distrib_left by linarith
  then have "unat (of_nat ?k :: usize) = ?k" using total by (simp add: unsigned_of_nat take_bit_nat_eq_self del: of_nat_mult of_nat_add)
  then show ?thesis using k size by (simp add: pixel_va_def bcm2708_fb_new_def del: of_nat_mult of_nat_add)
qed

theorem accepted_pixels_in_region_witness:
  "let info = \<lparr>fi_bus_addr = 0xfeb00000, fi_size = 0x7e9000, fi_pitch = 7680, fi_width = 1920, fi_height = 1080, fi_depth = 32\<rparr>
   in unat (pixel_va (bcm2708_fb_new ''fb'' 0xffffd0003eb00000 info) 1919 1079 - 0xffffd0003eb00000) + 4 \<le> 0x7e9000"
proof -
  let ?info = "\<lparr>fi_bus_addr = 0xfeb00000, fi_size = 0x7e9000, fi_pitch = 7680, fi_width = 1920, fi_height = 1080, fi_depth = 32\<rparr>"
  have "fb_geometry_ok ?info" by (simp add: fb_geometry_ok_def)
  from accepted_pixels_in_region [OF this, of 1919 1079] show ?thesis by (simp add: Let_def)
qed

text \<open>Above it the product wraps, and a frame buffer is accepted whose rows are far longer than its pitch.\<close>

lemma geometry_accepts_overflow:
  "fb_geometry_ok \<lparr>fi_bus_addr = b, fi_size = 4096, fi_pitch = 4, fi_width = 0x40000001, fi_height = 1, fi_depth = 32\<rparr>"
  by (simp add: fb_geometry_ok_def)

end
