(* ===== verification/Serial.thy ===== *)
theory Serial
  imports Boot_World Device_Irq
begin

text \<open>The mini UART (\<open>drivers/serial/bcm2835_aux_uart.rs\<close>): a console, an output and an input of the terminal, whose
  received bytes wait in a ring of 1024; and the early console of the driver, which writes before anything is
  set up. The lock of the ring is elided.\<close>

definition AUX_MU_IO_REG_OFFSET :: usize where "AUX_MU_IO_REG_OFFSET = 0x0"
definition AUX_MU_IER_REG_OFFSET :: usize where "AUX_MU_IER_REG_OFFSET = 0x4"
definition AUX_MU_LSR_REG_OFFSET :: usize where "AUX_MU_LSR_REG_OFFSET = 0x14"
definition TX_EMPTY :: u32 where "TX_EMPTY = push_bit 5 1"
definition RX_READY :: u32 where "RX_READY = 1"

record mini_uart =
  mu_id :: string
  mu_reg_base :: usize
  mu_buffer :: "u8 ring"

definition mini_uart_new :: "string \<Rightarrow> usize \<Rightarrow> mini_uart" where
  "mini_uart_new i reg_base = \<lparr>mu_id = i, mu_reg_base = reg_base, mu_buffer = ring_new 1024 0\<rparr>"

text \<open>The machine: the board, the devices made so far, which references name by their positions, the registry and the base of
  the early console.\<close>

record ('d, 'h) uart_machine =
  ut_board :: "('d, 'h) board"
  ut_devices :: "mini_uart list"
  ut_registry :: "nat registry"
  ut_early_reg_base :: usize

definition ut_dev :: "nat \<Rightarrow> ('d, 'h, 'z) uart_machine_scheme \<Rightarrow> mini_uart" where
  "ut_dev i m = ut_devices m ! i"

definition ut_base :: "nat \<Rightarrow> ('d, 'h, 'z) uart_machine_scheme \<Rightarrow> usize" where
  "ut_base i m = mu_reg_base (ut_dev i m)"

definition uart_read :: "'d bus \<Rightarrow> usize \<Rightarrow> ('d, 'h, 'z) uart_machine_scheme \<Rightarrow> u32 \<times> ('d, 'h, 'z) uart_machine_scheme" where
  "uart_read bus a m = (let (v, b) = read_reg bus a (ut_board m) in (v, m\<lparr>ut_board := b\<rparr>))"

definition uart_write :: "'d bus \<Rightarrow> usize \<Rightarrow> u32 \<Rightarrow> ('d, 'h, 'z) uart_machine_scheme \<Rightarrow> ('d, 'h, 'z) uart_machine_scheme" where
  "uart_write bus a v m = m\<lparr>ut_board := write_reg bus a v (ut_board m)\<rparr>"

definition read_byte :: "'d bus \<Rightarrow> usize \<Rightarrow> ('d, 'h, 'z) uart_machine_scheme \<Rightarrow> u8 option \<times> ('d, 'h, 'z) uart_machine_scheme" where
  "read_byte bus base m =
     (let (lsr, m1) = uart_read bus (base + AUX_MU_LSR_REG_OFFSET) m
      in if lsr AND RX_READY \<noteq> 0
         then let (io, m2) = uart_read bus (base + AUX_MU_IO_REG_OFFSET) m1 in (Some (ucast (io AND 0xff)), m2)
         else (None, m1))"

text \<open>The wait for an empty transmitter, for as long as it takes.\<close>

partial_function (option) wait_tx_empty :: "'d bus \<Rightarrow> usize \<Rightarrow> ('d, 'h, 'z) uart_machine_scheme \<Rightarrow> ('d, 'h, 'z) uart_machine_scheme option" where
  "wait_tx_empty bus base m =
     (let (lsr, m1) = uart_read bus (base + AUX_MU_LSR_REG_OFFSET) m
      in if lsr AND TX_EMPTY \<noteq> 0 then Some m1 else wait_tx_empty bus base m1)"

definition write_byte :: "'d bus \<Rightarrow> usize \<Rightarrow> u8 \<Rightarrow> ('d, 'h, 'z) uart_machine_scheme \<Rightarrow> ('d, 'h, 'z) uart_machine_scheme option" where
  "write_byte bus base byte m = do {
     m1 \<leftarrow> wait_tx_empty bus base m;
     Some (uart_write bus (base + AUX_MU_IO_REG_OFFSET) (ucast byte) m1)
   }"

text \<open>The early console writes first and waits then.\<close>

definition early_write_byte :: "'d bus \<Rightarrow> usize \<Rightarrow> u8 \<Rightarrow> ('d, 'h, 'z) uart_machine_scheme \<Rightarrow> ('d, 'h, 'z) uart_machine_scheme option" where
  "early_write_byte bus base byte m = wait_tx_empty bus base (uart_write bus (base + AUX_MU_IO_REG_OFFSET) (ucast byte) m)"

fun write_bytes :: "(u8 \<Rightarrow> 'm \<Rightarrow> 'm option) \<Rightarrow> u8 list \<Rightarrow> 'm \<Rightarrow> 'm option" where
  "write_bytes put [] m = Some m"
| "write_bytes put (byte # bytes) m = do {
     m1 \<leftarrow> (if byte = 0x0a then put 0x0d m else Some m);
     m2 \<leftarrow> put byte m1;
     write_bytes put bytes m2
   }"

definition uart_write_all :: "'d bus \<Rightarrow> nat \<Rightarrow> u8 list \<Rightarrow> ('d, 'h, 'z) uart_machine_scheme \<Rightarrow> ('d, 'h, 'z) uart_machine_scheme option" where
  "uart_write_all bus i bytes m = write_bytes (write_byte bus (ut_base i m)) bytes m"

definition early_write_all :: "'d bus \<Rightarrow> u8 list \<Rightarrow> ('d, 'h, 'z) uart_machine_scheme \<Rightarrow> ('d, 'h, 'z) uart_machine_scheme option" where
  "early_write_all bus bytes m = write_bytes (early_write_byte bus (ut_early_reg_base m)) bytes m"

definition set_buffer :: "nat \<Rightarrow> u8 ring \<Rightarrow> ('d, 'h, 'z) uart_machine_scheme \<Rightarrow> ('d, 'h, 'z) uart_machine_scheme" where
  "set_buffer i r m = m\<lparr>ut_devices := (ut_devices m)[i := (ut_dev i m)\<lparr>mu_buffer := r\<rparr>]\<rparr>"

definition uart_read_all :: "nat \<Rightarrow> ('d, 'h, 'z) uart_machine_scheme \<Rightarrow> (u8 list \<times> ('d, 'h, 'z) uart_machine_scheme) option" where
  "uart_read_all i m = do {
     let buffer = mu_buffer (ut_dev i m);
     (_, output, buffer') \<leftarrow> ring_drain buffer (replicate (ring_len buffer) 0);
     Some (output, set_buffer i buffer' m)
   }"

partial_function (option) uart_handle_irq :: "'d bus \<Rightarrow> nat \<Rightarrow> ('d, 'h, 'z) uart_machine_scheme \<Rightarrow> ('d, 'h, 'z) uart_machine_scheme option" where
  "uart_handle_irq bus i m =
     (case read_byte bus (ut_base i m) m of
        (None, m1) \<Rightarrow> Some m1
      | (Some byte, m1) \<Rightarrow> do {
          buffer \<leftarrow> ring_push (mu_buffer (ut_dev i m1)) byte;
          uart_handle_irq bus i (set_buffer i buffer m1)
        })"


section \<open>The driver\<close>

text \<open>\<open>handler\<close>, \<open>out\<close> and \<open>inp\<close> make the handler and the devices of the terminal that stand for a device. Without
  \<open>skip-init\<close> the code is a \<open>todo!\<close>.\<close>

type_synonym ('o, 'i, 'l, 'm, 'k, 'r, 'z) setup_result =
  "((driver_init_error + unit) \<times> ('o, 'i, 'l, 'm, 'k, 'r, 'z) boot_world_scheme) option"

definition uart_global_setup :: "'d bus \<Rightarrow> ('o, ('d, 'h, 'y) uart_machine_scheme) output_ops \<Rightarrow> (nat \<Rightarrow> 'h) \<Rightarrow> (nat \<Rightarrow> 'o) \<Rightarrow> (nat \<Rightarrow> 'i)
    \<Rightarrow> device_tree \<Rightarrow> nat \<Rightarrow> nat \<Rightarrow> ('o, 'i, 'l, ('d, 'h, 'y) uart_machine_scheme, 'k, 'r, 'z) boot_world_scheme
    \<Rightarrow> ('o, 'i, 'l, ('d, 'h, 'y) uart_machine_scheme, 'k, 'r, 'z) setup_result" where
  "uart_global_setup bus ops handler out inp dt node i w = do {
     assert_that (has_prop ''skip-init'' (dt_node_at dt node));
     let m = tw_machine w;
     let (ier, m1) = uart_read bus (ut_base i m + AUX_MU_IER_REG_OFFSET) m;
     let m2 = uart_write bus (ut_base i m + AUX_MU_IER_REG_OFFSET) (ier OR 0b0101) m1;
     irq \<leftarrow> has_interrupts (dt_node_at dt node);
     (r, b) \<leftarrow> (if irq then attach_irq bus (handler i) dt node 0 (ut_board m2) else Some (Inr (), ut_board m2));
     let w1 = w\<lparr>tw_machine := m2\<lparr>ut_board := b\<rparr>\<rparr>;
     (case r of
        Inl e \<Rightarrow> Some (Inl e, w1)
      | Inr _ \<Rightarrow> do {
          w2 \<leftarrow> in_log (register_console ops (out i)) w1;
          Some (Inr (), register_input (inp i) (register_output (out i) w2))
        })
   }"

definition uart_try_init :: "'d bus \<Rightarrow> ('o, ('d, 'h, 'y) uart_machine_scheme) output_ops \<Rightarrow> (nat \<Rightarrow> 'h) \<Rightarrow> (nat \<Rightarrow> 'o) \<Rightarrow> (nat \<Rightarrow> 'i)
    \<Rightarrow> device_tree \<Rightarrow> nat \<Rightarrow> ('o, 'i, 'l, ('d, 'h, 'y) uart_machine_scheme, 'k, 'r, 'z) boot_world_scheme
    \<Rightarrow> ('o, 'i, 'l, ('d, 'h, 'y) uart_machine_scheme, 'k, 'r, 'z) setup_result" where
  "uart_try_init bus ops handler out inp dt node w = do {
     let m = tw_machine w;
     (r, mmu) \<leftarrow> map_device_registers dt node (bd_mmu (ut_board m));
     let m1 = m\<lparr>ut_board := (ut_board m)\<lparr>bd_mmu := mmu\<rparr>\<rparr>;
     (case r of
        Inl e \<Rightarrow> Some (Inl e, w\<lparr>tw_machine := m1\<rparr>)
      | Inr addr \<Rightarrow> do {
          path \<leftarrow> node_path dt node;
          let i = length (ut_devices m1);
          (r', w1) \<leftarrow> uart_global_setup bus ops handler out inp dt node i
                       (w\<lparr>tw_machine := m1\<lparr>ut_devices := ut_devices m1 @ [mini_uart_new path addr]\<rparr>\<rparr>);
          Some (case r' of
             Inl e \<Rightarrow> (Inl e, w1)
           | Inr _ \<Rightarrow> (Inr (), w1\<lparr>tw_machine := (tw_machine w1)\<lparr>ut_registry := add_device path i (ut_registry (tw_machine w1))\<rparr>\<rparr>))
        })
   }"

text \<open>\<open>early_init\<close>: the first address wins; \<open>early\<close> stands for the driver as a console.\<close>

definition uart_early_init :: "('o, ('d, 'h, 'y) uart_machine_scheme) output_ops \<Rightarrow> 'o \<Rightarrow> fdt \<Rightarrow> string
    \<Rightarrow> ('o, 'i, 'l, ('d, 'h, 'y) uart_machine_scheme, 'k, 'r, 'z) boot_world_scheme
    \<Rightarrow> ('o, 'i, 'l, ('d, 'h, 'y) uart_machine_scheme, 'k, 'r, 'z) boot_world_scheme option" where
  "uart_early_init ops early fdt path w = do {
     resolved \<leftarrow> resolve_phys_addr fdt path;
     (case resolved of
        None \<Rightarrow> Some w
      | Some addr \<Rightarrow>
          if ut_early_reg_base (tw_machine w) = 0
          then in_log (register_early_console ops early) (w\<lparr>tw_machine := (tw_machine w)\<lparr>ut_early_reg_base := addr\<rparr>\<rparr>)
          else Some w)
   }"

section \<open>The wire\<close>

text \<open>A port that takes a byte to send whenever its transmitter is empty, which it becomes after \<open>uh_delay k\<close> more readings
  of its status when the k-th byte is written, and has the received bytes in a FIFO.\<close>

record uart_port =
  uh_rx :: "u8 list"
  uh_tx :: "u8 list"
  uh_busy :: nat
  uh_delay :: "nat \<Rightarrow> nat"

definition port_bus :: "usize \<Rightarrow> uart_port bus" where
  "port_bus base = \<lparr>
     bus_read = (\<lambda>a d. if a = base + AUX_MU_LSR_REG_OFFSET
                        then ((if uh_rx d \<noteq> [] then RX_READY else 0) OR (if uh_busy d = 0 then TX_EMPTY else 0), d\<lparr>uh_busy := uh_busy d - 1\<rparr>)
                        else if a = base + AUX_MU_IO_REG_OFFSET \<and> uh_rx d \<noteq> [] then (ucast (hd (uh_rx d)), d\<lparr>uh_rx := tl (uh_rx d)\<rparr>)
                        else (0, d)),
     bus_write = (\<lambda>a v d. if a = base + AUX_MU_IO_REG_OFFSET
                           then d\<lparr>uh_tx := uh_tx d @ [ucast v], uh_busy := uh_delay d (length (uh_tx d))\<rparr> else d)\<rparr>"

definition ut_port :: "(uart_port, 'h, 'z) uart_machine_scheme \<Rightarrow> uart_port" where
  "ut_port m = bd_regs (ut_board m)"

definition set_port :: "uart_port \<Rightarrow> (uart_port, 'h, 'z) uart_machine_scheme \<Rightarrow> (uart_port, 'h, 'z) uart_machine_scheme" where
  "set_port d m = m\<lparr>ut_board := (ut_board m)\<lparr>bd_regs := d\<rparr>\<rparr>"

lemma set_port_simps [simp]:
  "ut_port (set_port d m) = d" "ut_dev i (set_port d m) = ut_dev i m" "ut_devices (set_port d m) = ut_devices m"
  "ut_early_reg_base (set_port d m) = ut_early_reg_base m" "ut_base i (set_port d m) = ut_base i m"
  by (simp_all add: ut_port_def set_port_def ut_dev_def ut_base_def)

lemmas uart_offsets = AUX_MU_IO_REG_OFFSET_def AUX_MU_LSR_REG_OFFSET_def

lemma port_read [simp]:
  "uart_read (port_bus base) (base + AUX_MU_LSR_REG_OFFSET) m
     = ((if uh_rx (ut_port m) \<noteq> [] then RX_READY else 0) OR (if uh_busy (ut_port m) = 0 then TX_EMPTY else 0),
        set_port ((ut_port m)\<lparr>uh_busy := uh_busy (ut_port m) - 1\<rparr>) m)"
  "uh_rx (ut_port m) = b # bs \<Longrightarrow>
     uart_read (port_bus base) (base + AUX_MU_IO_REG_OFFSET) m = (ucast b, set_port ((ut_port m)\<lparr>uh_rx := bs\<rparr>) m)"
  "uart_write (port_bus base) (base + AUX_MU_IO_REG_OFFSET) v m
     = set_port ((ut_port m)\<lparr>uh_tx := uh_tx (ut_port m) @ [ucast v], uh_busy := uh_delay (ut_port m) (length (uh_tx (ut_port m)))\<rparr>) m"
  by (simp_all add: uart_read_def uart_write_def read_reg_def write_reg_def port_bus_def uart_offsets ut_port_def set_port_def)

lemmas status_bits = RX_READY_def TX_EMPTY_def

lemma wait_tx_empty_port:
  "\<exists>m'. wait_tx_empty (port_bus base) base m = Some m' \<and> m' = set_port ((ut_port m)\<lparr>uh_busy := 0\<rparr>) m"
proof (induction "uh_busy (ut_port m)" arbitrary: m)
  case 0
  then show ?case by (subst wait_tx_empty.simps) (simp add: set_port_def status_bits)
next
  case (Suc n)
  let ?m = "set_port ((ut_port m)\<lparr>uh_busy := n\<rparr>) m"
  have step: "wait_tx_empty (port_bus base) base m = wait_tx_empty (port_bus base) base ?m"
    by (subst wait_tx_empty.simps) (simp add: Suc.hyps(2) [symmetric] status_bits)
  from Suc.hyps(1) [of ?m] show ?case unfolding step by (simp add: set_port_def ut_port_def)
qed

text \<open>What the bytes become on the wire.\<close>

definition crlf :: "u8 list \<Rightarrow> u8 list" where
  "crlf bytes = concat (map (\<lambda>b. if b = 0x0a then [0x0d, 0x0a] else [b]) bytes)"

text \<open>A way to put a byte on the wire.\<close>

definition sends :: "(u8 \<Rightarrow> (uart_port, 'h, 'z) uart_machine_scheme \<Rightarrow> (uart_port, 'h, 'z) uart_machine_scheme option) \<Rightarrow> bool" where
  "sends put \<longleftrightarrow> (\<forall>b m. \<exists>d. put b m = Some (set_port d m) \<and> uh_tx d = uh_tx (ut_port m) @ [b] \<and> uh_rx d = uh_rx (ut_port m))"

lemma ucast_u8_u32 [simp]: "ucast (ucast (b :: u8) :: u32) = b"
  by (rule bit_word_eqI) (auto simp: bit_simps)

lemma write_byte_sends: "sends (write_byte (port_bus base) base)" "sends (early_write_byte (port_bus base) base)"
proof -
  show "sends (write_byte (port_bus base) base)"
    unfolding sends_def
  proof (intro allI)
    fix b :: u8 and m :: "(uart_port, 'h, 'z) uart_machine_scheme"
    from wait_tx_empty_port [of base m] show "\<exists>d. write_byte (port_bus base) base b m = Some (set_port d m)
        \<and> uh_tx d = uh_tx (ut_port m) @ [b] \<and> uh_rx d = uh_rx (ut_port m)"
      by (auto simp: write_byte_def set_port_def ut_port_def)
  qed
  show "sends (early_write_byte (port_bus base) base)"
    unfolding sends_def
  proof (intro allI)
    fix b :: u8 and m :: "(uart_port, 'h, 'z) uart_machine_scheme"
    let ?m = "uart_write (port_bus base) (base + AUX_MU_IO_REG_OFFSET) (ucast b) m"
    from wait_tx_empty_port [of base ?m] show "\<exists>d. early_write_byte (port_bus base) base b m = Some (set_port d m)
        \<and> uh_tx d = uh_tx (ut_port m) @ [b] \<and> uh_rx d = uh_rx (ut_port m)"
      by (auto simp: early_write_byte_def set_port_def ut_port_def)
  qed
qed

lemma write_bytes_port:
  "sends put \<Longrightarrow> \<exists>m'. write_bytes put bytes m = Some m' \<and> uh_tx (ut_port m') = uh_tx (ut_port m) @ crlf bytes
    \<and> uh_rx (ut_port m') = uh_rx (ut_port m) \<and> ut_devices m' = ut_devices m"
proof (induction bytes arbitrary: m)
  case Nil
  then show ?case by (simp add: crlf_def)
next
  case (Cons byte bytes)
  have put: "\<exists>d. put b m = Some (set_port d m) \<and> uh_tx d = uh_tx (ut_port m) @ [b] \<and> uh_rx d = uh_rx (ut_port m)" for b m
    using Cons.prems by (simp add: sends_def)
  obtain d1 where d1: "(if byte = 0x0a then put 0x0d m else Some m) = Some (set_port d1 m)"
      "uh_tx d1 = uh_tx (ut_port m) @ (if byte = 0x0a then [0x0d] else [])" "uh_rx d1 = uh_rx (ut_port m)"
  proof (cases "byte = 0x0a")
    case True
    then show ?thesis using that put [of "0x0d" m] by auto
  next
    case False
    then show ?thesis using that [of "ut_port m"] by (simp add: set_port_def ut_port_def)
  qed
  obtain d2 where d2: "put byte (set_port d1 m) = Some (set_port d2 (set_port d1 m))" "uh_tx d2 = uh_tx d1 @ [byte]" "uh_rx d2 = uh_rx d1"
    using put [of byte "set_port d1 m"] by auto
  from Cons.IH [OF Cons.prems, of "set_port d2 (set_port d1 m)"] show ?case
    using d1 d2 by (auto simp: crlf_def)
qed


text \<open>The handler empties the FIFO into the ring.\<close>

lemma uart_handle_irq_port:
  assumes "i < length (ut_devices m)" "ring_wf (mu_buffer (ut_dev i m))" "ring_capacity (mu_buffer (ut_dev i m)) = n"
  shows "\<exists>m'. uart_handle_irq (port_bus (ut_base i m)) i m = Some m' \<and> uh_rx (ut_port m') = []
    \<and> i < length (ut_devices m') \<and> ring_wf (mu_buffer (ut_dev i m'))
    \<and> ring_contents (mu_buffer (ut_dev i m')) = last_n n (ring_contents (mu_buffer (ut_dev i m)) @ uh_rx (ut_port m))"
  using assms
proof (induction "uh_rx (ut_port m)" arbitrary: m)
  case Nil
  have "length (ring_contents (mu_buffer (ut_dev i m))) \<le> n"
    using ring.contents_bounded [OF Nil.prems(2)] Nil.prems(3) by simp
  with Nil show ?case
    by (subst uart_handle_irq.simps) (simp add: read_byte_def status_bits flip: Nil.hyps)
next
  case (Cons b bs)
  let ?r = "mu_buffer (ut_dev i m)"
  obtain r where r: "ring_push ?r b = Some r" "ring_wf r" "ring_capacity r = n" "ring_contents r = last_n n (ring_contents ?r @ [b])"
    using ring_push_defined [OF Cons.prems(2), of b] ring_push_contents_last_n [OF Cons.prems(2), of b] Cons.prems(3) by auto
  let ?m = "set_buffer i r (set_port ((ut_port m)\<lparr>uh_busy := uh_busy (ut_port m) - 1, uh_rx := bs\<rparr>) m)"
  have m: "ut_dev i ?m = (ut_dev i m)\<lparr>mu_buffer := r\<rparr>" "length (ut_devices ?m) = length (ut_devices m)" "uh_rx (ut_port ?m) = bs"
      "ut_base i ?m = ut_base i m"
    using Cons.prems(1) by (simp_all add: set_buffer_def ut_dev_def ut_port_def set_port_def ut_base_def)
  have byte: "ucast ((ucast b :: u32) AND 0xff) = b"
  proof -
    have "(0xff :: u32) = mask 8" by (simp add: mask_eq_exp_minus_1)
    then show ?thesis unfolding \<open>0xff = mask 8\<close> by (intro bit_word_eqI) (auto simp: bit_simps dest: bit_imp_le_length)
  qed
  have read: "read_byte (port_bus (ut_base i m)) (ut_base i m) m
      = (Some b, set_port ((ut_port m)\<lparr>uh_busy := uh_busy (ut_port m) - 1, uh_rx := bs\<rparr>) m)"
    using byte by (simp add: read_byte_def status_bits flip: Cons.hyps(2)) (simp add: set_port_def)
  have step: "uart_handle_irq (port_bus (ut_base i m)) i m = uart_handle_irq (port_bus (ut_base i ?m)) i ?m"
    unfolding m(4) by (subst uart_handle_irq.simps) (simp add: read r(1))
  from Cons.hyps(1) [of ?m] m r Cons.prems(1) show ?case
    unfolding step by (simp add: last_n_append_last_n flip: Cons.hyps(2))
qed

text \<open>A reading of the input after the interrupt gives the bytes received since the last one in their order, the newest 1024 of
  them, and leaves none.\<close>

theorem uart_input_is_received:
  assumes "i < length (ut_devices m)" "ring_wf (mu_buffer (ut_dev i m))" "ring_capacity (mu_buffer (ut_dev i m)) = 1024"
  shows "\<exists>m1 m2. uart_handle_irq (port_bus (ut_base i m)) i m = Some m1
    \<and> uart_read_all i m1 = Some (last_n 1024 (ring_contents (mu_buffer (ut_dev i m)) @ uh_rx (ut_port m)), m2)
    \<and> uh_rx (ut_port m2) = [] \<and> ring_contents (mu_buffer (ut_dev i m2)) = []"
proof -
  obtain m1 where m1: "uart_handle_irq (port_bus (ut_base i m)) i m = Some m1" "uh_rx (ut_port m1) = []"
      "i < length (ut_devices m1)" "ring_wf (mu_buffer (ut_dev i m1))"
      "ring_contents (mu_buffer (ut_dev i m1)) = last_n 1024 (ring_contents (mu_buffer (ut_dev i m)) @ uh_rx (ut_port m))"
    using uart_handle_irq_port [OF assms] by blast
  let ?r = "mu_buffer (ut_dev i m1)"
  have "length (replicate (ring_len ?r) 0) = length (ring_contents ?r)" by (simp add: ring_len_contents [OF m1(4)])
  then have "ring_drain ?r (replicate (ring_len ?r) 0)
      = Some (length (ring_contents ?r), ring_contents ?r, if ring_contents ?r = [] then ?r else ring_clear ?r)"
    using ring_drain_spec [OF m1(4), of "replicate (ring_len ?r) 0"] by simp
  then show ?thesis
    using m1 by (auto simp: uart_read_all_def set_buffer_def ut_port_def ut_dev_def)
qed

definition example_uart_machine :: "(uart_port, unit) uart_machine" where
  "example_uart_machine = \<lparr>ut_board = \<lparr>bd_regs = \<lparr>uh_rx = [0x68, 0x69], uh_tx = [], uh_busy = 2, uh_delay = (\<lambda>_. 5)\<rparr>, bd_irqs = irq_tables_new,
       bd_virq_bases = Map.empty, bd_mmu = example_mmu, bd_core = 0, bd_l1_devices = registry_new, bd_armctrl_devices = registry_new\<rparr>,
     ut_devices = [mini_uart_new ''uart'' 0x5000], ut_registry = registry_new, ut_early_reg_base = 0\<rparr>"

theorem uart_input_is_received_witness:
  "\<exists>m1 m2. uart_handle_irq (port_bus 0x5000) 0 example_uart_machine = Some m1 \<and> uart_read_all 0 m1 = Some ([0x68, 0x69], m2)"
proof -
  have dev: "ut_dev 0 example_uart_machine = mini_uart_new ''uart'' 0x5000" by (simp add: example_uart_machine_def ut_dev_def)
  then have "0 < length (ut_devices example_uart_machine)" "ring_wf (mu_buffer (ut_dev 0 example_uart_machine))"
    "ring_capacity (mu_buffer (ut_dev 0 example_uart_machine)) = 1024"
    by (simp_all add: example_uart_machine_def mini_uart_new_def ring_wf_new)
  from uart_input_is_received [OF this] show ?thesis
    by (auto simp: dev ut_base_def mini_uart_new_def example_uart_machine_def ut_port_def ut_dev_def)
qed

end
