(* ===== verification/Clocks.thy ===== *)
theory Clocks
  imports Device_Irq
begin

text \<open>Clocks (\<open>kernel/clk.rs\<close>): the trait and the list of domains; the fixed clock (\<open>clock_controller/fixed_clock.rs\<close>) and the
  gate of the auxiliary devices (\<open>clock_controller/bcm2835_aux.rs\<close>), most of whose operations are \<open>todo!\<close>. A clock is a
  value, as nothing of it changes.\<close>

datatype clock_error = RateNotSupported | ParentNotReady | HardwareTimeout | PermissionDenied

datatype clock = Fixed_Clock string u64 | Aux_Clock string usize

text \<open>The methods of the trait; \<open>None\<close> is a panic.\<close>

definition clock_name :: "clock \<Rightarrow> string" where
  "clock_name c = (case c of Fixed_Clock i _ \<Rightarrow> i | Aux_Clock i _ \<Rightarrow> i)"

definition clock_startup :: "clock \<Rightarrow> (clock_error + unit) option" where
  "clock_startup c = Some (Inr ())"

definition clock_shutdown :: "clock \<Rightarrow> (clock_error + unit) option" where
  "clock_shutdown c = Some (Inr ())"

definition clock_enable :: "clock \<Rightarrow> (clock_error + unit) option" where
  "clock_enable c = (case c of Fixed_Clock _ _ \<Rightarrow> Some (Inr ()) | Aux_Clock _ _ \<Rightarrow> None)"

definition clock_disable :: "clock \<Rightarrow> (clock_error + unit) option" where
  "clock_disable c = (case c of Fixed_Clock _ _ \<Rightarrow> Some (Inr ()) | Aux_Clock _ _ \<Rightarrow> None)"

definition clock_get_rate :: "clock \<Rightarrow> u64 option" where
  "clock_get_rate c = (case c of Fixed_Clock _ hz \<Rightarrow> Some hz | Aux_Clock _ _ \<Rightarrow> None)"

definition clock_set_rate :: "u64 \<Rightarrow> clock \<Rightarrow> (clock_error + unit) option" where
  "clock_set_rate hz c =
     (case c of Fixed_Clock _ f \<Rightarrow> Some (if hz = f then Inr () else Inl RateNotSupported) | Aux_Clock _ _ \<Rightarrow> None)"

record clock_domain =
  cd_dev :: clock
  cd_parent :: "nat option"
  cd_prepare_count :: usize
  cd_enable_count :: usize

definition clock_domain_new :: "clock \<Rightarrow> nat option \<Rightarrow> clock_domain" where
  "clock_domain_new dev parent = \<lparr>cd_dev = dev, cd_parent = parent, cd_prepare_count = 0, cd_enable_count = 0\<rparr>"

definition register_clock :: "clock \<Rightarrow> clock_domain list \<Rightarrow> (clock_error + unit) \<times> clock_domain list" where
  "register_clock c clocks = (Inr (), clocks @ [clock_domain_new c None])"

text \<open>The drivers over the list of domains, the page tables and their registries.\<close>

record clock_world =
  kw_clocks :: "clock_domain list"
  kw_mmu :: mmu
  kw_fixed_devices :: "clock registry"
  kw_aux_devices :: "clock registry"

definition clock_global_setup :: "clock \<Rightarrow> clock_world \<Rightarrow> (driver_init_error + unit) \<times> clock_world" where
  "clock_global_setup c w =
     (let (r, clocks) = register_clock c (kw_clocks w); w1 = w\<lparr>kw_clocks := clocks\<rparr>
      in case r of Inl _ \<Rightarrow> (Inl DeviceFailed, w1) | Inr _ \<Rightarrow> (Inr (), w1))"

definition aux_clock_try_init :: "device_tree \<Rightarrow> nat \<Rightarrow> clock_world \<Rightarrow> ((driver_init_error + unit) \<times> clock_world) option" where
  "aux_clock_try_init dt node w = do {
     clock_cells \<leftarrow> node_clock_cells (dt_node_at dt node);
     (case clock_cells of
        None \<Rightarrow> Some (Inl DeviceTreeError, w)
      | Some cells \<Rightarrow>
          if cells \<noteq> 1 then Some (Inl DeviceTreeError, w)
          else do {
            (r, mmu) \<leftarrow> map_device_registers dt node (kw_mmu w);
            let w1 = w\<lparr>kw_mmu := mmu\<rparr>;
            (case r of
               Inl e \<Rightarrow> Some (Inl e, w1)
             | Inr addr \<Rightarrow> do {
                 path \<leftarrow> node_path dt node;
                 let c = Aux_Clock path addr;
                 Some (case clock_global_setup c w1 of
                    (Inl e, w2) \<Rightarrow> (Inl e, w2)
                  | (Inr _, w2) \<Rightarrow> (Inr (), w2\<lparr>kw_aux_devices := add_device path c (kw_aux_devices w2)\<rparr>))
               })
          })
   }"

definition fixed_clock_try_init :: "device_tree \<Rightarrow> nat \<Rightarrow> clock_world \<Rightarrow> ((driver_init_error + unit) \<times> clock_world) option" where
  "fixed_clock_try_init dt node w = do {
     clock_cells \<leftarrow> node_clock_cells (dt_node_at dt node);
     (case clock_cells of
        None \<Rightarrow> Some (Inl DeviceTreeError, w)
      | Some cells \<Rightarrow>
          if cells \<noteq> 0 then Some (Inl DeviceTreeError, w)
          else
            (case List.find (\<lambda>p. dp_name p = ''clock-frequency'') (dn_properties (dt_node_at dt node)) of
               None \<Rightarrow> Some (Inl DeviceTreeError, w)
             | Some p \<Rightarrow>
                 (case dp_value p of
                    PV_Misc (Misc_ClockFrequency freq) \<Rightarrow> do {
                      path \<leftarrow> node_path dt node;
                      let c = Fixed_Clock path (clock_frequency_as_u64 freq);
                      Some (case clock_global_setup c w of
                         (Inl e, w1) \<Rightarrow> (Inl e, w1)
                       | (Inr _, w1) \<Rightarrow> (Inr (), w1\<lparr>kw_fixed_devices := add_device path c (kw_fixed_devices w1)\<rparr>))
                    }
                  | _ \<Rightarrow> Some (Inl DeviceFailed, w))))
   }"

text \<open>A registered fixed clock is the last domain, at the rate of its node, and refuses every other rate.\<close>

lemma fixed_clock_registered:
  assumes "fixed_clock_try_init dt node w = Some (Inr (), w')"
  shows "\<exists>path hz. kw_clocks w' = kw_clocks w @ [clock_domain_new (Fixed_Clock path hz) None]
    \<and> node_path dt node = Some path \<and> kw_fixed_devices w' path = Some (Fixed_Clock path hz)
    \<and> clock_get_rate (Fixed_Clock path hz) = Some hz
    \<and> clock_set_rate r (Fixed_Clock path hz) = Some (if r = hz then Inr () else Inl RateNotSupported)"
  using assms
  by (auto simp: fixed_clock_try_init_def clock_global_setup_def register_clock_def clock_get_rate_def clock_set_rate_def
      add_device_def bind_eq_Some_conv Let_def split: option.splits if_splits property_value.splits misc_property.splits)

end
