(* ===== verification/Usb_Core.thy ===== *)
theory Usb_Core
  imports Number_Formats Frame_Allocator
begin

text \<open>The part of the USB stack that does not depend on the controller (\<open>drivers/usb/core.rs\<close>): routes, setup packets,
  descriptors and their iterator, buffers for the controller, and the standard requests. The controller is a
  parameter of the requests, its promise about what it transfers a locale.\<close>

named_theorems usb_defs \<open>constants of the protocol\<close>

definition USB_REQ_DIR_OUT :: u8 where [usb_defs]: "USB_REQ_DIR_OUT = 0x00"
definition USB_REQ_DIR_IN :: u8 where [usb_defs]: "USB_REQ_DIR_IN = 0x80"
definition USB_REQ_TYPE_STANDARD :: u8 where [usb_defs]: "USB_REQ_TYPE_STANDARD = 0x00"
definition USB_REQ_TYPE_CLASS :: u8 where [usb_defs]: "USB_REQ_TYPE_CLASS = 0x20"
definition USB_REQ_TYPE_VENDOR :: u8 where [usb_defs]: "USB_REQ_TYPE_VENDOR = 0x40"
definition USB_REQ_RECIP_DEVICE :: u8 where [usb_defs]: "USB_REQ_RECIP_DEVICE = 0x00"
definition USB_REQ_RECIP_INTERFACE :: u8 where [usb_defs]: "USB_REQ_RECIP_INTERFACE = 0x01"
definition USB_REQ_RECIP_ENDPOINT :: u8 where [usb_defs]: "USB_REQ_RECIP_ENDPOINT = 0x02"
definition USB_REQ_RECIP_OTHER :: u8 where [usb_defs]: "USB_REQ_RECIP_OTHER = 0x03"
definition USB_REQ_GET_STATUS :: u8 where [usb_defs]: "USB_REQ_GET_STATUS = 0x00"
definition USB_REQ_CLEAR_FEATURE :: u8 where [usb_defs]: "USB_REQ_CLEAR_FEATURE = 0x01"
definition USB_REQ_SET_FEATURE :: u8 where [usb_defs]: "USB_REQ_SET_FEATURE = 0x03"
definition USB_REQ_SET_ADDRESS :: u8 where [usb_defs]: "USB_REQ_SET_ADDRESS = 0x05"
definition USB_REQ_GET_DESCRIPTOR :: u8 where [usb_defs]: "USB_REQ_GET_DESCRIPTOR = 0x06"
definition USB_REQ_SET_DESCRIPTOR :: u8 where [usb_defs]: "USB_REQ_SET_DESCRIPTOR = 0x07"
definition USB_REQ_GET_CONFIGURATION :: u8 where [usb_defs]: "USB_REQ_GET_CONFIGURATION = 0x08"
definition USB_REQ_SET_CONFIGURATION :: u8 where [usb_defs]: "USB_REQ_SET_CONFIGURATION = 0x09"
definition USB_REQ_GET_INTERFACE :: u8 where [usb_defs]: "USB_REQ_GET_INTERFACE = 0x0a"
definition USB_REQ_SET_INTERFACE :: u8 where [usb_defs]: "USB_REQ_SET_INTERFACE = 0x0b"
definition USB_DESC_DEVICE :: u8 where [usb_defs]: "USB_DESC_DEVICE = 0x01"
definition USB_DESC_CONFIGURATION :: u8 where [usb_defs]: "USB_DESC_CONFIGURATION = 0x02"
definition USB_DESC_STRING :: u8 where [usb_defs]: "USB_DESC_STRING = 0x03"
definition USB_DESC_INTERFACE :: u8 where [usb_defs]: "USB_DESC_INTERFACE = 0x04"
definition USB_DESC_ENDPOINT :: u8 where [usb_defs]: "USB_DESC_ENDPOINT = 0x05"
definition USB_DESC_HID :: u8 where [usb_defs]: "USB_DESC_HID = 0x21"
definition USB_DESC_REPORT :: u8 where [usb_defs]: "USB_DESC_REPORT = 0x22"
definition USB_DESC_HUB :: u8 where [usb_defs]: "USB_DESC_HUB = 0x29"
definition USB_CLASS_HID :: u8 where [usb_defs]: "USB_CLASS_HID = 0x03"
definition USB_CLASS_HUB :: u8 where [usb_defs]: "USB_CLASS_HUB = 0x09"
definition USB_HID_SUBCLASS_BOOT :: u8 where [usb_defs]: "USB_HID_SUBCLASS_BOOT = 0x01"
definition USB_HID_PROTOCOL_KEYBOARD :: u8 where [usb_defs]: "USB_HID_PROTOCOL_KEYBOARD = 0x01"
definition USB_HUB_PORT_RESET :: u16 where [usb_defs]: "USB_HUB_PORT_RESET = 0x0004"
definition USB_HUB_PORT_POWER :: u16 where [usb_defs]: "USB_HUB_PORT_POWER = 0x0008"
definition USB_HID_SET_PROTOCOL :: u8 where [usb_defs]: "USB_HID_SET_PROTOCOL = 0x0b"
definition USB_HID_SET_IDLE :: u8 where [usb_defs]: "USB_HID_SET_IDLE = 0x0a"
definition USB_HID_PROTOCOL_BOOT :: u16 where [usb_defs]: "USB_HID_PROTOCOL_BOOT = 0x0000"


section \<open>Routes and setup packets\<close>

datatype usb_error = Usb_NoMemory | Usb_BufferTooLarge | Usb_BufferTooSmall | Usb_InvalidDescriptor | Usb_InvalidPacket
  | Usb_InvalidEndpoint | Usb_InvalidState | Usb_Disconnected | Usb_Timeout | Usb_Stall | Usb_Busy | Usb_Unsupported
  | Usb_ShortPacket | Usb_HardwareFault

datatype usb_speed = Speed_Low | Speed_Full | Speed_High

datatype usb_direction = Dir_Out | Dir_In

definition from_request_type :: "u8 \<Rightarrow> usb_direction" where
  "from_request_type request_type = (if request_type AND USB_REQ_DIR_IN \<noteq> 0 then Dir_In else Dir_Out)"

definition from_endpoint_address :: "u8 \<Rightarrow> usb_direction" where
  "from_endpoint_address endpoint_address = (if endpoint_address AND USB_REQ_DIR_IN \<noteq> 0 then Dir_In else Dir_Out)"

datatype usb_endpoint_type = Ep_Control | Ep_Isochronous | Ep_Bulk | Ep_Interrupt

definition from_attributes :: "u8 \<Rightarrow> usb_endpoint_type" where
  "from_attributes attributes =
     (let t = attributes AND 0x03 in
      if t = 0x00 then Ep_Control else if t = 0x01 then Ep_Isochronous else if t = 0x02 then Ep_Bulk else Ep_Interrupt)"

record usb_route =
  rt_address :: u8
  rt_speed :: usb_speed
  rt_parent_hub_address :: u8
  rt_parent_port :: u8
  rt_parent_hub_speed :: usb_speed

definition root_route :: "u8 \<Rightarrow> usb_speed \<Rightarrow> usb_route" where
  "root_route address speed = \<lparr>rt_address = address, rt_speed = speed, rt_parent_hub_address = 0, rt_parent_port = 0,
     rt_parent_hub_speed = Speed_High\<rparr>"

definition via_hub_with_parent_speed :: "u8 \<Rightarrow> usb_speed \<Rightarrow> u8 \<Rightarrow> u8 \<Rightarrow> usb_speed \<Rightarrow> usb_route" where
  "via_hub_with_parent_speed address speed parent_hub_address parent_port parent_hub_speed =
     \<lparr>rt_address = address, rt_speed = speed, rt_parent_hub_address = parent_hub_address, rt_parent_port = parent_port,
      rt_parent_hub_speed = parent_hub_speed\<rparr>"

definition via_hub :: "u8 \<Rightarrow> usb_speed \<Rightarrow> u8 \<Rightarrow> u8 \<Rightarrow> usb_route" where
  "via_hub address speed parent_hub_address parent_port =
     via_hub_with_parent_speed address speed parent_hub_address parent_port Speed_High"

definition uses_split_transactions :: "usb_route \<Rightarrow> bool" where
  "uses_split_transactions r \<longleftrightarrow>
     rt_parent_hub_address r \<noteq> 0 \<and> rt_parent_port r \<noteq> 0 \<and> rt_parent_hub_speed r = Speed_High \<and> rt_speed r \<noteq> Speed_High"

record setup_packet =
  sp_request_type :: u8
  sp_request :: u8
  sp_value :: u16
  sp_index :: u16
  sp_length :: u16

definition setup_packet_new :: "u8 \<Rightarrow> u8 \<Rightarrow> u16 \<Rightarrow> u16 \<Rightarrow> u16 \<Rightarrow> setup_packet" where
  "setup_packet_new request_type request value index len =
     \<lparr>sp_request_type = request_type, sp_request = request, sp_value = value, sp_index = index, sp_length = len\<rparr>"

definition sp_direction :: "setup_packet \<Rightarrow> usb_direction" where
  "sp_direction p = from_request_type (sp_request_type p)"

definition sp_encode :: "setup_packet \<Rightarrow> u8 list" where
  "sp_encode p = [sp_request_type p, sp_request p] @ u16_to_le_bytes (sp_value p) @ u16_to_le_bytes (sp_index p)
     @ u16_to_le_bytes (sp_length p)"

text \<open>\<open>ControlTransferData\<close>, with the contents of the buffer it borrows.\<close>

datatype control_transfer_data = Data_None | Data_In "u8 list" | Data_Out "u8 list"

fun data_length :: "control_transfer_data \<Rightarrow> nat" where
  "data_length Data_None = 0"
| "data_length (Data_In bytes) = length bytes"
| "data_length (Data_Out bytes) = length bytes"


section \<open>Buffers for the controller\<close>

text \<open>Bytes of memory, in the state \<open>'d\<close> that the controller shares. Caches are not modelled: memory is coherent.\<close>

record 'd byte_ram =
  byte_store :: "usize \<Rightarrow> u8 \<Rightarrow> 'd \<Rightarrow> 'd"
  byte_load :: "usize \<Rightarrow> 'd \<Rightarrow> u8"

fun store_bytes :: "'d byte_ram \<Rightarrow> usize \<Rightarrow> u8 list \<Rightarrow> 'd \<Rightarrow> 'd" where
  "store_bytes ram va [] d = d"
| "store_bytes ram va (b # bs) d = store_bytes ram (va + 1) bs (byte_store ram va b d)"

fun load_bytes :: "'d byte_ram \<Rightarrow> usize \<Rightarrow> nat \<Rightarrow> 'd \<Rightarrow> u8 list" where
  "load_bytes ram va 0 d = []"
| "load_bytes ram va (Suc n) d = byte_load ram va d # load_bytes ram (va + 1) n d"

record usb_dma_buffer =
  ub_virt_addr :: usize
  ub_phys_addr :: usize
  ub_len :: nat

type_synonym frames = "boot_phys_mem_manager option"

definition dma_buffer_new_zeroed :: "'d byte_ram \<Rightarrow> nat \<Rightarrow> frames \<times> 'd \<Rightarrow> ((usb_error + usb_dma_buffer) \<times> frames \<times> 'd) option" where
  "dma_buffer_new_zeroed ram len s =
     (if len = 0 then Some (Inl Usb_BufferTooSmall, s)
      else if len > PAGE_SIZE then Some (Inl Usb_BufferTooLarge, s)
      else do {
        (page, mgr) \<leftarrow> alloc_page (fst s);
        Some (case page of
                None \<Rightarrow> (Inl Usb_NoMemory, mgr, snd s)
              | Some p \<Rightarrow> (Inr \<lparr>ub_virt_addr = p, ub_phys_addr = virt_to_phys p, ub_len = len\<rparr>,
                           mgr, store_bytes ram p (replicate PAGE_SIZE 0) (snd s)))
      })"

definition phys_addr_u32 :: "usb_dma_buffer \<Rightarrow> usb_error + u32" where
  "phys_addr_u32 b = (if unat (ub_phys_addr b) < 2 ^ 32 then Inr (ucast (ub_phys_addr b)) else Inl Usb_Unsupported)"

definition dma_as_slice :: "'d byte_ram \<Rightarrow> usb_dma_buffer \<Rightarrow> 'd \<Rightarrow> u8 list" where
  "dma_as_slice ram b d = load_bytes ram (ub_virt_addr b) (ub_len b) d"

definition dma_clear :: "'d byte_ram \<Rightarrow> usb_dma_buffer \<Rightarrow> 'd \<Rightarrow> 'd" where
  "dma_clear ram b d = store_bytes ram (ub_virt_addr b) (replicate (ub_len b) 0) d"

definition dma_write :: "'d byte_ram \<Rightarrow> usb_dma_buffer \<Rightarrow> u8 list \<Rightarrow> 'd \<Rightarrow> (usb_error + unit) \<times> 'd" where
  "dma_write ram b bytes d =
     (if length bytes > ub_len b then (Inl Usb_BufferTooLarge, d)
      else (Inr (), store_bytes ram (ub_virt_addr b) (bytes @ replicate (ub_len b - length bytes) 0) d))"

definition dma_drop :: "usb_dma_buffer \<Rightarrow> frames \<Rightarrow> frames option" where
  "dma_drop b mgr = dealloc_page mgr (ub_virt_addr b)"


section \<open>Descriptors\<close>

record endpoint_info =
  ei_address :: u8
  ei_attributes :: u8
  ei_max_packet_size :: u16
  ei_interval :: u8

definition ep_number :: "u8 \<Rightarrow> u8" where
  "ep_number address = address AND 0x0F"

definition endpoint_type :: "endpoint_info \<Rightarrow> usb_endpoint_type" where
  "endpoint_type e = from_attributes (ei_attributes e)"

record device_descriptor_header =
  dh_usb_version :: u16
  dh_device_class :: u8
  dh_device_subclass :: u8
  dh_device_protocol :: u8
  dh_max_packet_size0 :: u8

record device_descriptor = device_descriptor_header +
  dd_vendor_id :: u16
  dd_product_id :: u16
  dd_device_version :: u16
  dd_manufacturer_index :: u8
  dd_product_index :: u8
  dd_serial_number_index :: u8
  dd_num_configurations :: u8

record configuration_descriptor =
  cd_total_length :: u16
  cd_num_interfaces :: u8
  cd_configuration_value :: u8
  cd_configuration_index :: u8
  cd_attributes :: u8
  cd_max_power :: u8

record interface_descriptor =
  id_interface_number :: u8
  id_alternate_setting :: u8
  id_num_endpoints :: u8
  id_interface_class :: u8
  id_interface_subclass :: u8
  id_interface_protocol :: u8
  id_interface_index :: u8

record hid_descriptor =
  hd_hid_version :: u16
  hd_country_code :: u8
  hd_num_descriptors :: u8
  hd_report_descriptor_type :: u8
  hd_report_descriptor_length :: u16

definition read_u16_le :: "u8 list \<Rightarrow> nat \<Rightarrow> u16 option" where
  "read_u16_le bytes offset =
     (if offset + 2 \<le> length bytes then Some (u16_from_le_bytes [bytes ! offset, bytes ! (offset + 1)]) else None)"

text \<open>The checks with which every parser starts.\<close>

definition descriptor_checks :: "nat \<Rightarrow> u8 \<Rightarrow> u8 list \<Rightarrow> bool" where
  "descriptor_checks n kind bytes \<longleftrightarrow> \<not> (length bytes < n \<or> bytes ! 0 < of_nat n \<or> bytes ! 1 \<noteq> kind)"

definition parse_device_descriptor_header :: "u8 list \<Rightarrow> usb_error + device_descriptor_header" where
  "parse_device_descriptor_header bytes =
     (if \<not> descriptor_checks 8 USB_DESC_DEVICE bytes then Inl Usb_InvalidDescriptor
      else ok_or Usb_InvalidDescriptor (do {
        version \<leftarrow> read_u16_le bytes 2;
        cls \<leftarrow> index_at bytes 4;
        subclass \<leftarrow> index_at bytes 5;
        protocol \<leftarrow> index_at bytes 6;
        packet \<leftarrow> index_at bytes 7;
        Some \<lparr>dh_usb_version = version, dh_device_class = cls, dh_device_subclass = subclass,
              dh_device_protocol = protocol, dh_max_packet_size0 = packet\<rparr>
      }))"

definition parse_device_descriptor :: "u8 list \<Rightarrow> usb_error + device_descriptor" where
  "parse_device_descriptor bytes =
     (if \<not> descriptor_checks 18 USB_DESC_DEVICE bytes then Inl Usb_InvalidDescriptor
      else ok_or Usb_InvalidDescriptor (do {
        version \<leftarrow> read_u16_le bytes 2;
        cls \<leftarrow> index_at bytes 4;
        subclass \<leftarrow> index_at bytes 5;
        protocol \<leftarrow> index_at bytes 6;
        packet \<leftarrow> index_at bytes 7;
        vendor \<leftarrow> read_u16_le bytes 8;
        product \<leftarrow> read_u16_le bytes 10;
        release \<leftarrow> read_u16_le bytes 12;
        manufacturer \<leftarrow> index_at bytes 14;
        product_index \<leftarrow> index_at bytes 15;
        serial \<leftarrow> index_at bytes 16;
        configurations \<leftarrow> index_at bytes 17;
        Some \<lparr>dh_usb_version = version, dh_device_class = cls, dh_device_subclass = subclass,
              dh_device_protocol = protocol, dh_max_packet_size0 = packet,
              dd_vendor_id = vendor, dd_product_id = product, dd_device_version = release,
              dd_manufacturer_index = manufacturer, dd_product_index = product_index,
              dd_serial_number_index = serial, dd_num_configurations = configurations\<rparr>
      }))"

definition parse_configuration_descriptor :: "u8 list \<Rightarrow> usb_error + configuration_descriptor" where
  "parse_configuration_descriptor bytes =
     (if \<not> descriptor_checks 9 USB_DESC_CONFIGURATION bytes then Inl Usb_InvalidDescriptor
      else ok_or Usb_InvalidDescriptor (do {
        total \<leftarrow> read_u16_le bytes 2;
        interfaces \<leftarrow> index_at bytes 4;
        value \<leftarrow> index_at bytes 5;
        index \<leftarrow> index_at bytes 6;
        attributes \<leftarrow> index_at bytes 7;
        power \<leftarrow> index_at bytes 8;
        Some \<lparr>cd_total_length = total, cd_num_interfaces = interfaces, cd_configuration_value = value,
              cd_configuration_index = index, cd_attributes = attributes, cd_max_power = power\<rparr>
      }))"

definition parse_interface_descriptor :: "u8 list \<Rightarrow> usb_error + interface_descriptor" where
  "parse_interface_descriptor bytes =
     (if \<not> descriptor_checks 9 USB_DESC_INTERFACE bytes then Inl Usb_InvalidDescriptor
      else ok_or Usb_InvalidDescriptor (do {
        number \<leftarrow> index_at bytes 2;
        alternate \<leftarrow> index_at bytes 3;
        endpoints \<leftarrow> index_at bytes 4;
        cls \<leftarrow> index_at bytes 5;
        subclass \<leftarrow> index_at bytes 6;
        protocol \<leftarrow> index_at bytes 7;
        index \<leftarrow> index_at bytes 8;
        Some \<lparr>id_interface_number = number, id_alternate_setting = alternate, id_num_endpoints = endpoints,
              id_interface_class = cls, id_interface_subclass = subclass, id_interface_protocol = protocol,
              id_interface_index = index\<rparr>
      }))"

definition parse_endpoint_descriptor :: "u8 list \<Rightarrow> usb_error + endpoint_info" where
  "parse_endpoint_descriptor bytes =
     (if \<not> descriptor_checks 7 USB_DESC_ENDPOINT bytes then Inl Usb_InvalidDescriptor
      else ok_or Usb_InvalidDescriptor (do {
        address \<leftarrow> index_at bytes 2;
        attributes \<leftarrow> index_at bytes 3;
        packet \<leftarrow> read_u16_le bytes 4;
        interval \<leftarrow> index_at bytes 6;
        Some \<lparr>ei_address = address, ei_attributes = attributes, ei_max_packet_size = packet, ei_interval = interval\<rparr>
      }))"

definition parse_hid_descriptor :: "u8 list \<Rightarrow> usb_error + hid_descriptor" where
  "parse_hid_descriptor bytes =
     (if \<not> descriptor_checks 9 USB_DESC_HID bytes then Inl Usb_InvalidDescriptor
      else ok_or Usb_InvalidDescriptor (do {
        version \<leftarrow> read_u16_le bytes 2;
        country \<leftarrow> index_at bytes 4;
        descriptors \<leftarrow> index_at bytes 5;
        kind \<leftarrow> index_at bytes 6;
        len \<leftarrow> read_u16_le bytes 7;
        Some \<lparr>hd_hid_version = version, hd_country_code = country, hd_num_descriptors = descriptors,
              hd_report_descriptor_type = kind, hd_report_descriptor_length = len\<rparr>
      }))"

text \<open>\<open>RawDescriptor\<close> is its bytes.\<close>

definition descriptor_type :: "u8 list \<Rightarrow> u8" where
  "descriptor_type bytes = (case index_at bytes 1 of Some t \<Rightarrow> t | None \<Rightarrow> 0)"

text \<open>\<open>DescriptorIter::next\<close>, which returns the descriptor and the new offset, and the whole iteration.\<close>

definition descriptor_next :: "u8 list \<Rightarrow> nat \<Rightarrow> u8 list option \<times> nat" where
  "descriptor_next bytes offset =
     (if offset + 2 > length bytes then (None, offset)
      else let len = unat (bytes ! offset)
           in if len < 2 \<or> offset + len > length bytes then (None, length bytes)
              else (Some (take len (drop offset bytes)), offset + len))"

function descriptors_from :: "u8 list \<Rightarrow> nat \<Rightarrow> u8 list list" where
  "descriptors_from bytes offset =
     (case descriptor_next bytes offset of
        (None, _) \<Rightarrow> []
      | (Some d, offset') \<Rightarrow> d # descriptors_from bytes offset')"
  by pat_completeness auto
termination
  by (relation "measure (\<lambda>(bytes, offset). length bytes - offset)")
    (auto simp: descriptor_next_def Let_def split: if_splits)

declare descriptors_from.simps [simp del]

definition descriptor_iter :: "u8 list \<Rightarrow> u8 list list" where
  "descriptor_iter bytes = descriptors_from bytes 0"

fun find_map :: "('a \<Rightarrow> 'b option) \<Rightarrow> 'a list \<Rightarrow> 'b option" where
  "find_map f [] = None"
| "find_map f (x # xs) = (case f x of Some y \<Rightarrow> Some y | None \<Rightarrow> find_map f xs)"

definition find_interface :: "u8 list \<Rightarrow> u8 \<Rightarrow> u8 \<Rightarrow> u8 \<Rightarrow> interface_descriptor option" where
  "find_interface descriptors cls subclass protocol =
     find_map (\<lambda>descriptor.
       case parse_interface_descriptor descriptor of
         Inl _ \<Rightarrow> None
       | Inr i \<Rightarrow> if id_interface_class i = cls \<and> id_interface_subclass i = subclass \<and> id_interface_protocol i = protocol
                  then Some i else None) (descriptor_iter descriptors)"

text \<open>The loop of \<open>find_interrupt_in_endpoint\<close>, with the number of the interface whose descriptor came last.\<close>

fun interrupt_in_scan :: "u8 \<Rightarrow> u8 option \<Rightarrow> u8 list list \<Rightarrow> endpoint_info option" where
  "interrupt_in_scan number active [] = None"
| "interrupt_in_scan number active (d # ds) =
     (if descriptor_type d = USB_DESC_INTERFACE then
        interrupt_in_scan number
          (case parse_interface_descriptor d of Inl _ \<Rightarrow> None | Inr i \<Rightarrow> Some (id_interface_number i)) ds
      else if descriptor_type d = USB_DESC_ENDPOINT \<and> active = Some number then
        (case parse_endpoint_descriptor d of
           Inl _ \<Rightarrow> None
         | Inr e \<Rightarrow> if from_endpoint_address (ei_address e) = Dir_In \<and> endpoint_type e = Ep_Interrupt then Some e
                    else interrupt_in_scan number active ds)
      else interrupt_in_scan number active ds)"

definition find_interrupt_in_endpoint :: "u8 list \<Rightarrow> u8 \<Rightarrow> endpoint_info option" where
  "find_interrupt_in_endpoint descriptors interface_number =
     interrupt_in_scan interface_number None (descriptor_iter descriptors)"

section \<open>Interrupt transfers\<close>

text \<open>A transfer and the device that takes its data, a reference \<open>'k\<close>.\<close>

record 'k interrupt_in_transfer =
  tf_route :: usb_route
  tf_endpoint :: endpoint_info
  tf_expected_len :: nat
  tf_buffer :: usb_dma_buffer
  tf_handler :: 'k

definition transfer_validate :: "'k interrupt_in_transfer \<Rightarrow> usb_error + unit" where
  "transfer_validate t =
     (if from_endpoint_address (ei_address (tf_endpoint t)) \<noteq> Dir_In then Inl Usb_InvalidEndpoint
      else if endpoint_type (tf_endpoint t) \<noteq> Ep_Interrupt then Inl Usb_InvalidEndpoint
      else if tf_expected_len t = 0 \<or> tf_expected_len t > ub_len (tf_buffer t) then Inl Usb_BufferTooSmall
      else Inr ())"


section \<open>Standard requests\<close>

text \<open>\<open>control_transfer\<close> of the host controller: it returns what was transferred and the bytes that the borrowed buffer of an
  input holds afterwards, or never returns.\<close>

type_synonym 's controller =
  "usb_route \<Rightarrow> u16 \<Rightarrow> setup_packet \<Rightarrow> control_transfer_data \<Rightarrow> 's \<Rightarrow> ((usb_error + nat) \<times> u8 list \<times> 's) option"

definition control_in :: "'s controller \<Rightarrow> usb_route \<Rightarrow> u16 \<Rightarrow> u8 \<Rightarrow> u8 \<Rightarrow> u16 \<Rightarrow> u16 \<Rightarrow> u8 list \<Rightarrow> 's
    \<Rightarrow> ((usb_error + nat) \<times> u8 list \<times> 's) option" where
  "control_in control_transfer route max_packet_size request_type request value index buffer s =
     (let len = of_nat (min (length buffer) 0xffff);
          packet = setup_packet_new (request_type OR USB_REQ_DIR_IN) request value index len
      in control_transfer route max_packet_size packet (Data_In buffer) s)"

definition control_out :: "'s controller \<Rightarrow> usb_route \<Rightarrow> u16 \<Rightarrow> u8 \<Rightarrow> u8 \<Rightarrow> u16 \<Rightarrow> u16 \<Rightarrow> u8 list \<Rightarrow> 's
    \<Rightarrow> ((usb_error + nat) \<times> 's) option" where
  "control_out control_transfer route max_packet_size request_type request value index buffer s = do {
     let len = of_nat (min (length buffer) 0xffff);
     let packet = setup_packet_new (request_type AND NOT USB_REQ_DIR_IN) request value index len;
     (r, _, s1) \<leftarrow> control_transfer route max_packet_size packet (Data_Out buffer) s;
     Some (r, s1)
   }"

definition control_no_data :: "'s controller \<Rightarrow> usb_route \<Rightarrow> u16 \<Rightarrow> u8 \<Rightarrow> u8 \<Rightarrow> u16 \<Rightarrow> u16 \<Rightarrow> 's
    \<Rightarrow> ((usb_error + unit) \<times> 's) option" where
  "control_no_data control_transfer route max_packet_size request_type request value index s = do {
     let packet = setup_packet_new (request_type AND NOT USB_REQ_DIR_IN) request value index 0;
     (r, _, s1) \<leftarrow> control_transfer route max_packet_size packet Data_None s;
     Some (map_sum id (\<lambda>_. ()) r, s1)
   }"

definition usb_get_descriptor :: "'s controller \<Rightarrow> usb_route \<Rightarrow> u16 \<Rightarrow> u8 \<Rightarrow> u8 \<Rightarrow> u16 \<Rightarrow> u8 list \<Rightarrow> 's
    \<Rightarrow> ((usb_error + nat) \<times> u8 list \<times> 's) option" where
  "usb_get_descriptor controller route max_packet_size kind descriptor_index language_id buffer s =
     (let descriptor_value = push_bit 8 (ucast kind) OR ucast descriptor_index
      in control_in controller route max_packet_size (USB_REQ_TYPE_STANDARD OR USB_REQ_RECIP_DEVICE) USB_REQ_GET_DESCRIPTOR
           descriptor_value language_id buffer s)"

definition set_address :: "'s controller \<Rightarrow> usb_route \<Rightarrow> u16 \<Rightarrow> u8 \<Rightarrow> 's \<Rightarrow> ((usb_error + unit) \<times> 's) option" where
  "set_address controller route max_packet_size address s =
     control_no_data controller route max_packet_size (USB_REQ_TYPE_STANDARD OR USB_REQ_RECIP_DEVICE) USB_REQ_SET_ADDRESS
       (ucast address) 0 s"

definition set_configuration :: "'s controller \<Rightarrow> usb_route \<Rightarrow> u16 \<Rightarrow> u8 \<Rightarrow> 's \<Rightarrow> ((usb_error + unit) \<times> 's) option" where
  "set_configuration controller route max_packet_size configuration_value s =
     control_no_data controller route max_packet_size (USB_REQ_TYPE_STANDARD OR USB_REQ_RECIP_DEVICE) USB_REQ_SET_CONFIGURATION
       (ucast configuration_value) 0 s"

definition set_interface :: "'s controller \<Rightarrow> usb_route \<Rightarrow> u16 \<Rightarrow> u8 \<Rightarrow> u8 \<Rightarrow> 's \<Rightarrow> ((usb_error + unit) \<times> 's) option" where
  "set_interface controller route max_packet_size interface_number alternate_setting s =
     control_no_data controller route max_packet_size (USB_REQ_TYPE_STANDARD OR USB_REQ_RECIP_INTERFACE) USB_REQ_SET_INTERFACE
       (ucast alternate_setting) (ucast interface_number) s"

definition set_protocol :: "'s controller \<Rightarrow> usb_route \<Rightarrow> u16 \<Rightarrow> u8 \<Rightarrow> u16 \<Rightarrow> 's \<Rightarrow> ((usb_error + unit) \<times> 's) option" where
  "set_protocol controller route max_packet_size interface_number protocol s =
     control_no_data controller route max_packet_size (USB_REQ_TYPE_CLASS OR USB_REQ_RECIP_INTERFACE) USB_HID_SET_PROTOCOL
       protocol (ucast interface_number) s"

definition set_idle :: "'s controller \<Rightarrow> usb_route \<Rightarrow> u16 \<Rightarrow> u8 \<Rightarrow> u8 \<Rightarrow> u8 \<Rightarrow> 's \<Rightarrow> ((usb_error + unit) \<times> 's) option" where
  "set_idle controller route max_packet_size interface_number duration_units report_id s =
     (let value = push_bit 8 (ucast duration_units) OR ucast report_id
      in control_no_data controller route max_packet_size (USB_REQ_TYPE_CLASS OR USB_REQ_RECIP_INTERFACE) USB_HID_SET_IDLE
           value (ucast interface_number) s)"

definition get_status :: "'s controller \<Rightarrow> usb_route \<Rightarrow> u16 \<Rightarrow> u8 \<Rightarrow> u16 \<Rightarrow> u8 list \<Rightarrow> 's
    \<Rightarrow> ((usb_error + nat) \<times> u8 list \<times> 's) option" where
  "get_status controller route max_packet_size request_type index buffer s =
     control_in controller route max_packet_size request_type USB_REQ_GET_STATUS 0 index buffer s"

definition set_feature :: "'s controller \<Rightarrow> usb_route \<Rightarrow> u16 \<Rightarrow> u8 \<Rightarrow> u16 \<Rightarrow> u16 \<Rightarrow> 's \<Rightarrow> ((usb_error + unit) \<times> 's) option" where
  "set_feature controller route max_packet_size request_type feature index s =
     control_no_data controller route max_packet_size request_type USB_REQ_SET_FEATURE feature index s"

definition clear_feature :: "'s controller \<Rightarrow> usb_route \<Rightarrow> u16 \<Rightarrow> u8 \<Rightarrow> u16 \<Rightarrow> u16 \<Rightarrow> 's \<Rightarrow> ((usb_error + unit) \<times> 's) option" where
  "clear_feature controller route max_packet_size request_type feature index s =
     control_no_data controller route max_packet_size request_type USB_REQ_CLEAR_FEATURE feature index s"


section \<open>What a controller promises\<close>

text \<open>An input transfer fills a prefix of the buffer, of the length it returns, and leaves the rest; when it fails, all of it.\<close>

definition fills_prefix :: "'e + nat \<Rightarrow> u8 list \<Rightarrow> u8 list \<Rightarrow> bool" where
  "fills_prefix r old new = (case r of
     Inl _ \<Rightarrow> new = old
   | Inr n \<Rightarrow> n \<le> length old \<and> length new = length old \<and> drop n new = drop n old)"

lemma fills_prefix_length: "fills_prefix r old new \<Longrightarrow> length new = length old"
  by (auto simp: fills_prefix_def split: sum.splits)

locale usb_controller =
  fixes control_transfer :: "'s controller"
  assumes fills: "control_transfer route mps packet (Data_In old) s = Some (r, new, s') \<Longrightarrow> fills_prefix r old new"
begin

lemma control_in_fills:
  "control_in control_transfer route mps rt req v i old s = Some (r, new, s') \<Longrightarrow> fills_prefix r old new"
  by (auto simp: control_in_def Let_def dest: fills)

lemma usb_get_descriptor_fills:
  "usb_get_descriptor control_transfer route mps t i l old s = Some (r, new, s') \<Longrightarrow> fills_prefix r old new"
  by (auto simp: usb_get_descriptor_def Let_def dest: control_in_fills)

lemma get_status_fills:
  "get_status control_transfer route mps rt i old s = Some (r, new, s') \<Longrightarrow> fills_prefix r old new"
  by (auto simp: get_status_def dest: control_in_fills)

end


section \<open>The iterator\<close>

text \<open>A complete descriptor: its first byte is its length.\<close>

definition complete_descriptor :: "u8 list \<Rightarrow> bool" where
  "complete_descriptor d \<longleftrightarrow> 2 \<le> length d \<and> unat (d ! 0) = length d"

text \<open>Bytes that do not start with one.\<close>

definition no_descriptor_first :: "u8 list \<Rightarrow> bool" where
  "no_descriptor_first rest \<longleftrightarrow> \<not> (\<exists>d rest'. rest = d @ rest' \<and> complete_descriptor d)"

lemma complete_head: "complete_descriptor d \<Longrightarrow> (d @ r) ! 0 = d ! 0"
  by (cases d) (simp_all add: complete_descriptor_def)

lemma no_descriptor_first_iff:
  "no_descriptor_first rest \<longleftrightarrow> length rest < 2 \<or> unat (rest ! 0) < 2 \<or> length rest < unat (rest ! 0)"
proof
  assume no: "no_descriptor_first rest"
  show "length rest < 2 \<or> unat (rest ! 0) < 2 \<or> length rest < unat (rest ! 0)"
  proof (rule ccontr)
    assume *: "\<not> ?thesis"
    let ?n = "unat (rest ! 0)"
    have "rest = take ?n rest @ drop ?n rest" "complete_descriptor (take ?n rest)"
      using * by (auto simp: complete_descriptor_def)
    with no show False unfolding no_descriptor_first_def by blast
  qed
next
  assume "length rest < 2 \<or> unat (rest ! 0) < 2 \<or> length rest < unat (rest ! 0)"
  moreover have "2 \<le> length rest \<and> 2 \<le> unat (rest ! 0) \<and> unat (rest ! 0) \<le> length rest"
    if "rest = d @ r" "complete_descriptor d" for d r
    using that complete_head [OF that(2), of r] by (simp add: complete_descriptor_def)
  ultimately show "no_descriptor_first rest" by (force simp: no_descriptor_first_def)
qed

lemma descriptor_next_stops:
  assumes "no_descriptor_first (drop offset bytes)"
  shows "\<exists>o'. descriptor_next bytes offset = (None, o')"
  using assms by (auto simp: no_descriptor_first_iff descriptor_next_def Let_def)

lemma descriptor_next_complete:
  assumes "drop offset bytes = d @ rest" "complete_descriptor d"
  shows "descriptor_next bytes offset = (Some d, offset + length d)" "drop (offset + length d) bytes = rest"
proof -
  have "length (drop offset bytes) = length d + length rest" using assms(1) by simp
  moreover have "2 \<le> length d" using assms(2) by (simp add: complete_descriptor_def)
  ultimately have len: "length bytes = offset + length d + length rest" "offset < length bytes" by simp_all
  then have "bytes ! offset = drop offset bytes ! 0" by simp
  also have "\<dots> = d ! 0" using assms complete_head by simp
  finally have "bytes ! offset = d ! 0" .
  then show "descriptor_next bytes offset = (Some d, offset + length d)"
    using assms len by (simp add: descriptor_next_def complete_descriptor_def Let_def)
  have "drop (offset + length d) bytes = drop (length d) (drop offset bytes)" by (simp add: add.commute)
  then show "drop (offset + length d) bytes = rest" by (simp add: assms(1))
qed

lemma descriptors_from_concat:
  assumes "drop offset bytes = concat ds @ rest" "list_all complete_descriptor ds" "no_descriptor_first rest"
  shows "descriptors_from bytes offset = ds"
  using assms(1,2)
proof (induction ds arbitrary: offset)
  case Nil
  then obtain o' where "descriptor_next bytes offset = (None, o')"
    using descriptor_next_stops [of offset bytes] assms(3) by auto
  then show ?case by (simp add: descriptors_from.simps)
next
  case (Cons d ds)
  then have "drop offset bytes = d @ (concat ds @ rest)" "complete_descriptor d" by simp_all
  note next_d = descriptor_next_complete [OF this]
  from Cons.IH [OF next_d(2)] Cons.prems(2) show ?case by (simp add: descriptors_from.simps next_d(1))
qed

lemma descriptors_split:
  "\<exists>ds rest. bytes = concat ds @ rest \<and> list_all complete_descriptor ds \<and> no_descriptor_first rest"
proof (induction bytes rule: length_induct)
  case (1 bytes)
  show ?case
  proof (cases "no_descriptor_first bytes")
    case True
    then show ?thesis by (intro exI [of _ "[]"] exI [of _ bytes]) simp
  next
    case False
    then obtain d rest' where d: "bytes = d @ rest'" "complete_descriptor d" by (auto simp: no_descriptor_first_def)
    then have "length rest' < length bytes" by (auto simp: complete_descriptor_def)
    then obtain ds rest where "rest' = concat ds @ rest" "list_all complete_descriptor ds" "no_descriptor_first rest"
      using "1.IH" by blast
    with d show ?thesis by (intro exI [of _ "d # ds"] exI [of _ rest]) simp
  qed
qed

text \<open>C29: The iterator over descriptors returns the longest run of complete descriptors at the start of the bytes: their
  concatenation is a prefix, each has the length its first byte names, and what is left does not start with another.\<close>

theorem iterator_returns_complete_prefix:
  "\<exists>rest. bytes = concat (descriptor_iter bytes) @ rest \<and> list_all complete_descriptor (descriptor_iter bytes)
     \<and> no_descriptor_first rest"
proof -
  obtain ds rest where *: "bytes = concat ds @ rest" "list_all complete_descriptor ds" "no_descriptor_first rest"
    using descriptors_split by blast
  then have "descriptor_iter bytes = ds" by (simp add: descriptor_iter_def descriptors_from_concat)
  then show ?thesis using * by (intro exI [of _ rest]) simp
qed

lemma descriptor_iter_concat:
  "list_all complete_descriptor ds \<Longrightarrow> no_descriptor_first rest \<Longrightarrow> descriptor_iter (concat ds @ rest) = ds"
  by (simp add: descriptor_iter_def descriptors_from_concat)

section \<open>Endpoints\<close>

text \<open>The number of the interface that the last interface descriptor of a list announces.\<close>

definition announced_interface :: "u8 list list \<Rightarrow> u8 option" where
  "announced_interface ds =
     (let is = filter (\<lambda>d. descriptor_type d = USB_DESC_INTERFACE) ds
      in if is = [] then None
         else case parse_interface_descriptor (last is) of Inl _ \<Rightarrow> None | Inr i \<Rightarrow> Some (id_interface_number i))"

lemma announced_interface_snoc:
  "announced_interface (ds @ [d]) =
     (if descriptor_type d = USB_DESC_INTERFACE
      then case parse_interface_descriptor d of Inl _ \<Rightarrow> None | Inr i \<Rightarrow> Some (id_interface_number i)
      else announced_interface ds)"
  by (simp add: announced_interface_def)

lemma interrupt_in_scan_sound:
  assumes "interrupt_in_scan n (announced_interface seen) ds = Some e"
  shows "\<exists>before d after. seen @ ds = before @ d # after \<and> announced_interface before = Some n
    \<and> parse_endpoint_descriptor d = Inr e \<and> from_endpoint_address (ei_address e) = Dir_In \<and> endpoint_type e = Ep_Interrupt"
  using assms
proof (induction ds arbitrary: seen)
  case (Cons d ds)
  have split: "seen @ d # ds = (seen @ [d]) @ ds" by simp
  show ?case
  proof (cases "descriptor_type d \<noteq> USB_DESC_INTERFACE \<and> descriptor_type d = USB_DESC_ENDPOINT \<and> announced_interface seen = Some n
      \<and> (\<exists>e'. parse_endpoint_descriptor d = Inr e' \<and> from_endpoint_address (ei_address e') = Dir_In \<and> endpoint_type e' = Ep_Interrupt)")
    case True
    with Cons.prems show ?thesis by (intro exI [of _ seen] exI [of _ d] exI [of _ ds]) auto
  next
    case False
    with Cons.prems have "interrupt_in_scan n (announced_interface (seen @ [d])) ds = Some e"
      by (auto simp: announced_interface_snoc split: if_splits sum.splits)
    from Cons.IH [OF this] show ?thesis unfolding split .
  qed
qed simp

text \<open>C31: The endpoint that is found for an interface is described after the descriptor of that interface and before that of
  another, and is an interrupt endpoint of input.\<close>

theorem interrupt_endpoint_of_interface:
  assumes "find_interrupt_in_endpoint bytes n = Some e"
  shows "\<exists>before d after. descriptor_iter bytes = before @ d # after \<and> announced_interface before = Some n
    \<and> parse_endpoint_descriptor d = Inr e \<and> from_endpoint_address (ei_address e) = Dir_In \<and> endpoint_type e = Ep_Interrupt"
proof -
  have "announced_interface [] = None" by (simp add: announced_interface_def)
  then show ?thesis
    using assms interrupt_in_scan_sound [of n "[]" "descriptor_iter bytes" e] by (simp add: find_interrupt_in_endpoint_def)
qed

text \<open>The configuration of a keyboard: its descriptor, an interface, the descriptor of the HID class and an endpoint.\<close>

definition keyboard_configuration :: "u8 list" where
  "keyboard_configuration =
     [9, 2, 34, 0, 1, 1, 0, 0xa0, 50] @ [9, 4, 0, 0, 1, 3, 1, 1, 0] @ [9, 0x21, 0x11, 1, 0, 1, 0x22, 63, 0] @ [7, 5, 0x81, 3, 8, 0, 10]"

lemma keyboard_endpoint:
  "find_interrupt_in_endpoint keyboard_configuration 0 =
     Some \<lparr>ei_address = 0x81, ei_attributes = 3, ei_max_packet_size = 8, ei_interval = 10\<rparr>"
  by code_simp

theorem interrupt_endpoint_of_interface_witness:
  "\<exists>before d after. descriptor_iter keyboard_configuration = before @ d # after \<and> announced_interface before = Some 0
    \<and> parse_endpoint_descriptor d = Inr \<lparr>ei_address = 0x81, ei_attributes = 3, ei_max_packet_size = 8, ei_interval = 10\<rparr>
    \<and> from_endpoint_address 0x81 = Dir_In"
  using interrupt_endpoint_of_interface [OF keyboard_endpoint] by auto


section \<open>Requests\<close>

text \<open>What a device reads from the eight bytes of a setup packet.\<close>

definition setup_of_bytes :: "u8 list \<Rightarrow> setup_packet" where
  "setup_of_bytes bs = \<lparr>sp_request_type = bs ! 0, sp_request = bs ! 1, sp_value = u16_from_le_bytes (take 2 (drop 2 bs)),
     sp_index = u16_from_le_bytes (take 2 (drop 4 bs)), sp_length = u16_from_le_bytes (take 2 (drop 6 bs))\<rparr>"

text \<open>A setup packet is read back from its encoding.\<close>

theorem setup_packet_roundtrip: "setup_of_bytes (sp_encode p) = p"
proof -
  have "sp_encode p = [sp_request_type p, sp_request p] @ u16_to_le_bytes (sp_value p) @ u16_to_le_bytes (sp_index p)
    @ u16_to_le_bytes (sp_length p)" by (simp add: sp_encode_def)
  then show ?thesis by (simp add: setup_of_bytes_def)
qed

lemma length_sp_encode [simp]: "length (sp_encode p) = 8"
  by (simp add: sp_encode_def)

lemma with_dir_in [simp]: "from_request_type (w OR USB_REQ_DIR_IN) = Dir_In"
proof -
  have "bit ((w OR USB_REQ_DIR_IN) AND USB_REQ_DIR_IN) 7" by (simp add: usb_defs bit_simps)
  then have "(w OR USB_REQ_DIR_IN) AND USB_REQ_DIR_IN \<noteq> 0" by auto
  then show ?thesis by (simp add: from_request_type_def)
qed

lemma without_dir_in [simp]: "from_request_type (w AND NOT USB_REQ_DIR_IN) = Dir_Out"
proof -
  have "(w AND NOT m) AND m = 0" for m :: u8 by (simp add: and.assoc)
  from this [of USB_REQ_DIR_IN] show ?thesis by (simp add: from_request_type_def)
qed

text \<open>An input request is a transfer whose setup packet names the direction in and never asks for more bytes than the
  buffer has.\<close>

theorem control_in_within_buffer:
  "\<exists>packet. control_in ct route mps rt req v i buffer s = ct route mps packet (Data_In buffer) s
     \<and> sp_direction packet = Dir_In \<and> unat (sp_length packet) \<le> length buffer"
proof (intro exI conjI)
  show "control_in ct route mps rt req v i buffer s = ct route mps
    (setup_packet_new (rt OR USB_REQ_DIR_IN) req v i (of_nat (min (length buffer) 0xffff))) (Data_In buffer) s"
    by (simp add: control_in_def)
  have "min (length buffer) 0xffff < 2 ^ 16" by simp
  then show "unat (sp_length (setup_packet_new (rt OR USB_REQ_DIR_IN) req v i (of_nat (min (length buffer) 0xffff)))) \<le> length buffer"
    by (simp add: setup_packet_new_def unsigned_of_nat take_bit_nat_eq_self)
qed (simp add: sp_direction_def setup_packet_new_def)

text \<open>A request without data, whatever its type, is a transfer with the direction out and the length 0.\<close>

theorem control_no_data_is_out:
  "\<exists>packet. control_no_data ct route mps rt req v i s =
       map_option (\<lambda>(r, _, s'). (map_sum id (\<lambda>_. ()) r, s')) (ct route mps packet Data_None s)
     \<and> sp_direction packet = Dir_Out \<and> sp_length packet = 0"
proof (intro exI conjI)
  show "control_no_data ct route mps rt req v i s = map_option (\<lambda>(r, _, s'). (map_sum id (\<lambda>_. ()) r, s'))
    (ct route mps (setup_packet_new (rt AND NOT USB_REQ_DIR_IN) req v i 0) Data_None s)"
    by (auto simp: control_no_data_def Let_def split: option.splits bind_splits)
qed (simp_all add: sp_direction_def setup_packet_new_def)

end
