(* ===== verification/Usb_Keyboard.thy ===== *)
theory Usb_Keyboard
  imports Ring_Array Time
begin

text \<open>The keyboard of \<open>drivers/usb/bcm2708_usb.rs\<close>: the state that the reports of a boot keyboard drive, its queue of bytes,
  the layout of the keys, and the repetition of a key that is held. A report comes in the handler of the interrupt
  endpoint; repetition is driven by the task that reads.\<close>

definition KEYBOARD_REPORT_LEN :: nat where "KEYBOARD_REPORT_LEN = 8"
definition KEYBOARD_QUEUE_LEN :: nat where "KEYBOARD_QUEUE_LEN = 256"
definition KEYBOARD_REPEAT_DELAY :: duration where "KEYBOARD_REPEAT_DELAY = Duration 0 200000000"
definition KEYBOARD_REPEAT_INTERVAL :: duration where "KEYBOARD_REPEAT_INTERVAL = Duration 0 40000000"
definition KEYBOARD_REPEAT_MAX_HOLD :: duration where "KEYBOARD_REPEAT_MAX_HOLD = Duration 10 0"

definition HID_MODIFIER_LEFT_SHIFT :: u8 where "HID_MODIFIER_LEFT_SHIFT = push_bit 1 1"
definition HID_MODIFIER_RIGHT_SHIFT :: u8 where "HID_MODIFIER_RIGHT_SHIFT = push_bit 5 1"
definition HID_MODIFIER_RIGHT_ALT :: u8 where "HID_MODIFIER_RIGHT_ALT = push_bit 6 1"
definition HID_USAGE_CAPS_LOCK :: u8 where "HID_USAGE_CAPS_LOCK = 0x39"

text \<open>\<open>Duration::saturating_sub\<close>, which borrows from the seconds.\<close>

definition duration_saturating_sub :: "duration \<Rightarrow> duration \<Rightarrow> duration" where
  "duration_saturating_sub a b =
     (if a < b then Duration 0 0
      else if subsec_nanos b \<le> subsec_nanos a then Duration (as_secs a - as_secs b) (subsec_nanos a - subsec_nanos b)
      else Duration (as_secs a - as_secs b - 1) (subsec_nanos a + 1000000000 - subsec_nanos b))"


section \<open>The layout\<close>

definition ascii :: "char \<Rightarrow> u8" where
  "ascii c = of_char c"

definition ALT_GR_KEYS :: "(u8 \<times> u8) list" where
  "ALT_GR_KEYS = [(0x14, ascii CHR ''@''), (0x24, ascii CHR ''{''), (0x25, ascii CHR ''[''), (0x26, ascii CHR '']''),
     (0x27, ascii CHR ''}''), (0x2d, 0x5c), (0x30, ascii CHR ''~''), (0x64, ascii CHR ''|'')]"

text \<open>The keys other than letters: what each types alone and with shift.\<close>

definition PLAIN_KEYS :: "(u8 \<times> u8 option \<times> u8 option) list" where
  "PLAIN_KEYS = [
     (0x1e, Some (ascii CHR ''1''), Some (ascii CHR ''!'')),
     (0x1f, Some (ascii CHR ''2''), Some 0x22),
     (0x20, Some (ascii CHR ''3''), None),
     (0x21, Some (ascii CHR ''4''), Some (ascii CHR ''$'')),
     (0x22, Some (ascii CHR ''5''), Some (ascii CHR ''%'')),
     (0x23, Some (ascii CHR ''6''), Some (ascii CHR ''&'')),
     (0x24, Some (ascii CHR ''7''), Some (ascii CHR ''/'')),
     (0x25, Some (ascii CHR ''8''), Some (ascii CHR ''('')),
     (0x26, Some (ascii CHR ''9''), Some (ascii CHR '')'')),
     (0x27, Some (ascii CHR ''0''), Some (ascii CHR ''='')),
     (0x28, Some 0x0a, Some 0x0a),
     (0x29, Some 0x1b, Some 0x1b),
     (0x2a, Some 0x08, Some 0x08),
     (0x2b, Some 0x09, Some 0x09),
     (0x2c, Some 0x20, Some 0x20),
     (0x2d, None, Some (ascii CHR ''?'')),
     (0x30, Some (ascii CHR ''+''), Some (ascii CHR ''*'')),
     (0x31, Some (ascii CHR ''#''), Some 0x27),
     (0x32, Some (ascii CHR ''#''), Some 0x27),
     (0x35, Some (ascii CHR ''^''), None),
     (0x36, Some (ascii CHR '',''), Some (ascii CHR '';'')),
     (0x37, Some (ascii CHR ''.''), Some (ascii CHR '':'')),
     (0x38, Some (ascii CHR ''-''), Some (ascii CHR ''_'')),
     (0x64, Some (ascii CHR ''<''), Some (ascii CHR ''>''))]"

definition translate_letter :: "u8 \<Rightarrow> bool \<Rightarrow> u8 option" where
  "translate_letter usage uppercase = do {
     letter \<leftarrow> (if 0x04 \<le> usage \<and> usage \<le> 0x1b then Some (ascii CHR ''a'' + (usage - 0x04))
               else if usage = 0x1c then Some (ascii CHR ''z'')
               else if usage = 0x1d then Some (ascii CHR ''y'')
               else None);
     Some (if uppercase then letter - 0x20 else letter)
   }"

definition translate_usage :: "u8 \<Rightarrow> u8 \<Rightarrow> bool \<Rightarrow> u8 option" where
  "translate_usage usage modifiers caps_lock =
     (let shift = modifiers AND (HID_MODIFIER_LEFT_SHIFT OR HID_MODIFIER_RIGHT_SHIFT) \<noteq> 0;
          alt_gr = modifiers AND HID_MODIFIER_RIGHT_ALT \<noteq> 0
      in if alt_gr then map_of ALT_GR_KEYS usage
         else if 0x04 \<le> usage \<and> usage \<le> 0x1d then translate_letter usage (shift \<noteq> caps_lock)
         else case map_of PLAIN_KEYS usage of
                None \<Rightarrow> None
              | Some (plain, shifted) \<Rightarrow> if shift then shifted else plain)"


section \<open>Reports\<close>

record repeat_key =
  rk_usage :: u8
  rk_byte :: u8

record keyboard_state =
  kb_previous_report :: "u8 list"
  kb_caps_lock :: bool
  kb_queue :: "u8 ring"
  kb_repeat :: "repeat_key option"
  kb_repeat_tracked :: "u8 option"
  kb_repeat_anchor :: duration
  kb_repeat_last_emit :: duration

definition keyboard_state_new :: keyboard_state where
  "keyboard_state_new = \<lparr>kb_previous_report = replicate KEYBOARD_REPORT_LEN 0, kb_caps_lock = False,
     kb_queue = ring_new KEYBOARD_QUEUE_LEN 0, kb_repeat = None, kb_repeat_tracked = None,
     kb_repeat_anchor = Duration 0 0, kb_repeat_last_emit = Duration 0 0\<rparr>"

definition has_error_rollover :: "u8 list \<Rightarrow> bool" where
  "has_error_rollover report \<longleftrightarrow> list_ex (\<lambda>usage. 0x01 \<le> usage \<and> usage \<le> 0x03) (drop 2 report)"

text \<open>The loop over the keys of a report.\<close>

fun report_keys :: "u8 \<Rightarrow> u8 list \<Rightarrow> keyboard_state \<Rightarrow> keyboard_state option" where
  "report_keys modifiers [] k = Some k"
| "report_keys modifiers (usage # usages) k =
     (if usage \<in> set (drop 2 (kb_previous_report k)) then report_keys modifiers usages k
      else if usage = HID_USAGE_CAPS_LOCK then report_keys modifiers usages (k\<lparr>kb_caps_lock := \<not> kb_caps_lock k\<rparr>)
      else case translate_usage usage modifiers (kb_caps_lock k) of
             None \<Rightarrow> report_keys modifiers usages k
           | Some byte \<Rightarrow> do {
               queue \<leftarrow> ring_push (kb_queue k) byte;
               report_keys modifiers usages (k\<lparr>kb_queue := queue, kb_repeat := Some \<lparr>rk_usage = usage, rk_byte = byte\<rparr>\<rparr>)
             })"

text \<open>What becomes of the key that repeats once the keys are done.\<close>

definition update_repeat :: "u8 list \<Rightarrow> keyboard_state \<Rightarrow> keyboard_state" where
  "update_repeat report k =
     (case kb_repeat k of
        None \<Rightarrow> k
      | Some r \<Rightarrow>
          if rk_usage r \<notin> set (drop 2 report) then k\<lparr>kb_repeat := None\<rparr>
          else case translate_usage (rk_usage r) (report ! 0) (kb_caps_lock k) of
                 None \<Rightarrow> k
               | Some byte \<Rightarrow> k\<lparr>kb_repeat := Some \<lparr>rk_usage = rk_usage r, rk_byte = byte\<rparr>\<rparr>)"

definition handle_report :: "u8 list \<Rightarrow> keyboard_state \<Rightarrow> keyboard_state option" where
  "handle_report report k =
     (if has_error_rollover report then Some k
      else do {
        k1 \<leftarrow> report_keys (report ! 0) (filter (\<lambda>usage. usage \<noteq> 0) (drop 2 report)) k;
        Some ((update_repeat report k1)\<lparr>kb_previous_report := report\<rparr>)
      })"


section \<open>Repetition\<close>

definition stop_repeat :: "keyboard_state \<Rightarrow> keyboard_state" where
  "stop_repeat k = k\<lparr>kb_repeat := None, kb_repeat_tracked := None, kb_previous_report := replicate KEYBOARD_REPORT_LEN 0\<rparr>"

definition service_repeat :: "duration \<Rightarrow> keyboard_state \<Rightarrow> keyboard_state option" where
  "service_repeat now k =
     (case kb_repeat k of
        None \<Rightarrow> Some (k\<lparr>kb_repeat_tracked := None\<rparr>)
      | Some r \<Rightarrow>
          if kb_repeat_tracked k \<noteq> Some (rk_usage r)
          then Some (k\<lparr>kb_repeat_tracked := Some (rk_usage r), kb_repeat_anchor := now, kb_repeat_last_emit := now\<rparr>)
          else if KEYBOARD_REPEAT_MAX_HOLD \<le> duration_saturating_sub now (kb_repeat_anchor k) then Some (stop_repeat k)
          else if KEYBOARD_REPEAT_DELAY \<le> duration_saturating_sub now (kb_repeat_anchor k)
                  \<and> KEYBOARD_REPEAT_INTERVAL \<le> duration_saturating_sub now (kb_repeat_last_emit k)
          then do {
            queue \<leftarrow> ring_push (kb_queue k) (rk_byte r);
            Some (k\<lparr>kb_queue := queue, kb_repeat_last_emit := now\<rparr>)
          }
          else Some k)"

text \<open>The part of \<open>read\<close> that has the lock: what it returns, and the state.\<close>

definition keyboard_read :: "duration \<Rightarrow> keyboard_state \<Rightarrow> (u8 list \<times> keyboard_state) option" where
  "keyboard_read now k = do {
     k1 \<leftarrow> service_repeat now k;
     let len = ring_len (kb_queue k1);
     (_, output, queue) \<leftarrow> ring_drain (kb_queue k1) (replicate len 0);
     Some (output, k1\<lparr>kb_queue := queue\<rparr>)
   }"

text \<open>The two methods of the handler.\<close>

definition handle_interrupt_in :: "u8 list \<Rightarrow> keyboard_state \<Rightarrow> keyboard_state option" where
  "handle_interrupt_in data k = (if length data \<noteq> KEYBOARD_REPORT_LEN then Some k else handle_report data k)"

definition handle_interrupt_error :: "keyboard_state \<Rightarrow> keyboard_state" where
  "handle_interrupt_error k = stop_repeat k"

section \<open>Keystrokes\<close>

text \<open>The keys that a report has and the last one had not, in the order of the report; and what a list of keys types, each with
  the caps lock as the keys before it left it.\<close>

definition newly_pressed :: "u8 list \<Rightarrow> u8 list \<Rightarrow> u8 list" where
  "newly_pressed previous report = filter (\<lambda>u. u \<noteq> 0 \<and> u \<notin> set (drop 2 previous)) (drop 2 report)"

definition typed_bytes :: "u8 list \<Rightarrow> u8 \<Rightarrow> bool \<Rightarrow> u8 list" where
  "typed_bytes keys modifiers caps = concat (map (\<lambda>i.
     case translate_usage (keys ! i) modifiers (caps \<noteq> odd (count_list (take i keys) HID_USAGE_CAPS_LOCK)) of
       Some byte \<Rightarrow> [byte] | None \<Rightarrow> []) [0..<length keys])"

lemma typed_bytes_Nil [simp]: "typed_bytes [] modifiers caps = []"
  by (simp add: typed_bytes_def)

lemma typed_bytes_Cons:
  "typed_bytes (u # us) modifiers caps =
     (case translate_usage u modifiers caps of Some byte \<Rightarrow> [byte] | None \<Rightarrow> [])
       @ typed_bytes us modifiers (if u = HID_USAGE_CAPS_LOCK then \<not> caps else caps)"
proof -
  have "[0..<length (u # us)] = 0 # map Suc [0..<length us]" by (simp add: upt_conv_Cons map_Suc_upt del: upt_Suc)
  moreover have "(caps = odd n) = ((\<not> caps) = even n)" for n :: nat by blast
  ultimately show ?thesis by (auto simp: typed_bytes_def comp_def intro!: arg_cong [where f = concat] map_cong)
qed

lemma caps_lock_types_nothing [simp]: "translate_usage HID_USAGE_CAPS_LOCK modifiers caps = None"
  by (simp add: translate_usage_def HID_USAGE_CAPS_LOCK_def ALT_GR_KEYS_def PLAIN_KEYS_def Let_def)

text \<open>The state between events.\<close>

definition queue_ok :: "u8 ring \<Rightarrow> bool" where
  "queue_ok q \<longleftrightarrow> ring_wf q \<and> ring_capacity q = KEYBOARD_QUEUE_LEN"

definition keyboard_wf :: "keyboard_state \<Rightarrow> bool" where
  "keyboard_wf k \<longleftrightarrow> length (kb_previous_report k) = KEYBOARD_REPORT_LEN \<and> queue_ok (kb_queue k)
     \<and> (case kb_repeat k of None \<Rightarrow> True | Some r \<Rightarrow> rk_usage r \<in> set (drop 2 (kb_previous_report k)))"

lemma keyboard_wf_new: "keyboard_wf keyboard_state_new"
  by (simp add: keyboard_wf_def keyboard_state_new_def queue_ok_def KEYBOARD_QUEUE_LEN_def wf_intros)

lemma queue_push:
  assumes "queue_ok q"
  obtains q' where "ring_push q b = Some q'" "queue_ok q'" "ring_contents q' = last_n 256 (ring_contents q @ [b])"
  using assms ring.push_total [of q b] ring.push_contents [of q b]
  by (auto simp: queue_ok_def KEYBOARD_QUEUE_LEN_def)

lemma queue_bounded: "queue_ok q \<Longrightarrow> length (ring_contents q) \<le> 256"
  using ring.contents_bounded [of q] by (simp add: queue_ok_def KEYBOARD_QUEUE_LEN_def)

lemma report_keys_types:
  assumes "queue_ok (kb_queue k)"
  shows "\<exists>k'. report_keys modifiers us k = Some k' \<and> queue_ok (kb_queue k')
    \<and> ring_contents (kb_queue k') = last_n 256 (ring_contents (kb_queue k)
        @ typed_bytes (filter (\<lambda>u. u \<notin> set (drop 2 (kb_previous_report k))) us) modifiers (kb_caps_lock k))"
  using assms
proof (induction us arbitrary: k)
  case Nil
  then show ?case using queue_bounded [of "kb_queue k"] by simp
next
  case (Cons u us)
  consider (held) "u \<in> set (drop 2 (kb_previous_report k))"
    | (caps) "u \<notin> set (drop 2 (kb_previous_report k))" "u = HID_USAGE_CAPS_LOCK"
    | (none) "u \<notin> set (drop 2 (kb_previous_report k))" "u \<noteq> HID_USAGE_CAPS_LOCK" "translate_usage u modifiers (kb_caps_lock k) = None"
    | (byte) b where "u \<notin> set (drop 2 (kb_previous_report k))" "u \<noteq> HID_USAGE_CAPS_LOCK"
        "translate_usage u modifiers (kb_caps_lock k) = Some b"
    by (cases "translate_usage u modifiers (kb_caps_lock k)") auto
  then show ?case
  proof cases
    case held
    then show ?thesis using Cons.IH [OF Cons.prems] by simp
  next
    case caps
    then show ?thesis using Cons.IH [of "k\<lparr>kb_caps_lock := \<not> kb_caps_lock k\<rparr>"] Cons.prems
      by (simp add: typed_bytes_Cons)
  next
    case none
    then show ?thesis using Cons.IH [OF Cons.prems] by (simp add: typed_bytes_Cons)
  next
    case byte
    obtain q where q: "ring_push (kb_queue k) b = Some q" "queue_ok q"
      "ring_contents q = last_n 256 (ring_contents (kb_queue k) @ [b])" by (rule queue_push [OF Cons.prems])
    show ?thesis
      using Cons.IH [of "k\<lparr>kb_queue := q, kb_repeat := Some \<lparr>rk_usage = u, rk_byte = b\<rparr>\<rparr>"] byte q
      by (simp add: typed_bytes_Cons last_n_append_last_n)
  qed
qed

lemma update_repeat_fields [simp]:
  "kb_queue (update_repeat report k) = kb_queue k" "kb_caps_lock (update_repeat report k) = kb_caps_lock k"
  by (simp_all add: update_repeat_def split: option.split)

lemma update_repeat_held: "kb_repeat (update_repeat report k) = Some r \<Longrightarrow> rk_usage r \<in> set (drop 2 report)"
  by (auto simp: update_repeat_def split: option.splits if_splits)

lemma handle_report_types:
  assumes "queue_ok (kb_queue k)" "\<not> has_error_rollover report"
  shows "\<exists>k'. handle_report report k = Some k' \<and> queue_ok (kb_queue k') \<and> kb_previous_report k' = report
    \<and> (\<forall>r. kb_repeat k' = Some r \<longrightarrow> rk_usage r \<in> set (drop 2 report))
    \<and> ring_contents (kb_queue k') = last_n 256 (ring_contents (kb_queue k)
        @ typed_bytes (newly_pressed (kb_previous_report k) report) (report ! 0) (kb_caps_lock k))"
proof -
  have "filter (\<lambda>u. u \<notin> set (drop 2 (kb_previous_report k))) (filter (\<lambda>u. u \<noteq> 0) (drop 2 report))
      = newly_pressed (kb_previous_report k) report"
    by (auto simp: newly_pressed_def intro!: filter_cong)
  with report_keys_types [OF assms(1), of "report ! 0" "filter (\<lambda>u. u \<noteq> 0) (drop 2 report)"] assms(2)
  show ?thesis by (auto simp: handle_report_def dest: update_repeat_held)
qed

text \<open>C26: A report of eight bytes without an error puts into the queue what the newly pressed keys type, in the order of the
  report and with the caps lock as the keys before left it; when the queue is full the oldest bytes give way.\<close>

theorem report_types_new_keys:
  assumes "keyboard_wf k" "length report = 8" "\<not> has_error_rollover report"
  shows "\<exists>k'. handle_interrupt_in report k = Some k' \<and> ring_contents (kb_queue k') = last_n 256 (ring_contents (kb_queue k)
    @ typed_bytes (newly_pressed (kb_previous_report k) report) (report ! 0) (kb_caps_lock k))"
  using handle_report_types [of k report] assms
  by (auto simp: keyboard_wf_def handle_interrupt_in_def KEYBOARD_REPORT_LEN_def)

text \<open>With shift: A, the caps lock, B and 1. The lock undoes the shift for the letter and not for the digit.\<close>

theorem report_types_new_keys_witness:
  "\<exists>k'. handle_interrupt_in [2, 0, 0x04, 0x39, 0x05, 0x1e, 0, 0] keyboard_state_new = Some k'
     \<and> ring_contents (kb_queue k') = map ascii ''Ab!''"
proof -
  have "\<not> has_error_rollover [2, 0, 0x04, 0x39, 0x05, 0x1e, 0, 0]" by code_simp
  from report_types_new_keys [OF keyboard_wf_new _ this]
  have "\<exists>k'. handle_interrupt_in [2, 0, 0x04, 0x39, 0x05, 0x1e, 0, 0] keyboard_state_new = Some k'
    \<and> ring_contents (kb_queue k') = last_n 256 (ring_contents (kb_queue keyboard_state_new) @ typed_bytes (newly_pressed
        (kb_previous_report keyboard_state_new) [2, 0, 0x04, 0x39, 0x05, 0x1e, 0, 0]) 2 (kb_caps_lock keyboard_state_new))" by simp
  moreover have "last_n 256 (ring_contents (kb_queue keyboard_state_new) @ typed_bytes (newly_pressed
      (kb_previous_report keyboard_state_new) [2, 0, 0x04, 0x39, 0x05, 0x1e, 0, 0]) 2 (kb_caps_lock keyboard_state_new)) = map ascii ''Ab!''"
    by code_simp
  ultimately show ?thesis by simp
qed

section \<open>Runs of the keyboard\<close>

text \<open>What happens to a keyboard: data arrives, the transfer fails, the task reads at a time. A run returns all bytes that were
  read.\<close>

datatype keyboard_event = Kb_Data "u8 list" | Kb_Error | Kb_Read duration

fun keyboard_step :: "keyboard_event \<Rightarrow> keyboard_state \<Rightarrow> (u8 list \<times> keyboard_state) option" where
  "keyboard_step (Kb_Data data) k = map_option (Pair []) (handle_interrupt_in data k)"
| "keyboard_step Kb_Error k = Some ([], handle_interrupt_error k)"
| "keyboard_step (Kb_Read now) k = keyboard_read now k"

fun run_keyboard :: "keyboard_event list \<Rightarrow> keyboard_state \<Rightarrow> (u8 list \<times> keyboard_state) option" where
  "run_keyboard [] k = Some ([], k)"
| "run_keyboard (e # es) k = do {
     (out, k1) \<leftarrow> keyboard_step e k;
     (outs, k2) \<leftarrow> run_keyboard es k1;
     Some (out @ outs, k2)
   }"

lemma keyboard_wf_stop [simp]: "keyboard_wf k \<Longrightarrow> keyboard_wf (stop_repeat k)"
  by (simp add: keyboard_wf_def stop_repeat_def)

lemma queue_drain:
  assumes "queue_ok q"
  obtains q' where "ring_drain q (replicate (ring_len q) 0) = Some (length (ring_contents q), ring_contents q, q')"
    "queue_ok q'" "ring_contents q' = []"
proof -
  have len: "ring_len q = length (ring_contents q)" using assms by (simp add: queue_ok_def ring_len_contents)
  have "queue_ok (ring_clear q)"
    using assms by (simp add: queue_ok_def wf_intros) (simp add: ring_capacity_def ring_clear_def)
  with that [of "if ring_contents q = [] then q else ring_clear q"] assms show thesis
    by (simp add: queue_ok_def ring_drain_spec len)
qed

lemma service_repeat_wf:
  assumes "keyboard_wf k"
  obtains k' where "service_repeat now k = Some k'" "keyboard_wf k'"
proof (cases "kb_repeat k")
  case None
  then show thesis using that assms by (simp add: service_repeat_def keyboard_wf_def)
next
  case (Some r)
  obtain q where "ring_push (kb_queue k) (rk_byte r) = Some q" "queue_ok q"
    using assms queue_push [of "kb_queue k" "rk_byte r"] by (auto simp: keyboard_wf_def)
  then have "\<exists>k'. service_repeat now k = Some k' \<and> keyboard_wf k'"
    using assms Some by (simp add: service_repeat_def) (simp add: keyboard_wf_def)
  with that show thesis by blast
qed

lemma keyboard_read_wf:
  assumes "service_repeat now k = Some k1" "keyboard_wf k1"
  obtains k' where "keyboard_read now k = Some (ring_contents (kb_queue k1), k')" "keyboard_wf k'"
    "ring_contents (kb_queue k') = []" "k' = k1\<lparr>kb_queue := kb_queue k'\<rparr>"
proof -
  obtain q' where q: "ring_drain (kb_queue k1) (replicate (ring_len (kb_queue k1)) 0)
      = Some (length (ring_contents (kb_queue k1)), ring_contents (kb_queue k1), q')" "queue_ok q'" "ring_contents q' = []"
    using queue_drain [of "kb_queue k1"] assms(2) by (auto simp: keyboard_wf_def)
  have "keyboard_wf (k1\<lparr>kb_queue := q'\<rparr>)" using assms(2) q(2) by (simp add: keyboard_wf_def split: option.splits)
  with that [of "k1\<lparr>kb_queue := q'\<rparr>"] assms(1) q show thesis by (simp add: keyboard_read_def)
qed

lemma keyboard_step_wf:
  assumes "keyboard_wf k" shows "\<exists>out k'. keyboard_step e k = Some (out, k') \<and> keyboard_wf k'"
proof (cases e)
  case (Kb_Data data)
  show ?thesis
  proof (cases "length data \<noteq> KEYBOARD_REPORT_LEN \<or> has_error_rollover data")
    case True
    then show ?thesis using assms Kb_Data by (auto simp: handle_interrupt_in_def handle_report_def)
  next
    case False
    then show ?thesis using assms Kb_Data handle_report_types [of k data]
      by (auto simp: handle_interrupt_in_def keyboard_wf_def split: option.split)
  qed
next
  case Kb_Error
  then show ?thesis using assms by (simp add: handle_interrupt_error_def)
next
  case (Kb_Read now)
  from service_repeat_wf [OF assms] obtain k1 where "service_repeat now k = Some k1" "keyboard_wf k1" .
  then obtain k' where "keyboard_read now k = Some (ring_contents (kb_queue k1), k')" "keyboard_wf k'" by (rule keyboard_read_wf)
  with Kb_Read show ?thesis by simp
qed

lemma run_keyboard_wf: "keyboard_wf k \<Longrightarrow> \<exists>out k'. run_keyboard es k = Some (out, k') \<and> keyboard_wf k'"
proof (induction es arbitrary: k)
  case (Cons e es)
  from keyboard_step_wf [OF Cons.prems, of e] obtain out k1 where "keyboard_step e k = Some (out, k1)" "keyboard_wf k1" by blast
  with Cons.IH [of k1] show ?case by auto
qed simp

text \<open>C38: Whatever reports, errors and reads come in whatever order, the keyboard never panics: its last report has eight bytes,
  its queue is a ring of 256, and the key that repeats is one of the keys of the last report.\<close>

theorem keyboard_stays_well_typed:
  "\<exists>out k. run_keyboard es keyboard_state_new = Some (out, k) \<and> length (kb_previous_report k) = 8
     \<and> ring_wf (kb_queue k) \<and> ring_capacity (kb_queue k) = 256
     \<and> (\<nexists>r. kb_repeat k = Some r \<and> rk_usage r \<notin> set (drop 2 (kb_previous_report k)))"
  using run_keyboard_wf [OF keyboard_wf_new, of es]
  by (auto simp: keyboard_wf_def queue_ok_def KEYBOARD_REPORT_LEN_def KEYBOARD_QUEUE_LEN_def split: option.splits)


section \<open>How long a key repeats\<close>

definition dur_ns :: "duration \<Rightarrow> nat" where
  "dur_ns d = unat (as_secs d) * 1000000000 + unat (subsec_nanos d)"

lemma duration_less_iff:
  assumes "duration_ok a" "duration_ok b" shows "a < b \<longleftrightarrow> dur_ns a < dur_ns b"
proof -
  have "as_secs a = as_secs b \<longleftrightarrow> unat (as_secs a) = unat (as_secs b)" by (simp add: unat_arith_simps)
  moreover have "unat (as_secs a) < unat (as_secs b) \<Longrightarrow> unat (as_secs a) + 1 \<le> unat (as_secs b)"
    "unat (as_secs b) < unat (as_secs a) \<Longrightarrow> unat (as_secs b) + 1 \<le> unat (as_secs a)" by simp_all
  ultimately show ?thesis using assms
    by (auto simp: less_duration_def dur_ns_def duration_ok_def word_less_nat_alt)
qed

lemma duration_le_iff: "duration_ok a \<Longrightarrow> duration_ok b \<Longrightarrow> a \<le> b \<longleftrightarrow> dur_ns a \<le> dur_ns b"
  using duration_less_iff [of b a] by (simp add: not_less [symmetric])

lemma saturating_sub_ns:
  assumes "duration_ok a" "duration_ok b"
  shows "duration_ok (duration_saturating_sub a b)" "dur_ns (duration_saturating_sub a b) = dur_ns a - dur_ns b"
proof -
  let ?d = "duration_saturating_sub a b"
  note ok = assms [unfolded duration_ok_def]
  have "duration_ok ?d \<and> dur_ns ?d = dur_ns a - dur_ns b"
  proof (cases "a < b")
    case True
    then show ?thesis using duration_less_iff [OF assms]
      by (simp add: duration_saturating_sub_def dur_ns_def duration_ok_def)
  next
    case False
    then have le: "unat (as_secs b) \<le> unat (as_secs a)" "unat (as_secs b) = unat (as_secs a) \<Longrightarrow> unat (subsec_nanos b) \<le> unat (subsec_nanos a)"
      by (auto simp: less_duration_def word_less_nat_alt unat_arith_simps not_less)
    then have secs: "unat (as_secs a - as_secs b) = unat (as_secs a) - unat (as_secs b)" by (simp add: unat_sub word_le_nat_alt)
    show ?thesis
    proof (cases "subsec_nanos b \<le> subsec_nanos a")
      case True
      then have "unat (subsec_nanos a - subsec_nanos b) = unat (subsec_nanos a) - unat (subsec_nanos b)" by (simp add: unat_sub)
      with True False ok le secs show ?thesis
        by (simp add: duration_saturating_sub_def dur_ns_def duration_ok_def word_le_nat_alt diff_mult_distrib)
    next
      case lt: False
      then have lt': "unat (subsec_nanos a) < unat (subsec_nanos b)" by (simp add: word_le_nat_alt)
      then have more: "unat (as_secs b) < unat (as_secs a)" using le by (metis le_neq_implies_less not_less)
      have "unat (subsec_nanos a + 1000000000) = unat (subsec_nanos a) + 1000000000"
        using ok(1) by (subst unat_add_lem [THEN iffD1]) simp_all
      moreover have "subsec_nanos b \<le> subsec_nanos a + 1000000000" using calculation ok by (simp add: word_le_nat_alt)
      ultimately have "unat (subsec_nanos a + 1000000000 - subsec_nanos b) = unat (subsec_nanos a) + 1000000000 - unat (subsec_nanos b)"
        by (simp add: unat_sub)
      moreover have "unat (as_secs a - as_secs b - 1) = unat (as_secs a) - unat (as_secs b) - 1"
        using more secs by (subst unat_minus_one) (auto simp: unat_eq_0)
      moreover obtain n where "unat (as_secs a) = unat (as_secs b) + 1 + n" using more by (metis add.commute less_iff_Suc_add plus_1_eq_Suc add.assoc)
      ultimately show ?thesis using False lt lt' ok
        by (simp add: duration_saturating_sub_def dur_ns_def duration_ok_def add_mult_distrib) linarith
    qed
  qed
  then show "duration_ok ?d" "dur_ns ?d = dur_ns a - dur_ns b" by simp_all
qed

definition repeat_times_ok :: "keyboard_state \<Rightarrow> bool" where
  "repeat_times_ok k \<longleftrightarrow> duration_ok (kb_repeat_anchor k) \<and> duration_ok (kb_repeat_last_emit k)"

text \<open>How often a key can still repeat: from 200 ms after the anchor and 40 ms after the last repetition, every 40 ms, until
  10 s after the anchor.\<close>

definition repeats_from :: "nat \<Rightarrow> nat \<Rightarrow> nat" where
  "repeats_from anchor emit = (anchor + 10000000000 + 40000000 - 1 - max (anchor + 200000000) (emit + 40000000)) div 40000000"

definition repeats_left :: "keyboard_state \<Rightarrow> nat" where
  "repeats_left k = (case kb_repeat k of
     None \<Rightarrow> 0
   | Some r \<Rightarrow> if kb_repeat_tracked k = Some (rk_usage r) then repeats_from (dur_ns (kb_repeat_anchor k)) (dur_ns (kb_repeat_last_emit k))
               else 245)"

lemma repeats_from_le: "repeats_from a l \<le> 245"
proof -
  have "a + 10000000000 + 40000000 - 1 - max (a + 200000000) (l + 40000000) \<le> 9839999999" by (auto simp: max_def)
  then have "repeats_from a l \<le> 9839999999 div 40000000" unfolding repeats_from_def by (rule div_le_mono)
  then show ?thesis by simp
qed

lemma repeats_from_emit:
  assumes "200000000 \<le> now - a" "40000000 \<le> now - l" "now - a < 10000000000"
  shows "repeats_from a now + 1 \<le> repeats_from a l"
proof -
  have "a + 200000000 \<le> now" "l + 40000000 \<le> now" "now < a + 10000000000" using assms by linarith+
  then have "max (a + 200000000) (l + 40000000) \<le> now" "now < a + 10000000000" by simp_all
  moreover have "max (a + 200000000) (now + 40000000) = now + 40000000" using \<open>a + 200000000 \<le> now\<close> by simp
  ultimately have "(a + 10000000000 + 40000000 - 1 - max (a + 200000000) (now + 40000000)) + 40000000
      \<le> a + 10000000000 + 40000000 - 1 - max (a + 200000000) (l + 40000000)" by linarith
  then have "((a + 10000000000 + 40000000 - 1 - max (a + 200000000) (now + 40000000)) + 40000000) div 40000000 \<le> repeats_from a l"
    unfolding repeats_from_def by (rule div_le_mono)
  moreover have "(x + 40000000) div 40000000 = x div 40000000 + 1" for x :: nat by simp
  ultimately show ?thesis by (simp only: repeats_from_def)
qed

lemma service_repeat_left:
  assumes "keyboard_wf k" "repeat_times_ok k" "duration_ok now" "service_repeat now k = Some k'"
  shows "repeat_times_ok k'"
    and "length (ring_contents (kb_queue k')) + repeats_left k' \<le> length (ring_contents (kb_queue k)) + repeats_left k"
proof -
  have "repeat_times_ok k' \<and> length (ring_contents (kb_queue k')) + repeats_left k' \<le> length (ring_contents (kb_queue k)) + repeats_left k"
  proof (cases "kb_repeat k")
    case None
    then show ?thesis using assms by (auto simp: service_repeat_def repeat_times_ok_def repeats_left_def)
  next
    case (Some r)
    obtain q where q: "ring_push (kb_queue k) (rk_byte r) = Some q" "ring_contents q = last_n 256 (ring_contents (kb_queue k) @ [rk_byte r])"
      using assms(1) queue_push [of "kb_queue k" "rk_byte r"] by (auto simp: keyboard_wf_def)
    note ok = assms(2) [unfolded repeat_times_ok_def]
    have limits: "duration_ok KEYBOARD_REPEAT_MAX_HOLD" "duration_ok KEYBOARD_REPEAT_DELAY" "duration_ok KEYBOARD_REPEAT_INTERVAL"
        "dur_ns KEYBOARD_REPEAT_MAX_HOLD = 10000000000" "dur_ns KEYBOARD_REPEAT_DELAY = 200000000" "dur_ns KEYBOARD_REPEAT_INTERVAL = 40000000"
      by (simp_all add: duration_ok_def dur_ns_def KEYBOARD_REPEAT_MAX_HOLD_def KEYBOARD_REPEAT_DELAY_def KEYBOARD_REPEAT_INTERVAL_def)
    show ?thesis
    proof (cases "kb_repeat_tracked k = Some (rk_usage r)")
      case False
      then show ?thesis using assms Some repeats_from_le
        by (auto simp: service_repeat_def repeat_times_ok_def repeats_left_def)
    next
      case True
      let ?a = "dur_ns (kb_repeat_anchor k)" and ?l = "dur_ns (kb_repeat_last_emit k)"
      have cmp: "KEYBOARD_REPEAT_MAX_HOLD \<le> duration_saturating_sub now (kb_repeat_anchor k) \<longleftrightarrow> 10000000000 \<le> dur_ns now - ?a"
        "KEYBOARD_REPEAT_DELAY \<le> duration_saturating_sub now (kb_repeat_anchor k) \<longleftrightarrow> 200000000 \<le> dur_ns now - ?a"
        "KEYBOARD_REPEAT_INTERVAL \<le> duration_saturating_sub now (kb_repeat_last_emit k) \<longleftrightarrow> 40000000 \<le> dur_ns now - ?l"
        using ok assms(3) limits by (simp_all add: duration_le_iff saturating_sub_ns)
      have run: "service_repeat now k =
          (if 10000000000 \<le> dur_ns now - ?a then Some (stop_repeat k)
           else if 200000000 \<le> dur_ns now - ?a \<and> 40000000 \<le> dur_ns now - ?l
           then Some (k\<lparr>kb_queue := q, kb_repeat_last_emit := now\<rparr>) else Some k)"
        by (simp add: service_repeat_def Some True cmp q(1))
      then show ?thesis
      proof (cases "200000000 \<le> dur_ns now - ?a \<and> 40000000 \<le> dur_ns now - ?l \<and> dur_ns now - ?a < 10000000000")
        case emit: True
        then have "k' = k\<lparr>kb_queue := q, kb_repeat_last_emit := now\<rparr>" using run assms(4) by simp
        with emit repeats_from_emit [of "dur_ns now" ?a ?l] show ?thesis
          using ok assms(3) by (simp add: repeat_times_ok_def repeats_left_def Some True q(2))
      next
        case no: False
        then have "k' = stop_repeat k \<or> k' = k" using run assms(4) by (auto split: if_splits)
        then show ?thesis using assms(2) by (auto simp: stop_repeat_def repeat_times_ok_def repeats_left_def)
      qed
    qed
  qed
  then show "repeat_times_ok k'"
    "length (ring_contents (kb_queue k')) + repeats_left k' \<le> length (ring_contents (kb_queue k)) + repeats_left k" by simp_all
qed

lemma reads_bounded:
  assumes "keyboard_wf k" "repeat_times_ok k" "list_all duration_ok ts"
  shows "\<exists>out k'. run_keyboard (map Kb_Read ts) k = Some (out, k')
    \<and> length out \<le> length (ring_contents (kb_queue k)) + repeats_left k"
  using assms
proof (induction ts arbitrary: k)
  case (Cons now ts)
  obtain k1 where k1: "service_repeat now k = Some k1" "keyboard_wf k1" using Cons.prems(1) by (rule service_repeat_wf)
  note left = service_repeat_left [OF Cons.prems(1,2) _ k1(1)]
  obtain k2 where k2: "keyboard_read now k = Some (ring_contents (kb_queue k1), k2)" "keyboard_wf k2" "ring_contents (kb_queue k2) = []"
    "k2 = k1\<lparr>kb_queue := kb_queue k2\<rparr>" using k1 by (rule keyboard_read_wf)
  have ok: "duration_ok now" "list_all duration_ok ts" using Cons.prems(3) by simp_all
  have "repeats_left (k1\<lparr>kb_queue := kb_queue k2\<rparr>) = repeats_left k1" "repeat_times_ok (k1\<lparr>kb_queue := kb_queue k2\<rparr>)"
    using left(1) [OF ok(1)] by (simp_all add: repeats_left_def repeat_times_ok_def split: option.split)
  then have same: "repeats_left k2 = repeats_left k1" "repeat_times_ok k2" using k2(4) by simp_all
  from Cons.IH [OF k2(2) same(2) ok(2)] obtain out k' where
    "run_keyboard (map Kb_Read ts) k2 = Some (out, k')" "length out \<le> repeats_left k1" using k2(3) same(1) by auto
  then show ?case using left(2) [OF ok(1)] k2(1) by simp
qed simp


text \<open>A, held and read after 0, 200 and 239 ms.\<close>

definition holding_a :: keyboard_state where
  "holding_a = keyboard_state_new\<lparr>kb_previous_report := [0, 0, 0x04, 0, 0, 0, 0, 0],
     kb_repeat := Some \<lparr>rk_usage = 0x04, rk_byte = ascii CHR ''a''\<rparr>\<rparr>"


text \<open>The limit ends with the next report: \<open>stop_repeat\<close> also forgets the last report, so the keys that are still down type
  again and repeat anew. The keyboard is asked to report every 100 ms.\<close>

theorem stopped_key_types_again:
  assumes "keyboard_wf k" "\<not> has_error_rollover report"
  shows "\<exists>k'. handle_report report (stop_repeat k) = Some k' \<and> ring_contents (kb_queue k') =
    last_n 256 (ring_contents (kb_queue k) @ typed_bytes (filter (\<lambda>u. u \<noteq> 0) (drop 2 report)) (report ! 0) (kb_caps_lock k))"
proof -
  have "newly_pressed (replicate 8 0) report = filter (\<lambda>u. u \<noteq> 0) (drop 2 report)"
    by (auto simp: newly_pressed_def intro!: filter_cong)
  with handle_report_types [of "stop_repeat k" report] assms show ?thesis
    by (auto simp: stop_repeat_def keyboard_wf_def KEYBOARD_REPORT_LEN_def)
qed

theorem stopped_key_types_again_witness:
  "\<exists>k'. handle_report [0, 0, 0x04, 0, 0, 0, 0, 0] (stop_repeat holding_a) = Some k' \<and> ring_contents (kb_queue k') = [ascii CHR ''a'']"
proof -
  have wf: "keyboard_wf holding_a"
    using keyboard_wf_new by (simp add: keyboard_wf_def holding_a_def keyboard_state_new_def KEYBOARD_REPORT_LEN_def)
  have "last_n 256 (ring_contents (kb_queue holding_a) @ typed_bytes (filter (\<lambda>u. u \<noteq> 0) (drop 2 [0, 0, 0x04, 0, 0, 0, 0, 0])) 0
      (kb_caps_lock holding_a)) = [ascii CHR ''a'']" by code_simp
  with stopped_key_types_again [OF wf, of "[0, 0, 0x04, 0, 0, 0, 0, 0]"] show ?thesis by (simp add: has_error_rollover_def)
qed

end
