(* ===== verification/Usb_Host.thy ===== *)
theory Usb_Host
  imports Usb_Core Usb_Keyboard Timers Firmware
begin

text \<open>The USB host controller of the board (\<open>drivers/usb/bcm2708_usb.rs\<close>): its registers, the waits on the counter of the
  processor, the set-up of the core and of the root port, and control transfers on a channel that is polled. What the
  registers, the counter and the memory that the controller reads and writes do is a parameter; every function is
  \<open>None\<close> where the code panics or does not return. The locks and the cache are left out, and a message to the log is
  only the reads of registers that it makes.\<close>

named_theorems hcd_defs \<open>constants of the controller\<close>

definition USB_POWER_STATE_ON :: u32 where [hcd_defs]: "USB_POWER_STATE_ON = push_bit 0 1"
definition USB_POWER_STATE_WAIT :: u32 where [hcd_defs]: "USB_POWER_STATE_WAIT = push_bit 1 1"
definition USB_HCD_DEVICE_ID :: u32 where [hcd_defs]: "USB_HCD_DEVICE_ID = 0x00000003"
definition CONTROL_CHANNEL :: nat where [hcd_defs]: "CONTROL_CHANNEL = 0"
definition INTERRUPT_CHANNEL :: nat where [hcd_defs]: "INTERRUPT_CHANNEL = 1"
definition SETUP_BUFFER_LEN :: nat where [hcd_defs]: "SETUP_BUFFER_LEN = 8"
definition CONTROL_BUFFER_LEN :: nat where [hcd_defs]: "CONTROL_BUFFER_LEN = 1024"
definition USB_BUS_UNCACHED_ALIAS :: u32 where [hcd_defs]: "USB_BUS_UNCACHED_ALIAS = 0xc0000000"
definition USB_CORE_AHB_CFG_OFFSET :: usize where [hcd_defs]: "USB_CORE_AHB_CFG_OFFSET = 0x008"
definition USB_CORE_USB_CFG_OFFSET :: usize where [hcd_defs]: "USB_CORE_USB_CFG_OFFSET = 0x00c"
definition USB_CORE_RESET_OFFSET :: usize where [hcd_defs]: "USB_CORE_RESET_OFFSET = 0x010"
definition USB_CORE_INT_STATUS_OFFSET :: usize where [hcd_defs]: "USB_CORE_INT_STATUS_OFFSET = 0x014"
definition USB_CORE_INT_MASK_OFFSET :: usize where [hcd_defs]: "USB_CORE_INT_MASK_OFFSET = 0x018"
definition USB_CORE_HW_CFG2_OFFSET :: usize where [hcd_defs]: "USB_CORE_HW_CFG2_OFFSET = 0x048"
definition USB_HOST_CFG_OFFSET :: usize where [hcd_defs]: "USB_HOST_CFG_OFFSET = 0x400"
definition USB_HOST_FRAME_INTERVAL_OFFSET :: usize where [hcd_defs]: "USB_HOST_FRAME_INTERVAL_OFFSET = 0x404"
definition USB_HOST_FRAME_NUMBER_OFFSET :: usize where [hcd_defs]: "USB_HOST_FRAME_NUMBER_OFFSET = 0x408"
definition USB_HOST_ALL_CHANNEL_INT_OFFSET :: usize where [hcd_defs]: "USB_HOST_ALL_CHANNEL_INT_OFFSET = 0x414"
definition USB_HOST_ALL_CHANNEL_INT_MASK_OFFSET :: usize where [hcd_defs]: "USB_HOST_ALL_CHANNEL_INT_MASK_OFFSET = 0x418"
definition USB_HOST_PORT_OFFSET :: usize where [hcd_defs]: "USB_HOST_PORT_OFFSET = 0x440"
definition USB_POWER_OFFSET :: usize where [hcd_defs]: "USB_POWER_OFFSET = 0xe00"
definition USB_HOST_CHANNEL_BASE_OFFSET :: usize where [hcd_defs]: "USB_HOST_CHANNEL_BASE_OFFSET = 0x500"
definition USB_HOST_CHANNEL_STRIDE :: usize where [hcd_defs]: "USB_HOST_CHANNEL_STRIDE = 0x20"
definition USB_HOST_CHANNEL_CHARACTER_OFFSET :: usize where [hcd_defs]: "USB_HOST_CHANNEL_CHARACTER_OFFSET = 0x00"
definition USB_HOST_CHANNEL_SPLIT_CTRL_OFFSET :: usize where [hcd_defs]: "USB_HOST_CHANNEL_SPLIT_CTRL_OFFSET = 0x04"
definition USB_HOST_CHANNEL_INT_OFFSET :: usize where [hcd_defs]: "USB_HOST_CHANNEL_INT_OFFSET = 0x08"
definition USB_HOST_CHANNEL_INT_MASK_OFFSET :: usize where [hcd_defs]: "USB_HOST_CHANNEL_INT_MASK_OFFSET = 0x0c"
definition USB_HOST_CHANNEL_XFER_SIZE_OFFSET :: usize where [hcd_defs]: "USB_HOST_CHANNEL_XFER_SIZE_OFFSET = 0x10"
definition USB_HOST_CHANNEL_DMA_ADDR_OFFSET :: usize where [hcd_defs]: "USB_HOST_CHANNEL_DMA_ADDR_OFFSET = 0x14"
definition GAHBCFG_GLBL_INTR_EN :: u32 where [hcd_defs]: "GAHBCFG_GLBL_INTR_EN = push_bit 0 1"
definition GAHBCFG_HBSTLEN_MASK :: u32 where [hcd_defs]: "GAHBCFG_HBSTLEN_MASK = push_bit 1 0xf"
definition GAHBCFG_WAIT_AXI_WRITES :: u32 where [hcd_defs]: "GAHBCFG_WAIT_AXI_WRITES = push_bit 4 1"
definition GAHBCFG_DMA_EN :: u32 where [hcd_defs]: "GAHBCFG_DMA_EN = push_bit 5 1"
definition GUSBCFG_PHYIF16 :: u32 where [hcd_defs]: "GUSBCFG_PHYIF16 = push_bit 3 1"
definition GUSBCFG_ULPI_UTMI_SEL :: u32 where [hcd_defs]: "GUSBCFG_ULPI_UTMI_SEL = push_bit 4 1"
definition GUSBCFG_SRPCAP :: u32 where [hcd_defs]: "GUSBCFG_SRPCAP = push_bit 8 1"
definition GUSBCFG_HNPCAP :: u32 where [hcd_defs]: "GUSBCFG_HNPCAP = push_bit 9 1"
definition GUSBCFG_ULPI_FS_LS :: u32 where [hcd_defs]: "GUSBCFG_ULPI_FS_LS = push_bit 17 1"
definition GUSBCFG_ULPI_CLK_SUSP_M :: u32 where [hcd_defs]: "GUSBCFG_ULPI_CLK_SUSP_M = push_bit 19 1"
definition GUSBCFG_ULPI_EXT_VBUS_DRV :: u32 where [hcd_defs]: "GUSBCFG_ULPI_EXT_VBUS_DRV = push_bit 20 1"
definition GUSBCFG_TERMSELDLPULSE :: u32 where [hcd_defs]: "GUSBCFG_TERMSELDLPULSE = push_bit 22 1"
definition GUSBCFG_FORCEHOSTMODE :: u32 where [hcd_defs]: "GUSBCFG_FORCEHOSTMODE = push_bit 29 1"
definition GUSBCFG_FORCEDEVMODE :: u32 where [hcd_defs]: "GUSBCFG_FORCEDEVMODE = push_bit 30 1"
definition GRSTCTL_CSFTRST :: u32 where [hcd_defs]: "GRSTCTL_CSFTRST = push_bit 0 1"
definition GRSTCTL_RXFFLSH :: u32 where [hcd_defs]: "GRSTCTL_RXFFLSH = push_bit 4 1"
definition GRSTCTL_TXFFLSH :: u32 where [hcd_defs]: "GRSTCTL_TXFFLSH = push_bit 5 1"
definition GRSTCTL_TXFNUM_SHIFT :: nat where [hcd_defs]: "GRSTCTL_TXFNUM_SHIFT = 6"
definition GRSTCTL_AHBIDLE :: u32 where [hcd_defs]: "GRSTCTL_AHBIDLE = push_bit 31 1"
definition GINTSTS_PRTINT :: u32 where [hcd_defs]: "GINTSTS_PRTINT = push_bit 24 1"
definition GINTSTS_HCHINT :: u32 where [hcd_defs]: "GINTSTS_HCHINT = push_bit 25 1"
definition GINTSTS_DISCONNINT :: u32 where [hcd_defs]: "GINTSTS_DISCONNINT = push_bit 29 1"
definition GHWCFG2_ARCHITECTURE_SHIFT :: nat where [hcd_defs]: "GHWCFG2_ARCHITECTURE_SHIFT = 3"
definition GHWCFG2_ARCHITECTURE_MASK :: u32 where [hcd_defs]: "GHWCFG2_ARCHITECTURE_MASK = push_bit GHWCFG2_ARCHITECTURE_SHIFT 0x3"
definition GHWCFG2_ARCHITECTURE_INT_DMA :: u32 where [hcd_defs]: "GHWCFG2_ARCHITECTURE_INT_DMA = 0x2"
definition GHWCFG2_NUM_HOST_CHANNELS_SHIFT :: nat where [hcd_defs]: "GHWCFG2_NUM_HOST_CHANNELS_SHIFT = 14"
definition GHWCFG2_NUM_HOST_CHANNELS_MASK :: u32 where [hcd_defs]: "GHWCFG2_NUM_HOST_CHANNELS_MASK = push_bit GHWCFG2_NUM_HOST_CHANNELS_SHIFT 0xf"
definition HCFG_FSLS_PCLK_SEL_MASK :: u32 where [hcd_defs]: "HCFG_FSLS_PCLK_SEL_MASK = 0x3"
definition HCFG_FSLS_PCLK_SEL_30_60_MHZ :: u32 where [hcd_defs]: "HCFG_FSLS_PCLK_SEL_30_60_MHZ = 0x0"
definition HOST_FRAME_INTERVAL_1MS :: u32 where [hcd_defs]: "HOST_FRAME_INTERVAL_1MS = 48000"
definition HPRT_CONNECT :: u32 where [hcd_defs]: "HPRT_CONNECT = push_bit 0 1"
definition HPRT_CONNECT_CHANGED :: u32 where [hcd_defs]: "HPRT_CONNECT_CHANGED = push_bit 1 1"
definition HPRT_ENABLE :: u32 where [hcd_defs]: "HPRT_ENABLE = push_bit 2 1"
definition HPRT_ENABLE_CHANGED :: u32 where [hcd_defs]: "HPRT_ENABLE_CHANGED = push_bit 3 1"
definition HPRT_OVERCURRENT_CHANGED :: u32 where [hcd_defs]: "HPRT_OVERCURRENT_CHANGED = push_bit 5 1"
definition HPRT_RESET :: u32 where [hcd_defs]: "HPRT_RESET = push_bit 8 1"
definition HPRT_POWER :: u32 where [hcd_defs]: "HPRT_POWER = push_bit 12 1"
definition HPRT_SPEED_SHIFT :: nat where [hcd_defs]: "HPRT_SPEED_SHIFT = 17"
definition HPRT_SPEED_MASK :: u32 where [hcd_defs]: "HPRT_SPEED_MASK = push_bit HPRT_SPEED_SHIFT 0x3"
definition HPRT_SPEED_HIGH :: u32 where [hcd_defs]: "HPRT_SPEED_HIGH = 0"
definition HPRT_SPEED_FULL :: u32 where [hcd_defs]: "HPRT_SPEED_FULL = 1"
definition HPRT_SPEED_LOW :: u32 where [hcd_defs]: "HPRT_SPEED_LOW = 2"
definition HPRT_DEFAULT_MASK :: u32 where [hcd_defs]: "HPRT_DEFAULT_MASK = HPRT_CONNECT_CHANGED OR HPRT_ENABLE OR HPRT_ENABLE_CHANGED OR HPRT_OVERCURRENT_CHANGED"
definition HCCHAR_MAX_PACKET_SIZE_MASK :: u32 where [hcd_defs]: "HCCHAR_MAX_PACKET_SIZE_MASK = 0x7ff"
definition HCCHAR_ENDPOINT_NUMBER_SHIFT :: nat where [hcd_defs]: "HCCHAR_ENDPOINT_NUMBER_SHIFT = 11"
definition HCCHAR_ENDPOINT_DIRECTION_IN :: u32 where [hcd_defs]: "HCCHAR_ENDPOINT_DIRECTION_IN = push_bit 15 1"
definition HCCHAR_LOW_SPEED_DEVICE :: u32 where [hcd_defs]: "HCCHAR_LOW_SPEED_DEVICE = push_bit 17 1"
definition HCCHAR_ENDPOINT_TYPE_SHIFT :: nat where [hcd_defs]: "HCCHAR_ENDPOINT_TYPE_SHIFT = 18"
definition HCCHAR_MULTI_COUNT_SHIFT :: nat where [hcd_defs]: "HCCHAR_MULTI_COUNT_SHIFT = 20"
definition HCCHAR_DEVICE_ADDRESS_SHIFT :: nat where [hcd_defs]: "HCCHAR_DEVICE_ADDRESS_SHIFT = 22"
definition HCCHAR_ODD_FRAME :: u32 where [hcd_defs]: "HCCHAR_ODD_FRAME = push_bit 29 1"
definition HCCHAR_DISABLE :: u32 where [hcd_defs]: "HCCHAR_DISABLE = push_bit 30 1"
definition HCCHAR_ENABLE :: u32 where [hcd_defs]: "HCCHAR_ENABLE = push_bit 31 1"
definition HCSPLT_PORT_ADDRESS_MASK :: u32 where [hcd_defs]: "HCSPLT_PORT_ADDRESS_MASK = 0x7f"
definition HCSPLT_HUB_ADDRESS_SHIFT :: nat where [hcd_defs]: "HCSPLT_HUB_ADDRESS_SHIFT = 7"
definition HCSPLT_XACT_POSITION_SHIFT :: nat where [hcd_defs]: "HCSPLT_XACT_POSITION_SHIFT = 14"
definition HCSPLT_XACT_POSITION_ALL :: u32 where [hcd_defs]: "HCSPLT_XACT_POSITION_ALL = 0x3"
definition HCSPLT_COMPLETE_SPLIT :: u32 where [hcd_defs]: "HCSPLT_COMPLETE_SPLIT = push_bit 16 1"
definition HCSPLT_SPLIT_ENABLE :: u32 where [hcd_defs]: "HCSPLT_SPLIT_ENABLE = push_bit 31 1"
definition HCINT_XFER_COMPLETE :: u32 where [hcd_defs]: "HCINT_XFER_COMPLETE = push_bit 0 1"
definition HCINT_HALTED :: u32 where [hcd_defs]: "HCINT_HALTED = push_bit 1 1"
definition HCINT_AHB_ERROR :: u32 where [hcd_defs]: "HCINT_AHB_ERROR = push_bit 2 1"
definition HCINT_STALL :: u32 where [hcd_defs]: "HCINT_STALL = push_bit 3 1"
definition HCINT_NAK :: u32 where [hcd_defs]: "HCINT_NAK = push_bit 4 1"
definition HCINT_ACK :: u32 where [hcd_defs]: "HCINT_ACK = push_bit 5 1"
definition HCINT_NYET :: u32 where [hcd_defs]: "HCINT_NYET = push_bit 6 1"
definition HCINT_XACT_ERROR :: u32 where [hcd_defs]: "HCINT_XACT_ERROR = push_bit 7 1"
definition HCINT_BABBLE_ERROR :: u32 where [hcd_defs]: "HCINT_BABBLE_ERROR = push_bit 8 1"
definition HCINT_FRAME_OVERRUN :: u32 where [hcd_defs]: "HCINT_FRAME_OVERRUN = push_bit 9 1"
definition HCINT_DATA_TOGGLE_ERROR :: u32 where [hcd_defs]: "HCINT_DATA_TOGGLE_ERROR = push_bit 10 1"
definition HCINT_ERROR_MASK :: u32 where [hcd_defs]: "HCINT_ERROR_MASK = HCINT_AHB_ERROR OR HCINT_STALL OR HCINT_XACT_ERROR OR HCINT_BABBLE_ERROR OR HCINT_FRAME_OVERRUN OR HCINT_DATA_TOGGLE_ERROR"
definition HCTSIZ_TRANSFER_SIZE_MASK :: u32 where [hcd_defs]: "HCTSIZ_TRANSFER_SIZE_MASK = 0x7ffff"
definition HCTSIZ_PACKET_COUNT_SHIFT :: nat where [hcd_defs]: "HCTSIZ_PACKET_COUNT_SHIFT = 19"
definition HCTSIZ_PID_SHIFT :: nat where [hcd_defs]: "HCTSIZ_PID_SHIFT = 29"
definition POLL_STEP :: duration where "POLL_STEP = Duration 0 50000"
definition RETRY_DELAY :: duration where "RETRY_DELAY = Duration 0 100000"
definition CORE_RESET_TIMEOUT :: duration where "CORE_RESET_TIMEOUT = Duration 0 100000000"
definition FIFO_FLUSH_TIMEOUT :: duration where "FIFO_FLUSH_TIMEOUT = Duration 0 10000000"
definition PORT_CONNECT_SETTLE :: duration where "PORT_CONNECT_SETTLE = Duration 0 100000000"
definition PORT_RESET_DURATION :: duration where "PORT_RESET_DURATION = Duration 0 50000000"
definition PORT_RESET_RECOVERY :: duration where "PORT_RESET_RECOVERY = Duration 0 20000000"
definition PORT_ENABLE_TIMEOUT :: duration where "PORT_ENABLE_TIMEOUT = Duration 0 100000000"
definition CHANNEL_TIMEOUT :: duration where "CHANNEL_TIMEOUT = Duration 0 100000000"
definition FORCE_HOST_SETTLE :: duration where "FORCE_HOST_SETTLE = Duration 0 50000000"
definition MAX_TRANSACTION_RETRIES :: nat where [hcd_defs]: "MAX_TRANSACTION_RETRIES = 256"
definition MAX_SPLIT_COMPLETE_RETRIES :: nat where [hcd_defs]: "MAX_SPLIT_COMPLETE_RETRIES = 4"
definition INTERRUPT_INFLIGHT_TIMEOUT :: duration where "INTERRUPT_INFLIGHT_TIMEOUT = Duration 0 50000000"
definition MAX_INTERRUPT_ERROR_RETRIES :: nat where [hcd_defs]: "MAX_INTERRUPT_ERROR_RETRIES = 8"
definition HUB_PORT_STATUS_CONNECTION :: u16 where [hcd_defs]: "HUB_PORT_STATUS_CONNECTION = push_bit 0 1"
definition HUB_PORT_STATUS_ENABLED :: u16 where [hcd_defs]: "HUB_PORT_STATUS_ENABLED = push_bit 1 1"
definition HUB_PORT_STATUS_POWERED :: u16 where [hcd_defs]: "HUB_PORT_STATUS_POWERED = push_bit 8 1"
definition HUB_PORT_STATUS_LOW_SPEED :: u16 where [hcd_defs]: "HUB_PORT_STATUS_LOW_SPEED = push_bit 9 1"
definition HUB_PORT_STATUS_HIGH_SPEED :: u16 where [hcd_defs]: "HUB_PORT_STATUS_HIGH_SPEED = push_bit 10 1"
definition HUB_PORT_CHANGE_CONNECTION :: u16 where [hcd_defs]: "HUB_PORT_CHANGE_CONNECTION = push_bit 0 1"
definition HUB_PORT_CHANGE_ENABLE :: u16 where [hcd_defs]: "HUB_PORT_CHANGE_ENABLE = push_bit 1 1"
definition HUB_PORT_CHANGE_RESET :: u16 where [hcd_defs]: "HUB_PORT_CHANGE_RESET = push_bit 4 1"
definition HUB_FEATURE_C_PORT_CONNECTION :: u16 where [hcd_defs]: "HUB_FEATURE_C_PORT_CONNECTION = 16"
definition HUB_FEATURE_C_PORT_ENABLE :: u16 where [hcd_defs]: "HUB_FEATURE_C_PORT_ENABLE = 17"
definition HUB_FEATURE_C_PORT_RESET :: u16 where [hcd_defs]: "HUB_FEATURE_C_PORT_RESET = 20"


section \<open>Data\<close>

datatype packet_id = Pid_Data0 | Pid_Data1 | Pid_Setup

fun packet_bits :: "packet_id \<Rightarrow> u32" where
  "packet_bits Pid_Data0 = 0"
| "packet_bits Pid_Data1 = 2"
| "packet_bits Pid_Setup = 3"

fun packet_toggled :: "packet_id \<Rightarrow> packet_id" where
  "packet_toggled Pid_Data0 = Pid_Data1"
| "packet_toggled Pid_Data1 = Pid_Data0"
| "packet_toggled Pid_Setup = Pid_Setup"

datatype split_phase = Split_None | Split_Start | Split_Complete

datatype poll_phase = Poll_Idle | Poll_In_Flight | Poll_Recovering

record channel_request =
  cq_route :: usb_route
  cq_endpoint_number :: u8
  cq_endpoint_type :: usb_endpoint_type
  cq_direction :: usb_direction
  cq_max_packet_size :: u16
  cq_packet_id :: packet_id
  cq_transfer_size :: nat
  cq_odd_frame :: bool
  cq_split_phase :: split_phase

record control_resources =
  cr_setup_buffer :: usb_dma_buffer
  cr_data_buffer :: usb_dma_buffer

text \<open>The transfer of the interrupt endpoint; its handler is the position of a keyboard.\<close>

record async_interrupt_state =
  ai_transfer :: "nat interrupt_in_transfer"
  ai_packet_id :: packet_id
  ai_split_phase :: split_phase
  ai_poll_phase :: poll_phase
  ai_last_request_len :: nat
  ai_interval_ticks :: u64
  ai_next_due :: u64
  ai_split_complete_retries :: nat
  ai_inflight_since :: u64
  ai_error_retries :: nat

definition first_split_phase :: "usb_route \<Rightarrow> split_phase" where
  "first_split_phase route = (if uses_split_transactions route then Split_Start else Split_None)"

definition async_interrupt_state_new :: "nat interrupt_in_transfer \<Rightarrow> u64 \<Rightarrow> u64 \<Rightarrow> async_interrupt_state" where
  "async_interrupt_state_new transfer interval_ticks now =
     \<lparr>ai_transfer = transfer, ai_packet_id = Pid_Data0, ai_split_phase = first_split_phase (tf_route transfer),
      ai_poll_phase = Poll_Idle, ai_last_request_len = 0, ai_interval_ticks = interval_ticks, ai_next_due = now,
      ai_split_complete_retries = 0, ai_inflight_since = now, ai_error_retries = 0\<rparr>"

definition reset_split_phase :: "async_interrupt_state \<Rightarrow> async_interrupt_state" where
  "reset_split_phase s = s\<lparr>ai_split_phase := first_split_phase (tf_route (ai_transfer s)), ai_split_complete_retries := 0\<rparr>"

definition mark_idle_until_next_interval :: "u64 \<Rightarrow> async_interrupt_state \<Rightarrow> async_interrupt_state" where
  "mark_idle_until_next_interval now s =
     reset_split_phase (s\<lparr>ai_poll_phase := Poll_Idle, ai_next_due := now + ai_interval_ticks s\<rparr>)"

definition poll_is_due :: "async_interrupt_state \<Rightarrow> u64 \<Rightarrow> bool" where
  "poll_is_due s now \<longleftrightarrow> now - ai_next_due s < push_bit 63 1"

record usb_host =
  uh_id :: string
  uh_reg_base :: usize
  uh_virq :: u32
  uh_channel_count :: "nat option"
  uh_control :: control_resources
  uh_interrupt :: "async_interrupt_state option"

record usb_keyboard =
  uk_id :: string
  uk_controller :: nat
  uk_state :: keyboard_state

text \<open>The machine: that of the firmware, which has the registers, the memory and the page tables, with the system registers, the
  controllers and keyboards that exist, the keyboards given to the terminal, the controller of the system and the
  registry of the driver.\<close>

record ('d, 'h, 's) usb_machine = "('d, 'h) fw_machine" +
  um_sysregs :: 's
  um_hosts :: "usb_host list"
  um_keyboards :: "usb_keyboard list"
  um_inputs :: "nat list"
  um_system :: "nat option"
  um_registry :: "nat registry"

record ('d, 's) usb_hw =
  hw_bus :: "'d bus"
  hw_ram :: "'d byte_ram"
  hw_sys :: "'s sysreg_bus"

type_synonym ('a, 'm) usb_result = "((usb_error + 'a) \<times> 'm) option"

definition um_host :: "nat \<Rightarrow> ('d, 'h, 's, 'z) usb_machine_scheme \<Rightarrow> usb_host" where
  "um_host i m = um_hosts m ! i"

definition update_host :: "nat \<Rightarrow> (usb_host \<Rightarrow> usb_host) \<Rightarrow> ('d, 'h, 's, 'z) usb_machine_scheme \<Rightarrow> ('d, 'h, 's, 'z) usb_machine_scheme" where
  "update_host i f m = m\<lparr>um_hosts := (um_hosts m)[i := f (um_host i m)]\<rparr>"

text \<open>The \<open>?\<close> after an operation on the machine.\<close>

definition try_op :: "(('e + 'a) \<times> 'm) option \<Rightarrow> ('a \<Rightarrow> 'm \<Rightarrow> (('e + 'b) \<times> 'm) option) \<Rightarrow> (('e + 'b) \<times> 'm) option" where
  "try_op r f = (case r of None \<Rightarrow> None | Some (Inl e, m) \<Rightarrow> Some (Inl e, m) | Some (Inr x, m) \<Rightarrow> f x m)"


section \<open>Registers and the counter\<close>

definition channel_count :: "usb_host \<Rightarrow> nat" where
  "channel_count h = (case uh_channel_count h of Some n \<Rightarrow> n | None \<Rightarrow> 0)"

definition channel_reg_offset :: "nat \<Rightarrow> usize \<Rightarrow> usize" where
  "channel_reg_offset channel offset = USB_HOST_CHANNEL_BASE_OFFSET + of_nat channel * USB_HOST_CHANNEL_STRIDE + offset"

definition usb_read_reg :: "('d, 's) usb_hw \<Rightarrow> nat \<Rightarrow> usize \<Rightarrow> ('d, 'h, 's, 'z) usb_machine_scheme
    \<Rightarrow> u32 \<times> ('d, 'h, 's, 'z) usb_machine_scheme" where
  "usb_read_reg hw i offset m =
     (let (v, b) = read_reg (hw_bus hw) (uh_reg_base (um_host i m) + offset) (mx_board m) in (v, m\<lparr>mx_board := b\<rparr>))"

definition usb_write_reg :: "('d, 's) usb_hw \<Rightarrow> nat \<Rightarrow> usize \<Rightarrow> u32 \<Rightarrow> ('d, 'h, 's, 'z) usb_machine_scheme
    \<Rightarrow> ('d, 'h, 's, 'z) usb_machine_scheme" where
  "usb_write_reg hw i offset v m = m\<lparr>mx_board := write_reg (hw_bus hw) (uh_reg_base (um_host i m) + offset) v (mx_board m)\<rparr>"

definition usb_read_channel_reg :: "('d, 's) usb_hw \<Rightarrow> nat \<Rightarrow> nat \<Rightarrow> usize \<Rightarrow> ('d, 'h, 's, 'z) usb_machine_scheme
    \<Rightarrow> u32 \<times> ('d, 'h, 's, 'z) usb_machine_scheme" where
  "usb_read_channel_reg hw i channel offset = usb_read_reg hw i (channel_reg_offset channel offset)"

definition usb_write_channel_reg :: "('d, 's) usb_hw \<Rightarrow> nat \<Rightarrow> nat \<Rightarrow> usize \<Rightarrow> u32 \<Rightarrow> ('d, 'h, 's, 'z) usb_machine_scheme
    \<Rightarrow> ('d, 'h, 's, 'z) usb_machine_scheme" where
  "usb_write_channel_reg hw i channel offset v = usb_write_reg hw i (channel_reg_offset channel offset) v"

definition usb_mrs :: "('d, 's) usb_hw \<Rightarrow> sysreg \<Rightarrow> ('d, 'h, 's, 'z) usb_machine_scheme \<Rightarrow> u64 \<times> ('d, 'h, 's, 'z) usb_machine_scheme" where
  "usb_mrs hw r m = (let (v, s) = sr_read (hw_sys hw) r (um_sysregs m) in (v, m\<lparr>um_sysregs := s\<rparr>))"

definition read_counter_frequency :: "('d, 's) usb_hw \<Rightarrow> ('d, 'h, 's, 'z) usb_machine_scheme \<Rightarrow> u64 \<times> ('d, 'h, 's, 'z) usb_machine_scheme" where
  "read_counter_frequency hw = usb_mrs hw CNTFRQ_EL0"

definition read_counter :: "('d, 's) usb_hw \<Rightarrow> ('d, 'h, 's, 'z) usb_machine_scheme \<Rightarrow> u64 \<times> ('d, 'h, 's, 'z) usb_machine_scheme" where
  "read_counter hw = usb_mrs hw CNTVCT_EL0"

text \<open>The product of a duration and a frequency that \<open>delay\<close> and \<open>duration_to_counter_ticks\<close> write out is that of
  \<open>kernel/time.rs\<close>; without a frequency \<open>delay\<close> spins 1000 times, which has no effect.\<close>

partial_function (option) spin_until :: "('d, 's) usb_hw \<Rightarrow> u64 \<Rightarrow> u64 \<Rightarrow> ('d, 'h, 's, 'z) usb_machine_scheme
    \<Rightarrow> ('d, 'h, 's, 'z) usb_machine_scheme option" where
  "spin_until hw start wait_ticks m =
     (let (now, m1) = read_counter hw m in if now - start < wait_ticks then spin_until hw start wait_ticks m1 else Some m1)"

definition usb_delay :: "('d, 's) usb_hw \<Rightarrow> duration \<Rightarrow> ('d, 'h, 's, 'z) usb_machine_scheme \<Rightarrow> ('d, 'h, 's, 'z) usb_machine_scheme option" where
  "usb_delay hw d m =
     (if d = Duration 0 0 then Some m
      else let (frequency, m1) = read_counter_frequency hw m
           in if frequency = 0 then Some m1
              else let wait_ticks = convert_duration_to_ticks (ucast frequency) d
                   in if wait_ticks = 0 then Some m1
                      else let (start, m2) = read_counter hw m1 in spin_until hw start wait_ticks m2)"

definition duration_to_counter_ticks :: "('d, 's) usb_hw \<Rightarrow> duration \<Rightarrow> ('d, 'h, 's, 'z) usb_machine_scheme
    \<Rightarrow> u64 \<times> ('d, 'h, 's, 'z) usb_machine_scheme" where
  "duration_to_counter_ticks hw d m =
     (let (frequency, m1) = read_counter_frequency hw m
      in (if frequency = 0 then 0 else convert_duration_to_ticks (ucast frequency) d, m1))"

definition duration_from_millis :: "u64 \<Rightarrow> duration" where
  "duration_from_millis n = Duration (n div 1000) (ucast (n mod 1000) * 1000000)"

definition saturating_mul :: "u64 \<Rightarrow> u64 \<Rightarrow> u64" where
  "saturating_mul a b = (if unat a * unat b < 2 ^ 64 then a * b else 0xffffffffffffffff)"

definition polling_interval :: "usb_route \<Rightarrow> endpoint_info \<Rightarrow> duration" where
  "polling_interval route endpoint =
     (let interval = max (ei_interval endpoint) 1
      in if rt_speed route = Speed_High
         then let exponent = min interval 16; microframes = push_bit (unat (exponent - 1)) 1
              in duration_from_nanos (saturating_mul microframes 125000)
         else duration_from_millis (ucast interval))"

definition interrupt_interval_ticks :: "('d, 's) usb_hw \<Rightarrow> usb_route \<Rightarrow> endpoint_info \<Rightarrow> ('d, 'h, 's, 'z) usb_machine_scheme
    \<Rightarrow> u64 \<times> ('d, 'h, 's, 'z) usb_machine_scheme" where
  "interrupt_interval_ticks hw route endpoint m =
     (let (ticks, m1) = duration_to_counter_ticks hw (polling_interval route endpoint) m in (max ticks 1, m1))"

text \<open>The timeouts read the frequency twice.\<close>

definition timeout_wait_ticks :: "('d, 's) usb_hw \<Rightarrow> duration \<Rightarrow> ('d, 'h, 's, 'z) usb_machine_scheme
    \<Rightarrow> u64 \<times> ('d, 'h, 's, 'z) usb_machine_scheme" where
  "timeout_wait_ticks hw timeout m =
     (let (f1, m1) = read_counter_frequency hw m; (f2, m2) = read_counter_frequency hw m1
      in (ucast ((ucast (as_secs timeout) * ucast f1 :: u128) + ucast (subsec_nanos timeout) * ucast f2 div 1000000000), m2))"

definition timed_out :: "('d, 's) usb_hw \<Rightarrow> u64 \<Rightarrow> u64 \<Rightarrow> ('d, 'h, 's, 'z) usb_machine_scheme
    \<Rightarrow> bool \<times> ('d, 'h, 's, 'z) usb_machine_scheme" where
  "timed_out hw start wait_ticks m =
     (if wait_ticks = 0 then (False, m) else let (now, m1) = read_counter hw m in (wait_ticks \<le> now - start, m1))"

partial_function (option) wait_bits_loop :: "('d, 's) usb_hw \<Rightarrow> nat \<Rightarrow> usize \<Rightarrow> u32 \<Rightarrow> bool \<Rightarrow> u64 \<Rightarrow> u64
    \<Rightarrow> ('d, 'h, 's, 'z) usb_machine_scheme \<Rightarrow> (u32, ('d, 'h, 's, 'z) usb_machine_scheme) usb_result" where
  "wait_bits_loop hw i offset bits expected_set start wait_ticks m =
     (let (value, m1) = usb_read_reg hw i offset m
      in if (value AND bits \<noteq> 0) = expected_set then Some (Inr value, m1)
         else let (late, m2) = timed_out hw start wait_ticks m1
              in if late then Some (Inl Usb_Timeout, m2)
                 else do {
                   m3 \<leftarrow> usb_delay hw POLL_STEP m2;
                   wait_bits_loop hw i offset bits expected_set start wait_ticks m3
                 })"

definition wait_for_bits :: "('d, 's) usb_hw \<Rightarrow> nat \<Rightarrow> usize \<Rightarrow> u32 \<Rightarrow> bool \<Rightarrow> duration
    \<Rightarrow> ('d, 'h, 's, 'z) usb_machine_scheme \<Rightarrow> (u32, ('d, 'h, 's, 'z) usb_machine_scheme) usb_result" where
  "wait_for_bits hw i offset bits expected_set timeout m =
     (let (start, m1) = read_counter hw m; (wait_ticks, m2) = timeout_wait_ticks hw timeout m1
      in wait_bits_loop hw i offset bits expected_set start wait_ticks m2)"


section \<open>The core and the root port\<close>

text \<open>A register is read, changed and written back.\<close>

definition change_reg :: "('d, 's) usb_hw \<Rightarrow> nat \<Rightarrow> usize \<Rightarrow> (u32 \<Rightarrow> u32) \<Rightarrow> ('d, 'h, 's, 'z) usb_machine_scheme
    \<Rightarrow> ('d, 'h, 's, 'z) usb_machine_scheme" where
  "change_reg hw i offset f m = (let (v, m1) = usb_read_reg hw i offset m in usb_write_reg hw i offset (f v) m1)"

text \<open>The message to the firmware lies at \<open>va\<close>.\<close>

definition power_on_hcd :: "('d, 's) usb_hw \<Rightarrow> 'd ram_ops \<Rightarrow> usize \<Rightarrow> ('d, 'h, 's, 'z) usb_machine_scheme
    \<Rightarrow> (unit, ('d, 'h, 's, 'z) usb_machine_scheme) usb_result" where
  "power_on_hcd hw words va m =
     (case get_rpi_firmware m of
        None \<Rightarrow> Some (Inl Usb_InvalidState, m)
      | Some firmware \<Rightarrow> do {
          (r, m1) \<leftarrow> set_power_state (hw_bus hw) words firmware va USB_HCD_DEVICE_ID (USB_POWER_STATE_ON OR USB_POWER_STATE_WAIT) m;
          Some (case r of
                  Inl _ \<Rightarrow> (Inl Usb_HardwareFault, m1)
                | Inr state \<Rightarrow> (if state AND USB_POWER_STATE_ON = 0 then Inl Usb_HardwareFault else Inr (), m1))
        })"

definition soft_reset :: "('d, 's) usb_hw \<Rightarrow> nat \<Rightarrow> ('d, 'h, 's, 'z) usb_machine_scheme
    \<Rightarrow> (unit, ('d, 'h, 's, 'z) usb_machine_scheme) usb_result" where
  "soft_reset hw i m =
     try_op (wait_for_bits hw i USB_CORE_RESET_OFFSET GRSTCTL_AHBIDLE True CORE_RESET_TIMEOUT m) (\<lambda>_ m1.
     let m2 = change_reg hw i USB_CORE_RESET_OFFSET (\<lambda>reset. reset OR GRSTCTL_CSFTRST) m1
     in try_op (wait_for_bits hw i USB_CORE_RESET_OFFSET GRSTCTL_CSFTRST False FIFO_FLUSH_TIMEOUT m2) (\<lambda>_ m3. do {
     m4 \<leftarrow> usb_delay hw CORE_RESET_TIMEOUT m3;
     Some (Inr (), m4)
     }))"

definition flush_tx_fifo :: "('d, 's) usb_hw \<Rightarrow> nat \<Rightarrow> u32 \<Rightarrow> ('d, 'h, 's, 'z) usb_machine_scheme
    \<Rightarrow> (unit, ('d, 'h, 's, 'z) usb_machine_scheme) usb_result" where
  "flush_tx_fifo hw i fifo m =
     (let m1 = change_reg hw i USB_CORE_RESET_OFFSET (\<lambda>reset.
                 ((reset OR GRSTCTL_TXFFLSH) AND NOT (push_bit GRSTCTL_TXFNUM_SHIFT 0x1f)) OR push_bit GRSTCTL_TXFNUM_SHIFT fifo) m
      in try_op (wait_for_bits hw i USB_CORE_RESET_OFFSET GRSTCTL_TXFFLSH False FIFO_FLUSH_TIMEOUT m1) (\<lambda>_ m2. do {
      m3 \<leftarrow> usb_delay hw (Duration 0 1000) m2;
      Some (Inr (), m3)
      }))"

definition flush_rx_fifo :: "('d, 's) usb_hw \<Rightarrow> nat \<Rightarrow> ('d, 'h, 's, 'z) usb_machine_scheme
    \<Rightarrow> (unit, ('d, 'h, 's, 'z) usb_machine_scheme) usb_result" where
  "flush_rx_fifo hw i m =
     (let m1 = change_reg hw i USB_CORE_RESET_OFFSET (\<lambda>reset. reset OR GRSTCTL_RXFFLSH) m
      in try_op (wait_for_bits hw i USB_CORE_RESET_OFFSET GRSTCTL_RXFFLSH False FIFO_FLUSH_TIMEOUT m1) (\<lambda>_ m2. do {
      m3 \<leftarrow> usb_delay hw (Duration 0 1000) m2;
      Some (Inr (), m3)
      }))"

definition init_core :: "('d, 's) usb_hw \<Rightarrow> nat \<Rightarrow> ('d, 'h, 's, 'z) usb_machine_scheme
    \<Rightarrow> (nat, ('d, 'h, 's, 'z) usb_machine_scheme) usb_result" where
  "init_core hw i m = do {
     let m1 = change_reg hw i USB_CORE_USB_CFG_OFFSET (\<lambda>usb_cfg.
       (usb_cfg AND NOT (GUSBCFG_ULPI_EXT_VBUS_DRV OR GUSBCFG_TERMSELDLPULSE OR GUSBCFG_FORCEDEVMODE)) OR GUSBCFG_FORCEHOSTMODE) m;
     m2 \<leftarrow> usb_delay hw FORCE_HOST_SETTLE m1;
     try_op (soft_reset hw i m2) (\<lambda>_ m3.
     let m4 = change_reg hw i USB_CORE_USB_CFG_OFFSET (\<lambda>usb_cfg.
           (usb_cfg AND NOT (GUSBCFG_ULPI_UTMI_SEL OR GUSBCFG_PHYIF16 OR GUSBCFG_ULPI_FS_LS OR GUSBCFG_ULPI_CLK_SUSP_M
              OR GUSBCFG_HNPCAP OR GUSBCFG_SRPCAP OR GUSBCFG_FORCEDEVMODE)) OR GUSBCFG_FORCEHOSTMODE) m3;
         (hw_cfg2, m5) = usb_read_reg hw i USB_CORE_HW_CFG2_OFFSET m4;
         architecture = drop_bit GHWCFG2_ARCHITECTURE_SHIFT (hw_cfg2 AND GHWCFG2_ARCHITECTURE_MASK)
     in if architecture \<noteq> GHWCFG2_ARCHITECTURE_INT_DMA then Some (Inl Usb_Unsupported, m5)
        else let channels = unat (drop_bit GHWCFG2_NUM_HOST_CHANNELS_SHIFT (hw_cfg2 AND GHWCFG2_NUM_HOST_CHANNELS_MASK)) + 1
             in if channels < 2 then Some (Inl Usb_Unsupported, m5)
                else let m6 = change_reg hw i USB_CORE_AHB_CFG_OFFSET (\<lambda>ahb_cfg.
                           (ahb_cfg AND NOT GAHBCFG_HBSTLEN_MASK) OR (GAHBCFG_WAIT_AXI_WRITES OR GAHBCFG_DMA_EN)) m5
                     in Some (Inr channels, usb_write_reg hw i USB_CORE_INT_STATUS_OFFSET 0xffffffff m6))
   }"

definition update_host_port :: "('d, 's) usb_hw \<Rightarrow> nat \<Rightarrow> u32 \<Rightarrow> u32 \<Rightarrow> u32 \<Rightarrow> ('d, 'h, 's, 'z) usb_machine_scheme
    \<Rightarrow> ('d, 'h, 's, 'z) usb_machine_scheme" where
  "update_host_port hw i set_bits clear_bits ack_bits =
     change_reg hw i USB_HOST_PORT_OFFSET (\<lambda>port.
       ((port AND NOT HPRT_DEFAULT_MASK) OR (set_bits OR ack_bits)) AND NOT clear_bits)"

definition acknowledge_host_port_changes :: "('d, 's) usb_hw \<Rightarrow> nat \<Rightarrow> ('d, 'h, 's, 'z) usb_machine_scheme
    \<Rightarrow> ('d, 'h, 's, 'z) usb_machine_scheme" where
  "acknowledge_host_port_changes hw i m =
     (let (port, m1) = usb_read_reg hw i USB_HOST_PORT_OFFSET m;
          ack = port AND (HPRT_CONNECT_CHANGED OR HPRT_ENABLE_CHANGED OR HPRT_OVERCURRENT_CHANGED)
      in if ack \<noteq> 0 then update_host_port hw i 0 0 ack m1 else m1)"

fun clear_channels :: "('d, 's) usb_hw \<Rightarrow> nat \<Rightarrow> nat list \<Rightarrow> ('d, 'h, 's, 'z) usb_machine_scheme
    \<Rightarrow> ('d, 'h, 's, 'z) usb_machine_scheme" where
  "clear_channels hw i [] m = m"
| "clear_channels hw i (channel # channels) m =
     clear_channels hw i channels
       (usb_write_channel_reg hw i channel USB_HOST_CHANNEL_INT_OFFSET 0xffffffff
         (usb_write_channel_reg hw i channel USB_HOST_CHANNEL_INT_MASK_OFFSET 0 m))"

definition init_host :: "('d, 's) usb_hw \<Rightarrow> nat \<Rightarrow> ('d, 'h, 's, 'z) usb_machine_scheme
    \<Rightarrow> (unit, ('d, 'h, 's, 'z) usb_machine_scheme) usb_result" where
  "init_host hw i m =
     (let m1 = usb_write_reg hw i USB_POWER_OFFSET 0 m;
          m2 = change_reg hw i USB_HOST_CFG_OFFSET (\<lambda>host_cfg.
                 (host_cfg AND NOT HCFG_FSLS_PCLK_SEL_MASK) OR HCFG_FSLS_PCLK_SEL_30_60_MHZ) m1;
          m3 = usb_write_reg hw i USB_HOST_FRAME_INTERVAL_OFFSET HOST_FRAME_INTERVAL_1MS m2
      in try_op (flush_tx_fifo hw i 0x10 m3) (\<lambda>_ m4.
         try_op (flush_rx_fifo hw i m4) (\<lambda>_ m5.
         let m6 = acknowledge_host_port_changes hw i (update_host_port hw i HPRT_POWER 0 0 m5);
             m7 = clear_channels hw i [0..<channel_count (um_host i m6)] m6;
             m8 = usb_write_reg hw i USB_HOST_ALL_CHANNEL_INT_MASK_OFFSET 0 m7;
             m9 = usb_write_reg hw i USB_CORE_INT_MASK_OFFSET (GINTSTS_HCHINT OR GINTSTS_PRTINT OR GINTSTS_DISCONNINT) m8
         in Some (Inr (), change_reg hw i USB_CORE_AHB_CFG_OFFSET (\<lambda>ahb_cfg. ahb_cfg OR GAHBCFG_GLBL_INTR_EN) m9))))"

definition map_port_speed :: "('d, 's) usb_hw \<Rightarrow> nat \<Rightarrow> ('d, 'h, 's, 'z) usb_machine_scheme
    \<Rightarrow> (usb_error + usb_speed) \<times> ('d, 'h, 's, 'z) usb_machine_scheme" where
  "map_port_speed hw i m =
     (let (port, m1) = usb_read_reg hw i USB_HOST_PORT_OFFSET m;
          speed = drop_bit HPRT_SPEED_SHIFT (port AND HPRT_SPEED_MASK)
      in (if speed = HPRT_SPEED_HIGH then Inr Speed_High
          else if speed = HPRT_SPEED_FULL then Inr Speed_Full
          else if speed = HPRT_SPEED_LOW then Inr Speed_Low
          else Inl Usb_Unsupported, m1))"

definition root_port_connected :: "('d, 's) usb_hw \<Rightarrow> nat \<Rightarrow> ('d, 'h, 's, 'z) usb_machine_scheme
    \<Rightarrow> bool \<times> ('d, 'h, 's, 'z) usb_machine_scheme" where
  "root_port_connected hw i m = (let (port, m1) = usb_read_reg hw i USB_HOST_PORT_OFFSET m in (port AND HPRT_CONNECT \<noteq> 0, m1))"

definition reset_root_port :: "('d, 's) usb_hw \<Rightarrow> nat \<Rightarrow> ('d, 'h, 's, 'z) usb_machine_scheme
    \<Rightarrow> (usb_speed, ('d, 'h, 's, 'z) usb_machine_scheme) usb_result" where
  "reset_root_port hw i m =
     (let m1 = update_host_port hw i HPRT_POWER 0 0 m; (connected, m2) = root_port_connected hw i m1
      in if \<not> connected then Some (Inl Usb_Disconnected, m2)
         else do {
           m3 \<leftarrow> usb_delay hw PORT_CONNECT_SETTLE m2;
           m4 \<leftarrow> usb_delay hw PORT_RESET_DURATION (update_host_port hw i (HPRT_POWER OR HPRT_RESET) 0 0 m3);
           let m5 = update_host_port hw i HPRT_POWER HPRT_RESET 0 m4;
           try_op (wait_for_bits hw i USB_HOST_PORT_OFFSET HPRT_ENABLE True PORT_ENABLE_TIMEOUT m5) (\<lambda>_ m6. do {
           m7 \<leftarrow> usb_delay hw PORT_RESET_RECOVERY m6;
           Some (map_port_speed hw i (acknowledge_host_port_changes hw i m7))
           })
         })"

section \<open>Channels\<close>

definition usb_bus_address :: "usize \<Rightarrow> usb_error + u32" where
  "usb_bus_address phys_addr =
     (if unat phys_addr < 2 ^ 32
      then Inr ((ucast phys_addr AND NOT USB_BUS_UNCACHED_ALIAS) OR USB_BUS_UNCACHED_ALIAS)
      else Inl Usb_Unsupported)"

fun endpoint_type_bits :: "usb_endpoint_type \<Rightarrow> u32" where
  "endpoint_type_bits Ep_Control = 0"
| "endpoint_type_bits Ep_Isochronous = 1"
| "endpoint_type_bits Ep_Bulk = 2"
| "endpoint_type_bits Ep_Interrupt = 3"

definition programmed_transfer_size :: "channel_request \<Rightarrow> nat" where
  "programmed_transfer_size q =
     (if uses_split_transactions (cq_route q) then
        if cq_split_phase q = Split_Complete \<and> cq_direction q \<noteq> Dir_In then 0
        else if cq_direction q = Dir_In then max (cq_transfer_size q) (unat (cq_max_packet_size q))
        else cq_transfer_size q
      else cq_transfer_size q)"

definition next_odd_frame :: "('d, 's) usb_hw \<Rightarrow> nat \<Rightarrow> ('d, 'h, 's, 'z) usb_machine_scheme
    \<Rightarrow> bool \<times> ('d, 'h, 's, 'z) usb_machine_scheme" where
  "next_odd_frame hw i m = (let (v, m1) = usb_read_reg hw i USB_HOST_FRAME_NUMBER_OFFSET m in (v AND 1 = 0, m1))"

definition configure_channel_irq :: "('d, 's) usb_hw \<Rightarrow> nat \<Rightarrow> nat \<Rightarrow> u32 \<Rightarrow> ('d, 'h, 's, 'z) usb_machine_scheme
    \<Rightarrow> ('d, 'h, 's, 'z) usb_machine_scheme" where
  "configure_channel_irq hw i channel bits m =
     change_reg hw i USB_HOST_ALL_CHANNEL_INT_MASK_OFFSET (\<lambda>all_mask.
       if bits = 0 then all_mask AND NOT (push_bit channel 1) else all_mask OR push_bit channel 1)
       (usb_write_channel_reg hw i channel USB_HOST_CHANNEL_INT_MASK_OFFSET bits m)"

text \<open>The wait of \<open>halt_channel\<close>; a timeout reads two registers for the log.\<close>

definition log_channel_state :: "('d, 's) usb_hw \<Rightarrow> nat \<Rightarrow> nat \<Rightarrow> ('d, 'h, 's, 'z) usb_machine_scheme
    \<Rightarrow> ('d, 'h, 's, 'z) usb_machine_scheme" where
  "log_channel_state hw i channel m =
     (let (hctsiz, m1) = usb_read_channel_reg hw i channel USB_HOST_CHANNEL_XFER_SIZE_OFFSET m;
          (hprt, m2) = usb_read_reg hw i USB_HOST_PORT_OFFSET m1
      in m2)"

partial_function (option) halt_loop :: "('d, 's) usb_hw \<Rightarrow> nat \<Rightarrow> nat \<Rightarrow> u64 \<Rightarrow> u64
    \<Rightarrow> ('d, 'h, 's, 'z) usb_machine_scheme \<Rightarrow> (unit, ('d, 'h, 's, 'z) usb_machine_scheme) usb_result" where
  "halt_loop hw i channel start wait_ticks m =
     (let (hcint, m1) = usb_read_channel_reg hw i channel USB_HOST_CHANNEL_INT_OFFSET m
      in if hcint AND HCINT_HALTED \<noteq> 0 then Some (Inr (), usb_write_channel_reg hw i channel USB_HOST_CHANNEL_INT_OFFSET hcint m1)
         else let (late, m2) = timed_out hw start wait_ticks m1
              in if late then Some (Inl Usb_Timeout, log_channel_state hw i channel m2)
                 else do {
                   m3 \<leftarrow> usb_delay hw POLL_STEP m2;
                   halt_loop hw i channel start wait_ticks m3
                 })"

definition halt_channel :: "('d, 's) usb_hw \<Rightarrow> nat \<Rightarrow> nat \<Rightarrow> ('d, 'h, 's, 'z) usb_machine_scheme
    \<Rightarrow> (unit, ('d, 'h, 's, 'z) usb_machine_scheme) usb_result" where
  "halt_channel hw i channel m =
     (let (hcchar, m1) = usb_read_channel_reg hw i channel USB_HOST_CHANNEL_CHARACTER_OFFSET m
      in if hcchar AND HCCHAR_ENABLE = 0 then Some (Inr (), m1)
         else let m2 = usb_write_channel_reg hw i channel USB_HOST_CHANNEL_CHARACTER_OFFSET (hcchar OR HCCHAR_DISABLE OR HCCHAR_ENABLE) m1;
                  (start, m3) = read_counter hw m2;
                  (wait_ticks, m4) = timeout_wait_ticks hw CHANNEL_TIMEOUT m3
              in halt_loop hw i channel start wait_ticks m4)"

text \<open>What \<open>arm_channel\<close> writes to the registers of a channel.\<close>

definition split_ctrl_value :: "channel_request \<Rightarrow> u32" where
  "split_ctrl_value q =
     (if uses_split_transactions (cq_route q) then
        let split = ((ucast (rt_parent_port (cq_route q)) AND HCSPLT_PORT_ADDRESS_MASK)
              OR push_bit HCSPLT_HUB_ADDRESS_SHIFT (ucast (rt_parent_hub_address (cq_route q))))
              OR push_bit HCSPLT_XACT_POSITION_SHIFT HCSPLT_XACT_POSITION_ALL
        in (if cq_split_phase q = Split_Complete then split OR HCSPLT_COMPLETE_SPLIT else split) OR HCSPLT_SPLIT_ENABLE
      else 0)"

definition xfer_size_value :: "channel_request \<Rightarrow> u32 \<Rightarrow> u32" where
  "xfer_size_value q transfer_size =
     ((transfer_size AND HCTSIZ_TRANSFER_SIZE_MASK) OR push_bit HCTSIZ_PACKET_COUNT_SHIFT 1)
       OR push_bit HCTSIZ_PID_SHIFT (packet_bits (cq_packet_id q))"

definition hcchar_value :: "channel_request \<Rightarrow> u32" where
  "hcchar_value q =
     (let c = ucast (cq_max_packet_size q) AND HCCHAR_MAX_PACKET_SIZE_MASK;
          c = c OR push_bit HCCHAR_ENDPOINT_NUMBER_SHIFT (ucast (cq_endpoint_number q));
          c = c OR push_bit HCCHAR_ENDPOINT_TYPE_SHIFT (endpoint_type_bits (cq_endpoint_type q));
          c = c OR push_bit HCCHAR_MULTI_COUNT_SHIFT 1;
          c = c OR push_bit HCCHAR_DEVICE_ADDRESS_SHIFT (ucast (rt_address (cq_route q)));
          c = (if cq_direction q = Dir_In then c OR HCCHAR_ENDPOINT_DIRECTION_IN else c);
          c = (if rt_speed (cq_route q) = Speed_Low then c OR HCCHAR_LOW_SPEED_DEVICE else c);
          c = (if cq_endpoint_type q = Ep_Interrupt \<and> cq_odd_frame q then c OR HCCHAR_ODD_FRAME else c)
      in c OR HCCHAR_ENABLE)"

definition arm_channel :: "('d, 's) usb_hw \<Rightarrow> nat \<Rightarrow> nat \<Rightarrow> channel_request \<Rightarrow> u32 \<Rightarrow> u32
    \<Rightarrow> ('d, 'h, 's, 'z) usb_machine_scheme \<Rightarrow> (unit, ('d, 'h, 's, 'z) usb_machine_scheme) usb_result" where
  "arm_channel hw i channel q dma_addr irq_mask m =
     (if channel_count (um_host i m) \<le> channel then Some (Inl Usb_Unsupported, m)
      else do {
        (_, m1) \<leftarrow> halt_channel hw i channel m;
        let m2 = configure_channel_irq hw i channel irq_mask (usb_write_channel_reg hw i channel USB_HOST_CHANNEL_INT_OFFSET 0xffffffff m1);
        let m3 = usb_write_channel_reg hw i channel USB_HOST_CHANNEL_SPLIT_CTRL_OFFSET (split_ctrl_value q) m2;
        let programmed = programmed_transfer_size q;
        (if 2 ^ 32 \<le> programmed then Some (Inl Usb_BufferTooLarge, m3)
         else let m4 = usb_write_channel_reg hw i channel USB_HOST_CHANNEL_XFER_SIZE_OFFSET (xfer_size_value q (of_nat programmed)) m3;
                  m5 = usb_write_channel_reg hw i channel USB_HOST_CHANNEL_DMA_ADDR_OFFSET dma_addr m4
              in Some (Inr (), usb_write_channel_reg hw i channel USB_HOST_CHANNEL_CHARACTER_OFFSET (hcchar_value q) m5))
      })"

partial_function (option) channel_result_loop :: "('d, 's) usb_hw \<Rightarrow> nat \<Rightarrow> nat \<Rightarrow> bool \<Rightarrow> bool \<Rightarrow> u64 \<Rightarrow> u64 \<Rightarrow> bool
    \<Rightarrow> ('d, 'h, 's, 'z) usb_machine_scheme \<Rightarrow> (u32, ('d, 'h, 's, 'z) usb_machine_scheme) usb_result" where
  "channel_result_loop hw i channel log_timeout halt_on_ack start wait_ticks ack_halt_requested m =
     (let (hcint, m1) = usb_read_channel_reg hw i channel USB_HOST_CHANNEL_INT_OFFSET m;
          (hcchar, m2) = usb_read_channel_reg hw i channel USB_HOST_CHANNEL_CHARACTER_OFFSET m1;
          interrupt_found = (hcint AND (HCINT_HALTED OR HCINT_XFER_COMPLETE OR HCINT_ERROR_MASK OR HCINT_NAK OR HCINT_ACK OR HCINT_NYET)) \<noteq> 0
      in if interrupt_found \<and> (hcint AND HCINT_HALTED \<noteq> 0 \<or> hcchar AND HCCHAR_ENABLE = 0) then Some (Inr hcint, m2)
         else let stop = interrupt_found \<and> halt_on_ack \<and> \<not> ack_halt_requested \<and> hcint AND HCINT_ACK \<noteq> 0;
                  m3 = (if stop then usb_write_channel_reg hw i channel USB_HOST_CHANNEL_CHARACTER_OFFSET
                                       (hcchar OR HCCHAR_DISABLE OR HCCHAR_ENABLE) m2 else m2);
                  (late, m4) = timed_out hw start wait_ticks m3
              in if late then Some (Inl Usb_Timeout, if log_timeout then log_channel_state hw i channel m4 else m4)
                 else do {
                   m5 \<leftarrow> usb_delay hw POLL_STEP m4;
                   channel_result_loop hw i channel log_timeout halt_on_ack start wait_ticks (ack_halt_requested \<or> stop) m5
                 })"

definition wait_for_channel_result_inner :: "('d, 's) usb_hw \<Rightarrow> nat \<Rightarrow> nat \<Rightarrow> duration \<Rightarrow> bool \<Rightarrow> bool
    \<Rightarrow> ('d, 'h, 's, 'z) usb_machine_scheme \<Rightarrow> (u32, ('d, 'h, 's, 'z) usb_machine_scheme) usb_result" where
  "wait_for_channel_result_inner hw i channel timeout log_timeout halt_on_ack m =
     (let (start, m1) = read_counter hw m; (wait_ticks, m2) = timeout_wait_ticks hw timeout m1
      in channel_result_loop hw i channel log_timeout halt_on_ack start wait_ticks False m2)"

definition wait_for_channel_result :: "('d, 's) usb_hw \<Rightarrow> nat \<Rightarrow> nat \<Rightarrow> duration
    \<Rightarrow> ('d, 'h, 's, 'z) usb_machine_scheme \<Rightarrow> (u32, ('d, 'h, 's, 'z) usb_machine_scheme) usb_result" where
  "wait_for_channel_result hw i channel timeout = wait_for_channel_result_inner hw i channel timeout True False"

definition wait_for_split_start_result :: "('d, 's) usb_hw \<Rightarrow> nat \<Rightarrow> nat \<Rightarrow> duration
    \<Rightarrow> ('d, 'h, 's, 'z) usb_machine_scheme \<Rightarrow> (u32, ('d, 'h, 's, 'z) usb_machine_scheme) usb_result" where
  "wait_for_split_start_result hw i channel timeout = wait_for_channel_result_inner hw i channel timeout True True"

definition translate_channel_error :: "('d, 's) usb_hw \<Rightarrow> nat \<Rightarrow> u32 \<Rightarrow> ('d, 'h, 's, 'z) usb_machine_scheme
    \<Rightarrow> usb_error \<times> ('d, 'h, 's, 'z) usb_machine_scheme" where
  "translate_channel_error hw i hcint m =
     (if hcint AND HCINT_STALL \<noteq> 0 then (Usb_Stall, m)
      else let (connected, m1) = root_port_connected hw i m in (if \<not> connected then Usb_Disconnected else Usb_HardwareFault, m1))"


section \<open>Transactions\<close>

text \<open>What a polled transaction makes of the registers at its end: it retries after a delay, returns a number of bytes, or fails.
  The failure of a channel is named later.\<close>

datatype channel_verdict = Tv_Retry | Tv_Done nat | Tv_Busy | Tv_Error

definition transaction_verdict :: "channel_request \<Rightarrow> u32 \<Rightarrow> u32 \<Rightarrow> channel_verdict" where
  "transaction_verdict q hcint hctsiz =
     (let split = uses_split_transactions (cq_route q); phase = cq_split_phase q in
      if hcint AND HCINT_ERROR_MASK \<noteq> 0 then Tv_Error
      else if split \<and> phase = Split_Complete \<and> hcint AND HCINT_NYET \<noteq> 0 then Tv_Retry
      else if split \<and> phase = Split_Complete \<and> hcint AND HCINT_NAK \<noteq> 0 then Tv_Busy
      else if hcint AND (HCINT_NAK OR HCINT_NYET) \<noteq> 0 then Tv_Retry
      else if phase = Split_Start then Tv_Done 0
      else if phase = Split_Complete \<and> cq_direction q \<noteq> Dir_In \<and> hcint AND (HCINT_ACK OR HCINT_XFER_COMPLETE) \<noteq> 0
        then Tv_Done (cq_transfer_size q)
      else let programmed = programmed_transfer_size q;
               remaining = unat (hctsiz AND HCTSIZ_TRANSFER_SIZE_MASK);
               actual = min (programmed - remaining) (cq_transfer_size q)
           in if hcint AND HCINT_XFER_COMPLETE \<noteq> 0 \<or> cq_transfer_size q = 0 \<or> actual > 0 then Tv_Done actual
              else Tv_Retry)"

text \<open>The attempts that are left; when they are used up, four registers are read for the log.\<close>

fun transaction_attempts :: "nat \<Rightarrow> ('d, 's) usb_hw \<Rightarrow> nat \<Rightarrow> nat \<Rightarrow> channel_request \<Rightarrow> u32
    \<Rightarrow> ('d, 'h, 's, 'z) usb_machine_scheme \<Rightarrow> (nat, ('d, 'h, 's, 'z) usb_machine_scheme) usb_result" where
  "transaction_attempts 0 hw i channel q dma_addr m =
     (let (_, m1) = usb_read_channel_reg hw i channel USB_HOST_CHANNEL_INT_OFFSET m;
          (_, m2) = usb_read_channel_reg hw i channel USB_HOST_CHANNEL_CHARACTER_OFFSET m1;
          (_, m3) = usb_read_channel_reg hw i channel USB_HOST_CHANNEL_XFER_SIZE_OFFSET m2;
          (_, m4) = usb_read_channel_reg hw i channel USB_HOST_CHANNEL_SPLIT_CTRL_OFFSET m3
      in Some (Inl Usb_Timeout, m4))"
| "transaction_attempts (Suc n) hw i channel q dma_addr m =
     try_op (arm_channel hw i channel q dma_addr 0 m) (\<lambda>_ m1.
     try_op (if uses_split_transactions (cq_route q) \<and> cq_split_phase q = Split_Start
             then wait_for_split_start_result hw i channel CHANNEL_TIMEOUT m1
             else wait_for_channel_result hw i channel CHANNEL_TIMEOUT m1) (\<lambda>hcint m2.
     let (hctsiz, m3) = usb_read_channel_reg hw i channel USB_HOST_CHANNEL_XFER_SIZE_OFFSET m2;
         (_, m4) = usb_read_channel_reg hw i channel USB_HOST_CHANNEL_CHARACTER_OFFSET m3;
         (_, m5) = usb_read_channel_reg hw i channel USB_HOST_CHANNEL_SPLIT_CTRL_OFFSET m4;
         m6 = usb_write_channel_reg hw i channel USB_HOST_CHANNEL_INT_OFFSET hcint m5
     in case transaction_verdict q hcint hctsiz of
          Tv_Error \<Rightarrow> (let (e, m7) = translate_channel_error hw i hcint m6 in Some (Inl e, m7))
        | Tv_Busy \<Rightarrow> Some (Inl Usb_Busy, m6)
        | Tv_Done actual \<Rightarrow> Some (Inr actual, m6)
        | Tv_Retry \<Rightarrow> do {
            m7 \<leftarrow> usb_delay hw RETRY_DELAY m6;
            transaction_attempts n hw i channel q dma_addr m7
          }))"

definition run_single_transaction_polling :: "('d, 's) usb_hw \<Rightarrow> nat \<Rightarrow> nat \<Rightarrow> channel_request \<Rightarrow> u32
    \<Rightarrow> ('d, 'h, 's, 'z) usb_machine_scheme \<Rightarrow> (nat, ('d, 'h, 's, 'z) usb_machine_scheme) usb_result" where
  "run_single_transaction_polling = transaction_attempts MAX_TRANSACTION_RETRIES"

text \<open>The start and the completion of a split transaction, until it is done.\<close>

fun split_attempts :: "nat \<Rightarrow> ('d, 's) usb_hw \<Rightarrow> nat \<Rightarrow> nat \<Rightarrow> channel_request \<Rightarrow> channel_request \<Rightarrow> u32
    \<Rightarrow> ('d, 'h, 's, 'z) usb_machine_scheme \<Rightarrow> (nat, ('d, 'h, 's, 'z) usb_machine_scheme) usb_result" where
  "split_attempts 0 hw i channel start_request complete_request dma_addr m = Some (Inl Usb_Timeout, m)"
| "split_attempts (Suc n) hw i channel start_request complete_request dma_addr m =
     try_op (run_single_transaction_polling hw i channel start_request dma_addr m) (\<lambda>_ m1. do {
     (r, m2) \<leftarrow> run_single_transaction_polling hw i channel complete_request dma_addr m1;
     (case r of
        Inr actual \<Rightarrow> Some (Inr actual, m2)
      | Inl e \<Rightarrow>
          if e = Usb_Busy then do {
            m3 \<leftarrow> usb_delay hw RETRY_DELAY m2;
            split_attempts n hw i channel start_request complete_request dma_addr m3
          } else Some (Inl e, m2))
     })"

definition odd_frame_for :: "('d, 's) usb_hw \<Rightarrow> nat \<Rightarrow> usb_endpoint_type \<Rightarrow> ('d, 'h, 's, 'z) usb_machine_scheme
    \<Rightarrow> bool \<times> ('d, 'h, 's, 'z) usb_machine_scheme" where
  "odd_frame_for hw i ty m = (if ty = Ep_Interrupt then next_odd_frame hw i m else (False, m))"

definition transfer_packet_polling :: "('d, 's) usb_hw \<Rightarrow> nat \<Rightarrow> nat \<Rightarrow> usb_route \<Rightarrow> u8 \<Rightarrow> usb_endpoint_type \<Rightarrow> usb_direction
    \<Rightarrow> u16 \<Rightarrow> packet_id \<Rightarrow> nat \<Rightarrow> u32 \<Rightarrow> ('d, 'h, 's, 'z) usb_machine_scheme
    \<Rightarrow> (nat, ('d, 'h, 's, 'z) usb_machine_scheme) usb_result" where
  "transfer_packet_polling hw i channel route number ty direction max_packet_size pid transfer_size dma_addr m =
     (let (odd_frame, m1) = odd_frame_for hw i ty m;
          q = \<lparr>cq_route = route, cq_endpoint_number = number, cq_endpoint_type = ty, cq_direction = direction,
               cq_max_packet_size = max_packet_size, cq_packet_id = pid, cq_transfer_size = transfer_size,
               cq_odd_frame = odd_frame, cq_split_phase = Split_None\<rparr>
      in if \<not> uses_split_transactions route then run_single_transaction_polling hw i channel q dma_addr m1
         else let (odd_frame', m2) = odd_frame_for hw i ty m1
              in split_attempts MAX_TRANSACTION_RETRIES hw i channel (q\<lparr>cq_split_phase := Split_Start\<rparr>)
                   (q\<lparr>cq_odd_frame := odd_frame', cq_split_phase := Split_Complete\<rparr>) dma_addr m2)"


section \<open>Control transfers\<close>

text \<open>The data stage; \<open>len\<close> bytes are asked for, and the result is what was transferred.\<close>

partial_function (option) data_stage :: "('d, 's) usb_hw \<Rightarrow> nat \<Rightarrow> usb_route \<Rightarrow> u16 \<Rightarrow> usb_direction \<Rightarrow> packet_id \<Rightarrow> nat \<Rightarrow> nat \<Rightarrow> nat
    \<Rightarrow> ('d, 'h, 's, 'z) usb_machine_scheme \<Rightarrow> (nat, ('d, 'h, 's, 'z) usb_machine_scheme) usb_result" where
  "data_stage hw i route max_packet_size direction pid transferred offset remaining m =
     (if remaining = 0 then Some (Inr transferred, m)
      else let packet_len = min remaining (unat max_packet_size)
           in case usb_bus_address (ub_phys_addr (cr_data_buffer (uh_control (um_host i m))) + of_nat offset) of
                Inl e \<Rightarrow> Some (Inl e, m)
              | Inr packet_dma \<Rightarrow> do {
                  (r, m1) \<leftarrow> transfer_packet_polling hw i CONTROL_CHANNEL route 0 Ep_Control direction max_packet_size pid packet_len packet_dma m;
                  (case r of
                     Inl e \<Rightarrow> Some (Inl e, m1)
                   | Inr actual \<Rightarrow>
                       if actual < packet_len then Some (Inr (transferred + actual), m1)
                       else data_stage hw i route max_packet_size direction (packet_toggled pid) (transferred + actual)
                              (offset + actual) (remaining - actual) m1)
                })"

text \<open>The buffer gets the data before the setup stage: the bytes of an output, or zeros.\<close>

fun load_data_buffer :: "'d byte_ram \<Rightarrow> usb_dma_buffer \<Rightarrow> control_transfer_data \<Rightarrow> 'd \<Rightarrow> (usb_error + unit) \<times> 'd" where
  "load_data_buffer ram b Data_None d = (Inr (), d)"
| "load_data_buffer ram b (Data_Out bytes) d = dma_write ram b bytes d"
| "load_data_buffer ram b (Data_In bytes) d = (Inr (), dma_clear ram b d)"

definition with_ram :: "('d \<Rightarrow> 'r \<times> 'd) \<Rightarrow> ('d, 'h, 's, 'z) usb_machine_scheme \<Rightarrow> 'r \<times> ('d, 'h, 's, 'z) usb_machine_scheme" where
  "with_ram f m = (let (r, d) = f (bd_regs (mx_board m)) in (r, on_ram (\<lambda>_. d) m))"

definition control_stages :: "('d, 's) usb_hw \<Rightarrow> nat \<Rightarrow> usb_route \<Rightarrow> u16 \<Rightarrow> setup_packet \<Rightarrow> nat
    \<Rightarrow> ('d, 'h, 's, 'z) usb_machine_scheme \<Rightarrow> (nat, ('d, 'h, 's, 'z) usb_machine_scheme) usb_result" where
  "control_stages hw i route max_packet_size packet data_len m =
     (let setup_dma = (\<lambda>m'. usb_bus_address (ub_phys_addr (cr_setup_buffer (uh_control (um_host i m'))))) in
      try_op (Some (setup_dma m, m)) (\<lambda>dma m.
      try_op (transfer_packet_polling hw i CONTROL_CHANNEL route 0 Ep_Control Dir_Out max_packet_size Pid_Setup
                (length (sp_encode packet)) dma m) (\<lambda>_ m1.
      try_op (if data_len > 0 then data_stage hw i route max_packet_size (sp_direction packet) Pid_Data1 0 0 data_len m1
              else Some (Inr 0, m1)) (\<lambda>transferred m2.
      try_op (Some (setup_dma m2, m2)) (\<lambda>status_dma m2.
      let status_direction = (if sp_direction packet = Dir_In then Dir_Out else Dir_In) in
      try_op (transfer_packet_polling hw i CONTROL_CHANNEL route 0 Ep_Control status_direction max_packet_size Pid_Data1 0 status_dma m2)
        (\<lambda>_ m3. Some (Inr transferred, m3)))))))"

text \<open>The copy to the buffer of an input; a slice that is out of range is a panic.\<close>

fun copy_input :: "('d, 's) usb_hw \<Rightarrow> usb_dma_buffer \<Rightarrow> nat \<Rightarrow> control_transfer_data \<Rightarrow> ('d, 'h, 's, 'z) usb_machine_scheme
    \<Rightarrow> u8 list option" where
  "copy_input hw buffer transferred (Data_In bytes) m = do {
     assert_that (transferred \<le> length bytes \<and> transferred \<le> ub_len buffer);
     let input = dma_as_slice (hw_ram hw) buffer (bd_regs (mx_board m));
     Some (take transferred input @ drop transferred bytes)
   }"
| "copy_input hw buffer transferred _ m = Some []"

definition control_transfer :: "('d, 's) usb_hw \<Rightarrow> nat \<Rightarrow> ('d, 'h, 's, 'z) usb_machine_scheme controller" where
  "control_transfer hw i route max_packet_size packet data m =
     (let old = (case data of Data_In bytes \<Rightarrow> bytes | _ \<Rightarrow> []);
          (r, m1) = with_ram (dma_write (hw_ram hw) (cr_setup_buffer (uh_control (um_host i m))) (sp_encode packet)) m
      in case r of
           Inl e \<Rightarrow> Some (Inl e, old, m1)
         | Inr _ \<Rightarrow>
             let buffer = cr_data_buffer (uh_control (um_host i m1)); data_len = data_length data
             in if ub_len buffer < data_len then Some (Inl Usb_BufferTooLarge, old, m1)
                else case with_ram (load_data_buffer (hw_ram hw) buffer data) m1 of
                       (Inl e, m2) \<Rightarrow> Some (Inl e, old, m2)
                     | (Inr _, m2) \<Rightarrow> do {
                         (r, m3) \<leftarrow> control_stages hw i route max_packet_size packet data_len m2;
                         (case r of
                            Inl e \<Rightarrow> Some (Inl e, old, m3)
                          | Inr transferred \<Rightarrow> do {
                              new \<leftarrow> copy_input hw buffer transferred data m3;
                              Some (Inr transferred, new, m3)
                            })
                       })"

end
