(* ===== verification/Usb_Progress.thy ===== *)
theory Usb_Progress
  imports Usb_Transfers
begin

text \<open>Control transfers return. The only assumption is about the counter of the processor: it advances with every read, by less
  than the reads of a few seconds, at the frequency that its register names. The controller may answer anything.\<close>

section \<open>The counter\<close>

text \<open>\<open>t s\<close> is the value of the counter in a state, without the wrap-around at 64 bits.\<close>

definition clock_advances :: "'s sysreg_bus \<Rightarrow> ('s \<Rightarrow> nat) \<Rightarrow> u64 \<Rightarrow> bool" where
  "clock_advances sys t f \<longleftrightarrow> 1000000 \<le> unat f \<and> unat f < 2 ^ 32
     \<and> (\<forall>s. fst (sr_read sys CNTFRQ_EL0 s) = f \<and> t s \<le> t (snd (sr_read sys CNTFRQ_EL0 s))
            \<and> t (snd (sr_read sys CNTFRQ_EL0 s)) \<le> t s + 2 ^ 32)
     \<and> (\<forall>s. fst (sr_read sys CNTVCT_EL0 s) = of_nat (t (snd (sr_read sys CNTVCT_EL0 s)))
            \<and> t s < t (snd (sr_read sys CNTVCT_EL0 s)) \<and> t (snd (sr_read sys CNTVCT_EL0 s)) \<le> t s + 2 ^ 32)"

abbreviation um_time :: "('s \<Rightarrow> nat) \<Rightarrow> ('d, 'h, 's, 'z) usb_machine_scheme \<Rightarrow> nat" where
  "um_time t m \<equiv> t (um_sysregs m)"

lemma read_reg_sysregs [simp]:
  "um_sysregs (snd (usb_read_reg hw i off m)) = um_sysregs m"
  "um_sysregs (usb_write_reg hw i off v m) = um_sysregs m"
  "um_sysregs (snd (usb_read_channel_reg hw i c off m)) = um_sysregs m"
  "um_sysregs (usb_write_channel_reg hw i c off v m) = um_sysregs m"
  by (simp_all add: usb_read_channel_reg_def usb_write_channel_reg_def usb_read_reg_def usb_write_reg_def split_beta Let_def)

lemma read_counter_time:
  assumes "clock_advances (hw_sys hw) t f"
  shows "fst (read_counter hw m) = of_nat (um_time t (snd (read_counter hw m)))"
    and "um_time t m < um_time t (snd (read_counter hw m))"
    and "um_time t (snd (read_counter hw m)) \<le> um_time t m + 2 ^ 32"
  using assms by (auto simp: clock_advances_def read_counter_def usb_mrs_def split_beta Let_def)

lemma read_frequency_time:
  assumes "clock_advances (hw_sys hw) t f"
  shows "fst (read_counter_frequency hw m) = f" "um_time t m \<le> um_time t (snd (read_counter_frequency hw m))"
    and "um_time t (snd (read_counter_frequency hw m)) \<le> um_time t m + 2 ^ 32"
  using assms by (auto simp: clock_advances_def read_counter_frequency_def usb_mrs_def split_beta Let_def)

lemma ticks_since:
  assumes "a \<le> b" "b \<le> a + 2 ^ 38" shows "unat (of_nat b - of_nat a :: u64) = b - a"
proof -
  have "of_nat b - of_nat a = (of_nat (b - a) :: u64)" using assms(1) by (simp add: of_nat_diff)
  moreover have "b - a < 2 ^ 64" using assms(2) by simp
  ultimately show ?thesis by (simp add: unsigned_of_nat take_bit_nat_eq_self)
qed

lemma short_ticks:
  fixes f :: u64
  assumes "as_secs d = 0" "duration_ok d" "unat f < 2 ^ 32"
  shows "unat (convert_duration_to_ticks (ucast f) d) = unat (subsec_nanos d) * unat f div 1000000000"
    and "unat (convert_duration_to_ticks (ucast f) d) < 2 ^ 32"
proof -
  have "unat (subsec_nanos d) * unat f \<le> 1000000000 * unat f" using assms(2) by (simp add: duration_ok_def)
  then have "unat (subsec_nanos d) * unat f div 1000000000 \<le> 1000000000 * unat f div 1000000000" by (rule div_le_mono)
  then have le: "unat (subsec_nanos d) * unat f div 1000000000 < 2 ^ 32" using assms(3) by simp
  then show "unat (convert_duration_to_ticks (ucast f) d) = unat (subsec_nanos d) * unat f div 1000000000"
    using convert_duration_to_ticks_nat [OF assms(2), of f] assms(1) by simp
  with le show "unat (convert_duration_to_ticks (ucast f) d) < 2 ^ 32" by simp
qed


section \<open>Waits\<close>

lemma spin_until_returns:
  assumes clock: "clock_advances (hw_sys hw) t f"
    and "unat wait < 2 ^ 32" "t0 \<le> um_time t m" "um_time t m \<le> t0 + 2 ^ 34"
  shows "\<exists>m'. spin_until hw (of_nat t0) wait m = Some m' \<and> um_time t m \<le> um_time t m' \<and> um_time t m' \<le> t0 + 2 ^ 35"
  using assms(3,4)
proof (induction "t0 + unat wait - um_time t m" arbitrary: m rule: less_induct)
  case less
  let ?c = "read_counter hw m"
  note c = read_counter_time [OF clock, of m]
  have "unat (fst ?c - of_nat t0) = um_time t (snd ?c) - t0"
    unfolding c(1) using c(2,3) less.prems by (intro ticks_since) simp_all
  then have late: "fst ?c - of_nat t0 < wait \<longleftrightarrow> um_time t (snd ?c) - t0 < unat wait" by (simp add: word_less_nat_alt)
  show ?case
  proof (cases "fst ?c - of_nat t0 < wait")
    case True
    then have "um_time t (snd ?c) < t0 + unat wait" using late c(2) less.prems by linarith
    then have "\<exists>m'. spin_until hw (of_nat t0) wait (snd ?c) = Some m' \<and> um_time t (snd ?c) \<le> um_time t m' \<and> um_time t m' \<le> t0 + 2 ^ 35"
      using c(2) less.prems assms(2) by (intro less.hyps) simp_all
    then show ?thesis using True c(2) by (subst spin_until.simps) (auto simp: split_beta Let_def)
  next
    case False
    then show ?thesis using c less.prems by (subst spin_until.simps) (simp add: split_beta Let_def)
  qed
qed

lemma usb_delay_returns:
  assumes clock: "clock_advances (hw_sys hw) t f" and "as_secs d = 0" "duration_ok d"
  shows "\<exists>m'. usb_delay hw d m = Some m' \<and> um_time t m \<le> um_time t m' \<and> um_time t m' \<le> um_time t m + 2 ^ 36"
proof -
  have f: "unat f < 2 ^ 32" "f \<noteq> 0" using clock by (auto simp: clock_advances_def)
  let ?m1 = "snd (read_counter_frequency hw m)" and ?w = "convert_duration_to_ticks (ucast f) d"
  let ?m2 = "snd (read_counter hw ?m1)"
  note q = read_frequency_time [OF clock, of m] and c = read_counter_time [OF clock, of ?m1]
  have "\<exists>m'. spin_until hw (of_nat (um_time t ?m2)) ?w ?m2 = Some m' \<and> um_time t ?m2 \<le> um_time t m' \<and> um_time t m' \<le> um_time t ?m2 + 2 ^ 35"
    by (rule spin_until_returns [OF clock short_ticks(2) [OF assms(2,3) f(1)]]) simp_all
  then obtain m' where m': "spin_until hw (of_nat (um_time t ?m2)) ?w ?m2 = Some m'" "um_time t ?m2 \<le> um_time t m'"
    "um_time t m' \<le> um_time t ?m2 + 2 ^ 35" by blast
  have "usb_delay hw d m = (if d = Duration 0 0 then Some m else if ?w = 0 then Some ?m1 else Some m')"
    using q(1) f(2) m'(1) by (simp add: usb_delay_def split_beta Let_def c(1))
  then show ?thesis using q c m'(2,3) by auto
qed

lemma wait_ticks_bounds:
  assumes clock: "clock_advances (hw_sys hw) t f" and "as_secs d = 0" "duration_ok d" "10000000 \<le> unat (subsec_nanos d)"
  shows "unat (fst (timeout_wait_ticks hw d m)) < 2 ^ 32" "fst (timeout_wait_ticks hw d m) \<noteq> 0"
    and "um_time t m \<le> um_time t (snd (timeout_wait_ticks hw d m))"
    and "um_time t (snd (timeout_wait_ticks hw d m)) \<le> um_time t m + 2 ^ 33"
proof -
  let ?m1 = "snd (read_counter_frequency hw m)"
  note q = read_frequency_time [OF clock, of m] read_frequency_time [OF clock, of ?m1]
  have f: "unat f < 2 ^ 32" "1000000 \<le> unat f" using clock by (auto simp: clock_advances_def)
  have eq: "fst (timeout_wait_ticks hw d m) = convert_duration_to_ticks (ucast f) d"
    by (simp add: timeout_wait_ticks_def convert_duration_to_ticks_def split_beta Let_def q NANOS_PER_SEC_def)
  show "unat (fst (timeout_wait_ticks hw d m)) < 2 ^ 32" unfolding eq by (rule short_ticks(2) [OF assms(2,3) f(1)])
  have "10000000 * 1000000 \<le> unat (subsec_nanos d) * unat f" using assms(4) f(2) by (rule mult_le_mono)
  then have "10000000 * 1000000 div 1000000000 \<le> unat (subsec_nanos d) * unat f div 1000000000" by (rule div_le_mono)
  then have "unat (fst (timeout_wait_ticks hw d m)) \<noteq> 0" unfolding eq short_ticks(1) [OF assms(2,3) f(1)] by simp
  then show "fst (timeout_wait_ticks hw d m) \<noteq> 0" by auto
  show "um_time t m \<le> um_time t (snd (timeout_wait_ticks hw d m))"
    "um_time t (snd (timeout_wait_ticks hw d m)) \<le> um_time t m + 2 ^ 33"
    using q by (simp_all add: timeout_wait_ticks_def split_beta Let_def)
qed

text \<open>One round of a loop with a timeout: either it is late, or there is less time left after the delay.\<close>

lemma timed_out_round:
  assumes clock: "clock_advances (hw_sys hw) t f" and wait: "unat wait < 2 ^ 32" "wait \<noteq> 0"
    and "t0 \<le> um_time t m" "um_time t m \<le> t0 + 2 ^ 37"
  shows "fst (timed_out hw (of_nat t0) wait m)
    \<or> (\<exists>m'. usb_delay hw POLL_STEP (snd (timed_out hw (of_nat t0) wait m)) = Some m'
        \<and> t0 + unat wait - um_time t m' < t0 + unat wait - um_time t m \<and> t0 \<le> um_time t m' \<and> um_time t m' \<le> t0 + 2 ^ 37)"
proof (cases "fst (timed_out hw (of_nat t0) wait m)")
  case False
  let ?c = "read_counter hw m"
  note c = read_counter_time [OF clock, of m]
  have "unat (fst ?c - of_nat t0) = um_time t (snd ?c) - t0"
    unfolding c(1) using c(2,3) assms(4,5) by (intro ticks_since) simp_all
  moreover have "\<not> wait \<le> fst ?c - of_nat t0" "snd (timed_out hw (of_nat t0) wait m) = snd ?c"
    using False wait(2) by (simp_all add: timed_out_def split_beta Let_def)
  ultimately have before: "um_time t (snd ?c) < t0 + unat wait"
    using c(2) assms(4) by (simp add: word_le_nat_alt)
  obtain m' where m': "usb_delay hw POLL_STEP (snd ?c) = Some m'" "um_time t (snd ?c) \<le> um_time t m'" "um_time t m' \<le> um_time t (snd ?c) + 2 ^ 36"
    using usb_delay_returns [OF clock, of POLL_STEP "snd ?c"] by (auto simp: POLL_STEP_def duration_ok_def)
  have "t0 + unat wait - um_time t m' < t0 + unat wait - um_time t m" using before c(2) m'(2) by linarith
  moreover have "um_time t m' \<le> t0 + 2 ^ 37" using before m'(3) wait(1) by simp
  ultimately show ?thesis using m' c(2) assms(4) \<open>snd (timed_out hw (of_nat t0) wait m) = snd ?c\<close> by auto
qed simp

lemma channel_result_loop_returns:
  assumes clock: "clock_advances (hw_sys hw) t f" and wait: "unat wait < 2 ^ 32" "wait \<noteq> 0"
    and "t0 \<le> um_time t m" "um_time t m \<le> t0 + 2 ^ 37"
  shows "channel_result_loop hw i channel log ack (of_nat t0) wait requested m \<noteq> None"
  using assms(4,5)
proof (induction "t0 + unat wait - um_time t m" arbitrary: m requested rule: less_induct)
  case less
  let ?m1 = "snd (usb_read_channel_reg hw i channel USB_HOST_CHANNEL_INT_OFFSET m)"
  let ?m2 = "snd (usb_read_channel_reg hw i channel USB_HOST_CHANNEL_CHARACTER_OFFSET ?m1)"
  let ?hcint = "fst (usb_read_channel_reg hw i channel USB_HOST_CHANNEL_INT_OFFSET m)"
  let ?hcchar = "fst (usb_read_channel_reg hw i channel USB_HOST_CHANNEL_CHARACTER_OFFSET ?m1)"
  obtain stop m3 C log_m where step: "channel_result_loop hw i channel log ack (of_nat t0) wait requested m =
      (if C then Some (Inr ?hcint, ?m2)
       else if fst (timed_out hw (of_nat t0) wait m3) then Some (Inl Usb_Timeout, log_m)
       else Option.bind (usb_delay hw POLL_STEP (snd (timed_out hw (of_nat t0) wait m3)))
              (channel_result_loop hw i channel log ack (of_nat t0) wait (requested \<or> stop)))"
    and m3: "um_sysregs m3 = um_sysregs m"
  proof -
    define found where "found \<longleftrightarrow> (?hcint AND (HCINT_HALTED OR HCINT_XFER_COMPLETE OR HCINT_ERROR_MASK OR HCINT_NAK OR HCINT_ACK OR HCINT_NYET)) \<noteq> 0"
    define C where "C \<longleftrightarrow> found \<and> (?hcint AND HCINT_HALTED \<noteq> 0 \<or> ?hcchar AND HCCHAR_ENABLE = 0)"
    define stop where "stop \<longleftrightarrow> found \<and> ack \<and> \<not> requested \<and> ?hcint AND HCINT_ACK \<noteq> 0"
    define m3 where "m3 = (if stop then usb_write_channel_reg hw i channel USB_HOST_CHANNEL_CHARACTER_OFFSET
       (?hcchar OR HCCHAR_DISABLE OR HCCHAR_ENABLE) ?m2 else ?m2)"
    have m3: "um_sysregs m3 = um_sysregs m" by (simp add: m3_def)
    show thesis
      by (rule that [OF _ m3, of C "if log then log_channel_state hw i channel (snd (timed_out hw (of_nat t0) wait m3)) else snd (timed_out hw (of_nat t0) wait m3)" stop],
          subst channel_result_loop.simps)
        (simp only: Let_def split_beta C_def [symmetric] stop_def [symmetric] m3_def [symmetric] found_def [symmetric])
  qed
  show ?case
  proof (cases "C \<or> fst (timed_out hw (of_nat t0) wait m3)")
    case True
    then show ?thesis unfolding step by auto
  next
    case False
    have "t0 \<le> um_time t m3" "um_time t m3 \<le> t0 + 2 ^ 37" using less.prems m3 by simp_all
    from timed_out_round [OF clock wait this] False obtain m' where
      m': "usb_delay hw POLL_STEP (snd (timed_out hw (of_nat t0) wait m3)) = Some m'"
        "t0 + unat wait - um_time t m' < t0 + unat wait - um_time t m" "t0 \<le> um_time t m'" "um_time t m' \<le> t0 + 2 ^ 37"
      unfolding m3 by blast
    have "channel_result_loop hw i channel log ack (of_nat t0) wait (requested \<or> stop) m' \<noteq> None"
      using m' by (intro less.hyps) simp_all
    then show ?thesis unfolding step using False m'(1) by simp
  qed
qed

lemma halt_loop_returns:
  assumes clock: "clock_advances (hw_sys hw) t f" and wait: "unat wait < 2 ^ 32" "wait \<noteq> 0"
    and "t0 \<le> um_time t m" "um_time t m \<le> t0 + 2 ^ 37"
  shows "halt_loop hw i channel (of_nat t0) wait m \<noteq> None"
  using assms(4,5)
proof (induction "t0 + unat wait - um_time t m" arbitrary: m rule: less_induct)
  case less
  let ?m1 = "snd (usb_read_channel_reg hw i channel USB_HOST_CHANNEL_INT_OFFSET m)"
  have "fst (timed_out hw (of_nat t0) wait ?m1) \<or> (\<exists>m'. usb_delay hw POLL_STEP (snd (timed_out hw (of_nat t0) wait ?m1)) = Some m'
      \<and> halt_loop hw i channel (of_nat t0) wait m' \<noteq> None)"
    using timed_out_round [OF clock wait, of t0 ?m1] less by fastforce
  then show ?case by (subst halt_loop.simps) (auto simp: split_beta Let_def)
qed

lemma channel_timeout:
  assumes "clock_advances (hw_sys hw) t f"
  shows "unat (fst (timeout_wait_ticks hw CHANNEL_TIMEOUT m)) < 2 ^ 32" "fst (timeout_wait_ticks hw CHANNEL_TIMEOUT m) \<noteq> 0"
    and "um_time t m \<le> um_time t (snd (timeout_wait_ticks hw CHANNEL_TIMEOUT m))"
    and "um_time t (snd (timeout_wait_ticks hw CHANNEL_TIMEOUT m)) \<le> um_time t m + 2 ^ 33"
  using wait_ticks_bounds [OF assms, of CHANNEL_TIMEOUT m] by (simp_all add: CHANNEL_TIMEOUT_def duration_ok_def)

lemma wait_inner_returns:
  assumes "clock_advances (hw_sys hw) t f"
  shows "wait_for_channel_result_inner hw i channel CHANNEL_TIMEOUT log ack m \<noteq> None"
proof -
  let ?m1 = "snd (read_counter hw m)"
  note c = read_counter_time [OF assms, of m] and w = channel_timeout [OF assms, of ?m1]
  have "channel_result_loop hw i channel log ack (of_nat (um_time t ?m1)) (fst (timeout_wait_ticks hw CHANNEL_TIMEOUT ?m1)) False
      (snd (timeout_wait_ticks hw CHANNEL_TIMEOUT ?m1)) \<noteq> None"
    using w by (intro channel_result_loop_returns [OF assms]) simp_all
  then show ?thesis by (simp add: wait_for_channel_result_inner_def split_beta Let_def c(1))
qed

lemma halt_channel_returns:
  assumes "clock_advances (hw_sys hw) t f" shows "halt_channel hw i channel m \<noteq> None"
proof -
  let ?r = "usb_read_channel_reg hw i channel USB_HOST_CHANNEL_CHARACTER_OFFSET m"
  let ?m2 = "usb_write_channel_reg hw i channel USB_HOST_CHANNEL_CHARACTER_OFFSET (fst ?r OR HCCHAR_DISABLE OR HCCHAR_ENABLE) (snd ?r)"
  let ?m3 = "snd (read_counter hw ?m2)"
  note c = read_counter_time [OF assms, of ?m2] and w = channel_timeout [OF assms, of ?m3]
  have "halt_loop hw i channel (of_nat (um_time t ?m3)) (fst (timeout_wait_ticks hw CHANNEL_TIMEOUT ?m3))
      (snd (timeout_wait_ticks hw CHANNEL_TIMEOUT ?m3)) \<noteq> None"
    using w by (intro halt_loop_returns [OF assms]) simp_all
  then show ?thesis by (simp add: halt_channel_def split_beta Let_def c(1))
qed

lemma try_op_returns: "r \<noteq> None \<Longrightarrow> (\<And>x m. f x m \<noteq> None) \<Longrightarrow> try_op r f \<noteq> None"
  by (auto simp: try_op_def split: option.split sum.split)

lemma arm_channel_returns:
  assumes "clock_advances (hw_sys hw) t f" shows "arm_channel hw i channel q dma irqs m \<noteq> None"
proof -
  obtain r m1 where "halt_channel hw i channel m = Some (r, m1)" using halt_channel_returns [OF assms, of i channel m] by auto
  then show ?thesis by (simp add: arm_channel_def Let_def)
qed

lemma delay_returns: "clock_advances (hw_sys hw) t f \<Longrightarrow> usb_delay hw RETRY_DELAY m \<noteq> None"
  using usb_delay_returns [of hw t f RETRY_DELAY m] by (auto simp: RETRY_DELAY_def duration_ok_def)

lemma bind_returns: "r \<noteq> None \<Longrightarrow> (\<And>x. f x \<noteq> None) \<Longrightarrow> Option.bind r f \<noteq> None"
  by (cases r) simp_all

lemma transaction_attempts_returns:
  fixes m :: "('d, 'h, 's, 'z) usb_machine_scheme"
  assumes clock: "clock_advances (hw_sys hw) t f"
  shows "transaction_attempts k hw i channel q dma m \<noteq> None"
proof (induction k arbitrary: m)
  case 0
  show ?case by (simp add: split_beta Let_def)
next
  case (Suc k)
  have retry: "Option.bind (usb_delay hw RETRY_DELAY m') (transaction_attempts k hw i channel q dma) \<noteq> None"
    for m' :: "('d, 'h, 's, 'z) usb_machine_scheme"
    by (rule bind_returns [OF delay_returns [OF clock] Suc.IH])
  have rest: "(let (hctsiz, m3) = usb_read_channel_reg hw i channel USB_HOST_CHANNEL_XFER_SIZE_OFFSET m2;
         (_, m4) = usb_read_channel_reg hw i channel USB_HOST_CHANNEL_CHARACTER_OFFSET m3;
         (_, m5) = usb_read_channel_reg hw i channel USB_HOST_CHANNEL_SPLIT_CTRL_OFFSET m4;
         m6 = usb_write_channel_reg hw i channel USB_HOST_CHANNEL_INT_OFFSET hcint m5
     in case transaction_verdict q hcint hctsiz of
          Tv_Error \<Rightarrow> (let (e, m7) = translate_channel_error hw i hcint m6 in Some (Inl e, m7))
        | Tv_Busy \<Rightarrow> Some (Inl Usb_Busy, m6)
        | Tv_Done actual \<Rightarrow> Some (Inr actual, m6)
        | Tv_Retry \<Rightarrow> do {
            m7 \<leftarrow> usb_delay hw RETRY_DELAY m6;
            transaction_attempts k hw i channel q dma m7
          }) \<noteq> None" for hcint and m2 :: "('d, 'h, 's, 'z) usb_machine_scheme"
    using retry by (simp add: split_beta Let_def del: not_None_eq split_paired_Ex split: channel_verdict.split)
  have wait: "(if b then wait_for_split_start_result hw i channel CHANNEL_TIMEOUT m1
      else wait_for_channel_result hw i channel CHANNEL_TIMEOUT m1) \<noteq> None" for b m1
    by (simp add: wait_for_split_start_result_def wait_for_channel_result_def wait_inner_returns [OF clock]
        del: not_None_eq split_paired_Ex)
  show ?case unfolding transaction_attempts.simps
    by (intro try_op_returns arm_channel_returns [OF clock] wait rest)
qed

lemma split_attempts_returns:
  fixes m :: "('d, 'h, 's, 'z) usb_machine_scheme"
  assumes clock: "clock_advances (hw_sys hw) t f"
  shows "split_attempts k hw i channel q q' dma m \<noteq> None"
proof (induction k arbitrary: m)
  case (Suc k)
  have "run_single_transaction_polling hw i channel q'' dma m1 \<noteq> None" for q'' m1
    unfolding run_single_transaction_polling_def by (rule transaction_attempts_returns [OF clock])
  moreover have "Option.bind (usb_delay hw RETRY_DELAY m') (split_attempts k hw i channel q q' dma) \<noteq> None"
    for m' :: "('d, 'h, 's, 'z) usb_machine_scheme"
    by (rule bind_returns [OF delay_returns [OF clock] Suc.IH])
  ultimately show ?case unfolding split_attempts.simps
    by (intro try_op_returns bind_returns) (simp_all del: not_None_eq split_paired_Ex split: sum.split prod.split)
qed simp

lemma transfer_packet_returns:
  assumes "clock_advances (hw_sys hw) t f"
  shows "transfer_packet_polling hw i channel route number ty dir mps pid n dma m \<noteq> None"
  unfolding transfer_packet_polling_def Let_def split_beta
  by (simp add: run_single_transaction_polling_def split_attempts_returns [OF assms] transaction_attempts_returns [OF assms]
      del: not_None_eq split_paired_Ex)

lemma data_stage_returns:
  assumes clock: "clock_advances (hw_sys hw) t f" and "mps \<noteq> 0"
  shows "data_stage hw i route mps dir pid transferred offset remaining m \<noteq> None"
proof (induction remaining arbitrary: pid transferred offset m rule: less_induct)
  case (less remaining)
  let ?dma = "usb_bus_address (ub_phys_addr (cr_data_buffer (uh_control (um_host i m))) + of_nat offset)"
  let ?len = "min remaining (unat mps)"
  show ?case
  proof (cases "remaining = 0 \<or> (\<exists>e. ?dma = Inl e)")
    case True
    then show ?thesis by (subst data_stage.simps) (auto simp: Let_def)
  next
    case False
    then obtain dma where dma: "?dma = Inr dma" by (cases ?dma) auto
    obtain r m1 where packet: "transfer_packet_polling hw i CONTROL_CHANNEL route 0 Ep_Control dir mps pid ?len dma m = Some (r, m1)"
      using transfer_packet_returns [OF clock] by fastforce
    show ?thesis
    proof (cases r)
      case (Inl e)
      then show ?thesis using False dma packet by (subst data_stage.simps) (simp add: Let_def)
    next
      case (Inr actual)
      have "0 < ?len" using False assms(2) by (simp add: unat_gt_0)
      then have "\<not> actual < ?len \<Longrightarrow> remaining - actual < remaining" by linarith
      with less.IH [of "remaining - actual"] show ?thesis
        using False dma packet Inr by (subst data_stage.simps) (simp add: Let_def)
    qed
  qed
qed

lemma control_stages_returns:
  assumes clock: "clock_advances (hw_sys hw) t f" and "mps \<noteq> 0"
  shows "control_stages hw i route mps packet len m \<noteq> None"
  unfolding control_stages_def Let_def
  by (intro try_op_returns transfer_packet_returns [OF clock]) (simp_all add: data_stage_returns [OF assms] del: not_None_eq split_paired_Ex)

lemma control_transfer_total:
  assumes "clock_advances (hw_sys hw) t f" and "mps \<noteq> 0"
  shows "\<exists>r new m'. control_transfer hw i route mps packet data m = Some (r, new, m')"
proof -
  have copy: "copy_input hw buffer n data m3 \<noteq> None" if "n \<le> data_length data" "data_length data \<le> ub_len buffer" for buffer n m3
    using that by (cases data) (simp_all add: Let_def)
  have stages: "\<exists>r m3. control_stages hw i route mps packet len m2 = Some (r, m3) \<and> (\<forall>n. r = Inr n \<longrightarrow> n \<le> len)" for len m2
    using control_stages_returns [OF assms] control_stages_bounded by (metis option.exhaust surj_pair)
  have "control_transfer hw i route mps packet data m \<noteq> None"
  proof -
    let ?w = "with_ram (dma_write (hw_ram hw) (cr_setup_buffer (uh_control (um_host i m))) (sp_encode packet)) m"
    let ?b = "cr_data_buffer (uh_control (um_host i (snd ?w)))"
    let ?l = "with_ram (load_data_buffer (hw_ram hw) ?b data) (snd ?w)"
    obtain r m3 where st: "control_stages hw i route mps packet (data_length data) (snd ?l) = Some (r, m3)"
      "\<forall>n. r = Inr n \<longrightarrow> n \<le> data_length data" using stages by blast
    show ?thesis
    proof (cases "ub_len ?b < data_length data")
      case True
      then show ?thesis by (simp add: control_transfer_def Let_def split_beta split: sum.split)
    next
      case False
      show ?thesis
      proof (cases r)
        case (Inl e)
        then show ?thesis using False st(1) by (auto simp: control_transfer_def Let_def split_beta split: sum.split)
      next
        case (Inr n)
        then obtain new where "copy_input hw ?b n data m3 = Some new" using st(2) copy [of n ?b m3] False by auto
        then show ?thesis using False st(1) Inr by (auto simp: control_transfer_def Let_def split_beta split: sum.split)
      qed
    qed
  qed
  then show ?thesis by auto
qed

text \<open>C17: A control transfer with a packet size above zero returns, whatever the controller and the device answer, on every
  route and in every state: each wait ends by its timeout and each repetition by its count. The one assumption is that the
  counter of the processor advances at a frequency of at least 1 MHz.\<close>

theorem control_transfer_returns:
  assumes "clock_advances (hw_sys hw) t f" and "mps \<noteq> 0"
  shows "\<exists>r new m'. control_transfer hw i route mps packet data m = Some (r, new, m')"
  using assms by (rule control_transfer_total)


section \<open>A packet size of zero\<close>

text \<open>Hardware that completes every transaction at once: the interrupt register of a channel reads as halted with the transfer
  complete, the others as zero. Its state and its memory are empty, and the counter runs at 1 MHz.\<close>

definition answering_hw :: "(unit, nat) usb_hw" where
  "answering_hw = \<lparr>
     hw_bus = \<lparr>bus_read = (\<lambda>a d. (if a AND 0x1f = 0x08 then 0x3 else 0, d)), bus_write = (\<lambda>a v d. d)\<rparr>,
     hw_ram = \<lparr>byte_store = (\<lambda>a b d. d), byte_load = (\<lambda>a d. 0)\<rparr>,
     hw_sys = \<lparr>sr_read = (\<lambda>r n. if r = CNTFRQ_EL0 then (1000000, n) else (of_nat (Suc n), Suc n)), sr_write = (\<lambda>r v n. n)\<rparr>\<rparr>"

lemma answering_clock: "clock_advances (hw_sys answering_hw) id 1000000"
  by (simp add: clock_advances_def answering_hw_def)

lemma hosts_kept [simp]:
  "um_hosts (snd (usb_read_reg hw i off m)) = um_hosts m"
  "um_hosts (usb_write_reg hw i off v m) = um_hosts m"
  "um_hosts (snd (usb_read_channel_reg hw i c off m)) = um_hosts m"
  "um_hosts (usb_write_channel_reg hw i c off v m) = um_hosts m"
  "um_hosts (change_reg hw i off g m) = um_hosts m"
  "um_hosts (snd (usb_mrs hw r m)) = um_hosts m"
  "um_hosts (snd (read_counter hw m)) = um_hosts m"
  "um_hosts (snd (timeout_wait_ticks hw d m)) = um_hosts m"
  "um_hosts (snd (with_ram h m)) = um_hosts m"
  by (simp_all add: usb_read_channel_reg_def usb_write_channel_reg_def usb_read_reg_def usb_write_reg_def change_reg_def usb_mrs_def
      read_counter_def read_counter_frequency_def timeout_wait_ticks_def with_ram_def on_ram_def split_beta Let_def)

lemma hosts_kept_irq [simp]: "um_hosts (configure_channel_irq hw i c v m) = um_hosts m"
  by (simp add: configure_channel_irq_def)

lemma um_host_cong: "um_hosts m' = um_hosts m \<Longrightarrow> um_host i m' = um_host i m"
  by (simp add: um_host_def)

lemma answering_reads:
  assumes "uh_reg_base (um_host i m) = 0"
  shows "fst (usb_read_channel_reg answering_hw i CONTROL_CHANNEL USB_HOST_CHANNEL_INT_OFFSET m) = 0x3"
    and "fst (usb_read_channel_reg answering_hw i CONTROL_CHANNEL USB_HOST_CHANNEL_CHARACTER_OFFSET m) = 0"
    and "fst (usb_read_channel_reg answering_hw i CONTROL_CHANNEL USB_HOST_CHANNEL_XFER_SIZE_OFFSET m) = 0"
  using assms by (simp_all add: usb_read_channel_reg_def usb_read_reg_def read_reg_def answering_hw_def channel_reg_offset_def
      hcd_defs split_beta Let_def)

lemma answering_arm:
  assumes "uh_reg_base (um_host i m) = 0" "0 < channel_count (um_host i m)" "programmed_transfer_size q < 2 ^ 32"
  shows "\<exists>m'. arm_channel answering_hw i CONTROL_CHANNEL q dma irqs m = Some (Inr (), m') \<and> um_hosts m' = um_hosts m"
proof -
  have "halt_channel answering_hw i CONTROL_CHANNEL m = Some (Inr (), snd (usb_read_channel_reg answering_hw i CONTROL_CHANNEL USB_HOST_CHANNEL_CHARACTER_OFFSET m))"
    by (simp add: halt_channel_def answering_reads [OF assms(1)] split_beta Let_def)
  then show ?thesis using assms(2,3) by (simp add: arm_channel_def Let_def) (simp add: CONTROL_CHANNEL_def)
qed

lemma answering_wait:
  assumes "uh_reg_base (um_host i m) = 0"
  shows "\<exists>m'. wait_for_channel_result answering_hw i CONTROL_CHANNEL d m = Some (Inr 3, m') \<and> um_hosts m' = um_hosts m"
proof -
  let ?m1 = "snd (read_counter answering_hw m)"
  let ?m2 = "snd (timeout_wait_ticks answering_hw d ?m1)"
  have base: "uh_reg_base (um_host i ?m2) = 0" using assms by (simp add: um_host_def)
  have bits: "(3 :: u32) AND (HCINT_HALTED OR HCINT_XFER_COMPLETE OR HCINT_ERROR_MASK OR HCINT_NAK OR HCINT_ACK OR HCINT_NYET) \<noteq> 0"
    "(3 :: u32) AND HCINT_HALTED \<noteq> 0" by (simp_all add: hcd_defs)
  show ?thesis
    by (simp add: wait_for_channel_result_def wait_for_channel_result_inner_def split_beta Let_def)
      (subst channel_result_loop.simps, simp add: split_beta Let_def answering_reads [OF base] bits)
qed

lemma answering_packet:
  assumes "uh_reg_base (um_host i m) = 0" "0 < channel_count (um_host i m)" "\<not> uses_split_transactions route" "n < 2 ^ 32"
  shows "\<exists>m'. transfer_packet_polling answering_hw i CONTROL_CHANNEL route 0 Ep_Control dir mps pid n dma m = Some (Inr n, m')
    \<and> um_hosts m' = um_hosts m"
proof -
  define q where "q = \<lparr>cq_route = route, cq_endpoint_number = 0, cq_endpoint_type = Ep_Control, cq_direction = dir,
    cq_max_packet_size = mps, cq_packet_id = pid, cq_transfer_size = n, cq_odd_frame = False, cq_split_phase = Split_None\<rparr>"
  have size: "programmed_transfer_size q = n" using assms(3) by (simp add: programmed_transfer_size_def q_def)
  have verdict: "transaction_verdict q 3 0 = Tv_Done n"
    unfolding transaction_verdict_def size using assms(3) by (simp add: q_def hcd_defs Let_def)
  obtain m1 where m1: "arm_channel answering_hw i CONTROL_CHANNEL q dma 0 m = Some (Inr (), m1)" "um_hosts m1 = um_hosts m"
    using answering_arm [of i m q dma 0] assms size by auto
  obtain m2 where m2: "wait_for_channel_result answering_hw i CONTROL_CHANNEL CHANNEL_TIMEOUT m1 = Some (Inr 3, m2)" "um_hosts m2 = um_hosts m"
    using answering_wait [of i m1] assms(1) m1(2) um_host_cong [OF m1(2), of i] by auto
  have "uh_reg_base (um_host i m2) = 0" using assms(1) um_host_cong [OF m2(2), of i] by simp
  then have run: "transaction_attempts (Suc k) answering_hw i CONTROL_CHANNEL q dma m =
      Some (Inr n, usb_write_channel_reg answering_hw i CONTROL_CHANNEL USB_HOST_CHANNEL_INT_OFFSET 3
        (snd (usb_read_channel_reg answering_hw i CONTROL_CHANNEL USB_HOST_CHANNEL_SPLIT_CTRL_OFFSET
          (snd (usb_read_channel_reg answering_hw i CONTROL_CHANNEL USB_HOST_CHANNEL_CHARACTER_OFFSET
            (snd (usb_read_channel_reg answering_hw i CONTROL_CHANNEL USB_HOST_CHANNEL_XFER_SIZE_OFFSET m2)))))))" for k
    using assms(3) m1(1) m2(1) by (simp add: answering_reads verdict split_beta Let_def) (simp add: q_def)
  have "MAX_TRANSACTION_RETRIES = Suc 255" by (simp add: MAX_TRANSACTION_RETRIES_def)
  with run [of 255] have "transaction_attempts MAX_TRANSACTION_RETRIES answering_hw i CONTROL_CHANNEL q dma m =
      Some (Inr n, usb_write_channel_reg answering_hw i CONTROL_CHANNEL USB_HOST_CHANNEL_INT_OFFSET 3
        (snd (usb_read_channel_reg answering_hw i CONTROL_CHANNEL USB_HOST_CHANNEL_SPLIT_CTRL_OFFSET
          (snd (usb_read_channel_reg answering_hw i CONTROL_CHANNEL USB_HOST_CHANNEL_CHARACTER_OFFSET
            (snd (usb_read_channel_reg answering_hw i CONTROL_CHANNEL USB_HOST_CHANNEL_XFER_SIZE_OFFSET m2)))))))" by (simp only:)
  then show ?thesis using assms(3) m2(2)
    by (simp add: transfer_packet_polling_def run_single_transaction_polling_def odd_frame_for_def q_def [symmetric] Let_def
        del: transaction_attempts.simps)
qed

definition hangs_from :: "nat \<Rightarrow> usb_route \<Rightarrow> (unit, 'h, nat, 'z) usb_machine_scheme \<Rightarrow> bool" where
  "hangs_from i route m \<longleftrightarrow> uh_reg_base (um_host i m) = 0 \<and> 0 < channel_count (um_host i m)
     \<and> unat (ub_phys_addr (cr_data_buffer (uh_control (um_host i m)))) < 2 ^ 32 \<and> \<not> uses_split_transactions route"

lemma data_stage_hangs:
  assumes "hangs_from i route m" "0 < remaining"
  shows "data_stage answering_hw i route 0 dir pid transferred 0 remaining m = None"
proof (rule ccontr)
  assume "\<not> ?thesis"
  then obtain r where r: "data_stage answering_hw i route 0 dir pid transferred 0 remaining m = Some r" by auto
  have "\<not> (hw = answering_hw \<and> hangs_from i route m \<and> mps = 0 \<and> offset = 0 \<and> 0 < remaining)"
    if "data_stage hw i route mps dir pid transferred offset remaining m = Some r"
    for hw i route mps dir pid transferred offset remaining r and m :: "(unit, 'a, nat, 'b) usb_machine_scheme"
  proof (rule data_stage.raw_induct [OF _ that, where P = "\<lambda>hw i route mps dir pid transferred offset remaining m r.
      \<not> (hw = answering_hw \<and> hangs_from i route m \<and> mps = 0 \<and> offset = 0 \<and> 0 < remaining)"], goal_cases)
    case (1 f hw i route mps dir pid transferred offset remaining m r)
    show ?case
    proof
      assume *: "hw = answering_hw \<and> hangs_from i route m \<and> mps = 0 \<and> offset = 0 \<and> 0 < remaining"
      then have h: "uh_reg_base (um_host i m) = 0" "0 < channel_count (um_host i m)" "\<not> uses_split_transactions route"
        "unat (ub_phys_addr (cr_data_buffer (uh_control (um_host i m)))) < 2 ^ 32" by (simp_all add: hangs_from_def)
      from h(4) obtain dma where dma: "usb_bus_address (ub_phys_addr (cr_data_buffer (uh_control (um_host i m)))) = Inr dma"
        by (simp add: usb_bus_address_def)
      from answering_packet [OF h(1-3), of 0 dir 0 pid dma] obtain m' where
        m': "transfer_packet_polling answering_hw i CONTROL_CHANNEL route 0 Ep_Control dir 0 pid 0 dma m = Some (Inr 0, m')" "um_hosts m' = um_hosts m"
        by auto
      have "f answering_hw i route 0 dir (packet_toggled pid) transferred 0 remaining m' = Some r"
        using 1(2) * dma m'(1) by (simp add: Let_def)
      from 1(1) [OF this] show False using * um_host_cong [OF m'(2), of i] by (simp add: hangs_from_def)
    qed
  qed
  from this [OF r] assms show False by simp
qed


text \<open>A machine with one controller of eight channels, whose buffers lie at 4 KiB and 8 KiB.\<close>

definition example_usb_machine :: "(unit, unit, nat) usb_machine" where
  "example_usb_machine = \<lparr>
     mx_board = \<lparr>bd_regs = (), bd_irqs = irq_tables_new, bd_virq_bases = Map.empty, bd_mmu = example_mmu, bd_core = 0,
                 bd_l1_devices = registry_new, bd_armctrl_devices = registry_new\<rparr>,
     mx_devices = [], mx_client = None, mx_registry = registry_new,
     fw_devices = [], fw_system = None, fw_registry = registry_new,
     um_sysregs = 0,
     um_hosts = [\<lparr>uh_id = ''usb'', uh_reg_base = 0, uh_virq = 9, uh_channel_count = Some 8,
       uh_control = \<lparr>cr_setup_buffer = \<lparr>ub_virt_addr = 0xffff000000001000, ub_phys_addr = 0x1000, ub_len = 8\<rparr>,
                     cr_data_buffer = \<lparr>ub_virt_addr = 0xffff000000002000, ub_phys_addr = 0x2000, ub_len = 1024\<rparr>\<rparr>,
       uh_interrupt = None\<rparr>],
     um_keyboards = [], um_inputs = [], um_system = None, um_registry = registry_new\<rparr>"

lemma example_host: "hangs_from 0 (root_route 1 Speed_High) example_usb_machine"
  by (simp add: hangs_from_def example_usb_machine_def um_host_def channel_count_def root_route_def uses_split_transactions_def)


theorem control_transfer_returns_witness:
  "\<exists>r new m'. control_transfer answering_hw 0 (root_route 1 Speed_High) 64 (setup_packet_new 0x80 6 0x100 0 18) (Data_In (replicate 18 0))
     example_usb_machine = Some (r, new, m')"
  by (rule control_transfer_returns [OF answering_clock]) simp

section \<open>Descriptors\<close>

text \<open>C25: A descriptor that is read from a device never changes the length of the buffer nor what lies beyond the bytes that
  the device sent, and a failed transfer changes nothing.\<close>

theorem descriptor_fills_prefix:
  assumes "usb_get_descriptor (control_transfer hw i) route mps kind index language old m = Some (r, new, m')"
  shows "fills_prefix r old new"
  using assms by (rule hcd.usb_get_descriptor_fills)

theorem descriptor_fills_prefix_witness:
  "\<exists>r new m'. usb_get_descriptor (control_transfer answering_hw 0) (root_route 1 Speed_High) 64 1 0 0 (replicate 18 7)
     example_usb_machine = Some (r, new, m') \<and> fills_prefix r (replicate 18 7) new"
proof -
  obtain r new m' where "usb_get_descriptor (control_transfer answering_hw 0) (root_route 1 Speed_High) 64 1 0 0 (replicate 18 7)
      example_usb_machine = Some (r, new, m')"
    using control_transfer_total [OF answering_clock, of 64] by (fastforce simp: usb_get_descriptor_def control_in_def Let_def)
  then show ?thesis using descriptor_fills_prefix by blast
qed


section \<open>What a channel is told\<close>

text \<open>The fields of the characteristics register: packet size, endpoint, direction, low speed, type, device, odd frame, enable.\<close>

definition hcchar_fields :: "u32 \<Rightarrow> u32 \<times> u32 \<times> bool \<times> bool \<times> u32 \<times> u32 \<times> bool \<times> bool" where
  "hcchar_fields w = (take_bit 11 w, take_bit 4 (drop_bit 11 w), bit w 15, bit w 17, take_bit 2 (drop_bit 18 w),
     take_bit 7 (drop_bit 22 w), bit w 29, bit w 31)"

lemma hcchar_bits:
  "bit (hcchar_value q) j \<longleftrightarrow> j < 11 \<and> bit (cq_max_packet_size q) j \<or> 11 \<le> j \<and> j < 32 \<and> bit (cq_endpoint_number q) (j - 11)
     \<or> 18 \<le> j \<and> j < 32 \<and> bit (endpoint_type_bits (cq_endpoint_type q)) (j - 18) \<or> j = 20
     \<or> 22 \<le> j \<and> j < 32 \<and> bit (rt_address (cq_route q)) (j - 22) \<or> j = 15 \<and> cq_direction q = Dir_In
     \<or> j = 17 \<and> rt_speed (cq_route q) = Speed_Low \<or> j = 29 \<and> cq_endpoint_type q = Ep_Interrupt \<and> cq_odd_frame q \<or> j = 31"
proof -
  have packet: "bit (ucast (cq_max_packet_size q) AND 0x7ff :: u32) j \<longleftrightarrow> j < 11 \<and> bit (cq_max_packet_size q) j"
  proof -
    have eq: "(0x7ff :: u32) = mask 11" by (simp add: mask_eq_exp_minus_1)
    show ?thesis unfolding eq by (auto simp: bit_simps)
  qed
  have field: "bit (push_bit n (ucast w) :: u32) j \<longleftrightarrow> n \<le> j \<and> j < 32 \<and> bit w (j - n)" for n and w :: u8
    by (auto simp: bit_simps dest: bit_imp_le_length)
  have ty: "bit (push_bit 18 (endpoint_type_bits (cq_endpoint_type q))) j
      \<longleftrightarrow> 18 \<le> j \<and> j < 32 \<and> bit (endpoint_type_bits (cq_endpoint_type q)) (j - 18)"
    by (auto simp: bit_simps)
  have flag_bit: "bit (push_bit n 1 :: u32) j \<longleftrightarrow> j = n" if "n < 32" for n
    using that by (auto simp: bit_simps)
  have one: "bit (push_bit 20 1 :: u32) j \<longleftrightarrow> j = 20" "bit (push_bit 15 1 :: u32) j \<longleftrightarrow> j = 15"
    "bit (push_bit 17 1 :: u32) j \<longleftrightarrow> j = 17" "bit (push_bit 29 1 :: u32) j \<longleftrightarrow> j = 29" "bit (push_bit 31 1 :: u32) j \<longleftrightarrow> j = 31"
    by (rule flag_bit, simp)+
  have if_flag: "bit (if c then w OR v else w) j \<longleftrightarrow> bit w j \<or> c \<and> bit v j" for c and w v :: u32
    by (simp add: bit_simps)
  show ?thesis
    unfolding hcchar_value_def Let_def bit_or_iff if_flag HCCHAR_MAX_PACKET_SIZE_MASK_def HCCHAR_ENDPOINT_NUMBER_SHIFT_def
      HCCHAR_ENDPOINT_TYPE_SHIFT_def HCCHAR_MULTI_COUNT_SHIFT_def HCCHAR_DEVICE_ADDRESS_SHIFT_def
      HCCHAR_ENDPOINT_DIRECTION_IN_def HCCHAR_LOW_SPEED_DEVICE_def HCCHAR_ODD_FRAME_def HCCHAR_ENABLE_def
      packet field one ty by blast
qed

lemma endpoint_type_bits_small: "bit (endpoint_type_bits ty) j \<Longrightarrow> j < 2"
proof -
  have "endpoint_type_bits ty = take_bit 2 (endpoint_type_bits ty)" by (cases ty) simp_all
  then show "bit (endpoint_type_bits ty) j \<Longrightarrow> j < 2" by (metis bit_take_bit_iff)
qed

text \<open>C30: The characteristics that arm a channel carry exactly the fields of the request, for a packet size of 11 bits, an endpoint
  number of 4 and a device address of 7.\<close>

theorem channel_characteristics_decode:
  assumes "cq_max_packet_size q < 2 ^ 11" "cq_endpoint_number q < 2 ^ 4" "rt_address (cq_route q) < 2 ^ 7"
  shows "hcchar_fields (hcchar_value q) = (ucast (cq_max_packet_size q), ucast (cq_endpoint_number q), cq_direction q = Dir_In,
     rt_speed (cq_route q) = Speed_Low, endpoint_type_bits (cq_endpoint_type q), ucast (rt_address (cq_route q)),
     cq_endpoint_type q = Ep_Interrupt \<and> cq_odd_frame q, True)"
proof -
  have packet: "bit (cq_max_packet_size q) j \<Longrightarrow> j < 11" for j
    using assms(1) by (metis bit_take_bit_iff less_mask_eq take_bit_eq_mask)
  have endpoint: "bit (cq_endpoint_number q) j \<Longrightarrow> j < 4" for j
    using assms(2) by (metis bit_take_bit_iff less_mask_eq take_bit_eq_mask)
  have address: "bit (rt_address (cq_route q)) j \<Longrightarrow> j < 7" for j
    using assms(3) by (metis bit_take_bit_iff less_mask_eq take_bit_eq_mask)
  note ranges = packet endpoint address endpoint_type_bits_small
  have "take_bit 11 (hcchar_value q) = ucast (cq_max_packet_size q)"
    by (rule bit_word_eqI) (auto simp: bit_simps hcchar_bits dest: ranges)
  moreover have "take_bit 4 (drop_bit 11 (hcchar_value q)) = ucast (cq_endpoint_number q)"
    by (rule bit_word_eqI) (auto simp: bit_simps hcchar_bits dest: ranges)
  moreover have "take_bit 2 (drop_bit 18 (hcchar_value q)) = endpoint_type_bits (cq_endpoint_type q)"
    by (rule bit_word_eqI) (auto simp: bit_simps hcchar_bits dest: ranges)
  moreover have "take_bit 7 (drop_bit 22 (hcchar_value q)) = ucast (rt_address (cq_route q))"
    by (rule bit_word_eqI) (auto simp: bit_simps hcchar_bits dest: ranges)
  moreover have "bit (hcchar_value q) 15 \<longleftrightarrow> cq_direction q = Dir_In" "bit (hcchar_value q) 17 \<longleftrightarrow> rt_speed (cq_route q) = Speed_Low"
    "bit (hcchar_value q) 29 \<longleftrightarrow> cq_endpoint_type q = Ep_Interrupt \<and> cq_odd_frame q" "bit (hcchar_value q) 31"
    by (auto simp: hcchar_bits dest: ranges)
  ultimately show ?thesis by (simp add: hcchar_fields_def)
qed

definition keyboard_poll_request :: channel_request where
  "keyboard_poll_request = \<lparr>cq_route = via_hub 3 Speed_Low 2 1, cq_endpoint_number = 1, cq_endpoint_type = Ep_Interrupt,
     cq_direction = Dir_In, cq_max_packet_size = 8, cq_packet_id = Pid_Data0, cq_transfer_size = 8, cq_odd_frame = True,
     cq_split_phase = Split_Start\<rparr>"

theorem channel_characteristics_decode_witness:
  "hcchar_fields (hcchar_value keyboard_poll_request) = (8, 1, True, True, 3, 3, True, True)"
  using channel_characteristics_decode [of keyboard_poll_request]
  by (simp add: keyboard_poll_request_def via_hub_def via_hub_with_parent_speed_def)

end
