(* ===== verification/Usb_Device.thy ===== *)
theory Usb_Device
  imports Usb_Transfers Framebuffer
begin

text \<open>The rest of \<open>drivers/usb/bcm2708_usb.rs\<close>: the transfer of the interrupt endpoint with its polls, its handler and its
  recovery, the enumeration that looks for a keyboard at the root port or behind a hub, and the driver. A keyboard is a
  position in the machine's list; one that could not be registered stays there, without a reference to it. The
  interrupts that come while the driver waits are not interleaved with it.\<close>

section \<open>The interrupt endpoint\<close>

definition set_interrupt :: "nat \<Rightarrow> async_interrupt_state option \<Rightarrow> ('d, 'h, 's, 'z) usb_machine_scheme \<Rightarrow> ('d, 'h, 's, 'z) usb_machine_scheme" where
  "set_interrupt i s = update_host i (\<lambda>h. h\<lparr>uh_interrupt := s\<rparr>)"

definition on_keyboard :: "nat \<Rightarrow> (keyboard_state \<Rightarrow> keyboard_state option) \<Rightarrow> ('d, 'h, 's, 'z) usb_machine_scheme
    \<Rightarrow> ('d, 'h, 's, 'z) usb_machine_scheme option" where
  "on_keyboard k f m = do {
     state \<leftarrow> f (uk_state (um_keyboards m ! k));
     Some (m\<lparr>um_keyboards := (um_keyboards m)[k := (um_keyboards m ! k)\<lparr>uk_state := state\<rparr>]\<rparr>)
   }"

definition set_frames :: "frames \<Rightarrow> ('d, 'h, 's, 'z) usb_machine_scheme \<Rightarrow> ('d, 'h, 's, 'z) usb_machine_scheme" where
  "set_frames mgr m = m\<lparr>mx_board := (mx_board m)\<lparr>bd_mmu := (bd_mmu (mx_board m))\<lparr>mmu_frames := mgr\<rparr>\<rparr>\<rparr>"

definition new_dma_buffer :: "('d, 's) usb_hw \<Rightarrow> nat \<Rightarrow> ('d, 'h, 's, 'z) usb_machine_scheme
    \<Rightarrow> (usb_dma_buffer, ('d, 'h, 's, 'z) usb_machine_scheme) usb_result" where
  "new_dma_buffer hw len m = do {
     (r, mgr, d) \<leftarrow> dma_buffer_new_zeroed (hw_ram hw) len (mmu_frames (bd_mmu (mx_board m)), bd_regs (mx_board m));
     Some (r, set_frames mgr (on_ram (\<lambda>_. d) m))
   }"

definition drop_dma_buffer :: "usb_dma_buffer \<Rightarrow> ('d, 'h, 's, 'z) usb_machine_scheme \<Rightarrow> ('d, 'h, 's, 'z) usb_machine_scheme option" where
  "drop_dma_buffer b m = do {
     mgr \<leftarrow> dma_drop b (mmu_frames (bd_mmu (mx_board m)));
     Some (set_frames mgr m)
   }"

definition POLL_IRQ_MASK :: u32 where
  "POLL_IRQ_MASK = HCINT_HALTED OR HCINT_XFER_COMPLETE OR HCINT_STALL OR HCINT_NAK OR HCINT_ACK OR HCINT_NYET OR HCINT_XACT_ERROR
     OR HCINT_AHB_ERROR OR HCINT_BABBLE_ERROR OR HCINT_FRAME_OVERRUN OR HCINT_DATA_TOGGLE_ERROR"

definition start_interrupt_locked :: "('d, 's) usb_hw \<Rightarrow> nat \<Rightarrow> async_interrupt_state \<Rightarrow> ('d, 'h, 's, 'z) usb_machine_scheme
    \<Rightarrow> ((usb_error + unit) \<times> async_interrupt_state \<times> ('d, 'h, 's, 'z) usb_machine_scheme) option" where
  "start_interrupt_locked hw i s m =
     (let transfer = ai_transfer s; endpoint = tf_endpoint transfer; buffer = tf_buffer transfer;
          request_len = min (tf_expected_len transfer) (unat (ei_max_packet_size endpoint));
          s1 = s\<lparr>ai_last_request_len := request_len\<rparr>;
          (odd_frame, m1) = next_odd_frame hw i (on_ram (dma_clear (hw_ram hw) buffer) m);
          q = \<lparr>cq_route = tf_route transfer, cq_endpoint_number = ep_number (ei_address endpoint), cq_endpoint_type = Ep_Interrupt,
               cq_direction = Dir_In, cq_max_packet_size = ei_max_packet_size endpoint, cq_packet_id = ai_packet_id s,
               cq_transfer_size = request_len, cq_odd_frame = odd_frame, cq_split_phase = ai_split_phase s\<rparr>
      in case usb_bus_address (ub_phys_addr buffer) of
           Inl e \<Rightarrow> Some (Inl e, s1, m1)
         | Inr dma_addr \<Rightarrow> do {
             (r, m2) \<leftarrow> arm_channel hw i INTERRUPT_CHANNEL q dma_addr POLL_IRQ_MASK m1;
             Some (case r of
                     Inl e \<Rightarrow> (Inl e, s1, m2)
                   | Inr _ \<Rightarrow> let (now, m3) = read_counter hw m2
                             in (Inr (), s1\<lparr>ai_poll_phase := Poll_In_Flight, ai_inflight_since := now\<rparr>, m3))
           })"

definition stop_interrupt_with_error :: "('d, 's) usb_hw \<Rightarrow> nat \<Rightarrow> usb_error \<Rightarrow> ('d, 'h, 's, 'z) usb_machine_scheme
    \<Rightarrow> ('d, 'h, 's, 'z) usb_machine_scheme option" where
  "stop_interrupt_with_error hw i e m = do {
     (_, m1) \<leftarrow> halt_channel hw i INTERRUPT_CHANNEL m;
     let m2 = configure_channel_irq hw i INTERRUPT_CHANNEL 0 m1;
     (case uh_interrupt (um_host i m2) of
        None \<Rightarrow> Some m2
      | Some s \<Rightarrow> do {
          m3 \<leftarrow> on_keyboard (tf_handler (ai_transfer s)) (Some \<circ> handle_interrupt_error) (set_interrupt i None m2);
          drop_dma_buffer (tf_buffer (ai_transfer s)) m3
        })
   }"

text \<open>A transfer that is started again, and stopped when that fails; one that waits for its next interval.\<close>

definition restart_interrupt :: "('d, 's) usb_hw \<Rightarrow> nat \<Rightarrow> async_interrupt_state \<Rightarrow> ('d, 'h, 's, 'z) usb_machine_scheme
    \<Rightarrow> ('d, 'h, 's, 'z) usb_machine_scheme option" where
  "restart_interrupt hw i s m = do {
     (r, s1, m1) \<leftarrow> start_interrupt_locked hw i s m;
     let m2 = set_interrupt i (Some s1) m1;
     (case r of Inl _ \<Rightarrow> stop_interrupt_with_error hw i Usb_HardwareFault m2 | Inr _ \<Rightarrow> Some m2)
   }"

definition idle_interrupt :: "('d, 's) usb_hw \<Rightarrow> nat \<Rightarrow> async_interrupt_state \<Rightarrow> ('d, 'h, 's, 'z) usb_machine_scheme
    \<Rightarrow> ('d, 'h, 's, 'z) usb_machine_scheme" where
  "idle_interrupt hw i s m =
     (let (now, m1) = read_counter hw m
      in configure_channel_irq hw i INTERRUPT_CHANNEL 0 (set_interrupt i (Some (mark_idle_until_next_interval now s)) m1))"

definition recover_wedged_interrupt_channel :: "('d, 's) usb_hw \<Rightarrow> nat \<Rightarrow> ('d, 'h, 's, 'z) usb_machine_scheme
    \<Rightarrow> ('d, 'h, 's, 'z) usb_machine_scheme option" where
  "recover_wedged_interrupt_channel hw i m = do {
     (_, m1) \<leftarrow> halt_channel hw i INTERRUPT_CHANNEL m;
     let (_, m2) = usb_read_channel_reg hw i INTERRUPT_CHANNEL USB_HOST_CHANNEL_INT_OFFSET m1;
     let m3 = usb_write_channel_reg hw i INTERRUPT_CHANNEL USB_HOST_CHANNEL_INT_OFFSET 0xffffffff m2;
     Some (case uh_interrupt (um_host i m3) of
             None \<Rightarrow> m3
           | Some s \<Rightarrow> let (now, m4) = read_counter hw m3
                       in set_interrupt i (Some (s\<lparr>ai_poll_phase := Poll_Idle, ai_next_due := now\<rparr>)) m4)
   }"

definition service_interrupt_polls :: "('d, 's) usb_hw \<Rightarrow> nat \<Rightarrow> ('d, 'h, 's, 'z) usb_machine_scheme
    \<Rightarrow> ('d, 'h, 's, 'z) usb_machine_scheme option" where
  "service_interrupt_polls hw i m =
     (case uh_interrupt (um_host i m) of
        None \<Rightarrow> Some m
      | Some s \<Rightarrow>
          (case ai_poll_phase s of
             Poll_Recovering \<Rightarrow> Some m
           | Poll_In_Flight \<Rightarrow>
               let (now, m1) = read_counter hw m; (timeout, m2) = duration_to_counter_ticks hw INTERRUPT_INFLIGHT_TIMEOUT m1
               in if timeout = 0 \<or> now - ai_inflight_since s < timeout then Some m2
                  else let m3 = configure_channel_irq hw i INTERRUPT_CHANNEL 0 m2
                       in recover_wedged_interrupt_channel hw i
                            (set_interrupt i (Some ((reset_split_phase s)\<lparr>ai_poll_phase := Poll_Recovering\<rparr>)) m3)
           | Poll_Idle \<Rightarrow>
               let (now, m1) = read_counter hw m
               in if \<not> poll_is_due s now then Some m1 else restart_interrupt hw i s m1))"

definition handle_port_interrupt :: "('d, 's) usb_hw \<Rightarrow> nat \<Rightarrow> ('d, 'h, 's, 'z) usb_machine_scheme
    \<Rightarrow> ('d, 'h, 's, 'z) usb_machine_scheme option" where
  "handle_port_interrupt hw i m =
     (let (port, m1) = usb_read_reg hw i USB_HOST_PORT_OFFSET m; m2 = acknowledge_host_port_changes hw i m1
      in if port AND HPRT_CONNECT = 0 then stop_interrupt_with_error hw i Usb_Disconnected m2 else Some m2)"

text \<open>The error of a channel, with the retry of a transient one.\<close>

definition channel_error_irq :: "('d, 's) usb_hw \<Rightarrow> nat \<Rightarrow> u32 \<Rightarrow> async_interrupt_state \<Rightarrow> ('d, 'h, 's, 'z) usb_machine_scheme
    \<Rightarrow> ('d, 'h, 's, 'z) usb_machine_scheme option" where
  "channel_error_irq hw i hcint s m =
     (let (e, m1) = translate_channel_error hw i hcint m;
          noise = hcint AND (HCINT_XACT_ERROR OR HCINT_FRAME_OVERRUN OR HCINT_DATA_TOGGLE_ERROR) \<noteq> 0
            \<and> hcint AND (HCINT_STALL OR HCINT_AHB_ERROR OR HCINT_BABBLE_ERROR) = 0;
          (transient, m2) = (if noise then root_port_connected hw i m1 else (False, m1))
      in if transient \<and> ai_error_retries s < MAX_INTERRUPT_ERROR_RETRIES
         then Some (idle_interrupt hw i (s\<lparr>ai_error_retries := ai_error_retries s + 1\<rparr>) m2)
         else stop_interrupt_with_error hw i e m2)"

text \<open>The end of a transfer: what arrived goes to the keyboard.\<close>

definition deliver_interrupt_data :: "('d, 's) usb_hw \<Rightarrow> nat \<Rightarrow> async_interrupt_state \<Rightarrow> ('d, 'h, 's, 'z) usb_machine_scheme
    \<Rightarrow> ('d, 'h, 's, 'z) usb_machine_scheme option" where
  "deliver_interrupt_data hw i s m = do {
     let transfer = ai_transfer s;
     let (hctsiz, m1) = usb_read_channel_reg hw i INTERRUPT_CHANNEL USB_HOST_CHANNEL_XFER_SIZE_OFFSET m;
     let remaining = unat (hctsiz AND HCTSIZ_TRANSFER_SIZE_MASK);
     let actual_len = min (ai_last_request_len s - remaining) (tf_expected_len transfer);
     let s1 = s\<lparr>ai_packet_id := packet_toggled (ai_packet_id s)\<rparr>;
     m2 \<leftarrow> (if actual_len > 0 then do {
              assert_that (actual_len \<le> ub_len (tf_buffer transfer));
              on_keyboard (tf_handler transfer)
                (handle_interrupt_in (take actual_len (dma_as_slice (hw_ram hw) (tf_buffer transfer) (bd_regs (mx_board m1))))) m1
            } else Some m1);
     Some (idle_interrupt hw i s1 m2)
   }"

definition handle_interrupt_channel_irq :: "('d, 's) usb_hw \<Rightarrow> nat \<Rightarrow> ('d, 'h, 's, 'z) usb_machine_scheme
    \<Rightarrow> ('d, 'h, 's, 'z) usb_machine_scheme option" where
  "handle_interrupt_channel_irq hw i m =
     (let (hcint, m1) = usb_read_channel_reg hw i INTERRUPT_CHANNEL USB_HOST_CHANNEL_INT_OFFSET m
      in if hcint = 0 then Some m1
         else case uh_interrupt (um_host i m1) of
                None \<Rightarrow> Some (configure_channel_irq hw i INTERRUPT_CHANNEL 0
                                (usb_write_channel_reg hw i INTERRUPT_CHANNEL USB_HOST_CHANNEL_INT_OFFSET hcint m1))
              | Some s \<Rightarrow>
                  if ai_poll_phase s = Poll_Recovering then Some m1
                  else let m2 = usb_write_channel_reg hw i INTERRUPT_CHANNEL USB_HOST_CHANNEL_INT_OFFSET hcint m1;
                           split = uses_split_transactions (tf_route (ai_transfer s));
                           s0 = s\<lparr>ai_error_retries := 0\<rparr>
                       in if hcint AND HCINT_ERROR_MASK \<noteq> 0 then channel_error_irq hw i hcint s m2
                          else if hcint AND (HCINT_NAK OR HCINT_NYET) \<noteq> 0 then
                            (if split \<and> ai_split_phase s = Split_Complete \<and> hcint AND HCINT_NYET \<noteq> 0
                                \<and> ai_split_complete_retries s < MAX_SPLIT_COMPLETE_RETRIES
                             then restart_interrupt hw i (s0\<lparr>ai_split_complete_retries := ai_split_complete_retries s + 1\<rparr>) m2
                             else Some (idle_interrupt hw i s0 m2))
                          else if split \<and> ai_split_phase s = Split_Start then
                            restart_interrupt hw i (s0\<lparr>ai_split_phase := Split_Complete, ai_split_complete_retries := 0\<rparr>) m2
                          else deliver_interrupt_data hw i s0 m2)"

definition usb_handle_irq :: "('d, 's) usb_hw \<Rightarrow> nat \<Rightarrow> ('d, 'h, 's, 'z) usb_machine_scheme
    \<Rightarrow> ('d, 'h, 's, 'z) usb_machine_scheme option" where
  "usb_handle_irq hw i m =
     (let (status, m1) = usb_read_reg hw i USB_CORE_INT_STATUS_OFFSET m;
          (enabled, m2) = usb_read_reg hw i USB_CORE_INT_MASK_OFFSET m1;
          pending = status AND enabled
      in if pending = 0 then Some m2
         else do {
           m3 \<leftarrow> (if pending AND GINTSTS_PRTINT \<noteq> 0 then handle_port_interrupt hw i m2 else Some m2);
           m4 \<leftarrow> (if pending AND GINTSTS_DISCONNINT \<noteq> 0 then stop_interrupt_with_error hw i Usb_Disconnected m3 else Some m3);
           m5 \<leftarrow> (if pending AND GINTSTS_HCHINT \<noteq> 0
                  then let (channels, m4) = usb_read_reg hw i USB_HOST_ALL_CHANNEL_INT_OFFSET m4
                       in if channels AND push_bit INTERRUPT_CHANNEL 1 \<noteq> 0 then handle_interrupt_channel_irq hw i m4 else Some m4
                  else Some m4);
           Some (usb_write_reg hw i USB_CORE_INT_STATUS_OFFSET
                   (pending AND (GINTSTS_PRTINT OR GINTSTS_HCHINT OR GINTSTS_DISCONNINT)) m5)
         })"

text \<open>A transfer that is refused is dropped with its buffer.\<close>

definition refuse_transfer :: "nat interrupt_in_transfer \<Rightarrow> usb_error \<Rightarrow> ('d, 'h, 's, 'z) usb_machine_scheme
    \<Rightarrow> (unit, ('d, 'h, 's, 'z) usb_machine_scheme) usb_result" where
  "refuse_transfer t e m = do { m1 \<leftarrow> drop_dma_buffer (tf_buffer t) m; Some (Inl e, m1) }"

definition submit_interrupt_in :: "('d, 's) usb_hw \<Rightarrow> nat \<Rightarrow> nat interrupt_in_transfer \<Rightarrow> ('d, 'h, 's, 'z) usb_machine_scheme
    \<Rightarrow> (unit, ('d, 'h, 's, 'z) usb_machine_scheme) usb_result" where
  "submit_interrupt_in hw i t m =
     (case transfer_validate t of
        Inl e \<Rightarrow> refuse_transfer t e m
      | Inr _ \<Rightarrow>
          if uh_interrupt (um_host i m) \<noteq> None then refuse_transfer t Usb_Busy m
          else do {
            let (interval_ticks, m1) = interrupt_interval_ticks hw (tf_route t) (tf_endpoint t) m;
            let (now, m2) = read_counter hw m1;
            (r, s, m3) \<leftarrow> start_interrupt_locked hw i (async_interrupt_state_new t interval_ticks now) m2;
            (case r of Inl e \<Rightarrow> refuse_transfer t e m3 | Inr _ \<Rightarrow> Some (Inr (), set_interrupt i (Some s) m3))
          })"

definition cancel_interrupt_in :: "('d, 's) usb_hw \<Rightarrow> nat \<Rightarrow> usb_route \<Rightarrow> u8 \<Rightarrow> ('d, 'h, 's, 'z) usb_machine_scheme
    \<Rightarrow> (unit, ('d, 'h, 's, 'z) usb_machine_scheme) usb_result" where
  "cancel_interrupt_in hw i route endpoint m =
     (case uh_interrupt (um_host i m) of
        None \<Rightarrow> Some (Inl Usb_InvalidState, m)
      | Some s \<Rightarrow>
          if tf_route (ai_transfer s) = route \<and> ei_address (tf_endpoint (ai_transfer s)) = endpoint
          then do {
            (_, m1) \<leftarrow> halt_channel hw i INTERRUPT_CHANNEL m;
            m2 \<leftarrow> drop_dma_buffer (tf_buffer (ai_transfer s)) (set_interrupt i None (configure_channel_irq hw i INTERRUPT_CHANNEL 0 m1));
            Some (Inr (), m2)
          }
          else Some (Inl Usb_InvalidState, m))"

text \<open>\<open>poll_usb_input\<close> of \<open>drivers/mod.rs\<close>, and the keyboard as an input of the terminal; \<open>clock\<close> is the
  uptime of \<open>kernel/time.rs\<close>.\<close>

definition poll_usb_input :: "('d, 's) usb_hw \<Rightarrow> ('d, 'h, 's, 'z) usb_machine_scheme \<Rightarrow> ('d, 'h, 's, 'z) usb_machine_scheme option" where
  "poll_usb_input hw m = (case um_system m of None \<Rightarrow> Some m | Some i \<Rightarrow> service_interrupt_polls hw i m)"

definition usb_keyboard_read :: "('d, 's) usb_hw \<Rightarrow> (('d, 'h, 's, 'z) usb_machine_scheme \<Rightarrow> (duration \<times> ('d, 'h, 's, 'z) usb_machine_scheme) option)
    \<Rightarrow> nat \<Rightarrow> ('d, 'h, 's, 'z) usb_machine_scheme \<Rightarrow> (u8 list \<times> ('d, 'h, 's, 'z) usb_machine_scheme) option" where
  "usb_keyboard_read hw clock k m = do {
     m1 \<leftarrow> service_interrupt_polls hw (uk_controller (um_keyboards m ! k)) m;
     (now, m2) \<leftarrow> clock m1;
     (output, state) \<leftarrow> keyboard_read now (uk_state (um_keyboards m2 ! k));
     Some (output, m2\<lparr>um_keyboards := (um_keyboards m2)[k := (um_keyboards m2 ! k)\<lparr>uk_state := state\<rparr>]\<rparr>)
   }"

section \<open>Enumeration\<close>

record enumerated_device =
  en_route :: usb_route
  en_max_packet_size0 :: u16
  en_device_descriptor :: device_descriptor
  en_configuration_bytes :: "u8 list"

text \<open>A read of bytes whose number is not looked at.\<close>

definition try_read :: "((usb_error + nat) \<times> u8 list \<times> 'm) option \<Rightarrow> (nat \<Rightarrow> u8 list \<Rightarrow> 'm \<Rightarrow> ('a, 'm) usb_result) \<Rightarrow> ('a, 'm) usb_result" where
  "try_read r f = (case r of None \<Rightarrow> None | Some (Inl e, _, m) \<Rightarrow> Some (Inl e, m) | Some (Inr n, bytes, m) \<Rightarrow> f n bytes m)"

definition route_with_address :: "usb_route \<Rightarrow> u8 \<Rightarrow> usb_route" where
  "route_with_address route address =
     (if rt_parent_hub_address route = 0 \<or> rt_parent_port route = 0 then root_route address (rt_speed route)
      else via_hub_with_parent_speed address (rt_speed route) (rt_parent_hub_address route) (rt_parent_port route)
             (rt_parent_hub_speed route))"

definition enumerate_device :: "('d, 's) usb_hw \<Rightarrow> nat \<Rightarrow> usb_route \<Rightarrow> u8 \<Rightarrow> ('d, 'h, 's, 'z) usb_machine_scheme
    \<Rightarrow> (enumerated_device, ('d, 'h, 's, 'z) usb_machine_scheme) usb_result" where
  "enumerate_device hw i route address m =
     (let ct = control_transfer hw i in
      try_read (usb_get_descriptor ct route 8 USB_DESC_DEVICE 0 0 (replicate 8 0) m) (\<lambda>_ header_bytes m1.
      try_op (Some (parse_device_descriptor_header header_bytes, m1)) (\<lambda>header m1.
      let max_packet_size0 = ucast (dh_max_packet_size0 header) in
      try_op (set_address ct route 8 address m1) (\<lambda>_ m2. do {
      m3 \<leftarrow> usb_delay hw (duration_from_millis 10) m2;
      let addressed_route = route_with_address route address;
      try_read (usb_get_descriptor ct addressed_route max_packet_size0 USB_DESC_DEVICE 0 0 (replicate 18 0) m3) (\<lambda>_ device_bytes m4.
      try_op (Some (parse_device_descriptor device_bytes, m4)) (\<lambda>device_descriptor m4.
      try_read (usb_get_descriptor ct addressed_route max_packet_size0 USB_DESC_CONFIGURATION 0 0 (replicate 9 0) m4) (\<lambda>_ configuration_header m5.
      try_op (Some (parse_configuration_descriptor configuration_header, m5)) (\<lambda>configuration m5.
      try_read (usb_get_descriptor ct addressed_route max_packet_size0 USB_DESC_CONFIGURATION 0 0
                  (replicate (unat (cd_total_length configuration)) 0) m5) (\<lambda>_ configuration_bytes m6.
      try_op (set_configuration ct addressed_route max_packet_size0 (cd_configuration_value configuration) m6) (\<lambda>_ m7. do {
      m8 \<leftarrow> usb_delay hw (duration_from_millis 10) m7;
      Some (Inr \<lparr>en_route = addressed_route, en_max_packet_size0 = max_packet_size0,
                 en_device_descriptor = device_descriptor, en_configuration_bytes = configuration_bytes\<rparr>, m8)
      }))))))
      }))))"

record hub_descriptor_info =
  hi_num_ports :: u8
  hi_power_on_to_power_good_ms :: u64

record hub_port_status =
  hp_status :: u16
  hp_change :: u16

definition read_hub_descriptor :: "('d, 's) usb_hw \<Rightarrow> nat \<Rightarrow> usb_route \<Rightarrow> u16 \<Rightarrow> ('d, 'h, 's, 'z) usb_machine_scheme
    \<Rightarrow> (hub_descriptor_info, ('d, 'h, 's, 'z) usb_machine_scheme) usb_result" where
  "read_hub_descriptor hw i route max_packet_size0 m =
     try_read (control_in (control_transfer hw i) route max_packet_size0 (USB_REQ_TYPE_CLASS OR USB_REQ_RECIP_DEVICE)
                 USB_REQ_GET_DESCRIPTOR (push_bit 8 (ucast USB_DESC_HUB)) 0 (replicate 16 0) m) (\<lambda>len bytes m1.
       if len < 7 \<or> bytes ! 1 \<noteq> USB_DESC_HUB then Some (Inl Usb_InvalidDescriptor, m1)
       else Some (Inr \<lparr>hi_num_ports = bytes ! 2, hi_power_on_to_power_good_ms = ucast (bytes ! 5) * 2\<rparr>, m1))"

definition get_hub_port_status :: "('d, 's) usb_hw \<Rightarrow> nat \<Rightarrow> usb_route \<Rightarrow> u16 \<Rightarrow> u8 \<Rightarrow> ('d, 'h, 's, 'z) usb_machine_scheme
    \<Rightarrow> (hub_port_status, ('d, 'h, 's, 'z) usb_machine_scheme) usb_result" where
  "get_hub_port_status hw i route max_packet_size0 port m =
     try_read (get_status (control_transfer hw i) route max_packet_size0 (USB_REQ_TYPE_CLASS OR USB_REQ_RECIP_OTHER) (ucast port)
                 (replicate 4 0) m) (\<lambda>_ b m1.
       Some (Inr \<lparr>hp_status = u16_from_le_bytes [b ! 0, b ! 1], hp_change = u16_from_le_bytes [b ! 2, b ! 3]\<rparr>, m1))"

definition clear_port_change :: "('d, 's) usb_hw \<Rightarrow> nat \<Rightarrow> usb_route \<Rightarrow> u16 \<Rightarrow> u8 \<Rightarrow> bool \<Rightarrow> u16 \<Rightarrow> ('d, 'h, 's, 'z) usb_machine_scheme
    \<Rightarrow> (unit, ('d, 'h, 's, 'z) usb_machine_scheme) usb_result" where
  "clear_port_change hw i route max_packet_size0 port changed feature m =
     (if changed then clear_feature (control_transfer hw i) route max_packet_size0 (USB_REQ_TYPE_CLASS OR USB_REQ_RECIP_OTHER)
                        feature (ucast port) m
      else Some (Inr (), m))"

definition clear_hub_port_changes :: "('d, 's) usb_hw \<Rightarrow> nat \<Rightarrow> usb_route \<Rightarrow> u16 \<Rightarrow> u8 \<Rightarrow> u16 \<Rightarrow> ('d, 'h, 's, 'z) usb_machine_scheme
    \<Rightarrow> (unit, ('d, 'h, 's, 'z) usb_machine_scheme) usb_result" where
  "clear_hub_port_changes hw i route mps port change m =
     try_op (clear_port_change hw i route mps port (change AND HUB_PORT_CHANGE_CONNECTION \<noteq> 0) HUB_FEATURE_C_PORT_CONNECTION m) (\<lambda>_ m1.
     try_op (clear_port_change hw i route mps port (change AND HUB_PORT_CHANGE_ENABLE \<noteq> 0) HUB_FEATURE_C_PORT_ENABLE m1) (\<lambda>_ m2.
     clear_port_change hw i route mps port (change AND HUB_PORT_CHANGE_RESET \<noteq> 0) HUB_FEATURE_C_PORT_RESET m2))"

text \<open>The ports \<open>1..=n\<close>.\<close>

definition hub_ports :: "u8 \<Rightarrow> u8 list" where
  "hub_ports n = map of_nat [1..<unat n + 1]"

fun power_ports :: "('d, 's) usb_hw \<Rightarrow> nat \<Rightarrow> usb_route \<Rightarrow> u16 \<Rightarrow> u8 list \<Rightarrow> ('d, 'h, 's, 'z) usb_machine_scheme
    \<Rightarrow> (unit, ('d, 'h, 's, 'z) usb_machine_scheme) usb_result" where
  "power_ports hw i route mps [] m = Some (Inr (), m)"
| "power_ports hw i route mps (port # ports) m =
     try_op (set_feature (control_transfer hw i) route mps (USB_REQ_TYPE_CLASS OR USB_REQ_RECIP_OTHER) USB_HUB_PORT_POWER (ucast port) m)
       (\<lambda>_ m1. power_ports hw i route mps ports m1)"

definition power_hub_ports :: "('d, 's) usb_hw \<Rightarrow> nat \<Rightarrow> usb_route \<Rightarrow> u16 \<Rightarrow> hub_descriptor_info \<Rightarrow> ('d, 'h, 's, 'z) usb_machine_scheme
    \<Rightarrow> (unit, ('d, 'h, 's, 'z) usb_machine_scheme) usb_result" where
  "power_hub_ports hw i route mps descriptor m =
     try_op (power_ports hw i route mps (hub_ports (hi_num_ports descriptor)) m) (\<lambda>_ m1. do {
       m2 \<leftarrow> (if hi_power_on_to_power_good_ms descriptor > 0
              then usb_delay hw (duration_from_millis (hi_power_on_to_power_good_ms descriptor)) m1 else Some m1);
       Some (Inr (), m2)
     })"

definition hub_port_speed :: "u16 \<Rightarrow> usb_speed" where
  "hub_port_speed status =
     (if status AND HUB_PORT_STATUS_HIGH_SPEED \<noteq> 0 then Speed_High
      else if status AND HUB_PORT_STATUS_LOW_SPEED \<noteq> 0 then Speed_Low else Speed_Full)"

definition find_keyboard_interface :: "u8 list \<Rightarrow> (interface_descriptor \<times> endpoint_info) option" where
  "find_keyboard_interface descriptors = do {
     interface \<leftarrow> find_interface descriptors USB_CLASS_HID USB_HID_SUBCLASS_BOOT USB_HID_PROTOCOL_KEYBOARD;
     endpoint \<leftarrow> find_interrupt_in_endpoint descriptors (id_interface_number interface);
     Some (interface, endpoint)
   }"

definition usb_keyboard_new :: "string \<Rightarrow> nat \<Rightarrow> usb_keyboard" where
  "usb_keyboard_new i controller = \<lparr>uk_id = i, uk_controller = controller, uk_state = keyboard_state_new\<rparr>"

definition register_keyboard :: "('d, 's) usb_hw \<Rightarrow> nat \<Rightarrow> enumerated_device \<Rightarrow> interface_descriptor \<Rightarrow> endpoint_info
    \<Rightarrow> ('d, 'h, 's, 'z) usb_machine_scheme \<Rightarrow> (unit, ('d, 'h, 's, 'z) usb_machine_scheme) usb_result" where
  "register_keyboard hw i device interface endpoint m =
     (let ct = control_transfer hw i; route = en_route device; mps = en_max_packet_size0 device; number = id_interface_number interface in
      try_op (if id_alternate_setting interface \<noteq> 0 then set_interface ct route mps number (id_alternate_setting interface) m
              else Some (Inr (), m)) (\<lambda>_ m1.
      try_op (set_protocol ct route mps number USB_HID_PROTOCOL_BOOT m1) (\<lambda>_ m2. do {
      (_, m3) \<leftarrow> set_idle ct route mps number 25 0 m2;
      let k = length (um_keyboards m3);
      let keyboard = usb_keyboard_new (uh_id (um_host i m3) @ '':keyboard@'' @ dec_of_nat (unat (rt_address route))) i;
      try_op (new_dma_buffer hw KEYBOARD_REPORT_LEN (m3\<lparr>um_keyboards := um_keyboards m3 @ [keyboard]\<rparr>)) (\<lambda>buffer m4.
      try_op (submit_interrupt_in hw i \<lparr>tf_route = route, tf_endpoint = endpoint, tf_expected_len = KEYBOARD_REPORT_LEN,
                tf_buffer = buffer, tf_handler = k\<rparr> m4) (\<lambda>_ m5.
      Some (Inr (), m5\<lparr>um_inputs := um_inputs m5 @ [k]\<rparr>)))
      })))"

definition saturating_succ :: "u8 \<Rightarrow> u8" where
  "saturating_succ n = (if n = 255 then 255 else n + 1)"

text \<open>The result is whether a keyboard was found, and the next address.\<close>

definition enumerate_keyboard_on_hub_port :: "('d, 's) usb_hw \<Rightarrow> nat \<Rightarrow> enumerated_device \<Rightarrow> u8 \<Rightarrow> u8
    \<Rightarrow> ('d, 'h, 's, 'z) usb_machine_scheme \<Rightarrow> (bool \<times> u8, ('d, 'h, 's, 'z) usb_machine_scheme) usb_result" where
  "enumerate_keyboard_on_hub_port hw i hub port next_address m =
     (let ct = control_transfer hw i; route = en_route hub; mps = en_max_packet_size0 hub in
      try_op (get_hub_port_status hw i route mps port m) (\<lambda>initial m1.
      try_op (clear_hub_port_changes hw i route mps port (hp_change initial) m1) (\<lambda>_ m2.
      if hp_status initial AND HUB_PORT_STATUS_CONNECTION = 0 then Some (Inr (False, next_address), m2)
      else
      try_op (set_feature ct route mps (USB_REQ_TYPE_CLASS OR USB_REQ_RECIP_OTHER) USB_HUB_PORT_RESET (ucast port) m2) (\<lambda>_ m3. do {
      m4 \<leftarrow> usb_delay hw (duration_from_millis 60) m3;
      try_op (get_hub_port_status hw i route mps port m4) (\<lambda>status m5.
      try_op (clear_hub_port_changes hw i route mps port (hp_change status) m5) (\<lambda>_ m6.
      if hp_status status AND HUB_PORT_STATUS_CONNECTION = 0 \<or> hp_status status AND HUB_PORT_STATUS_ENABLED = 0
          \<or> hp_status status AND HUB_PORT_STATUS_POWERED = 0
      then Some (Inr (False, next_address), m6)
      else
      let child_route = via_hub_with_parent_speed 0 (hub_port_speed (hp_status status)) (rt_address route) port (rt_speed route) in
      try_op (enumerate_device hw i child_route next_address m6) (\<lambda>child m7.
      let next_address = saturating_succ next_address in
      case find_keyboard_interface (en_configuration_bytes child) of
        None \<Rightarrow> Some (Inr (False, next_address), m7)
      | Some (interface, endpoint) \<Rightarrow>
          try_op (register_keyboard hw i child interface endpoint m7) (\<lambda>_ m8. Some (Inr (True, next_address), m8)))))
      }))))"

fun enumerate_hub_ports :: "('d, 's) usb_hw \<Rightarrow> nat \<Rightarrow> enumerated_device \<Rightarrow> u8 list \<Rightarrow> u8
    \<Rightarrow> ('d, 'h, 's, 'z) usb_machine_scheme \<Rightarrow> (bool, ('d, 'h, 's, 'z) usb_machine_scheme) usb_result" where
  "enumerate_hub_ports hw i hub [] next_address m = Some (Inr False, m)"
| "enumerate_hub_ports hw i hub (port # ports) next_address m =
     try_op (enumerate_keyboard_on_hub_port hw i hub port next_address m) (\<lambda>(found, next_address) m1.
       if found then Some (Inr True, m1) else enumerate_hub_ports hw i hub ports next_address m1)"

definition enumerate_boot_keyboard :: "('d, 's) usb_hw \<Rightarrow> nat \<Rightarrow> ('d, 'h, 's, 'z) usb_machine_scheme
    \<Rightarrow> (bool, ('d, 'h, 's, 'z) usb_machine_scheme) usb_result" where
  "enumerate_boot_keyboard hw i m =
     (let (connected, m1) = root_port_connected hw i m
      in if \<not> connected then Some (Inr False, m1)
         else
         try_op (reset_root_port hw i m1) (\<lambda>root_speed m2.
         try_op (enumerate_device hw i (root_route 0 root_speed) 1 m2) (\<lambda>root m3.
         let next_address = saturating_succ 1 in
         case find_keyboard_interface (en_configuration_bytes root) of
           Some (interface, endpoint) \<Rightarrow> try_op (register_keyboard hw i root interface endpoint m3) (\<lambda>_ m4. Some (Inr True, m4))
         | None \<Rightarrow>
             if \<not> (dh_device_class (en_device_descriptor root) = USB_CLASS_HUB
                   \<or> find_interface (en_configuration_bytes root) USB_CLASS_HUB 0 0 \<noteq> None)
             then Some (Inr False, m3)
             else
             try_op (read_hub_descriptor hw i (en_route root) (en_max_packet_size0 root) m3) (\<lambda>hub_descriptor m4.
             try_op (power_hub_ports hw i (en_route root) (en_max_packet_size0 root) hub_descriptor m4) (\<lambda>_ m5.
             enumerate_hub_ports hw i root (hub_ports (hi_num_ports hub_descriptor)) next_address m5)))))"


section \<open>The driver\<close>

definition register_host_controller :: "nat \<Rightarrow> ('d, 'h, 's, 'z) usb_machine_scheme \<Rightarrow> (unit + unit) \<times> ('d, 'h, 's, 'z) usb_machine_scheme" where
  "register_host_controller i m = (case um_system m of Some _ \<Rightarrow> (Inl (), m) | None \<Rightarrow> (Inr (), m\<lparr>um_system := Some i\<rparr>))"

definition set_channel_count :: "nat \<Rightarrow> nat \<Rightarrow> ('d, 'h, 's, 'z) usb_machine_scheme \<Rightarrow> (unit + unit) \<times> ('d, 'h, 's, 'z) usb_machine_scheme" where
  "set_channel_count i n m =
     (case uh_channel_count (um_host i m) of
        Some _ \<Rightarrow> (Inl (), m)
      | None \<Rightarrow> (Inr (), update_host i (\<lambda>h. h\<lparr>uh_channel_count := Some n\<rparr>) m))"

definition set_board :: "('d, 'h) board \<Rightarrow> ('d, 'h, 's, 'z) usb_machine_scheme \<Rightarrow> ('d, 'h, 's, 'z) usb_machine_scheme" where
  "set_board b m = m\<lparr>mx_board := b\<rparr>"

text \<open>An operation whose every error becomes one of the driver.\<close>

definition map_err :: "'f \<Rightarrow> (('e + 'a) \<times> 'm) option \<Rightarrow> (('f + 'a) \<times> 'm) option" where
  "map_err f r = map_option (\<lambda>(x, m). (map_sum (\<lambda>_. f) id x, m)) r"

definition usb_global_setup :: "('d, 's) usb_hw \<Rightarrow> 'd ram_ops \<Rightarrow> usize \<Rightarrow> 'h \<Rightarrow> nat \<Rightarrow> ('d, 'h, 's, 'z) usb_machine_scheme
    \<Rightarrow> ((driver_init_error + unit) \<times> ('d, 'h, 's, 'z) usb_machine_scheme) option" where
  "usb_global_setup hw words va handler i m =
     try_op (map_err Retry (power_on_hcd hw words va m)) (\<lambda>_ m1.
     try_op (map_err DeviceFailed (init_core hw i m1)) (\<lambda>channels m2.
     try_op (map_err DeviceFailed (Some (set_channel_count i channels m2))) (\<lambda>_ m3.
     try_op (map_err DeviceFailed (init_host hw i m3)) (\<lambda>_ m4.
     let virq = uh_virq (um_host i m4);
         (r, t) = register_handler virq (H_Other handler) (bd_irqs (mx_board m4));
         m5 = set_board ((mx_board m4)\<lparr>bd_irqs := t\<rparr>) m4
     in
     try_op (map_err Retry (Some (r, m5))) (\<lambda>_ m5. do {
     (r', b) \<leftarrow> enable_irq (intc_ops (hw_bus hw)) virq (bd_irqs (mx_board m5)) (mx_board m5);
     try_op (map_err Retry (Some (r', set_board b m5))) (\<lambda>_ m6.
     try_op (map_err DeviceFailed (Some (register_host_controller i m6))) (\<lambda>_ m7. do {
     (_, m8) \<leftarrow> enumerate_boot_keyboard hw i m7;
     Some (Inr (), m8)
     }))
     })))))"

definition control_resources_new :: "('d, 's) usb_hw \<Rightarrow> ('d, 'h, 's, 'z) usb_machine_scheme
    \<Rightarrow> (control_resources, ('d, 'h, 's, 'z) usb_machine_scheme) usb_result" where
  "control_resources_new hw m =
     try_op (new_dma_buffer hw SETUP_BUFFER_LEN m) (\<lambda>setup_buffer m1. do {
     (r, m2) \<leftarrow> new_dma_buffer hw CONTROL_BUFFER_LEN m1;
     (case r of
        Inr data_buffer \<Rightarrow> Some (Inr \<lparr>cr_setup_buffer = setup_buffer, cr_data_buffer = data_buffer\<rparr>, m2)
      | Inl e \<Rightarrow> do { m3 \<leftarrow> drop_dma_buffer setup_buffer m2; Some (Inl e, m3) })
     })"

definition usb_host_new :: "('d, 's) usb_hw \<Rightarrow> string \<Rightarrow> usize \<Rightarrow> u32 \<Rightarrow> ('d, 'h, 's, 'z) usb_machine_scheme
    \<Rightarrow> (usb_host, ('d, 'h, 's, 'z) usb_machine_scheme) usb_result" where
  "usb_host_new hw i reg_base virq m =
     try_op (control_resources_new hw m) (\<lambda>control m1.
       Some (Inr \<lparr>uh_id = i, uh_reg_base = reg_base, uh_virq = virq, uh_channel_count = None, uh_control = control,
                  uh_interrupt = None\<rparr>, m1))"

text \<open>\<open>handler\<close> makes the handler of interrupts that stands for a controller.\<close>

definition usb_try_init :: "('d, 's) usb_hw \<Rightarrow> 'd ram_ops \<Rightarrow> usize \<Rightarrow> (nat \<Rightarrow> 'h) \<Rightarrow> device_tree \<Rightarrow> nat
    \<Rightarrow> ('d, 'h, 's, 'z) usb_machine_scheme \<Rightarrow> ((driver_init_error + unit) \<times> ('d, 'h, 's, 'z) usb_machine_scheme) option" where
  "usb_try_init hw words va handler dt node m =
     (case get_rpi_firmware m of
        None \<Rightarrow> Some (Inl Retry, m)
      | Some _ \<Rightarrow> do {
          resolved \<leftarrow> resolve_phys_address_and_length dt node 0;
          (case resolved of
             None \<Rightarrow> Some (Inl DeviceTreeError, m)
           | Some (phys_addr, len) \<Rightarrow> do {
               v \<leftarrow> resolve_virq (intc_ops (hw_bus hw) :: (intc, ('d, 'h) board) interrupt_controller) dt node 0 (bd_irqs (mx_board m));
               (case v of
                  Inl _ \<Rightarrow> Some (Inl Retry, m)
                | Inr virq \<Rightarrow> do {
                    (reg_base, mmu) \<leftarrow> map_io_region phys_addr len (bd_mmu (mx_board m));
                    path \<leftarrow> node_path dt node;
                    try_op (map_err DeviceFailed (usb_host_new hw path reg_base virq (set_board ((mx_board m)\<lparr>bd_mmu := mmu\<rparr>) m)))
                      (\<lambda>dev m1.
                    let i = length (um_hosts m1) in
                    try_op (usb_global_setup hw words va (handler i) i (m1\<lparr>um_hosts := um_hosts m1 @ [dev]\<rparr>)) (\<lambda>_ m2.
                    Some (Inr (), m2\<lparr>um_registry := add_device path i (um_registry m2)\<rparr>)))
                  })
             })
        })"

end
