(* ===== verification/Usb_Polls.thy ===== *)
theory Usb_Polls
  imports Usb_Device Usb_Progress
begin

text \<open>What holds of the transfer of the interrupt endpoint at every moment: an invariant of the interrupts, the polls, the submissions
  and the cancellations, in any order.\<close>

section \<open>Operations that keep the controllers\<close>

lemma spin_until_hosts: "spin_until hw start wait m = Some m' \<Longrightarrow> um_hosts m' = um_hosts m"
proof (rule spin_until.raw_induct [where P = "\<lambda>hw start wait m m'. um_hosts m' = um_hosts m"], goal_cases)
  case (1 f hw start wait m m')
  then show ?case by (fastforce simp: Let_def split_beta split: if_splits)
qed

lemma usb_delay_hosts: "usb_delay hw d m = Some m' \<Longrightarrow> um_hosts m' = um_hosts m"
  by (auto simp: usb_delay_def Let_def split_beta read_counter_frequency_def dest: spin_until_hosts split: if_splits)

lemma timed_out_hosts [simp]: "um_hosts (snd (timed_out hw start wait m)) = um_hosts m"
  by (simp add: timed_out_def Let_def split_beta)

lemma log_hosts [simp]: "um_hosts (log_channel_state hw i c m) = um_hosts m"
  by (simp add: log_channel_state_def Let_def split_beta)

lemma halt_loop_hosts: "halt_loop hw i c start wait m = Some r \<Longrightarrow> um_hosts (snd r) = um_hosts m"
proof (rule halt_loop.raw_induct [where P = "\<lambda>hw i c start wait m r. um_hosts (snd r) = um_hosts m"], goal_cases)
  case (1 f hw i c start wait m r)
  let ?m1 = "snd (usb_read_channel_reg hw i c USB_HOST_CHANNEL_INT_OFFSET m)"
  have delay: "um_hosts m' = um_hosts m" if "usb_delay hw POLL_STEP (snd (timed_out hw start wait ?m1)) = Some m'" for m'
    using usb_delay_hosts [OF that] by simp
  show ?case
  proof (cases "fst (usb_read_channel_reg hw i c USB_HOST_CHANNEL_INT_OFFSET m) AND HCINT_HALTED \<noteq> 0 \<or> fst (timed_out hw start wait ?m1)")
    case True
    then show ?thesis using 1(3) by (auto simp: Let_def split_beta split: if_splits)
  next
    case False
    with 1(3) obtain m' where m': "usb_delay hw POLL_STEP (snd (timed_out hw start wait ?m1)) = Some m'" "f hw i c start wait m' = Some r"
      by (auto simp: Let_def split_beta bind_eq_Some_conv)
    show ?thesis using 1(2) [OF m'(2)] delay [OF m'(1)] by simp
  qed
qed

lemma halt_channel_hosts: "halt_channel hw i c m = Some (r, m') \<Longrightarrow> um_hosts m' = um_hosts m"
  by (auto simp: halt_channel_def Let_def split_beta dest!: halt_loop_hosts split: if_splits)

lemma arm_channel_hosts: "arm_channel hw i c q dma irqs m = Some (r, m') \<Longrightarrow> um_hosts m' = um_hosts m"
  by (auto simp: arm_channel_def Let_def bind_eq_Some_conv dest: halt_channel_hosts split: if_splits)

lemma ram_hosts [simp]: "um_hosts (on_ram f m) = um_hosts m" "um_hosts (set_frames g m) = um_hosts m"
  by (simp_all add: on_ram_def set_frames_def)

lemma start_interrupt_keeps:
  assumes "start_interrupt_locked hw i s m = Some (r, s', m')"
  shows "um_hosts m' = um_hosts m" "ai_transfer s' = ai_transfer s"
proof -
  define m1 where "m1 = snd (next_odd_frame hw i (on_ram (dma_clear (hw_ram hw) (tf_buffer (ai_transfer s))) m))"
  have hosts: "um_hosts m1 = um_hosts m" by (simp add: m1_def next_odd_frame_def split_beta Let_def)
  define s1 where "s1 = s\<lparr>ai_last_request_len := min (tf_expected_len (ai_transfer s)) (unat (ei_max_packet_size (tf_endpoint (ai_transfer s))))\<rparr>"
  have s1: "ai_transfer s1 = ai_transfer s" by (simp add: s1_def)
  have "s' = s1 \<and> m' = m1 \<or> (\<exists>q dma r0 m2. arm_channel hw i INTERRUPT_CHANNEL q dma POLL_IRQ_MASK m1 = Some (r0, m2)
      \<and> (case r0 of Inl e \<Rightarrow> (Inl e, s1, m2) | Inr _ \<Rightarrow> let (now, m3) = read_counter hw m2
           in (Inr (), s1\<lparr>ai_poll_phase := Poll_In_Flight, ai_inflight_since := now\<rparr>, m3)) = (r, s', m'))"
    using assms unfolding start_interrupt_locked_def Let_def split_beta m1_def [symmetric] s1_def [symmetric]
    by (cases "usb_bus_address (ub_phys_addr (tf_buffer (ai_transfer s)))") (auto simp: bind_eq_Some_conv)
  then have "um_hosts m' = um_hosts m \<and> ai_transfer s' = ai_transfer s"
  proof
    assume "\<exists>q dma r0 m2. arm_channel hw i INTERRUPT_CHANNEL q dma POLL_IRQ_MASK m1 = Some (r0, m2)
      \<and> (case r0 of Inl e \<Rightarrow> (Inl e, s1, m2) | Inr _ \<Rightarrow> let (now, m3) = read_counter hw m2
           in (Inr (), s1\<lparr>ai_poll_phase := Poll_In_Flight, ai_inflight_since := now\<rparr>, m3)) = (r, s', m')"
    then obtain q dma r0 m2 where arm: "arm_channel hw i INTERRUPT_CHANNEL q dma POLL_IRQ_MASK m1 = Some (r0, m2)"
      and out: "(case r0 of Inl e \<Rightarrow> (Inl e, s1, m2) | Inr _ \<Rightarrow> let (now, m3) = read_counter hw m2
           in (Inr (), s1\<lparr>ai_poll_phase := Poll_In_Flight, ai_inflight_since := now\<rparr>, m3)) = (r, s', m')" by blast
    show ?thesis using arm_channel_hosts [OF arm] out hosts s1 by (cases r0) (auto simp: Let_def split_beta)
  qed (simp add: hosts s1)
  then show "um_hosts m' = um_hosts m" "ai_transfer s' = ai_transfer s" by simp_all
qed

lemma on_keyboard_hosts: "on_keyboard k f m = Some m' \<Longrightarrow> um_hosts m' = um_hosts m"
  by (auto simp: on_keyboard_def bind_eq_Some_conv)

lemma drop_dma_buffer_hosts: "drop_dma_buffer b m = Some m' \<Longrightarrow> um_hosts m' = um_hosts m"
  by (auto simp: drop_dma_buffer_def bind_eq_Some_conv)


section \<open>The transfer is always a valid one\<close>

text \<open>\<open>valid_poll i m\<close>: a transfer that the controller holds passes the check of \<open>validate\<close>.\<close>

definition valid_poll :: "nat \<Rightarrow> ('d, 'h, 's, 'z) usb_machine_scheme \<Rightarrow> bool" where
  "valid_poll i m \<longleftrightarrow> (case uh_interrupt (um_host i m) of None \<Rightarrow> True | Some s \<Rightarrow> transfer_validate (ai_transfer s) = Inr ())"

lemma valid_poll_cong: "um_hosts m' = um_hosts m \<Longrightarrow> valid_poll i m' \<longleftrightarrow> valid_poll i m"
  by (simp add: valid_poll_def um_host_def)

lemmas valid_poll_kept [simp] =
  hosts_kept [THEN valid_poll_cong] hosts_kept_irq [THEN valid_poll_cong] ram_hosts [THEN valid_poll_cong]
  timed_out_hosts [THEN valid_poll_cong]

lemma set_interrupt_host:
  "um_host i (set_interrupt i v m) = (if i < length (um_hosts m) then (um_host i m)\<lparr>uh_interrupt := v\<rparr> else um_host i m)"
  by (simp add: set_interrupt_def update_host_def um_host_def list_update_beyond)

lemma valid_poll_set:
  "valid_poll i m \<Longrightarrow> (\<And>s. v = Some s \<Longrightarrow> transfer_validate (ai_transfer s) = Inr ()) \<Longrightarrow> valid_poll i (set_interrupt i v m)"
  by (auto simp: valid_poll_def set_interrupt_host split: option.split)

lemma valid_pollD: "valid_poll i m \<Longrightarrow> uh_interrupt (um_host i m) = Some s \<Longrightarrow> transfer_validate (ai_transfer s) = Inr ()"
  by (simp add: valid_poll_def)

lemma set_interrupt_hosts_cong: "um_hosts m' = um_hosts m \<Longrightarrow> um_hosts (set_interrupt i v m') = um_hosts (set_interrupt i v m)"
  by (simp add: set_interrupt_def update_host_def um_host_def)

lemma stop_interrupt_valid:
  assumes "valid_poll i m" "stop_interrupt_with_error hw i e m = Some m'" shows "valid_poll i m'"
proof -
  from assms(2) obtain r m1 where m1: "halt_channel hw i INTERRUPT_CHANNEL m = Some (r, m1)"
    and rest: "(case uh_interrupt (um_host i (configure_channel_irq hw i INTERRUPT_CHANNEL 0 m1)) of
        None \<Rightarrow> Some (configure_channel_irq hw i INTERRUPT_CHANNEL 0 m1)
      | Some s \<Rightarrow> do {
          m3 \<leftarrow> on_keyboard (tf_handler (ai_transfer s)) (Some \<circ> handle_interrupt_error)
                 (set_interrupt i None (configure_channel_irq hw i INTERRUPT_CHANNEL 0 m1));
          drop_dma_buffer (tf_buffer (ai_transfer s)) m3
        }) = Some m'"
    by (auto simp: stop_interrupt_with_error_def bind_eq_Some_conv Let_def)
  let ?m2 = "configure_channel_irq hw i INTERRUPT_CHANNEL 0 m1"
  have "um_hosts ?m2 = um_hosts m" using halt_channel_hosts [OF m1] by simp
  then have "valid_poll i ?m2" using assms(1) valid_poll_cong by blast
  moreover have "um_hosts m' = um_hosts ?m2 \<or> um_hosts m' = um_hosts (set_interrupt i None ?m2)"
    using rest by (auto simp: bind_eq_Some_conv dest!: on_keyboard_hosts drop_dma_buffer_hosts split: option.splits)
  ultimately show ?thesis
    using valid_poll_cong valid_poll_set [of i ?m2 None] by blast
qed

lemma restart_interrupt_valid:
  assumes "valid_poll i m" "transfer_validate (ai_transfer s) = Inr ()" "restart_interrupt hw i s m = Some m'"
  shows "valid_poll i m'"
proof -
  from assms(3) obtain r s1 m1 where start: "start_interrupt_locked hw i s m = Some (r, s1, m1)"
    and rest: "(case r of Inl _ \<Rightarrow> stop_interrupt_with_error hw i Usb_HardwareFault (set_interrupt i (Some s1) m1)
      | Inr _ \<Rightarrow> Some (set_interrupt i (Some s1) m1)) = Some m'"
    by (auto simp: restart_interrupt_def bind_eq_Some_conv Let_def)
  have "valid_poll i m1" using assms(1) valid_poll_cong start_interrupt_keeps(1) [OF start] by blast
  then have "valid_poll i (set_interrupt i (Some s1) m1)"
    using assms(2) start_interrupt_keeps(2) [OF start] by (intro valid_poll_set) auto
  with rest show ?thesis by (auto dest: stop_interrupt_valid split: sum.splits)
qed

lemma idle_interrupt_valid:
  assumes "valid_poll i m" "transfer_validate (ai_transfer s) = Inr ()" shows "valid_poll i (idle_interrupt hw i s m)"
proof -
  let ?m1 = "snd (read_counter hw m)" and ?s = "mark_idle_until_next_interval (fst (read_counter hw m)) s"
  have "valid_poll i ?m1" using assms(1) valid_poll_cong [of ?m1 m] by simp
  moreover have "ai_transfer ?s = ai_transfer s" by (simp add: mark_idle_until_next_interval_def reset_split_phase_def)
  ultimately have "valid_poll i (set_interrupt i (Some ?s) ?m1)" using assms(2) by (intro valid_poll_set) auto
  moreover have "um_hosts (idle_interrupt hw i s m) = um_hosts (set_interrupt i (Some ?s) ?m1)"
    by (simp add: idle_interrupt_def Let_def split_beta)
  ultimately show ?thesis using valid_poll_cong by blast
qed

lemma channel_error_valid:
  assumes "valid_poll i m" "transfer_validate (ai_transfer s) = Inr ()" "channel_error_irq hw i hcint s m = Some m'"
  shows "valid_poll i m'"
proof -
  define m1 where "m1 = snd (translate_channel_error hw i hcint m)"
  define m2 where "m2 = snd (root_port_connected hw i m1)"
  have "um_hosts m1 = um_hosts m" by (simp add: m1_def translate_channel_error_def root_port_connected_def split_beta Let_def)
  moreover have "um_hosts m2 = um_hosts m1" by (simp add: m2_def root_port_connected_def split_beta Let_def)
  ultimately have v: "valid_poll i m1" "valid_poll i m2" using assms(1) valid_poll_cong by metis+
  have "\<exists>e. m' = idle_interrupt hw i (s\<lparr>ai_error_retries := ai_error_retries s + 1\<rparr>) m2
      \<or> stop_interrupt_with_error hw i e m2 = Some m' \<or> stop_interrupt_with_error hw i e m1 = Some m'"
    using assms(3) unfolding channel_error_irq_def Let_def split_beta m1_def [symmetric] m2_def
    by (cases "hcint AND (HCINT_XACT_ERROR OR HCINT_FRAME_OVERRUN OR HCINT_DATA_TOGGLE_ERROR) \<noteq> 0
          \<and> hcint AND (HCINT_STALL OR HCINT_AHB_ERROR OR HCINT_BABBLE_ERROR) = 0") (auto split: if_split_asm)
  then show ?thesis using v stop_interrupt_valid idle_interrupt_valid [OF v(2)] assms(2) by fastforce
qed

lemma deliver_valid:
  assumes "valid_poll i m" "transfer_validate (ai_transfer s) = Inr ()" "deliver_interrupt_data hw i s m = Some m'"
  shows "valid_poll i m'"
proof -
  define m1 where "m1 = snd (usb_read_channel_reg hw i INTERRUPT_CHANNEL USB_HOST_CHANNEL_XFER_SIZE_OFFSET m)"
  define n where "n = min (ai_last_request_len s - unat (fst (usb_read_channel_reg hw i INTERRUPT_CHANNEL USB_HOST_CHANNEL_XFER_SIZE_OFFSET m)
    AND HCTSIZ_TRANSFER_SIZE_MASK)) (tf_expected_len (ai_transfer s))"
  have v1: "valid_poll i m1" using assms(1) by (simp add: m1_def)
  obtain m2 where m2: "(if n > 0 then do {
        assert_that (n \<le> ub_len (tf_buffer (ai_transfer s)));
        on_keyboard (tf_handler (ai_transfer s)) (handle_interrupt_in (take n (dma_as_slice (hw_ram hw) (tf_buffer (ai_transfer s))
          (bd_regs (mx_board m1))))) m1 } else Some m1) = Some m2"
    and m': "m' = idle_interrupt hw i (s\<lparr>ai_packet_id := packet_toggled (ai_packet_id s)\<rparr>) m2"
    using assms(3) unfolding deliver_interrupt_data_def Let_def split_beta m1_def [symmetric] n_def [symmetric] bind_eq_Some_conv by blast
  have "um_hosts m2 = um_hosts m1"
  proof (cases "n > 0")
    case True
    with m2 show ?thesis by (auto simp: bind_eq_Some_conv dest: on_keyboard_hosts)
  next
    case False
    with m2 show ?thesis by simp
  qed
  then have "valid_poll i m2" using v1 valid_poll_cong by blast
  then show ?thesis unfolding m' using assms(2) by (intro idle_interrupt_valid) simp_all
qed

lemma channel_irq_valid:
  assumes "valid_poll i m" "handle_interrupt_channel_irq hw i m = Some m'" shows "valid_poll i m'"
proof -
  define hcint where "hcint = fst (usb_read_channel_reg hw i INTERRUPT_CHANNEL USB_HOST_CHANNEL_INT_OFFSET m)"
  define m1 where "m1 = snd (usb_read_channel_reg hw i INTERRUPT_CHANNEL USB_HOST_CHANNEL_INT_OFFSET m)"
  define m2 where "m2 = usb_write_channel_reg hw i INTERRUPT_CHANNEL USB_HOST_CHANNEL_INT_OFFSET hcint m1"
  note run = assms(2) [unfolded handle_interrupt_channel_irq_def Let_def split_beta, folded hcint_def m1_def, folded m2_def]
  have v: "valid_poll i m1" "valid_poll i m2" "valid_poll i (configure_channel_irq hw i INTERRUPT_CHANNEL 0 m2)"
    using assms(1) by (simp_all add: m1_def m2_def)
  show ?thesis
  proof (cases "hcint = 0 \<or> uh_interrupt (um_host i m1) = None")
    case True
    then show ?thesis using run v by (auto split: if_split_asm)
  next
    case False
    then obtain s where s: "uh_interrupt (um_host i m1) = Some s" "hcint \<noteq> 0" by auto
    then have ok: "transfer_validate (ai_transfer s) = Inr ()" using v(1) by (blast intro: valid_pollD)
    consider "m' = m1" | "channel_error_irq hw i hcint s m2 = Some m'"
      | t where "ai_transfer t = ai_transfer s" "restart_interrupt hw i t m2 = Some m' \<or> m' = idle_interrupt hw i t m2
          \<or> deliver_interrupt_data hw i t m2 = Some m'"
    proof (cases "ai_poll_phase s = Poll_Recovering")
      case True
      then show ?thesis using run s that(1) by simp
    next
      case phase: False
      show ?thesis
      proof (cases "hcint AND HCINT_ERROR_MASK = 0")
        case False
        then show ?thesis using run s phase that(2) by simp
      next
        case error: True
        let ?split = "uses_split_transactions (tf_route (ai_transfer s))"
        let ?nak = "hcint AND (HCINT_NAK OR HCINT_NYET) \<noteq> 0"
        let ?again = "?split \<and> ai_split_phase s = Split_Complete \<and> hcint AND HCINT_NYET \<noteq> 0
          \<and> ai_split_complete_retries s < MAX_SPLIT_COMPLETE_RETRIES"
        consider (again) "?nak" "?again" | (nak) "?nak" "\<not> ?again" | (ack) "\<not> ?nak" "?split \<and> ai_split_phase s = Split_Start"
          | (data) "\<not> ?nak" "\<not> (?split \<and> ai_split_phase s = Split_Start)" by blast
        then show ?thesis
        proof cases
          case again
          show ?thesis by (rule that(3) [of "s\<lparr>ai_error_retries := 0, ai_split_complete_retries := ai_split_complete_retries s + 1\<rparr>"])
              (use run s phase error again in simp_all)
        next
          case nak
          show ?thesis by (rule that(3) [of "s\<lparr>ai_error_retries := 0\<rparr>"])
              (use run s phase error nak in auto)
        next
          case ack
          show ?thesis by (rule that(3) [of "s\<lparr>ai_error_retries := 0, ai_split_phase := Split_Complete, ai_split_complete_retries := 0\<rparr>"])
              (use run s phase error ack in simp_all)
        next
          case data
          show ?thesis by (rule that(3) [of "s\<lparr>ai_error_retries := 0\<rparr>"]) (use run s phase error data in simp_all)
        qed
      qed
    qed
    then show ?thesis
    proof cases
      case 1
      then show ?thesis using v by simp
    next
      case 2
      then show ?thesis by (rule channel_error_valid [OF v(2) ok])
    next
      case 3
      then have "transfer_validate (ai_transfer t) = Inr ()" using ok by simp
      note ok' = this
      consider (restart) "restart_interrupt hw i t m2 = Some m'" | (idle) "m' = idle_interrupt hw i t m2"
        | (deliver) "deliver_interrupt_data hw i t m2 = Some m'" using 3(2) by blast
      then show ?thesis
      proof cases
        case restart
        then show ?thesis by (rule restart_interrupt_valid [OF v(2) ok'])
      next
        case idle
        show ?thesis unfolding idle by (rule idle_interrupt_valid [OF v(2) ok'])
      next
        case deliver
        then show ?thesis by (rule deliver_valid [OF v(2) ok'])
      qed
    qed
  qed
qed

lemma acknowledge_hosts [simp]: "um_hosts (acknowledge_host_port_changes hw i m) = um_hosts m"
  by (simp add: acknowledge_host_port_changes_def update_host_port_def Let_def split_beta)

lemma acknowledge_valid [simp]: "valid_poll i (acknowledge_host_port_changes hw j m) \<longleftrightarrow> valid_poll i m"
  by (rule valid_poll_cong) simp

lemma port_interrupt_valid:
  assumes "valid_poll i m" "handle_port_interrupt hw i m = Some m'" shows "valid_poll i m'"
proof -
  let ?m2 = "acknowledge_host_port_changes hw i (snd (usb_read_reg hw i USB_HOST_PORT_OFFSET m))"
  have v2: "valid_poll i ?m2" using assms(1) by simp
  show ?thesis
  proof (cases "m' = ?m2")
    case True
    then show ?thesis using v2 by simp
  next
    case False
    then have "stop_interrupt_with_error hw i Usb_Disconnected ?m2 = Some m'"
      using assms(2) unfolding handle_port_interrupt_def Let_def split_beta by (simp split: if_split_asm)
    then show ?thesis by (rule stop_interrupt_valid [OF v2])
  qed
qed

lemma kept_by_if:
  "(if b then r else Some m) = Some m' \<Longrightarrow> valid_poll i m \<Longrightarrow> (r = Some m' \<Longrightarrow> valid_poll i m') \<Longrightarrow> valid_poll i m'"
  by (cases b) auto

lemma handle_irq_valid:
  fixes m :: "('d, 'h, 's, 'z) usb_machine_scheme"
  assumes "valid_poll i m" "usb_handle_irq hw i m = Some m'" shows "valid_poll i m'"
proof -
  let ?r1 = "usb_read_reg hw i USB_CORE_INT_STATUS_OFFSET m"
  let ?r2 = "usb_read_reg hw i USB_CORE_INT_MASK_OFFSET (snd ?r1)"
  let ?p = "fst ?r1 AND fst ?r2"
  have v2: "valid_poll i (snd ?r2)" using assms(1) by simp
  show ?thesis
  proof (cases "?p = 0")
    case True
    then show ?thesis using assms(2) v2 by (simp add: usb_handle_irq_def Let_def split_beta)
  next
    case False
    define tail where "tail = (\<lambda>m4 :: ('d, 'h, 's, 'z) usb_machine_scheme. if ?p AND GINTSTS_HCHINT \<noteq> 0
        then let (channels, m4) = usb_read_reg hw i USB_HOST_ALL_CHANNEL_INT_OFFSET m4
             in if channels AND push_bit INTERRUPT_CHANNEL 1 \<noteq> 0 then handle_interrupt_channel_irq hw i m4 else Some m4
        else Some m4)"
    from assms(2) False obtain m3 m4 m5 where
      m3: "(if ?p AND GINTSTS_PRTINT \<noteq> 0 then handle_port_interrupt hw i (snd ?r2) else Some (snd ?r2)) = Some m3"
      and m4: "(if ?p AND GINTSTS_DISCONNINT \<noteq> 0 then stop_interrupt_with_error hw i Usb_Disconnected m3 else Some m3) = Some m4"
      and m5: "tail m4 = Some m5" and m': "um_hosts m' = um_hosts m5"
      unfolding usb_handle_irq_def Let_def split_beta tail_def by (auto simp: bind_eq_Some_conv simp del: push_bit_eq_mult)
    have v3: "valid_poll i m3" by (rule kept_by_if [OF m3 v2 port_interrupt_valid [OF v2]])
    have v4: "valid_poll i m4" by (rule kept_by_if [OF m4 v3 stop_interrupt_valid [OF v3]])
    then have "valid_poll i (snd (usb_read_reg hw i USB_HOST_ALL_CHANNEL_INT_OFFSET m4))" by simp
    note v5 = this
    have "valid_poll i m5" using m5 unfolding tail_def Let_def split_beta
      by (rule kept_by_if [OF _ v4 kept_by_if [OF _ v5 channel_irq_valid [OF v5]]])
    note v5 = this
    show ?thesis using v5 valid_poll_cong [OF m'] by blast
  qed
qed

lemma service_polls_valid:
  assumes "valid_poll i m" "service_interrupt_polls hw i m = Some m'" shows "valid_poll i m'"
proof (cases "uh_interrupt (um_host i m)")
  case None
  then show ?thesis using assms by (simp add: service_interrupt_polls_def)
next
  case (Some s)
  then have ok: "transfer_validate (ai_transfer s) = Inr ()" using assms(1) by (rule valid_pollD [rotated])
  let ?m1 = "snd (read_counter hw m)"
  let ?m2 = "snd (duration_to_counter_ticks hw INTERRUPT_INFLIGHT_TIMEOUT ?m1)"
  have hosts: "um_hosts ?m2 = um_hosts m" by (simp add: duration_to_counter_ticks_def read_counter_frequency_def Let_def split_beta)
  have v1: "valid_poll i ?m1" using assms(1) valid_poll_cong [of ?m1 m] by simp
  show ?thesis
  proof (cases "ai_poll_phase s")
    case Poll_Idle
    then show ?thesis using assms(2) Some v1 restart_interrupt_valid [OF v1 ok]
      by (auto simp: service_interrupt_polls_def Let_def split_beta split: if_split_asm)
  next
    case Poll_Recovering
    then show ?thesis using assms Some by (simp add: service_interrupt_polls_def)
  next
    case Poll_In_Flight
    let ?s = "(reset_split_phase s)\<lparr>ai_poll_phase := Poll_Recovering\<rparr>"
    let ?m4 = "set_interrupt i (Some ?s) (configure_channel_irq hw i INTERRUPT_CHANNEL 0 ?m2)"
    have "valid_poll i (configure_channel_irq hw i INTERRUPT_CHANNEL 0 ?m2)" "valid_poll i ?m2"
      using assms(1) valid_poll_cong [OF hosts] by simp_all
    then have v4: "valid_poll i ?m4" "valid_poll i ?m2" using ok by (auto intro!: valid_poll_set simp: reset_split_phase_def)
    have "valid_poll i m'" if rec: "recover_wedged_interrupt_channel hw i ?m4 = Some m'"
    proof -
      obtain r m5 where m5: "halt_channel hw i INTERRUPT_CHANNEL ?m4 = Some (r, m5)" using rec
        by (auto simp: recover_wedged_interrupt_channel_def bind_eq_Some_conv)
      define m6 where "m6 = usb_write_channel_reg hw i INTERRUPT_CHANNEL USB_HOST_CHANNEL_INT_OFFSET 0xffffffff
        (snd (usb_read_channel_reg hw i INTERRUPT_CHANNEL USB_HOST_CHANNEL_INT_OFFSET m5))"
      have m': "m' = (case uh_interrupt (um_host i m6) of None \<Rightarrow> m6
          | Some s \<Rightarrow> let (now, m4) = read_counter hw m6 in set_interrupt i (Some (s\<lparr>ai_poll_phase := Poll_Idle, ai_next_due := now\<rparr>)) m4)"
        using rec m5 by (simp add: recover_wedged_interrupt_channel_def Let_def split_beta m6_def [symmetric] split: option.splits)
      have "um_hosts m6 = um_hosts ?m4" using halt_channel_hosts [OF m5] by (simp add: m6_def)
      note hosts6 = this
      have v6: "valid_poll i m6" using v4(1) valid_poll_cong [OF hosts6] by simp
      then have v7: "valid_poll i (snd (read_counter hw m6))" by simp
      show ?thesis
      proof (cases "uh_interrupt (um_host i m6)")
        case None
        then show ?thesis using v6 by (simp add: m')
      next
        case (Some s)
        have "transfer_validate (ai_transfer s) = Inr ()" by (rule valid_pollD [OF v6 Some])
        then show ?thesis using v7 by (auto simp: m' Some Let_def split_beta intro!: valid_poll_set)
      qed
    qed
    then show ?thesis using assms(2) Some Poll_In_Flight v4(2)
      by (auto simp: service_interrupt_polls_def Let_def split_beta split: if_split_asm)
  qed
qed

lemma refuse_valid: "valid_poll i m \<Longrightarrow> refuse_transfer t e m = Some (r, m') \<Longrightarrow> valid_poll i m'"
  by (auto simp: refuse_transfer_def bind_eq_Some_conv dest!: drop_dma_buffer_hosts valid_poll_cong)

lemma submit_valid:
  assumes "valid_poll i m" "submit_interrupt_in hw i t m = Some (r, m')" shows "valid_poll i m'"
proof (cases "transfer_validate t = Inr () \<and> uh_interrupt (um_host i m) = None")
  case False
  then show ?thesis using assms refuse_valid by (cases "transfer_validate t") (auto simp: submit_interrupt_in_def)
next
  case True
  let ?i1 = "interrupt_interval_ticks hw (tf_route t) (tf_endpoint t) m"
  let ?c = "read_counter hw (snd ?i1)"
  let ?s = "async_interrupt_state_new t (fst ?i1) (fst ?c)"
  have hosts: "um_hosts (snd ?c) = um_hosts m"
    by (simp add: interrupt_interval_ticks_def duration_to_counter_ticks_def read_counter_frequency_def Let_def split_beta)
  let ?rest = "\<lambda>r0 s m3. (case r0 of Inl e \<Rightarrow> refuse_transfer t e m3 | Inr _ \<Rightarrow> Some (Inr (), set_interrupt i (Some s) m3)) = Some (r, m')"
  have "Option.bind (start_interrupt_locked hw i ?s (snd ?c)) (\<lambda>(r0, s, m3). case r0 of Inl e \<Rightarrow> refuse_transfer t e m3
      | Inr _ \<Rightarrow> Some (Inr (), set_interrupt i (Some s) m3)) = Some (r, m')"
    using assms(2) True unfolding submit_interrupt_in_def by (simp add: Let_def split_beta)
  then obtain x where "start_interrupt_locked hw i ?s (snd ?c) = Some x" "?rest (fst x) (fst (snd x)) (snd (snd x))"
    unfolding split_beta bind_eq_Some_conv by blast
  then obtain r0 s m3 where start: "start_interrupt_locked hw i ?s (snd ?c) = Some (r0, s, m3)"
    and rest: "?rest r0 s m3" by (metis prod.collapse)
  have hosts3: "um_hosts m3 = um_hosts m" using start_interrupt_keeps(1) [OF start] hosts by simp
  have v: "valid_poll i m3" using assms(1) valid_poll_cong [OF hosts3] by simp
  have "ai_transfer s = t" using start_interrupt_keeps(2) [OF start] by (simp add: async_interrupt_state_new_def)
  then have "valid_poll i (set_interrupt i (Some s) m3)" using v True by (intro valid_poll_set) auto
  then show ?thesis using rest v by (cases r0) (auto intro: refuse_valid)
qed

lemma cancel_valid:
  assumes "valid_poll i m" "cancel_interrupt_in hw i route e m = Some (r, m')" shows "valid_poll i m'"
proof -
  have "valid_poll i m'" if halt: "halt_channel hw i INTERRUPT_CHANNEL m = Some (r0, m1)"
    and drop: "drop_dma_buffer b (set_interrupt i None (configure_channel_irq hw i INTERRUPT_CHANNEL 0 m1)) = Some m'" for r0 m1 b
  proof -
    have "valid_poll i (configure_channel_irq hw i INTERRUPT_CHANNEL 0 m1)"
      using assms(1) valid_poll_cong [OF halt_channel_hosts [OF halt], of i] by simp
    then have "valid_poll i (set_interrupt i None (configure_channel_irq hw i INTERRUPT_CHANNEL 0 m1))" by (intro valid_poll_set) auto
    then show ?thesis using valid_poll_cong [OF drop_dma_buffer_hosts [OF drop]] by blast
  qed
  then show ?thesis using assms by (auto simp: cancel_interrupt_in_def bind_eq_Some_conv split: option.splits if_split_asm)
qed

text \<open>What happens to a controller once it is set up: an interrupt, a poll, a transfer that is submitted, one that is cancelled. In
  between, the hardware, the clock and everything else that is not the list of controllers may change.\<close>

inductive usb_step :: "('d, 's) usb_hw \<Rightarrow> nat \<Rightarrow> ('d, 'h, 's, 'z) usb_machine_scheme \<Rightarrow> ('d, 'h, 's, 'z) usb_machine_scheme \<Rightarrow> bool"
  for hw :: "('d, 's) usb_hw" and i where
  step_irq: "usb_handle_irq hw i m = Some m' \<Longrightarrow> usb_step hw i m m'"
| step_poll: "service_interrupt_polls hw i m = Some m' \<Longrightarrow> usb_step hw i m m'"
| step_submit: "submit_interrupt_in hw i t m = Some (r, m') \<Longrightarrow> usb_step hw i m m'"
| step_cancel: "cancel_interrupt_in hw i route e m = Some (r, m') \<Longrightarrow> usb_step hw i m m'"
| step_other: "um_hosts m' = um_hosts m \<Longrightarrow> usb_step hw i m m'"

inductive_cases usb_stepE: "usb_step hw i m m'"

inductive usb_reachable :: "('d, 's) usb_hw \<Rightarrow> nat \<Rightarrow> ('d, 'h, 's, 'z) usb_machine_scheme \<Rightarrow> bool"
  for hw :: "('d, 's) usb_hw" and i where
  reach_start: "uh_interrupt (um_host i m) = None \<Longrightarrow> usb_reachable hw i m"
| reach_step: "usb_reachable hw i m \<Longrightarrow> usb_step hw i m m' \<Longrightarrow> usb_reachable hw i m'"

lemma usb_step_valid: "usb_step hw i m m' \<Longrightarrow> valid_poll i m \<Longrightarrow> valid_poll i m'"
  by (elim usb_stepE) (auto dest: handle_irq_valid service_polls_valid submit_valid cancel_valid valid_poll_cong)

lemma usb_reachable_valid: "usb_reachable hw i m \<Longrightarrow> valid_poll i m"
  by (induction rule: usb_reachable.induct) (auto simp: valid_poll_def dest: usb_step_valid [unfolded valid_poll_def])

text \<open>C16: At every moment, after any interrupts, polls, submissions and cancellations in any order, the transfer that a controller
  holds is of an interrupt endpoint of input, and expects at least one byte and no more than its buffer has.\<close>

theorem held_transfer_is_valid:
  assumes "usb_reachable hw i m" "uh_interrupt (um_host i m) = Some s"
  shows "from_endpoint_address (ei_address (tf_endpoint (ai_transfer s))) = Dir_In
    \<and> endpoint_type (tf_endpoint (ai_transfer s)) = Ep_Interrupt
    \<and> tf_expected_len (ai_transfer s) \<in> {1..ub_len (tf_buffer (ai_transfer s))}"
proof -
  have "transfer_validate (ai_transfer s) = Inr ()" using usb_reachable_valid [OF assms(1)] assms(2) by (rule valid_pollD)
  then show ?thesis by (auto simp: transfer_validate_def split: if_splits)
qed

text \<open>A transfer of eight bytes for the machine with one controller.\<close>


definition example_transfer :: "nat interrupt_in_transfer" where
  "example_transfer = \<lparr>tf_route = root_route 1 Speed_High,
     tf_endpoint = \<lparr>ei_address = 0x81, ei_attributes = 3, ei_max_packet_size = 8, ei_interval = 10\<rparr>, tf_expected_len = 8,
     tf_buffer = \<lparr>ub_virt_addr = 0xffff000000003000, ub_phys_addr = 0x3000, ub_len = 8\<rparr>, tf_handler = 0\<rparr>"

lemma answering_arms_interrupt:
  assumes "uh_reg_base (um_host i m) = 0" "1 < channel_count (um_host i m)" "programmed_transfer_size q < 2 ^ 32"
  shows "\<exists>m'. arm_channel answering_hw i INTERRUPT_CHANNEL q dma irqs m = Some (Inr (), m')"
proof -
  have "fst (usb_read_channel_reg answering_hw i INTERRUPT_CHANNEL USB_HOST_CHANNEL_CHARACTER_OFFSET m) = 0"
    using assms(1) by (simp add: usb_read_channel_reg_def usb_read_reg_def read_reg_def answering_hw_def channel_reg_offset_def
      hcd_defs split_beta Let_def)
  then have "halt_channel answering_hw i INTERRUPT_CHANNEL m
      = Some (Inr (), snd (usb_read_channel_reg answering_hw i INTERRUPT_CHANNEL USB_HOST_CHANNEL_CHARACTER_OFFSET m))"
    by (simp add: halt_channel_def split_beta Let_def)
  then show ?thesis using assms(2,3) by (simp add: arm_channel_def Let_def) (simp add: INTERRUPT_CHANNEL_def)
qed

lemma example_submission:
  "\<exists>m s. submit_interrupt_in answering_hw 0 example_transfer example_usb_machine = Some (Inr (), m)
    \<and> uh_interrupt (um_host 0 m) = Some s \<and> ai_transfer s = example_transfer"
proof -
  let ?t = example_transfer
  let ?i1 = "interrupt_interval_ticks answering_hw (tf_route ?t) (tf_endpoint ?t) example_usb_machine"
  let ?c = "read_counter answering_hw (snd ?i1)"
  define s0 where "s0 = async_interrupt_state_new ?t (fst ?i1) (fst ?c)"
  define m1 where "m1 = snd (next_odd_frame answering_hw 0 (on_ram (dma_clear (hw_ram answering_hw) (tf_buffer ?t)) (snd ?c)))"
  have hosts: "um_hosts m1 = um_hosts example_usb_machine"
    by (simp add: m1_def next_odd_frame_def on_ram_def interrupt_interval_ticks_def duration_to_counter_ticks_def read_counter_frequency_def
        Let_def split_beta)
  have ok: "transfer_validate ?t = Inr ()" "uh_interrupt (um_host 0 example_usb_machine) = None"
    "usb_bus_address (ub_phys_addr (tf_buffer ?t)) = Inr 0xC0003000"
    by (simp_all add: transfer_validate_def example_transfer_def from_endpoint_address_def endpoint_type_def from_attributes_def usb_bus_address_def
        USB_BUS_UNCACHED_ALIAS_def example_usb_machine_def um_host_def usb_defs)
  have host: "uh_reg_base (um_host 0 m1) = 0" "1 < channel_count (um_host 0 m1)" "um_hosts m1 \<noteq> []"
    using um_host_cong [OF hosts, of 0] hosts by (simp_all add: example_usb_machine_def um_host_def channel_count_def)
  define q where "q = \<lparr>cq_route = tf_route ?t, cq_endpoint_number = ep_number (ei_address (tf_endpoint ?t)), cq_endpoint_type = Ep_Interrupt,
    cq_direction = Dir_In, cq_max_packet_size = ei_max_packet_size (tf_endpoint ?t), cq_packet_id = Pid_Data0, cq_transfer_size = 8,
    cq_odd_frame = fst (next_odd_frame answering_hw 0 (on_ram (dma_clear (hw_ram answering_hw) (tf_buffer ?t)) (snd ?c))),
    cq_split_phase = ai_split_phase s0\<rparr>"
  have "programmed_transfer_size q < 2 ^ 32"
    by (simp add: programmed_transfer_size_def q_def uses_split_transactions_def example_transfer_def root_route_def)
  from answering_arms_interrupt [OF host(1,2) this] obtain m2
    where m2: "arm_channel answering_hw 0 INTERRUPT_CHANNEL q 0xC0003000 POLL_IRQ_MASK m1 = Some (Inr (), m2)" by blast
  have s0: "ai_transfer s0 = ?t" "ai_packet_id s0 = Pid_Data0" "min (tf_expected_len ?t) (unat (ei_max_packet_size (tf_endpoint ?t))) = 8"
    by (simp_all add: s0_def async_interrupt_state_new_def example_transfer_def)
  let ?s = "s0\<lparr>ai_last_request_len := 8, ai_poll_phase := Poll_In_Flight, ai_inflight_since := fst (read_counter answering_hw m2)\<rparr>"
  have start: "start_interrupt_locked answering_hw 0 s0 (snd ?c) = Some (Inr (), ?s, snd (read_counter answering_hw m2))"
    using m2 by (simp add: start_interrupt_locked_def s0 ok Let_def split_beta m1_def [symmetric] q_def [symmetric])
  then have "submit_interrupt_in answering_hw 0 ?t example_usb_machine
      = Some (Inr (), set_interrupt 0 (Some ?s) (snd (read_counter answering_hw m2)))"
    by (simp add: submit_interrupt_in_def ok Let_def split_beta s0_def [symmetric])
  moreover have "um_hosts m2 \<noteq> []" using arm_channel_hosts [OF m2] host(3) by simp
  ultimately show ?thesis by (simp add: set_interrupt_host s0)
qed

theorem held_transfer_is_valid_witness:
  "\<exists>(m :: (unit, unit, nat) usb_machine) s. usb_reachable answering_hw 0 m \<and> uh_interrupt (um_host 0 m) = Some s
    \<and> tf_expected_len (ai_transfer s) \<in> {1..ub_len (tf_buffer (ai_transfer s))}"
proof -
  obtain m s where m: "submit_interrupt_in answering_hw 0 example_transfer example_usb_machine = Some (Inr (), m)"
    and s: "uh_interrupt (um_host 0 m) = Some s" using example_submission by blast
  have "usb_reachable answering_hw 0 example_usb_machine"
    by (rule reach_start) (simp add: example_usb_machine_def um_host_def)
  then have "usb_reachable answering_hw 0 m" using step_submit [OF m] by (rule reach_step)
  with held_transfer_is_valid [OF this s] s show ?thesis by blast
qed

end
