(* ===== verification/Usb_Recovery.thy ===== *)
theory Usb_Recovery
  imports Usb_Polls
begin

text \<open>When a transfer is polled again, how it recovers from an interrupt that was lost, and what becomes of its buffer. The
  counter is that of \<open>Usb_Progress\<close>.\<close>

section \<open>The next poll\<close>

text \<open>C39: A transfer that ends is polled again exactly when its interval has passed, also where the counter wraps around, for an interval
  and a time of less than half of the range of the counter.\<close>

theorem poll_due_after_interval:
  fixes d :: u64
  assumes "unat (ai_interval_ticks s) < 2 ^ 63" "unat d < 2 ^ 63"
  shows "poll_is_due (mark_idle_until_next_interval now s) (now + d) \<longleftrightarrow> ai_interval_ticks s \<le> d"
proof -
  let ?i = "ai_interval_ticks s"
  have due: "poll_is_due (mark_idle_until_next_interval now s) (now + d) \<longleftrightarrow> unat (d - ?i) < 2 ^ 63"
    by (simp add: poll_is_due_def mark_idle_until_next_interval_def reset_split_phase_def word_less_nat_alt)
  show ?thesis
  proof (cases "?i \<le> d")
    case True
    then have "unat (d - ?i) = unat d - unat ?i" by (simp add: unat_sub)
    then show ?thesis using True assms due by simp
  next
    case False
    then have less: "unat d < unat ?i" by (simp add: word_le_nat_alt)
    then have "unat (d - ?i) = 2 ^ 64 + unat d - unat ?i" by (simp add: unat_sub_if')
    then show ?thesis using False assms due less by simp
  qed
qed


theorem poll_due_after_interval_witness:
  "\<exists>s. ai_interval_ticks s = 8000
    \<and> \<not> poll_is_due (mark_idle_until_next_interval 0xfffffffffffff000 s) (0xfffffffffffff000 + 7999)
    \<and> poll_is_due (mark_idle_until_next_interval 0xfffffffffffff000 s) (0xfffffffffffff000 + 8000)"
proof -
  let ?s = "async_interrupt_state_new example_transfer 8000 0"
  have "ai_interval_ticks ?s = 8000" by (simp add: async_interrupt_state_new_def)
  then show ?thesis
    using poll_due_after_interval [of ?s 7999 "0xfffffffffffff000"] poll_due_after_interval [of ?s 8000 "0xfffffffffffff000"]
    by (intro exI [of _ ?s]) simp
qed

section \<open>A poll that was lost\<close>

lemma inflight_ticks:
  assumes "clock_advances (hw_sys hw) t f"
  shows "unat (fst (duration_to_counter_ticks hw INTERRUPT_INFLIGHT_TIMEOUT m)) = unat f div 20"
    and "um_hosts (snd (duration_to_counter_ticks hw d m)) = um_hosts m"
proof -
  have "unat f < 2 ^ 32" "f \<noteq> 0" using assms by (auto simp: clock_advances_def)
  then show "unat (fst (duration_to_counter_ticks hw INTERRUPT_INFLIGHT_TIMEOUT m)) = unat f div 20"
    using short_ticks(1) [of INTERRUPT_INFLIGHT_TIMEOUT f] div_mult2_eq' [of "50000000 * unat f" 50000000 20]
    by (simp add: duration_to_counter_ticks_def read_frequency_time [OF assms] split_beta Let_def INTERRUPT_INFLIGHT_TIMEOUT_def duration_ok_def)
  show "um_hosts (snd (duration_to_counter_ticks hw d m)) = um_hosts m"
    by (simp add: duration_to_counter_ticks_def read_counter_frequency_def split_beta Let_def)
qed


text \<open>The machine above, a minute after a transfer was started.\<close>

definition wedged_usb_machine :: "(unit, unit, nat) usb_machine" where
  "wedged_usb_machine = set_interrupt 0 (Some ((async_interrupt_state_new example_transfer 8000 0)\<lparr>ai_poll_phase := Poll_In_Flight\<rparr>))
     (example_usb_machine\<lparr>um_sysregs := 60000000\<rparr>)"



section \<open>The transfer of a keyboard\<close>

text \<open>The transfer that is set up for a keyboard found in the descriptors of a device, with a report of eight bytes and the
  buffer allocated for it, is never refused by the check of the controller.\<close>

theorem found_keyboard_validates:
  assumes "find_keyboard_interface bytes = Some (interface, e)" "new_dma_buffer hw KEYBOARD_REPORT_LEN m = Some (Inr b, m')"
  shows "transfer_validate \<lparr>tf_route = route, tf_endpoint = e, tf_expected_len = KEYBOARD_REPORT_LEN, tf_buffer = b, tf_handler = k\<rparr> = Inr ()"
proof -
  have "find_interrupt_in_endpoint bytes (id_interface_number interface) = Some e"
    using assms(1) by (auto simp: find_keyboard_interface_def bind_eq_Some_conv)
  then have "from_endpoint_address (ei_address e) = Dir_In" "endpoint_type e = Ep_Interrupt"
    using interrupt_in_scan_sound [of "id_interface_number interface" "[]" "descriptor_iter bytes" e]
    by (auto simp: find_interrupt_in_endpoint_def announced_interface_def)
  moreover have "ub_len b = 8"
    using assms(2) by (auto simp: new_dma_buffer_def dma_buffer_new_zeroed_def KEYBOARD_REPORT_LEN_def bind_eq_Some_conv
      split: if_split_asm option.splits)
  ultimately show ?thesis by (simp add: transfer_validate_def KEYBOARD_REPORT_LEN_def)
qed

lemma example_keyboard:
  "find_keyboard_interface keyboard_configuration = Some (\<lparr>id_interface_number = 0, id_alternate_setting = 0, id_num_endpoints = 1,
     id_interface_class = 3, id_interface_subclass = 1, id_interface_protocol = 1, id_interface_index = 0\<rparr>,
     \<lparr>ei_address = 0x81, ei_attributes = 3, ei_max_packet_size = 8, ei_interval = 10\<rparr>)"
  by code_simp

lemma example_page: "\<exists>p mgr. alloc_page (mmu_frames example_mmu) = Some (Some p, mgr)"
proof -
  obtain mgr where mgr: "mmu_frames example_mmu = Some mgr" "allocator_ok (bm_allocator mgr)" "free_frames example_mmu = 95"
    using example_mmu_ok by blast
  have "bitmap_owned (bm_allocator mgr) \<noteq> bitmap_frames_of (bm_allocator mgr)" using mgr(1,3) by (auto simp: free_frames_def)
  then have "fst (bitmap_alloc_frame (bm_allocator mgr)) \<noteq> None"
    using bitmap.alloc_fails_iff [of "bm_allocator mgr"] mgr(2) by (auto simp: allocator_ok_def)
  then show ?thesis by (cases "bitmap_alloc_frame (bm_allocator mgr)") (auto simp: mgr(1) alloc_page_def alloc_frame_def)
qed

lemma example_buffer: "\<exists>b m'. new_dma_buffer answering_hw KEYBOARD_REPORT_LEN example_usb_machine = Some (Inr b, m')"
proof -
  obtain p mgr where p: "alloc_page (mmu_frames example_mmu) = Some (Some p, mgr)" using example_page by blast
  have mmu: "mmu_frames (bd_mmu (mx_board example_usb_machine)) = mmu_frames example_mmu" by (simp add: example_usb_machine_def)
  show ?thesis by (simp add: new_dma_buffer_def dma_buffer_new_zeroed_def KEYBOARD_REPORT_LEN_def PAGE_SIZE_def mmu p)
qed

theorem found_keyboard_validates_witness:
  "\<exists>b m'. new_dma_buffer answering_hw KEYBOARD_REPORT_LEN example_usb_machine = Some (Inr b, m')
    \<and> transfer_validate \<lparr>tf_route = root_route 2 Speed_Low,
         tf_endpoint = \<lparr>ei_address = 0x81, ei_attributes = 3, ei_max_packet_size = 8, ei_interval = 10\<rparr>,
         tf_expected_len = KEYBOARD_REPORT_LEN, tf_buffer = b, tf_handler = (0 :: nat)\<rparr> = Inr ()"
proof -
  obtain b m' where b: "new_dma_buffer answering_hw KEYBOARD_REPORT_LEN example_usb_machine = Some (Inr b, m')"
    using example_buffer by blast
  show ?thesis by (intro exI conjI, rule b, rule found_keyboard_validates [OF example_keyboard b])
qed

section \<open>Buffers are given back\<close>

abbreviation um_frames :: "('d, 'h, 's, 'z) usb_machine_scheme \<Rightarrow> frames" where
  "um_frames m \<equiv> mmu_frames (bd_mmu (mx_board m))"

lemma frames_kept [simp]:
  "um_frames (snd (usb_read_reg hw i off m)) = um_frames m"
  "um_frames (usb_write_reg hw i off v m) = um_frames m"
  "um_frames (snd (usb_read_channel_reg hw i c off m)) = um_frames m"
  "um_frames (usb_write_channel_reg hw i c off v m) = um_frames m"
  "um_frames (change_reg hw i off g m) = um_frames m"
  "um_frames (snd (read_counter hw m)) = um_frames m"
  "um_frames (snd (timeout_wait_ticks hw d m)) = um_frames m"
  "um_frames (snd (timed_out hw start wait m)) = um_frames m"
  "um_frames (on_ram h m) = um_frames m"
  by (simp_all add: usb_read_channel_reg_def usb_write_channel_reg_def usb_read_reg_def usb_write_reg_def change_reg_def usb_mrs_def
      read_counter_def read_counter_frequency_def timeout_wait_ticks_def on_ram_def timed_out_def read_reg_def write_reg_def split_beta Let_def)

lemma frames_kept_irq [simp]: "um_frames (configure_channel_irq hw i c v m) = um_frames m"
  by (simp add: configure_channel_irq_def)

lemma spin_until_frames: "spin_until hw start wait m = Some m' \<Longrightarrow> um_frames m' = um_frames m"
proof (rule spin_until.raw_induct [where P = "\<lambda>hw start wait m m'. um_frames m' = um_frames m"], goal_cases)
  case (1 f hw start wait m m')
  then show ?case by (auto simp: Let_def split_beta split: if_splits)
qed

lemma usb_delay_frames: "usb_delay hw d m = Some m' \<Longrightarrow> um_frames m' = um_frames m"
  by (auto simp: usb_delay_def Let_def split_beta read_counter_frequency_def usb_mrs_def dest: spin_until_frames split: if_splits)

lemma halt_loop_frames: "halt_loop hw i c start wait m = Some r \<Longrightarrow> um_frames (snd r) = um_frames m"
proof (rule halt_loop.raw_induct [where P = "\<lambda>hw i c start wait m r. um_frames (snd r) = um_frames m"], goal_cases)
  case (1 f hw i c start wait m r)
  let ?m1 = "snd (usb_read_channel_reg hw i c USB_HOST_CHANNEL_INT_OFFSET m)"
  have delay: "um_frames m' = um_frames m" if "usb_delay hw POLL_STEP (snd (timed_out hw start wait ?m1)) = Some m'" for m'
    using usb_delay_frames [OF that] by simp
  show ?case
  proof (cases "fst (usb_read_channel_reg hw i c USB_HOST_CHANNEL_INT_OFFSET m) AND HCINT_HALTED \<noteq> 0 \<or> fst (timed_out hw start wait ?m1)")
    case True
    then show ?thesis using 1(3) by (auto simp: Let_def split_beta log_channel_state_def split: if_splits)
  next
    case False
    with 1(3) obtain m' where m': "usb_delay hw POLL_STEP (snd (timed_out hw start wait ?m1)) = Some m'" "f hw i c start wait m' = Some r"
      by (auto simp: Let_def split_beta bind_eq_Some_conv)
    show ?thesis using 1(2) [OF m'(2)] delay [OF m'(1)] by simp
  qed
qed

lemma halt_channel_frames: "halt_channel hw i c m = Some (r, m') \<Longrightarrow> um_frames m' = um_frames m"
  by (auto simp: halt_channel_def Let_def split_beta dest!: halt_loop_frames split: if_splits)

lemma arm_channel_frames: "arm_channel hw i c q dma irqs m = Some (r, m') \<Longrightarrow> um_frames m' = um_frames m"
  by (auto simp: arm_channel_def Let_def bind_eq_Some_conv dest: halt_channel_frames split: if_splits)

lemma start_interrupt_frames:
  assumes "start_interrupt_locked hw i s m = Some (r, s', m')" shows "um_frames m' = um_frames m"
proof -
  define m1 where "m1 = snd (next_odd_frame hw i (on_ram (dma_clear (hw_ram hw) (tf_buffer (ai_transfer s))) m))"
  have frames: "um_frames m1 = um_frames m" by (simp add: m1_def next_odd_frame_def split_beta Let_def)
  show ?thesis
  proof (cases "usb_bus_address (ub_phys_addr (tf_buffer (ai_transfer s)))")
    case (Inl e)
    then show ?thesis using assms frames unfolding start_interrupt_locked_def Let_def split_beta m1_def [symmetric] by simp
  next
    case (Inr dma)
    define s1 where "s1 = s\<lparr>ai_last_request_len := min (tf_expected_len (ai_transfer s)) (unat (ei_max_packet_size (tf_endpoint (ai_transfer s))))\<rparr>"
    from Inr assms obtain q x where arm: "arm_channel hw i INTERRUPT_CHANNEL q dma POLL_IRQ_MASK m1 = Some x"
      and rest: "(case fst x of Inl e \<Rightarrow> (Inl e, s1, snd x) | Inr _ \<Rightarrow> (Inr (), s1\<lparr>ai_poll_phase := Poll_In_Flight,
        ai_inflight_since := fst (read_counter hw (snd x))\<rparr>, snd (read_counter hw (snd x)))) = (r, s', m')"
      unfolding start_interrupt_locked_def Let_def split_beta m1_def [symmetric] s1_def [symmetric]
      by (simp add: bind_eq_Some_conv del: split_paired_Ex) blast
    have "m' = snd x \<or> m' = snd (read_counter hw (snd x))" using rest by (cases "fst x") auto
    with arm show ?thesis using arm_channel_frames [of hw i INTERRUPT_CHANNEL q dma POLL_IRQ_MASK m1 "fst x" "snd x"] frames by auto
  qed
qed

lemma page_given_back:
  assumes "allocator_ok (bm_allocator mgr)" "alloc_page (Some mgr) = Some (Some va, mgr')"
  shows "dealloc_page mgr' va = Some (Some mgr)"
proof -
  note wf = assms(1) [unfolded allocator_ok_def, THEN conjunct1]
  obtain p a' where p: "bitmap_alloc_frame (bm_allocator mgr) = (Some p, a')" "va = phys_to_virt (of_nat p)"
    "mgr' = Some (mgr\<lparr>bm_allocator := a'\<rparr>)"
    using assms(2) by (auto simp: alloc_page_def alloc_frame_def split: option.splits prod.splits)
  have "p < unat LINEAR_MAP_SIZE" using bitmap_alloc_frame_Some [OF wf p(1)] assms(1) by (auto simp: allocator_ok_def)
  then have "unat (virt_to_phys va) = p"
    using virt_to_phys_to_virt [of "of_nat p"] by (simp add: p(2) unat_of_nat map_layout_defs take_bit_nat_eq_self)
  then show ?thesis using bitmap_alloc_dealloc [OF wf p(1)] by (simp add: dealloc_page_def dealloc_frame_def p(3))
qed

text \<open>C19: A transfer that is refused, because it is not valid, because the controller has another or because the channel cannot be
  armed, gives the page of its buffer back to the frame allocator, whose state is then as it was before the buffer.\<close>

theorem refused_transfer_returns_page:
  assumes "um_frames m = Some mgr" "allocator_ok (bm_allocator mgr)"
    and buffer: "new_dma_buffer hw len m = Some (Inr (tf_buffer t), m1)"
    and refused: "submit_interrupt_in hw i t m1 = Some (Inl e, m2)"
  shows "um_frames m2 = Some mgr"
proof -
  obtain mgr' where page: "alloc_page (Some mgr) = Some (Some (ub_virt_addr (tf_buffer t)), mgr')" and m1: "um_frames m1 = mgr'"
    using buffer assms(1) by (auto simp: new_dma_buffer_def dma_buffer_new_zeroed_def bind_eq_Some_conv set_frames_def
      split: if_split_asm option.splits dest!: sym [where t = "tf_buffer t"])
  have undo: "dealloc_page mgr' (ub_virt_addr (tf_buffer t)) = Some (Some mgr)" by (rule page_given_back [OF assms(2) page])
  have refuse: "um_frames m' = Some mgr" if "refuse_transfer t e' m0 = Some (r, m')" "um_frames m0 = mgr'" for e' r m0 m'
    using that undo by (auto simp: refuse_transfer_def drop_dma_buffer_def dma_drop_def bind_eq_Some_conv set_frames_def)
  show ?thesis
  proof (cases "transfer_validate t = Inr () \<and> uh_interrupt (um_host i m1) = None")
    case False
    then have "\<exists>e'. refuse_transfer t e' m1 = Some (Inl e, m2)"
      using refused by (cases "transfer_validate t") (auto simp: submit_interrupt_in_def)
    then show ?thesis using refuse m1 by blast
  next
    case True
    let ?i1 = "interrupt_interval_ticks hw (tf_route t) (tf_endpoint t) m1"
    let ?c = "read_counter hw (snd ?i1)"
    let ?s = "async_interrupt_state_new t (fst ?i1) (fst ?c)"
    have frames: "um_frames (snd ?c) = mgr'"
      by (simp add: m1 interrupt_interval_ticks_def duration_to_counter_ticks_def read_counter_frequency_def usb_mrs_def Let_def split_beta)
    have "Option.bind (start_interrupt_locked hw i ?s (snd ?c)) (\<lambda>(r0, s, m3). case r0 of Inl e \<Rightarrow> refuse_transfer t e m3
        | Inr _ \<Rightarrow> Some (Inr (), set_interrupt i (Some s) m3)) = Some (Inl e, m2)"
      using refused True unfolding submit_interrupt_in_def by (simp add: Let_def split_beta)
    then obtain x where start: "start_interrupt_locked hw i ?s (snd ?c) = Some x"
      and rest: "(case fst x of Inl e \<Rightarrow> refuse_transfer t e (snd (snd x)) | Inr _ \<Rightarrow> Some (Inr (), set_interrupt i (Some (fst (snd x))) (snd (snd x))))
        = Some (Inl e, m2)"
      unfolding split_beta bind_eq_Some_conv by blast
    have "um_frames (snd (snd x)) = mgr'" using start_interrupt_frames [of hw i ?s "snd ?c" "fst x" "fst (snd x)" "snd (snd x)"] start frames by simp
    then show ?thesis using rest refuse by (cases "fst x") auto
  qed
qed

theorem refused_transfer_returns_page_witness:
  "\<exists>t m1 m2. new_dma_buffer answering_hw KEYBOARD_REPORT_LEN wedged_usb_machine = Some (Inr (tf_buffer t), m1)
    \<and> submit_interrupt_in answering_hw 0 t m1 = Some (Inl Usb_Busy, m2) \<and> um_frames m2 = mmu_frames example_mmu"
proof -
  obtain mgr where mgr: "mmu_frames example_mmu = Some mgr" "allocator_ok (bm_allocator mgr)" using example_mmu_ok by blast
  obtain p mgr' where page: "alloc_page (Some mgr) = Some (Some p, mgr')" using example_page mgr(1) by auto
  have frames: "um_frames wedged_usb_machine = Some mgr"
    by (simp add: wedged_usb_machine_def set_interrupt_def update_host_def example_usb_machine_def mgr(1))
  define b where "b = \<lparr>ub_virt_addr = p, ub_phys_addr = virt_to_phys p, ub_len = 8\<rparr>"
  define t where "t = example_transfer\<lparr>tf_buffer := b\<rparr>"
  obtain m1 where m1: "new_dma_buffer answering_hw KEYBOARD_REPORT_LEN wedged_usb_machine = Some (Inr b, m1)"
    "um_hosts m1 = um_hosts wedged_usb_machine" "um_frames m1 = mgr'"
    by (simp add: new_dma_buffer_def dma_buffer_new_zeroed_def KEYBOARD_REPORT_LEN_def PAGE_SIZE_def frames page b_def set_frames_def)
  have "transfer_validate t = Inr ()"
    by (simp add: transfer_validate_def t_def b_def example_transfer_def from_endpoint_address_def endpoint_type_def from_attributes_def usb_defs)
  moreover have "uh_interrupt (um_host 0 m1) \<noteq> None"
    unfolding um_host_cong [OF m1(2)] by (simp add: wedged_usb_machine_def set_interrupt_host) (simp add: example_usb_machine_def)
  ultimately have "submit_interrupt_in answering_hw 0 t m1 = Some (Inl Usb_Busy, set_frames (Some mgr) m1)"
    using page_given_back [OF mgr(2) page] m1(3)
    by (simp add: submit_interrupt_in_def refuse_transfer_def drop_dma_buffer_def dma_drop_def t_def b_def)
  note busy = this
  have t: "tf_buffer t = b" by (simp add: t_def)
  show ?thesis
    using m1(1) busy refused_transfer_returns_page [OF frames mgr(2) m1(1) [folded t] busy] mgr(1) t by metis
qed

end
