(* ===== verification/Spec2Isabelle.thy ===== *)
theory Spec2Isabelle
  imports Ring_Array Cpu Locks Phys_Memory Frame_Allocator Scheduler Fdt Fdt_Encoding Device_Tree Mmio Drivers Irq Mmu Device_Probe Intc Time Timers Heap_Allocator Terminal Font Drawing Dma Fb_Console Shell Console
    Number_Formats Boot_World Device_Irq Watchdog Rng Mailbox Firmware_Messages Firmware Framebuffer Serial Clocks
    Usb_Core Usb_Keyboard Usb_Host Usb_Transfers Usb_Progress Usb_Device Usb_Polls Usb_Recovery
begin
text \<open>
  A verification development for kruspix, an operating-system kernel in Rust for the 64-bit ARM cores of
  the Raspberry Pi 3. All paths are under \<open>src/src/\<close>.

  \<^bold>\<open>The program.\<close> \<open>main.rs\<close> starts the kernel: \<open>setup_arch\<close> finds the memory in the flattened device tree the boot
  loader leaves and hands it to the frame allocator, \<open>setup_page_tables\<close> builds the linear map from its
  frames, \<open>init_heap\<close> puts a heap on top, \<open>init_devicetree\<close> turns the flattened tree into a tree of nodes, and
  \<open>init_platform_drivers\<close> matches its nodes with drivers until no node is left that can be initialised. Drivers
  register interrupt controllers, timers and terminal devices with the modules under \<open>kernel/\<close>; \<open>start_sched\<close> arms
  the local alarm that drives the scheduler, and the tasks of the shell and of the USB input run.

  \<^bold>\<open>The theories\<close>, in the order of the imports:
  \<^item> \<open>Kruspix_Prelude\<close>: the machine integers, panics, byte order and strings, and the lemmas all parts share.
  \<^item> \<open>Ring_Array\<close> (\<open>common/ring_array.rs\<close>): the ring of the newest items, with the locale \<open>bounded_log\<close>.
  \<^item> \<open>Cpu\<close> (\<open>arch/arm64/cpu.rs\<close>, \<open>kernel/sync/mod.rs\<close>): the interrupt mask, \<open>without_interrupts\<close>, the switch of contexts
    and the ranges of cache maintenance.
  \<^item> \<open>Locks\<close> (\<open>kernel/sync/\<close>, \<open>common/hash.rs\<close>): the spin lock and the write-once cell as step relations over the atomic
    instructions of any number of threads, and the table of locks for addresses.
  \<^item> \<open>Phys_Memory\<close> (\<open>mm/memory.rs\<close>, \<open>mm/layout.rs\<close>): the memory banks less the reserved regions.
  \<^item> \<open>Frame_Allocator\<close> (\<open>mm/frame_allocator.rs\<close>, \<open>mm/mod.rs\<close>): the bitmap of frames, with the locale
    \<open>page_frame_allocator\<close> its clients use.
  \<^item> \<open>Scheduler\<close> (\<open>kernel/sched.rs\<close>): tasks, queues, the timer tick and termination.
  \<^item> \<open>Fdt\<close>, \<open>Fdt_Encoding\<close> (\<open>kernel/devicetree/fdt/\<close>): the reader of the flattened tree, and the encoding of the
    Devicetree Specification it is proved to read.
  \<^item> \<open>Device_Tree\<close> (\<open>kernel/devicetree/\<close>): the typed tree, its construction, paths, phandles and addresses.
  \<^item> \<open>Mmio\<close>, \<open>Device_Probe\<close>: register blocks behind a bus, and the steps shared by the drivers' \<open>try_init\<close>.
  \<^item> \<open>Drivers\<close> (\<open>drivers/mod.rs\<close>): matching, retrying and the registries of devices.
  \<^item> \<open>Irq\<close> (\<open>kernel/irq.rs\<close>), \<open>Intc\<close> (\<open>drivers/interrupt_controller/\<close>): virtual interrupt numbers, dispatch and the two
    controllers of the board, with the locale \<open>irq_translation\<close>.
  \<^item> \<open>Mmu\<close> (\<open>arch/arm64/mm/mmu/\<close>): descriptors, \<open>map_page\<close>, the boot tables and \<open>map_io_region\<close>.
  \<^item> \<open>Time\<close> (\<open>kernel/time.rs\<close>, \<open>kernel/cpu.rs\<close>), \<open>Timers\<close> (\<open>drivers/timer/\<close>): durations, waiting, the two timers.
  \<^item> \<open>Heap_Allocator\<close> (\<open>mm/heap_allocator.rs\<close>, \<open>mm/allocator.rs\<close>): the kernel heap over memory reached through the
    page tables.
  \<^item> \<open>Terminal\<close> (\<open>kernel/terminal.rs\<close>): the line discipline, its echo and the choice of devices.
  \<^item> \<open>Font\<close>, \<open>Drawing\<close>, \<open>Fb_Console\<close> (\<open>drivers/display/\<close>): the font, drawing into video memory, and the text console, down
    to the colour of every pixel.
  \<^item> \<open>Dma\<close> (\<open>drivers/dma_controller/bcm2835_dma.rs\<close>): channels, control blocks, the transfers and the interrupt.
  \<^item> \<open>Shell\<close> (\<open>kernel/shell.rs\<close>, \<open>kernel/power.rs\<close>), \<open>Console\<close> (\<open>kernel/console.rs\<close>, \<open>print.rs\<close>): the command line on top of
    the terminal, restart and power off, and the log from the first message on.
  \<^item> \<open>Number_Formats\<close>: decimal numbers and little-endian bytes. \<open>Boot_World\<close>: the console and the terminal over one machine.
    \<open>Device_Irq\<close>: attaching the interrupt of a device.
  \<^item> \<open>Watchdog\<close> (\<open>kernel/watchdog.rs\<close>, \<open>drivers/watchdog/\<close>), \<open>Rng\<close> (\<open>kernel/rng.rs\<close>, \<open>drivers/rng/\<close>), \<open>Clocks\<close>
    (\<open>kernel/clk.rs\<close>, \<open>drivers/clock_controller/\<close>), \<open>Serial\<close> (\<open>drivers/serial/\<close>): the services and their devices.
  \<^item> \<open>Mailbox\<close> (\<open>drivers/mailbox/\<close>), \<open>Firmware_Messages\<close>, \<open>Firmware\<close> (\<open>drivers/syscon/\<close>): the mailbox, the messages of the
    property interface and the calls of the firmware. \<open>Framebuffer\<close> (\<open>drivers/display/bcm2708_fb.rs\<close>): the frame buffer it
    gives out.
  \<^item> \<open>Usb_Core\<close> (\<open>drivers/usb/core.rs\<close>): descriptors, setup packets, buffers and standard requests, with the locale
    \<open>usb_controller\<close> of a controller that fills no more than the buffer it is given.
  \<^item> \<open>Usb_Host\<close>, \<open>Usb_Device\<close>, \<open>Usb_Keyboard\<close> (\<open>drivers/usb/bcm2708_usb.rs\<close>): the channels and control transfers; the
    interrupt endpoint, the enumeration and the driver; the keyboard. \<open>Usb_Transfers\<close> interprets \<open>usb_controller\<close>,
    \<open>Usb_Progress\<close> proves that transfers return, \<open>Usb_Polls\<close> has the invariant of the transfer that is held, \<open>Usb_Recovery\<close> its
    polls, its recovery and its buffer.

  \<^bold>\<open>Conventions.\<close> A Rust \<open>panic\<close> (and a fault of the machine) is the value \<open>None\<close>; a \<open>Result\<close> is a sum with the error
  on the left, and an \<open>Option\<close> is an option. Integers are words of their width and wrap, as in the release
  build of the kernel, which does not check overflow. Where the code calls \<open>checked_add\<close> or asserts, so does the model.
  Shared structures behind an \<open>Arc\<close> are held once, in a table the references index. An operation that runs under a
  spin lock is one step of the model: \<open>Locks\<close> proves that a lock is held by one thread at a time. Log
  messages and memory barriers are left out (except in \<open>Console\<close>, which is about them). Devices are parameters: a state and what a read or write of an
  address does to it (\<open>Mmio\<close>); the theorems that speak of a device state what they assume of it. Loops
  over memory that need not end (the walk through a damaged device tree, waiting for a counter) are partial
  functions whose result is \<open>None\<close> when they do not end, and their theorems prove that they do.
  No fuel is used: every other loop ends by its structure.

  \<^bold>\<open>What is proved.\<close> Each component has an invariant and its preservation, and the properties that rest on it: no task is
  lost and none starves; the tree built at boot is the one the bytes encode; mapping a page changes the
  translation of that page only; frames and heap blocks in use never overlap, and the heap's stay mapped; each
  interrupt line has a number of its own, and an interrupt resolved for a device reaches the handler of its
  line; drivers that wait for one another are all initialised; locks exclude and cells are set once; the terminal
  delivers the edited lines and shows them, the shell splits them into words and runs their command, the log keeps
  what is written before a console exists, and the pixels of the screen are those of the text; the firmware reads from
  a message the tags that were put into it and the driver reads its answers; every accepted frame buffer is drawn
  inside its memory; USB transfers return whatever the device answers (but for a packet size of zero), stay inside
  their buffers, recover from a lost interrupt and give back the pages of refused ones, and a keyboard types the keys
  that are newly pressed. Theorems whose kind is an error state where the code departs from what
  it means to do.

  \<^bold>\<open>Not modelled.\<close> The assembly of \<open>arch/arm64/kernel/entry.rs\<close> (the boot stub and the exception vectors) and \<open>setup.rs\<close>. In the USB
  driver the caches (memory is coherent), the locks, and interrupts that come while the driver waits for a transfer.
\<close>

end
